(* ===== verification/Prelude.thy ===== *)
theory Prelude
  imports
    Main
    "HOL-Library.Multiset"
    "HOL-Library.Word"
    "HOL-Library.Char_ord"
    "HOL-Library.List_Lexorder"
begin

text \<open>
  Shared base of the goacos development: Go errors and results as values, Go maps read with their
  zero value, 64-bit signed wrap-around, the stable sort of the \<^verbatim>\<open>sort\<close> package, and the generic
  lemmas on lists and maps that the component theories use.  The collection
  \<^theory_text>\<open>go_simps\<close> gathers the unfolding rules of the result and state combinators.
\<close>

named_theorems go_simps \<open>unfolding rules of results, maps and state-passing combinators\<close>

subsection \<open>Errors and results\<close>

text \<open>Every \<^verbatim>\<open>error\<close> value that the modelled code creates or compares.  \<open>Panic\<close> is a Go run-time
  panic (index out of range, nil dereference), which ends the request.\<close>

datatype goerr =
    ErrNoRows
  | ErrSQL string
  | ErrDup string
  | ErrMsg string
  | Panic string

type_synonym 'a res = "goerr + 'a"

type_synonym ('s, 'a) op = "'s \<Rightarrow> 'a res \<times> 's"

definition retS :: "'a \<Rightarrow> ('s, 'a) op" where
  "retS a s = (Inr a, s)"

definition failS :: "goerr \<Rightarrow> ('s, 'a) op" where
  "failS e s = (Inl e, s)"

definition bindS :: "('s, 'a) op \<Rightarrow> ('a \<Rightarrow> ('s, 'b) op) \<Rightarrow> ('s, 'b) op" where
  "bindS m k s = (case m s of (Inl e, s') \<Rightarrow> (Inl e, s') | (Inr a, s') \<Rightarrow> k a s')"

text \<open>\<open>tryS m h k\<close> runs \<open>m\<close> and hands an error to \<open>h\<close> and a value to \<open>k\<close>: the Go idiom of inspecting
  \<^verbatim>\<open>err\<close> before going on.\<close>

definition tryS :: "('s, 'a) op \<Rightarrow> (goerr \<Rightarrow> ('s, 'b) op) \<Rightarrow> ('a \<Rightarrow> ('s, 'b) op) \<Rightarrow> ('s, 'b) op" where
  "tryS m h k s = (case m s of (Inl e, s') \<Rightarrow> h e s' | (Inr a, s') \<Rightarrow> k a s')"

fun mapS :: "('a \<Rightarrow> ('s, 'b) op) \<Rightarrow> 'a list \<Rightarrow> ('s, 'b list) op" where
  "mapS f [] = retS []"
| "mapS f (x # xs) = bindS (f x) (\<lambda>y. bindS (mapS f xs) (\<lambda>ys. retS (y # ys)))"

lemmas op_defs [go_simps] = retS_def failS_def bindS_def tryS_def

definition is_ok :: "'a res \<times> 's \<Rightarrow> bool" where
  "is_ok r \<longleftrightarrow> \<not> isl (fst r)"

lemma is_ok_simps [simp]:
  "is_ok (Inr a, s)" "\<not> is_ok (Inl e, s)"
  by (simp_all add: is_ok_def)

text \<open>An operation preserves \<open>P\<close> when every outcome, error or value, leaves a state with \<open>P\<close>.\<close>

definition preserves :: "('s \<Rightarrow> bool) \<Rightarrow> ('s, 'a) op \<Rightarrow> bool" where
  "preserves P m \<longleftrightarrow> (\<forall>s. P s \<longrightarrow> P (snd (m s)))"

named_theorems pres_intros \<open>preservation rules of the state-passing combinators\<close>

lemma preservesD: "preserves P m \<Longrightarrow> P s \<Longrightarrow> P (snd (m s))"
  by (simp add: preserves_def)

lemma preserves_ret [pres_intros]: "preserves P (retS a)"
  by (simp add: preserves_def retS_def)

lemma preserves_fail [pres_intros]: "preserves P (failS e)"
  by (simp add: preserves_def failS_def)

lemma preserves_bind [pres_intros]:
  assumes "preserves P m" and "\<And>a. preserves P (k a)"
  shows "preserves P (bindS m k)"
  unfolding preserves_def
proof (intro allI impI)
  fix s assume "P s"
  then have s': "P (snd (m s))" using assms(1) by (rule preservesD [rotated])
  show "P (snd (bindS m k s))"
    using s' assms(2) by (cases "m s") (auto simp: bindS_def preserves_def split: sum.split)
qed

lemma preserves_try [pres_intros]:
  assumes "preserves P m" and "\<And>e. preserves P (h e)" and "\<And>a. preserves P (k a)"
  shows "preserves P (tryS m h k)"
  unfolding preserves_def
proof (intro allI impI)
  fix s assume "P s"
  then have s': "P (snd (m s))" using assms(1) by (rule preservesD [rotated])
  show "P (snd (tryS m h k s))"
    using s' assms(2,3) by (cases "m s") (auto simp: tryS_def preserves_def split: sum.split)
qed

lemma preserves_if [pres_intros]:
  "(b \<Longrightarrow> preserves P m) \<Longrightarrow> (\<not> b \<Longrightarrow> preserves P n) \<Longrightarrow> preserves P (if b then m else n)"
  by simp

lemma preserves_case_option [pres_intros]:
  "(x = None \<Longrightarrow> preserves P m) \<Longrightarrow> (\<And>a. x = Some a \<Longrightarrow> preserves P (k a)) \<Longrightarrow>
   preserves P (case x of None \<Rightarrow> m | Some a \<Rightarrow> k a)"
  by (cases x) simp_all

lemma preserves_mapS [pres_intros]:
  "(\<And>x. preserves P (f x)) \<Longrightarrow> preserves P (mapS f xs)"
  by (induction xs) (auto intro!: pres_intros)

subsection \<open>Go maps and integers\<close>

text \<open>Reading a missing key of a Go map gives the element type's zero value.\<close>

definition mget :: "'v \<Rightarrow> ('k \<rightharpoonup> 'v) \<Rightarrow> 'k \<Rightarrow> 'v" where
  "mget z m k = (case m k of None \<Rightarrow> z | Some v \<Rightarrow> v)"

lemma mget_simps [simp]:
  "mget z Map.empty k = z"
  "mget z (m(k \<mapsto> v)) k = v"
  "k \<noteq> j \<Longrightarrow> mget z (m(j \<mapsto> v)) k = mget z m k"
  by (simp_all add: mget_def)

lemma mget_upd: "mget z (m(j \<mapsto> v)) k = (if k = j then v else mget z m k)"
  by simp

text \<open>The same update after the simplifier has eta-expanded it.\<close>

lemma mget_if [simp]: "mget z (\<lambda>b. if b = j then Some v else m b) k = (if k = j then v else mget z m k)"
  by (simp add: mget_def)

text \<open>A Go \<^verbatim>\<open>map[string]string\<close> whose iteration order is irrelevant to the caller is an association
  list with the first binding visible; \<open>aget\<close> reads it.\<close>

type_synonym smap = "(string \<times> string) list"

definition aget :: "smap \<Rightarrow> string \<Rightarrow> string" where
  "aget m k = mget [] (map_of m) k"

definition aput :: "smap \<Rightarrow> string \<Rightarrow> string \<Rightarrow> smap" where
  "aput m k v = (k, v) # filter (\<lambda>p. fst p \<noteq> k) m"

lemma map_of_filter_neq: "map_of (filter (\<lambda>p. fst p \<noteq> k) m) j = (if j = k then None else map_of m j)"
  by (induction m) auto

lemma map_of_aput [simp]: "map_of (aput m k v) = (map_of m)(k \<mapsto> v)"
  by (rule ext) (simp add: aput_def map_of_filter_neq)

lemma distinct_aput [simp]: "distinct (map fst m) \<Longrightarrow> distinct (map fst (aput m k v))"
  by (induction m) (auto simp: aput_def)

text \<open>64-bit signed arithmetic wraps.\<close>

definition i64 :: "int \<Rightarrow> int" where
  "i64 x = (x + 2 ^ 63) mod 2 ^ 64 - 2 ^ 63"

lemma i64_range: "- (2 ^ 63) \<le> i64 x" "i64 x < 2 ^ 63"
  by (simp_all add: i64_def)

lemma i64_id: "- (2 ^ 63) \<le> x \<Longrightarrow> x < 2 ^ 63 \<Longrightarrow> i64 x = x"
  by (simp add: i64_def)

subsection \<open>Stable sorting\<close>

text \<open>\<^verbatim>\<open>sort.SliceStable\<close> with a \<^verbatim>\<open>less\<close> function.  For a strict weak order the stably sorted list is
  unique (lemma \<open>stable_unique\<close> below), so insertion sort stands for the library's algorithm.\<close>

fun insStable :: "('a \<Rightarrow> 'a \<Rightarrow> bool) \<Rightarrow> 'a \<Rightarrow> 'a list \<Rightarrow> 'a list" where
  "insStable lt x [] = [x]"
| "insStable lt x (y # ys) = (if lt y x then y # insStable lt x ys else x # y # ys)"

fun sliceStable :: "('a \<Rightarrow> 'a \<Rightarrow> bool) \<Rightarrow> 'a list \<Rightarrow> 'a list" where
  "sliceStable lt [] = []"
| "sliceStable lt (x # xs) = insStable lt x (sliceStable lt xs)"

lemma mset_insStable [simp]: "mset (insStable lt x ys) = add_mset x (mset ys)"
  by (induction ys) auto

lemma mset_sliceStable [simp]: "mset (sliceStable lt xs) = mset xs"
  by (induction xs) auto

lemma set_sliceStable [simp]: "set (sliceStable lt xs) = set xs"
  by (metis mset_sliceStable set_mset_mset)

lemma set_insStable [simp]: "set (insStable lt x ys) = insert x (set ys)"
  by (metis list.simps(15) mset.simps(2) mset_insStable set_mset_mset)

lemma length_sliceStable [simp]: "length (sliceStable lt xs) = length xs"
  by (metis mset_sliceStable size_mset)

lemma distinct_sliceStable [simp]: "distinct (sliceStable lt xs) = distinct xs"
  by (metis mset_eq_imp_distinct_iff mset_sliceStable)

lemma distinct_map_sliceStable [simp]: "distinct (map f (sliceStable lt xs)) = distinct (map f xs)"
  by (metis mset_eq_imp_distinct_iff mset_map mset_sliceStable)

locale strict_weak_order =
  fixes lt :: "'a \<Rightarrow> 'a \<Rightarrow> bool"
  assumes less_asym: "lt x y \<Longrightarrow> \<not> lt y x"
    and less_cotrans: "lt x z \<Longrightarrow> lt x y \<or> lt y z"
begin

lemma less_irrefl: "\<not> lt x x"
  using less_asym by blast

lemma less_trans: "lt x y \<Longrightarrow> lt y z \<Longrightarrow> lt x z"
  using less_asym less_cotrans by blast

definition le :: "'a \<Rightarrow> 'a \<Rightarrow> bool" where
  "le x y \<longleftrightarrow> \<not> lt y x"

definition eqv :: "'a \<Rightarrow> 'a \<Rightarrow> bool" where
  "eqv x y \<longleftrightarrow> \<not> lt x y \<and> \<not> lt y x"

lemma le_trans: "le x y \<Longrightarrow> le y z \<Longrightarrow> le x z"
  using less_cotrans unfolding le_def by blast

lemma le_refl: "le x x"
  by (simp add: le_def less_irrefl)

lemma sorted_insStable: "sorted_wrt le ys \<Longrightarrow> sorted_wrt le (insStable lt x ys)"
proof (induction ys)
  case (Cons y ys)
  then show ?case
    by (cases "lt y x") (auto simp: le_def dest: less_asym less_cotrans [where y = y])
qed simp

lemma sorted_sliceStable: "sorted_wrt le (sliceStable lt xs)"
  by (induction xs) (auto simp: sorted_insStable)

lemma filter_insStable:
  "filter (eqv z) (insStable lt x ys) = (if eqv z x then x # filter (eqv z) ys else filter (eqv z) ys)"
proof (induction ys)
  case (Cons y ys)
  have "lt y x \<Longrightarrow> eqv z x \<Longrightarrow> \<not> eqv z y"
    using less_cotrans unfolding eqv_def by blast
  with Cons show ?case by auto
qed simp

lemma stable_sliceStable: "filter (eqv z) (sliceStable lt xs) = filter (eqv z) xs"
  by (induction xs) (simp_all add: filter_insStable)

lemma sliceStable_hd_least:
  assumes "x \<in> set xs"
  shows "\<not> lt x (hd (sliceStable lt xs))"
proof -
  obtain h t where ht: "sliceStable lt xs = h # t"
    using assms by (cases "sliceStable lt xs") (metis empty_iff list.set(1) set_sliceStable, simp)
  then have "x = h \<or> x \<in> set t" using assms by (metis set_ConsD set_sliceStable)
  then show ?thesis
    using sorted_sliceStable [of xs] ht less_irrefl by (auto simp: le_def)
qed

text \<open>Two sorted lists with the same stable classes are equal: the result of a stable sort is
  unique.\<close>

lemma stable_unique:
  assumes "sorted_wrt le xs" "sorted_wrt le ys"
    and "\<And>z. filter (eqv z) xs = filter (eqv z) ys"
  shows "xs = ys"
  using assms
proof (induction xs arbitrary: ys)
  case Nil
  show ?case
  proof (cases ys)
    case (Cons y t)
    then show ?thesis using Nil(3) [of y] less_irrefl by (simp add: eqv_def)
  qed simp
next
  case (Cons x xs)
  have xx: "eqv x x" by (simp add: eqv_def less_irrefl)
  with Cons.prems(3) [of x] have ne: "filter (eqv x) ys = x # filter (eqv x) xs"
    by simp
  then obtain y t where ys: "ys = y # t" by (cases ys) auto
  have "eqv y y" by (simp add: eqv_def less_irrefl)
  then have "filter (eqv y) (x # xs) = y # filter (eqv y) t"
    unfolding Cons.prems(3) [of y] ys by simp
  then have "y \<in> set (x # xs)"
    by (metis filter_is_subset list.set_intros(1) subsetD)
  then have "le x y" using Cons.prems(1) le_refl by (auto simp: eqv_def le_def)
  moreover have "x \<in> set ys" using ne by (metis filter_is_subset list.set_intros(1) subsetD)
  then have "le y x" using Cons.prems(2) ys le_refl by auto
  ultimately have "eqv x y" by (simp add: eqv_def le_def)
  then have xy: "x = y" using ne ys by simp
  have "xs = t"
  proof (rule Cons.IH)
    show "sorted_wrt le xs" "sorted_wrt le t" using Cons.prems ys by auto
    show "filter (eqv z) xs = filter (eqv z) t" for z
      using Cons.prems(3) [of z] ys xy by (simp split: if_splits)
  qed
  then show ?case using ys xy by simp
qed

lemma filter_sliceStable: "filter p (sliceStable lt xs) = sliceStable lt (filter p xs)"
proof (rule stable_unique)
  show "sorted_wrt le (filter p (sliceStable lt xs))"
    by (rule sorted_wrt_filter [OF sorted_sliceStable])
  show "sorted_wrt le (sliceStable lt (filter p xs))" by (rule sorted_sliceStable)
  have "filter (eqv z) (filter p (sliceStable lt xs)) = filter p (filter (eqv z) (sliceStable lt xs))" for z
    by (simp add: conj_commute)
  then show "filter (eqv z) (filter p (sliceStable lt xs)) = filter (eqv z) (sliceStable lt (filter p xs))" for z
    by (simp add: stable_sliceStable conj_commute)
qed

end

text \<open>Comparators of the code are lexicographic: a key decides and a tie falls through to the next
  comparator.\<close>

definition lexless :: "('a \<Rightarrow> 'k::linorder) \<Rightarrow> ('a \<Rightarrow> 'a \<Rightarrow> bool) \<Rightarrow> 'a \<Rightarrow> 'a \<Rightarrow> bool" where
  "lexless key rest x y = (if key x \<noteq> key y then key x < key y else rest x y)"

definition lexgreater :: "('a \<Rightarrow> 'k::linorder) \<Rightarrow> ('a \<Rightarrow> 'a \<Rightarrow> bool) \<Rightarrow> 'a \<Rightarrow> 'a \<Rightarrow> bool" where
  "lexgreater key rest x y = (if key x \<noteq> key y then key x > key y else rest x y)"

lemma swo_key: "strict_weak_order (\<lambda>x y. (key x :: 'k::linorder) < key y)"
  by unfold_locales auto

lemma swo_lexless:
  assumes "strict_weak_order rest"
  shows "strict_weak_order (lexless key rest)"
  by unfold_locales
    (use assms in \<open>auto simp: lexless_def strict_weak_order_def split: if_splits\<close>)

lemma swo_lexgreater:
  assumes "strict_weak_order rest"
  shows "strict_weak_order (lexgreater key rest)"
  by unfold_locales
    (use assms in \<open>auto simp: lexgreater_def strict_weak_order_def split: if_splits\<close>)

lemmas swo_intros = swo_key swo_lexless swo_lexgreater

end
