(* ===== verification/GoStrings.thy ===== *)
theory GoStrings
  imports Prelude
begin

text \<open>
  The part of Go's \<^verbatim>\<open>strings\<close> and \<^verbatim>\<open>strconv\<close> packages that the repository uses.  A Go string is its
  list of bytes (\<^typ>\<open>char\<close> is an 8-bit value).  Case mapping and white space are those of ASCII:
  bytes from 128 on are left alone.
\<close>

subsection \<open>Case, white space, affixes\<close>

definition byte :: "char \<Rightarrow> nat" where
  "byte c = of_char c"

definition lowerChar :: "char \<Rightarrow> char" where
  "lowerChar c = (if 65 \<le> byte c \<and> byte c \<le> 90 then char_of (byte c + 32) else c)"

definition upperChar :: "char \<Rightarrow> char" where
  "upperChar c = (if 97 \<le> byte c \<and> byte c \<le> 122 then char_of (byte c - 32) else c)"

definition toLower :: "string \<Rightarrow> string" where
  "toLower s = map lowerChar s"

definition toUpper :: "string \<Rightarrow> string" where
  "toUpper s = map upperChar s"

definition equalFold :: "string \<Rightarrow> string \<Rightarrow> bool" where
  "equalFold s t \<longleftrightarrow> toLower s = toLower t"

definition isSpace :: "char \<Rightarrow> bool" where
  "isSpace c \<longleftrightarrow> (9 \<le> byte c \<and> byte c \<le> 13) \<or> byte c = 32"

definition trimLeft :: "(char \<Rightarrow> bool) \<Rightarrow> string \<Rightarrow> string" where
  "trimLeft p s = dropWhile p s"

definition trimRight :: "(char \<Rightarrow> bool) \<Rightarrow> string \<Rightarrow> string" where
  "trimRight p s = rev (dropWhile p (rev s))"

definition trimSpace :: "string \<Rightarrow> string" where
  "trimSpace s = trimRight isSpace (trimLeft isSpace s)"

definition hasPrefix :: "string \<Rightarrow> string \<Rightarrow> bool" where
  "hasPrefix s p \<longleftrightarrow> take (length p) s = p"

definition hasSuffix :: "string \<Rightarrow> string \<Rightarrow> bool" where
  "hasSuffix s p \<longleftrightarrow> hasPrefix (rev s) (rev p)"

definition trimPrefix :: "string \<Rightarrow> string \<Rightarrow> string" where
  "trimPrefix s p = (if hasPrefix s p then drop (length p) s else s)"

definition trimSuffix :: "string \<Rightarrow> string \<Rightarrow> string" where
  "trimSuffix s p = (if hasSuffix s p then take (length s - length p) s else s)"

lemma lowerChar_idem [simp]: "lowerChar (lowerChar c) = lowerChar c"
  by (auto simp: lowerChar_def byte_def)

lemma toLower_idem [simp]: "toLower (toLower s) = toLower s"
  by (simp add: toLower_def)

lemma toLower_Nil [simp]: "toLower [] = []"
  by (simp add: toLower_def)

lemma length_toLower [simp]: "length (toLower s) = length s"
  by (simp add: toLower_def)

lemma toLower_append: "toLower (s @ t) = toLower s @ toLower t"
  by (simp add: toLower_def)

lemma isSpace_lowerChar [simp]: "isSpace (lowerChar c) = isSpace c"
  by (auto simp: lowerChar_def isSpace_def byte_def)

lemma toLower_trimSpace: "toLower (trimSpace s) = trimSpace (toLower s)"
  by (simp add: toLower_def trimSpace_def trimLeft_def trimRight_def dropWhile_map rev_map comp_def)

lemma hasPrefix_iff: "hasPrefix s p \<longleftrightarrow> (\<exists>t. s = p @ t)"
  by (metis append_eq_conv_conj append_take_drop_id hasPrefix_def)

lemma hasSuffix_iff: "hasSuffix s p \<longleftrightarrow> (\<exists>t. s = t @ p)"
  unfolding hasSuffix_def hasPrefix_iff by (metis rev_append rev_rev_ident)

lemma hasPrefix_append [simp]: "hasPrefix (p @ t) p"
  by (auto simp: hasPrefix_iff)

lemma hasSuffix_append [simp]: "hasSuffix (t @ p) p"
  by (auto simp: hasSuffix_iff)

lemma hasPrefix_Nil [simp]: "hasPrefix s []"
  by (simp add: hasPrefix_def)

lemma trimPrefix_append [simp]: "trimPrefix (p @ t) p = t"
  by (simp add: trimPrefix_def)

lemma trimSuffix_append [simp]: "trimSuffix (t @ p) p = t"
  by (simp add: trimSuffix_def)

lemma trimSuffix_cases: "trimSuffix s p = s \<or> s = trimSuffix s p @ p"
  by (auto simp: trimSuffix_def hasSuffix_iff)

lemma trimRight_idem: "trimRight p (trimRight p s) = trimRight p s"
  by (simp add: trimRight_def dropWhile_idem)

lemma trimRight_no_left: "s \<noteq> [] \<Longrightarrow> \<not> p (hd s) \<Longrightarrow> trimRight p s \<noteq> [] \<and> hd (trimRight p s) = hd s"
proof (cases s)
  case (Cons c t)
  assume "\<not> p (hd s)"
  then have c: "\<not> p c" using Cons by simp
  have "dropWhile p (rev t @ [c]) = dropWhile p (rev t) @ [c]"
    by (cases "\<forall>x\<in>set (rev t). p x") (use c in \<open>auto simp: dropWhile_append3 dropWhile_append\<close>)
  then show ?thesis using Cons by (simp add: trimRight_def)
qed simp

lemma trimSpace_Nil [simp]: "trimSpace [] = []"
  by (simp add: trimSpace_def trimLeft_def trimRight_def)

lemma trimSpace_idem [simp]: "trimSpace (trimSpace s) = trimSpace s"
proof (cases "trimLeft isSpace s")
  case Nil
  then have "trimSpace s = []" by (simp add: trimSpace_def trimRight_def)
  then show ?thesis by simp
next
  case (Cons c t)
  then have "\<not> isSpace (hd (trimLeft isSpace s))"
    by (metis hd_dropWhile list.distinct(1) trimLeft_def)
  then have "trimRight isSpace (trimLeft isSpace s) \<noteq> []"
    "\<not> isSpace (hd (trimRight isSpace (trimLeft isSpace s)))"
    using trimRight_no_left [of "trimLeft isSpace s" isSpace] Cons by auto
  then have "trimLeft isSpace (trimSpace s) = trimSpace s"
    unfolding trimSpace_def by (metis dropWhile_eq_self_iff trimLeft_def)
  then show ?thesis by (metis trimRight_idem trimSpace_def)
qed

lemma trimSpace_none: "list_all (\<lambda>c. \<not> isSpace c) s \<Longrightarrow> trimSpace s = s"
proof -
  assume a: "list_all (\<lambda>c. \<not> isSpace c) s"
  have d: "dropWhile isSpace t = t" if "\<forall>c\<in>set t. \<not> isSpace c" for t
    using that by (cases t) auto
  show ?thesis using a d [of s] d [of "rev s"] by (simp add: trimSpace_def trimLeft_def trimRight_def list_all_iff)
qed

subsection \<open>Splitting and joining\<close>

fun splitOn :: "char \<Rightarrow> string \<Rightarrow> string list" where
  "splitOn c [] = [[]]"
| "splitOn c (x # xs) =
     (if x = c then [] # splitOn c xs
      else case splitOn c xs of h # t \<Rightarrow> (x # h) # t | [] \<Rightarrow> [[x]])"

fun joinWith :: "string \<Rightarrow> string list \<Rightarrow> string" where
  "joinWith sep [] = []"
| "joinWith sep [x] = x"
| "joinWith sep (x # y # zs) = x @ sep @ joinWith sep (y # zs)"

lemma splitOn_not_Nil [simp]: "splitOn c s \<noteq> []"
  by (cases s) (auto split: list.splits)

lemma joinWith_Cons: "ys \<noteq> [] \<Longrightarrow> joinWith sep (x # ys) = x @ sep @ joinWith sep ys"
  by (cases ys) simp_all

lemma join_split: "joinWith [c] (splitOn c s) = s"
proof (induction s)
  case (Cons x xs)
  obtain h t where ht: "splitOn c xs = h # t" by (cases "splitOn c xs") auto
  show ?case using Cons ht by (cases t) (auto simp: joinWith_Cons)
qed simp

lemma splitOn_no_sep: "c \<notin> set s \<Longrightarrow> splitOn c s = [s]"
  by (induction s) auto

lemma splitOn_append: "c \<notin> set s \<Longrightarrow> splitOn c (s @ c # t) = s # splitOn c t"
  by (induction s) auto

lemma split_join: "xs \<noteq> [] \<Longrightarrow> \<forall>x\<in>set xs. c \<notin> set x \<Longrightarrow> splitOn c (joinWith [c] xs) = xs"
proof (induction xs)
  case (Cons x xs)
  then show ?case
    by (cases xs) (auto simp: splitOn_no_sep splitOn_append)
qed simp

lemma splitOn_append_sep: "splitOn c (s @ c # t) = splitOn c s @ splitOn c t"
proof (induction s)
  case (Cons x s)
  obtain h r where "splitOn c s = h # r" by (cases "splitOn c s") auto
  then show ?case using Cons by simp
qed simp

lemma joinWith_append: "xs \<noteq> [] \<Longrightarrow> ys \<noteq> [] \<Longrightarrow> joinWith sep (xs @ ys) = joinWith sep xs @ sep @ joinWith sep ys"
proof (induction xs)
  case (Cons x xs)
  then show ?case by (cases xs) (auto simp: joinWith_Cons)
qed simp

text \<open>\<^verbatim>\<open>strings.Cut(s, sep)\<close> for a one-byte separator.\<close>

fun cutAt :: "char \<Rightarrow> string \<Rightarrow> string \<times> string \<times> bool" where
  "cutAt c [] = ([], [], False)"
| "cutAt c (x # xs) =
     (if x = c then ([], xs, True)
      else (let (a, b, ok) = cutAt c xs in (x # a, b, ok)))"

lemma cutAt_found: "cutAt c s = (a, b, True) \<Longrightarrow> s = a @ c # b \<and> c \<notin> set a"
  by (induction s arbitrary: a) (auto split: if_splits prod.splits)

lemma cutAt_append: "c \<notin> set a \<Longrightarrow> cutAt c (a @ c # b) = (a, b, True)"
  by (induction a) auto

lemma cutAt_none: "c \<notin> set s \<Longrightarrow> cutAt c s = (s, [], False)"
  by (induction s) auto

fun contains :: "string \<Rightarrow> string \<Rightarrow> bool" where
  "contains [] p \<longleftrightarrow> p = []"
| "contains (c # s) p \<longleftrightarrow> hasPrefix (c # s) p \<or> contains s p"

lemma contains_iff: "contains s p \<longleftrightarrow> (\<exists>a b. s = a @ p @ b)"
proof (induction s)
  case (Cons c s)
  have "(\<exists>a b. c # s = a @ p @ b) \<longleftrightarrow> (\<exists>b. c # s = p @ b) \<or> (\<exists>a b. s = a @ p @ b)"
    by (metis append_Cons append_Nil neq_Nil_conv list.sel(3))
  then show ?case using Cons by (simp add: hasPrefix_iff)
qed auto

text \<open>\<^verbatim>\<open>strings.LastIndexByte\<close>: the last position, or None for \<open>-1\<close>.\<close>

fun lastIndexByte :: "string \<Rightarrow> char \<Rightarrow> nat option" where
  "lastIndexByte [] c = None"
| "lastIndexByte (x # xs) c =
     (case lastIndexByte xs c of Some i \<Rightarrow> Some (Suc i)
      | None \<Rightarrow> if x = c then Some 0 else None)"

fun indexByte :: "string \<Rightarrow> char \<Rightarrow> nat option" where
  "indexByte [] c = None"
| "indexByte (x # xs) c =
     (if x = c then Some 0 else (case indexByte xs c of Some i \<Rightarrow> Some (Suc i) | None \<Rightarrow> None))"

lemma lastIndexByte_None: "lastIndexByte s c = None \<longleftrightarrow> c \<notin> set s"
  by (induction s) (auto split: option.splits)

lemma lastIndexByte_Some:
  "lastIndexByte s c = Some i \<Longrightarrow> i < length s \<and> s = take i s @ c # drop (Suc i) s \<and> c \<notin> set (drop (Suc i) s)"
  by (induction s arbitrary: i) (auto simp: lastIndexByte_None split: option.splits if_splits)

lemma lastIndexByte_at: "c \<notin> set t \<Longrightarrow> lastIndexByte (s @ c # t) c = Some (length s)"
proof (induction s)
  case Nil
  then have "lastIndexByte t c = None" by (simp add: lastIndexByte_None)
  then show ?case by simp
qed simp

subsection \<open>Decimal numbers\<close>

definition isDigit :: "char \<Rightarrow> bool" where
  "isDigit c \<longleftrightarrow> 48 \<le> byte c \<and> byte c \<le> 57"

definition digitVal :: "char \<Rightarrow> nat" where
  "digitVal c = byte c - 48"

definition digitChar :: "nat \<Rightarrow> char" where
  "digitChar n = char_of (48 + n)"

fun decimal :: "nat \<Rightarrow> string" where
  "decimal n = (if n < 10 then [digitChar n] else decimal (n div 10) @ [digitChar (n mod 10)])"

declare decimal.simps [simp del]

text \<open>\<^verbatim>\<open>strconv.Itoa\<close>.\<close>

definition strconvItoa :: "int \<Rightarrow> string" where
  "strconvItoa n = (if n < 0 then CHR ''-'' # decimal (nat (- n)) else decimal (nat n))"

definition decValue :: "string \<Rightarrow> nat" where
  "decValue s = foldl (\<lambda>a c. 10 * a + digitVal c) 0 s"

text \<open>\<^verbatim>\<open>strconv.ParseUint(s, 10, bits)\<close>: only digits, at least one, and the value must fit.\<close>

definition parseUint :: "nat \<Rightarrow> string \<Rightarrow> nat option" where
  "parseUint bits s =
     (if s \<noteq> [] \<and> list_all isDigit s \<and> decValue s < 2 ^ bits then Some (decValue s) else None)"

text \<open>\<^verbatim>\<open>strconv.Atoi\<close> and \<^verbatim>\<open>strconv.ParseInt(s, 10, 64)\<close>: an optional sign, digits, 64-bit range.\<close>

definition atoi :: "string \<Rightarrow> int option" where
  "atoi s =
     (let (neg, d) = (case s of [] \<Rightarrow> (False, [])
                      | c # t \<Rightarrow> if c = CHR ''-'' then (True, t)
                                 else if c = CHR ''+'' then (False, t) else (False, c # t))
      in if d = [] \<or> \<not> list_all isDigit d then None
         else if neg then (if decValue d \<le> 2 ^ 63 then Some (- int (decValue d)) else None)
         else (if decValue d < 2 ^ 63 then Some (int (decValue d)) else None))"

lemma isDigit_digitChar [simp]: "n < 10 \<Longrightarrow> isDigit (digitChar n)"
  by (simp add: isDigit_def digitChar_def byte_def)

lemma digitVal_digitChar [simp]: "n < 10 \<Longrightarrow> digitVal (digitChar n) = n"
  by (simp add: digitVal_def digitChar_def byte_def)

lemma decimal_not_Nil [simp]: "decimal n \<noteq> []"
  by (subst decimal.simps) simp

lemma decimal_digits [simp]: "list_all isDigit (decimal n)"
  by (induction n rule: decimal.induct) (subst decimal.simps, simp)

lemma decValue_snoc [simp]: "decValue (s @ [c]) = 10 * decValue s + digitVal c"
  by (simp add: decValue_def)

lemma decValue_decimal [simp]: "decValue (decimal n) = n"
proof (induction n rule: decimal.induct)
  case (1 n)
  show ?case
  proof (cases "n < 10")
    case True
    then show ?thesis by (subst decimal.simps) (simp add: decValue_def)
  next
    case False
    then show ?thesis using 1 by (subst decimal.simps) simp
  qed
qed

lemma decimal_inj: "decimal m = decimal n \<longleftrightarrow> m = n"
  by (metis decValue_decimal)

lemma decimal_hd: "isDigit (hd (decimal n))"
  by (metis decimal_digits decimal_not_Nil list.pred_set list.set_sel(1))

lemma digit_not_sign: "isDigit c \<Longrightarrow> c \<noteq> CHR ''-'' \<and> c \<noteq> CHR ''+'' \<and> c \<noteq> CHR '':'' \<and> c \<noteq> CHR ''@''"
  by (auto simp: isDigit_def byte_def)

lemma decimal_chars: "c \<in> set (decimal n) \<Longrightarrow> isDigit c"
  by (metis decimal_digits list.pred_set)

lemma parseUint_decimal: "n < 2 ^ bits \<Longrightarrow> parseUint bits (decimal n) = Some n"
  by (simp add: parseUint_def)

lemma atoi_itoa: "- (2 ^ 63) \<le> n \<Longrightarrow> n < 2 ^ 63 \<Longrightarrow> atoi (strconvItoa n) = Some n"
proof -
  assume n: "- (2 ^ 63) \<le> n" "n < 2 ^ 63"
  obtain c t where ct: "decimal (nat n) = c # t" by (cases "decimal (nat n)") auto
  then have "isDigit c" using decimal_hd [of "nat n"] by simp
  then have nc: "c \<noteq> CHR ''-''" "c \<noteq> CHR ''+''" by (auto dest: digit_not_sign)
  have dv: "decValue (c # t) = nat n" "list_all isDigit (c # t)"
    using ct decimal_digits [of "nat n"] decValue_decimal [of "nat n"] by auto
  show ?thesis
  proof (cases "n < 0")
    case True
    then have "nat (- n) \<le> 2 ^ 63" using n by simp
    then show ?thesis using True by (simp add: atoi_def strconvItoa_def)
  next
    case False
    then have "nat n < 2 ^ 63" using n by simp
    then show ?thesis using False ct nc dv by (simp add: atoi_def strconvItoa_def)
  qed
qed

subsection \<open>Runes\<close>

text \<open>The width of the first rune of a byte string as \<^verbatim>\<open>range\<close> decodes it: an invalid byte is one rune.\<close>

definition contByte :: "nat \<Rightarrow> nat \<Rightarrow> char \<Rightarrow> bool" where
  "contByte lo hi c \<longleftrightarrow> lo \<le> byte c \<and> byte c \<le> hi"

text \<open>For a first byte: how many continuation bytes follow and the range of the first of them.\<close>

definition runeNeed :: "nat \<Rightarrow> (nat \<times> nat \<times> nat) option" where
  "runeNeed b =
     (if b < 128 then Some (0, 0, 255)
      else if 194 \<le> b \<and> b \<le> 223 then Some (1, 128, 191)
      else if b = 224 then Some (2, 160, 191)
      else if b = 237 then Some (2, 128, 159)
      else if 225 \<le> b \<and> b \<le> 239 then Some (2, 128, 191)
      else if b = 240 then Some (3, 144, 191)
      else if 241 \<le> b \<and> b \<le> 243 then Some (3, 128, 191)
      else if b = 244 then Some (3, 128, 143)
      else None)"

definition runeTail :: "nat \<times> nat \<times> nat \<Rightarrow> string \<Rightarrow> bool" where
  "runeTail need s = (case need of (k, lo, hi) \<Rightarrow>
     k = 0 \<or> k \<le> length s \<and> contByte lo hi (hd s) \<and> list_all (contByte 128 191) (take k s))"

fun runeValid :: "string \<Rightarrow> nat option" where
  "runeValid [] = None"
| "runeValid (c # s) =
     (case runeNeed (byte c) of
        None \<Rightarrow> None
      | Some need \<Rightarrow> if runeTail need s then Some (Suc (fst need)) else None)"

definition runeWidth :: "string \<Rightarrow> nat" where
  "runeWidth s = (case runeValid s of Some n \<Rightarrow> n | None \<Rightarrow> 1)"

lemma runeValid_pos: "runeValid s = Some n \<Longrightarrow> 0 < n"
  by (cases s) (auto split: option.splits if_splits)

lemma runeNeed_0: "runeNeed b = Some need \<Longrightarrow> fst need = 0 \<longleftrightarrow> b < 128"
  by (auto simp: runeNeed_def split: if_splits)

lemma runeWidth_pos: "0 < runeWidth s"
  by (auto simp: runeWidth_def runeValid_pos split: option.splits)

function runes :: "string \<Rightarrow> string list" where
  "runes s = (if s = [] then [] else take (runeWidth s) s # runes (drop (runeWidth s) s))"
  by auto
termination by (relation "measure length") (use runeWidth_pos in auto)

declare runes.simps [simp del]

text \<open>\<^verbatim>\<open>utf8.ValidString\<close> and \<^verbatim>\<open>utf8.RuneCountInString\<close>.\<close>

definition utf8Valid :: "string \<Rightarrow> bool" where
  "utf8Valid s \<longleftrightarrow> list_all (\<lambda>r. runeValid r \<noteq> None) (runes s)"

definition runeCount :: "string \<Rightarrow> nat" where
  "runeCount s = length (runes s)"

lemma runeValid_length: "runeValid s = Some n \<Longrightarrow> n \<le> length s"
  by (cases s) (auto simp: runeTail_def split: option.splits if_splits)

lemma runeTail_take: "runeTail need (take (fst need) s) = runeTail need s"
  by (cases s; cases need) (auto simp: runeTail_def take_Cons')

lemma runeValid_take: "runeValid s = Some n \<Longrightarrow> runeValid (take n s) = Some n"
proof (cases s)
  case (Cons c t)
  assume "runeValid s = Some n"
  then obtain need where n: "runeNeed (byte c) = Some need" "runeTail need t" "n = Suc (fst need)"
    using Cons by (auto split: option.splits if_splits)
  then show ?thesis using Cons runeTail_take [of need t] by simp
qed simp

lemma runeValid_append: "runeValid r = Some (length r) \<Longrightarrow> runeValid (r @ s) = Some (length r)"
proof (cases r)
  case (Cons c t)
  assume "runeValid r = Some (length r)"
  then obtain need where n: "runeNeed (byte c) = Some need" "runeTail need t" "fst need = length t"
    using Cons by (auto split: option.splits if_splits)
  have "runeTail need (t @ s)" using runeTail_take [of need "t @ s"] n by simp
  then show ?thesis using n Cons by simp
qed simp

lemma runeValid_None_take: "s \<noteq> [] \<Longrightarrow> runeValid s = None \<Longrightarrow> runeValid (take 1 s) = None"
  by (cases s) (auto simp: runeTail_def dest: runeNeed_0 split: option.splits if_splits)

lemma runeValid_high: "runeValid (c # s) = Some n \<Longrightarrow> byte c < 128 \<longleftrightarrow> n = 1"
  using runeNeed_0 by (auto split: option.splits if_splits)

declare runeValid.simps(2) [simp del]

lemma runes_Nil [simp]: "runes [] = []"
  by (simp add: runes.simps)

text \<open>Induction over the runes of valid text.\<close>

lemma utf8_induct [consumes 1, case_names empty rune]:
  assumes "utf8Valid s" "P []"
    and step: "\<And>r s. runeValid r = Some (length r) \<Longrightarrow> utf8Valid s \<Longrightarrow> runes (r @ s) = r # runes s \<Longrightarrow> P s \<Longrightarrow> P (r @ s)"
  shows "P s"
  using assms(1)
proof (induction s rule: runes.induct)
  case (1 s)
  show ?case
  proof (cases "s = []")
    case False
    let ?r = "take (runeWidth s) s" and ?t = "drop (runeWidth s) s"
    have rs: "runes s = ?r # runes ?t" using False by (subst runes.simps) simp
    then have v: "runeValid ?r \<noteq> None" "utf8Valid ?t" using "1.prems" by (auto simp: utf8Valid_def)
    then obtain n where n: "runeValid s = Some n" using runeValid_None_take [OF False] by (cases "runeValid s") (auto simp: runeWidth_def)
    then have "runeValid ?r = Some (length ?r)" using runeValid_take [OF n] runeValid_length [OF n] by (simp add: runeWidth_def min_def)
    from step [OF this v(2)] show ?thesis using "1.IH" [OF False v(2)] rs by simp
  qed (simp add: assms(2))
qed

lemma concat_runes [simp]: "concat (runes s) = s"
  by (induction s rule: runes.induct) (subst runes.simps, simp)

end
