(* ===== verification/Schema.thy ===== *)
theory Schema
  imports GoStrings Complex_Main
begin

text \<open>
  The rows that \<^verbatim>\<open>internal/storage\<close> reads and writes, the tables they live in, and how a SQL statement
  runs.  Structs become records with the source's field names behind a short prefix.  \<^verbatim>\<open>float64\<close>
  weights are rationals (rounding and NaN are outside the model), \<^verbatim>\<open>time.Time\<close> values and Unix
  milliseconds are integers.  Structs whose metadata is a Go map but whose column is JSON text are
  records over the type of that one field.

  A statement is a total function on the tables that either fails (unique key) or answers.  Around it
  stands a script of events: at each statement the next event may be an outage of the database
  (\<open>Fail\<close>) or a committed write of another session just before the statement (\<open>Env\<close>), so every error
  branch and every lost race of the code is reachable in the model.
\<close>

subsection \<open>Rows\<close>

record Instance =
  i_ID :: int
  i_NamespaceId :: string
  i_GroupName :: string
  i_ServiceName :: string
  i_ClusterName :: string
  i_IP :: string
  i_Port :: "32 word"
  i_Weight :: rat
  i_Healthy :: bool
  i_Enabled :: bool
  i_Ephemeral :: bool
  i_MetadataJSON :: string
  i_LastHeartbeatMS :: int
  i_GmtCreate :: int
  i_GmtModified :: int

record ServiceRow =
  s_ID :: int
  s_NamespaceId :: string
  s_GroupName :: string
  s_Name :: string
  s_ProtectThreshold :: rat
  s_MetadataJSON :: string
  s_AppName :: string
  s_IPCount :: int
  s_ClusterCount :: int
  s_GmtCreate :: int
  s_GmtModified :: int

record ConfigInfo =
  c_ID :: int
  c_DataId :: string
  c_GroupId :: string
  c_Content :: string
  c_Md5 :: string
  c_GmtCreate :: int
  c_GmtModified :: int
  c_SrcUser :: string
  c_SrcIp :: string
  c_AppName :: string
  c_TenantId :: string
  c_CDesc :: string
  c_CUse :: string
  c_Effect :: string
  c_Type :: string
  c_CSchema :: string

record HistoryInfo =
  h_Nid :: int
  h_ID :: int
  h_DataId :: string
  h_GroupId :: string
  h_AppName :: string
  h_Content :: string
  h_Md5 :: string
  h_GmtCreate :: int
  h_GmtModified :: int
  h_SrcUser :: string
  h_SrcIp :: string
  h_OpType :: string
  h_TenantId :: string

record TagRow =
  t_id :: int
  t_tag_name :: string
  t_tag_type :: string
  t_data_id :: string
  t_group_id :: string
  t_tenant_id :: string

record TenantRow =
  n_id :: int
  n_NamespaceId :: string
  n_Name :: string
  n_Desc :: string

record User =
  u_Username :: string
  u_Password :: string
  u_Enabled :: bool

record 'm Application =
  a_NamespaceId :: string
  a_Name :: string
  a_DisplayName :: string
  a_Description :: string
  a_Env :: string
  a_Metadata :: 'm

record 'm ApplicationComponent =
  ac_NamespaceId :: string
  ac_AppName :: string
  ac_Name :: string
  ac_Kind :: string
  ac_Protocol :: string
  ac_ServiceName :: string
  ac_GroupName :: string
  ac_ClusterName :: string
  ac_HealthPath :: string
  ac_Weight :: rat
  ac_LBAlgorithm :: string
  ac_Sticky :: string
  ac_Metadata :: 'm

record RouteBinding =
  r_NamespaceId :: string
  r_Domain :: string
  r_PathPrefix :: string
  r_AppName :: string
  r_ComponentName :: string
  r_UpstreamName :: string
  r_Priority :: int

record Certificate =
  cert_NamespaceId :: string
  cert_Domain :: string
  cert_Source :: string
  cert_Issuer :: string
  cert_CertPEM :: string
  cert_KeyPEM :: string
  cert_NotBefore :: int
  cert_NotAfter :: int
  cert_RenewBeforeDays :: int
  cert_AcmeOrderURL :: string
  cert_Status :: string
  cert_LastError :: string

record 'm VHostPolicy =
  v_NamespaceId :: string
  v_Domain :: string
  v_ForceHTTPS :: bool
  v_HSTSMaxAge :: int
  v_AllowIPs :: string
  v_DenyIPs :: string
  v_ClientMaxBodyBytes :: int
  v_ConnectTimeoutMS :: int
  v_ReadTimeoutMS :: int
  v_SendTimeoutMS :: int
  v_Websocket :: bool
  v_Metadata :: 'm

text \<open>Go's zero value of the instance struct.\<close>

definition zeroInstance :: Instance where
  "zeroInstance = \<lparr> i_ID = 0, i_NamespaceId = [], i_GroupName = [], i_ServiceName = [],
     i_ClusterName = [], i_IP = [], i_Port = 0, i_Weight = 0, i_Healthy = False, i_Enabled = False,
     i_Ephemeral = False, i_MetadataJSON = [], i_LastHeartbeatMS = 0, i_GmtCreate = 0, i_GmtModified = 0 \<rparr>"

subsection \<open>Tables\<close>

record tables =
  naming_service :: "ServiceRow list"
  naming_instance :: "Instance list"
  config_info :: "ConfigInfo list"
  his_config_info :: "HistoryInfo list"
  config_tags_relation :: "TagRow list"
  tenant_info :: "TenantRow list"
  users :: "User list"
  roles :: "(string \<times> string) list"
  permissions :: "(string \<times> string \<times> string) list"
  application :: "string Application list"
  application_component :: "string ApplicationComponent list"
  route_binding :: "RouteBinding list"
  gateway_certificate :: "Certificate list"
  gateway_vhost :: "string VHostPolicy list"
  goacos_meta :: "(string \<times> string) list"
  next_id :: int

definition empty_tables :: tables where
  "empty_tables = \<lparr> naming_service = [], naming_instance = [], config_info = [], his_config_info = [],
     config_tags_relation = [], tenant_info = [], users = [], roles = [], permissions = [],
     application = [], application_component = [], route_binding = [], gateway_certificate = [],
     gateway_vhost = [], goacos_meta = [], next_id = 1 \<rparr>"

subsection \<open>Statements, outages and other sessions\<close>

datatype event = Ok | Fail | Env "tables \<Rightarrow> tables"

record db =
  tabs :: tables
  script :: "event list"

type_synonym 'a dbop = "(db, 'a) op"

definition stmt :: "(tables \<Rightarrow> (goerr + 'a) \<times> tables) \<Rightarrow> 'a dbop" where
  "stmt f d =
     (case script d of
        [] \<Rightarrow> (let (r, t) = f (tabs d) in (r, d\<lparr>tabs := t\<rparr>))
      | Ok # es \<Rightarrow> (let (r, t) = f (tabs d) in (r, d\<lparr>tabs := t, script := es\<rparr>))
      | Fail # es \<Rightarrow> (Inl (ErrSQL ''driver: bad connection''), d\<lparr>script := es\<rparr>)
      | Env g # es \<Rightarrow> (let (r, t) = f (g (tabs d)) in (r, d\<lparr>tabs := t, script := es\<rparr>)))"

definition query :: "(tables \<Rightarrow> 'a) \<Rightarrow> 'a dbop" where
  "query f = stmt (\<lambda>t. (Inr (f t), t))"

text \<open>\<^verbatim>\<open>QueryRow(...).Scan\<close>: the first row, or \<^verbatim>\<open>sql.ErrNoRows\<close>.\<close>

definition queryRow :: "(tables \<Rightarrow> 'a list) \<Rightarrow> 'a dbop" where
  "queryRow f = stmt (\<lambda>t. (case f t of [] \<Rightarrow> Inl ErrNoRows | x # _ \<Rightarrow> Inr x, t))"

definition exec :: "(tables \<Rightarrow> (goerr + 'a) \<times> tables) \<Rightarrow> 'a dbop" where
  "exec f = stmt f"

definition quiet :: "db \<Rightarrow> bool" where
  "quiet d \<longleftrightarrow> script d = []"

text \<open>Every other session keeps \<open>P\<close>: the rely condition of an invariant.\<close>

definition rely :: "(tables \<Rightarrow> bool) \<Rightarrow> event list \<Rightarrow> bool" where
  "rely P es \<longleftrightarrow> (\<forall>g. Env g \<in> set es \<longrightarrow> (\<forall>t. P t \<longrightarrow> P (g t)))"

definition dbinv :: "(tables \<Rightarrow> bool) \<Rightarrow> db \<Rightarrow> bool" where
  "dbinv P d \<longleftrightarrow> P (tabs d) \<and> rely P (script d)"

lemma rely_simps [simp]:
  "rely P []"
  "rely P (Ok # es) = rely P es"
  "rely P (Fail # es) = rely P es"
  "rely P (Env g # es) = ((\<forall>t. P t \<longrightarrow> P (g t)) \<and> rely P es)"
  by (auto simp: rely_def)

lemma preserves_stmt:
  assumes "\<And>t. P t \<Longrightarrow> P (snd (f t))"
  shows "preserves (dbinv P) (stmt f)"
  unfolding preserves_def
proof (intro allI impI)
  fix d assume d: "dbinv P d"
  show "dbinv P (snd (stmt f d))"
  proof (cases "script d")
    case Nil
    then show ?thesis using d assms [of "tabs d"] by (auto simp: stmt_def dbinv_def split: prod.split)
  next
    case (Cons e es)
    have t: "P (tabs d)" and r: "rely P (e # es)" using d Cons by (auto simp: dbinv_def)
    show ?thesis
    proof (cases e)
      case Ok
      then show ?thesis using Cons r assms [OF t] by (auto simp: stmt_def dbinv_def split: prod.split)
    next
      case Fail
      then show ?thesis using Cons r t by (auto simp: stmt_def dbinv_def)
    next
      case (Env g)
      then have "P (g (tabs d))" using r t by simp
      then show ?thesis using Cons Env r assms [of "g (tabs d)"]
        by (auto simp: stmt_def dbinv_def split: prod.split)
    qed
  qed
qed

lemma preserves_exec [pres_intros]:
  "(\<And>t. P t \<Longrightarrow> P (snd (f t))) \<Longrightarrow> preserves (dbinv P) (exec f)"
  unfolding exec_def by (rule preserves_stmt)

lemma preserves_query [pres_intros]: "preserves (dbinv P) (query f)"
  unfolding query_def by (rule preserves_stmt) simp

lemma preserves_queryRow [pres_intros]: "preserves (dbinv P) (queryRow f)"
  unfolding queryRow_def by (rule preserves_stmt) simp

lemma stmt_quiet [go_simps]:
  "script d = [] \<Longrightarrow> stmt f d = (fst (f (tabs d)), d\<lparr>tabs := snd (f (tabs d))\<rparr>)"
  by (simp add: stmt_def split: prod.split)

lemma query_quiet [go_simps]: "script d = [] \<Longrightarrow> query f d = (Inr (f (tabs d)), d)"
  by (simp add: query_def stmt_quiet)

lemma queryRow_quiet [go_simps]:
  "script d = [] \<Longrightarrow>
   queryRow f d = (case f (tabs d) of [] \<Rightarrow> Inl ErrNoRows | x # _ \<Rightarrow> Inr x, d)"
  by (simp add: queryRow_def stmt_quiet)

lemma exec_quiet [go_simps]:
  "script d = [] \<Longrightarrow> exec f d = (fst (f (tabs d)), d\<lparr>tabs := snd (f (tabs d))\<rparr>)"
  by (simp add: exec_def stmt_quiet)

text \<open>A statement that loses its connection changes no table.\<close>

lemma stmt_fail: "script d = Fail # es \<Longrightarrow> stmt f d = (Inl (ErrSQL ''driver: bad connection''), d\<lparr>script := es\<rparr>)"
  by (simp add: stmt_def)

subsection \<open>Rows by key\<close>

text \<open>The shapes of the data manipulation statements of the code: \<^verbatim>\<open>INSERT\<close> under a unique key,
  \<^verbatim>\<open>INSERT ... ON CONFLICT DO NOTHING\<close>, \<^verbatim>\<open>UPDATE ... WHERE\<close> and \<^verbatim>\<open>DELETE ... WHERE\<close>, the latter two
  with the number of matched rows.\<close>

definition insertUnique :: "('r \<Rightarrow> 'k) \<Rightarrow> 'r \<Rightarrow> 'r list \<Rightarrow> (goerr + unit) \<times> 'r list" where
  "insertUnique key r rs =
     (if key r \<in> key ` set rs then (Inl (ErrDup ''duplicate key''), rs) else (Inr (), rs @ [r]))"

definition insertIgnore :: "('r \<Rightarrow> 'k) \<Rightarrow> 'r \<Rightarrow> 'r list \<Rightarrow> 'r list" where
  "insertIgnore key r rs = (if key r \<in> key ` set rs then rs else rs @ [r])"

definition updateWhere :: "('r \<Rightarrow> bool) \<Rightarrow> ('r \<Rightarrow> 'r) \<Rightarrow> 'r list \<Rightarrow> 'r list" where
  "updateWhere p f rs = map (\<lambda>r. if p r then f r else r) rs"

definition deleteWhere :: "('r \<Rightarrow> bool) \<Rightarrow> 'r list \<Rightarrow> 'r list" where
  "deleteWhere p rs = filter (\<lambda>r. \<not> p r) rs"

definition countWhere :: "('r \<Rightarrow> bool) \<Rightarrow> 'r list \<Rightarrow> int" where
  "countWhere p rs = int (length (filter p rs))"

text \<open>\<^verbatim>\<open>INSERT ... ON CONFLICT (key) DO UPDATE\<close>.\<close>

definition upsertRow :: "('r \<Rightarrow> 'k) \<Rightarrow> ('r \<Rightarrow> 'r) \<Rightarrow> 'r \<Rightarrow> 'r list \<Rightarrow> 'r list" where
  "upsertRow key upd r rs =
     (if key r \<in> key ` set rs then updateWhere (\<lambda>x. key x = key r) upd rs else rs @ [r])"

definition uniqueBy :: "('r \<Rightarrow> 'k) \<Rightarrow> 'r list \<Rightarrow> bool" where
  "uniqueBy key rs \<longleftrightarrow> distinct (map key rs)"

named_theorems table_simps \<open>effect of the statement shapes on keys and membership\<close>

lemma uniqueBy_insertUnique [table_simps]: "uniqueBy key rs \<Longrightarrow> uniqueBy key (snd (insertUnique key r rs))"
  by (auto simp: uniqueBy_def insertUnique_def)

lemma uniqueBy_insertIgnore [table_simps]: "uniqueBy key rs \<Longrightarrow> uniqueBy key (insertIgnore key r rs)"
  by (auto simp: uniqueBy_def insertIgnore_def)

lemma uniqueBy_updateWhere [table_simps]:
  "uniqueBy key rs \<Longrightarrow> (\<And>r. key (f r) = key r) \<Longrightarrow> uniqueBy key (updateWhere p f rs)"
  by (simp add: uniqueBy_def updateWhere_def comp_def if_distrib cong: if_cong)

lemma uniqueBy_deleteWhere [table_simps]: "uniqueBy key rs \<Longrightarrow> uniqueBy key (deleteWhere p rs)"
  by (simp add: uniqueBy_def deleteWhere_def distinct_map_filter)

lemma uniqueBy_upsertRow [table_simps]:
  "uniqueBy key rs \<Longrightarrow> (\<And>x. key (upd x) = key x) \<Longrightarrow> uniqueBy key (upsertRow key upd r rs)"
  by (auto simp: upsertRow_def uniqueBy_updateWhere) (auto simp: uniqueBy_def)

lemma uniqueBy_Nil [simp]: "uniqueBy key []"
  by (simp add: uniqueBy_def)

lemma uniqueByD: "uniqueBy key rs \<Longrightarrow> r \<in> set rs \<Longrightarrow> r' \<in> set rs \<Longrightarrow> key r = key r' \<Longrightarrow> r = r'"
  by (auto simp: uniqueBy_def distinct_map inj_on_def)

lemma uniqueBy_find:
  assumes "uniqueBy key rs" "r \<in> set rs" "key r = k"
  shows "filter (\<lambda>x. key x = k) rs = [r]"
  using assms
proof (induction rs)
  case (Cons x xs)
  have *: "filter (\<lambda>x. key x = k) xs = []" if "key x = k"
    using Cons.prems(1) that by (auto simp: uniqueBy_def filter_empty_conv) (metis image_eqI)
  show ?case
  proof (cases "key x = k")
    case True
    then have "x = r" using Cons.prems uniqueByD [OF Cons.prems(1)] by (metis list.set_intros(1))
    then show ?thesis using True * by simp
  next
    case False
    then show ?thesis using Cons by (auto simp: uniqueBy_def)
  qed
qed simp

lemma map_updateWhere [simp]: "(\<And>r. key (f r) = key r) \<Longrightarrow> map key (updateWhere p f rs) = map key rs"
  by (simp add: updateWhere_def)

lemma set_deleteWhere [simp]: "set (deleteWhere p rs) = {r \<in> set rs. \<not> p r}"
  by (auto simp: deleteWhere_def)

lemma set_updateWhere: "set (updateWhere p f rs) = (\<lambda>r. if p r then f r else r) ` set rs"
  by (simp add: updateWhere_def)

lemma set_insertIgnore: "set (insertIgnore key r rs) = (if key r \<in> key ` set rs then set rs else insert r (set rs))"
  by (auto simp: insertIgnore_def)

subsection \<open>LIKE and paging\<close>

text \<open>SQL \<^verbatim>\<open>LIKE\<close> with its wildcards (percent and underscore) and the backslash escape.\<close>

fun like :: "string \<Rightarrow> string \<Rightarrow> bool" where
  "like [] s \<longleftrightarrow> s = []"
| "like (p # ps) s \<longleftrightarrow>
     (if p = CHR ''%'' then like ps s \<or> (case s of [] \<Rightarrow> False | _ # t \<Rightarrow> like (p # ps) t)
      else if p = CHR ''_'' then (case s of [] \<Rightarrow> False | _ # t \<Rightarrow> like ps t)
      else if p = CHR 0x5C \<and> ps \<noteq> [] then (case s of [] \<Rightarrow> False | c # t \<Rightarrow> c = hd ps \<and> like (tl ps) t)
      else (case s of [] \<Rightarrow> False | c # t \<Rightarrow> c = p \<and> like ps t))"

definition blurMatch :: "string \<Rightarrow> string \<Rightarrow> bool" where
  "blurMatch q s \<longleftrightarrow> like (''%'' @ q @ ''%'') s"

text \<open>\<^verbatim>\<open>LIMIT n OFFSET (pageNo-1)*pageSize\<close>: the product wraps at 64 bits and both engines refuse a
  negative offset.\<close>

definition limitOffset :: "int \<Rightarrow> int \<Rightarrow> 'r list \<Rightarrow> goerr + 'r list" where
  "limitOffset pageNo pageSize rs =
     (let off = i64 (i64 (pageNo - 1) * pageSize)
      in if off < 0 then Inl (ErrSQL ''OFFSET must not be negative'')
         else Inr (take (nat pageSize) (drop (nat off) rs)))"

definition clampPage :: "int \<Rightarrow> int \<Rightarrow> int \<Rightarrow> int \<times> int" where
  "clampPage dflt pageNo pageSize =
     (if pageNo < 1 then 1 else pageNo, if pageSize < 1 \<or> pageSize > 500 then dflt else pageSize)"

lemma limitOffset_length:
  "limitOffset n sz rs = Inr out \<Longrightarrow> int (length out) \<le> max 0 sz \<and> set out \<subseteq> set rs"
  by (auto simp: limitOffset_def Let_def dest!: in_set_takeD in_set_dropD split: if_splits)

subsection \<open>Tables as maps\<close>

text \<open>The rows of a table with a unique key are a finite map.  \<open>keyed_rows\<close> is what a table and its
  \<^verbatim>\<open>UPDATE\<close> statement promise (an update never moves a row to another key) and what follows for the
  statement shapes.\<close>

definition lookupBy :: "('r \<Rightarrow> 'k) \<Rightarrow> 'r list \<Rightarrow> 'k \<rightharpoonup> 'r" where
  "lookupBy key rs k = find (\<lambda>r. key r = k) rs"

locale keyed_rows =
  fixes key :: "'r \<Rightarrow> 'k" and upd :: "'a \<Rightarrow> 'r \<Rightarrow> 'r"
  assumes key_upd: "key (upd a r) = key r"
begin

lemma lookup_None: "lookupBy key rs k = None \<longleftrightarrow> k \<notin> key ` set rs"
  by (auto simp: lookupBy_def find_None_iff)

lemma lookup_Some: "lookupBy key rs k = Some r \<Longrightarrow> r \<in> set rs \<and> key r = k"
  by (auto simp: lookupBy_def find_Some_iff)

lemma lookup_in: "uniqueBy key rs \<Longrightarrow> r \<in> set rs \<Longrightarrow> lookupBy key rs (key r) = Some r"
proof (induction rs)
  case (Cons x rs)
  then show ?case using uniqueByD [OF Cons.prems(1), of r x] by (auto simp: lookupBy_def uniqueBy_def)
qed simp

lemma filter_key: "uniqueBy key rs \<Longrightarrow> filter (\<lambda>r. key r = k) rs = (case lookupBy key rs k of None \<Rightarrow> [] | Some r \<Rightarrow> [r])"
proof (cases "lookupBy key rs k")
  case None
  then have "k \<notin> key ` set rs" by (simp add: lookup_None)
  then show ?thesis using None by (auto simp: filter_empty_conv)
next
  case (Some r)
  assume "uniqueBy key rs"
  then show ?thesis using Some lookup_Some [OF Some] uniqueBy_find [of key rs r k] by auto
qed

lemma lookup_snoc: "key r \<notin> key ` set rs \<Longrightarrow> lookupBy key (rs @ [r]) = (lookupBy key rs)(key r \<mapsto> r)"
  by (rule ext) (induction rs, auto simp: lookupBy_def)

lemma lookup_insertUnique:
  "lookupBy key (snd (insertUnique key r rs)) =
     (if lookupBy key rs (key r) = None then (lookupBy key rs)(key r \<mapsto> r) else lookupBy key rs)"
  by (simp add: insertUnique_def lookup_None lookup_snoc)

lemma fst_insertUnique:
  "fst (insertUnique key r rs) =
     (if lookupBy key rs (key r) = None then Inr () else Inl (ErrDup ''duplicate key''))"
  by (simp add: insertUnique_def lookup_None)

lemma lookup_insertIgnore:
  "lookupBy key (insertIgnore key r rs) =
     (if lookupBy key rs (key r) = None then (lookupBy key rs)(key r \<mapsto> r) else lookupBy key rs)"
  by (simp add: insertIgnore_def lookup_None lookup_snoc)

lemma lookup_update:
  "lookupBy key (updateWhere p (upd a) rs) k = map_option (\<lambda>r. if p r then upd a r else r) (lookupBy key rs k)"
  by (induction rs) (auto simp: lookupBy_def updateWhere_def key_upd)

lemma lookup_delete:
  "uniqueBy key rs \<Longrightarrow>
   lookupBy key (deleteWhere p rs) k = (case lookupBy key rs k of None \<Rightarrow> None | Some r \<Rightarrow> if p r then None else Some r)"
proof (induction rs)
  case (Cons x rs)
  have "lookupBy key rs (key x) = None" using Cons.prems by (simp add: lookup_None uniqueBy_def)
  moreover have "lookupBy key (deleteWhere p rs) k = (case lookupBy key rs k of None \<Rightarrow> None | Some r \<Rightarrow> if p r then None else Some r)"
    using Cons by (simp add: uniqueBy_def)
  ultimately show ?case
    by (cases "key x = k") (auto simp: lookupBy_def deleteWhere_def split: option.splits)
qed (simp add: lookupBy_def deleteWhere_def)

lemma unique_update: "uniqueBy key rs \<Longrightarrow> uniqueBy key (updateWhere p (upd a) rs)"
  by (rule uniqueBy_updateWhere) (simp_all add: key_upd)

lemma count_key: "uniqueBy key rs \<Longrightarrow> countWhere (\<lambda>r. key r = k) rs = (if lookupBy key rs k = None then 0 else 1)"
  by (simp add: countWhere_def filter_key split: option.split)

end

text \<open>A keyed store: every operation concerns one key, changes the value under that key by its own
  effect and leaves every other key alone.  Then the value under a key is decided by the operations on
  that key, in their order, whatever happened to other keys in between.\<close>

locale keyed_store =
  fixes inva :: "'s \<Rightarrow> bool"
    and look :: "'s \<Rightarrow> 'k \<Rightarrow> 'v option"
    and run :: "'op \<Rightarrow> 's \<Rightarrow> 's"
    and target :: "'op \<Rightarrow> 'k"
    and effect :: "'op \<Rightarrow> 'v option \<Rightarrow> 'v option"
  assumes run_inv: "inva s \<Longrightarrow> inva (run a s)"
    and run_target: "inva s \<Longrightarrow> look (run a s) (target a) = effect a (look s (target a))"
    and run_other: "inva s \<Longrightarrow> k \<noteq> target a \<Longrightarrow> look (run a s) k = look s k"
begin

lemma runs_inv: "inva s \<Longrightarrow> inva (fold run as s)"
  by (induction as arbitrary: s) (auto simp: run_inv)

lemma history: "inva s \<Longrightarrow> look (fold run as s) k = fold effect (filter (\<lambda>a. target a = k) as) (look s k)"
  by (induction as arbitrary: s) (auto simp: run_inv run_target run_other)

lemma untouched: "inva s \<Longrightarrow> \<forall>a\<in>set as. target a \<noteq> k \<Longrightarrow> look (fold run as s) k = look s k"
  by (induction as arbitrary: s) (auto simp: run_inv run_other)

lemma last_writer:
  assumes "inva s" "\<forall>a\<in>set as. target a \<noteq> k" "target b = k" "\<And>v. effect b v = w"
  shows "look (fold run as (run b s)) k = w"
  using untouched [OF run_inv [OF assms(1)] assms(2)] run_target [OF assms(1), of b] assms(3,4) by simp

end

subsection \<open>Sessions without interference\<close>

text \<open>No other session: the script only holds outages.  A triple relates the tables before an operation
  to its result and the tables after it.\<close>

definition alone :: "event list \<Rightarrow> bool" where
  "alone es \<longleftrightarrow> (\<forall>g. Env g \<notin> set es)"

definition triple :: "(tables \<Rightarrow> bool) \<Rightarrow> 'a dbop \<Rightarrow> (goerr + 'a \<Rightarrow> tables \<Rightarrow> bool) \<Rightarrow> bool" where
  "triple P m Q \<longleftrightarrow>
     (\<forall>d. alone (script d) \<and> P (tabs d) \<longrightarrow>
        alone (script (snd (m d))) \<and> Q (fst (m d)) (tabs (snd (m d))))"

lemma tripleD:
  "triple P m Q \<Longrightarrow> alone (script d) \<Longrightarrow> P (tabs d) \<Longrightarrow> m d = (r, d') \<Longrightarrow> alone (script d') \<and> Q r (tabs d')"
  unfolding triple_def by (metis fst_conv snd_conv)

lemma triple_stmt:
  assumes "\<And>t. P t \<Longrightarrow> Q (fst (f t)) (snd (f t))" "\<And>e t. P t \<Longrightarrow> Q (Inl e) t"
  shows "triple P (stmt f) Q"
  unfolding triple_def
proof (intro allI impI)
  fix d :: db assume d: "alone (script d) \<and> P (tabs d)"
  show "alone (script (snd (stmt f d))) \<and> Q (fst (stmt f d)) (tabs (snd (stmt f d)))"
  proof (cases "script d")
    case Nil
    then show ?thesis using d assms(1) [of "tabs d"] by (simp add: stmt_quiet alone_def)
  next
    case (Cons e es)
    then show ?thesis using d assms [of "tabs d"]
      by (cases e) (auto simp: stmt_def alone_def split: prod.split)
  qed
qed

lemma triple_exec:
  "(\<And>t. P t \<Longrightarrow> Q (fst (f t)) (snd (f t))) \<Longrightarrow> (\<And>e t. P t \<Longrightarrow> Q (Inl e) t) \<Longrightarrow> triple P (exec f) Q"
  unfolding exec_def by (rule triple_stmt)

lemma triple_query: "(\<And>r t. P t \<Longrightarrow> Q r t) \<Longrightarrow> triple P (query f) Q"
  unfolding query_def by (rule triple_stmt) auto

lemma triple_queryRow: "(\<And>r t. P t \<Longrightarrow> Q r t) \<Longrightarrow> triple P (queryRow f) Q"
  unfolding queryRow_def by (rule triple_stmt) auto

lemma triple_ret: "(\<And>t. P t \<Longrightarrow> Q (Inr a) t) \<Longrightarrow> triple P (retS a) Q"
  by (simp add: triple_def retS_def)

lemma triple_fail: "(\<And>t. P t \<Longrightarrow> Q (Inl e) t) \<Longrightarrow> triple P (failS e) Q"
  by (simp add: triple_def failS_def)

lemma triple_bind:
  assumes "triple P m R" "\<And>e t. R (Inl e) t \<Longrightarrow> Q (Inl e) t" "\<And>a. triple (R (Inr a)) (k a) Q"
  shows "triple P (bindS m k) Q"
  unfolding triple_def
proof (intro allI impI)
  fix d :: db assume d: "alone (script d) \<and> P (tabs d)"
  obtain r d' where r: "m d = (r, d')" by fastforce
  from tripleD [OF assms(1) _ _ r] d have *: "alone (script d')" "R r (tabs d')" by auto
  show "alone (script (snd (bindS m k d))) \<and> Q (fst (bindS m k d)) (tabs (snd (bindS m k d)))"
    using r * assms(2,3) by (cases r) (auto simp: bindS_def triple_def)
qed

lemma triple_try:
  assumes "triple P m R" "\<And>e. triple (R (Inl e)) (h e) Q" "\<And>a. triple (R (Inr a)) (k a) Q"
  shows "triple P (tryS m h k) Q"
  unfolding triple_def
proof (intro allI impI)
  fix d :: db assume d: "alone (script d) \<and> P (tabs d)"
  obtain r d' where r: "m d = (r, d')" by fastforce
  from tripleD [OF assms(1) _ _ r] d have *: "alone (script d')" "R r (tabs d')" by auto
  show "alone (script (snd (tryS m h k d))) \<and> Q (fst (tryS m h k d)) (tabs (snd (tryS m h k d)))"
    using r * assms(2,3) by (cases r) (auto simp: tryS_def triple_def)
qed

lemma triple_if: "(b \<Longrightarrow> triple P m Q) \<Longrightarrow> (\<not> b \<Longrightarrow> triple P n Q) \<Longrightarrow> triple P (if b then m else n) Q"
  by simp

text \<open>The same with the one error a lost connection produces.\<close>

definition badConn :: goerr where
  "badConn = ErrSQL ''driver: bad connection''"

lemma triple_stmt_conn:
  assumes "\<And>t. P t \<Longrightarrow> Q (fst (f t)) (snd (f t))" "\<And>t. P t \<Longrightarrow> Q (Inl badConn) t"
  shows "triple P (stmt f) Q"
  unfolding triple_def
proof (intro allI impI)
  fix d :: db assume d: "alone (script d) \<and> P (tabs d)"
  show "alone (script (snd (stmt f d))) \<and> Q (fst (stmt f d)) (tabs (snd (stmt f d)))"
  proof (cases "script d")
    case Nil
    then show ?thesis using d assms(1) [of "tabs d"] by (simp add: stmt_quiet alone_def)
  next
    case (Cons e es)
    then show ?thesis using d assms [of "tabs d"]
      by (cases e) (auto simp: stmt_def alone_def badConn_def split: prod.split)
  qed
qed

lemma triple_pre: "triple P m Q \<Longrightarrow> (\<And>t. P' t \<Longrightarrow> P t) \<Longrightarrow> triple P' m Q"
  by (auto simp: triple_def)

lemma triple_conseq:
  "triple P m Q \<Longrightarrow> (\<And>t. P' t \<Longrightarrow> P t) \<Longrightarrow> (\<And>r t. Q r t \<Longrightarrow> Q' r t) \<Longrightarrow> triple P' m Q'"
  by (auto simp: triple_def)

end
