(* ===== verification/LoadBalancer.thy ===== *)
theory LoadBalancer
  imports Schema
begin

text \<open>
  Instance selection of the gateway (\<^verbatim>\<open>internal/gateway/lb.go\<close>): the picker with one counter set per
  target, smooth weighted round robin, least connections, and the FNV-1a pinning of \<^verbatim>\<open>ip_hash\<close> and
  \<^verbatim>\<open>cookie_sticky\<close>.  A method on a pointer receiver takes the picker and returns the new one.  The
  mutexes make every method atomic, so a run of the picker is a sequence of method calls.
\<close>

subsection \<open>Addresses\<close>

text \<open>\<^verbatim>\<open>itoa\<close> of routetable.go writes from the end of a 12-byte buffer; None is the index panic.\<close>

fun itoaLoop :: "nat \<Rightarrow> nat \<Rightarrow> string \<Rightarrow> (nat \<times> string) option" where
  "itoaLoop i n buf =
     (if n = 0 then Some (i, buf)
      else case i of 0 \<Rightarrow> None
           | Suc j \<Rightarrow> itoaLoop j (n div 10) (digitChar (n mod 10) # buf))"

declare itoaLoop.simps [simp del]

definition itoa :: "int \<Rightarrow> string option" where
  "itoa n =
     (if n = 0 then Some ''0''
      else let neg = n < 0; m = (if neg then i64 (- n) else n)
           in case itoaLoop 12 (nat m) [] of
                None \<Rightarrow> None
              | Some (i, buf) \<Rightarrow>
                  (if neg then (if i = 0 then None else Some (CHR ''-'' # buf)) else Some buf))"

definition addr :: "Instance \<Rightarrow> string" where
  "addr i = i_IP i @ '':'' @ the (itoa (uint (i_Port i)))"

subsection \<open>State and picking\<close>

record lbState =
  current :: "string \<rightharpoonup> rat"
  inflight :: "string \<rightharpoonup> int"
  rr :: "64 word"

definition newLBState :: lbState where
  "newLBState = \<lparr> current = Map.empty, inflight = Map.empty, rr = 0 \<rparr>"

record Picker =
  stats :: "string \<rightharpoonup> lbState"

definition NewPicker :: Picker where
  "NewPicker = \<lparr> stats = Map.empty \<rparr>"

text \<open>\<^verbatim>\<open>Picker.state\<close> creates the counter set on first use.\<close>

definition pstate :: "Picker \<Rightarrow> string \<Rightarrow> lbState \<times> Picker" where
  "pstate p key =
     (case stats p key of
        Some s \<Rightarrow> (s, p)
      | None \<Rightarrow> (newLBState, p\<lparr>stats := (stats p)(key \<mapsto> newLBState)\<rparr>))"

definition putState :: "Picker \<Rightarrow> string \<Rightarrow> lbState \<Rightarrow> Picker" where
  "putState p key s = p\<lparr>stats := (stats p)(key \<mapsto> s)\<rparr>"

definition Forget :: "Picker \<Rightarrow> string set \<Rightarrow> Picker" where
  "Forget p live = p\<lparr>stats := (\<lambda>k. if k \<in> live then stats p k else None)\<rparr>"

definition weightOf :: "Instance \<Rightarrow> rat" where
  "weightOf i = (if i_Weight i \<le> 0 then 1 else i_Weight i)"

text \<open>FNV-1a over the key's bytes, 32 bits wide.\<close>

definition fnv32a :: "string \<Rightarrow> 32 word" where
  "fnv32a key = foldl (\<lambda>h c. xor h (of_nat (byte c)) * 16777619) 2166136261 key"

definition hashIndex :: "string \<Rightarrow> int \<Rightarrow> int" where
  "hashIndex key n = (if n \<le> 0 then 0 else uint (fnv32a key mod word_of_int n))"

fun rrScan :: "Instance list \<Rightarrow> int \<Rightarrow> rat \<Rightarrow> int \<Rightarrow> rat \<Rightarrow> (string \<rightharpoonup> rat) \<Rightarrow>
    rat \<times> int \<times> rat \<times> (string \<rightharpoonup> rat)" where
  "rrScan [] i tot best bestCurrent m = (tot, best, bestCurrent, m)"
| "rrScan (inst # rest) i tot best bestCurrent m =
     (let w = weightOf inst;
          cur = mget 0 m (addr inst) + w;
          m' = m(addr inst \<mapsto> cur)
      in if cur > bestCurrent \<or> best < 0
         then rrScan rest (i + 1) (tot + w) i cur m'
         else rrScan rest (i + 1) (tot + w) best bestCurrent m')"

definition pickRoundRobin :: "lbState \<Rightarrow> Instance list \<Rightarrow> lbState \<times> Instance" where
  "pickRoundRobin s instances =
     (case rrScan instances 0 0 (- 1) (- 1) (current s) of
        (tot, best, _, m) \<Rightarrow>
          if best < 0 then (s\<lparr>current := m\<rparr>, instances ! 0)
          else let a = addr (instances ! nat best)
               in (s\<lparr>current := m(a \<mapsto> mget 0 m a - tot)\<rparr>, instances ! nat best))"

fun lcScan :: "(string \<rightharpoonup> int) \<Rightarrow> Instance list \<Rightarrow> Instance list \<Rightarrow> int \<Rightarrow> int \<Rightarrow> int \<Rightarrow> int" where
  "lcScan m all [] i best bestConns = best"
| "lcScan m all (inst # rest) i best bestConns =
     (let conns = mget 0 m (addr inst)
      in if bestConns < 0 \<or> conns < bestConns \<or>
            (conns = bestConns \<and> weightOf inst > weightOf (all ! nat best))
         then lcScan m all rest (i + 1) i conns
         else lcScan m all rest (i + 1) best bestConns)"

definition pickLeastConn :: "lbState \<Rightarrow> Instance list \<Rightarrow> Instance" where
  "pickLeastConn s instances = instances ! nat (lcScan (inflight s) instances instances 0 0 (- 1))"

definition Pick :: "Picker \<Rightarrow> string \<Rightarrow> string \<Rightarrow> string \<Rightarrow> Instance list \<Rightarrow> Picker \<times> Instance option" where
  "Pick p key alg stickyKey instances =
     (if instances = [] then (p, None)
      else if length instances = 1 then (p, Some (instances ! 0))
      else let (s, p1) = pstate p key;
               hashed = Some (instances ! nat (hashIndex stickyKey (int (length instances))));
               robin = (let (s', i) = pickRoundRobin s instances in (putState p1 key s', Some i))
           in if alg = ''ip_hash'' then (p1, hashed)
              else if alg = ''least_conn'' then (p1, Some (pickLeastConn s instances))
              else if alg = ''cookie_sticky'' then
                (if stickyKey = '''' then robin else (p1, hashed))
              else robin)"

definition Acquire :: "Picker \<Rightarrow> string \<Rightarrow> string \<Rightarrow> Picker" where
  "Acquire p key a =
     (let (s, p1) = pstate p key
      in putState p1 key (s\<lparr>inflight := (inflight s)(a \<mapsto> mget 0 (inflight s) a + 1)\<rparr>))"

definition Release :: "Picker \<Rightarrow> string \<Rightarrow> string \<Rightarrow> Picker" where
  "Release p key a =
     (let (s, p1) = pstate p key
      in if mget 0 (inflight s) a > 0
         then putState p1 key (s\<lparr>inflight := (inflight s)(a \<mapsto> mget 0 (inflight s) a - 1)\<rparr>)
         else p1)"

text \<open>The counters a caller sees: a target without state reads zero everywhere.\<close>

definition conns :: "Picker \<Rightarrow> string \<Rightarrow> string \<Rightarrow> int" where
  "conns p key a = (case stats p key of None \<Rightarrow> 0 | Some s \<Rightarrow> mget 0 (inflight s) a)"

text \<open>A client of the picker: \<open>n\<close> consecutive picks for one target over one instance list.\<close>

fun pickSeq :: "nat \<Rightarrow> Picker \<Rightarrow> string \<Rightarrow> string \<Rightarrow> string \<Rightarrow> Instance list \<Rightarrow> Picker \<times> Instance option list" where
  "pickSeq 0 p key alg stickyKey instances = (p, [])"
| "pickSeq (Suc n) p key alg stickyKey instances =
     (let (p1, i) = Pick p key alg stickyKey instances;
          (p2, is) = pickSeq n p1 key alg stickyKey instances
      in (p2, i # is))"

subsection \<open>Addresses are faithful\<close>

lemma itoaLoop_decimal:
  "n < 10 ^ i \<Longrightarrow> 0 < n \<Longrightarrow> \<exists>j. itoaLoop i n buf = Some (j, decimal n @ buf)"
proof (induction i arbitrary: n buf)
  case (Suc i)
  show ?case
  proof (cases "n < 10")
    case True
    then show ?thesis using Suc.prems
      by (subst itoaLoop.simps, subst decimal.simps) (simp add: itoaLoop.simps)
  next
    case False
    then have "n div 10 < 10 ^ i" "0 < n div 10" using Suc.prems by (auto simp: div_greater_zero_iff)
    from Suc.IH [OF this, of "digitChar (n mod 10) # buf"] False show ?thesis
      by (subst itoaLoop.simps, subst decimal.simps) simp
  qed
qed simp

lemma itoaLoop_overflow: "10 ^ i \<le> n \<Longrightarrow> itoaLoop i n buf = None"
proof (induction i arbitrary: n buf)
  case 0
  then show ?case by (subst itoaLoop.simps) simp
next
  case (Suc i)
  then have "10 ^ i \<le> n div 10" by (simp add: less_eq_div_iff_mult_less_eq mult.commute)
  moreover have "n \<noteq> 0" using Suc.prems by (metis le_zero_eq power_not_zero zero_neq_numeral)
  ultimately show ?case using Suc.IH by (subst itoaLoop.simps) simp
qed

lemma decimal_0 [simp]: "decimal 0 = ''0''"
  by code_simp

lemma itoa_nonneg: "0 \<le> n \<Longrightarrow> n < 10 ^ 12 \<Longrightarrow> itoa n = Some (decimal (nat n))"
  using itoaLoop_decimal [of "nat n" 12 "[]"] by (auto simp: itoa_def Let_def nat_less_iff)

lemma itoa_port: "itoa (uint (p :: 32 word)) = Some (decimal (unat p))"
proof -
  have "uint p < 2 ^ 32" using uint_lt2p [of p] by simp
  then have "uint p < 10 ^ 12" by simp
  from itoa_nonneg [OF uint_ge_0 this] show ?thesis by simp
qed

lemma addr_eq: "addr i = i_IP i @ CHR '':'' # decimal (unat (i_Port i))"
  by (simp add: addr_def itoa_port)

lemma colon_tail_inj:
  "xs @ CHR '':'' # decimal m = ys @ CHR '':'' # decimal n \<Longrightarrow> xs = ys \<and> m = n"
proof -
  assume eq: "xs @ CHR '':'' # decimal m = ys @ CHR '':'' # decimal n"
  have nc: "CHR '':'' \<notin> set (decimal k)" for k
    using decimal_chars digit_not_sign by blast
  have "takeWhile (\<lambda>c. c \<noteq> CHR '':'') (rev (xs @ CHR '':'' # decimal m)) = rev (decimal m)" for xs m
    using nc [of m] by (auto simp: takeWhile_append)
  then have "decimal m = decimal n" using eq by (metis rev_rev_ident)
  then show ?thesis using eq by (simp add: decimal_inj)
qed

text \<open>Two instances have the same dial address exactly when IP and port agree.\<close>

lemma addr_inj: "addr x = addr y \<longleftrightarrow> i_IP x = i_IP y \<and> i_Port x = i_Port y"
  unfolding addr_eq by (auto dest!: colon_tail_inj simp: word_unat_eq_iff)

subsection \<open>Smooth weighted round robin\<close>

definition credit :: "lbState \<Rightarrow> Instance \<Rightarrow> rat" where
  "credit s x = mget 0 (current s) (addr x)"

definition sumWeight :: "Instance list \<Rightarrow> rat" where
  "sumWeight xs = (\<Sum>x\<leftarrow>xs. weightOf x)"

lemma weightOf_pos [simp]: "0 < weightOf i"
  by (simp add: weightOf_def)

lemma sumWeight_nonneg: "0 \<le> sumWeight xs"
  unfolding sumWeight_def by (rule sum_list_nonneg) (auto intro: less_imp_le)

lemma sumWeight_pos: "xs \<noteq> [] \<Longrightarrow> 0 < sumWeight xs"
  using sumWeight_nonneg by (cases xs) (auto simp: sumWeight_def add_pos_nonneg)

lemma rrScan_frame:
  assumes "rrScan xs i t b bc m = (t', b', bc', m')"
  shows "t' = t + sumWeight xs" "a \<notin> addr ` set xs \<Longrightarrow> mget 0 m' a = mget 0 m a"
  using assms
proof (induction xs arbitrary: i t b bc m)
  case (Cons x xs)
  { case 1 then show ?case by (auto simp: Let_def sumWeight_def dest!: Cons.IH(1) split: if_splits) }
  { case 2 then show ?case using Cons.IH(2) by (auto simp: Let_def split: if_splits) }
qed (auto simp: sumWeight_def)

lemma rrScan_credit:
  assumes "rrScan xs i t b bc m = (t', b', bc', m')" "distinct (map addr xs)" "x \<in> set xs"
  shows "mget 0 m' (addr x) = mget 0 m (addr x) + weightOf x"
  using assms
proof (induction xs arbitrary: i t b bc m)
  case (Cons y ys)
  let ?m1 = "m(addr y \<mapsto> mget 0 m (addr y) + weightOf y)"
  obtain b1 bc1 where r: "rrScan ys (i + 1) (t + weightOf y) b1 bc1 ?m1 = (t', b', bc', m')"
    using Cons.prems(1) by (auto simp: Let_def split: if_splits)
  show ?case
  proof (cases "x = y")
    case True
    have "addr y \<notin> addr ` set ys" using Cons.prems(2) by simp
    from rrScan_frame(2) [OF r this] True show ?thesis by simp
  next
    case False
    then have x: "x \<in> set ys" using Cons.prems(3) by simp
    then have "addr x \<noteq> addr y" using Cons.prems(2) by (metis distinct.simps(2) image_eqI list.set_map list.simps(9))
    then show ?thesis using Cons.IH [OF r _ x] Cons.prems(2) by (simp add: mget_def)
  qed
qed simp

text \<open>The scan keeps the best index: it points at an entry holding the best credit, no scanned entry
  has more.\<close>

lemma rrScan_best:
  assumes "rrScan xs i t b bc m = (t', b', bc', m')" "distinct (map addr xs)" "0 \<le> i" "xs \<noteq> [] \<or> 0 \<le> b"
  shows "(0 \<le> b \<and> b' = b \<and> bc' = bc \<or>
          (\<exists>k < length xs. b' = i + int k \<and> bc' = mget 0 m' (addr (xs ! k)))) \<and>
         (0 \<le> b \<longrightarrow> bc \<le> bc') \<and> (\<forall>x \<in> set xs. mget 0 m' (addr x) \<le> bc')"
  using assms
proof (induction xs arbitrary: i t b bc m)
  case (Cons y ys)
  let ?cur = "mget 0 m (addr y) + weightOf y"
  define b1 where "b1 = (if ?cur > bc \<or> b < 0 then i else b)"
  define bc1 where "bc1 = (if ?cur > bc \<or> b < 0 then ?cur else bc)"
  have r: "rrScan ys (i + 1) (t + weightOf y) b1 bc1 (m(addr y \<mapsto> ?cur)) = (t', b', bc', m')"
    using Cons.prems(1) by (auto simp: Let_def b1_def bc1_def split: if_splits)
  have y: "mget 0 m' (addr y) = ?cur"
    using rrScan_credit [OF Cons.prems(1,2)] by simp
  have b1: "0 \<le> b1" using Cons.prems(3) by (auto simp: b1_def)
  have IH: "(b' = b1 \<and> bc' = bc1 \<or>
      (\<exists>k < length ys. b' = i + 1 + int k \<and> bc' = mget 0 m' (addr (ys ! k)))) \<and>
      bc1 \<le> bc' \<and> (\<forall>x \<in> set ys. mget 0 m' (addr x) \<le> bc')"
    using Cons.IH [OF r] Cons.prems(2,3) b1 by auto
  have le: "?cur \<le> bc1" "0 \<le> b \<longrightarrow> bc \<le> bc1" by (auto simp: bc1_def)
  have pos: "0 \<le> b \<and> b' = b \<and> bc' = bc \<or>
      (\<exists>k < length (y # ys). b' = i + int k \<and> bc' = mget 0 m' (addr ((y # ys) ! k)))"
  proof (cases "b' = b1 \<and> bc' = bc1")
    case True
    then show ?thesis using y by (auto simp: b1_def bc1_def split: if_splits)
  next
    case False
    then obtain k where "k < length ys" "b' = i + 1 + int k" "bc' = mget 0 m' (addr (ys ! k))"
      using IH by auto
    then have "Suc k < length (y # ys)" "b' = i + int (Suc k)" "bc' = mget 0 m' (addr ((y # ys) ! Suc k))"
      by simp_all
    then show ?thesis by blast
  qed
  show ?case using IH le y pos by auto
qed simp

text \<open>One pick: some instance of maximal credit after every instance gained its weight wins and pays
  the total.\<close>

lemma pickRoundRobin_step:
  assumes "distinct (map addr xs)" "xs \<noteq> []" "pickRoundRobin s xs = (s', p)"
  shows "p \<in> set xs"
    "x \<in> set xs \<Longrightarrow> credit s x + weightOf x \<le> credit s p + weightOf p"
    "x \<in> set xs \<Longrightarrow> credit s' x = credit s x + weightOf x - (if x = p then sumWeight xs else 0)"
    "inflight s' = inflight s"
proof -
  obtain t b bc m where r: "rrScan xs 0 0 (- 1) (- 1) (current s) = (t, b, bc, m)"
    by (metis prod_cases4)
  from rrScan_best [OF r assms(1)] assms(2) obtain k where k: "k < length xs" "b = int k"
    and bc: "bc = mget 0 m (addr (xs ! k))" and max: "\<forall>x \<in> set xs. mget 0 m (addr x) \<le> bc"
    by auto
  have m: "mget 0 m (addr x) = credit s x + weightOf x" if "x \<in> set xs" for x
    using rrScan_credit [OF r assms(1) that] by (simp add: credit_def)
  have t: "t = sumWeight xs" using rrScan_frame(1) [OF r] by simp
  have p: "p = xs ! k" and s': "s' = s\<lparr>current := m(addr p \<mapsto> mget 0 m (addr p) - t)\<rparr>"
    using assms(3) r k by (auto simp: pickRoundRobin_def Let_def)
  show pin: "p \<in> set xs" using p k by simp
  show "x \<in> set xs \<Longrightarrow> credit s x + weightOf x \<le> credit s p + weightOf p"
    using max bc p m [of x] m [OF pin] by auto
  show "inflight s' = inflight s" using s' by simp
  assume x: "x \<in> set xs"
  have "addr x = addr p \<longleftrightarrow> x = p"
    using assms(1) x pin by (auto simp: distinct_map inj_on_def)
  then show "credit s' x = credit s x + weightOf x - (if x = p then sumWeight xs else 0)"
    using s' t m [OF x] m [OF pin] by (auto simp: credit_def mget_upd)
qed

text \<open>The balance invariant: credits sum to zero and none is a whole total in debt.\<close>

definition balanced :: "lbState \<Rightarrow> Instance list \<Rightarrow> bool" where
  "balanced s xs \<longleftrightarrow> (\<Sum>x\<leftarrow>xs. credit s x) = 0 \<and> (\<forall>x\<in>set xs. - sumWeight xs < credit s x)"

lemma sum_list_absent: "p \<notin> set xs \<Longrightarrow> (\<Sum>x\<leftarrow>xs. if x = p then (c::rat) else 0) = 0"
  by (induction xs) auto

lemma sum_list_single:
  "distinct xs \<Longrightarrow> p \<in> set xs \<Longrightarrow> (\<Sum>x\<leftarrow>xs. if x = p then (c::rat) else 0) = c"
  by (induction xs) (auto simp: sum_list_absent)

lemma sum_list_pos_ex: "0 < (\<Sum>x\<leftarrow>xs. (f x::rat)) \<Longrightarrow> \<exists>x\<in>set xs. 0 < f x"
proof (rule ccontr)
  assume "0 < (\<Sum>x\<leftarrow>xs. f x)" "\<not> (\<exists>x\<in>set xs. 0 < f x)"
  moreover from this(2) have "(\<Sum>x\<leftarrow>xs. f x) \<le> 0"
    by (induction xs) (auto simp: not_less add_nonpos_nonpos)
  ultimately show False by simp
qed

lemma balanced_step:
  assumes "distinct (map addr xs)" "xs \<noteq> []" "pickRoundRobin s xs = (s', p)" "balanced s xs"
  shows "balanced s' xs"
proof -
  note st = pickRoundRobin_step [OF assms(1-3)]
  have d: "distinct xs" using assms(1) by (simp add: distinct_map)
  have gained: "(\<Sum>x\<leftarrow>xs. credit s x + weightOf x) = sumWeight xs"
    using assms(4) by (simp add: sum_list_addf balanced_def sumWeight_def)
  then have "0 < (\<Sum>x\<leftarrow>xs. credit s x + weightOf x)" using sumWeight_pos [OF assms(2)] by simp
  then obtain y where "y \<in> set xs" "0 < credit s y + weightOf y" using sum_list_pos_ex by blast
  then have pp: "0 < credit s p + weightOf p" using st(2) [of y] by simp
  have "(\<Sum>x\<leftarrow>xs. credit s' x) =
      (\<Sum>x\<leftarrow>xs. (credit s x + weightOf x) - (if x = p then sumWeight xs else 0))"
    by (rule arg_cong [where f = sum_list], rule map_cong [OF refl]) (simp add: st(3))
  also have "\<dots> = sumWeight xs - sumWeight xs"
    by (simp only: sum_list_subtractf gained sum_list_single [OF d st(1)])
  finally have "(\<Sum>x\<leftarrow>xs. credit s' x) = 0" by simp
  moreover have "- sumWeight xs < credit s' x" if x: "x \<in> set xs" for x
  proof -
    have "- sumWeight xs < credit s x" using assms(4) x by (simp add: balanced_def)
    also have "\<dots> < credit s x + weightOf x" by simp
    finally show ?thesis using st(3) [OF x] pp by (cases "x = p") simp_all
  qed
  ultimately show ?thesis by (simp add: balanced_def)
qed

definition usesRobin :: "string \<Rightarrow> string \<Rightarrow> bool" where
  "usesRobin alg stickyKey \<longleftrightarrow>
     alg \<noteq> ''ip_hash'' \<and> alg \<noteq> ''least_conn'' \<and> (alg = ''cookie_sticky'' \<longrightarrow> stickyKey = '''')"

lemma fst_pstate_put [simp]: "fst (pstate (putState p key s) key) = s"
  by (simp add: pstate_def putState_def)

lemma Pick_robin:
  assumes "2 \<le> length xs" "usesRobin alg sk" "pickRoundRobin (fst (pstate p key)) xs = (s', i)"
  shows "Pick p key alg sk xs = (putState (snd (pstate p key)) key s', Some i)"
  using assms by (auto simp: Pick_def usesRobin_def Let_def split: prod.splits)

lemma pickSeq_robin:
  assumes "distinct (map addr xs)" "2 \<le> length xs" "usesRobin alg sk"
    "balanced (fst (pstate p key)) xs"
    "pickSeq n p key alg sk xs = (p', is)"
  shows "balanced (fst (pstate p' key)) xs \<and> length is = n \<and> set is \<subseteq> Some ` set xs \<and>
    (\<forall>x\<in>set xs. credit (fst (pstate p' key)) x =
       credit (fst (pstate p key)) x + of_nat n * weightOf x - of_nat (count_list is (Some x)) * sumWeight xs)"
  using assms(4,5)
proof (induction n arbitrary: p "is")
  case (Suc n)
  let ?s = "fst (pstate p key)"
  obtain s1 i where r: "pickRoundRobin ?s xs = (s1, i)" by (metis surj_pair)
  have ne: "xs \<noteq> []" using assms(2) by auto
  note st = pickRoundRobin_step [OF assms(1) ne r]
  let ?p1 = "putState (snd (pstate p key)) key s1"
  have pk: "Pick p key alg sk xs = (?p1, Some i)" by (rule Pick_robin [OF assms(2,3) r])
  obtain js where js: "pickSeq n ?p1 key alg sk xs = (p', js)" "is = Some i # js"
    using Suc.prems(2) pk by (auto simp: Let_def split: prod.splits)
  have b: "balanced (fst (pstate ?p1 key)) xs"
    using balanced_step [OF assms(1) ne r Suc.prems(1)] by simp
  note IH = Suc.IH [OF b js(1)]
  have "credit (fst (pstate p' key)) x = credit ?s x + of_nat (Suc n) * weightOf x
      - of_nat (count_list is (Some x)) * sumWeight xs" if x: "x \<in> set xs" for x
    using IH x st(3) [OF x] js(2) by (auto simp: algebra_simps)
  then show ?case using IH st(1) js(2) by simp
qed simp

lemma fresh_credit: "credit (fst (pstate NewPicker key)) x = 0"
  by (simp add: pstate_def NewPicker_def newLBState_def credit_def)

lemma fresh_balanced: "xs \<noteq> [] \<Longrightarrow> balanced (fst (pstate NewPicker key)) xs"
  using sumWeight_pos [of xs] by (simp add: balanced_def fresh_credit)

lemma pickSeq_single:
  "length xs = 1 \<Longrightarrow> pickSeq n p key alg sk xs = (p, replicate n (Some (xs ! 0)))"
  by (induction n) (auto simp: Pick_def)

lemma count_list_replicate: "count_list (replicate n y) y = n"
  by (induction n) auto

lemma sum_count_list:
  "distinct ys \<Longrightarrow> set zs \<subseteq> set ys \<Longrightarrow> (\<Sum>y\<leftarrow>ys. count_list zs y) = length zs"
  by (simp add: sum_list_distinct_conv_sum_set sum_count_set)

lemma sum_list_le_eq:
  "(\<Sum>y\<leftarrow>xs. (f y::nat)) = (\<Sum>y\<leftarrow>xs. g y) \<Longrightarrow> (\<And>y. y \<in> set xs \<Longrightarrow> f y \<le> g y) \<Longrightarrow> x \<in> set xs \<Longrightarrow> f x = g x"
proof (induction xs)
  case (Cons a xs)
  have "(\<Sum>y\<leftarrow>xs. f y) \<le> (\<Sum>y\<leftarrow>xs. g y)" using Cons.prems(2) by (intro sum_list_mono) auto
  moreover have "f a \<le> g a" using Cons.prems(2) by simp
  ultimately have "f a = g a" "(\<Sum>y\<leftarrow>xs. f y) = (\<Sum>y\<leftarrow>xs. g y)" using Cons.prems(1) by simp_all
  then show ?case using Cons by auto
qed simp

text \<open>Fewer than one full turn ahead: the shared bound behind both round-robin properties.\<close>

lemma robin_bound:
  assumes "distinct (map addr xs)" "usesRobin alg sk" "x \<in> set xs"
  shows "of_nat (count_list (snd (pickSeq n NewPicker key alg sk xs)) (Some x)) * sumWeight xs
         < of_nat n * weightOf x + sumWeight xs"
proof (cases "length xs = 1")
  case True
  then have "xs = [x]" using assms(3) by (cases xs) auto
  then show ?thesis by (simp add: pickSeq_single count_list_replicate sumWeight_def)
next
  case False
  then have l: "2 \<le> length xs" using assms(3) by (cases xs) (auto simp: Suc_le_eq)
  obtain p' js where r: "pickSeq n NewPicker key alg sk xs = (p', js)" by (metis surj_pair)
  have "xs \<noteq> []" using assms(3) by auto
  then have b: "balanced (fst (pstate NewPicker key)) xs" by (rule fresh_balanced)
  note q = pickSeq_robin [OF assms(1) l assms(2) b r]
  then have "- sumWeight xs < credit (fst (pstate p' key)) x" using assms(3) by (auto simp: balanced_def)
  then show ?thesis using q assms(3) r by (auto simp: fresh_credit)
qed

lemma pickSeq_shape:
  assumes "xs \<noteq> []" "distinct (map addr xs)" "usesRobin alg sk"
  shows "length (snd (pickSeq n NewPicker key alg sk xs)) = n"
    "set (snd (pickSeq n NewPicker key alg sk xs)) \<subseteq> Some ` set xs"
proof -
  obtain p' js where r: "pickSeq n NewPicker key alg sk xs = (p', js)" by (metis surj_pair)
  have "length js = n \<and> set js \<subseteq> Some ` set xs"
  proof (cases "length xs = 1")
    case True
    then show ?thesis using r by (auto simp: pickSeq_single set_replicate_conv_if split: if_splits)
  next
    case False
    then have l: "2 \<le> length xs" using assms(1) by (cases xs) (auto simp: Suc_le_eq)
    show ?thesis using pickSeq_robin [OF assms(2) l assms(3) fresh_balanced [OF assms(1)] r] by blast
  qed
  then show "length (snd (pickSeq n NewPicker key alg sk xs)) = n"
    "set (snd (pickSeq n NewPicker key alg sk xs)) \<subseteq> Some ` set xs" using r by auto
qed

text \<open>C19. Smooth weighted round robin is exactly fair.  Over instances with distinct addresses and
  whole-number weights, starting from a fresh picker, \<open>m\<close> full turns (the sum of the weights, \<open>m\<close> times)
  choose every instance exactly \<open>m\<close> times its weight, for the default algorithm, an unknown algorithm
  name and cookie stickiness without a cookie alike.\<close>

theorem round_robin_fair:
  assumes "distinct (map addr xs)" "usesRobin alg sk"
    "\<forall>x\<in>set xs. weightOf x = of_nat (w x)" "x \<in> set xs"
  shows "count_list (snd (pickSeq (m * (\<Sum>y\<leftarrow>xs. w y)) NewPicker key alg sk xs)) (Some x) = m * w x"
proof -
  define W where "W = (\<Sum>y\<leftarrow>xs. w y)"
  define cnt where "cnt y = count_list (snd (pickSeq (m * W) NewPicker key alg sk xs)) (Some y)" for y
  have ne: "xs \<noteq> []" using assms(4) by auto
  have sw: "sumWeight xs = of_nat W"
    using assms(3) unfolding sumWeight_def W_def by (induction xs) auto
  have le: "cnt y \<le> m * w y" if y: "y \<in> set xs" for y
  proof -
    have "(of_nat (cnt y * W) :: rat) < of_nat (m * W * w y + W)"
      using robin_bound [OF assms(1,2) y, of "m * W" key] assms(3) y by (simp add: cnt_def sw)
    then have "cnt y * W < m * W * w y + W" by (simp only: of_nat_less_iff)
    then have "cnt y * W < (m * w y + 1) * W" by (simp add: algebra_simps)
    then show ?thesis by (subst (asm) mult_less_cancel2) simp
  qed
  have "distinct (map Some xs)" using assms(1) by (simp add: distinct_map)
  from sum_count_list [OF this, of "snd (pickSeq (m * W) NewPicker key alg sk xs)"]
  have "(\<Sum>y\<leftarrow>xs. cnt y) = m * W"
    using pickSeq_shape [OF ne assms(1,2), of "m * W" key] by (simp add: cnt_def comp_def)
  also have "\<dots> = (\<Sum>y\<leftarrow>xs. m * w y)" by (simp add: W_def sum_list_const_mult)
  finally have "cnt x = m * w x"
    using le assms(4) by (rule sum_list_le_eq)
  then show ?thesis by (simp add: cnt_def W_def)
qed

definition twoNodes :: "Instance list" where
  "twoNodes = [zeroInstance\<lparr>i_IP := ''10.0.0.1'', i_Port := 80, i_Weight := 5\<rparr>,
               zeroInstance\<lparr>i_IP := ''10.0.0.2'', i_Port := 80, i_Weight := 0\<rparr>]"

lemma twoNodes_addr: "distinct (map addr twoNodes)"
  by (simp add: twoNodes_def addr_inj)

theorem round_robin_fair_witness:
  "count_list (snd (pickSeq (2 * 6) NewPicker ''k'' ''round_robin'' '''' twoNodes)) (Some (twoNodes ! 0)) = 2 * 5"
  using round_robin_fair [where xs = twoNodes and alg = "''round_robin''" and sk = "''''" and m = 2
      and key = "''k''" and x = "twoNodes ! 0" and w = "\<lambda>x. if x = twoNodes ! 0 then 5 else 1", OF twoNodes_addr]
  by (simp add: usesRobin_def twoNodes_def weightOf_def zeroInstance_def)

text \<open>At every moment, whatever the (positive rational) weights, no instance is a full turn ahead of
  its share: after \<open>n\<close> picks from a fresh picker, its number of picks times the weight sum stays below
  \<open>n\<close> times its weight plus the weight sum.\<close>

theorem round_robin_bound:
  assumes "distinct (map addr xs)" "usesRobin alg sk" "x \<in> set xs"
  shows "of_nat (count_list (snd (pickSeq n NewPicker key alg sk xs)) (Some x)) * sumWeight xs
         < of_nat n * weightOf x + sumWeight xs"
  using assms by (rule robin_bound)

theorem round_robin_bound_witness:
  "of_nat (count_list (snd (pickSeq 7 NewPicker ''k'' ''unknown'' '''' twoNodes)) (Some (twoNodes ! 1))) * sumWeight twoNodes
   < of_nat 7 * weightOf (twoNodes ! 1) + sumWeight twoNodes"
  by (rule round_robin_bound [OF twoNodes_addr]) (simp_all add: usesRobin_def twoNodes_def)

subsection \<open>Least connections\<close>

text \<open>The order \<^verbatim>\<open>least_conn\<close> decides by: fewer open connections, then the heavier instance.\<close>

definition lcBetter :: "(string \<rightharpoonup> int) \<Rightarrow> Instance \<Rightarrow> Instance \<Rightarrow> bool" where
  "lcBetter m x y \<longleftrightarrow>
     mget 0 m (addr x) < mget 0 m (addr y) \<or>
     mget 0 m (addr x) = mget 0 m (addr y) \<and> weightOf x > weightOf y"

definition lcChosen :: "(string \<rightharpoonup> int) \<Rightarrow> Instance list \<Rightarrow> nat \<Rightarrow> nat \<Rightarrow> bool" where
  "lcChosen m all n k \<longleftrightarrow>
     k < n \<and> (\<forall>j<n. \<not> lcBetter m (all ! j) (all ! k)) \<and> (\<forall>j<k. lcBetter m (all ! k) (all ! j))"

lemma lcBetter_trans: "lcBetter m x y \<Longrightarrow> lcBetter m y z \<Longrightarrow> lcBetter m x z"
  by (auto simp: lcBetter_def)

lemma lcBetter_cotrans: "lcBetter m x z \<Longrightarrow> lcBetter m x y \<or> lcBetter m y z"
  by (auto simp: lcBetter_def)

lemma lcBetter_asym: "lcBetter m x y \<Longrightarrow> \<not> lcBetter m y x"
  by (auto simp: lcBetter_def)

interpretation lc: strict_weak_order "lcBetter m"
  by unfold_locales (auto simp: lcBetter_asym lcBetter_cotrans)

lemma lcChosen_Suc:
  assumes "lcChosen m all n k"
  shows "lcChosen m all (Suc n) (if lcBetter m (all ! n) (all ! k) then n else k)"
proof (cases "lcBetter m (all ! n) (all ! k)")
  case True
  have "lcBetter m (all ! n) (all ! j)" if "j < n" for j
    using True assms that lc.less_cotrans [of m "all ! n" "all ! k" "all ! j"] by (auto simp: lcChosen_def)
  then show ?thesis using True lc.less_asym lc.less_irrefl
    by (auto simp: lcChosen_def less_Suc_eq)
qed (use assms in \<open>auto simp: lcChosen_def less_Suc_eq\<close>)

lemma lcScan_chosen:
  assumes "all = pre @ rest" "\<forall>a. 0 \<le> mget 0 m a"
    "pre = [] \<and> bc < 0 \<or> lcChosen m all (length pre) (nat b) \<and> 0 \<le> b \<and> bc = mget 0 m (addr (all ! nat b))"
    "all \<noteq> []"
  shows "lcChosen m all (length all) (nat (lcScan m all rest (int (length pre)) b bc))"
  using assms(1,3)
proof (induction rest arbitrary: pre b bc)
  case Nil
  then show ?case using assms(4) by auto
next
  case (Cons x rest)
  have ax: "all ! length pre = x" using Cons.prems(1) by simp
  let ?c = "mget 0 m (addr x)"
  define upd where "upd = (bc < 0 \<or> ?c < bc \<or> (?c = bc \<and> weightOf x > weightOf (all ! nat b)))"
  have step: "lcScan m all (x # rest) (int (length pre)) b bc =
      lcScan m all rest (int (length (pre @ [x]))) (if upd then int (length pre) else b) (if upd then ?c else bc)"
    by (simp add: upd_def Let_def add.commute)
  have "lcChosen m all (length (pre @ [x])) (nat (if upd then int (length pre) else b)) \<and>
      0 \<le> (if upd then int (length pre) else b) \<and>
      (if upd then ?c else bc) = mget 0 m (addr (all ! nat (if upd then int (length pre) else b)))"
  proof (cases "pre = [] \<and> bc < 0")
    case True
    then show ?thesis using ax lc.less_irrefl by (auto simp: upd_def lcChosen_def)
  next
    case False
    then have ch: "lcChosen m all (length pre) (nat b)" and b0: "0 \<le> b" and bc: "bc = mget 0 m (addr (all ! nat b))"
      using Cons.prems(2) by auto
    have "\<not> bc < 0" using assms(2) bc by (simp add: not_less)
    then have "upd \<longleftrightarrow> lcBetter m x (all ! nat b)"
      using bc by (auto simp: upd_def lcBetter_def)
    then show ?thesis using lcChosen_Suc [OF ch] ax b0 bc by auto
  qed
  then show ?case
    unfolding step using Cons.prems(1) by (intro Cons.IH) auto
qed

lemma pickLeastConn_chosen:
  assumes "\<forall>a. 0 \<le> mget 0 (inflight s) a" "xs \<noteq> []"
  shows "\<exists>k. pickLeastConn s xs = xs ! k \<and> lcChosen (inflight s) xs (length xs) k"
proof -
  have "lcChosen (inflight s) xs (length xs) (nat (lcScan (inflight s) xs xs (int (length ([] :: Instance list))) 0 (- 1)))"
    by (rule lcScan_chosen [where pre = "[]"]) (use assms in auto)
  then show ?thesis unfolding pickLeastConn_def by auto
qed

subsection \<open>Every state the picker can reach\<close>

text \<open>The gateway's use of one picker: picks, acquires and releases in any order, and pruning.\<close>

inductive pickerReach :: "Picker \<Rightarrow> bool" where
  new: "pickerReach NewPicker"
| pick: "pickerReach p \<Longrightarrow> pickerReach (fst (Pick p key alg sk xs))"
| acquire: "pickerReach p \<Longrightarrow> pickerReach (Acquire p key a)"
| release: "pickerReach p \<Longrightarrow> pickerReach (Release p key a)"
| forget: "pickerReach p \<Longrightarrow> pickerReach (Forget p live)"

definition pickerOK :: "Picker \<Rightarrow> bool" where
  "pickerOK p \<longleftrightarrow> (\<forall>key s a. stats p key = Some s \<longrightarrow> 0 \<le> mget 0 (inflight s) a)"

lemma pickerOK_state: "pickerOK p \<Longrightarrow> 0 \<le> mget 0 (inflight (fst (pstate p key))) a"
  by (auto simp: pickerOK_def pstate_def newLBState_def split: option.split)

lemma pickerOK_pstate: "pickerOK p \<Longrightarrow> pickerOK (snd (pstate p key))"
  by (auto simp: pickerOK_def pstate_def newLBState_def split: option.split)

lemma pickerOK_put: "pickerOK p \<Longrightarrow> (\<And>a. 0 \<le> mget 0 (inflight s) a) \<Longrightarrow> pickerOK (putState p key s)"
  by (auto simp: pickerOK_def putState_def)

lemma inflight_pickRoundRobin [simp]: "inflight (fst (pickRoundRobin s xs)) = inflight s"
  by (auto simp: pickRoundRobin_def Let_def split: prod.split)

lemma pickerOK_Pick: "pickerOK p \<Longrightarrow> pickerOK (fst (Pick p key alg sk xs))"
proof -
  assume ok: "pickerOK p"
  have "pickerOK (putState (snd (pstate p key)) key (fst (pickRoundRobin (fst (pstate p key)) xs)))"
    using ok by (intro pickerOK_put pickerOK_pstate) (simp_all add: pickerOK_state)
  then show ?thesis using ok pickerOK_pstate [OF ok, of key]
    by (simp add: Pick_def Let_def case_prod_beta)
qed

lemma pickerOK_Acquire: "pickerOK p \<Longrightarrow> pickerOK (Acquire p key a)"
  using pickerOK_state [of p key] pickerOK_pstate [of p key]
  by (auto simp: Acquire_def Let_def mget_upd intro!: pickerOK_put add_nonneg_nonneg split: prod.split)

lemma pickerOK_Release: "pickerOK p \<Longrightarrow> pickerOK (Release p key a)"
  using pickerOK_state [of p key] pickerOK_pstate [of p key]
  by (auto simp: Release_def Let_def mget_upd intro!: pickerOK_put split: prod.split)

lemma pickerReach_OK: "pickerReach p \<Longrightarrow> pickerOK p"
proof (induction rule: pickerReach.induct)
  case new show ?case by (simp add: pickerOK_def NewPicker_def)
next
  case (forget p live) then show ?case by (auto simp: pickerOK_def Forget_def split: if_splits)
qed (simp_all add: pickerOK_Pick pickerOK_Acquire pickerOK_Release)

text \<open>Least connections is optimal in every state the picker can reach: the chosen instance has no
  more open connections than any other, among equally loaded ones no heavier one exists, and among
  those it is the first of the list.\<close>

theorem least_conn_optimal:
  assumes "pickerReach p" "xs \<noteq> []"
  shows "\<exists>k < length xs. snd (Pick p key ''least_conn'' sk xs) = Some (xs ! k) \<and>
    (\<forall>j < length xs. conns p key (addr (xs ! k)) \<le> conns p key (addr (xs ! j))) \<and>
    (\<forall>j < length xs. conns p key (addr (xs ! j)) = conns p key (addr (xs ! k)) \<longrightarrow>
        weightOf (xs ! j) < weightOf (xs ! k) \<or> weightOf (xs ! j) = weightOf (xs ! k) \<and> k \<le> j)"
proof (cases "length xs = 1")
  case True
  then show ?thesis by (intro exI [of _ 0]) (auto simp: Pick_def)
next
  case False
  let ?s = "fst (pstate p key)"
  have ok: "\<forall>a. 0 \<le> mget 0 (inflight ?s) a" using pickerReach_OK [OF assms(1)] pickerOK_state by blast
  have c: "conns p key a = mget 0 (inflight ?s) a" for a
    by (auto simp: conns_def pstate_def newLBState_def split: option.split)
  obtain k where k: "pickLeastConn ?s xs = xs ! k" "lcChosen (inflight ?s) xs (length xs) k"
    using pickLeastConn_chosen [OF ok assms(2)] by blast
  have "snd (Pick p key ''least_conn'' sk xs) = Some (xs ! k)"
    using assms(2) False k(1) by (auto simp: Pick_def Let_def split: prod.split)
  moreover have "weightOf (xs ! j) < weightOf (xs ! k) \<or> weightOf (xs ! j) = weightOf (xs ! k) \<and> k \<le> j"
    if "j < length xs" "conns p key (addr (xs ! j)) = conns p key (addr (xs ! k))" for j
    using k(2) that by (cases "j < k") (fastforce simp: lcChosen_def lcBetter_def c)+
  ultimately show ?thesis using k(2) by (intro exI [of _ k]) (auto simp: lcChosen_def lcBetter_def c not_less)
qed

theorem least_conn_optimal_witness:
  "\<exists>k < length twoNodes. snd (Pick (Acquire NewPicker ''k'' ''10.0.0.1:80'') ''k'' ''least_conn'' '''' twoNodes) = Some (twoNodes ! k)"
  using least_conn_optimal [where p = "Acquire NewPicker ''k'' ''10.0.0.1:80''" and xs = twoNodes and key = "''k''" and sk = "''''"]
  by (auto simp: twoNodes_def intro: pickerReach.intros)

subsection \<open>Pinning, totality and counters\<close>

lemma hashIndex_range:
  assumes "0 < n" "n < 2 ^ 32"
  shows "0 \<le> hashIndex key n" "hashIndex key n < n"
proof -
  have "uint (word_of_int n :: 32 word) = n" using assms by (simp add: uint_word_of_int)
  then show "0 \<le> hashIndex key n" "hashIndex key n < n"
    using assms by (simp_all add: hashIndex_def uint_mod_distrib)
qed

lemma hashed_in_set:
  assumes "xs \<noteq> []" "length xs < 2 ^ 32"
  shows "xs ! nat (hashIndex key (int (length xs))) \<in> set xs"
  using hashIndex_range [of "int (length xs)" key] assms by (intro nth_mem) auto

lemma rrScan_range:
  "rrScan xs i tot best bc m = (tot', best', bc', m') \<Longrightarrow> best' = best \<or> i \<le> best' \<and> best' < i + int (length xs)"
  by (induction xs arbitrary: i tot best bc m) (fastforce simp: Let_def split: if_splits)+

lemma lcScan_range:
  "lcScan m all xs i best bc = best \<or> i \<le> lcScan m all xs i best bc \<and> lcScan m all xs i best bc < i + int (length xs)"
proof (induction xs arbitrary: i best bc)
  case (Cons x xs)
  let ?c = "mget 0 m (addr x)"
  show ?case using Cons [of "i + 1" i ?c] Cons [of "i + 1" best bc] by (auto simp: Let_def)
qed simp

lemma pickRoundRobin_mem: "xs \<noteq> [] \<Longrightarrow> snd (pickRoundRobin s xs) \<in> set xs"
proof -
  assume ne: "xs \<noteq> []"
  obtain tot best bc m where r: "rrScan xs 0 0 (- 1) (- 1) (current s) = (tot, best, bc, m)" by (metis prod_cases4)
  then show ?thesis using rrScan_range [OF r] ne by (auto simp: pickRoundRobin_def Let_def intro!: nth_mem)
qed

lemma pickLeastConn_mem: "xs \<noteq> [] \<Longrightarrow> pickLeastConn s xs \<in> set xs"
  using lcScan_range [of "inflight s" xs xs 0 0 "- 1"] by (auto simp: pickLeastConn_def intro!: nth_mem)

lemma Pick_member:
  assumes "length xs < 2 ^ 32"
  shows "(case snd (Pick p key alg sk xs) of None \<Rightarrow> xs = [] | Some i \<Rightarrow> i \<in> set xs)"
proof (cases "xs = []")
  case False
  then show ?thesis
    using hashed_in_set [OF False assms, of sk] pickRoundRobin_mem [OF False] pickLeastConn_mem [OF False] hd_in_set [OF False]
    by (simp add: Pick_def Let_def case_prod_beta hd_conv_nth)
qed (simp add: Pick_def)

text \<open>Picking is total and stays inside the list: for every state of the picker, algorithm name and
  sticky key, a non-empty list of fewer than \<open>2^32\<close> instances yields one of its members and an empty list
  yields none.\<close>

theorem Pick_total:
  assumes "length xs < 2 ^ 32"
  shows "(case snd (Pick p key alg sk xs) of None \<Rightarrow> xs = [] | Some i \<Rightarrow> i \<in> set xs)"
  using assms by (rule Pick_member)

theorem Pick_total_witness:
  "case snd (Pick NewPicker ''k'' ''ip_hash'' ''1.2.3.4'' twoNodes) of None \<Rightarrow> twoNodes = [] | Some i \<Rightarrow> i \<in> set twoNodes"
  by (rule Pick_total) (simp add: twoNodes_def)

text \<open>Pinning is sticky: with \<^verbatim>\<open>ip_hash\<close>, or \<^verbatim>\<open>cookie_sticky\<close> and a cookie, the choice depends only on
  the sticky key and the instance list, never on the history of the picker, and leaves every counter
  as it was.\<close>

theorem pinned_choice_stable:
  assumes "alg = ''ip_hash'' \<or> alg = ''cookie_sticky'' \<and> sk \<noteq> ''''"
  shows "snd (Pick p key alg sk xs) = snd (Pick q key' alg sk xs) \<and>
         conns (fst (Pick p key alg sk xs)) k a = conns p k a"
  using assms by (auto simp: Pick_def Let_def case_prod_beta conns_def pstate_def newLBState_def split: option.split)

theorem pinned_choice_stable_witness:
  "snd (Pick NewPicker ''a'' ''ip_hash'' ''1.2.3.4'' twoNodes) =
   snd (Pick (Acquire NewPicker ''b'' ''x'') ''b'' ''ip_hash'' ''1.2.3.4'' twoNodes)"
  using pinned_choice_stable [where alg = "''ip_hash''" and p = NewPicker and q = "Acquire NewPicker ''b'' ''x''"
      and sk = "''1.2.3.4''" and xs = twoNodes and key = "''a''" and key' = "''b''"] by simp

lemma conns_pstate [simp]: "conns (snd (pstate p key)) k a = conns p k a"
  by (auto simp: conns_def pstate_def newLBState_def split: option.split)

lemma conns_Acquire: "conns (Acquire p key a) k b = conns p k b + (if k = key \<and> b = a then 1 else 0)"
  by (auto simp: Acquire_def Let_def conns_def pstate_def putState_def newLBState_def mget_upd split: option.split)

lemma conns_Release:
  "conns (Release p key a) k b = (if k = key \<and> b = a \<and> 0 < conns p k b then conns p k b - 1 else conns p k b)"
  by (auto simp: Release_def Let_def conns_def pstate_def putState_def newLBState_def mget_upd split: option.split)

lemma conns_Pick [simp]: "conns (fst (Pick p key alg sk xs)) k a = conns p k a"
proof -
  have "conns (putState (snd (pstate p key)) key (fst (pickRoundRobin (fst (pstate p key)) xs))) k a = conns p k a"
    by (auto simp: conns_def putState_def pstate_def newLBState_def split: option.split)
  then show ?thesis by (simp add: Pick_def Let_def case_prod_beta)
qed

lemma conns_Forget: "conns (Forget p live) k a = (if k \<in> live then conns p k a else 0)"
  by (simp add: conns_def Forget_def)

lemma conns_nonneg: "pickerReach p \<Longrightarrow> 0 \<le> conns p key a"
  using pickerReach_OK by (auto simp: conns_def pickerOK_def split: option.split)

text \<open>A release cancels the acquire it answers, and no other counter moves.\<close>

lemma Release_Acquire: "pickerReach p \<Longrightarrow> conns (Release (Acquire p key a) key a) k b = conns p k b"
  using conns_nonneg [of p key a] by (auto simp: conns_Release conns_Acquire)

end
