(* ===== verification/Json.thy ===== *)
theory Json
  imports GoStrings
begin

text \<open>
  \<^verbatim>\<open>encoding/json\<close> as the repository uses it on metadata: \<^verbatim>\<open>Marshal\<close> and \<^verbatim>\<open>Unmarshal\<close> of a
  \<^verbatim>\<open>map[string]string\<close>.  Marshal sorts the keys and escapes quotes, backslashes, control bytes and the
  HTML characters; Unmarshal first checks the syntax of the whole text, then stores string members,
  and stores the zero value for a member of another type.  Both directions replace invalid UTF-8 by
  U+FFFD.  The value parser recurses on fuel; one more than the
  length of the text is enough, because every level of recursion consumes a byte.
\<close>

datatype json =
    JNull
  | JBool bool
  | JNum string
  | JStr string
  | JArr "json list"
  | JObj "(string \<times> json) list"

subsection \<open>Writing\<close>

definition hexDigit :: "nat \<Rightarrow> char" where
  "hexDigit n = (if n < 10 then char_of (48 + n) else char_of (87 + n))"

definition escChar :: "char \<Rightarrow> string" where
  "escChar c =
     (let b = byte c in
      if b = 34 then [CHR 0x5C, CHR 0x22]
      else if b = 92 then [CHR 0x5C, CHR 0x5C]
      else if b = 8 then [CHR 0x5C, CHR ''b'']
      else if b = 12 then [CHR 0x5C, CHR ''f'']
      else if b = 10 then [CHR 0x5C, CHR ''n'']
      else if b = 13 then [CHR 0x5C, CHR ''r'']
      else if b = 9 then [CHR 0x5C, CHR ''t'']
      else if b < 32 \<or> b = 60 \<or> b = 62 \<or> b = 38
        then [CHR 0x5C, CHR ''u'', CHR ''0'', CHR ''0'', hexDigit (b div 16), hexDigit (b mod 16)]
      else [c])"

definition lineSep :: "char \<Rightarrow> string" where
  "lineSep c = [char_of (226 :: nat), char_of (128 :: nat), c]"

text \<open>One rune: ASCII by \<open>escChar\<close>, an invalid byte as \<^verbatim>\<open>\ufffd\<close>, the two line separators escaped, any other
  rune as it is.\<close>

definition escRune :: "string \<Rightarrow> string" where
  "escRune r =
     (case r of
        [c] \<Rightarrow> if byte c < 128 then escChar c else CHR 0x5C # ''ufffd''
      | _ \<Rightarrow> if r = lineSep (char_of (168 :: nat)) then CHR 0x5C # ''u2028''
             else if r = lineSep (char_of (169 :: nat)) then CHR 0x5C # ''u2029''
             else r)"

definition jsonString :: "string \<Rightarrow> string" where
  "jsonString s = CHR 0x22 # concat (map escRune (runes s)) @ [CHR 0x22]"

definition jsonMember :: "string \<times> string \<Rightarrow> string" where
  "jsonMember kv = jsonString (fst kv) @ CHR '':'' # jsonString (snd kv)"

definition jsonMarshalMap :: "smap \<Rightarrow> string" where
  "jsonMarshalMap m =
     CHR ''{'' # joinWith '','' (map (\<lambda>k. jsonMember (k, aget m k)) (sort (remdups (map fst m)))) @ ''}''"

subsection \<open>Reading\<close>

definition isWs :: "char \<Rightarrow> bool" where
  "isWs c \<longleftrightarrow> byte c = 32 \<or> byte c = 9 \<or> byte c = 10 \<or> byte c = 13"

definition skipWs :: "string \<Rightarrow> string" where
  "skipWs s = dropWhile isWs s"

definition hexVal :: "char \<Rightarrow> nat option" where
  "hexVal c =
     (let b = byte c in
      if 48 \<le> b \<and> b \<le> 57 then Some (b - 48)
      else if 97 \<le> b \<and> b \<le> 102 then Some (b - 87)
      else if 65 \<le> b \<and> b \<le> 70 then Some (b - 55)
      else None)"

fun hex4 :: "string \<Rightarrow> (nat \<times> string) option" where
  "hex4 (a # b # c # d # r) =
     (case (hexVal a, hexVal b, hexVal c, hexVal d) of
        (Some x, Some y, Some z, Some w) \<Rightarrow> Some (((x * 16 + y) * 16 + z) * 16 + w, r)
      | _ \<Rightarrow> None)"
| "hex4 _ = None"

text \<open>UTF-8 of a code point; a lone surrogate becomes U+FFFD.\<close>

definition encodeRune :: "nat \<Rightarrow> string" where
  "encodeRune r =
     (if r < 128 then [char_of r]
      else if r < 2048 then [char_of (192 + r div 64), char_of (128 + r mod 64)]
      else if 55296 \<le> r \<and> r \<le> 57343 then [char_of (239 :: nat), char_of (191 :: nat), char_of (189 :: nat)]
      else if r < 65536 then
        [char_of (224 + r div 4096), char_of (128 + r div 64 mod 64), char_of (128 + r mod 64)]
      else [char_of (240 + r div 262144), char_of (128 + r div 4096 mod 64),
            char_of (128 + r div 64 mod 64), char_of (128 + r mod 64)])"

text \<open>One \<^verbatim>\<open>\u\<close> escape, joined with the next one when the two are a surrogate pair.\<close>

definition unicodeEsc :: "string \<Rightarrow> (string \<times> string) option" where
  "unicodeEsc s =
     (case hex4 s of
        None \<Rightarrow> None
      | Some (r, s1) \<Rightarrow>
          (if 55296 \<le> r \<and> r \<le> 56319 \<and> take 2 s1 = [CHR 0x5C, CHR ''u''] then
             (case hex4 (drop 2 s1) of
                Some (q, s2) \<Rightarrow>
                  (if 56320 \<le> q \<and> q \<le> 57343
                   then Some (encodeRune (65536 + (r - 55296) * 1024 + (q - 56320)), s2)
                   else Some (encodeRune r, s1))
              | None \<Rightarrow> Some (encodeRune r, s1))
           else Some (encodeRune r, s1)))"

definition simpleEsc :: "char \<Rightarrow> char option" where
  "simpleEsc e =
     (if e = CHR 0x22 \<or> e = CHR 0x5C \<or> e = CHR ''/'' then Some e
      else if e = CHR ''b'' then Some (CHR 0x08)
      else if e = CHR ''f'' then Some (CHR 0x0C)
      else if e = CHR ''n'' then Some (CHR 0x0A)
      else if e = CHR ''r'' then Some (CHR 0x0D)
      else if e = CHR ''t'' then Some (CHR 0x09)
      else None)"

lemma hex4_length: "hex4 s = Some (r, t) \<Longrightarrow> length t < length s"
  by (cases s rule: hex4.cases) (auto split: option.splits)

lemma unicodeEsc_length: "unicodeEsc s = Some (x, t) \<Longrightarrow> length t < length s"
  by (auto simp: unicodeEsc_def dest!: hex4_length split: option.splits if_splits)

text \<open>The rest of a string literal after its opening quote.\<close>

function (sequential) parseStr :: "string \<Rightarrow> (string \<times> string) option" where
  "parseStr [] = None"
| "parseStr (c # cs) =
     (if c = CHR 0x22 then Some ([], cs)
      else if c = CHR 0x5C then
        (case cs of
           [] \<Rightarrow> None
         | e # cs1 \<Rightarrow>
             (if e = CHR ''u'' then
                (case unicodeEsc cs1 of
                   None \<Rightarrow> None
                 | Some (x, cs2) \<Rightarrow> map_option (\<lambda>(t, r). (x @ t, r)) (parseStr cs2))
              else (case simpleEsc e of
                      None \<Rightarrow> None
                    | Some x \<Rightarrow> map_option (\<lambda>(t, r). (x # t, r)) (parseStr cs1))))
      else if byte c < 32 then None
      else if byte c < 128 then map_option (\<lambda>(t, r). (c # t, r)) (parseStr cs)
      else (case runeValid (c # cs) of
              Some n \<Rightarrow> map_option (\<lambda>(t, r). (take n (c # cs) @ t, r)) (parseStr (drop (n - 1) cs))
            | None \<Rightarrow> map_option (\<lambda>(t, r). (encodeRune 65533 @ t, r)) (parseStr cs)))"
  by pat_completeness auto
termination
  by (relation "measure length") (auto dest: unicodeEsc_length)

definition isNumChar :: "char \<Rightarrow> bool" where
  "isNumChar c \<longleftrightarrow> isDigit c \<or> c = CHR ''-'' \<or> c = CHR ''+'' \<or> c = CHR ''.'' \<or> c = CHR ''e'' \<or> c = CHR ''E''"

text \<open>The grammar of a JSON number: \<^verbatim>\<open>-?(0|[1-9][0-9]*)(\.[0-9]+)?([eE][+-]?[0-9]+)?\<close>.\<close>

definition okExp :: "string \<Rightarrow> bool" where
  "okExp s = (case s of [] \<Rightarrow> True
     | e # t \<Rightarrow> (e = CHR ''e'' \<or> e = CHR ''E'') \<and>
         (let d = (case t of c # u \<Rightarrow> if c = CHR ''+'' \<or> c = CHR ''-'' then u else t | [] \<Rightarrow> [])
          in d \<noteq> [] \<and> list_all isDigit d))"

definition okFrac :: "string \<Rightarrow> bool" where
  "okFrac s = (case s of
     c # t \<Rightarrow> if c = CHR ''.'' then takeWhile isDigit t \<noteq> [] \<and> okExp (dropWhile isDigit t) else okExp s
   | [] \<Rightarrow> True)"

definition okNum :: "string \<Rightarrow> bool" where
  "okNum s =
     (let t = (case s of c # u \<Rightarrow> if c = CHR ''-'' then u else s | [] \<Rightarrow> []);
          d = takeWhile isDigit t
      in d \<noteq> [] \<and> (hd d = CHR ''0'' \<longrightarrow> length d = 1) \<and> okFrac (dropWhile isDigit t))"

definition parseLit :: "string \<Rightarrow> (json \<times> string) option" where
  "parseLit s =
     (if hasPrefix s ''true'' then Some (JBool True, drop 4 s)
      else if hasPrefix s ''false'' then Some (JBool False, drop 5 s)
      else if hasPrefix s ''null'' then Some (JNull, drop 4 s)
      else let n = takeWhile isNumChar s
           in if okNum n then Some (JNum n, dropWhile isNumChar s) else None)"

fun parseVal :: "nat \<Rightarrow> string \<Rightarrow> (json \<times> string) option"
  and parseElems :: "nat \<Rightarrow> string \<Rightarrow> json list \<Rightarrow> (json \<times> string) option"
  and parseMembers :: "nat \<Rightarrow> string \<Rightarrow> (string \<times> json) list \<Rightarrow> (json \<times> string) option" where
  "parseVal 0 s = None"
| "parseVal (Suc n) s =
     (case skipWs s of
        [] \<Rightarrow> None
      | c # cs \<Rightarrow>
          if c = CHR 0x22 then map_option (\<lambda>(t, r). (JStr t, r)) (parseStr cs)
          else if c = CHR ''{'' then
            (if take 1 (skipWs cs) = ''}'' then Some (JObj [], drop 1 (skipWs cs)) else parseMembers n cs [])
          else if c = CHR ''['' then
            (if take 1 (skipWs cs) = '']'' then Some (JArr [], drop 1 (skipWs cs)) else parseElems n cs [])
          else parseLit (c # cs))"
| "parseElems 0 s acc = None"
| "parseElems (Suc n) s acc =
     (case parseVal n s of
        None \<Rightarrow> None
      | Some (v, r) \<Rightarrow>
          (case skipWs r of
             c # r1 \<Rightarrow> if c = CHR '','' then parseElems n r1 (acc @ [v])
                       else if c = CHR '']'' then Some (JArr (acc @ [v]), r1) else None
           | [] \<Rightarrow> None))"
| "parseMembers 0 s acc = None"
| "parseMembers (Suc n) s acc =
     (case skipWs s of
        [] \<Rightarrow> None
      | q # cs \<Rightarrow>
          if q \<noteq> CHR 0x22 then None
          else (case parseStr cs of
                  None \<Rightarrow> None
                | Some (k, r) \<Rightarrow>
                    if take 1 (skipWs r) \<noteq> '':'' then None
                    else (case parseVal n (drop 1 (skipWs r)) of
                            None \<Rightarrow> None
                          | Some (v, r1) \<Rightarrow>
                              (case skipWs r1 of
                                 c # r2 \<Rightarrow> if c = CHR '','' then parseMembers n r2 (acc @ [(k, v)])
                                           else if c = CHR ''}'' then Some (JObj (acc @ [(k, v)]), r2) else None
                               | [] \<Rightarrow> None))))"

definition jsonParse :: "string \<Rightarrow> json option" where
  "jsonParse s =
     (case parseVal (Suc (length s)) s of
        Some (v, r) \<Rightarrow> if skipWs r = [] then Some v else None
      | None \<Rightarrow> None)"

text \<open>Storing the members of an object into a \<^verbatim>\<open>map[string]string\<close>, in text order.\<close>

definition storeMembers :: "(string \<times> json) list \<Rightarrow> smap" where
  "storeMembers kvs = fold (\<lambda>(k, v) m. aput m k (case v of JStr x \<Rightarrow> x | _ \<Rightarrow> [])) kvs []"

definition jsonUnmarshalMap :: "string \<Rightarrow> smap" where
  "jsonUnmarshalMap s = (case jsonParse s of Some (JObj kvs) \<Rightarrow> storeMembers kvs | _ \<Rightarrow> [])"

subsection \<open>The round trip\<close>

lemma byte_less: "byte c < 256"
  by (simp add: byte_def)

lemma char_of_byte [simp]: "char_of (byte c) = c"
  by (simp add: byte_def)

lemma hexVal_hexDigit: "n < 16 \<Longrightarrow> hexVal (hexDigit n) = Some n"
  by (auto simp: hexVal_def hexDigit_def byte_def Let_def)

lemma unicodeEsc_byte:
  assumes "b < 128"
  shows "unicodeEsc (CHR ''0'' # CHR ''0'' # hexDigit (b div 16) # hexDigit (b mod 16) # r) = Some ([char_of b], r)"
proof -
  have "hexVal (CHR ''0'') = Some 0" by (simp add: hexVal_def byte_def)
  moreover have "b div 16 < 16" using assms by simp
  ultimately have "hex4 (CHR ''0'' # CHR ''0'' # hexDigit (b div 16) # hexDigit (b mod 16) # r) = Some (b, r)"
    by (simp add: hexVal_hexDigit)
  then show ?thesis using assms by (simp add: unicodeEsc_def encodeRune_def)
qed

lemma byte_inj: "byte c = byte d \<longleftrightarrow> c = d"
  by (simp add: byte_def)

lemma byte_special:
  "byte (CHR 0x22) = 34" "byte (CHR 0x5C) = 92" "byte (CHR 0x08) = 8" "byte (CHR 0x0C) = 12"
  "byte (CHR 0x0A) = 10" "byte (CHR 0x0D) = 13" "byte (CHR 0x09) = 9"
  by (simp_all add: byte_def)

lemma parseStr_esc: "byte c < 128 \<Longrightarrow> parseStr (escChar c @ s) = map_option (\<lambda>(t, r). (c # t, r)) (parseStr s)"
proof -
  assume ascii: "byte c < 128"
  consider "byte c \<in> {34, 92, 8, 12, 10, 13, 9}" | "byte c \<notin> {34, 92, 8, 12, 10, 13, 9}" "byte c < 32 \<or> byte c \<in> {60, 62, 38}"
    | "byte c \<notin> {34, 92, 60, 62, 38}" "32 \<le> byte c" by force
  then show ?thesis
  proof cases
    case 1
    then have "c \<in> {CHR 0x22, CHR 0x5C, CHR 0x08, CHR 0x0C, CHR 0x0A, CHR 0x0D, CHR 0x09}"
      by (simp add: byte_inj [symmetric] byte_special)
    then show ?thesis by (auto simp: escChar_def simpleEsc_def byte_def Let_def)
  next
    case 2
    have "byte c < 128" using 2 by auto
    from unicodeEsc_byte [OF this] 2 show ?thesis by (auto simp: escChar_def Let_def)
  next
    case 3
    then have "c \<noteq> CHR 0x22" "c \<noteq> CHR 0x5C" by (auto simp: byte_def)
    then show ?thesis using 3 ascii by (auto simp: escChar_def Let_def)
  qed
qed

lemma parseStr_rune:
  assumes "runeValid r = Some (length r)"
  shows "parseStr (escRune r @ s) = map_option (\<lambda>(t, q). (r @ t, q)) (parseStr s)"
proof (cases "length r = 1")
  case True
  then obtain c where r: "r = [c]" by (cases r) auto
  then have "byte c < 128" using assms runeValid_high [of c "[]"] by simp
  then show ?thesis using parseStr_esc [of c s] r by (simp add: escRune_def)
next
  case False
  obtain c t where r: "r = c # t" "t \<noteq> []" using assms False by (cases r) auto
  have c: "\<not> byte c < 128" using runeValid_high [of c t] assms r False by auto
  then have nc: "c \<noteq> CHR 0x22" "c \<noteq> CHR 0x5C" by (auto simp: byte_def)
  have esc: "escRune r = (if r = lineSep (char_of (168 :: nat)) then CHR 0x5C # ''u2028''
      else if r = lineSep (char_of (169 :: nat)) then CHR 0x5C # ''u2029'' else r)"
    using r by (cases t) (auto simp: escRune_def)
  have u: "unicodeEsc (''2028'' @ s) = Some (lineSep (char_of (168 :: nat)), s)" "unicodeEsc (''2029'' @ s) = Some (lineSep (char_of (169 :: nat)), s)"
    by (simp_all add: unicodeEsc_def hexVal_def byte_def encodeRune_def lineSep_def)
  have "runeValid (r @ s) = Some (length r)" by (rule runeValid_append [OF assms])
  then have "parseStr (r @ s) = map_option (\<lambda>(t, q). (r @ t, q)) (parseStr s)"
    using c nc r by simp
  then show ?thesis using u by (simp add: esc del: parseStr.simps) (auto simp: nc simp del: encodeRune_def)
qed

lemma parseStr_string: "utf8Valid s \<Longrightarrow> parseStr (concat (map escRune (runes s)) @ CHR 0x22 # r) = Some (s, r)"
proof (induction s rule: utf8_induct)
  case (rune u s)
  then show ?case by (simp add: parseStr_rune)
qed simp

declare parseStr.simps [simp del]

lemma skipWs_simps [simp]:
  "skipWs (CHR 0x22 # s) = CHR 0x22 # s" "skipWs (CHR '':'' # s) = CHR '':'' # s"
  "skipWs (CHR '','' # s) = CHR '','' # s" "skipWs (CHR ''}'' # s) = CHR ''}'' # s"
  "skipWs (CHR ''{'' # s) = CHR ''{'' # s" "skipWs [] = []"
  by (simp_all add: skipWs_def isWs_def byte_def)

lemma parseVal_string: "utf8Valid v \<Longrightarrow> parseVal (Suc n) (jsonString v @ r) = Some (JStr v, r)"
  by (simp add: jsonString_def parseStr_string)

lemma parseMembers_member:
  "utf8Valid k \<Longrightarrow> utf8Valid v \<Longrightarrow> parseMembers (Suc (Suc n)) (jsonMember (k, v) @ r) acc =
     (case skipWs r of
        c # r2 \<Rightarrow> if c = CHR '','' then parseMembers (Suc n) r2 (acc @ [(k, JStr v)])
                  else if c = CHR ''}'' then Some (JObj (acc @ [(k, JStr v)]), r2) else None
      | [] \<Rightarrow> None)"
proof -
  assume "utf8Valid k" "utf8Valid v"
  moreover have "jsonMember (k, v) @ r = CHR 0x22 # concat (map escRune (runes k)) @ CHR 0x22 # (CHR '':'' # jsonString v @ r)"
    by (simp add: jsonMember_def jsonString_def)
  ultimately show ?thesis
    by (simp add: parseStr_string parseVal_string [of _ n, simplified] del: parseVal.simps parseMembers.simps(2))
       (simp add: parseStr_string parseVal_string del: parseVal.simps)
qed

definition metaUtf8 :: "smap \<Rightarrow> bool" where
  "metaUtf8 m \<longleftrightarrow> list_all (\<lambda>(k, v). utf8Valid k \<and> utf8Valid v) m"

lemma parseMembers_all:
  "metaUtf8 kvs \<Longrightarrow> kvs \<noteq> [] \<Longrightarrow> Suc (length kvs) \<le> n \<Longrightarrow>
   parseMembers n (joinWith '','' (map jsonMember kvs) @ CHR ''}'' # r) acc =
     Some (JObj (acc @ map (\<lambda>(k, v). (k, JStr v)) kvs), r)"
proof (induction kvs arbitrary: n acc)
  case (Cons kv kvs)
  obtain k v where kv: "kv = (k, v)" by (cases kv)
  have u: "utf8Valid k" "utf8Valid v" "metaUtf8 kvs" using Cons.prems(1) kv by (auto simp: metaUtf8_def)
  obtain m where n: "n = Suc (Suc m)" using Cons.prems(3) by (metis Suc_le_D Suc_le_mono length_Cons)
  show ?case
  proof (cases kvs)
    case Nil
    then show ?thesis using n kv u by (simp add: parseMembers_member del: parseMembers.simps)
  next
    case (Cons kv' kvs')
    have "parseMembers (Suc m) (joinWith '','' (map jsonMember kvs) @ CHR ''}'' # r) (acc @ [(k, JStr v)]) =
        Some (JObj ((acc @ [(k, JStr v)]) @ map (\<lambda>(k, v). (k, JStr v)) kvs), r)"
      using Cons.IH [of "Suc m"] Cons.prems n u \<open>kvs = kv' # kvs'\<close> by simp
    then show ?thesis using Cons n kv u by (simp add: parseMembers_member del: parseMembers.simps)
  qed
qed simp

lemma length_joinWith: "\<forall>x\<in>set xs. 1 \<le> length x \<Longrightarrow> length xs \<le> length (joinWith sep xs)"
  by (induction sep xs rule: joinWith.induct) auto

lemma metaUtf8_keys: "metaUtf8 m \<Longrightarrow> metaUtf8 (map (\<lambda>k. (k, aget m k)) (sort (remdups (map fst m))))"
proof -
  assume a: "metaUtf8 m"
  have "utf8Valid k \<and> utf8Valid (aget m k)" if mem: "k \<in> fst ` set m" for k
  proof -
    obtain v where "map_of m k = Some v" using mem by (cases "map_of m k") (auto simp: map_of_eq_None_iff)
    then have "(k, v) \<in> set m" "aget m k = v" by (auto simp: aget_def mget_def dest: map_of_SomeD)
    then show ?thesis using a by (auto simp: metaUtf8_def list_all_iff)
  qed
  then show ?thesis by (auto simp: metaUtf8_def list_all_iff)
qed

lemma jsonParse_marshal:
  "metaUtf8 m \<Longrightarrow> jsonParse (jsonMarshalMap m) = Some (JObj (map (\<lambda>k. (k, JStr (aget m k))) (sort (remdups (map fst m)))))"
proof -
  assume utf: "metaUtf8 m"
  define ks where "ks = sort (remdups (map fst m))"
  define body where "body = joinWith '','' (map jsonMember (map (\<lambda>k. (k, aget m k)) ks))"
  have s: "jsonMarshalMap m = CHR ''{'' # body @ ''}''"
    by (simp add: jsonMarshalMap_def body_def ks_def comp_def)
  show ?thesis
  proof (cases ks)
    case Nil
    then show ?thesis unfolding ks_def [symmetric] s by (simp add: jsonParse_def body_def)
  next
    case (Cons k ks')
    have "length ks \<le> length body"
      unfolding body_def by (rule order_trans [OF _ length_joinWith]) (auto simp: jsonMember_def jsonString_def)
    then have p: "parseMembers (Suc (length (body @ ''}''))) (body @ ''}'') [] =
        Some (JObj (map (\<lambda>(k, v). (k, JStr v)) (map (\<lambda>k. (k, aget m k)) ks)), [])"
      using parseMembers_all [OF metaUtf8_keys [OF utf], folded ks_def, of "Suc (length (body @ ''}''))" "[]" "[]"] Cons
      by (simp add: body_def)
    obtain c where "body = CHR 0x22 # c" using Cons
      by (cases ks') (auto simp: body_def jsonMember_def jsonString_def)
    then have "take 1 (skipWs (body @ ''}'')) \<noteq> ''}''" by simp
    then show ?thesis using p unfolding ks_def [symmetric] s
      by (simp add: jsonParse_def comp_def del: parseMembers.simps)
  qed
qed

lemma map_of_storeFold:
  "map_of (fold (\<lambda>(k, v) m. aput m k (g v)) kvs m) x =
     (case map_of (rev kvs) x of Some v \<Rightarrow> Some (g v) | None \<Rightarrow> map_of m x)"
  by (induction kvs arbitrary: m) (auto simp: map_add_Some_iff map_add_def split: option.splits)

lemma map_of_keys: "map_of (map (\<lambda>k. (k, f k)) ks) x = (if x \<in> set ks then Some (f x) else None)"
  by (induction ks) auto

text \<open>Reading back a marshalled map gives the same bindings.\<close>

lemma unmarshal_marshal: "metaUtf8 m \<Longrightarrow> map_of (jsonUnmarshalMap (jsonMarshalMap m)) = map_of m"
proof (rule ext)
  fix x
  assume utf: "metaUtf8 m"
  have r: "map_of (rev (map (\<lambda>k. (k, JStr (aget m k))) ks)) x = (if x \<in> set ks then Some (JStr (aget m x)) else None)" for ks
    by (simp add: rev_map map_of_keys)
  show "map_of (jsonUnmarshalMap (jsonMarshalMap m)) x = map_of m x"
  proof (cases "map_of m x")
    case None
    then have "x \<notin> fst ` set m" by (simp add: map_of_eq_None_iff)
    then show ?thesis using None
      by (simp add: jsonUnmarshalMap_def jsonParse_marshal [OF utf] storeMembers_def map_of_storeFold r)
  next
    case (Some v)
    then have "x \<in> fst ` set m" by (metis map_of_SomeD image_eqI fst_conv)
    moreover have "aget m x = v" using Some by (simp add: aget_def mget_def)
    ultimately show ?thesis using Some
      by (simp add: jsonUnmarshalMap_def jsonParse_marshal [OF utf] storeMembers_def map_of_storeFold r)
  qed
qed

lemma jsonMarshalMap_not_Nil [simp]: "jsonMarshalMap m \<noteq> []"
  by (simp add: jsonMarshalMap_def)

lemma distinct_storeMembers: "distinct (map fst (storeMembers kvs))"
proof -
  have "distinct (map fst m) \<Longrightarrow> distinct (map fst (fold (\<lambda>(k, v) m. aput m k (g v)) kvs m))" for m and g :: "json \<Rightarrow> string"
    by (induction kvs arbitrary: m) auto
  then show ?thesis by (simp add: storeMembers_def)
qed

lemma distinct_unmarshal: "distinct (map fst (jsonUnmarshalMap s))"
  by (auto simp: jsonUnmarshalMap_def distinct_storeMembers split: option.split json.split)

end
