(* ===== verification/Metadata.thy ===== *)
theory Metadata
  imports Json Schema
begin

text \<open>
  The metadata columns: \<^verbatim>\<open>decodeMeta\<close> and \<^verbatim>\<open>encodeMeta\<close> of appstore.go and the \<^verbatim>\<open>Metadata()\<close> methods of
  the naming rows.
\<close>

definition decodeMeta :: "string \<Rightarrow> smap" where
  "decodeMeta raw = (if raw \<noteq> '''' then jsonUnmarshalMap raw else [])"

definition encodeMeta :: "smap \<Rightarrow> string" where
  "encodeMeta m = (if m = [] then '''' else jsonMarshalMap m)"

definition instMetadata :: "Instance \<Rightarrow> smap" where
  "instMetadata i = (if i_MetadataJSON i \<noteq> '''' then jsonUnmarshalMap (i_MetadataJSON i) else [])"

definition serviceMetadata :: "ServiceRow \<Rightarrow> smap" where
  "serviceMetadata s = (if s_MetadataJSON s \<noteq> '''' then jsonUnmarshalMap (s_MetadataJSON s) else [])"

lemma map_of_decode_encode: "metaUtf8 m \<Longrightarrow> map_of (decodeMeta (encodeMeta m)) = map_of m"
  by (cases "m = []") (simp_all add: decodeMeta_def encodeMeta_def unmarshal_marshal)

text \<open>Metadata survives its JSON column: for keys and values that are valid UTF-8, decoding an
  encoded map gives back exactly its bindings, whatever quotes, control characters, HTML characters or
  other runes they contain.\<close>

theorem decode_encode_meta:
  assumes "metaUtf8 m"
  shows "map_of (decodeMeta (encodeMeta m)) = map_of m"
  using assms by (rule map_of_decode_encode)

theorem decode_encode_meta_witness:
  "map_of (decodeMeta (encodeMeta [(''a'', CHR 0x22 # ''<'')])) ''a'' = Some (CHR 0x22 # ''<'')"
proof -
  have "metaUtf8 [(''a'', CHR 0x22 # ''<'')]" by code_simp
  from decode_encode_meta [OF this] show ?thesis by simp
qed

lemma aget_decode_encode: "metaUtf8 m \<Longrightarrow> aget (decodeMeta (encodeMeta m)) k = aget m k"
  by (simp add: aget_def map_of_decode_encode)

end
