(* ===== verification/Naming.thy ===== *)
theory Naming
  imports Metadata
begin

text \<open>
  The naming registry (\<^verbatim>\<open>internal/storage/namingstore.go\<close>): services, instances, heartbeats and the two
  sweeps.  \<^verbatim>\<open>NowMS()\<close> is the argument \<open>now\<close>; the configured heartbeat timeout is \<open>hb\<close>, None for a nil
  configuration.  Each operation is the sequence of its statements, so outages and other sessions
  can come between any two of them.
\<close>

type_synonym inst_key = "string \<times> string \<times> string \<times> string \<times> string \<times> 32 word"

definition instKey :: "Instance \<Rightarrow> inst_key" where
  "instKey i = (i_NamespaceId i, i_GroupName i, i_ServiceName i, i_ClusterName i, i_IP i, i_Port i)"

definition serviceIdent :: "ServiceRow \<Rightarrow> string \<times> string \<times> string" where
  "serviceIdent s = (s_NamespaceId s, s_GroupName s, s_Name s)"

definition instService :: "Instance \<Rightarrow> string \<times> string \<times> string" where
  "instService i = (i_NamespaceId i, i_GroupName i, i_ServiceName i)"

definition effectiveInstanceHealth :: "int option \<Rightarrow> Instance \<Rightarrow> int \<Rightarrow> bool" where
  "effectiveInstanceHealth hb i nowMS =
     (if \<not> i_Healthy i \<or> \<not> i_Ephemeral i then i_Healthy i
      else case hb of
             None \<Rightarrow> False
           | Some t \<Rightarrow>
               if t \<le> 0 \<or> i_LastHeartbeatMS i \<le> 0 \<or> i_LastHeartbeatMS i > nowMS then False
               else nowMS - i_LastHeartbeatMS i \<le> t)"

subsection \<open>Services\<close>

definition newServiceRow :: "int \<Rightarrow> int \<Rightarrow> string \<Rightarrow> string \<Rightarrow> string \<Rightarrow> ServiceRow" where
  "newServiceRow i now ns grp name =
     \<lparr> s_ID = i, s_NamespaceId = ns, s_GroupName = grp, s_Name = name, s_ProtectThreshold = 0,
       s_MetadataJSON = [], s_AppName = [], s_IPCount = 0, s_ClusterCount = 0,
       s_GmtCreate = now, s_GmtModified = now \<rparr>"

definition ensureServiceTab :: "int \<Rightarrow> string \<Rightarrow> string \<Rightarrow> string \<Rightarrow> tables \<Rightarrow> tables" where
  "ensureServiceTab now ns grp name t =
     t\<lparr>naming_service := insertIgnore serviceIdent (newServiceRow (next_id t) now ns grp name) (naming_service t),
       next_id := next_id t + 1\<rparr>"

definition EnsureService :: "int \<Rightarrow> string \<Rightarrow> string \<Rightarrow> string \<Rightarrow> unit dbop" where
  "EnsureService now ns grp name = exec (\<lambda>t. (Inr (), ensureServiceTab now ns grp name t))"

definition withCounts :: "tables \<Rightarrow> ServiceRow \<Rightarrow> ServiceRow" where
  "withCounts t s =
     (let is = filter (\<lambda>i. instService i = serviceIdent s) (naming_instance t)
      in s\<lparr>s_IPCount := int (length is), s_ClusterCount := int (length (remdups (map i_ClusterName is)))\<rparr>)"

definition GetService :: "string \<Rightarrow> string \<Rightarrow> string \<Rightarrow> ServiceRow option dbop" where
  "GetService ns grp name =
     tryS (queryRow (\<lambda>t. map (withCounts t) (filter (\<lambda>s. serviceIdent s = (ns, grp, name)) (naming_service t))))
       (\<lambda>e. if e = ErrNoRows then retS None else failS e)
       (\<lambda>s. retS (Some s))"

definition UpdateService :: "int \<Rightarrow> string \<Rightarrow> string \<Rightarrow> string \<Rightarrow> rat option \<Rightarrow> string option \<Rightarrow> string option \<Rightarrow> unit dbop" where
  "UpdateService now ns grp name protect metadata appName =
     exec (\<lambda>t. (Inr (), t\<lparr>naming_service :=
       updateWhere (\<lambda>s. serviceIdent s = (ns, grp, name))
         (\<lambda>s. s\<lparr>s_GmtModified := now,
                s_ProtectThreshold := (case protect of None \<Rightarrow> s_ProtectThreshold s | Some p \<Rightarrow> p),
                s_MetadataJSON := (case metadata of None \<Rightarrow> s_MetadataJSON s | Some m \<Rightarrow> m),
                s_AppName := (case appName of None \<Rightarrow> s_AppName s | Some a \<Rightarrow> a)\<rparr>)
         (naming_service t)\<rparr>))"

definition deletableService :: "tables \<Rightarrow> string \<times> string \<times> string \<Rightarrow> ServiceRow \<Rightarrow> bool" where
  "deletableService t k s \<longleftrightarrow>
     serviceIdent s = k \<and> \<not> (\<exists>i \<in> set (naming_instance t). instService i = serviceIdent s)"

definition deleteServiceTab :: "string \<times> string \<times> string \<Rightarrow> tables \<Rightarrow> tables" where
  "deleteServiceTab k t = t\<lparr>naming_service := deleteWhere (deletableService t k) (naming_service t)\<rparr>"

definition DeleteService :: "string \<Rightarrow> string \<Rightarrow> string \<Rightarrow> bool dbop" where
  "DeleteService ns grp name =
     bindS (exec (\<lambda>t. (Inr (countWhere (deletableService t (ns, grp, name)) (naming_service t)),
                       deleteServiceTab (ns, grp, name) t)))
       (\<lambda>n. retS (n > 0))"

record ServiceListQuery =
  sq_NamespaceId :: string
  sq_GroupName :: string
  sq_NameBlur :: string
  sq_PageNo :: int
  sq_PageSize :: int

definition serviceMatches :: "ServiceListQuery \<Rightarrow> ServiceRow \<Rightarrow> bool" where
  "serviceMatches q s \<longleftrightarrow>
     s_NamespaceId s = sq_NamespaceId q \<and>
     (sq_GroupName q \<noteq> '''' \<longrightarrow> s_GroupName s = sq_GroupName q) \<and>
     (sq_NameBlur q \<noteq> '''' \<longrightarrow> blurMatch (sq_NameBlur q) (s_Name s))"

definition ListServices :: "ServiceListQuery \<Rightarrow> (ServiceRow list \<times> int) dbop" where
  "ListServices q =
     bindS (query (\<lambda>t. countWhere (serviceMatches q) (naming_service t)))
       (\<lambda>tot. let (pageNo, pageSize) = clampPage 10 (sq_PageNo q) (sq_PageSize q)
              in bindS (exec (\<lambda>t. (limitOffset pageNo pageSize
                          (map (withCounts t)
                            (sliceStable (\<lambda>a b. s_ID b < s_ID a) (filter (serviceMatches q) (naming_service t)))), t)))
                   (\<lambda>out. retS (out, tot)))"

subsection \<open>Instances\<close>

record InstanceUpsert =
  iu_NamespaceId :: string
  iu_GroupName :: string
  iu_ServiceName :: string
  iu_ClusterName :: string
  iu_IP :: string
  iu_Port :: "32 word"
  iu_Weight :: rat
  iu_Enabled :: bool
  iu_Ephemeral :: bool
  iu_Metadata :: "smap option"

definition iuKey :: "InstanceUpsert \<Rightarrow> inst_key" where
  "iuKey u = (iu_NamespaceId u, iu_GroupName u, iu_ServiceName u, iu_ClusterName u, iu_IP u, iu_Port u)"

definition newInstance :: "int \<Rightarrow> int \<Rightarrow> string \<Rightarrow> InstanceUpsert \<Rightarrow> Instance" where
  "newInstance i now meta u =
     \<lparr> i_ID = i, i_NamespaceId = iu_NamespaceId u, i_GroupName = iu_GroupName u,
       i_ServiceName = iu_ServiceName u, i_ClusterName = iu_ClusterName u, i_IP = iu_IP u,
       i_Port = iu_Port u, i_Weight = iu_Weight u, i_Healthy = True, i_Enabled = iu_Enabled u,
       i_Ephemeral = iu_Ephemeral u, i_MetadataJSON = meta, i_LastHeartbeatMS = now,
       i_GmtCreate = now, i_GmtModified = now \<rparr>"

definition refreshInstance :: "int \<Rightarrow> string \<Rightarrow> InstanceUpsert \<Rightarrow> Instance \<Rightarrow> Instance" where
  "refreshInstance now meta u i =
     i\<lparr>i_Weight := iu_Weight u, i_Enabled := iu_Enabled u, i_Ephemeral := iu_Ephemeral u,
       i_MetadataJSON := meta, i_LastHeartbeatMS := now, i_Healthy := True, i_GmtModified := now\<rparr>"

definition selectInstanceId :: "inst_key \<Rightarrow> int dbop" where
  "selectInstanceId k = queryRow (\<lambda>t. map i_ID (filter (\<lambda>i. instKey i = k) (naming_instance t)))"

definition insertInstanceTab :: "int \<Rightarrow> string \<Rightarrow> InstanceUpsert \<Rightarrow> tables \<Rightarrow> (goerr + unit) \<times> tables" where
  "insertInstanceTab now meta u t =
     (let (r, is) = insertUnique instKey (newInstance (next_id t) now meta u) (naming_instance t)
      in (r, t\<lparr>naming_instance := is, next_id := next_id t + 1\<rparr>))"

definition updateInstanceTab :: "int \<Rightarrow> string \<Rightarrow> InstanceUpsert \<Rightarrow> int \<Rightarrow> tables \<Rightarrow> tables" where
  "updateInstanceTab now meta u i t =
     t\<lparr>naming_instance := updateWhere (\<lambda>r. i_ID r = i) (refreshInstance now meta u) (naming_instance t)\<rparr>"

text \<open>The defaults RegisterInstance applies before its first statement.\<close>

definition normUpsert :: "InstanceUpsert \<Rightarrow> InstanceUpsert" where
  "normUpsert u =
     u\<lparr>iu_ClusterName := (if iu_ClusterName u = '''' then ''DEFAULT'' else iu_ClusterName u),
       iu_Weight := (if iu_Weight u \<le> 0 then 1 else iu_Weight u)\<rparr>"

definition upsertMeta :: "InstanceUpsert \<Rightarrow> string" where
  "upsertMeta u = (case iu_Metadata u of None \<Rightarrow> ''{}'' | Some m \<Rightarrow> jsonMarshalMap m)"

definition RegisterInstance :: "int \<Rightarrow> InstanceUpsert \<Rightarrow> bool dbop" where
  "RegisterInstance now u0 =
     (let meta = upsertMeta u0;
          u = normUpsert u0;
          update = (\<lambda>i. bindS (exec (\<lambda>t. (Inr (), updateInstanceTab now meta u i t))) (\<lambda>_. retS False))
      in tryS (selectInstanceId (iuKey u))
           (\<lambda>e. if e \<noteq> ErrNoRows then failS e
                else bindS (EnsureService now (iu_NamespaceId u) (iu_GroupName u) (iu_ServiceName u))
                  (\<lambda>_. tryS (exec (insertInstanceTab now meta u))
                         (\<lambda>_. bindS (selectInstanceId (iuKey u)) update)
                         (\<lambda>_. retS True)))
           update)"

definition beatTab :: "int \<Rightarrow> inst_key \<Rightarrow> tables \<Rightarrow> tables" where
  "beatTab now k t =
     t\<lparr>naming_instance := updateWhere (\<lambda>i. instKey i = k)
        (\<lambda>i. i\<lparr>i_LastHeartbeatMS := now, i_Healthy := True, i_GmtModified := now\<rparr>) (naming_instance t)\<rparr>"

definition BeatInstance :: "int \<Rightarrow> InstanceUpsert \<Rightarrow> bool dbop" where
  "BeatInstance now u =
     bindS (exec (\<lambda>t. (Inr (countWhere (\<lambda>i. instKey i = iuKey u) (naming_instance t)), beatTab now (iuKey u) t)))
       (\<lambda>n. if n > 0 then retS False else RegisterInstance now u)"

definition DeleteInstance :: "string \<Rightarrow> string \<Rightarrow> string \<Rightarrow> string \<Rightarrow> string \<Rightarrow> 32 word \<Rightarrow> bool dbop" where
  "DeleteInstance ns grp service cluster ip port =
     (let k = (ns, grp, service, if cluster = '''' then ''DEFAULT'' else cluster, ip, port)
      in bindS (exec (\<lambda>t. (Inr (countWhere (\<lambda>i. instKey i = k) (naming_instance t)),
                     t\<lparr>naming_instance := deleteWhere (\<lambda>i. instKey i = k) (naming_instance t)\<rparr>)))
           (\<lambda>n. retS (n > 0)))"

definition GetInstance :: "int option \<Rightarrow> int \<Rightarrow> string \<Rightarrow> string \<Rightarrow> string \<Rightarrow> string \<Rightarrow> string \<Rightarrow> 32 word \<Rightarrow> Instance option dbop" where
  "GetInstance hb now ns grp service cluster ip port =
     (let k = (ns, grp, service, if cluster = '''' then ''DEFAULT'' else cluster, ip, port)
      in tryS (queryRow (\<lambda>t. filter (\<lambda>i. instKey i = k) (naming_instance t)))
           (\<lambda>e. if e = ErrNoRows then retS None else failS e)
           (\<lambda>i. retS (Some (i\<lparr>i_Healthy := effectiveInstanceHealth hb i now\<rparr>))))"

record InstanceListQuery =
  iq_NamespaceId :: string
  iq_GroupName :: string
  iq_ServiceName :: string
  iq_Clusters :: string
  iq_HealthyOnly :: bool

definition clusterNames :: "string \<Rightarrow> string list" where
  "clusterNames s = (if s = '''' then [] else filter (\<lambda>c. c \<noteq> '''') (map trimSpace (splitOn (CHR '','') s)))"

definition instanceSelected :: "InstanceListQuery \<Rightarrow> Instance \<Rightarrow> bool" where
  "instanceSelected q i \<longleftrightarrow>
     instService i = (iq_NamespaceId q, iq_GroupName q, iq_ServiceName q) \<and>
     (clusterNames (iq_Clusters q) \<noteq> [] \<longrightarrow> i_ClusterName i \<in> set (clusterNames (iq_Clusters q))) \<and>
     (iq_HealthyOnly q \<longrightarrow> i_Healthy i)"

definition instanceOrder :: "Instance \<Rightarrow> Instance \<Rightarrow> bool" where
  "instanceOrder = lexless i_ClusterName (lexless i_IP (\<lambda>a b. i_Port a < i_Port b))"

text \<open>The rows of the statement, then health at the read boundary and the second health filter.\<close>

definition liveInstances :: "int option \<Rightarrow> int \<Rightarrow> InstanceListQuery \<Rightarrow> tables \<Rightarrow> Instance list" where
  "liveInstances hb nowMS q t =
     filter (\<lambda>i. iq_HealthyOnly q \<longrightarrow> i_Healthy i)
       (map (\<lambda>i. i\<lparr>i_Healthy := effectiveInstanceHealth hb i nowMS\<rparr>)
         (sliceStable instanceOrder (filter (instanceSelected q) (naming_instance t))))"

definition ListInstances :: "int option \<Rightarrow> int \<Rightarrow> InstanceListQuery \<Rightarrow> Instance list dbop" where
  "ListInstances hb now q = query (liveInstances hb now q)"

subsection \<open>Sweeps and totals\<close>

definition staleEphemeral :: "int \<Rightarrow> Instance \<Rightarrow> bool" where
  "staleEphemeral cutoff i \<longleftrightarrow> i_Ephemeral i \<and> i_Healthy i \<and> i_LastHeartbeatMS i < cutoff"

definition expiredEphemeral :: "int \<Rightarrow> Instance \<Rightarrow> bool" where
  "expiredEphemeral cutoff i \<longleftrightarrow> i_Ephemeral i \<and> i_LastHeartbeatMS i < cutoff"

definition SweepEphemeral :: "int \<Rightarrow> int \<Rightarrow> int \<Rightarrow> (int \<times> int) dbop" where
  "SweepEphemeral now timeoutMS deleteAfterMS =
     tryS (exec (\<lambda>t. (Inr (countWhere (staleEphemeral (now - timeoutMS)) (naming_instance t)),
              t\<lparr>naming_instance := updateWhere (staleEphemeral (now - timeoutMS))
                  (\<lambda>i. i\<lparr>i_Healthy := False\<rparr>) (naming_instance t)\<rparr>)))
       (\<lambda>e. failS (ErrMsg ''sweep unhealthy''))
       (\<lambda>marked. tryS (exec (\<lambda>t. (Inr (countWhere (expiredEphemeral (now - deleteAfterMS)) (naming_instance t)),
              t\<lparr>naming_instance := deleteWhere (expiredEphemeral (now - deleteAfterMS)) (naming_instance t)\<rparr>)))
          (\<lambda>e. failS (ErrMsg ''sweep delete''))
          (\<lambda>n. retS (marked, n)))"

definition MarkStalePersistentUnhealthy :: "int \<Rightarrow> int \<Rightarrow> int dbop" where
  "MarkStalePersistentUnhealthy now timeoutMS =
     (if timeoutMS \<le> 0 then retS 0
      else let stale = (\<lambda>i. \<not> i_Ephemeral i \<and> i_Healthy i \<and> i_LastHeartbeatMS i < now - timeoutMS)
           in tryS (exec (\<lambda>t. (Inr (countWhere stale (naming_instance t)),
                   t\<lparr>naming_instance := updateWhere stale (\<lambda>i. i\<lparr>i_Healthy := False\<rparr>) (naming_instance t)\<rparr>)))
                (\<lambda>e. failS (ErrMsg ''mark persistent unhealthy'')) retS)"

text \<open>One tick of \<^verbatim>\<open>StartNamingSweeper\<close>: a failed ephemeral sweep skips the persistent one.\<close>

definition sweepTick :: "int \<Rightarrow> int \<Rightarrow> int \<Rightarrow> int \<Rightarrow> unit dbop" where
  "sweepTick now heartbeatTimeoutMs deleteAfterMs persistentTimeoutMs =
     tryS (SweepEphemeral now heartbeatTimeoutMs deleteAfterMs)
       (\<lambda>_. retS ())
       (\<lambda>_. tryS (MarkStalePersistentUnhealthy now persistentTimeoutMs) (\<lambda>_. retS ()) (\<lambda>_. retS ()))"

definition CountNaming :: "(int \<times> int) dbop" where
  "CountNaming =
     bindS (query (\<lambda>t. int (length (naming_service t))))
       (\<lambda>s. bindS (query (\<lambda>t. int (length (naming_instance t)))) (\<lambda>i. retS (s, i)))"

subsection \<open>Unique keys survive everything\<close>

definition namingOK :: "tables \<Rightarrow> bool" where
  "namingOK t \<longleftrightarrow>
     uniqueBy instKey (naming_instance t) \<and> uniqueBy serviceIdent (naming_service t) \<and>
     uniqueBy i_ID (naming_instance t) \<and> (\<forall>i\<in>set (naming_instance t). i_ID i < next_id t)"

lemma instKey_simps [simp]:
  "instKey (i\<lparr>i_Healthy := b\<rparr>) = instKey i"
  "instKey (refreshInstance now meta u i) = instKey i"
  "instKey (i\<lparr>i_LastHeartbeatMS := n, i_Healthy := b, i_GmtModified := g\<rparr>) = instKey i"
  "instKey (newInstance n now meta u) = iuKey u"
  by (simp_all add: instKey_def refreshInstance_def newInstance_def iuKey_def)

lemma instService_simps [simp]:
  "instService (i\<lparr>i_Healthy := b\<rparr>) = instService i"
  "instService (refreshInstance now meta u i) = instService i"
  "instService (i\<lparr>i_LastHeartbeatMS := n, i_Healthy := b, i_GmtModified := g\<rparr>) = instService i"
  "instService (newInstance n now meta u) = (iu_NamespaceId u, iu_GroupName u, iu_ServiceName u)"
  by (simp_all add: instService_def refreshInstance_def newInstance_def)

lemma instID_simps [simp]:
  "i_ID (refreshInstance now meta u i) = i_ID i" "i_ID (newInstance n now meta u) = n"
  by (simp_all add: refreshInstance_def newInstance_def)

lemma namingOK_mapInst:
  assumes "namingOK t" "\<And>i. instKey (f i) = instKey i" "\<And>i. i_ID (f i) = i_ID i"
  shows "namingOK (t\<lparr>naming_instance := updateWhere p f (naming_instance t)\<rparr>)"
  using assms by (auto simp: namingOK_def uniqueBy_updateWhere set_updateWhere)

lemma namingOK_delInst: "namingOK t \<Longrightarrow> namingOK (t\<lparr>naming_instance := deleteWhere p (naming_instance t)\<rparr>)"
  by (auto simp: namingOK_def uniqueBy_deleteWhere)

lemma namingOK_ensure: "namingOK t \<Longrightarrow> namingOK (ensureServiceTab now ns grp name t)"
  by (auto simp: namingOK_def ensureServiceTab_def uniqueBy_insertIgnore intro: less_trans)

lemma namingOK_insert: "namingOK t \<Longrightarrow> namingOK (snd (insertInstanceTab now meta u t))"
proof -
  assume ok: "namingOK t"
  have id: "next_id t \<notin> i_ID ` set (naming_instance t)" using ok by (auto simp: namingOK_def)
  show ?thesis using ok id
    by (auto simp: namingOK_def insertInstanceTab_def insertUnique_def uniqueBy_def Let_def intro: less_trans)
qed

lemma namingOK_update: "namingOK t \<Longrightarrow> namingOK (updateInstanceTab now meta u i t)"
  unfolding updateInstanceTab_def by (rule namingOK_mapInst) simp_all

lemma namingOK_beat: "namingOK t \<Longrightarrow> namingOK (beatTab now k t)"
  unfolding beatTab_def by (rule namingOK_mapInst) simp_all

lemma namingOK_svc: "namingOK t \<Longrightarrow> (\<And>s. serviceIdent (f s) = serviceIdent s) \<Longrightarrow>
    namingOK (t\<lparr>naming_service := updateWhere p f (naming_service t)\<rparr>)"
  by (auto simp: namingOK_def uniqueBy_updateWhere)

lemma namingOK_delsvc: "namingOK t \<Longrightarrow> namingOK (deleteServiceTab k t)"
  by (auto simp: namingOK_def deleteServiceTab_def uniqueBy_deleteWhere)

lemmas namingOK_tabs = namingOK_mapInst namingOK_delInst namingOK_ensure namingOK_insert namingOK_update
  namingOK_beat namingOK_svc namingOK_delsvc

lemma pres_EnsureService [pres_intros]: "preserves (dbinv namingOK) (EnsureService now ns grp name)"
  unfolding EnsureService_def by (intro pres_intros) (simp add: namingOK_ensure)

lemma pres_RegisterInstance [pres_intros]: "preserves (dbinv namingOK) (RegisterInstance now u)"
  unfolding RegisterInstance_def selectInstanceId_def Let_def
  by (intro pres_intros) (simp_all add: namingOK_insert namingOK_update)

lemma pres_BeatInstance [pres_intros]: "preserves (dbinv namingOK) (BeatInstance now u)"
  unfolding BeatInstance_def by (intro pres_intros) (simp add: namingOK_beat)

lemma pres_DeleteInstance [pres_intros]: "preserves (dbinv namingOK) (DeleteInstance ns grp s c ip port)"
  unfolding DeleteInstance_def Let_def by (intro pres_intros) (simp add: namingOK_delInst)

lemma pres_UpdateService [pres_intros]: "preserves (dbinv namingOK) (UpdateService now ns grp name p m a)"
  unfolding UpdateService_def by (intro pres_intros) (simp add: namingOK_svc serviceIdent_def)

lemma pres_DeleteService [pres_intros]: "preserves (dbinv namingOK) (DeleteService ns grp name)"
  unfolding DeleteService_def by (intro pres_intros) (simp add: namingOK_delsvc)

lemma pres_SweepEphemeral [pres_intros]: "preserves (dbinv namingOK) (SweepEphemeral now tmo del)"
  unfolding SweepEphemeral_def by (intro pres_intros) (simp_all add: namingOK_mapInst namingOK_delInst)

lemma pres_MarkStale [pres_intros]: "preserves (dbinv namingOK) (MarkStalePersistentUnhealthy now tmo)"
  unfolding MarkStalePersistentUnhealthy_def Let_def by (intro pres_intros) (simp add: namingOK_mapInst)

lemmas naming_pres = pres_EnsureService pres_RegisterInstance pres_BeatInstance pres_DeleteInstance
  pres_UpdateService pres_DeleteService pres_SweepEphemeral pres_MarkStale

text \<open>All writes of the registry as one type, so that a history is a list.\<close>

datatype namingOp =
    Register int InstanceUpsert
  | Beat int InstanceUpsert
  | Deregister string string string string string "32 word"
  | Ensure int string string string
  | SetService int string string string "rat option" "string option" "string option"
  | DropService string string string
  | Sweep int int int
  | SweepPersistent int int

fun runNaming :: "namingOp \<Rightarrow> db \<Rightarrow> db" where
  "runNaming (Register now u) d = snd (RegisterInstance now u d)"
| "runNaming (Beat now u) d = snd (BeatInstance now u d)"
| "runNaming (Deregister ns grp s c ip port) d = snd (DeleteInstance ns grp s c ip port d)"
| "runNaming (Ensure now ns grp name) d = snd (EnsureService now ns grp name d)"
| "runNaming (SetService now ns grp name p m a) d = snd (UpdateService now ns grp name p m a d)"
| "runNaming (DropService ns grp name) d = snd (DeleteService ns grp name d)"
| "runNaming (Sweep now tmo del) d = snd (SweepEphemeral now tmo del d)"
| "runNaming (SweepPersistent now tmo) d = snd (MarkStalePersistentUnhealthy now tmo d)"

lemma runNaming_inv: "dbinv namingOK d \<Longrightarrow> dbinv namingOK (runNaming a d)"
  by (cases a) (simp_all add: naming_pres [THEN preservesD])

lemma fold_runNaming_inv: "dbinv namingOK d \<Longrightarrow> dbinv namingOK (fold runNaming as d)"
  by (induction as arbitrary: d) (auto simp: runNaming_inv)



subsection \<open>The registry as a map\<close>

interpretation inst_refresh: keyed_rows instKey "\<lambda>(now, meta, u). refreshInstance now meta u"
  by unfold_locales (auto split: prod.split)

interpretation inst_beat: keyed_rows instKey
    "\<lambda>now i. i\<lparr>i_LastHeartbeatMS := now, i_Healthy := True, i_GmtModified := now\<rparr>"
  by unfold_locales simp

interpretation inst_health: keyed_rows instKey "\<lambda>b i. i\<lparr>i_Healthy := b\<rparr>"
  by unfold_locales simp

definition registered :: "tables \<Rightarrow> inst_key \<rightharpoonup> Instance" where
  "registered t = lookupBy instKey (naming_instance t)"

lemma selectInstanceId_quiet:
  assumes "script d = []" "namingOK (tabs d)"
  shows "selectInstanceId k d =
    ((case registered (tabs d) k of None \<Rightarrow> Inl ErrNoRows | Some i \<Rightarrow> Inr (i_ID i)), d)"
proof -
  have "uniqueBy instKey (naming_instance (tabs d))" using assms(2) by (simp add: namingOK_def)
  then show ?thesis using assms(1)
    by (simp add: selectInstanceId_def go_simps registered_def inst_beat.filter_key split: option.split)
qed

lemma registered_ensure [simp]: "registered (ensureServiceTab now ns grp name t) = registered t"
  by (simp add: registered_def ensureServiceTab_def)

lemma next_id_ensure [simp]: "next_id (ensureServiceTab now ns grp name t) = next_id t + 1"
  by (simp add: ensureServiceTab_def)

lemma registered_insert:
  "registered t (iuKey u) = None \<Longrightarrow>
   fst (insertInstanceTab now meta u t) = Inr () \<and>
   registered (snd (insertInstanceTab now meta u t)) =
     (registered t)(iuKey u \<mapsto> newInstance (next_id t) now meta u)"
  by (simp add: registered_def insertInstanceTab_def Let_def case_prod_beta inst_beat.fst_insertUnique
      inst_beat.lookup_insertUnique)

lemma registered_update:
  assumes "namingOK t" "registered t k = Some i"
  shows "registered (updateInstanceTab now meta u (i_ID i) t) = (registered t)(k \<mapsto> refreshInstance now meta u i)"
proof (rule ext)
  fix k'
  have look: "registered (updateInstanceTab now meta u (i_ID i) t) k' =
      map_option (\<lambda>r. if i_ID r = i_ID i then refreshInstance now meta u r else r) (registered t k')"
    using inst_refresh.lookup_update [of "\<lambda>r. i_ID r = i_ID i" "(now, meta, u)"]
    by (simp add: registered_def updateInstanceTab_def cong: if_cong)
  have i: "i \<in> set (naming_instance t)" "instKey i = k"
    using inst_beat.lookup_Some assms(2) unfolding registered_def by auto
  have "i_ID r \<noteq> i_ID i" if "registered t k' = Some r" "k' \<noteq> k" for r
  proof -
    have r: "r \<in> set (naming_instance t)" "instKey r = k'"
      using inst_beat.lookup_Some that(1) unfolding registered_def by auto
    then have "r \<noteq> i" using i that(2) by auto
    then show ?thesis using assms(1) r i uniqueByD [of i_ID] by (auto simp: namingOK_def)
  qed
  then show "registered (updateInstanceTab now meta u (i_ID i) t) k' = ((registered t)(k \<mapsto> refreshInstance now meta u i)) k'"
    using look assms(2) by (cases "registered t k'") auto
qed

text \<open>RegisterInstance without interference: it inserts exactly when the key is new, and the map
  changes at that key only.\<close>

definition regValue :: "int \<Rightarrow> InstanceUpsert \<Rightarrow> int \<Rightarrow> Instance option \<Rightarrow> Instance" where
  "regValue now u n v =
     (case v of None \<Rightarrow> newInstance n now (upsertMeta u) (normUpsert u)
      | Some i \<Rightarrow> refreshInstance now (upsertMeta u) (normUpsert u) i)"

lemma RegisterInstance_quiet:
  assumes "script d = []" "namingOK (tabs d)" and k_def: "k = iuKey (normUpsert u)"
  shows "\<exists>t'. RegisterInstance now u d = (Inr (registered (tabs d) k = None), d\<lparr>tabs := t'\<rparr>) \<and> namingOK t' \<and>
    registered t' = (registered (tabs d))(k \<mapsto> regValue now u (next_id (tabs d) + 1) (registered (tabs d) k))"
proof (cases "registered (tabs d) k")
  case None
  let ?e = "ensureServiceTab now (iu_NamespaceId (normUpsert u)) (iu_GroupName (normUpsert u)) (iu_ServiceName (normUpsert u)) (tabs d)"
  let ?t = "snd (insertInstanceTab now (upsertMeta u) (normUpsert u) ?e)"
  have e: "registered ?e k = None" "namingOK ?e" "next_id ?e = next_id (tabs d) + 1"
    using None assms(2) by (simp_all add: namingOK_ensure)
  note ri = registered_insert [OF e(1) [unfolded k_def], of now "upsertMeta u"]
  have "RegisterInstance now u d = (Inr True, d\<lparr>tabs := ?t\<rparr>)"
    using None assms(1) ri selectInstanceId_quiet [OF assms(1,2), of k]
    by (simp add: RegisterInstance_def Let_def go_simps EnsureService_def k_def)
  moreover have "namingOK ?t" using e(2) by (rule namingOK_insert)
  ultimately show ?thesis using ri None e(3) by (auto simp: k_def regValue_def)
next
  case (Some i)
  let ?t = "updateInstanceTab now (upsertMeta u) (normUpsert u) (i_ID i) (tabs d)"
  have "RegisterInstance now u d = (Inr False, d\<lparr>tabs := ?t\<rparr>)"
    using Some assms(1) selectInstanceId_quiet [OF assms(1,2), of k]
    by (simp add: RegisterInstance_def Let_def go_simps k_def)
  then show ?thesis
    using registered_update [OF assms(2) Some] namingOK_update [OF assms(2)] Some
    by (auto simp: regValue_def)
qed

lemma GetInstance_quiet:
  assumes "script d = []" "namingOK (tabs d)"
  shows "GetInstance hb now ns grp service cluster ip port d =
    (Inr (map_option (\<lambda>i. i\<lparr>i_Healthy := effectiveInstanceHealth hb i now\<rparr>)
      (registered (tabs d) (ns, grp, service, if cluster = '''' then ''DEFAULT'' else cluster, ip, port))), d)"
proof -
  have "uniqueBy instKey (naming_instance (tabs d))" using assms(2) by (simp add: namingOK_def)
  then show ?thesis using assms(1)
    by (simp add: GetInstance_def Let_def go_simps registered_def inst_beat.filter_key split: option.split)
qed

lemma normUpsert_simps [simp]:
  "iu_NamespaceId (normUpsert u) = iu_NamespaceId u" "iu_GroupName (normUpsert u) = iu_GroupName u"
  "iu_ServiceName (normUpsert u) = iu_ServiceName u" "iu_IP (normUpsert u) = iu_IP u"
  "iu_Port (normUpsert u) = iu_Port u" "iu_Enabled (normUpsert u) = iu_Enabled u"
  "iu_Ephemeral (normUpsert u) = iu_Ephemeral u" "iu_Metadata (normUpsert u) = iu_Metadata u"
  "iu_ClusterName (normUpsert u) = (if iu_ClusterName u = '''' then ''DEFAULT'' else iu_ClusterName u)"
  "iu_Weight (normUpsert u) = (if iu_Weight u \<le> 0 then 1 else iu_Weight u)"
  by (simp_all add: normUpsert_def)

lemma regValue_fields:
  "i_Weight (regValue now u n v) = (if iu_Weight u \<le> 0 then 1 else iu_Weight u)"
  "i_Enabled (regValue now u n v) = iu_Enabled u" "i_Ephemeral (regValue now u n v) = iu_Ephemeral u"
  "i_MetadataJSON (regValue now u n v) = upsertMeta u" "i_LastHeartbeatMS (regValue now u n v) = now"
  "i_Healthy (regValue now u n v)"
  by (auto simp: regValue_def newInstance_def refreshInstance_def split: option.split)

lemma unmarshal_empty: "jsonUnmarshalMap ''{}'' = []"
  using unmarshal_marshal [of "[]"] by (simp add: jsonMarshalMap_def metaUtf8_def)

text \<open>Register, then get.  With no other session and no outage, registering an instance and reading
  the same key back later yields the registered weight (1 for a non-positive one), flags and metadata
  (given as valid UTF-8); it reads as healthy exactly when it is persistent or its registration is no older than the heartbeat
  timeout.\<close>

theorem register_then_get:
  assumes "script d = []" "namingOK (tabs d)" "0 < now" "now \<le> later" "0 < T"
    and utf: "\<And>m. iu_Metadata u = Some m \<Longrightarrow> metaUtf8 m"
  shows "\<exists>i. fst (GetInstance (Some T) later (iu_NamespaceId u) (iu_GroupName u) (iu_ServiceName u)
            (iu_ClusterName u) (iu_IP u) (iu_Port u) (snd (RegisterInstance now u d))) = Inr (Some i) \<and>
    i_Weight i = (if iu_Weight u \<le> 0 then 1 else iu_Weight u) \<and> i_Enabled i = iu_Enabled u \<and>
    i_Ephemeral i = iu_Ephemeral u \<and>
    map_of (instMetadata i) = (case iu_Metadata u of None \<Rightarrow> Map.empty | Some m \<Rightarrow> map_of m) \<and>
    (i_Healthy i \<longleftrightarrow> \<not> iu_Ephemeral u \<or> later - now \<le> T)"
proof -
  let ?k = "iuKey (normUpsert u)"
  obtain t' where r: "RegisterInstance now u d = (Inr (registered (tabs d) ?k = None), d\<lparr>tabs := t'\<rparr>)"
    and ok: "namingOK t'"
    and m: "registered t' ?k = Some (regValue now u (next_id (tabs d) + 1) (registered (tabs d) ?k))"
    using RegisterInstance_quiet [OF assms(1,2) refl] by fastforce
  let ?i = "regValue now u (next_id (tabs d) + 1) (registered (tabs d) ?k)"
  have g: "fst (GetInstance (Some T) later (iu_NamespaceId u) (iu_GroupName u) (iu_ServiceName u)
            (iu_ClusterName u) (iu_IP u) (iu_Port u) (snd (RegisterInstance now u d))) =
      Inr (Some (?i\<lparr>i_Healthy := effectiveInstanceHealth (Some T) ?i later\<rparr>))"
    using r ok m assms(1) by (simp add: GetInstance_quiet iuKey_def)
  have "effectiveInstanceHealth (Some T) ?i later \<longleftrightarrow> \<not> iu_Ephemeral u \<or> later - now \<le> T"
    using assms(3-5) by (simp add: effectiveInstanceHealth_def regValue_fields)
  then show ?thesis unfolding g
    by (auto simp: regValue_fields instMetadata_def upsertMeta_def unmarshal_marshal utf unmarshal_empty split: option.split)
qed

definition sampleUpsert :: InstanceUpsert where
  "sampleUpsert = \<lparr>iu_NamespaceId = ''public'', iu_GroupName = ''DEFAULT_GROUP'', iu_ServiceName = ''svc'',
     iu_ClusterName = '''', iu_IP = ''10.0.0.1'', iu_Port = 8080, iu_Weight = 0, iu_Enabled = True,
     iu_Ephemeral = True, iu_Metadata = Some [(''role'', ''backup'')]\<rparr>"

lemma namingOK_empty: "namingOK empty_tables"
  by (simp add: namingOK_def empty_tables_def)

lemma sampleUpsert_utf8: "iu_Metadata sampleUpsert = Some m \<Longrightarrow> metaUtf8 m"
proof -
  have "metaUtf8 [(''role'', ''backup'')]" by code_simp
  then show "iu_Metadata sampleUpsert = Some m \<Longrightarrow> metaUtf8 m" by (auto simp: sampleUpsert_def)
qed

theorem register_then_get_witness:
  "\<exists>i. fst (GetInstance (Some 15000) 2000 ''public'' ''DEFAULT_GROUP'' ''svc'' '''' ''10.0.0.1'' 8080
        (snd (RegisterInstance 1000 sampleUpsert \<lparr>tabs = empty_tables, script = []\<rparr>))) = Inr (Some i) \<and> i_Healthy i"
  using register_then_get [where d = "\<lparr>tabs = empty_tables, script = []\<rparr>" and now = 1000 and later = 2000 and T = 15000
      and u = sampleUpsert, OF _ _ _ _ _ sampleUpsert_utf8] namingOK_empty
  by (auto simp: sampleUpsert_def)

text \<open>Instance writes as operations of a keyed store.  The id column is erased: it is drawn from a
  sequence all tables share and carries no meaning to a reader.\<close>

datatype instOp = IReg int InstanceUpsert | IBeat int InstanceUpsert | IDel string string string string string "32 word"

fun runInst :: "instOp \<Rightarrow> db \<Rightarrow> db" where
  "runInst (IReg now u) d = snd (RegisterInstance now u d)"
| "runInst (IBeat now u) d = snd (BeatInstance now u d)"
| "runInst (IDel ns grp s c ip port) d = snd (DeleteInstance ns grp s c ip port d)"

fun instTarget :: "instOp \<Rightarrow> inst_key" where
  "instTarget (IReg now u) = iuKey (normUpsert u)"
| "instTarget (IBeat now u) = iuKey (normUpsert u)"
| "instTarget (IDel ns grp s c ip port) = (ns, grp, s, if c = '''' then ''DEFAULT'' else c, ip, port)"

definition eraseID :: "Instance \<Rightarrow> Instance" where
  "eraseID i = i\<lparr>i_ID := 0\<rparr>"

fun instEffect :: "instOp \<Rightarrow> Instance option \<Rightarrow> Instance option" where
  "instEffect (IReg now u) v = Some (regValue now u 0 v)"
| "instEffect (IBeat now u) v =
     (case v of
        Some i \<Rightarrow> if iu_ClusterName u = '''' then Some (regValue now u 0 v)
                 else Some (i\<lparr>i_LastHeartbeatMS := now, i_Healthy := True, i_GmtModified := now\<rparr>)
      | None \<Rightarrow> Some (regValue now u 0 v))"
| "instEffect (IDel ns grp s c ip port) v = None"

definition clustered :: "('k \<rightharpoonup> Instance) \<Rightarrow> bool" where
  "clustered m \<longleftrightarrow> (\<forall>k i. m k = Some i \<longrightarrow> i_ClusterName i \<noteq> '''')"

definition instStoreOK :: "db \<Rightarrow> bool" where
  "instStoreOK d \<longleftrightarrow> quiet d \<and> namingOK (tabs d) \<and> clustered (registered (tabs d))"

lemma clusteredD: "clustered m \<Longrightarrow> m k = Some i \<Longrightarrow> i_ClusterName i \<noteq> ''''"
  by (simp add: clustered_def)

lemma clustered_upd: "clustered m \<Longrightarrow> i_ClusterName i \<noteq> '''' \<Longrightarrow> clustered (m(k \<mapsto> i))"
  by (simp add: clustered_def)

lemma clustered_step:
  "clustered m \<Longrightarrow> (\<And>k i. m' k = Some i \<Longrightarrow> \<exists>j. m k = Some j \<and> i_ClusterName j = i_ClusterName i) \<Longrightarrow> clustered m'"
  unfolding clustered_def by metis

definition instLook :: "db \<Rightarrow> inst_key \<Rightarrow> Instance option" where
  "instLook d k = map_option eraseID (registered (tabs d) k)"

lemma eraseID_regValue: "eraseID (regValue now u n v) = regValue now u 0 (map_option eraseID v)"
  by (cases v) (simp_all add: eraseID_def regValue_def newInstance_def refreshInstance_def)

lemma regValue_cluster: "(\<And>i. v = Some i \<Longrightarrow> i_ClusterName i \<noteq> '''') \<Longrightarrow> i_ClusterName (regValue now u n v) \<noteq> ''''"
  by (cases v) (auto simp: regValue_def newInstance_def refreshInstance_def)

lemma runReg:
  assumes "instStoreOK d"
  shows "instStoreOK (snd (RegisterInstance now u d)) \<and>
    instLook (snd (RegisterInstance now u d)) =
      (instLook d)(iuKey (normUpsert u) \<mapsto> regValue now u 0 (instLook d (iuKey (normUpsert u))))"
proof -
  let ?k = "iuKey (normUpsert u)"
  have q: "script d = []" "namingOK (tabs d)" using assms by (simp_all add: instStoreOK_def quiet_def)
  obtain t' where r: "RegisterInstance now u d = (Inr (registered (tabs d) ?k = None), d\<lparr>tabs := t'\<rparr>)"
    and t: "namingOK t'"
      "registered t' = (registered (tabs d))(?k \<mapsto> regValue now u (next_id (tabs d) + 1) (registered (tabs d) ?k))"
    using RegisterInstance_quiet [OF q refl] by blast
  have "i_ClusterName (regValue now u (next_id (tabs d) + 1) (registered (tabs d) ?k)) \<noteq> ''''"
    using assms by (intro regValue_cluster) (auto simp: instStoreOK_def dest: clusteredD)
  then have "instStoreOK (d\<lparr>tabs := t'\<rparr>)" using assms t by (simp add: instStoreOK_def quiet_def clustered_upd)
  moreover have "instLook (d\<lparr>tabs := t'\<rparr>) = (instLook d)(?k \<mapsto> regValue now u 0 (instLook d ?k))"
    by (rule ext) (simp add: instLook_def t(2) eraseID_regValue)
  ultimately show ?thesis using r by simp
qed

lemma registered_beat:
  "registered (beatTab now k t) k' =
     (if k' = k then map_option (\<lambda>i. i\<lparr>i_LastHeartbeatMS := now, i_Healthy := True, i_GmtModified := now\<rparr>) (registered t k)
      else registered t k')"
proof -
  have "registered (beatTab now k t) k' =
      map_option (\<lambda>i. if instKey i = k then i\<lparr>i_LastHeartbeatMS := now, i_Healthy := True, i_GmtModified := now\<rparr> else i) (registered t k')"
    unfolding registered_def beatTab_def using inst_beat.lookup_update [of "\<lambda>i. instKey i = k" now] by simp
  moreover have "instKey i = k'" if "registered t k' = Some i" for i
    using that inst_beat.lookup_Some unfolding registered_def by blast
  ultimately show ?thesis by (cases "registered t k'") auto
qed

lemma BeatInstance_quiet:
  assumes "script d = []" "namingOK (tabs d)"
  shows "BeatInstance now u d =
    (if registered (tabs d) (iuKey u) = None then RegisterInstance now u (d\<lparr>tabs := beatTab now (iuKey u) (tabs d)\<rparr>)
     else (Inr False, d\<lparr>tabs := beatTab now (iuKey u) (tabs d)\<rparr>))"
proof -
  have "uniqueBy instKey (naming_instance (tabs d))" using assms(2) by (simp add: namingOK_def)
  then show ?thesis using assms(1)
    by (simp add: BeatInstance_def go_simps inst_beat.count_key registered_def)
qed

lemma beat_absent: "registered t k = None \<Longrightarrow> beatTab now k t = t"
proof -
  assume "registered t k = None"
  then have "\<forall>i\<in>set (naming_instance t). instKey i \<noteq> k"
    using inst_beat.lookup_None unfolding registered_def by blast
  then have "updateWhere (\<lambda>i. instKey i = k) f (naming_instance t) = naming_instance t" for f
    by (auto simp: updateWhere_def intro: map_idI)
  then show ?thesis by (simp add: beatTab_def)
qed

lemma iuKey_norm: "iu_ClusterName u \<noteq> '''' \<Longrightarrow> iuKey (normUpsert u) = iuKey u"
  by (simp add: iuKey_def)

lemma runBeat:
  assumes "instStoreOK d"
  shows "instStoreOK (snd (BeatInstance now u d)) \<and>
    instLook (snd (BeatInstance now u d)) =
      (instLook d)(iuKey (normUpsert u) := instEffect (IBeat now u) (instLook d (iuKey (normUpsert u))))"
proof -
  have q: "script d = []" "namingOK (tabs d)" using assms by (simp_all add: instStoreOK_def quiet_def)
  show ?thesis
  proof (cases "registered (tabs d) (iuKey u)")
    case None
    have e: "instEffect (IBeat now u) (instLook d (iuKey (normUpsert u))) = Some (regValue now u 0 (instLook d (iuKey (normUpsert u))))"
      using None iuKey_norm by (auto simp: instLook_def split: option.split)
    have "BeatInstance now u d = RegisterInstance now u d"
      using None by (simp add: BeatInstance_quiet [OF q] beat_absent)
    then show ?thesis using runReg [OF assms] e by simp
  next
    case (Some i)
    then have ik: "instKey i = iuKey u" using inst_beat.lookup_Some unfolding registered_def by blast
    have "clustered (registered (tabs d))" using assms by (simp add: instStoreOK_def)
    then have "i_ClusterName i \<noteq> ''''" using Some by (rule clusteredD)
    then have c: "iu_ClusterName u \<noteq> ''''" using ik by (simp add: instKey_def iuKey_def)
    have b: "BeatInstance now u d = (Inr False, d\<lparr>tabs := beatTab now (iuKey u) (tabs d)\<rparr>)"
      using Some by (simp add: BeatInstance_quiet [OF q])
    have "clustered (registered (beatTab now (iuKey u) (tabs d)))"
    proof (rule clustered_step)
      show "clustered (registered (tabs d))" using assms by (simp add: instStoreOK_def)
      fix k j assume "registered (beatTab now (iuKey u) (tabs d)) k = Some j"
      then show "\<exists>j'. registered (tabs d) k = Some j' \<and> i_ClusterName j' = i_ClusterName j"
        unfolding registered_beat by (auto split: if_splits)
    qed
    then have "instStoreOK (d\<lparr>tabs := beatTab now (iuKey u) (tabs d)\<rparr>)"
      using assms by (simp add: instStoreOK_def quiet_def namingOK_beat)
    moreover have "instLook (d\<lparr>tabs := beatTab now (iuKey u) (tabs d)\<rparr>) k =
        ((instLook d)(iuKey u := instEffect (IBeat now u) (instLook d (iuKey u)))) k" for k
      using Some c by (simp add: instLook_def registered_beat eraseID_def)
    ultimately show ?thesis using b c by (simp add: iuKey_norm fun_eq_iff)
  qed
qed

lemma runDel:
  assumes "instStoreOK d"
  defines "k c ns grp s ip port \<equiv> (ns, grp, s, if c = '''' then ''DEFAULT'' else c, ip, port)"
  shows "instStoreOK (snd (DeleteInstance ns grp s c ip port d)) \<and>
    instLook (snd (DeleteInstance ns grp s c ip port d)) = (instLook d)(k c ns grp s ip port := None)"
proof -
  let ?k = "k c ns grp s ip port"
  let ?t = "(tabs d)\<lparr>naming_instance := deleteWhere (\<lambda>i. instKey i = ?k) (naming_instance (tabs d))\<rparr>"
  have q: "script d = []" "namingOK (tabs d)" "uniqueBy instKey (naming_instance (tabs d))"
    using assms(1) by (simp_all add: instStoreOK_def quiet_def namingOK_def)
  have r: "registered ?t k' = (if k' = ?k then None else registered (tabs d) k')" for k'
    using inst_beat.lookup_Some [of "naming_instance (tabs d)" k']
    by (simp add: registered_def inst_beat.lookup_delete [OF q(3)] split: option.split)
  have "snd (DeleteInstance ns grp s c ip port d) = d\<lparr>tabs := ?t\<rparr>"
    using q(1) by (simp add: DeleteInstance_def Let_def go_simps k_def)
  moreover have "clustered (registered ?t)"
  proof (rule clustered_step)
    show "clustered (registered (tabs d))" using assms(1) by (simp add: instStoreOK_def)
    fix k' j assume "registered ?t k' = Some j"
    then have "registered (tabs d) k' = Some j" unfolding r by (metis option.distinct(1))
    then show "\<exists>j'. registered (tabs d) k' = Some j' \<and> i_ClusterName j' = i_ClusterName j" by blast
  qed
  then have "instStoreOK (d\<lparr>tabs := ?t\<rparr>)"
    using assms(1) namingOK_delInst [OF q(2)] by (simp add: instStoreOK_def quiet_def)
  moreover have "instLook (d\<lparr>tabs := ?t\<rparr>) = (instLook d)(?k := None)"
    by (rule ext) (simp add: instLook_def r)
  ultimately show ?thesis by simp
qed

lemma runInst_step:
  "instStoreOK d \<Longrightarrow> instStoreOK (runInst a d) \<and>
   instLook (runInst a d) = (instLook d)(instTarget a := instEffect a (instLook d (instTarget a)))"
  using runReg runBeat runDel by (cases a) (simp_all del: instEffect.simps(2))

interpretation registry: keyed_store instStoreOK instLook runInst instTarget instEffect
  by unfold_locales (simp_all add: runInst_step del: instEffect.simps)



subsection \<open>Sweeping is invisible to readers\<close>

interpretation inst_order: strict_weak_order instanceOrder
  unfolding instanceOrder_def by (intro swo_intros)

definition servable :: "int option \<Rightarrow> int \<Rightarrow> InstanceListQuery \<Rightarrow> Instance \<Rightarrow> bool" where
  "servable hb now q i \<longleftrightarrow> instanceSelected q i \<and> effectiveInstanceHealth hb i now"

lemma liveInstances_servable:
  assumes "iq_HealthyOnly q"
  shows "liveInstances hb now q t =
    map (\<lambda>i. i\<lparr>i_Healthy := True\<rparr>) (sliceStable instanceOrder (filter (servable hb now q) (naming_instance t)))"
proof -
  have 1: "filter (\<lambda>i. i_Healthy i) (map (\<lambda>i. i\<lparr>i_Healthy := effectiveInstanceHealth hb i now\<rparr>) xs) =
      map (\<lambda>i. i\<lparr>i_Healthy := True\<rparr>) (filter (\<lambda>i. effectiveInstanceHealth hb i now) xs)" for xs
    by (induction xs) auto
  have "filter (\<lambda>i. effectiveInstanceHealth hb i now) (filter (instanceSelected q) ys) = filter (servable hb now q) ys" for ys
    unfolding filter_filter by (rule filter_cong) (auto simp: servable_def)
  then show ?thesis using assms by (simp add: liveInstances_def 1 inst_order.filter_sliceStable)
qed

lemma SweepEphemeral_quiet:
  assumes "script d = []"
  shows "SweepEphemeral now tmo del d =
    (Inr (countWhere (staleEphemeral (now - tmo)) (naming_instance (tabs d)),
          countWhere (expiredEphemeral (now - del)) (updateWhere (staleEphemeral (now - tmo)) (\<lambda>i. i\<lparr>i_Healthy := False\<rparr>) (naming_instance (tabs d)))),
     d\<lparr>tabs := (tabs d)\<lparr>naming_instance :=
        deleteWhere (expiredEphemeral (now - del))
          (updateWhere (staleEphemeral (now - tmo)) (\<lambda>i. i\<lparr>i_Healthy := False\<rparr>) (naming_instance (tabs d)))\<rparr>\<rparr>)"
  using assms by (simp add: SweepEphemeral_def go_simps)

lemma sweep_rows:
  assumes "tmo \<le> del"
  shows "filter (servable (Some tmo) now q)
      (deleteWhere (expiredEphemeral (now - del)) (updateWhere (staleEphemeral (now - tmo)) (\<lambda>i. i\<lparr>i_Healthy := False\<rparr>) rs)) =
    filter (servable (Some tmo) now q) rs"
proof (induction rs)
  case (Cons i rs)
  have e: "staleEphemeral (now - tmo) i \<Longrightarrow> \<not> servable (Some tmo) now q i"
    "expiredEphemeral (now - del) i \<Longrightarrow> \<not> servable (Some tmo) now q i"
    "\<not> servable (Some tmo) now q (i\<lparr>i_Healthy := False\<rparr>)"
    using assms by (auto simp: staleEphemeral_def expiredEphemeral_def servable_def effectiveInstanceHealth_def)
  then show ?case using Cons by (auto simp: updateWhere_def deleteWhere_def)
qed (simp add: updateWhere_def deleteWhere_def)



definition sweepRows :: "int \<Rightarrow> int \<Rightarrow> int \<Rightarrow> Instance list \<Rightarrow> Instance list" where
  "sweepRows now tmo del rs =
     map (\<lambda>i. if i_Ephemeral i \<and> i_LastHeartbeatMS i < now - tmo then i\<lparr>i_Healthy := False\<rparr> else i)
       (filter (\<lambda>i. \<not> (i_Ephemeral i \<and> i_LastHeartbeatMS i < now - del)) rs)"

lemma sweepRows_eq:
  "deleteWhere (expiredEphemeral (now - del)) (updateWhere (staleEphemeral (now - tmo)) (\<lambda>i. i\<lparr>i_Healthy := False\<rparr>) rs) =
   sweepRows now tmo del rs"
proof (induction rs)
  case (Cons i rs)
  have "(if staleEphemeral (now - tmo) i then i\<lparr>i_Healthy := False\<rparr> else i) =
      (if i_Ephemeral i \<and> i_LastHeartbeatMS i < now - tmo then i\<lparr>i_Healthy := False\<rparr> else i)"
    by (cases i) (auto simp: staleEphemeral_def)
  then show ?case using Cons by (auto simp: sweepRows_def updateWhere_def deleteWhere_def expiredEphemeral_def)
qed (simp add: sweepRows_def updateWhere_def deleteWhere_def)

lemma sweepRows_idem: "sweepRows now tmo del (sweepRows now tmo del rs) = sweepRows now tmo del rs"
  by (induction rs) (auto simp: sweepRows_def)

text \<open>A sweep removes exactly the ephemeral instances silent for longer than the delete limit,
  clears the healthy flag of exactly the silent ephemeral ones, never touches a persistent instance,
  and a second sweep at the same time changes nothing.\<close>

theorem sweep_exact:
  assumes "script d = []"
  shows "naming_instance (tabs (snd (SweepEphemeral now tmo del d))) =
      map (\<lambda>i. if i_Ephemeral i \<and> i_LastHeartbeatMS i < now - tmo then i\<lparr>i_Healthy := False\<rparr> else i)
        (filter (\<lambda>i. \<not> (i_Ephemeral i \<and> i_LastHeartbeatMS i < now - del)) (naming_instance (tabs d))) \<and>
    snd (SweepEphemeral now tmo del (snd (SweepEphemeral now tmo del d))) = snd (SweepEphemeral now tmo del d)"
proof -
  have s: "snd (SweepEphemeral now tmo del e) = e\<lparr>tabs := (tabs e)\<lparr>naming_instance := sweepRows now tmo del (naming_instance (tabs e))\<rparr>\<rparr>"
    if "script e = []" for e
    using that by (simp add: SweepEphemeral_quiet sweepRows_eq)
  then show ?thesis using assms by (simp add: sweepRows_idem) (simp add: sweepRows_def)
qed

theorem sweep_exact_witness:
  "naming_instance (tabs (snd (SweepEphemeral 100000 15000 30000
     \<lparr>tabs = empty_tables\<lparr>naming_instance := [zeroInstance\<lparr>i_Ephemeral := True, i_LastHeartbeatMS := 1\<rparr>, zeroInstance]\<rparr>, script = []\<rparr>))) = [zeroInstance]"
  using sweep_exact [where d = "\<lparr>tabs = empty_tables\<lparr>naming_instance := [zeroInstance\<lparr>i_Ephemeral := True, i_LastHeartbeatMS := 1\<rparr>, zeroInstance]\<rparr>, script = []\<rparr>"
      and now = 100000 and tmo = 15000 and del = 30000, THEN conjunct1]
  by (simp add: zeroInstance_def)

subsection \<open>Services under their instances\<close>

definition noOrphan :: "tables \<Rightarrow> bool" where
  "noOrphan t \<longleftrightarrow> instService ` set (naming_instance t) \<subseteq> serviceIdent ` set (naming_service t)"

lemma triple_Ensure:
  "triple noOrphan (EnsureService now ns grp name)
     (\<lambda>r t. noOrphan t \<and> (r = Inr () \<longrightarrow> (ns, grp, name) \<in> serviceIdent ` set (naming_service t)))"
  unfolding EnsureService_def
  by (rule triple_exec)
    (auto simp: noOrphan_def ensureServiceTab_def insertIgnore_def serviceIdent_def newServiceRow_def image_iff)

lemma noOrphan_insert:
  "noOrphan t \<Longrightarrow> (iu_NamespaceId u, iu_GroupName u, iu_ServiceName u) \<in> serviceIdent ` set (naming_service t) \<Longrightarrow>
   noOrphan (snd (insertInstanceTab now meta u t))"
  by (auto simp: noOrphan_def insertInstanceTab_def insertUnique_def Let_def)

lemma noOrphan_mapInst: "noOrphan t \<Longrightarrow> (\<And>i. instService (f i) = instService i) \<Longrightarrow>
    noOrphan (t\<lparr>naming_instance := updateWhere p f (naming_instance t)\<rparr>)"
  by (auto simp: noOrphan_def set_updateWhere image_subset_iff)

lemma triple_Register: "triple noOrphan (RegisterInstance now u) (\<lambda>r. noOrphan)"
proof -
  let ?upd = "\<lambda>i. bindS (exec (\<lambda>t. (Inr (), updateInstanceTab now (upsertMeta u) (normUpsert u) i t))) (\<lambda>_. retS False)"
  have upd: "triple noOrphan (?upd i) (\<lambda>r. noOrphan)" for i
    by (rule triple_bind [where R = "\<lambda>_. noOrphan"], rule triple_exec)
      (auto simp: updateInstanceTab_def noOrphan_mapInst intro: triple_ret)
  have sel: "triple noOrphan (selectInstanceId k) (\<lambda>r. noOrphan)" for k
    unfolding selectInstanceId_def by (rule triple_queryRow)
  have ins: "triple (\<lambda>t. noOrphan t \<and> (iu_NamespaceId u, iu_GroupName u, iu_ServiceName u) \<in> serviceIdent ` set (naming_service t))
      (exec (insertInstanceTab now (upsertMeta u) (normUpsert u))) (\<lambda>r. noOrphan)"
    by (rule triple_exec) (simp_all add: noOrphan_insert)
  have path: "triple noOrphan
      (bindS (EnsureService now (iu_NamespaceId u) (iu_GroupName u) (iu_ServiceName u))
        (\<lambda>_. tryS (exec (insertInstanceTab now (upsertMeta u) (normUpsert u)))
               (\<lambda>_. bindS (selectInstanceId (iuKey (normUpsert u))) ?upd) (\<lambda>_. retS True))) (\<lambda>r. noOrphan)"
  proof (rule triple_bind [OF triple_Ensure])
    fix a :: unit
    have "triple (\<lambda>t. noOrphan t \<and> (iu_NamespaceId u, iu_GroupName u, iu_ServiceName u) \<in> serviceIdent ` set (naming_service t))
        (tryS (exec (insertInstanceTab now (upsertMeta u) (normUpsert u)))
               (\<lambda>_. bindS (selectInstanceId (iuKey (normUpsert u))) ?upd) (\<lambda>_. retS True)) (\<lambda>r. noOrphan)"
      by (rule triple_try [OF ins]) (auto intro: triple_ret triple_bind [OF sel] upd)
    then show "triple (\<lambda>t. noOrphan t \<and> (Inr a = Inr () \<longrightarrow> (iu_NamespaceId u, iu_GroupName u, iu_ServiceName u) \<in> serviceIdent ` set (naming_service t)))
        (tryS (exec (insertInstanceTab now (upsertMeta u) (normUpsert u)))
               (\<lambda>_. bindS (selectInstanceId (iuKey (normUpsert u))) ?upd) (\<lambda>_. retS True)) (\<lambda>r. noOrphan)" by simp
  qed simp
  show ?thesis unfolding RegisterInstance_def Let_def
    by (rule triple_try [OF sel]) (auto intro!: triple_if intro: triple_fail upd path [simplified])
qed

lemma noOrphan_delInst: "noOrphan t \<Longrightarrow> noOrphan (t\<lparr>naming_instance := deleteWhere p (naming_instance t)\<rparr>)"
  by (auto simp: noOrphan_def)

lemma noOrphan_delService: "noOrphan t \<Longrightarrow> noOrphan (deleteServiceTab k t)"
proof -
  assume no: "noOrphan t"
  have "instService i \<in> serviceIdent ` set (naming_service (deleteServiceTab k t))" if i: "i \<in> set (naming_instance t)" for i
  proof -
    obtain s where s: "s \<in> set (naming_service t)" "serviceIdent s = instService i"
      using no i by (force simp: noOrphan_def)
    then have "\<not> deletableService t k s" using i by (auto simp: deletableService_def)
    then show ?thesis using s by (force simp: deleteServiceTab_def)
  qed
  then show ?thesis by (auto simp: noOrphan_def deleteServiceTab_def)
qed

lemma triple_Beat: "triple noOrphan (BeatInstance now u) (\<lambda>r. noOrphan)"
  unfolding BeatInstance_def
  by (rule triple_bind [where R = "\<lambda>_. noOrphan"], rule triple_exec)
    (auto simp: beatTab_def noOrphan_mapInst intro!: triple_if intro: triple_ret triple_Register)

lemma triple_Deregister: "triple noOrphan (DeleteInstance ns grp s c ip port) (\<lambda>r. noOrphan)"
  unfolding DeleteInstance_def Let_def
  by (rule triple_bind [where R = "\<lambda>_. noOrphan"], rule triple_exec) (auto simp: noOrphan_delInst intro: triple_ret)

lemma noOrphan_svc:
  assumes "noOrphan t" "\<And>s. serviceIdent (f s) = serviceIdent s"
  shows "noOrphan (t\<lparr>naming_service := updateWhere p f (naming_service t)\<rparr>)"
proof -
  have "serviceIdent ` set (updateWhere p f (naming_service t)) = serviceIdent ` set (naming_service t)"
    using map_updateWhere [of serviceIdent f, OF assms(2)] by (metis list.set_map)
  then show ?thesis using assms(1) by (simp add: noOrphan_def)
qed

lemma triple_SetService: "triple noOrphan (UpdateService now ns grp name p m a) (\<lambda>r. noOrphan)"
  unfolding UpdateService_def
  by (rule triple_exec) (simp_all add: noOrphan_svc serviceIdent_def)

lemma triple_DropService: "triple noOrphan (DeleteService ns grp name) (\<lambda>r. noOrphan)"
  unfolding DeleteService_def
  by (rule triple_bind [where R = "\<lambda>_. noOrphan"], rule triple_exec) (auto simp: noOrphan_delService intro: triple_ret)

lemma triple_Sweep: "triple noOrphan (SweepEphemeral now tmo del) (\<lambda>r. noOrphan)"
  unfolding SweepEphemeral_def
  by (rule triple_try [where R = "\<lambda>_. noOrphan"], rule triple_exec)
    (auto simp: noOrphan_mapInst noOrphan_delInst intro!: triple_try [where R = "\<lambda>_. noOrphan"] triple_exec
      intro: triple_ret triple_fail)

lemma triple_MarkStale: "triple noOrphan (MarkStalePersistentUnhealthy now tmo) (\<lambda>r. noOrphan)"
  unfolding MarkStalePersistentUnhealthy_def Let_def
  by (auto simp: noOrphan_mapInst intro!: triple_if triple_try [where R = "\<lambda>_. noOrphan"] triple_exec
      intro: triple_ret triple_fail)

lemma triple_Ensure': "triple noOrphan (EnsureService now ns grp name) (\<lambda>r. noOrphan)"
  using triple_Ensure [of now ns grp name] unfolding triple_def by blast

lemmas naming_triples = triple_Register triple_Beat triple_Deregister triple_SetService triple_DropService
  triple_Sweep triple_MarkStale triple_Ensure'

lemma runNaming_alone:
  "alone (script d) \<Longrightarrow> noOrphan (tabs d) \<Longrightarrow> alone (script (runNaming a d)) \<and> noOrphan (tabs (runNaming a d))"
  using naming_triples unfolding triple_def by (cases a) simp_all

text \<open>Services outlive their instances: a single server, with its statements failing at any point,
  never holds an instance whose service row is missing, after any sequence of registry writes, since a
  service is deleted only while it has no instance.\<close>

theorem service_of_every_instance:
  assumes "alone (script d)" "noOrphan (tabs d)"
  shows "\<forall>i \<in> set (naming_instance (tabs (fold runNaming as d))).
           \<exists>s \<in> set (naming_service (tabs (fold runNaming as d))). serviceIdent s = instService i"
proof -
  have "alone (script (fold runNaming as d)) \<and> noOrphan (tabs (fold runNaming as d))"
    using assms by (induction as arbitrary: d) (auto simp: runNaming_alone)
  then show ?thesis by (force simp: noOrphan_def)
qed

theorem service_of_every_instance_witness:
  "instService ` set (naming_instance (tabs (fold runNaming [Register 1 sampleUpsert, DropService ''public'' ''DEFAULT_GROUP'' ''svc'']
        \<lparr>tabs = empty_tables, script = [Ok, Ok, Ok, Ok]\<rparr>))) \<subseteq>
   serviceIdent ` set (naming_service (tabs (fold runNaming [Register 1 sampleUpsert, DropService ''public'' ''DEFAULT_GROUP'' ''svc'']
        \<lparr>tabs = empty_tables, script = [Ok, Ok, Ok, Ok]\<rparr>)))"
proof -
  let ?d = "\<lparr>tabs = empty_tables, script = [Ok, Ok, Ok, Ok]\<rparr>"
  have "alone (script ?d)" "noOrphan (tabs ?d)" by (simp_all add: alone_def noOrphan_def empty_tables_def)
  from service_of_every_instance [OF this, of "[Register 1 sampleUpsert, DropService ''public'' ''DEFAULT_GROUP'' ''svc'']"]
  show ?thesis by (force simp del: runNaming.simps fold.simps)
qed

text \<open>Two servers can break it: when another session deletes the still empty service between
  RegisterInstance's creation of the service row and its instance insert, the registration succeeds and
  leaves an instance without a service row.\<close>

theorem register_race_orphan:
  "\<exists>d'. RegisterInstance 1 sampleUpsert
      \<lparr>tabs = empty_tables, script = [Ok, Ok, Env (deleteServiceTab (''public'', ''DEFAULT_GROUP'', ''svc''))]\<rparr> = (Inr True, d') \<and>
    naming_service (tabs d') = [] \<and> length (naming_instance (tabs d')) = 1"
  by (simp add: RegisterInstance_def Let_def op_defs selectInstanceId_def queryRow_def EnsureService_def exec_def stmt_def
      empty_tables_def ensureServiceTab_def insertIgnore_def insertInstanceTab_def insertUnique_def deleteServiceTab_def
      deleteWhere_def deletableService_def serviceIdent_def newServiceRow_def sampleUpsert_def)

end
