(* ===== verification/PortPool.thy ===== *)
theory PortPool
  imports Metadata
begin

text \<open>
  Port homogeneity of a candidate set (\<^verbatim>\<open>internal/storage/portpool.go\<close>) and the domain normalisation of
  \<^verbatim>\<open>internal/storage/gatewaystore.go\<close>.
\<close>

subsection \<open>Declared ports and the pool\<close>

record PortConflict =
  pc_ServiceName :: string
  pc_Ports :: "32 word list"
  pc_Declared :: "32 word"
  pc_Chosen :: "32 word"
  pc_Excluded :: int

definition ServicePortMetaKey :: string where
  "ServicePortMetaKey = ''servicePort''"

definition ParseServicePort :: "string \<Rightarrow> goerr + 32 word" where
  "ParseServicePort raw =
     (let s = trimSpace raw
      in if s = '''' then Inl (ErrMsg (ServicePortMetaKey @ '' must not be empty''))
         else case parseUint 32 s of
                None \<Rightarrow> Inl (ErrMsg (ServicePortMetaKey @ '' is not a port number''))
              | Some n \<Rightarrow>
                  if n = 0 \<or> n > 65535 then Inl (ErrMsg (ServicePortMetaKey @ '' is not a valid port (1-65535)''))
                  else Inr (of_nat n))"

definition DeclaredServicePort :: "smap \<Rightarrow> 32 word" where
  "DeclaredServicePort meta =
     (case map_of meta ServicePortMetaKey of
        None \<Rightarrow> 0
      | Some raw \<Rightarrow> (case ParseServicePort raw of Inl _ \<Rightarrow> 0 | Inr port \<Rightarrow> port))"

fun groupByPort :: "Instance list \<Rightarrow> (32 word \<rightharpoonup> Instance list) \<Rightarrow> 32 word list \<Rightarrow>
    (32 word \<rightharpoonup> Instance list) \<times> 32 word list" where
  "groupByPort [] m ports = (m, ports)"
| "groupByPort (i # is) m ports =
     groupByPort is (m(i_Port i \<mapsto> mget [] m (i_Port i) @ [i]))
       (if m (i_Port i) = None then ports @ [i_Port i] else ports)"

definition SelectPortPool :: "Instance list \<Rightarrow> 32 word \<Rightarrow> Instance list \<times> PortConflict option" where
  "SelectPortPool instances declared =
     (if instances = [] then (instances, None)
      else let (byPort, seen) = groupByPort instances Map.empty [];
               ports = sort seen;
               serviceName = i_ServiceName (instances ! 0)
           in if declared \<noteq> 0 then
                let pool = mget [] byPort declared
                in if length ports = 1 \<and> ports ! 0 = declared then (pool, None)
                   else (pool, Some \<lparr>pc_ServiceName = serviceName, pc_Ports = ports, pc_Declared = declared,
                                 pc_Chosen = declared, pc_Excluded = int (length instances) - int (length pool)\<rparr>)
              else if length ports = 1 then (instances, None)
              else (instances, Some \<lparr>pc_ServiceName = serviceName, pc_Ports = ports, pc_Declared = 0,
                                pc_Chosen = 0, pc_Excluded = 0\<rparr>))"

lemma groupByPort_pools:
  "groupByPort is m ps = (m', ps') \<Longrightarrow> mget [] m' p = mget [] m p @ filter (\<lambda>i. i_Port i = p) is"
  by (induction "is" arbitrary: m ps) (auto simp: mget_upd split: if_splits)

lemma groupByPort_ports:
  "groupByPort is m ps = (m', ps') \<Longrightarrow> dom m = set ps \<Longrightarrow> distinct ps \<Longrightarrow>
   set ps' = set ps \<union> i_Port ` set is \<and> distinct ps'"
proof (induction "is" arbitrary: m ps)
  case (Cons i "is")
  let ?m = "m(i_Port i \<mapsto> mget [] m (i_Port i) @ [i])"
  let ?ps = "if m (i_Port i) = None then ps @ [i_Port i] else ps"
  have n: "m (i_Port i) = None \<longleftrightarrow> i_Port i \<notin> set ps" using Cons.prems(2) by (metis domIff)
  have d: "dom ?m = set ?ps" "distinct ?ps" using Cons.prems(2,3) by (auto simp: n)
  have r: "groupByPort is ?m ?ps = (m', ps')" using Cons.prems(1) by simp
  from Cons.IH [OF r d] have "set ps' = set ?ps \<union> i_Port ` set is \<and> distinct ps'" .
  then show ?case by (auto simp: n split: if_splits)
qed auto

lemma groupByPort_start:
  assumes "groupByPort is Map.empty [] = (m, ps)"
  shows "mget [] m p = filter (\<lambda>i. i_Port i = p) is" "set ps = i_Port ` set is" "distinct ps"
  using groupByPort_pools [OF assms, of p] groupByPort_ports [OF assms] by auto

lemma length_one_iff: "distinct xs \<Longrightarrow> length xs = 1 \<longleftrightarrow> (\<exists>x. set xs = {x})"
  by (metis One_nat_def card_1_singleton_iff distinct_card)

lemma SelectPortPool_pool:
  "fst (SelectPortPool is p) = (if p = 0 then is else filter (\<lambda>i. i_Port i = p) is)"
  by (auto simp: SelectPortPool_def Let_def groupByPort_start(1) split: prod.split)

lemma SelectPortPool_conflict:
  "snd (SelectPortPool is p) = None \<longleftrightarrow>
     (if p = 0 then (\<forall>i\<in>set is. \<forall>j\<in>set is. i_Port i = i_Port j) else (\<forall>i\<in>set is. i_Port i = p))"
proof (cases "is = []")
  case False
  obtain m ps where g: "groupByPort is Map.empty [] = (m, ps)" by fastforce
  note s = groupByPort_start(2,3) [OF g]
  have one: "length (sort ps) = 1 \<longleftrightarrow> (\<exists>x. i_Port ` set is = {x})"
    using length_one_iff [OF s(2)] s(1) by simp
  have hd: "sort ps ! 0 \<in> i_Port ` set is" using False s(1)
    by (metis (no_types) image_is_empty length_greater_0_conv length_sort list.set(1) nth_mem set_empty set_sort)
  show ?thesis
  proof (cases "p = 0")
    case True
    obtain i0 where "i0 \<in> set is" using False by (cases "is") auto
    then have "i_Port i0 \<in> i_Port ` set is" by simp
    then have "(\<exists>x. i_Port ` set is = {x}) \<longleftrightarrow> i_Port ` set is = {i_Port i0}" by (metis singletonD)
    also have "\<dots> \<longleftrightarrow> (\<forall>i\<in>set is. i_Port i = i_Port i0)" using \<open>i0 \<in> set is\<close> by auto
    also have "\<dots> \<longleftrightarrow> (\<forall>i\<in>set is. \<forall>j\<in>set is. i_Port i = i_Port j)" using \<open>i0 \<in> set is\<close> by metis
    finally have eq: "(\<exists>x. i_Port ` set is = {x}) \<longleftrightarrow> (\<forall>i\<in>set is. \<forall>j\<in>set is. i_Port i = i_Port j)" .
    have "snd (SelectPortPool is p) = None \<longleftrightarrow> length (sort ps) = 1"
      using True False g by (simp add: SelectPortPool_def Let_def)
    then show ?thesis unfolding one eq using True by simp
  next
    case p: False
    have "(\<exists>x. i_Port ` set is = {x}) \<and> sort ps ! 0 = p \<longleftrightarrow> (\<forall>i\<in>set is. i_Port i = p)"
    proof
      assume a: "(\<exists>x. i_Port ` set is = {x}) \<and> sort ps ! 0 = p"
      then have "i_Port ` set is = {p}" using hd by (metis singletonD)
      then show "\<forall>i\<in>set is. i_Port i = p" by auto
    next
      assume a: "\<forall>i\<in>set is. i_Port i = p"
      then have "i_Port ` set is = {p}" using False by (cases "is") auto
      then show "(\<exists>x. i_Port ` set is = {x}) \<and> sort ps ! 0 = p" using hd by auto
    qed
    moreover have "snd (SelectPortPool is p) = None \<longleftrightarrow> length (sort ps) = 1 \<and> sort ps ! 0 = p"
      using p False g by (simp add: SelectPortPool_def Let_def)
    ultimately show ?thesis unfolding one using p by simp
  qed
qed (simp add: SelectPortPool_def)

lemma SelectPortPool_report:
  assumes "snd (SelectPortPool is p) = Some c"
  shows "sorted (pc_Ports c)" "distinct (pc_Ports c)" "set (pc_Ports c) = i_Port ` set is" "pc_Declared c = p"
    "p \<noteq> 0 \<Longrightarrow> pc_Excluded c = int (length (filter (\<lambda>i. i_Port i \<noteq> p) is))"
proof -
  obtain m ps where g: "groupByPort is Map.empty [] = (m, ps)" by fastforce
  note s = groupByPort_start [OF g]
  have ne: "is \<noteq> []" using assms by (auto simp: SelectPortPool_def)
  then have c: "pc_Ports c = sort ps" "pc_Declared c = p"
    "p \<noteq> 0 \<Longrightarrow> pc_Excluded c = int (length is) - int (length (filter (\<lambda>i. i_Port i = p) is))"
    using assms g s(1) by (auto simp: SelectPortPool_def Let_def split: if_splits)
  show "sorted (pc_Ports c)" "distinct (pc_Ports c)" "set (pc_Ports c) = i_Port ` set is" "pc_Declared c = p"
    using c s by simp_all
  assume "p \<noteq> 0"
  then show "pc_Excluded c = int (length (filter (\<lambda>i. i_Port i \<noteq> p) is))"
    using c(3) sum_length_filter_compl [of "\<lambda>i. i_Port i = p" "is"] by simp
qed

text \<open>The port pool: a declared port keeps exactly the instances on that port and no declaration
  keeps all; a conflict is reported exactly when some instance is not on the declared port (or, without
  one, when two instances disagree), and then it lists every port once in ascending order and counts
  exactly the excluded instances.\<close>

theorem SelectPortPool_spec:
  "fst (SelectPortPool is p) = (if p = 0 then is else filter (\<lambda>i. i_Port i = p) is) \<and>
   (snd (SelectPortPool is p) = None \<longleftrightarrow>
     (if p = 0 then (\<forall>i\<in>set is. \<forall>j\<in>set is. i_Port i = i_Port j) else (\<forall>i\<in>set is. i_Port i = p))) \<and>
   (\<forall>c. snd (SelectPortPool is p) = Some c \<longrightarrow>
      sorted (pc_Ports c) \<and> distinct (pc_Ports c) \<and> set (pc_Ports c) = i_Port ` set is \<and>
      (p \<noteq> 0 \<longrightarrow> pc_Excluded c = int (length (filter (\<lambda>i. i_Port i \<noteq> p) is))))"
  by (intro conjI allI impI) (simp_all add: SelectPortPool_pool SelectPortPool_conflict SelectPortPool_report)

theorem SelectPortPool_spec_witness:
  "fst (SelectPortPool [zeroInstance\<lparr>i_Port := 80\<rparr>, zeroInstance\<lparr>i_Port := 81\<rparr>] 80) = [zeroInstance\<lparr>i_Port := 80\<rparr>] \<and>
   snd (SelectPortPool [zeroInstance\<lparr>i_Port := 80\<rparr>, zeroInstance\<lparr>i_Port := 81\<rparr>] 80) \<noteq> None"
  using SelectPortPool_spec [of "[zeroInstance\<lparr>i_Port := 80\<rparr>, zeroInstance\<lparr>i_Port := 81\<rparr>]" 80] by simp

subsection \<open>Domains\<close>

fun portDigits :: "string \<Rightarrow> int \<Rightarrow> int option" where
  "portDigits [] n = Some n"
| "portDigits (c # cs) n =
     (if byte c < 48 \<or> byte c > 57 then None
      else portDigits cs (i64 (i64 (n * 10) + (int (byte c) - 48))))"

definition parseNumericPort :: "string \<Rightarrow> goerr + int" where
  "parseNumericPort s =
     (if s = '''' then Inl (ErrMsg ''empty port'')
      else case portDigits s 0 of
             None \<Rightarrow> Inl (ErrMsg ''not a port'')
           | Some n \<Rightarrow> if n < 1 \<or> n > 65535 then Inl (ErrMsg ''port out of range'') else Inr n)"

definition NormalizeDomain :: "string \<Rightarrow> string" where
  "NormalizeDomain d0 =
     (let d = trimSpace (toLower d0);
          d1 = (case lastIndexByte d (CHR '':'') of
                  None \<Rightarrow> d
                | Some i \<Rightarrow>
                    if i > 0 \<and> \<not> contains (drop (i + 1) d) '':'' then
                      (case parseNumericPort (drop (i + 1) d) of Inl _ \<Rightarrow> d | Inr _ \<Rightarrow> take i d)
                    else d)
      in trimSuffix d1 ''.'')"

lemma digits_mono: "a \<le> foldl (\<lambda>a c. 10 * a + digitVal c) a s"
proof (induction s arbitrary: a)
  case (Cons x s)
  have "a \<le> 10 * a + digitVal x" by simp
  also have "\<dots> \<le> foldl (\<lambda>a c. 10 * a + digitVal c) (10 * a + digitVal x) s" by (rule Cons)
  finally show ?case by simp
qed simp

lemma portDigits_digits:
  "list_all isDigit s \<Longrightarrow> foldl (\<lambda>a c. 10 * a + digitVal c) n s < 2 ^ 62 \<Longrightarrow>
   portDigits s (int n) = Some (int (foldl (\<lambda>a c. 10 * a + digitVal c) n s))"
proof (induction s arbitrary: n)
  case (Cons c s)
  let ?m = "10 * n + digitVal c"
  have "?m < 2 ^ 62" using Cons.prems(2) digits_mono [of ?m s] by simp
  moreover have dv: "int (byte c) - 48 = int (digitVal c)" "\<not> (byte c < 48 \<or> byte c > 57)"
    using Cons.prems(1) by (auto simp: isDigit_def digitVal_def)
  ultimately have "i64 (i64 (int n * 10) + (int (byte c) - 48)) = int ?m"
    by (simp add: i64_id)
  then have "portDigits (c # s) (int n) = portDigits s (int ?m)"
    using dv(2) by (simp only: portDigits.simps if_False)
  also have "\<dots> = Some (int (foldl (\<lambda>a c. 10 * a + digitVal c) ?m s))"
    using Cons.prems by (intro Cons.IH) simp_all
  finally show ?case by simp
qed simp

lemma parseNumericPort_decimal:
  assumes "1 \<le> p" "p \<le> 65535"
  shows "parseNumericPort (decimal p) = Inr (int p)"
proof -
  have v: "foldl (\<lambda>a c. 10 * a + digitVal c) 0 (decimal p) = p"
    using decValue_decimal [of p] by (simp add: decValue_def)
  have "portDigits (decimal p) 0 = Some (int p)"
    using portDigits_digits [of "decimal p" 0] assms by (simp only: v) simp
  then show ?thesis using assms by (simp add: parseNumericPort_def)
qed

lemma toLower_decimal [simp]: "toLower (decimal p) = decimal p"
proof -
  have "lowerChar c = c" if "isDigit c" for c using that by (auto simp: lowerChar_def isDigit_def)
  then show ?thesis unfolding toLower_def by (intro map_idI) (auto dest: decimal_chars)
qed

lemma byte_lowerChar: "byte (lowerChar c) = (if 65 \<le> byte c \<and> byte c \<le> 90 then byte c + 32 else byte c)"
  by (simp add: lowerChar_def byte_def)

lemma toLower_colon: "toLower (CHR '':'' # s) = CHR '':'' # toLower s"
  by (simp add: toLower_def lowerChar_def byte_def)

lemma byte_colon: "byte (CHR '':'') = 58"
  by (simp add: byte_def)

lemma isSpace_colon: "\<not> isSpace (CHR '':'')"
  by (simp add: isSpace_def byte_def)

text \<open>One site, one name: a host without white space or colon normalises to the same domain with any
  valid port behind it and with its letters in any case.\<close>

theorem NormalizeDomain_port_and_case:
  assumes "h \<noteq> ''''" "list_all (\<lambda>c. \<not> isSpace c \<and> c \<noteq> CHR '':'') h" "1 \<le> p" "p \<le> 65535" "toLower h = toLower h'"
  shows "NormalizeDomain (h' @ '':'' @ decimal p) = NormalizeDomain h"
proof -
  define l where "l = toLower h"
  have low: "lowerChar c = CHR '':'' \<longleftrightarrow> c = CHR '':''" for c
    using byte_inj [of "lowerChar c" "CHR '':''"] byte_inj [of c "CHR '':''"] byte_colon by (auto simp: byte_lowerChar split: if_splits)
  have l: "l \<noteq> []" "list_all (\<lambda>c. \<not> isSpace c) l"
    using assms(1,2) by (auto simp: l_def toLower_def list_all_iff)
  have l3: "CHR '':'' \<notin> set l"
  proof
    assume "CHR '':'' \<in> set l"
    then obtain c where c: "c \<in> set h" "CHR '':'' = lowerChar c" by (auto simp: l_def toLower_def)
    then have "c = CHR '':''" using low [of c] by simp
    then show False using assms(2) c(1) by (auto simp: list_all_iff)
  qed
  have nc: "CHR '':'' \<notin> set (decimal p)" using decimal_chars digit_not_sign by blast
  have dsp: "list_all (\<lambda>c. \<not> isSpace c) (decimal p)"
    by (auto simp: list_all_iff isSpace_def isDigit_def dest!: decimal_chars)
  have eq: "toLower (h' @ '':'' @ decimal p) = l @ CHR '':'' # decimal p"
    by (simp add: toLower_append l_def assms(5) toLower_colon)
  have t: "trimSpace (toLower (h' @ '':'' @ decimal p)) = l @ CHR '':'' # decimal p"
    unfolding eq by (rule trimSpace_none) (use l(2) dsp in \<open>simp add: isSpace_colon\<close>)
  have nct: "\<not> contains (decimal p) '':''" using nc by (auto simp: contains_iff)
  have "NormalizeDomain (h' @ '':'' @ decimal p) = trimSuffix l ''.''"
    unfolding NormalizeDomain_def t using l(1) nct lastIndexByte_at [OF nc, of l] parseNumericPort_decimal [OF assms(3,4)]
    by (simp add: Let_def)
  moreover have "NormalizeDomain h = trimSuffix l ''.''"
    using l3 trimSpace_none [OF l(2)] lastIndexByte_None [of l "CHR '':''"]
    by (simp add: NormalizeDomain_def l_def [symmetric] Let_def)
  ultimately show ?thesis by simp
qed

theorem NormalizeDomain_port_and_case_witness:
  "NormalizeDomain (''Example.COM'' @ '':'' @ decimal 443) = NormalizeDomain ''example.com''"
  by (rule NormalizeDomain_port_and_case) (simp_all add: isSpace_def toLower_def lowerChar_def byte_def, code_simp)

end
