(* ===== verification/AppModel.thy ===== *)
theory AppModel
  imports Naming PortPool
begin

text \<open>
  The application model (\<^verbatim>\<open>internal/storage/appstore.go\<close>): applications, components, route bindings and
  the resolution of a domain and path to a component with its live instances.  Timestamps of these rows
  are written but never read by the code and are left out.
\<close>

subsection \<open>Applications and components\<close>

definition appRow :: "smap Application \<Rightarrow> string Application" where
  "appRow a = \<lparr>a_NamespaceId = a_NamespaceId a, a_Name = a_Name a, a_DisplayName = a_DisplayName a,
     a_Description = a_Description a, a_Env = a_Env a, a_Metadata = encodeMeta (a_Metadata a)\<rparr>"

definition scanApp :: "string Application \<Rightarrow> smap Application" where
  "scanApp a = \<lparr>a_NamespaceId = a_NamespaceId a, a_Name = a_Name a, a_DisplayName = a_DisplayName a,
     a_Description = a_Description a, a_Env = a_Env a, a_Metadata = decodeMeta (a_Metadata a)\<rparr>"

definition appKey :: "'m Application \<Rightarrow> string \<times> string" where
  "appKey a = (a_NamespaceId a, a_Name a)"

definition ListApplications :: "string \<Rightarrow> smap Application list dbop" where
  "ListApplications ns =
     query (\<lambda>t. map scanApp (sliceStable (\<lambda>a b. a_Name a < a_Name b)
       (filter (\<lambda>a. a_NamespaceId a = ns) (application t))))"

definition GetApplication :: "string \<Rightarrow> string \<Rightarrow> smap Application option dbop" where
  "GetApplication ns name =
     tryS (queryRow (\<lambda>t. map scanApp (filter (\<lambda>a. appKey a = (ns, name)) (application t))))
       (\<lambda>e. if e = ErrNoRows then retS None else failS e)
       (\<lambda>a. retS (Some a))"

definition setApp :: "string Application \<Rightarrow> string Application \<Rightarrow> string Application" where
  "setApp a r = r\<lparr>a_DisplayName := a_DisplayName a, a_Description := a_Description a, a_Env := a_Env a,
     a_Metadata := a_Metadata a\<rparr>"

definition UpsertApplication :: "smap Application \<Rightarrow> bool dbop" where
  "UpsertApplication a =
     bindS (GetApplication (a_NamespaceId a) (a_Name a))
       (\<lambda>existing. if existing \<noteq> None then
            bindS (exec (\<lambda>t. (Inr (), t\<lparr>application := updateWhere (\<lambda>r. appKey r = appKey a) (setApp (appRow a)) (application t)\<rparr>)))
              (\<lambda>_. retS False)
          else bindS (exec (\<lambda>t. let (r, as) = insertUnique appKey (appRow a) (application t) in (r, t\<lparr>application := as\<rparr>)))
              (\<lambda>_. retS True))"

definition DeleteApplication :: "string \<Rightarrow> string \<Rightarrow> unit dbop" where
  "DeleteApplication ns name =
     bindS (exec (\<lambda>t. (Inr (), t\<lparr>route_binding := deleteWhere (\<lambda>r. r_NamespaceId r = ns \<and> r_AppName r = name) (route_binding t)\<rparr>)))
       (\<lambda>_. bindS (exec (\<lambda>t. (Inr (), t\<lparr>application_component :=
              deleteWhere (\<lambda>c. ac_NamespaceId c = ns \<and> ac_AppName c = name) (application_component t)\<rparr>)))
       (\<lambda>_. exec (\<lambda>t. (Inr (), t\<lparr>application := deleteWhere (\<lambda>a. appKey a = (ns, name)) (application t)\<rparr>))))"

definition compRow :: "smap ApplicationComponent \<Rightarrow> string ApplicationComponent" where
  "compRow c = \<lparr>ac_NamespaceId = ac_NamespaceId c, ac_AppName = ac_AppName c, ac_Name = ac_Name c,
     ac_Kind = ac_Kind c, ac_Protocol = ac_Protocol c, ac_ServiceName = ac_ServiceName c,
     ac_GroupName = ac_GroupName c, ac_ClusterName = ac_ClusterName c, ac_HealthPath = ac_HealthPath c,
     ac_Weight = ac_Weight c, ac_LBAlgorithm = ac_LBAlgorithm c, ac_Sticky = ac_Sticky c,
     ac_Metadata = encodeMeta (ac_Metadata c)\<rparr>"

definition scanComponent :: "string ApplicationComponent \<Rightarrow> smap ApplicationComponent" where
  "scanComponent c = \<lparr>ac_NamespaceId = ac_NamespaceId c, ac_AppName = ac_AppName c, ac_Name = ac_Name c,
     ac_Kind = ac_Kind c, ac_Protocol = ac_Protocol c, ac_ServiceName = ac_ServiceName c,
     ac_GroupName = ac_GroupName c, ac_ClusterName = ac_ClusterName c, ac_HealthPath = ac_HealthPath c,
     ac_Weight = ac_Weight c, ac_LBAlgorithm = ac_LBAlgorithm c, ac_Sticky = ac_Sticky c,
     ac_Metadata = decodeMeta (ac_Metadata c)\<rparr>"

definition compKey :: "'m ApplicationComponent \<Rightarrow> string \<times> string \<times> string" where
  "compKey c = (ac_NamespaceId c, ac_AppName c, ac_Name c)"

definition ListComponents :: "string \<Rightarrow> string \<Rightarrow> smap ApplicationComponent list dbop" where
  "ListComponents ns app =
     query (\<lambda>t. map scanComponent (sliceStable (\<lambda>a b. ac_Name a < ac_Name b)
       (filter (\<lambda>c. ac_NamespaceId c = ns \<and> ac_AppName c = app) (application_component t))))"

definition GetComponent :: "string \<Rightarrow> string \<Rightarrow> string \<Rightarrow> smap ApplicationComponent option dbop" where
  "GetComponent ns app name =
     tryS (queryRow (\<lambda>t. map scanComponent (filter (\<lambda>c. compKey c = (ns, app, name)) (application_component t))))
       (\<lambda>e. if e = ErrNoRows then retS None else failS e)
       (\<lambda>c. retS (Some c))"

definition setComp :: "string ApplicationComponent \<Rightarrow> string ApplicationComponent \<Rightarrow> string ApplicationComponent" where
  "setComp c r = r\<lparr>ac_Kind := ac_Kind c, ac_Protocol := ac_Protocol c, ac_ServiceName := ac_ServiceName c,
     ac_GroupName := ac_GroupName c, ac_ClusterName := ac_ClusterName c, ac_HealthPath := ac_HealthPath c,
     ac_Weight := ac_Weight c, ac_LBAlgorithm := ac_LBAlgorithm c, ac_Sticky := ac_Sticky c,
     ac_Metadata := ac_Metadata c\<rparr>"

definition UpsertComponent :: "smap ApplicationComponent \<Rightarrow> bool dbop" where
  "UpsertComponent c =
     bindS (GetComponent (ac_NamespaceId c) (ac_AppName c) (ac_Name c))
       (\<lambda>existing. if existing \<noteq> None then
            bindS (exec (\<lambda>t. (Inr (), t\<lparr>application_component :=
                updateWhere (\<lambda>r. compKey r = compKey c) (setComp (compRow c)) (application_component t)\<rparr>)))
              (\<lambda>_. retS False)
          else bindS (exec (\<lambda>t. let (r, cs) = insertUnique compKey (compRow c) (application_component t)
                               in (r, t\<lparr>application_component := cs\<rparr>)))
              (\<lambda>_. retS True))"

definition DeleteComponent :: "string \<Rightarrow> string \<Rightarrow> string \<Rightarrow> unit dbop" where
  "DeleteComponent ns app name =
     bindS (exec (\<lambda>t. (Inr (), t\<lparr>route_binding :=
         deleteWhere (\<lambda>r. r_NamespaceId r = ns \<and> r_AppName r = app \<and> r_ComponentName r = name) (route_binding t)\<rparr>)))
       (\<lambda>_. exec (\<lambda>t. (Inr (), t\<lparr>application_component :=
         deleteWhere (\<lambda>c. compKey c = (ns, app, name)) (application_component t)\<rparr>)))"

subsection \<open>Routes\<close>

definition routeKey :: "RouteBinding \<Rightarrow> string \<times> string \<times> string" where
  "routeKey r = (r_NamespaceId r, r_Domain r, r_PathPrefix r)"

definition routeRowOrder :: "RouteBinding \<Rightarrow> RouteBinding \<Rightarrow> bool" where
  "routeRowOrder = lexless r_Domain (lexless r_Priority (\<lambda>a b. r_PathPrefix a < r_PathPrefix b))"

definition routesOf :: "string \<Rightarrow> tables \<Rightarrow> RouteBinding list" where
  "routesOf ns t = sliceStable routeRowOrder (filter (\<lambda>r. r_NamespaceId r = ns) (route_binding t))"

definition ListRoutes :: "string \<Rightarrow> RouteBinding list dbop" where
  "ListRoutes ns = query (routesOf ns)"

definition UpsertRoute :: "RouteBinding \<Rightarrow> unit dbop" where
  "UpsertRoute r =
     exec (\<lambda>t. (Inr (), t\<lparr>route_binding :=
       upsertRow routeKey
         (\<lambda>x. x\<lparr>r_AppName := r_AppName r, r_ComponentName := r_ComponentName r,
                r_UpstreamName := r_UpstreamName r, r_Priority := r_Priority r\<rparr>) r (route_binding t)\<rparr>))"

definition DeleteRoute :: "string \<Rightarrow> string \<Rightarrow> string \<Rightarrow> unit dbop" where
  "DeleteRoute ns domain pathPrefix =
     exec (\<lambda>t. (Inr (), t\<lparr>route_binding := deleteWhere (\<lambda>r. routeKey r = (ns, domain, pathPrefix)) (route_binding t)\<rparr>))"

subsection \<open>Resolution\<close>

record ResolvedRoute =
  rr_NamespaceId :: string
  rr_Domain :: string
  rr_PathPrefix :: string
  rr_AppName :: string
  rr_ComponentName :: string
  rr_ComponentKind :: string
  rr_Protocol :: string
  rr_UpstreamName :: string
  rr_LBAlgorithm :: string
  rr_Sticky :: string
  rr_Weight :: rat
  rr_ClusterName :: string
  rr_HealthPath :: string
  rr_ServiceName :: string
  rr_GroupName :: string
  rr_Instances :: "Instance list"
  rr_PortConflict :: "PortConflict option"

definition pathPrefixMatches :: "string \<Rightarrow> string \<Rightarrow> bool" where
  "pathPrefixMatches pfx path \<longleftrightarrow>
     (if pfx = '''' \<or> pfx = ''/'' then True
      else let p = trimSuffix pfx ''/''
           in if p = '''' then True
              else if path = p then True
              else hasPrefix path (p @ ''/''))"

definition metaMatches :: "(string \<times> string) list \<Rightarrow> Instance \<Rightarrow> bool" where
  "metaMatches filters i \<longleftrightarrow> list_all (\<lambda>(k, v). aget (instMetadata i) k = v) filters"

definition filterInstancesByMeta :: "Instance list \<Rightarrow> (string \<times> string) list \<Rightarrow> Instance list" where
  "filterInstancesByMeta instances filters = filter (metaMatches filters) instances"

text \<open>Both branches of the code's switch on the algorithm sort by the same comparison.\<close>

definition sortInstances :: "Instance list \<Rightarrow> string \<Rightarrow> Instance list" where
  "sortInstances instances lb = sliceStable (lexgreater i_Weight (\<lambda>a b. i_IP a < i_IP b)) instances"

definition betterRoute :: "RouteBinding \<Rightarrow> RouteBinding \<Rightarrow> bool" where
  "betterRoute r best \<longleftrightarrow>
     length (r_PathPrefix r) > length (r_PathPrefix best) \<or>
     (length (r_PathPrefix r) = length (r_PathPrefix best) \<and> r_Priority r < r_Priority best)"

fun matchLoop :: "string \<Rightarrow> string \<Rightarrow> RouteBinding list \<Rightarrow> RouteBinding option \<Rightarrow> RouteBinding option" where
  "matchLoop domain path [] best = best"
| "matchLoop domain path (r # rs) best =
     (if \<not> equalFold (r_Domain r) domain then matchLoop domain path rs best
      else if \<not> pathPrefixMatches (r_PathPrefix r) path then matchLoop domain path rs best
      else matchLoop domain path rs
             (case best of None \<Rightarrow> Some r | Some b \<Rightarrow> if betterRoute r b then Some r else best))"

definition matchRoute :: "string \<Rightarrow> string \<Rightarrow> string \<Rightarrow> RouteBinding option dbop" where
  "matchRoute ns domain path =
     bindS (ListRoutes ns) (\<lambda>routes. retS (matchLoop domain (if path = '''' then ''/'' else path) routes None))"

definition ResolveRoute :: "int option \<Rightarrow> int \<Rightarrow> string \<Rightarrow> string \<Rightarrow> string \<Rightarrow> (string \<times> string) list \<Rightarrow> ResolvedRoute option dbop" where
  "ResolveRoute hb now ns domain path metaFilters =
     bindS (matchRoute ns domain path) (\<lambda>mr. case mr of None \<Rightarrow> retS None | Some route \<Rightarrow>
     bindS (GetComponent ns (r_AppName route) (r_ComponentName route)) (\<lambda>mc. case mc of None \<Rightarrow> retS None | Some cmp \<Rightarrow>
     (let grp = (if ac_GroupName cmp = '''' then ''DEFAULT_GROUP'' else ac_GroupName cmp)
      in bindS (ListInstances hb now \<lparr>iq_NamespaceId = ns, iq_GroupName = grp, iq_ServiceName = ac_ServiceName cmp,
                  iq_Clusters = ac_ClusterName cmp, iq_HealthyOnly = True\<rparr>)
      (\<lambda>instances0.
        let instances1 = (if metaFilters \<noteq> [] then filterInstancesByMeta instances0 metaFilters else instances0);
            (instances2, portConflict) = SelectPortPool instances1 (DeclaredServicePort (ac_Metadata cmp));
            instances3 = sortInstances instances2 (ac_LBAlgorithm cmp)
        in retS (Some \<lparr>rr_NamespaceId = ns, rr_Domain = r_Domain route, rr_PathPrefix = r_PathPrefix route,
             rr_AppName = ac_AppName cmp, rr_ComponentName = ac_Name cmp, rr_ComponentKind = ac_Kind cmp,
             rr_Protocol = ac_Protocol cmp, rr_UpstreamName = r_UpstreamName route,
             rr_LBAlgorithm = ac_LBAlgorithm cmp, rr_Sticky = ac_Sticky cmp, rr_Weight = ac_Weight cmp,
             rr_ClusterName = ac_ClusterName cmp, rr_HealthPath = ac_HealthPath cmp,
             rr_ServiceName = ac_ServiceName cmp, rr_GroupName = grp, rr_Instances = instances3,
             rr_PortConflict = portConflict\<rparr>)))))"

subsection \<open>The declared model stays consistent\<close>

interpretation apps: keyed_rows "appKey :: string Application \<Rightarrow> _" setApp
  by unfold_locales (simp add: appKey_def setApp_def)

interpretation comps: keyed_rows "compKey :: string ApplicationComponent \<Rightarrow> _" setComp
  by unfold_locales (simp add: compKey_def setComp_def)

interpretation routes: keyed_rows routeKey
    "\<lambda>r x. x\<lparr>r_AppName := r_AppName r, r_ComponentName := r_ComponentName r, r_UpstreamName := r_UpstreamName r, r_Priority := r_Priority r\<rparr>"
  by unfold_locales (simp add: routeKey_def)

definition appModelOK :: "tables \<Rightarrow> bool" where
  "appModelOK t \<longleftrightarrow> uniqueBy appKey (application t) \<and> uniqueBy compKey (application_component t) \<and>
     uniqueBy routeKey (route_binding t)"

datatype appOp =
    PutApp "smap Application" | DelApp string string
  | PutComp "smap ApplicationComponent" | DelComp string string string
  | PutRoute RouteBinding | DelRoute string string string

fun runApp :: "appOp \<Rightarrow> db \<Rightarrow> db" where
  "runApp (PutApp a) d = snd (UpsertApplication a d)"
| "runApp (DelApp ns n) d = snd (DeleteApplication ns n d)"
| "runApp (PutComp c) d = snd (UpsertComponent c d)"
| "runApp (DelComp ns a n) d = snd (DeleteComponent ns a n d)"
| "runApp (PutRoute r) d = snd (UpsertRoute r d)"
| "runApp (DelRoute ns dm p) d = snd (DeleteRoute ns dm p d)"

lemma key_rows [simp]: "appKey (appRow a) = appKey a" "compKey (compRow c) = compKey c"
  by (simp_all add: appKey_def appRow_def compKey_def compRow_def)

lemma pres_PutApp: "preserves (dbinv appModelOK) (UpsertApplication a)"
  unfolding UpsertApplication_def GetApplication_def
  by (intro pres_intros)
    (auto simp: appModelOK_def apps.unique_update case_prod_beta Let_def dest: uniqueBy_insertUnique)

lemma pres_PutComp: "preserves (dbinv appModelOK) (UpsertComponent c)"
  unfolding UpsertComponent_def GetComponent_def
  by (intro pres_intros)
    (auto simp: appModelOK_def comps.unique_update case_prod_beta Let_def dest: uniqueBy_insertUnique)

lemma pres_DelApp: "preserves (dbinv appModelOK) (DeleteApplication ns n)"
  unfolding DeleteApplication_def by (intro pres_intros) (auto simp: appModelOK_def uniqueBy_deleteWhere)

lemma pres_DelComp: "preserves (dbinv appModelOK) (DeleteComponent ns a n)"
  unfolding DeleteComponent_def by (intro pres_intros) (auto simp: appModelOK_def uniqueBy_deleteWhere)

lemma pres_PutRoute: "preserves (dbinv appModelOK) (UpsertRoute r)"
  unfolding UpsertRoute_def
  by (intro pres_intros) (auto simp: appModelOK_def routeKey_def intro: uniqueBy_upsertRow)

lemma pres_DelRoute: "preserves (dbinv appModelOK) (DeleteRoute ns dm p)"
  unfolding DeleteRoute_def by (intro pres_intros) (auto simp: appModelOK_def uniqueBy_deleteWhere)

lemmas app_pres = pres_PutApp pres_PutComp pres_DelApp pres_DelComp pres_PutRoute pres_DelRoute

lemma runApp_inv: "dbinv appModelOK d \<Longrightarrow> dbinv appModelOK (runApp a d)"
  by (cases a) (simp_all add: app_pres [THEN preservesD])

lemma quiet_GetComponent:
  assumes "script d = []" "uniqueBy compKey (application_component (tabs d))"
  shows "GetComponent ns app name d =
    (Inr (map_option scanComponent (lookupBy compKey (application_component (tabs d)) (ns, app, name))), d)"
  using assms by (simp add: GetComponent_def go_simps comps.filter_key split: option.split)

lemma scan_compRow:
  "scanComponent (compRow c) = c\<lparr>ac_Metadata := decodeMeta (encodeMeta (ac_Metadata c))\<rparr>"
  by (simp add: scanComponent_def compRow_def)

lemma setComp_row: "compKey r = compKey c \<Longrightarrow> setComp (compRow c) r = compRow c"
  by (cases r) (simp add: setComp_def compRow_def compKey_def)

lemma UpsertComponent_quiet:
  assumes "script d = []" "uniqueBy compKey (application_component (tabs d))"
  shows "\<exists>cs'. UpsertComponent c d = (Inr (lookupBy compKey (application_component (tabs d)) (compKey c) = None),
      d\<lparr>tabs := (tabs d)\<lparr>application_component := cs'\<rparr>\<rparr>) \<and> uniqueBy compKey cs' \<and> lookupBy compKey cs' (compKey c) = Some (compRow c)"
proof (intro exI conjI)
  let ?cs = "application_component (tabs d)"
  have k: "compKey c = (ac_NamespaceId c, ac_AppName c, ac_Name c)" by (simp add: compKey_def)
  define cs' where "cs' = (if lookupBy compKey ?cs (compKey c) = None then ?cs @ [compRow c]
    else updateWhere (\<lambda>r. compKey r = compKey c) (setComp (compRow c)) ?cs)"
  show "UpsertComponent c d = (Inr (lookupBy compKey ?cs (compKey c) = None), d\<lparr>tabs := (tabs d)\<lparr>application_component := cs'\<rparr>\<rparr>)"
    using assms(1) comps.lookup_None [of ?cs "compKey c"]
    by (auto simp: UpsertComponent_def quiet_GetComponent [OF assms] k [symmetric] go_simps cs'_def insertUnique_def split: option.split)
  show "uniqueBy compKey cs'"
  proof (cases "lookupBy compKey ?cs (compKey c)")
    case None
    then have "compKey c \<notin> compKey ` set ?cs" by (simp add: comps.lookup_None)
    then show ?thesis using None assms(2) by (simp add: cs'_def uniqueBy_def)
  qed (use assms(2) in \<open>simp add: cs'_def comps.unique_update\<close>)
  show "lookupBy compKey cs' (compKey c) = Some (compRow c)"
  proof (cases "lookupBy compKey ?cs (compKey c)")
    case None
    then show ?thesis using comps.lookup_snoc [of "compRow c" ?cs] by (simp add: cs'_def comps.lookup_None)
  next
    case (Some r)
    then have "compKey r = compKey c" using comps.lookup_Some by blast
    then show ?thesis using Some by (simp add: cs'_def comps.lookup_update setComp_row)
  qed
qed

text \<open>A component reads back as declared: after an undisturbed upsert the component under its key has
  every declared field and the same metadata bindings (given as valid UTF-8), and the result says
  whether it is new.\<close>

theorem component_upsert_get:
  assumes "script d = []" "appModelOK (tabs d)" "metaUtf8 (ac_Metadata c)"
  shows "\<exists>d' m. UpsertComponent c d = (Inr (lookupBy compKey (application_component (tabs d)) (compKey c) = None), d') \<and>
    fst (GetComponent (ac_NamespaceId c) (ac_AppName c) (ac_Name c) d') = Inr (Some (c\<lparr>ac_Metadata := m\<rparr>)) \<and>
    map_of m = map_of (ac_Metadata c)"
proof -
  have k: "(ac_NamespaceId c, ac_AppName c, ac_Name c) = compKey c" by (simp add: compKey_def)
  obtain cs' where ups: "UpsertComponent c d = (Inr (lookupBy compKey (application_component (tabs d)) (compKey c) = None),
      d\<lparr>tabs := (tabs d)\<lparr>application_component := cs'\<rparr>\<rparr>)"
    and "uniqueBy compKey cs'" "lookupBy compKey cs' (compKey c) = Some (compRow c)"
    using UpsertComponent_quiet [OF assms(1), of c] assms(2) by (auto simp: appModelOK_def)
  then have "fst (GetComponent (ac_NamespaceId c) (ac_AppName c) (ac_Name c) (d\<lparr>tabs := (tabs d)\<lparr>application_component := cs'\<rparr>\<rparr>)) =
      Inr (Some (c\<lparr>ac_Metadata := decodeMeta (encodeMeta (ac_Metadata c))\<rparr>))"
    using assms(1) by (simp add: quiet_GetComponent k scan_compRow)
  moreover have "map_of (decodeMeta (encodeMeta (ac_Metadata c))) = map_of (ac_Metadata c)"
    using assms(3) by (rule map_of_decode_encode)
  ultimately show ?thesis using ups by blast
qed

definition sampleComponent :: "smap ApplicationComponent" where
  "sampleComponent = \<lparr>ac_NamespaceId = ''public'', ac_AppName = ''shop'', ac_Name = ''api'', ac_Kind = ''api'',
     ac_Protocol = ''http'', ac_ServiceName = ''svc'', ac_GroupName = ''DEFAULT_GROUP'', ac_ClusterName = '''',
     ac_HealthPath = ''/'', ac_Weight = 1, ac_LBAlgorithm = ''round_robin'', ac_Sticky = '''',
     ac_Metadata = [(''stripPrefix'', ''true'')]\<rparr>"

theorem component_upsert_get_witness:
  "\<exists>d' m. UpsertComponent sampleComponent \<lparr>tabs = empty_tables, script = []\<rparr> = (Inr True, d') \<and>
    fst (GetComponent ''public'' ''shop'' ''api'' d') = Inr (Some (sampleComponent\<lparr>ac_Metadata := m\<rparr>)) \<and>
    map_of m = [''stripPrefix'' \<mapsto> ''true'']"
proof -
  have "metaUtf8 (ac_Metadata sampleComponent)" by code_simp
  from component_upsert_get [OF _ _ this, of "\<lparr>tabs = empty_tables, script = []\<rparr>"] show ?thesis
    by (auto simp: appModelOK_def empty_tables_def lookupBy_def sampleComponent_def)
qed

subsection \<open>No route without its component\<close>

definition routeComp :: "RouteBinding \<Rightarrow> string \<times> string \<times> string" where
  "routeComp r = (r_NamespaceId r, r_AppName r, r_ComponentName r)"

definition noDangling :: "tables \<Rightarrow> bool" where
  "noDangling t \<longleftrightarrow> routeComp ` set (route_binding t) \<subseteq> compKey ` set (application_component t)"

lemma noDangling_delRoutes: "noDangling t \<Longrightarrow> noDangling (t\<lparr>route_binding := deleteWhere p (route_binding t)\<rparr>)"
  by (auto simp: noDangling_def)

lemma noDangling_delComps:
  assumes "noDangling t" "\<And>x c. x \<in> set (route_binding t) \<Longrightarrow> compKey c = routeComp x \<Longrightarrow> \<not> p c"
  shows "noDangling (t\<lparr>application_component := deleteWhere p (application_component t)\<rparr>)"
  unfolding noDangling_def
proof (rule image_subsetI)
  fix x assume x: "x \<in> set (route_binding (t\<lparr>application_component := deleteWhere p (application_component t)\<rparr>))"
  then have x': "x \<in> set (route_binding t)" by simp
  then obtain c where c: "c \<in> set (application_component t)" "compKey c = routeComp x"
    using assms(1) unfolding noDangling_def by (metis image_iff image_subset_iff)
  then have "\<not> p c" using assms(2) x' by blast
  then show "routeComp x \<in> compKey ` set (application_component (t\<lparr>application_component := deleteWhere p (application_component t)\<rparr>))"
    using c by (intro image_eqI [of _ _ c]) auto
qed

lemma dangling_DelComp: "triple noDangling (DeleteComponent ns app name) (\<lambda>r. noDangling)"
  unfolding DeleteComponent_def
proof (rule triple_bind [where R = "\<lambda>r t. noDangling t \<and> (r = Inr () \<longrightarrow> (\<forall>x\<in>set (route_binding t). routeComp x \<noteq> (ns, app, name)))"])
  fix a :: unit
  show "triple (\<lambda>t. noDangling t \<and> (Inr a = Inr () \<longrightarrow> (\<forall>x\<in>set (route_binding t). routeComp x \<noteq> (ns, app, name))))
     (exec (\<lambda>t. (Inr (), t\<lparr>application_component := deleteWhere (\<lambda>c. compKey c = (ns, app, name)) (application_component t)\<rparr>)))
     (\<lambda>r. noDangling)"
    by (rule triple_exec) (auto intro!: noDangling_delComps)
qed (rule triple_exec, auto simp: noDangling_delRoutes routeComp_def)

lemma dangling_DelApp: "triple noDangling (DeleteApplication ns name) (\<lambda>r. noDangling)"
  unfolding DeleteApplication_def
proof (rule triple_bind [where R = "\<lambda>r t. noDangling t \<and> (r = Inr () \<longrightarrow> (\<forall>x\<in>set (route_binding t). \<not> (r_NamespaceId x = ns \<and> r_AppName x = name)))"])
  fix a :: unit
  have 1: "triple (\<lambda>t. noDangling t \<and> (\<forall>x\<in>set (route_binding t). \<not> (r_NamespaceId x = ns \<and> r_AppName x = name)))
     (exec (\<lambda>t. (Inr (), t\<lparr>application_component := deleteWhere (\<lambda>c. ac_NamespaceId c = ns \<and> ac_AppName c = name) (application_component t)\<rparr>)))
     (\<lambda>r. noDangling)"
    by (rule triple_exec) (auto intro!: noDangling_delComps simp: compKey_def routeComp_def)
  have 2: "triple noDangling (exec (\<lambda>t. (Inr (), t\<lparr>application := deleteWhere (\<lambda>a. appKey a = (ns, name)) (application t)\<rparr>))) (\<lambda>r. noDangling)"
    by (rule triple_exec) (simp_all add: noDangling_def)
  show "triple (\<lambda>t. noDangling t \<and> (Inr a = Inr () \<longrightarrow> (\<forall>x\<in>set (route_binding t). \<not> (r_NamespaceId x = ns \<and> r_AppName x = name))))
     (bindS (exec (\<lambda>t. (Inr (), t\<lparr>application_component := deleteWhere (\<lambda>c. ac_NamespaceId c = ns \<and> ac_AppName c = name) (application_component t)\<rparr>)))
       (\<lambda>_. exec (\<lambda>t. (Inr (), t\<lparr>application := deleteWhere (\<lambda>a. appKey a = (ns, name)) (application t)\<rparr>))))
     (\<lambda>r. noDangling)"
    using triple_bind [OF 1 _ 2] by simp
qed (rule triple_exec, auto simp: noDangling_delRoutes)

lemma dangling_PutComp: "triple noDangling (UpsertComponent c) (\<lambda>r. noDangling)"
proof -
  have get: "triple noDangling (GetComponent ns app name) (\<lambda>r. noDangling)" for ns app name
    unfolding GetComponent_def
    by (rule triple_try [where R = "\<lambda>_. noDangling"], rule triple_queryRow) (auto intro!: triple_if intro: triple_ret triple_fail)
  have upd: "triple noDangling (exec (\<lambda>t. (Inr (), t\<lparr>application_component :=
      updateWhere (\<lambda>r. compKey r = compKey c) (setComp (compRow c)) (application_component t)\<rparr>))) (\<lambda>r. noDangling)"
  proof (rule triple_exec)
    fix t assume "noDangling t"
    moreover have "compKey ` set (updateWhere (\<lambda>r. compKey r = compKey c) (setComp (compRow c)) (application_component t)) =
        compKey ` set (application_component t)"
      using map_updateWhere [of compKey "setComp (compRow c)", OF comps.key_upd] by (metis list.set_map)
    ultimately show "noDangling (snd (Inr (), t\<lparr>application_component :=
        updateWhere (\<lambda>r. compKey r = compKey c) (setComp (compRow c)) (application_component t)\<rparr>))"
      by (simp add: noDangling_def)
  qed
  have ins: "triple noDangling (exec (\<lambda>t. let (r, cs) = insertUnique compKey (compRow c) (application_component t)
      in (r, t\<lparr>application_component := cs\<rparr>))) (\<lambda>r. noDangling)"
    by (rule triple_exec) (auto simp: noDangling_def insertUnique_def)
  show ?thesis unfolding UpsertComponent_def
    by (rule triple_bind [OF get]) (auto intro!: triple_if triple_bind [OF upd] triple_bind [OF ins [unfolded Let_def]] intro: triple_ret)
qed

lemma dangling_PutApp: "triple noDangling (UpsertApplication a) (\<lambda>r. noDangling)"
proof -
  have get: "triple noDangling (GetApplication ns name) (\<lambda>r. noDangling)" for ns name
    unfolding GetApplication_def
    by (rule triple_try [where R = "\<lambda>_. noDangling"], rule triple_queryRow) (auto intro!: triple_if intro: triple_ret triple_fail)
  show ?thesis unfolding UpsertApplication_def
    by (rule triple_bind [OF get])
      (auto simp: noDangling_def Let_def case_prod_beta intro!: triple_if triple_bind [where R = "\<lambda>_. noDangling"] triple_exec intro: triple_ret)
qed

lemma dangling_DelRoute: "triple noDangling (DeleteRoute ns dm p) (\<lambda>r. noDangling)"
  unfolding DeleteRoute_def by (rule triple_exec) (auto simp: noDangling_def)

lemmas app_triples = dangling_DelComp dangling_DelApp dangling_PutComp dangling_PutApp dangling_DelRoute

definition writesRoute :: "appOp \<Rightarrow> bool" where
  "writesRoute a \<longleftrightarrow> (case a of PutRoute _ \<Rightarrow> True | _ \<Rightarrow> False)"

lemma runApp_dangling:
  "alone (script d) \<Longrightarrow> noDangling (tabs d) \<Longrightarrow> \<not> writesRoute a \<Longrightarrow>
   alone (script (runApp a d)) \<and> noDangling (tabs (runApp a d))"
  using app_triples unfolding triple_def by (cases a) (simp_all add: writesRoute_def)



subsection \<open>Prefixes match whole segments, and the best route wins\<close>

lemma segments_prefix:
  "(\<exists>rest. splitOn c path = splitOn c p @ rest) \<longleftrightarrow> path = p \<or> hasPrefix path (p @ [c])"
proof
  assume "\<exists>rest. splitOn c path = splitOn c p @ rest"
  then obtain rest where r: "splitOn c path = splitOn c p @ rest" by blast
  show "path = p \<or> hasPrefix path (p @ [c])"
  proof (cases rest)
    case Nil
    then show ?thesis using r by (metis append_Nil2 join_split)
  next
    case (Cons x xs)
    have "path = joinWith [c] (splitOn c p @ rest)" using r by (metis join_split)
    also have "\<dots> = p @ [c] @ joinWith [c] rest" using Cons by (simp add: joinWith_append join_split)
    finally show ?thesis by (auto simp: hasPrefix_iff)
  qed
next
  assume "path = p \<or> hasPrefix path (p @ [c])"
  then show "\<exists>rest. splitOn c path = splitOn c p @ rest"
    by (auto simp: hasPrefix_iff splitOn_append_sep)
qed

text \<open>A route prefix matches whole path segments: it matches a path exactly when, without one
  trailing slash, it is empty or its slash-separated segments are the first segments of the path.  So
  \<^verbatim>\<open>/api\<close> matches \<^verbatim>\<open>/api/x\<close> and never \<^verbatim>\<open>/apixyz\<close>.\<close>

theorem pathPrefixMatches_segments:
  "pathPrefixMatches pfx path \<longleftrightarrow>
     trimSuffix pfx ''/'' = '''' \<or>
     (\<exists>rest. splitOn (CHR ''/'') path = splitOn (CHR ''/'') (trimSuffix pfx ''/'') @ rest)"
proof -
  have e: "trimSuffix '''' ''/'' = ''''" "trimSuffix ''/'' ''/'' = ''''"
    by (simp_all add: trimSuffix_def hasSuffix_def hasPrefix_def)
  show ?thesis unfolding segments_prefix pathPrefixMatches_def Let_def using e by auto
qed

definition routeMatches :: "string \<Rightarrow> string \<Rightarrow> RouteBinding \<Rightarrow> bool" where
  "routeMatches domain path r \<longleftrightarrow> equalFold (r_Domain r) domain \<and> pathPrefixMatches (r_PathPrefix r) path"

interpretation better_route: strict_weak_order betterRoute
  by unfold_locales (auto simp: betterRoute_def)

lemma matchLoop_spec:
  "matchLoop domain path rs best = Some b \<Longrightarrow>
   (best = Some b \<or> b \<in> set rs \<and> routeMatches domain path b) \<and>
   (\<forall>r\<in>set rs. routeMatches domain path r \<longrightarrow> \<not> betterRoute r b) \<and> (\<forall>x. best = Some x \<longrightarrow> \<not> betterRoute x b)"
proof (induction rs arbitrary: best)
  case Nil
  then show ?case using better_route.less_irrefl by auto
next
  case (Cons r rs)
  show ?case
  proof (cases "routeMatches domain path r")
    case False
    then have "matchLoop domain path rs best = Some b" using Cons.prems by (auto simp: routeMatches_def split: if_splits)
    from Cons.IH [OF this] False show ?thesis by auto
  next
    case True
    define best' where "best' = (case best of None \<Rightarrow> Some r | Some x \<Rightarrow> if betterRoute r x then Some r else best)"
    have "matchLoop domain path rs best' = Some b" using Cons.prems True by (auto simp: routeMatches_def best'_def)
    note IH = Cons.IH [OF this]
    obtain y where y: "best' = Some y" by (cases best; cases "betterRoute r (the best)") (auto simp: best'_def)
    have nb: "\<not> betterRoute y b" using IH y by blast
    have "\<not> betterRoute r y" "\<forall>x. best = Some x \<longrightarrow> \<not> betterRoute x y"
      using y better_route.less_irrefl better_route.less_asym by (auto simp: best'_def split: option.splits if_splits)
    then have "\<not> betterRoute r b" "\<forall>x. best = Some x \<longrightarrow> \<not> betterRoute x b"
      using nb better_route.less_cotrans by blast+
    moreover have "best' = Some b \<longrightarrow> best = Some b \<or> b = r" by (auto simp: best'_def split: option.splits if_splits)
    ultimately show ?thesis using IH True by auto
  qed
qed

lemma matchLoop_None:
  "matchLoop domain path rs best = None \<longleftrightarrow> best = None \<and> (\<forall>r\<in>set rs. \<not> routeMatches domain path r)"
  by (induction rs arbitrary: best) (auto simp: routeMatches_def split: option.splits)

text \<open>The resolve API answers the most specific route: it finds none exactly when no route of the
  namespace matches domain and path, and otherwise a matching one than which no matching route has a
  longer prefix, or the same length and a smaller priority number.\<close>

theorem matchRoute_most_specific:
  assumes "script d = []"
  shows "\<exists>res. matchRoute ns domain path d = (Inr res, d) \<and>
    (case res of
       None \<Rightarrow> \<forall>r\<in>set (route_binding (tabs d)). r_NamespaceId r = ns \<longrightarrow> \<not> routeMatches domain (if path = '''' then ''/'' else path) r
     | Some b \<Rightarrow> b \<in> set (route_binding (tabs d)) \<and> r_NamespaceId b = ns \<and> routeMatches domain (if path = '''' then ''/'' else path) b \<and>
         (\<forall>r\<in>set (route_binding (tabs d)). r_NamespaceId r = ns \<and> routeMatches domain (if path = '''' then ''/'' else path) r \<longrightarrow>
            length (r_PathPrefix r) < length (r_PathPrefix b) \<or>
            length (r_PathPrefix r) = length (r_PathPrefix b) \<and> r_Priority b \<le> r_Priority r))"
proof -
  define p where "p = (if path = '''' then ''/'' else path)"
  define res where "res = matchLoop domain p (routesOf ns (tabs d)) None"
  have m: "matchRoute ns domain path d = (Inr res, d)"
    using assms by (simp add: matchRoute_def ListRoutes_def go_simps res_def p_def)
  have "case res of
       None \<Rightarrow> \<forall>r\<in>set (route_binding (tabs d)). r_NamespaceId r = ns \<longrightarrow> \<not> routeMatches domain p r
     | Some b \<Rightarrow> b \<in> set (route_binding (tabs d)) \<and> r_NamespaceId b = ns \<and> routeMatches domain p b \<and>
         (\<forall>r\<in>set (route_binding (tabs d)). r_NamespaceId r = ns \<and> routeMatches domain p r \<longrightarrow>
            length (r_PathPrefix r) < length (r_PathPrefix b) \<or>
            length (r_PathPrefix r) = length (r_PathPrefix b) \<and> r_Priority b \<le> r_Priority r)"
  proof (cases res)
    case None
    then have "\<forall>r\<in>set (routesOf ns (tabs d)). \<not> routeMatches domain p r" using matchLoop_None by (auto simp: res_def)
    then show ?thesis using None by (simp add: routesOf_def)
  next
    case (Some b)
    then have "matchLoop domain p (routesOf ns (tabs d)) None = Some b" by (simp add: res_def)
    from matchLoop_spec [OF this] show ?thesis using Some by (auto simp: routesOf_def betterRoute_def)
  qed
  then show ?thesis using m unfolding p_def by blast
qed

definition sampleRoute :: RouteBinding where
  "sampleRoute = \<lparr>r_NamespaceId = ''public'', r_Domain = ''example.com'', r_PathPrefix = ''/api'', r_AppName = ''shop'',
     r_ComponentName = ''api'', r_UpstreamName = '''', r_Priority = 0\<rparr>"

theorem matchRoute_most_specific_witness:
  "\<exists>res. matchRoute ''public'' ''Example.com'' ''/api/v1'' \<lparr>tabs = empty_tables\<lparr>route_binding := [sampleRoute]\<rparr>, script = []\<rparr> =
     (Inr res, \<lparr>tabs = empty_tables\<lparr>route_binding := [sampleRoute]\<rparr>, script = []\<rparr>)"
  using matchRoute_most_specific [of "\<lparr>tabs = empty_tables\<lparr>route_binding := [sampleRoute]\<rparr>, script = []\<rparr>" "''public''" "''Example.com''" "''/api/v1''"]
  by auto

end
