(* ===== verification/GatewayStore.thy ===== *)
theory GatewayStore
  imports Metadata
begin

text \<open>
  Persistence of the gateway's control plane (\<^verbatim>\<open>internal/storage/gatewaystore.go\<close>): one certificate and
  one traffic policy per domain.  Instants are Unix nanoseconds; \<open>tenYears\<close> stands for
  \<^verbatim>\<open>time.Now().AddDate(10, 0, 0)\<close>.
\<close>

definition zeroTime :: int where
  "zeroTime = - 62135596800 * 10 ^ 9"

definition certKey :: "Certificate \<Rightarrow> string \<times> string" where
  "certKey c = (cert_NamespaceId c, cert_Domain c)"

definition vhostKey :: "'m VHostPolicy \<Rightarrow> string \<times> string" where
  "vhostKey v = (v_NamespaceId v, v_Domain v)"

subsection \<open>Certificates\<close>

definition GetCertificate :: "string \<Rightarrow> string \<Rightarrow> Certificate option dbop" where
  "GetCertificate ns domain =
     tryS (queryRow (\<lambda>t. filter (\<lambda>c. certKey c = (ns, domain)) (gateway_certificate t)))
       (\<lambda>e. if e = ErrNoRows then retS None else failS e)
       (\<lambda>c. retS (Some c))"

definition certDefaults :: "int \<Rightarrow> int \<Rightarrow> Certificate \<Rightarrow> Certificate" where
  "certDefaults now tenYears c =
     c\<lparr>cert_Source := (if cert_Source c = '''' then ''manual'' else cert_Source c),
       cert_Status := (if cert_Status c = '''' then ''active'' else cert_Status c),
       cert_RenewBeforeDays := (if cert_RenewBeforeDays c \<le> 0 then 21 else cert_RenewBeforeDays c),
       cert_NotBefore := (if cert_NotBefore c = zeroTime then now else cert_NotBefore c),
       cert_NotAfter := (if cert_NotAfter c = zeroTime then tenYears else cert_NotAfter c)\<rparr>"

definition setCert :: "Certificate \<Rightarrow> Certificate \<Rightarrow> Certificate" where
  "setCert c r = r\<lparr>cert_Source := cert_Source c, cert_Issuer := cert_Issuer c, cert_CertPEM := cert_CertPEM c,
     cert_KeyPEM := cert_KeyPEM c, cert_NotBefore := cert_NotBefore c, cert_NotAfter := cert_NotAfter c,
     cert_RenewBeforeDays := cert_RenewBeforeDays c, cert_AcmeOrderURL := cert_AcmeOrderURL c,
     cert_Status := cert_Status c, cert_LastError := cert_LastError c\<rparr>"

definition UpsertCertificate :: "int \<Rightarrow> int \<Rightarrow> Certificate \<Rightarrow> bool dbop" where
  "UpsertCertificate now tenYears c0 =
     (let c = certDefaults now tenYears c0
      in bindS (GetCertificate (cert_NamespaceId c) (cert_Domain c))
           (\<lambda>existing. if existing \<noteq> None then
                bindS (exec (\<lambda>t. (Inr (), t\<lparr>gateway_certificate :=
                    updateWhere (\<lambda>r. certKey r = certKey c) (setCert c) (gateway_certificate t)\<rparr>)))
                  (\<lambda>_. retS False)
              else bindS (exec (\<lambda>t. let (r, cs) = insertUnique certKey c (gateway_certificate t)
                                   in (r, t\<lparr>gateway_certificate := cs\<rparr>)))
                  (\<lambda>_. retS True)))"

definition ListCertificates :: "string \<Rightarrow> Certificate list dbop" where
  "ListCertificates ns =
     query (\<lambda>t. sliceStable (\<lambda>a b. cert_Domain a < cert_Domain b)
       (filter (\<lambda>c. cert_NamespaceId c = ns) (gateway_certificate t)))"

definition ListCertificatesExpiringBefore :: "string \<Rightarrow> int \<Rightarrow> Certificate list dbop" where
  "ListCertificatesExpiringBefore ns before =
     query (\<lambda>t. sliceStable (\<lambda>a b. cert_NotAfter a < cert_NotAfter b)
       (filter (\<lambda>c. cert_NamespaceId c = ns \<and> cert_NotAfter c \<le> before) (gateway_certificate t)))"

definition SetCertificateStatus :: "string \<Rightarrow> string \<Rightarrow> string \<Rightarrow> string \<Rightarrow> unit dbop" where
  "SetCertificateStatus ns domain status lastErr =
     exec (\<lambda>t. (Inr (), t\<lparr>gateway_certificate :=
       updateWhere (\<lambda>c. certKey c = (ns, domain)) (\<lambda>c. c\<lparr>cert_Status := status, cert_LastError := lastErr\<rparr>)
         (gateway_certificate t)\<rparr>))"

definition DeleteCertificate :: "string \<Rightarrow> string \<Rightarrow> unit dbop" where
  "DeleteCertificate ns domain =
     exec (\<lambda>t. (Inr (), t\<lparr>gateway_certificate := deleteWhere (\<lambda>c. certKey c = (ns, domain)) (gateway_certificate t)\<rparr>))"

subsection \<open>Traffic policies\<close>

definition vhostRow :: "smap VHostPolicy \<Rightarrow> string VHostPolicy" where
  "vhostRow v = \<lparr>v_NamespaceId = v_NamespaceId v, v_Domain = v_Domain v, v_ForceHTTPS = v_ForceHTTPS v,
     v_HSTSMaxAge = v_HSTSMaxAge v, v_AllowIPs = v_AllowIPs v, v_DenyIPs = v_DenyIPs v,
     v_ClientMaxBodyBytes = v_ClientMaxBodyBytes v, v_ConnectTimeoutMS = v_ConnectTimeoutMS v,
     v_ReadTimeoutMS = v_ReadTimeoutMS v, v_SendTimeoutMS = v_SendTimeoutMS v, v_Websocket = v_Websocket v,
     v_Metadata = encodeMeta (v_Metadata v)\<rparr>"

definition scanVHost :: "string VHostPolicy \<Rightarrow> smap VHostPolicy" where
  "scanVHost v = \<lparr>v_NamespaceId = v_NamespaceId v, v_Domain = v_Domain v, v_ForceHTTPS = v_ForceHTTPS v,
     v_HSTSMaxAge = v_HSTSMaxAge v, v_AllowIPs = v_AllowIPs v, v_DenyIPs = v_DenyIPs v,
     v_ClientMaxBodyBytes = v_ClientMaxBodyBytes v, v_ConnectTimeoutMS = v_ConnectTimeoutMS v,
     v_ReadTimeoutMS = v_ReadTimeoutMS v, v_SendTimeoutMS = v_SendTimeoutMS v, v_Websocket = v_Websocket v,
     v_Metadata = decodeMeta (v_Metadata v)\<rparr>"

definition setVHost :: "string VHostPolicy \<Rightarrow> string VHostPolicy \<Rightarrow> string VHostPolicy" where
  "setVHost v r = r\<lparr>v_ForceHTTPS := v_ForceHTTPS v, v_HSTSMaxAge := v_HSTSMaxAge v, v_AllowIPs := v_AllowIPs v,
     v_DenyIPs := v_DenyIPs v, v_ClientMaxBodyBytes := v_ClientMaxBodyBytes v,
     v_ConnectTimeoutMS := v_ConnectTimeoutMS v, v_ReadTimeoutMS := v_ReadTimeoutMS v,
     v_SendTimeoutMS := v_SendTimeoutMS v, v_Websocket := v_Websocket v, v_Metadata := v_Metadata v\<rparr>"

definition GetVHost :: "string \<Rightarrow> string \<Rightarrow> smap VHostPolicy option dbop" where
  "GetVHost ns domain =
     tryS (queryRow (\<lambda>t. map scanVHost (filter (\<lambda>v. vhostKey v = (ns, domain)) (gateway_vhost t))))
       (\<lambda>e. if e = ErrNoRows then retS None else failS e)
       (\<lambda>v. retS (Some v))"

definition UpsertVHost :: "smap VHostPolicy \<Rightarrow> bool dbop" where
  "UpsertVHost v =
     bindS (GetVHost (v_NamespaceId v) (v_Domain v))
       (\<lambda>existing. if existing \<noteq> None then
            bindS (exec (\<lambda>t. (Inr (), t\<lparr>gateway_vhost :=
                updateWhere (\<lambda>r. vhostKey r = vhostKey v) (setVHost (vhostRow v)) (gateway_vhost t)\<rparr>)))
              (\<lambda>_. retS False)
          else bindS (exec (\<lambda>t. let (r, vs) = insertUnique vhostKey (vhostRow v) (gateway_vhost t)
                               in (r, t\<lparr>gateway_vhost := vs\<rparr>)))
              (\<lambda>_. retS True))"

definition ListVHosts :: "string \<Rightarrow> smap VHostPolicy list dbop" where
  "ListVHosts ns =
     query (\<lambda>t. map scanVHost (sliceStable (\<lambda>a b. v_Domain a < v_Domain b)
       (filter (\<lambda>v. v_NamespaceId v = ns) (gateway_vhost t))))"

definition DeleteVHost :: "string \<Rightarrow> string \<Rightarrow> unit dbop" where
  "DeleteVHost ns domain =
     exec (\<lambda>t. (Inr (), t\<lparr>gateway_vhost := deleteWhere (\<lambda>v. vhostKey v = (ns, domain)) (gateway_vhost t)\<rparr>))"

subsection \<open>Certificates as a map\<close>

interpretation certs: keyed_rows certKey setCert
  by unfold_locales (simp add: certKey_def setCert_def)

interpretation cert_status: keyed_rows certKey "\<lambda>(s, e) c. c\<lparr>cert_Status := s, cert_LastError := e\<rparr>"
  by unfold_locales (simp add: certKey_def split: prod.split)

interpretation vhosts: keyed_rows "vhostKey :: string VHostPolicy \<Rightarrow> _" setVHost
  by unfold_locales (simp add: vhostKey_def setVHost_def)

definition certLook :: "db \<Rightarrow> string \<times> string \<Rightarrow> Certificate option" where
  "certLook d = lookupBy certKey (gateway_certificate (tabs d))"

definition certStoreOK :: "db \<Rightarrow> bool" where
  "certStoreOK d \<longleftrightarrow> quiet d \<and> uniqueBy certKey (gateway_certificate (tabs d))"

datatype certOp = PutCert int int Certificate | SetStatus string string string string | DropCert string string

fun runCert :: "certOp \<Rightarrow> db \<Rightarrow> db" where
  "runCert (PutCert now ty c) d = snd (UpsertCertificate now ty c d)"
| "runCert (SetStatus ns dm s e) d = snd (SetCertificateStatus ns dm s e d)"
| "runCert (DropCert ns dm) d = snd (DeleteCertificate ns dm d)"

fun certTarget :: "certOp \<Rightarrow> string \<times> string" where
  "certTarget (PutCert now ty c) = certKey c"
| "certTarget (SetStatus ns dm s e) = (ns, dm)"
| "certTarget (DropCert ns dm) = (ns, dm)"

fun certEffect :: "certOp \<Rightarrow> Certificate option \<Rightarrow> Certificate option" where
  "certEffect (PutCert now ty c) v = Some (certDefaults now ty c)"
| "certEffect (SetStatus ns dm s e) v = map_option (\<lambda>c. c\<lparr>cert_Status := s, cert_LastError := e\<rparr>) v"
| "certEffect (DropCert ns dm) v = None"

lemma key_certDefaults [simp]: "certKey (certDefaults now ty c) = certKey c"
  by (simp add: certDefaults_def certKey_def)

lemma setCert_same: "certKey r = certKey c \<Longrightarrow> setCert c r = c"
  by (cases r, cases c) (simp add: setCert_def certKey_def)

lemma GetCertificate_quiet:
  "certStoreOK d \<Longrightarrow> GetCertificate ns dm d = (Inr (certLook d (ns, dm)), d)"
  by (auto simp: certStoreOK_def quiet_def GetCertificate_def go_simps certs.filter_key certLook_def split: option.split)

lemma UpsertCertificate_step:
  assumes "certStoreOK d"
  shows "certStoreOK (snd (UpsertCertificate now ty c d)) \<and>
    certLook (snd (UpsertCertificate now ty c d)) = (certLook d)(certKey c \<mapsto> certDefaults now ty c)"
proof -
  let ?c = "certDefaults now ty c" and ?cs = "gateway_certificate (tabs d)"
  have q: "script d = []" "uniqueBy certKey ?cs" using assms by (auto simp: certStoreOK_def quiet_def)
  have k: "(cert_NamespaceId ?c, cert_Domain ?c) = certKey c"
    by (metis certKey_def key_certDefaults)
  show ?thesis
  proof (cases "certLook d (certKey c)")
    case None
    then have n: "certKey c \<notin> certKey ` set ?cs" by (simp add: certLook_def certs.lookup_None)
    then have "snd (UpsertCertificate now ty c d) = d\<lparr>tabs := (tabs d)\<lparr>gateway_certificate := ?cs @ [?c]\<rparr>\<rparr>"
      using None q(1) by (simp add: UpsertCertificate_def Let_def bindS_def GetCertificate_quiet [OF assms] k retS_def exec_quiet insertUnique_def)
    moreover have "lookupBy certKey (?cs @ [?c]) = (lookupBy certKey ?cs)(certKey c \<mapsto> ?c)"
      using certs.lookup_snoc [of ?c ?cs] n by simp
    ultimately show ?thesis using q n by (simp add: certStoreOK_def quiet_def certLook_def uniqueBy_def)
  next
    case (Some r)
    let ?cs' = "updateWhere (\<lambda>r. certKey r = certKey ?c) (setCert ?c) ?cs"
    have s: "snd (UpsertCertificate now ty c d) = d\<lparr>tabs := (tabs d)\<lparr>gateway_certificate := ?cs'\<rparr>\<rparr>"
      using Some q(1) by (simp add: UpsertCertificate_def Let_def bindS_def GetCertificate_quiet [OF assms] k retS_def exec_quiet)
    have "lookupBy certKey ?cs' k' = ((lookupBy certKey ?cs)(certKey c \<mapsto> ?c)) k'" for k'
    proof (cases "lookupBy certKey ?cs k'")
      case None
      then have "k' \<noteq> certKey c" using Some by (auto simp: certLook_def)
      then show ?thesis using None by (simp add: certs.lookup_update)
    next
      case (Some r')
      then have "certKey r' = k'" using certs.lookup_Some by blast
      then show ?thesis using Some setCert_same [of r' ?c] by (simp add: certs.lookup_update)
    qed
    then show ?thesis using q s by (auto simp: certStoreOK_def quiet_def certLook_def certs.unique_update fun_eq_iff)
  qed
qed

lemma runCert_step:
  assumes "certStoreOK d"
  shows "certStoreOK (runCert a d) \<and> certLook (runCert a d) = (certLook d)(certTarget a := certEffect a (certLook d (certTarget a)))"
proof (cases a)
  case (PutCert now ty c)
  then show ?thesis using UpsertCertificate_step [OF assms] by simp
next
  case (SetStatus ns dm s e)
  have q: "script d = []" "uniqueBy certKey (gateway_certificate (tabs d))" using assms by (auto simp: certStoreOK_def quiet_def)
  let ?cs' = "updateWhere (\<lambda>c. certKey c = (ns, dm)) (\<lambda>c. c\<lparr>cert_Status := s, cert_LastError := e\<rparr>) (gateway_certificate (tabs d))"
  have look: "lookupBy certKey ?cs' k = map_option (\<lambda>c. if certKey c = (ns, dm) then c\<lparr>cert_Status := s, cert_LastError := e\<rparr> else c)
      (lookupBy certKey (gateway_certificate (tabs d)) k)" for k
    using cert_status.lookup_update [of "\<lambda>c. certKey c = (ns, dm)" "(s, e)"] by (simp cong: if_cong)
  have "lookupBy certKey ?cs' k = ((certLook d)((ns, dm) := map_option (\<lambda>c. c\<lparr>cert_Status := s, cert_LastError := e\<rparr>) (certLook d (ns, dm)))) k" for k
    using certs.lookup_Some [of "gateway_certificate (tabs d)" k]
    by (cases "lookupBy certKey (gateway_certificate (tabs d)) k") (auto simp: look certLook_def)
  moreover have "uniqueBy certKey ?cs'" using cert_status.unique_update [OF q(2), of _ "(s, e)"] by simp
  ultimately show ?thesis using SetStatus q(1)
    by (auto simp: SetCertificateStatus_def go_simps certStoreOK_def quiet_def certLook_def fun_eq_iff)
next
  case (DropCert ns dm)
  have q: "script d = []" "uniqueBy certKey (gateway_certificate (tabs d))" using assms by (auto simp: certStoreOK_def quiet_def)
  have "lookupBy certKey (deleteWhere (\<lambda>c. certKey c = (ns, dm)) (gateway_certificate (tabs d))) k = ((certLook d)((ns, dm) := None)) k" for k
    using certs.lookup_Some [of "gateway_certificate (tabs d)" k]
    by (auto simp: certs.lookup_delete [OF q(2)] certLook_def split: option.split)
  then show ?thesis using DropCert q
    by (auto simp: DeleteCertificate_def go_simps certStoreOK_def quiet_def certLook_def uniqueBy_deleteWhere fun_eq_iff)
qed

interpretation cert_store: keyed_store certStoreOK certLook runCert certTarget certEffect
  by unfold_locales (simp_all add: runCert_step del: certEffect.simps)

text \<open>The certificate table is a map by domain: an upload, renewal, status change or deletion
  touches its own domain only, the last upload decides the material (with the code's defaults for
  missing fields), and a deletion makes the domain certificate-free whatever happened to others since.\<close>

theorem certificate_last_write_wins:
  assumes "certStoreOK d" "\<forall>a\<in>set as. certTarget a \<noteq> certKey c"
  shows "fst (GetCertificate (cert_NamespaceId c) (cert_Domain c) (fold runCert as (runCert (PutCert now ty c) d))) =
      Inr (Some (certDefaults now ty c)) \<and>
    fst (GetCertificate (cert_NamespaceId c) (cert_Domain c) (fold runCert as (runCert (DropCert (cert_NamespaceId c) (cert_Domain c)) d))) =
      Inr None"
proof -
  have k: "(cert_NamespaceId c, cert_Domain c) = certKey c" by (simp add: certKey_def)
  have "certLook (fold runCert as (runCert (PutCert now ty c) d)) (certKey c) = Some (certDefaults now ty c)"
    by (rule cert_store.last_writer [OF assms]) simp_all
  moreover have "certLook (fold runCert as (runCert (DropCert (cert_NamespaceId c) (cert_Domain c)) d)) (certKey c) = None"
    by (rule cert_store.last_writer [OF assms]) (simp_all add: k)
  ultimately show ?thesis
    using cert_store.runs_inv [OF cert_store.run_inv [OF assms(1)]] by (simp add: GetCertificate_quiet k del: runCert.simps)
qed

definition sampleCert :: Certificate where
  "sampleCert = \<lparr>cert_NamespaceId = ''public'', cert_Domain = ''a.example'', cert_Source = '''', cert_Issuer = '''',
     cert_CertPEM = ''pem'', cert_KeyPEM = ''key'', cert_NotBefore = 0, cert_NotAfter = 100, cert_RenewBeforeDays = 0,
     cert_AcmeOrderURL = '''', cert_Status = '''', cert_LastError = ''''\<rparr>"

theorem certificate_last_write_wins_witness:
  "fst (GetCertificate ''public'' ''a.example''
      (fold runCert [DropCert ''public'' ''b.example''] (runCert (PutCert 1 2 sampleCert) \<lparr>tabs = empty_tables, script = []\<rparr>))) =
    Inr (Some (certDefaults 1 2 sampleCert))"
  using certificate_last_write_wins [of "\<lparr>tabs = empty_tables, script = []\<rparr>" "[DropCert ''public'' ''b.example'']" sampleCert 1 2]
  by (simp add: certStoreOK_def quiet_def empty_tables_def certKey_def sampleCert_def)

end
