(* ===== verification/RouteTable.thy ===== *)
theory RouteTable
  imports AppModel GatewayStore LoadBalancer
begin

text \<open>
  The gateway's routing snapshot (\<^verbatim>\<open>internal/gateway/routetable.go\<close>): how it is rebuilt from the
  database and how a host and path become a target with forwardable instances.  A Go map is a map here;
  where the code ranges over the map of domains and the order can be observed, the order is an argument
  (\<open>order\<close>, any enumeration of the keys).
\<close>

subsection \<open>Data\<close>

record Target =
  tg_Domain :: string
  tg_PathPrefix :: string
  tg_AppName :: string
  tg_ComponentName :: string
  tg_Kind :: string
  tg_Protocol :: string
  tg_UpstreamName :: string
  tg_LBAlgorithm :: string
  tg_Sticky :: string
  tg_Weight :: rat
  tg_ServiceName :: string
  tg_GroupName :: string
  tg_ClusterName :: string
  tg_HealthPath :: string
  tg_StripPrefix :: bool
  tg_Metadata :: smap
  tg_Instances :: "Instance list"
  tg_PortConflict :: "PortConflict option"

record routeEntry =
  re_route :: RouteBinding
  re_comp :: "smap ApplicationComponent"

record Table =
  tb_domains :: "string \<rightharpoonup> routeEntry list"
  tb_services :: "string \<rightharpoonup> Instance list"
  tb_vhosts :: "string \<rightharpoonup> smap VHostPolicy"
  tb_Domains :: "string list"
  tb_LoadedAt :: int

definition NewTable :: Table where
  "NewTable = \<lparr>tb_domains = Map.empty, tb_services = Map.empty, tb_vhosts = Map.empty, tb_Domains = [], tb_LoadedAt = zeroTime\<rparr>"

definition orDefaultGroup :: "string \<Rightarrow> string" where
  "orDefaultGroup g = (if g = '''' then ''DEFAULT_GROUP'' else g)"

definition serviceKey :: "string \<Rightarrow> string \<Rightarrow> string" where
  "serviceKey g service = orDefaultGroup g @ ''@@'' @ service"

definition targetKeyOf :: "string \<Rightarrow> string \<Rightarrow> string \<Rightarrow> string" where
  "targetKeyOf appName componentName serviceName = appName @ ''/'' @ componentName @ ''/'' @ serviceName"

definition targetKey :: "Target \<Rightarrow> string" where
  "targetKey t = targetKeyOf (tg_AppName t) (tg_ComponentName t) (tg_ServiceName t)"

subsection \<open>Selecting instances\<close>

definition instanceEligible :: "string \<Rightarrow> Instance \<Rightarrow> bool" where
  "instanceEligible cluster i \<longleftrightarrow>
     \<not> (cluster \<noteq> '''' \<and> i_ClusterName i \<noteq> '''' \<and> i_ClusterName i \<noteq> cluster) \<and> i_Enabled i"

definition pickOrder :: "Instance \<Rightarrow> Instance \<Rightarrow> bool" where
  "pickOrder = lexgreater i_Weight (lexless i_IP (\<lambda>a b. i_Port a < i_Port b))"

definition selectInstances :: "Instance list \<Rightarrow> string \<Rightarrow> string \<Rightarrow> Instance list" where
  "selectInstances instances lb cluster = sliceStable pickOrder (filter (instanceEligible cluster) instances)"

definition isBackup :: "Instance \<Rightarrow> bool" where
  "isBackup i \<longleftrightarrow> aget (instMetadata i) ''role'' = ''backup''"

definition dropBackupsWhenPrimaryExists :: "Instance list \<Rightarrow> Instance list" where
  "dropBackupsWhenPrimaryExists instances =
     (if instances = [] then instances
      else if \<not> list_ex (\<lambda>i. \<not> isBackup i) instances then instances
      else filter (\<lambda>i. \<not> isBackup i) instances)"

definition selectForwardable :: "Instance list \<Rightarrow> string \<Rightarrow> string \<Rightarrow> 32 word \<Rightarrow> Instance list \<times> PortConflict option" where
  "selectForwardable instances lb cluster declaredPort =
     (let narrowed = selectInstances instances lb cluster;
          conflict = snd (SelectPortPool narrowed declaredPort);
          forwardable = dropBackupsWhenPrimaryExists narrowed;
          pool = fst (SelectPortPool forwardable declaredPort)
      in (pool, conflict))"

definition stripPrefixRequested :: "smap ApplicationComponent \<Rightarrow> bool" where
  "stripPrefixRequested c \<longleftrightarrow>
     toLower (trimSpace (aget (ac_Metadata c) ''stripPrefix'')) \<in> {''true'', ''1'', ''yes'', ''on''}"

subsection \<open>Rebuilding\<close>

definition entryOrder :: "routeEntry \<Rightarrow> routeEntry \<Rightarrow> bool" where
  "entryOrder =
     lexgreater (\<lambda>e. length (trimSuffix (r_PathPrefix (re_route e)) ''/''))
       (lexless (\<lambda>e. r_Priority (re_route e)) (\<lambda>a b. r_ComponentName (re_route a) < r_ComponentName (re_route b)))"

definition sortRouteEntries :: "routeEntry list \<Rightarrow> routeEntry list" where
  "sortRouteEntries es = sliceStable entryOrder es"

type_synonym comp_index = "string \<rightharpoonup> (string \<rightharpoonup> smap ApplicationComponent)"

definition indexComponents :: "smap ApplicationComponent list \<Rightarrow> string \<rightharpoonup> smap ApplicationComponent" where
  "indexComponents cs = map_of (rev (map (\<lambda>c. (ac_Name c, c)) cs))"

definition entryFor :: "comp_index \<Rightarrow> RouteBinding \<Rightarrow> routeEntry option" where
  "entryFor comps r =
     (case comps (r_AppName r) of
        None \<Rightarrow> None
      | Some byApp \<Rightarrow>
          (case byApp (r_ComponentName r) of None \<Rightarrow> None | Some c \<Rightarrow> Some \<lparr>re_route = r, re_comp = c\<rparr>))"

fun groupRoutes :: "comp_index \<Rightarrow> RouteBinding list \<Rightarrow> (string \<rightharpoonup> routeEntry list) \<Rightarrow> string list \<Rightarrow>
    (string \<rightharpoonup> routeEntry list) \<times> string list" where
  "groupRoutes comps [] domains seen = (domains, seen)"
| "groupRoutes comps (r # rs) domains seen =
     (case entryFor comps r of
        None \<Rightarrow> groupRoutes comps rs domains seen
      | Some e \<Rightarrow>
          let d = NormalizeDomain (r_Domain r)
          in groupRoutes comps rs (domains(d \<mapsto> mget [] domains d @ [e])) (if d \<in> set seen then seen else seen @ [d]))"

fun loadServices :: "int option \<Rightarrow> int \<Rightarrow> string \<Rightarrow> routeEntry list \<Rightarrow> (string \<rightharpoonup> Instance list) \<Rightarrow> (string \<rightharpoonup> Instance list) dbop" where
  "loadServices hb now ns [] m = retS m"
| "loadServices hb now ns (e # es) m =
     (let key = serviceKey (ac_GroupName (re_comp e)) (ac_ServiceName (re_comp e))
      in if m key \<noteq> None then loadServices hb now ns es m
         else bindS (ListInstances hb now \<lparr>iq_NamespaceId = ns, iq_GroupName = ac_GroupName (re_comp e),
                       iq_ServiceName = ac_ServiceName (re_comp e), iq_Clusters = ac_ClusterName (re_comp e),
                       iq_HealthyOnly = True\<rparr>)
                (\<lambda>instances. loadServices hb now ns es (m(key \<mapsto> instances))))"

definition indexVHosts :: "smap VHostPolicy list \<Rightarrow> string \<rightharpoonup> smap VHostPolicy" where
  "indexVHosts vs = map_of (rev (map (\<lambda>v. (NormalizeDomain (v_Domain v), v)) vs))"

definition buildTable :: "int option \<Rightarrow> int \<Rightarrow> (string list \<Rightarrow> string list) \<Rightarrow> string \<Rightarrow> Table dbop" where
  "buildTable hb now order ns =
     bindS (ListRoutes ns) (\<lambda>routes.
     bindS (ListApplications ns) (\<lambda>apps.
     bindS (ListVHosts ns) (\<lambda>vhosts.
     bindS (mapS (\<lambda>a. bindS (ListComponents ns (a_Name a)) (\<lambda>l. retS (a_Name a, indexComponents l))) apps) (\<lambda>comps.
     (let (domains0, seen) = groupRoutes (map_of (rev comps)) routes Map.empty [];
          domains = (\<lambda>d. map_option sortRouteEntries (domains0 d))
      in bindS (loadServices hb now ns (concat (map (\<lambda>d. mget [] domains d) (order seen))) Map.empty)
           (\<lambda>services. retS \<lparr>tb_domains = domains, tb_services = services, tb_vhosts = indexVHosts vhosts,
                          tb_Domains = sort seen, tb_LoadedAt = now\<rparr>))))))"

text \<open>\<^verbatim>\<open>Table.Refresh\<close>: an error leaves the snapshot as it was.\<close>

definition Refresh :: "int option \<Rightarrow> int \<Rightarrow> (string list \<Rightarrow> string list) \<Rightarrow> string \<Rightarrow> Table \<Rightarrow> db \<Rightarrow> goerr option \<times> Table \<times> db" where
  "Refresh hb now order ns t d =
     (case buildTable hb now order ns d of
        (Inl e, d') \<Rightarrow> (Some e, t, d')
      | (Inr t', d') \<Rightarrow> (None, t', d'))"

subsection \<open>Lookup\<close>

definition targetOf :: "Table \<Rightarrow> string \<Rightarrow> routeEntry \<Rightarrow> Instance list \<Rightarrow> PortConflict option \<Rightarrow> Target" where
  "targetOf t d e instances conflict =
     (let c = re_comp e
      in \<lparr>tg_Domain = d, tg_PathPrefix = r_PathPrefix (re_route e), tg_AppName = ac_AppName c,
          tg_ComponentName = ac_Name c, tg_Kind = ac_Kind c, tg_Protocol = ac_Protocol c,
          tg_UpstreamName = r_UpstreamName (re_route e), tg_LBAlgorithm = ac_LBAlgorithm c,
          tg_Sticky = ac_Sticky c, tg_Weight = ac_Weight c, tg_ServiceName = ac_ServiceName c,
          tg_GroupName = orDefaultGroup (ac_GroupName c), tg_ClusterName = ac_ClusterName c,
          tg_HealthPath = ac_HealthPath c, tg_StripPrefix = stripPrefixRequested c,
          tg_Metadata = ac_Metadata c, tg_Instances = instances, tg_PortConflict = conflict\<rparr>)"

definition entryInstances :: "Table \<Rightarrow> routeEntry \<Rightarrow> Instance list" where
  "entryInstances t e =
     mget [] (tb_services t) (serviceKey (orDefaultGroup (ac_GroupName (re_comp e))) (ac_ServiceName (re_comp e)))"

fun firstMatch :: "string \<Rightarrow> routeEntry list \<Rightarrow> routeEntry option" where
  "firstMatch path [] = None"
| "firstMatch path (e # es) = (if \<not> pathPrefixMatches (r_PathPrefix (re_route e)) path then firstMatch path es else Some e)"

definition Lookup :: "Table \<Rightarrow> string \<Rightarrow> string \<Rightarrow> (string \<times> string) list \<Rightarrow> Target option" where
  "Lookup t host path metaFilters =
     (let d = NormalizeDomain host;
          p = (if path = '''' then ''/'' else path)
      in case firstMatch p (mget [] (tb_domains t) d) of
           None \<Rightarrow> None
         | Some e \<Rightarrow>
             let c = re_comp e;
                 (instances0, portConflict) = selectForwardable (entryInstances t e) (ac_LBAlgorithm c) (ac_ClusterName c)
                    (DeclaredServicePort (ac_Metadata c));
                 instances = (if metaFilters \<noteq> [] then filterInstancesByMeta instances0 metaFilters else instances0)
             in Some (targetOf t d e instances portConflict))"

definition TargetKeys :: "Table \<Rightarrow> (string list \<Rightarrow> string list) \<Rightarrow> string list" where
  "TargetKeys t order =
     sort (remdups (concat (map (\<lambda>d. map (\<lambda>e. targetKeyOf (ac_AppName (re_comp e)) (ac_Name (re_comp e)) (ac_ServiceName (re_comp e)))
                               (mget [] (tb_domains t) d)) (order (tb_Domains t)))))"

definition allTargets :: "Table \<Rightarrow> string \<Rightarrow> Target list" where
  "allTargets t domain =
     (let d = NormalizeDomain domain
      in map (\<lambda>e. let c = re_comp e;
                      narrowed = selectInstances (entryInstances t e) (ac_LBAlgorithm c) (ac_ClusterName c);
                      portConflict = snd (SelectPortPool narrowed (DeclaredServicePort (ac_Metadata c)))
                  in (targetOf t d e narrowed portConflict)\<lparr>tg_Weight := 0\<rparr>)
           (mget [] (tb_domains t) d))"

definition tablePolicy :: "Table \<Rightarrow> string \<Rightarrow> smap VHostPolicy option" where
  "tablePolicy t host = tb_vhosts t (NormalizeDomain host)"

definition KnownDomain :: "Table \<Rightarrow> string \<Rightarrow> bool" where
  "KnownDomain t host \<longleftrightarrow> tb_domains t (NormalizeDomain host) \<noteq> None"

definition Snapshot :: "Table \<Rightarrow> int \<times> goerr option" where
  "Snapshot t = (tb_LoadedAt t, None)"

definition liveAddresses :: "Table \<Rightarrow> string set" where
  "liveAddresses t = set (concat (map (\<lambda>d. concat (map (\<lambda>g. map addr (tg_Instances g)) (allTargets t d))) (tb_Domains t)))"

subsection \<open>What a refresh builds\<close>

lemma mapS_quiet: "(\<And>x. x \<in> set xs \<Longrightarrow> f x d = (Inr (g x), d)) \<Longrightarrow> mapS f xs d = (Inr (map g xs), d)"
  by (induction xs) (auto simp: op_defs)

lemma loadServices_quiet: "script d = [] \<Longrightarrow> \<exists>m'. loadServices hb now ns es m d = (Inr m', d)"
proof (induction es arbitrary: m)
  case (Cons e es)
  then show ?case by (auto simp: Let_def bindS_def ListInstances_def query_quiet)
qed (simp add: retS_def)

definition compsOf :: "string \<Rightarrow> tables \<Rightarrow> string \<Rightarrow> smap ApplicationComponent list" where
  "compsOf ns t app = map scanComponent (sliceStable (\<lambda>a b. ac_Name a < ac_Name b)
     (filter (\<lambda>c. ac_NamespaceId c = ns \<and> ac_AppName c = app) (application_component t)))"

definition appNames :: "string \<Rightarrow> tables \<Rightarrow> string set" where
  "appNames ns t = a_Name ` {a \<in> set (application t). a_NamespaceId a = ns}"

definition compIndex :: "string \<Rightarrow> tables \<Rightarrow> comp_index" where
  "compIndex ns t app = (if app \<in> appNames ns t then Some (indexComponents (compsOf ns t app)) else None)"

lemma map_of_rev_keys: "map_of (rev (map (\<lambda>x. (k x, g (k x))) xs)) n = (if n \<in> k ` set xs then Some (g n) else None)"
proof -
  have "map_of (map (\<lambda>x. (k x, g (k x))) ys) n = (if n \<in> k ` set ys then Some (g n) else None)" for ys
    by (induction ys) auto
  from this [of "rev xs"] show ?thesis by (simp add: rev_map)
qed

lemma buildTable_quiet:
  assumes "script d = []"
  shows "\<exists>t'. buildTable hb now order ns d = (Inr t', d) \<and>
    tb_domains t' = (\<lambda>dm. map_option sortRouteEntries (fst (groupRoutes (compIndex ns (tabs d)) (routesOf ns (tabs d)) Map.empty []) dm)) \<and>
    tb_Domains t' = sort (snd (groupRoutes (compIndex ns (tabs d)) (routesOf ns (tabs d)) Map.empty [])) \<and>
    tb_vhosts t' = indexVHosts (map scanVHost (sliceStable (\<lambda>a b. v_Domain a < v_Domain b) (filter (\<lambda>v. v_NamespaceId v = ns) (gateway_vhost (tabs d)))))"
proof -
  let ?apps = "map scanApp (sliceStable (\<lambda>a b. a_Name a < a_Name b) (filter (\<lambda>a. a_NamespaceId a = ns) (application (tabs d))))"
  have "mapS (\<lambda>a. bindS (ListComponents ns (a_Name a)) (\<lambda>l. retS (a_Name a, indexComponents l))) ?apps d =
      (Inr (map (\<lambda>a. (a_Name a, indexComponents (compsOf ns (tabs d) (a_Name a)))) ?apps), d)"
    by (rule mapS_quiet) (use assms in \<open>simp add: bindS_def ListComponents_def query_quiet retS_def compsOf_def\<close>)
  moreover have "map_of (rev (map (\<lambda>a. (a_Name a, indexComponents (compsOf ns (tabs d) (a_Name a)))) ?apps)) = compIndex ns (tabs d)"
  proof (rule ext)
    fix n
    have "a_Name ` set ?apps = appNames ns (tabs d)" by (force simp: appNames_def scanApp_def)
    then show "map_of (rev (map (\<lambda>a. (a_Name a, indexComponents (compsOf ns (tabs d) (a_Name a)))) ?apps)) n = compIndex ns (tabs d) n"
      using map_of_rev_keys [of a_Name "\<lambda>n. indexComponents (compsOf ns (tabs d) n)" ?apps n]
      by (simp only: compIndex_def)
  qed
  moreover obtain m where "loadServices hb now ns (concat (map (\<lambda>dm. mget [] (\<lambda>dm. map_option sortRouteEntries
      (fst (groupRoutes (compIndex ns (tabs d)) (routesOf ns (tabs d)) Map.empty []) dm)) dm)
      (order (snd (groupRoutes (compIndex ns (tabs d)) (routesOf ns (tabs d)) Map.empty []))))) Map.empty d = (Inr m, d)"
    using loadServices_quiet [OF assms] by blast
  ultimately show ?thesis using assms
    by (simp add: buildTable_def bindS_def ListRoutes_def ListApplications_def ListVHosts_def query_quiet case_prod_beta Let_def retS_def)
qed

lemma groupRoutes_entries:
  "mget [] (fst (groupRoutes comps rs m seen)) dm =
     mget [] m dm @ List.map_filter (\<lambda>r. if NormalizeDomain (r_Domain r) = dm then entryFor comps r else None) rs"
proof (induction rs arbitrary: m seen)
  case (Cons r rs)
  then show ?case
    by (cases "entryFor comps r") (auto simp: Let_def mget_upd map_filter_simps)
qed (simp add: map_filter_simps)

lemma mget_map_option: "mget [] (\<lambda>k. map_option f (m k)) k = (if m k = None then [] else f (mget [] m k))"
  by (cases "m k") (auto simp: mget_def)

lemma sortRouteEntries_Nil: "sortRouteEntries [] = []"
  by (simp add: sortRouteEntries_def)

text \<open>A route is served with a component when both its application and the component are declared.\<close>

definition served :: "string \<Rightarrow> tables \<Rightarrow> RouteBinding \<Rightarrow> smap ApplicationComponent \<Rightarrow> bool" where
  "served ns t r c \<longleftrightarrow>
     r \<in> set (route_binding t) \<and> r_NamespaceId r = ns \<and> r_AppName r \<in> appNames ns t \<and>
     (\<exists>row \<in> set (application_component t). compKey row = (ns, r_AppName r, r_ComponentName r) \<and> c = scanComponent row)"

lemma distinct_comp_names:
  "distinct (map compKey cs) \<Longrightarrow> distinct (map ac_Name (filter (\<lambda>c. ac_NamespaceId c = ns \<and> ac_AppName c = app) cs))"
  by (induction cs) (auto simp: compKey_def image_iff)

lemma indexComponents_Some:
  assumes "uniqueBy compKey (application_component t)"
  shows "indexComponents (compsOf ns t app) n = Some c \<longleftrightarrow>
    (\<exists>row \<in> set (application_component t). compKey row = (ns, app, n) \<and> c = scanComponent row)"
proof -
  let ?cs = "compsOf ns t app"
  have nm: "ac_Name (scanComponent row) = ac_Name row" for row by (simp add: scanComponent_def)
  have "distinct (map ac_Name (filter (\<lambda>c. ac_NamespaceId c = ns \<and> ac_AppName c = app) (application_component t)))"
    using assms unfolding uniqueBy_def by (rule distinct_comp_names)
  then have dist: "distinct (map ac_Name ?cs)" by (simp add: compsOf_def comp_def nm)
  have "map_of (rev (map (\<lambda>c. (ac_Name c, c)) ?cs)) n = Some c \<longleftrightarrow> (n, c) \<in> set (map (\<lambda>c. (ac_Name c, c)) ?cs)"
    using dist by (subst map_of_eq_Some_iff) (simp_all add: rev_map [symmetric] comp_def)
  also have "\<dots> \<longleftrightarrow> (\<exists>row \<in> set (application_component t). compKey row = (ns, app, n) \<and> c = scanComponent row)"
    by (auto simp: compsOf_def compKey_def nm)
  finally show ?thesis by (simp add: indexComponents_def)
qed

lemma entryFor_served:
  assumes "uniqueBy compKey (application_component t)" "r \<in> set (routesOf ns t)"
  shows "entryFor (compIndex ns t) r = Some e \<longleftrightarrow> re_route e = r \<and> served ns t r (re_comp e)"
proof -
  have r: "r \<in> set (route_binding t)" "r_NamespaceId r = ns" using assms(2) by (auto simp: routesOf_def)
  have e: "Some \<lparr>re_route = r, re_comp = c\<rparr> = Some e \<longleftrightarrow> re_route e = r \<and> re_comp e = c" for c
    by (cases e) auto
  show ?thesis
  proof (cases "r_AppName r \<in> appNames ns t")
    case True
    let ?ix = "indexComponents (compsOf ns t (r_AppName r)) (r_ComponentName r)"
    have "entryFor (compIndex ns t) r = Some e \<longleftrightarrow> re_route e = r \<and> ?ix = Some (re_comp e)"
      using True by (cases ?ix) (auto simp: entryFor_def compIndex_def e)
    then show ?thesis using True r by (simp add: indexComponents_Some [OF assms(1)] served_def)
  qed (auto simp: entryFor_def compIndex_def served_def)
qed

interpretation entries: strict_weak_order entryOrder
  unfolding entryOrder_def by (intro swo_intros)

lemma firstMatch_filter:
  "firstMatch p es = (case filter (\<lambda>e. pathPrefixMatches (r_PathPrefix (re_route e)) p) es of [] \<Rightarrow> None | e # _ \<Rightarrow> Some e)"
  by (induction es) auto

lemma firstMatch_sorted:
  "firstMatch p (sortRouteEntries es) = None \<longleftrightarrow> (\<forall>e\<in>set es. \<not> pathPrefixMatches (r_PathPrefix (re_route e)) p)"
  "firstMatch p (sortRouteEntries es) = Some e \<Longrightarrow>
     e \<in> set es \<and> pathPrefixMatches (r_PathPrefix (re_route e)) p \<and>
     (\<forall>e'\<in>set es. pathPrefixMatches (r_PathPrefix (re_route e')) p \<longrightarrow> \<not> entryOrder e' e)"
proof -
  let ?m = "\<lambda>e. pathPrefixMatches (r_PathPrefix (re_route e)) p"
  have f: "firstMatch p (sortRouteEntries es) = (case sliceStable entryOrder (filter ?m es) of [] \<Rightarrow> None | e # _ \<Rightarrow> Some e)"
    by (simp add: firstMatch_filter sortRouteEntries_def entries.filter_sliceStable)
  show "firstMatch p (sortRouteEntries es) = None \<longleftrightarrow> (\<forall>e\<in>set es. \<not> ?m e)"
    using set_sliceStable [of entryOrder "filter ?m es"] unfolding f
    by (cases "sliceStable entryOrder (filter ?m es)") (auto simp: filter_empty_conv)
  assume "firstMatch p (sortRouteEntries es) = Some e"
  then obtain t where st: "sliceStable entryOrder (filter ?m es) = e # t" unfolding f by (auto split: list.splits)
  then have "e \<in> set (filter ?m es)" by (metis list.set_intros(1) set_sliceStable)
  moreover have "\<forall>e'\<in>set (filter ?m es). \<not> entryOrder e' e"
    using entries.sliceStable_hd_least [of _ "filter ?m es"] st by simp
  ultimately show "e \<in> set es \<and> ?m e \<and> (\<forall>e'\<in>set es. ?m e' \<longrightarrow> \<not> entryOrder e' e)" by simp
qed

definition builtFrom :: "Table \<Rightarrow> string \<Rightarrow> tables \<Rightarrow> bool" where
  "builtFrom t' ns t \<longleftrightarrow>
     tb_domains t' = (\<lambda>dm. map_option sortRouteEntries (fst (groupRoutes (compIndex ns t) (routesOf ns t) Map.empty []) dm)) \<and>
     tb_Domains t' = sort (snd (groupRoutes (compIndex ns t) (routesOf ns t) Map.empty []))"

lemma Refresh_built:
  assumes "script d = []"
  shows "\<exists>t'. Refresh hb now order ns t d = (None, t', d) \<and> builtFrom t' ns (tabs d)"
proof -
  from buildTable_quiet [OF assms, of hb now order ns] obtain t' where b: "buildTable hb now order ns d = (Inr t', d)"
    "builtFrom t' ns (tabs d)" unfolding builtFrom_def by blast
  then show ?thesis by (simp add: Refresh_def)
qed

lemma map_of_rev_unique:
  assumes "\<And>y. y \<in> set xs \<Longrightarrow> k y = k x \<Longrightarrow> y = x" "x \<in> set xs"
  shows "map_of (rev (map (\<lambda>y. (k y, y)) xs)) (k x) = Some x"
proof -
  have "k x \<in> fst ` set (rev (map (\<lambda>y. (k y, y)) xs))" using assms(2) by force
  then obtain z where z: "map_of (rev (map (\<lambda>y. (k y, y)) xs)) (k x) = Some z" by (meson map_of_eq_None_iff not_None_eq)
  then have "(k x, z) \<in> set (rev (map (\<lambda>y. (k y, y)) xs))" by (rule map_of_SomeD)
  with assms(1) have "z = x" by auto
  with z show ?thesis by simp
qed

text \<open>After an undisturbed refresh the policy of a domain is its row, when the stored domains are canonical.\<close>

lemma Refresh_policy:
  assumes "script d = []" "uniqueBy vhostKey (gateway_vhost (tabs d))" "lookupBy vhostKey (gateway_vhost (tabs d)) (ns, dm) = Some v"
    and "\<And>v. v \<in> set (gateway_vhost (tabs d)) \<Longrightarrow> NormalizeDomain (v_Domain v) = v_Domain v"
  shows "\<exists>t'. Refresh hb now order ns t d = (None, t', d) \<and> tb_vhosts t' dm = Some (scanVHost v)"
proof -
  let ?vs = "map scanVHost (sliceStable (\<lambda>a b. v_Domain a < v_Domain b) (filter (\<lambda>v. v_NamespaceId v = ns) (gateway_vhost (tabs d))))"
  obtain t' where b: "buildTable hb now order ns d = (Inr t', d)" "tb_vhosts t' = indexVHosts ?vs"
    using buildTable_quiet [OF assms(1)] by blast
  have v: "v \<in> set (gateway_vhost (tabs d))" "vhostKey v = (ns, dm)" using vhosts.lookup_Some [OF assms(3)] by auto
  have "x = scanVHost v" if x: "x \<in> set ?vs" "NormalizeDomain (v_Domain x) = NormalizeDomain (v_Domain (scanVHost v))" for x
  proof -
    obtain y where y: "y \<in> set (gateway_vhost (tabs d))" "v_NamespaceId y = ns" "x = scanVHost y" using x(1) by auto
    then have "vhostKey y = vhostKey v" using x(2) v assms(4) by (simp add: vhostKey_def scanVHost_def)
    then show ?thesis using uniqueByD [OF assms(2) y(1) v(1)] y(3) by simp
  qed
  moreover have "scanVHost v \<in> set ?vs" "NormalizeDomain (v_Domain (scanVHost v)) = dm"
    using v assms(4) by (auto simp: vhostKey_def scanVHost_def)
  ultimately have "indexVHosts ?vs dm = Some (scanVHost v)"
    unfolding indexVHosts_def by (metis (no_types, lifting) map_of_rev_unique [of ?vs "\<lambda>v. NormalizeDomain (v_Domain v)" "scanVHost v"])
  with b show ?thesis by (simp add: Refresh_def)
qed

lemma builtFrom_entries:
  assumes "builtFrom t' ns t"
  shows "\<exists>es. mget [] (tb_domains t') dm = sortRouteEntries es \<and>
    set es = {e. \<exists>r\<in>set (routesOf ns t). NormalizeDomain (r_Domain r) = dm \<and> entryFor (compIndex ns t) r = Some e}"
proof -
  let ?g = "fst (groupRoutes (compIndex ns t) (routesOf ns t) Map.empty [])"
  let ?es = "List.map_filter (\<lambda>r. if NormalizeDomain (r_Domain r) = dm then entryFor (compIndex ns t) r else None) (routesOf ns t)"
  have m: "mget [] ?g dm = ?es" by (simp add: groupRoutes_entries)
  have "mget [] (tb_domains t') dm = sortRouteEntries ?es"
    using assms m by (auto simp: builtFrom_def mget_map_option sortRouteEntries_Nil mget_def split: option.splits)
  moreover have "set ?es = {e. \<exists>r\<in>set (routesOf ns t). NormalizeDomain (r_Domain r) = dm \<and> entryFor (compIndex ns t) r = Some e}"
    by (force simp: map_filter_def)
  ultimately show ?thesis by blast
qed

text \<open>The candidates of a request: served routes of its domain whose prefix matches.\<close>

definition candidate :: "string \<Rightarrow> tables \<Rightarrow> string \<Rightarrow> string \<Rightarrow> RouteBinding \<Rightarrow> smap ApplicationComponent \<Rightarrow> bool" where
  "candidate ns t host path r c \<longleftrightarrow>
     served ns t r c \<and> NormalizeDomain (r_Domain r) = NormalizeDomain host \<and>
     pathPrefixMatches (r_PathPrefix r) (if path = '''' then ''/'' else path)"

definition prefixLen :: "RouteBinding \<Rightarrow> nat" where
  "prefixLen r = length (trimSuffix (r_PathPrefix r) ''/'')"

lemma lookup_entry:
  assumes "builtFrom t' ns t" "uniqueBy compKey (application_component t)"
  shows "case firstMatch (if path = '''' then ''/'' else path) (mget [] (tb_domains t') (NormalizeDomain host)) of
      None \<Rightarrow> \<nexists>r c. candidate ns t host path r c
    | Some e \<Rightarrow> candidate ns t host path (re_route e) (re_comp e) \<and>
        (\<forall>r c. candidate ns t host path r c \<longrightarrow> \<not> entryOrder \<lparr>re_route = r, re_comp = c\<rparr> e)"
proof -
  let ?p = "if path = '''' then ''/'' else path"
  obtain es where es: "mget [] (tb_domains t') (NormalizeDomain host) = sortRouteEntries es"
    and set: "set es = {e. \<exists>r\<in>set (routesOf ns t). NormalizeDomain (r_Domain r) = NormalizeDomain host \<and> entryFor (compIndex ns t) r = Some e}"
    using builtFrom_entries [OF assms(1)] by blast
  have ro: "served ns t r c \<Longrightarrow> r \<in> set (routesOf ns t)" for r c by (auto simp: served_def routesOf_def)
  have in_es: "e \<in> set es \<longleftrightarrow> served ns t (re_route e) (re_comp e) \<and> NormalizeDomain (r_Domain (re_route e)) = NormalizeDomain host" for e
    using ro entryFor_served [OF assms(2)] by (auto simp: set)
  have cand: "candidate ns t host path r c \<longleftrightarrow>
      \<lparr>re_route = r, re_comp = c\<rparr> \<in> set es \<and> pathPrefixMatches (r_PathPrefix r) ?p" for r c
    by (auto simp: candidate_def in_es)
  show ?thesis
  proof (cases "firstMatch ?p (sortRouteEntries es)")
    case None
    then show ?thesis using firstMatch_sorted(1) [of ?p es] by (auto simp: es cand)
  next
    case (Some e)
    have "candidate ns t host path (re_route e) (re_comp e)"
      using firstMatch_sorted(2) [OF Some] by (simp add: candidate_def in_es)
    then show ?thesis using Some firstMatch_sorted(2) [OF Some] by (auto simp: es cand)
  qed
qed

text \<open>C2. The gateway routes to the most specific live declaration.  After an undisturbed refresh a
  lookup misses exactly when no declared route with a declared application and component matches host
  and path; a hit belongs to such a route, and every other candidate has a shorter prefix (one trailing
  slash ignored), or an equally long one with a larger priority number, or the same of both and a
  component name that is not smaller.\<close>

theorem lookup_most_specific:
  assumes "script d = []" "appModelOK (tabs d)" "Refresh hb now order ns t0 d = (err, t', d')"
  shows "case Lookup t' host path mf of
      None \<Rightarrow> \<nexists>r c. candidate ns (tabs d) host path r c
    | Some tg \<Rightarrow> \<exists>r c. candidate ns (tabs d) host path r c \<and>
        tg_PathPrefix tg = r_PathPrefix r \<and> tg_AppName tg = ac_AppName c \<and> tg_ComponentName tg = ac_Name c \<and>
        (\<forall>r' c'. candidate ns (tabs d) host path r' c' \<longrightarrow>
           prefixLen r' < prefixLen r \<or>
           prefixLen r' = prefixLen r \<and>
             (r_Priority r < r_Priority r' \<or> r_Priority r = r_Priority r' \<and> r_ComponentName r \<le> r_ComponentName r'))"
proof -
  have b: "builtFrom t' ns (tabs d)" using Refresh_built [OF assms(1), of hb now order ns t0] assms(3) by auto
  have u: "uniqueBy compKey (application_component (tabs d))" using assms(2) by (simp add: appModelOK_def)
  note le = lookup_entry [OF b u, where path = path and host = host]
  let ?f = "firstMatch (if path = '''' then ''/'' else path) (mget [] (tb_domains t') (NormalizeDomain host))"
  show ?thesis
  proof (cases ?f)
    case None
    then have "Lookup t' host path mf = None" by (simp add: Lookup_def Let_def)
    then show ?thesis using le None by simp
  next
    case (Some e)
    then obtain xs pc where l: "Lookup t' host path mf = Some (targetOf t' (NormalizeDomain host) e xs pc)"
      by (auto simp: Lookup_def Let_def case_prod_beta)
    have c: "candidate ns (tabs d) host path (re_route e) (re_comp e)"
      and o: "\<And>r c. candidate ns (tabs d) host path r c \<Longrightarrow> \<not> entryOrder \<lparr>re_route = r, re_comp = c\<rparr> e"
      using le Some by auto
    have "prefixLen r' < prefixLen (re_route e) \<or> prefixLen r' = prefixLen (re_route e) \<and>
        (r_Priority (re_route e) < r_Priority r' \<or> r_Priority (re_route e) = r_Priority r' \<and> r_ComponentName (re_route e) \<le> r_ComponentName r')"
      if "candidate ns (tabs d) host path r' c'" for r' c'
      using o [OF that] by (auto simp: entryOrder_def lexgreater_def lexless_def prefixLen_def not_less split: if_splits)
    then show ?thesis using l c
      by (auto simp: targetOf_def Let_def intro!: exI [of _ "re_route e"] exI [of _ "re_comp e"])
  qed
qed

definition sampleTables :: tables where
  "sampleTables = empty_tables\<lparr>application := [\<lparr>a_NamespaceId = ''public'', a_Name = ''shop'', a_DisplayName = '''', a_Description = '''', a_Env = '''', a_Metadata = ''''\<rparr>],
     application_component := [compRow sampleComponent], route_binding := [sampleRoute]\<rparr>"

lemma sampleTables_OK: "appModelOK sampleTables"
  by (simp add: appModelOK_def sampleTables_def empty_tables_def uniqueBy_def)

theorem lookup_most_specific_witness:
  "case Lookup (fst (snd (Refresh (Some 15000) 5 (\<lambda>x. x) ''public'' NewTable \<lparr>tabs = sampleTables, script = []\<rparr>))) ''Example.com:80'' ''/api/x'' [] of
      None \<Rightarrow> \<nexists>r c. candidate ''public'' sampleTables ''Example.com:80'' ''/api/x'' r c
    | Some tg \<Rightarrow> \<exists>r c. candidate ''public'' sampleTables ''Example.com:80'' ''/api/x'' r c \<and> tg_PathPrefix tg = r_PathPrefix r"
proof -
  obtain err t' d' where r: "Refresh (Some 15000) 5 (\<lambda>x. x) ''public'' NewTable \<lparr>tabs = sampleTables, script = []\<rparr> = (err, t', d')"
    by (metis prod_cases3)
  show ?thesis using lookup_most_specific [OF _ _ r, of "''Example.com:80''" "''/api/x''" "[]"] sampleTables_OK r
    by (auto split: option.splits)
qed

subsection \<open>Only forwardable instances\<close>

lemma dropBackups_set:
  "set (dropBackupsWhenPrimaryExists is) =
     (if \<exists>i\<in>set is. \<not> isBackup i then {i \<in> set is. \<not> isBackup i} else set is)"
  by (auto simp: dropBackupsWhenPrimaryExists_def list_ex_iff)

lemma selectForwardable_set:
  "set (fst (selectForwardable is lb cluster p)) =
     {i \<in> set is. instanceEligible cluster i \<and> (p = 0 \<or> i_Port i = p) \<and>
        ((\<exists>j\<in>set is. instanceEligible cluster j \<and> \<not> isBackup j) \<longrightarrow> \<not> isBackup i)}"
  by (auto simp: selectForwardable_def Let_def SelectPortPool_pool selectInstances_def dropBackups_set)

lemma Lookup_Some:
  assumes "Lookup t host path mf = Some tg"
  obtains e where "e \<in> set (mget [] (tb_domains t) (NormalizeDomain host))"
    "pathPrefixMatches (r_PathPrefix (re_route e)) (if path = '''' then ''/'' else path)"
    "tg_Instances tg = filterInstancesByMeta (fst (selectForwardable (entryInstances t e) (ac_LBAlgorithm (re_comp e))
       (ac_ClusterName (re_comp e)) (DeclaredServicePort (ac_Metadata (re_comp e))))) mf"
    "tg_ClusterName tg = ac_ClusterName (re_comp e)" "tg_Metadata tg = ac_Metadata (re_comp e)"
    "tg_LBAlgorithm tg = ac_LBAlgorithm (re_comp e)" "tg_ServiceName tg = ac_ServiceName (re_comp e)"
    "tg_AppName tg = ac_AppName (re_comp e)" "tg_ComponentName tg = ac_Name (re_comp e)"
proof -
  let ?p = "if path = '''' then ''/'' else path"
  obtain e where f: "firstMatch ?p (mget [] (tb_domains t) (NormalizeDomain host)) = Some e"
    using assms by (auto simp: Lookup_def Let_def split: option.splits)
  have mem: "firstMatch p es = Some e \<Longrightarrow> e \<in> set es \<and> pathPrefixMatches (r_PathPrefix (re_route e)) p" for p es
    by (induction es) (auto split: if_splits)
  have "filterInstancesByMeta xs [] = xs" for xs
    by (simp add: filterInstancesByMeta_def metaMatches_def)
  then show thesis using assms f mem [OF f] by (intro that [of e]) (auto simp: Lookup_def Let_def targetOf_def split: prod.splits if_splits)
qed

text \<open>A target only carries instances the gateway may dial: enabled, of the component's cluster (or
  of none), on the declared port when one is declared, matching every metadata filter of the request,
  and no stand-by while a non-stand-by of the same service and cluster is available.\<close>

theorem lookup_instances_forwardable:
  assumes "Lookup t host path mf = Some tg" "i \<in> set (tg_Instances tg)"
  shows "i_Enabled i \<and>
    (tg_ClusterName tg = '''' \<or> i_ClusterName i = '''' \<or> i_ClusterName i = tg_ClusterName tg) \<and>
    (DeclaredServicePort (tg_Metadata tg) = 0 \<or> i_Port i = DeclaredServicePort (tg_Metadata tg)) \<and>
    (\<forall>(k, v) \<in> set mf. aget (instMetadata i) k = v) \<and>
    (isBackup i \<longrightarrow> (\<forall>j \<in> set (tg_Instances tg). isBackup j))"
proof -
  obtain e where e: "tg_Instances tg = filterInstancesByMeta (fst (selectForwardable (entryInstances t e) (ac_LBAlgorithm (re_comp e))
       (ac_ClusterName (re_comp e)) (DeclaredServicePort (ac_Metadata (re_comp e))))) mf"
    "tg_ClusterName tg = ac_ClusterName (re_comp e)" "tg_Metadata tg = ac_Metadata (re_comp e)"
    using Lookup_Some [OF assms(1)] by metis
  have i: "metaMatches mf i" "i \<in> set (fst (selectForwardable (entryInstances t e) (ac_LBAlgorithm (re_comp e))
       (ac_ClusterName (re_comp e)) (DeclaredServicePort (ac_Metadata (re_comp e)))))"
    using assms(2) by (auto simp: e(1) filterInstancesByMeta_def)
  have "\<forall>j \<in> set (tg_Instances tg). isBackup j" if "isBackup i"
    using i(2) that by (auto simp: e(1) filterInstancesByMeta_def selectForwardable_set)
  moreover have "instanceEligible (tg_ClusterName tg) i"
    "DeclaredServicePort (tg_Metadata tg) = 0 \<or> i_Port i = DeclaredServicePort (tg_Metadata tg)"
    using i(2) by (simp_all add: selectForwardable_set e(2,3))
  moreover have "\<forall>(k, v) \<in> set mf. aget (instMetadata i) k = v"
    using i(1) by (simp add: metaMatches_def list_all_iff)
  ultimately show ?thesis unfolding instanceEligible_def by blast
qed

definition sampleTable :: Table where
  "sampleTable = NewTable\<lparr>tb_domains := [''example.com'' \<mapsto> [\<lparr>re_route = sampleRoute, re_comp = sampleComponent\<rparr>]],
     tb_services := [''DEFAULT_GROUP@@svc'' \<mapsto> [zeroInstance\<lparr>i_IP := ''10.0.0.1'', i_Port := 80, i_Enabled := True\<rparr>]]\<rparr>"

theorem lookup_instances_forwardable_witness:
  "\<exists>tg i. Lookup sampleTable ''example.com'' ''/api'' [] = Some tg \<and> i \<in> set (tg_Instances tg) \<and> i_Enabled i"
proof -
  have "NormalizeDomain ''example.com'' = ''example.com''" by code_simp
  moreover have "pathPrefixMatches ''/api'' ''/api''" by code_simp
  moreover have "serviceKey (orDefaultGroup ''DEFAULT_GROUP'') ''svc'' = ''DEFAULT_GROUP@@svc''" by code_simp
  ultimately obtain tg where tg: "Lookup sampleTable ''example.com'' ''/api'' [] = Some tg"
    "zeroInstance\<lparr>i_IP := ''10.0.0.1'', i_Port := 80, i_Enabled := True\<rparr> \<in> set (tg_Instances tg)"
    by (simp add: Lookup_def Let_def sampleTable_def sampleRoute_def sampleComponent_def entryInstances_def targetOf_def
        selectForwardable_def selectInstances_def instanceEligible_def zeroInstance_def dropBackupsWhenPrimaryExists_def
        SelectPortPool_pool DeclaredServicePort_def ServicePortMetaKey_def isBackup_def instMetadata_def aget_def)
  show ?thesis using lookup_instances_forwardable [OF tg] tg by blast
qed

subsection \<open>One cache entry per service, one query per cluster\<close>

text \<open>Two components of one service in different clusters: the snapshot keeps one instance list per
  service, filled with the cluster of whichever component comes first, so the gateway finds no instance
  for the other component although the resolver of the management API does.\<close>

definition clusterTables :: tables where
  "clusterTables = empty_tables\<lparr>
     application := [\<lparr>a_NamespaceId = ''p'', a_Name = ''shop'', a_DisplayName = '''', a_Description = '''', a_Env = '''', a_Metadata = ''''\<rparr>],
     application_component :=
       [compRow (sampleComponent\<lparr>ac_NamespaceId := ''p'', ac_Name := ''a'', ac_ClusterName := ''A'', ac_Metadata := []\<rparr>),
        compRow (sampleComponent\<lparr>ac_NamespaceId := ''p'', ac_Name := ''b'', ac_ClusterName := ''B'', ac_Metadata := []\<rparr>)],
     route_binding :=
       [sampleRoute\<lparr>r_NamespaceId := ''p'', r_Domain := ''x'', r_PathPrefix := ''/a'', r_ComponentName := ''a''\<rparr>,
        sampleRoute\<lparr>r_NamespaceId := ''p'', r_Domain := ''x'', r_PathPrefix := ''/b'', r_ComponentName := ''b''\<rparr>],
     naming_instance :=
       [zeroInstance\<lparr>i_ID := 1, i_NamespaceId := ''p'', i_GroupName := ''DEFAULT_GROUP'', i_ServiceName := ''svc'', i_ClusterName := ''A'',
          i_IP := ''1'', i_Port := 80, i_Healthy := True, i_Enabled := True\<rparr>,
        zeroInstance\<lparr>i_ID := 2, i_NamespaceId := ''p'', i_GroupName := ''DEFAULT_GROUP'', i_ServiceName := ''svc'', i_ClusterName := ''B'',
          i_IP := ''2'', i_Port := 80, i_Healthy := True, i_Enabled := True\<rparr>]\<rparr>"

lemma service_cache_ignores_cluster:
  "map_option (\<lambda>g. map i_IP (tg_Instances g))
     (Lookup (fst (snd (Refresh None 5 (\<lambda>x. x) ''p'' NewTable \<lparr>tabs = clusterTables, script = []\<rparr>))) ''x'' ''/b'' []) = Some []"
  "map_sum id (map_option (map i_IP \<circ> rr_Instances)) (fst (ResolveRoute None 5 ''p'' ''x'' ''/b'' [] \<lparr>tabs = clusterTables, script = []\<rparr>))
     = Inr (Some [''2''])"
  by code_simp+

text \<open>Stand-bys leave before the declared port is looked at: with the port declared as 81, a healthy
  stand-by on 81 is unreachable as long as some primary of the service listens on 80.\<close>

lemma backup_hidden_by_other_port:
  "fst (selectForwardable
     [zeroInstance\<lparr>i_IP := ''1'', i_Port := 80, i_Enabled := True\<rparr>,
      zeroInstance\<lparr>i_IP := ''2'', i_Port := 81, i_Enabled := True, i_MetadataJSON := ''{\"role\":\"backup\"}''\<rparr>] '''' '''' 81) = []"
  by code_simp

end
