(* ===== verification/GoNet.thy ===== *)
theory GoNet
  imports GoStrings
begin

text \<open>
  The parts of Go's standard library the gateway uses on addresses, headers and paths:
  \<^verbatim>\<open>net/netip\<close> (addresses, prefixes, parsing and printing), \<^verbatim>\<open>net.SplitHostPort\<close>, \<^verbatim>\<open>http.Header\<close> with its
  canonical keys, and \<^verbatim>\<open>path.Clean\<close> / \<^verbatim>\<open>filepath.Join\<close> on slash-separated paths.
\<close>

unbundle bit_operations_syntax

subsection \<open>Addresses\<close>

text \<open>\<^verbatim>\<open>netip.Addr\<close>: the zero value, an IPv4 address, or an IPv6 address with an optional zone.\<close>

datatype Addr = NoAddr | V4 "32 word" | V6 "128 word" string

fun addrValid :: "Addr \<Rightarrow> bool" where
  "addrValid NoAddr = False"
| "addrValid _ = True"

fun bitLen :: "Addr \<Rightarrow> nat" where
  "bitLen NoAddr = 0"
| "bitLen (V4 _) = 32"
| "bitLen (V6 _ _) = 128"

text \<open>\<^verbatim>\<open>Addr.Unmap\<close> turns \<^verbatim>\<open>::ffff:a.b.c.d\<close> into \<^verbatim>\<open>a.b.c.d\<close>; the zone of a mapped address is dropped.\<close>

fun unmap :: "Addr \<Rightarrow> Addr" where
  "unmap (V6 a z) = (if drop_bit 32 a = 0xffff then V4 (ucast a) else V6 a z)"
| "unmap a = a"

definition octet :: "string \<Rightarrow> nat option" where
  "octet s =
     (if s \<noteq> [] \<and> list_all isDigit s \<and> (length s = 1 \<or> hd s \<noteq> CHR ''0'') \<and> decValue s \<le> 255
      then Some (decValue s) else None)"

definition parseIPv4 :: "string \<Rightarrow> 32 word option" where
  "parseIPv4 s =
     (case map octet (splitOn CHR ''.'' s) of
        [Some a, Some b, Some c, Some d] \<Rightarrow> Some (of_nat (((a * 256 + b) * 256 + c) * 256 + d))
      | _ \<Rightarrow> None)"

definition hexNibble :: "char \<Rightarrow> nat option" where
  "hexNibble c =
     (let n = byte c
      in if 48 \<le> n \<and> n \<le> 57 then Some (n - 48)
         else if 97 \<le> n \<and> n \<le> 102 then Some (n - 87)
         else if 65 \<le> n \<and> n \<le> 70 then Some (n - 55) else None)"

definition isHex :: "char \<Rightarrow> bool" where
  "isHex c \<longleftrightarrow> hexNibble c \<noteq> None"

definition hexGroup :: "string \<Rightarrow> nat" where
  "hexGroup s = foldl (\<lambda>a c. 16 * a + the (hexNibble c)) 0 s"

text \<open>The loop of \<^verbatim>\<open>parseIPv6\<close>: up to \<open>n\<close> more 16-bit groups, the groups read so far, where the ellipsis
  was seen.  The result is the unread rest, the groups and the ellipsis.\<close>

fun parse6Loop :: "nat \<Rightarrow> string \<Rightarrow> nat list \<Rightarrow> nat option \<Rightarrow> (string \<times> nat list \<times> nat option) option" where
  "parse6Loop 0 s gs ell = Some (s, gs, ell)"
| "parse6Loop (Suc n) s gs ell =
     (let h = takeWhile isHex s; rest = dropWhile isHex s
      in if length h > 4 \<or> h = [] then None
         else if rest \<noteq> [] \<and> hd rest = CHR ''.'' then
           (if ell = None \<and> length gs \<noteq> 6 \<or> length gs > 6 then None
            else case parseIPv4 s of
                   None \<Rightarrow> None
                 | Some w \<Rightarrow> Some ([], gs @ [unat w div 65536, unat w mod 65536], ell))
         else let gs' = gs @ [hexGroup h]
              in if rest = [] then Some ([], gs', ell)
                 else if hd rest \<noteq> CHR '':'' \<or> length rest = 1 then None
                 else if rest ! 1 = CHR '':'' then
                   (if ell \<noteq> None then None
                    else if length rest = 2 then Some ([], gs', Some (length gs'))
                    else parse6Loop n (drop 2 rest) gs' (Some (length gs')))
                 else parse6Loop n (drop 1 rest) gs' ell)"

definition groupsWord :: "nat list \<Rightarrow> 128 word" where
  "groupsWord gs = of_nat (foldl (\<lambda>a g. a * 65536 + g) 0 gs)"

definition parseIPv6 :: "string \<Rightarrow> Addr option" where
  "parseIPv6 str =
     (let (s, zone, hasZone) = cutAt CHR ''%'' str
      in if hasZone \<and> zone = [] then None
         else if s = ''::'' then Some (V6 0 zone)
         else let lead = hasPrefix s ''::''
              in case parse6Loop 8 (if lead then drop 2 s else s) [] (if lead then Some 0 else None) of
                   None \<Rightarrow> None
                 | Some (rest, gs, ell) \<Rightarrow>
                     if rest \<noteq> [] then None
                     else if length gs < 8 then
                       (case ell of None \<Rightarrow> None
                        | Some e \<Rightarrow> Some (V6 (groupsWord (take e gs @ replicate (8 - length gs) 0 @ drop e gs)) zone))
                     else if ell \<noteq> None then None
                     else Some (V6 (groupsWord gs) zone))"

fun parseAddrScan :: "string \<Rightarrow> string \<Rightarrow> Addr option" where
  "parseAddrScan s [] = None"
| "parseAddrScan s (c # cs) =
     (if c = CHR ''.'' then map_option V4 (parseIPv4 s)
      else if c = CHR '':'' then parseIPv6 s
      else if c = CHR ''%'' then None
      else parseAddrScan s cs)"

definition parseAddr :: "string \<Rightarrow> Addr option" where
  "parseAddr s = parseAddrScan s s"

definition string4 :: "32 word \<Rightarrow> string" where
  "string4 w =
     (let n = unat w
      in decimal (n div 16777216) @ ''.'' @ decimal (n div 65536 mod 256) @ ''.'' @ decimal (n div 256 mod 256) @ ''.'' @
         decimal (n mod 256))"

definition hexChar :: "nat \<Rightarrow> char" where
  "hexChar n = (if n < 10 then char_of (48 + n) else char_of (87 + n))"

fun hexNat :: "nat \<Rightarrow> string" where
  "hexNat n = (if n < 16 then [hexChar n] else hexNat (n div 16) @ [hexChar (n mod 16)])"

declare hexNat.simps [simp del]

definition wordGroups :: "128 word \<Rightarrow> nat list" where
  "wordGroups w = map (\<lambda>i. unat w div 65536 ^ (7 - i) mod 65536) [0..<8]"

text \<open>The first longest run of at least two zero groups.\<close>

definition zeroRun :: "nat list \<Rightarrow> nat \<Rightarrow> nat" where
  "zeroRun gs i = length (takeWhile (\<lambda>g. g = 0) (drop i gs))"

definition longestRun :: "nat list \<Rightarrow> nat \<times> nat" where
  "longestRun gs = foldl (\<lambda>(st, l) i. if zeroRun gs i \<ge> 2 \<and> zeroRun gs i > l then (i, zeroRun gs i) else (st, l)) (0, 0) [0..<8]"

definition string6 :: "128 word \<Rightarrow> string" where
  "string6 w =
     (let gs = wordGroups w; (st, l) = longestRun gs;
          hexes = (\<lambda>xs. joinWith '':'' (map hexNat xs))
      in if l = 0 then hexes gs else hexes (take st gs) @ ''::'' @ hexes (drop (st + l) gs))"

fun addrString :: "Addr \<Rightarrow> string" where
  "addrString NoAddr = ''invalid IP''"
| "addrString (V4 w) = string4 w"
| "addrString (V6 w z) =
     (if drop_bit 32 w = 0xffff then ''::ffff:'' @ string4 (ucast w) else string6 w) @ (if z = [] then [] else CHR ''%'' # z)"

subsection \<open>Prefixes\<close>

text \<open>\<^verbatim>\<open>netip.Prefix\<close>: a zone-free address and a length; every prefix the code builds is valid.\<close>

record Prefix =
  p_Addr :: Addr
  p_Bits :: nat

fun hasZone :: "Addr \<Rightarrow> bool" where
  "hasZone (V6 _ z) = (z \<noteq> [])"
| "hasZone _ = False"

fun withoutZone :: "Addr \<Rightarrow> Addr" where
  "withoutZone (V6 a z) = V6 a []"
| "withoutZone a = a"

definition parsePrefixCIDR :: "string \<Rightarrow> Prefix option" where
  "parsePrefixCIDR s =
     (case lastIndexByte s CHR ''/'' of
        None \<Rightarrow> None
      | Some i \<Rightarrow>
          (case parseAddr (take i s) of
             None \<Rightarrow> None
           | Some ip \<Rightarrow>
               let bitsStr = drop (Suc i) s
               in if hasZone ip then None
                  else if length bitsStr > 1 \<and> (byte (hd bitsStr) < 49 \<or> byte (hd bitsStr) > 57) then None
                  else case atoi bitsStr of
                         None \<Rightarrow> None
                       | Some b \<Rightarrow> if b < 0 \<or> b > int (bitLen ip) then None
                                   else Some \<lparr>p_Addr = ip, p_Bits = nat b\<rparr>))"

fun prefixContains :: "Prefix \<Rightarrow> Addr \<Rightarrow> bool" where
  "prefixContains p (V4 b) = (case p_Addr p of V4 a \<Rightarrow> drop_bit (32 - p_Bits p) (a XOR b) = 0 | _ \<Rightarrow> False)"
| "prefixContains p (V6 b z) = (z = [] \<and> (case p_Addr p of V6 a _ \<Rightarrow> drop_bit (128 - p_Bits p) (a XOR b) = 0 | _ \<Rightarrow> False))"
| "prefixContains p NoAddr = False"

subsection \<open>Hosts and ports\<close>

text \<open>\<^verbatim>\<open>net.SplitHostPort\<close>; None is any of its errors.\<close>

definition splitHostPort :: "string \<Rightarrow> (string \<times> string) option" where
  "splitHostPort hp =
     (case lastIndexByte hp CHR '':'' of
        None \<Rightarrow> None
      | Some i \<Rightarrow>
          if hd hp = CHR ''['' then
            (case indexByte hp CHR '']'' of
               None \<Rightarrow> None
             | Some e \<Rightarrow>
                 if Suc e \<noteq> i then None
                 else if CHR ''['' \<in> set (drop 1 hp) \<or> CHR '']'' \<in> set (drop (Suc e) hp) then None
                 else Some (take (e - 1) (drop 1 hp), drop (Suc i) hp))
          else if CHR '':'' \<in> set (take i hp) \<or> CHR ''['' \<in> set hp \<or> CHR '']'' \<in> set hp then None
          else Some (take i hp, drop (Suc i) hp))"

lemma splitHostPort_plain:
  assumes "set (h @ p) \<inter> {CHR '':'', CHR ''['', CHR '']''} = {}"
  shows "splitHostPort (h @ '':'' @ p) = Some (h, p)"
proof -
  have l: "lastIndexByte (h @ CHR '':'' # p) CHR '':'' = Some (length h)" using assms by (intro lastIndexByte_at) auto
  have "hd (h @ CHR '':'' # p) \<noteq> CHR ''[''" using assms by (cases h) auto
  then show ?thesis using l assms by (auto simp: splitHostPort_def)
qed

subsection \<open>Headers\<close>

type_synonym Header = "string \<rightharpoonup> string list"

definition tokenByte :: "char \<Rightarrow> bool" where
  "tokenByte c \<longleftrightarrow> isDigit c \<or> lowerChar c \<noteq> c \<or> upperChar c \<noteq> c \<or> byte c \<in> {33, 35, 36, 37, 38, 39, 42, 43, 45, 46, 94, 95, 96, 124, 126}"

fun canonScan :: "bool \<Rightarrow> string \<Rightarrow> string" where
  "canonScan up [] = []"
| "canonScan up (c # cs) = (if up then upperChar c else lowerChar c) # canonScan (c = CHR ''-'') cs"

definition canonicalKey :: "string \<Rightarrow> string" where
  "canonicalKey s = (if list_all tokenByte s then canonScan True s else s)"

definition hValues :: "Header \<Rightarrow> string \<Rightarrow> string list" where
  "hValues h k = mget [] h (canonicalKey k)"

definition hGet :: "Header \<Rightarrow> string \<Rightarrow> string" where
  "hGet h k = (case hValues h k of [] \<Rightarrow> [] | v # _ \<Rightarrow> v)"

definition hSet :: "string \<Rightarrow> string \<Rightarrow> Header \<Rightarrow> Header" where
  "hSet k v h = h(canonicalKey k \<mapsto> [v])"

definition hDel :: "string \<Rightarrow> Header \<Rightarrow> Header" where
  "hDel k h = h(canonicalKey k := None)"

lemma hValues_hSet: "hValues (hSet j v h) k = (if canonicalKey k = canonicalKey j then [v] else hValues h k)"
  by (simp add: hValues_def hSet_def)

lemma hValues_hDel: "hValues (hDel j h) k = (if canonicalKey k = canonicalKey j then [] else hValues h k)"
  by (simp add: hValues_def hDel_def mget_def)

lemma hGet_hSet: "hGet (hSet j v h) k = (if canonicalKey k = canonicalKey j then v else hGet h k)"
  by (simp add: hGet_def hValues_hSet)

lemma hGet_hDel: "hGet (hDel j h) k = (if canonicalKey k = canonicalKey j then [] else hGet h k)"
  by (simp add: hGet_def hValues_hDel)

subsection \<open>Paths\<close>

text \<open>\<^verbatim>\<open>path.Clean\<close>: the segment stack is kept in reverse.  In a rooted path \<^verbatim>\<open>..\<close> at the root disappears,
  in a relative one it stays.\<close>

fun cleanSegs :: "bool \<Rightarrow> string list \<Rightarrow> string list \<Rightarrow> string list" where
  "cleanSegs rooted [] acc = rev acc"
| "cleanSegs rooted (s # ss) acc =
     (if s = [] \<or> s = ''.'' then cleanSegs rooted ss acc
      else if s = ''..'' then
        (case acc of
           [] \<Rightarrow> cleanSegs rooted ss (if rooted then [] else [''..''])
         | t # acc' \<Rightarrow> if t = ''..'' then cleanSegs rooted ss (''..'' # acc) else cleanSegs rooted ss acc')
      else cleanSegs rooted ss (s # acc))"

definition pathClean :: "string \<Rightarrow> string" where
  "pathClean p =
     (let rooted = hasPrefix p ''/''; body = joinWith ''/'' (cleanSegs rooted (splitOn CHR ''/'' p) [])
      in if rooted then CHR ''/'' # body else if body = [] then ''.'' else body)"

text \<open>\<^verbatim>\<open>filepath.Join\<close> of two elements.\<close>

definition pathJoin :: "string \<Rightarrow> string \<Rightarrow> string" where
  "pathJoin a b =
     (if a = [] \<and> b = [] then [] else if a = [] then pathClean b else if b = [] then pathClean a else pathClean (a @ ''/'' @ b))"

text \<open>\<^verbatim>\<open>path.Ext\<close>: from the last dot of the last element, \<^verbatim>\<open>filepath.Base\<close> for the last element.\<close>

definition pathExt :: "string \<Rightarrow> string" where
  "pathExt p =
     (let l = last (splitOn CHR ''/'' p)
      in case lastIndexByte l CHR ''.'' of None \<Rightarrow> [] | Some i \<Rightarrow> drop i l)"

definition pathBase :: "string \<Rightarrow> string" where
  "pathBase p =
     (if p = [] then ''.''
      else let q = trimRight (\<lambda>c. c = CHR ''/'') p in if q = [] then ''/'' else last (splitOn CHR ''/'' q))"

lemma cleanSegs_append: "cleanSegs rt (xs @ ys) acc = cleanSegs rt ys (rev (cleanSegs rt xs acc))"
  by (induction rt xs acc rule: cleanSegs.induct) (auto split: list.splits)

definition plainSeg :: "string \<Rightarrow> bool" where
  "plainSeg s \<longleftrightarrow> s \<noteq> [] \<and> s \<noteq> ''.'' \<and> s \<noteq> ''..'' \<and> CHR ''/'' \<notin> set s"

lemma cleanSegs_plain: "list_all plainSeg xs \<Longrightarrow> cleanSegs rt xs acc = rev acc @ xs"
  by (induction xs arbitrary: acc) (auto simp: plainSeg_def)

lemma cleanSegs_rooted:
  "list_all plainSeg acc \<Longrightarrow> \<forall>s\<in>set xs. CHR ''/'' \<notin> set s \<Longrightarrow> list_all plainSeg (cleanSegs True xs acc)"
proof (induction xs arbitrary: acc)
  case (Cons x xs)
  then show ?case by (cases acc) (auto simp: plainSeg_def)
qed simp

lemma splitOn_no_slash: "s \<in> set (splitOn c x) \<Longrightarrow> c \<notin> set s"
  by (induction x arbitrary: s) (auto split: if_splits list.splits)

lemma splitOn_joined:
  "list_all plainSeg xs \<Longrightarrow> splitOn CHR ''/'' (joinWith ''/'' xs) = (if xs = [] then [[]] else xs)"
  using split_join [of xs "CHR ''/''"] by (auto simp: plainSeg_def list_all_iff)

lemma pathClean_plain_tail:
  assumes "list_all plainSeg xs" "xs \<noteq> []" "a \<noteq> []"
  shows "pathClean (a @ ''/'' @ joinWith ''/'' xs) =
    (let segs = cleanSegs (hasPrefix a ''/'') (splitOn CHR ''/'' a) [] @ xs
     in if hasPrefix a ''/'' then CHR ''/'' # joinWith ''/'' segs else joinWith ''/'' segs)"
proof -
  have "hasPrefix (a @ ''/'' @ joinWith ''/'' xs) ''/'' = hasPrefix a ''/''" using assms(3) by (cases a) (auto simp: hasPrefix_def)
  moreover have "cleanSegs rt (splitOn CHR ''/'' (a @ ''/'' @ joinWith ''/'' xs)) [] = cleanSegs rt (splitOn CHR ''/'' a) [] @ xs" for rt
    using assms splitOn_append_sep [of "CHR ''/''" a "joinWith ''/'' xs"]
    by (simp add: cleanSegs_append splitOn_joined cleanSegs_plain)
  moreover have "joinWith ''/'' (ys @ xs) \<noteq> []" for ys
  proof -
    obtain z zs where z: "ys @ xs = z # zs" by (metis assms(2) append_is_Nil_conv list.exhaust)
    have "z \<noteq> [] \<or> zs \<noteq> []"
      using z assms(1,2) by (cases ys) (auto simp: plainSeg_def)
    then show ?thesis unfolding z by (cases zs) auto
  qed
  ultimately show ?thesis by (simp add: pathClean_def Let_def)
qed

subsection \<open>Printing and reading addresses, membership\<close>

lemma decimal_no_leading_zero: "length (decimal n) = 1 \<or> hd (decimal n) \<noteq> CHR ''0''"
proof (induction n rule: decimal.induct)
  case (1 n)
  show ?case
  proof (cases "n < 100")
    case True
    have "hd (decimal n) \<noteq> CHR ''0''" if "\<not> n < 10"
    proof -
      have d: "decimal n = [digitChar (n div 10), digitChar (n mod 10)]" using True that by (simp add: decimal.simps [of n] decimal.simps [of "n div 10"])
      have "n div 10 < 10" "n div 10 > 0" using True that by auto
      then have "digitVal (digitChar (n div 10)) \<noteq> 0" by simp
      moreover have "digitVal (CHR ''0'') = 0" by (simp add: digitVal_def byte_def)
      ultimately show ?thesis using d by auto
    qed
    then show ?thesis by (auto simp: decimal.simps [of n])
  next
    case False
    then have "length (decimal (n div 10)) \<noteq> 1"
      by (subst decimal.simps) simp
    then have "hd (decimal (n div 10)) \<noteq> CHR ''0''" using 1 False by auto
    then show ?thesis using False by (simp add: decimal.simps [of n])
  qed
qed

lemma octet_decimal [simp]: "n \<le> 255 \<Longrightarrow> octet (decimal n) = Some n"
  using decimal_no_leading_zero [of n] by (simp add: octet_def)

lemma parseIPv4_string4: "parseIPv4 (string4 w) = Some w"
proof -
  let ?n = "unat w"
  have dot: "CHR ''.'' \<notin> set (decimal m)" for m using decimal_chars digit_not_sign by (fastforce simp: isDigit_def byte_def)
  have lt: "?n < 2 ^ 32" using unsigned_less [of w] by simp
  have "splitOn CHR ''.'' (string4 w) =
      [decimal (?n div 16777216), decimal (?n div 65536 mod 256), decimal (?n div 256 mod 256), decimal (?n mod 256)]"
    by (simp add: string4_def Let_def splitOn_append splitOn_no_sep dot)
  moreover have "((?n div 16777216 * 256 + ?n div 65536 mod 256) * 256 + ?n div 256 mod 256) * 256 + ?n mod 256 = ?n"
  proof -
    have "?n div 16777216 = ?n div 256 div 256 div 256" "?n div 65536 = ?n div 256 div 256" by (simp_all add: div_mult2_eq [symmetric])
    moreover have "m div 256 * 256 + m mod 256 = m" for m :: nat by (simp add: mult.commute)
    ultimately show ?thesis by metis
  qed
  moreover have "?n div 16777216 \<le> 255" using lt by (simp add: div_le_mono less_mult_imp_div_less)
  ultimately show ?thesis by (simp add: parseIPv4_def del: of_nat_add of_nat_mult)
qed

lemma parseAddr_string4: "parseAddr (string4 w) = Some (V4 w)"
proof -
  have scan: "\<forall>c\<in>set ds. isDigit c \<Longrightarrow> parseAddrScan s (ds @ CHR ''.'' # rest) = map_option V4 (parseIPv4 s)" for s ds rest
    by (induction ds) (auto simp: isDigit_def byte_def)
  have "string4 w = decimal (unat w div 16777216) @ CHR ''.'' # (decimal (unat w div 65536 mod 256) @ ''.'' @
      decimal (unat w div 256 mod 256) @ ''.'' @ decimal (unat w mod 256))"
    by (simp add: string4_def Let_def)
  then have "parseAddrScan s (string4 w) = map_option V4 (parseIPv4 s)" for s
    using scan decimal_chars by metis
  then show ?thesis by (simp add: parseAddr_def parseIPv4_string4)
qed

lemma word_xor_eq_0 [simp]: "a XOR b = 0 \<longleftrightarrow> a = (b :: 'a::len word)"
  by (auto simp: bit_eq_iff bit_simps)

lemma prefixContains_V4:
  "prefixContains \<lparr>p_Addr = V4 a, p_Bits = n\<rparr> (V4 b) \<longleftrightarrow> drop_bit (32 - n) a = drop_bit (32 - n) b"
  by simp

lemma prefixContains_V6:
  "prefixContains \<lparr>p_Addr = V6 a y, p_Bits = n\<rparr> (V6 b z) \<longleftrightarrow> z = [] \<and> drop_bit (128 - n) a = drop_bit (128 - n) b"
  by simp

lemma prefixContains_self: "a \<noteq> NoAddr \<Longrightarrow> prefixContains \<lparr>p_Addr = withoutZone a, p_Bits = bitLen a\<rparr> b \<longleftrightarrow> b = withoutZone a"
  by (cases a; cases b) auto

end
