(* ===== verification/Policy.thy ===== *)
theory Policy
  imports GatewayStore PortPool GoNet
begin

text \<open>
  Per-domain traffic policy (\<^verbatim>\<open>internal/gateway/policy.go\<close>, \<^verbatim>\<open>internal/gateway/security.go\<close>): merging the
  gateway's defaults with a domain's row, address rules, the client address a rule is evaluated against,
  security headers and the scanner and sensitive-path blocks.  The regular-expression engine is a
  parameter: \<open>compile\<close> (None when a pattern does not compile) and \<open>matches\<close>.
\<close>

subsection \<open>Configuration, requests\<close>

text \<open>The fields of \<^verbatim>\<open>config.Config\<close> the data plane reads.\<close>

record Config =
  cfg_GatewayHTTPSAddr :: string
  cfg_GatewayForceHTTPS :: bool
  cfg_GatewayHSTSMaxAge :: int
  cfg_GatewayClientMaxBodyBytes :: int
  cfg_GatewayConnectTimeoutMS :: int
  cfg_GatewayReadTimeoutMS :: int
  cfg_GatewaySendTimeoutMS :: int
  cfg_GatewayWebsocket :: bool
  cfg_GatewayTrustForwardedFor :: bool
  cfg_GatewayStaticRoot :: string
  cfg_GatewayStaticFallback :: bool
  cfg_GatewaySecurityHeaders :: "string list"
  cfg_GatewayBlockUserAgents :: "string list"
  cfg_GatewayBlockPaths :: "string list"

text \<open>A request as the handlers read it; query and cookies are already parsed into pairs.\<close>

record Request =
  rq_Method :: string
  rq_Host :: string
  rq_Path :: string
  rq_RawPath :: string
  rq_RequestURI :: string
  rq_Query :: "(string \<times> string) list"
  rq_Cookies :: "(string \<times> string) list"
  rq_Header :: Header
  rq_RemoteAddr :: string
  rq_ContentLength :: int
  rq_BodyLimit :: "int option"

subsection \<open>Policy\<close>

record 're Policy =
  pol_ForceHTTPS :: bool
  pol_HSTSMaxAge :: int
  pol_Allow :: "Prefix list"
  pol_Deny :: "Prefix list"
  pol_ClientMaxBodyBytes :: int
  pol_ConnectTimeoutMS :: int
  pol_ReadTimeoutMS :: int
  pol_SendTimeoutMS :: int
  pol_Websocket :: bool
  pol_SecurityHeaders :: "(string \<times> string) list"
  pol_BlockUserAgents :: "'re list"
  pol_BlockPaths :: "'re list"

definition parsePrefix :: "string \<Rightarrow> Prefix option" where
  "parsePrefix s =
     (if contains s ''/'' then parsePrefixCIDR s
      else case parseAddr s of None \<Rightarrow> None | Some a \<Rightarrow> Some \<lparr>p_Addr = withoutZone a, p_Bits = bitLen a\<rparr>)"

text \<open>\<^verbatim>\<open>strings.FieldsFunc\<close> with newline and comma as separators.\<close>

definition fieldsNLComma :: "string \<Rightarrow> string list" where
  "fieldsNLComma raw =
     filter (\<lambda>l. l \<noteq> []) (splitOn CHR 0x0A (map (\<lambda>c. if c = CHR '','' then CHR 0x0A else c) raw))"

fun prefixLines :: "string list \<Rightarrow> Prefix list" where
  "prefixLines [] = []"
| "prefixLines (line # rest) =
     (let s = trimSpace line
      in if s = [] \<or> hasPrefix s ''#'' then prefixLines rest
         else case parsePrefix s of None \<Rightarrow> prefixLines rest | Some p \<Rightarrow> p # prefixLines rest)"

definition parsePrefixList :: "string \<Rightarrow> Prefix list" where
  "parsePrefixList raw = (if trimSpace raw = [] then [] else prefixLines (fieldsNLComma raw))"

text \<open>\<^verbatim>\<open>Policy.Allowed\<close>.\<close>

definition Allowed :: "('re, 'x) Policy_scheme \<Rightarrow> Addr \<Rightarrow> bool" where
  "Allowed p a =
     (if \<not> addrValid a then pol_Allow p = []
      else if list_ex (\<lambda>q. prefixContains q a) (pol_Deny p) then False
      else if pol_Allow p = [] then True
      else list_ex (\<lambda>q. prefixContains q a) (pol_Allow p))"

definition ClientAddr :: "Request \<Rightarrow> bool \<Rightarrow> Addr" where
  "ClientAddr r trustForwardedFor =
     (let xff = hGet (rq_Header r) ''X-Forwarded-For'';
          xr = trimSpace (hGet (rq_Header r) ''X-Real-IP'');
          fromXFF = (if xff \<noteq> [] then parseAddr (trimSpace (splitOn CHR '','' xff ! 0)) else None);
          fromReal = (if xr \<noteq> [] then parseAddr xr else None);
          host = (case splitHostPort (rq_RemoteAddr r) of Some (h, _) \<Rightarrow> h | None \<Rightarrow> rq_RemoteAddr r);
          bracket = (\<lambda>c. c = CHR ''['' \<or> c = CHR '']'');
          peer = (case parseAddr (trimRight bracket (trimLeft bracket host)) of Some a \<Rightarrow> unmap a | None \<Rightarrow> NoAddr)
      in if trustForwardedFor
         then (case fromXFF of Some a \<Rightarrow> unmap a
               | None \<Rightarrow> (case fromReal of Some a \<Rightarrow> unmap a | None \<Rightarrow> peer))
         else peer)"

fun metaPairs :: "string list \<Rightarrow> smap \<Rightarrow> smap" where
  "metaPairs [] out = out"
| "metaPairs (p # ps) out =
     (let pair = trimSpace p
      in if pair = [] then metaPairs ps out
         else let (k, v, ok) = cutAt CHR ''='' pair
              in if \<not> ok then metaPairs ps out
                 else if trimSpace k \<noteq> [] then metaPairs ps (aput out (trimSpace k) (trimSpace v))
                 else metaPairs ps out)"

definition parseMetaFilter :: "string \<Rightarrow> smap" where
  "parseMetaFilter raw = (if raw = [] then [] else metaPairs (splitOn CHR '','' raw) [])"

subsection \<open>Security rules\<close>

fun parseSecurityHeaders :: "string list \<Rightarrow> (string \<times> string) list" where
  "parseSecurityHeaders [] = []"
| "parseSecurityHeaders (line # rest) =
     (case indexByte line CHR '':'' of
        None \<Rightarrow> parseSecurityHeaders rest
      | Some idx \<Rightarrow>
          if idx = 0 then parseSecurityHeaders rest
          else let name = trimSpace (take idx line); val = trimSpace (drop (Suc idx) line)
               in if name = [] then parseSecurityHeaders rest else (name, val) # parseSecurityHeaders rest)"

fun compilePatterns :: "(string \<Rightarrow> 're option) \<Rightarrow> string list \<Rightarrow> 're list" where
  "compilePatterns compile [] = []"
| "compilePatterns compile (pat # rest) =
     (if trimSpace pat = [] then compilePatterns compile rest
      else case compile pat of None \<Rightarrow> compilePatterns compile rest | Some re \<Rightarrow> re # compilePatterns compile rest)"

definition matchesAny :: "('re \<Rightarrow> string \<Rightarrow> bool) \<Rightarrow> 're list \<Rightarrow> string \<Rightarrow> bool" where
  "matchesAny matches res s = list_ex (\<lambda>re. matches re s) res"

definition applyHeaders :: "('re, 'x) Policy_scheme \<Rightarrow> Header \<Rightarrow> Header" where
  "applyHeaders p h = foldl (\<lambda>h (n, v). hSet n v h) h (pol_SecurityHeaders p)"

text \<open>\<^verbatim>\<open>rejectSensitiveRequest\<close>: the status it writes, or None when the request passes.\<close>

definition rejectSensitiveRequest :: "('re \<Rightarrow> string \<Rightarrow> bool) \<Rightarrow> ('re, 'x) Policy_scheme \<Rightarrow> Request \<Rightarrow> nat option" where
  "rejectSensitiveRequest matches p r =
     (if pol_BlockUserAgents p \<noteq> [] \<and> matchesAny matches (pol_BlockUserAgents p) (hGet (rq_Header r) ''User-Agent'') then Some 403
      else if pol_BlockPaths p \<noteq> [] \<and> matchesAny matches (pol_BlockPaths p) (rq_Path r) then Some 404
      else None)"

definition resolvePolicy :: "(string \<Rightarrow> 're option) \<Rightarrow> Config \<Rightarrow> smap VHostPolicy option \<Rightarrow> 're Policy" where
  "resolvePolicy compile cfg v =
     (let p = \<lparr>pol_ForceHTTPS = cfg_GatewayForceHTTPS cfg, pol_HSTSMaxAge = cfg_GatewayHSTSMaxAge cfg,
               pol_Allow = [], pol_Deny = [], pol_ClientMaxBodyBytes = cfg_GatewayClientMaxBodyBytes cfg,
               pol_ConnectTimeoutMS = cfg_GatewayConnectTimeoutMS cfg, pol_ReadTimeoutMS = cfg_GatewayReadTimeoutMS cfg,
               pol_SendTimeoutMS = cfg_GatewaySendTimeoutMS cfg, pol_Websocket = cfg_GatewayWebsocket cfg,
               pol_SecurityHeaders = parseSecurityHeaders (cfg_GatewaySecurityHeaders cfg),
               pol_BlockUserAgents = compilePatterns compile (cfg_GatewayBlockUserAgents cfg),
               pol_BlockPaths = compilePatterns compile (cfg_GatewayBlockPaths cfg)\<rparr>;
          pos = (\<lambda>x d. if x > (0::int) then x else d)
      in case v of
           None \<Rightarrow> p
         | Some v \<Rightarrow>
             p\<lparr>pol_ForceHTTPS := v_ForceHTTPS v,
               pol_HSTSMaxAge := pos (v_HSTSMaxAge v) (pol_HSTSMaxAge p),
               pol_Allow := parsePrefixList (v_AllowIPs v),
               pol_Deny := parsePrefixList (v_DenyIPs v),
               pol_ClientMaxBodyBytes := pos (v_ClientMaxBodyBytes v) (pol_ClientMaxBodyBytes p),
               pol_ConnectTimeoutMS := pos (v_ConnectTimeoutMS v) (pol_ConnectTimeoutMS p),
               pol_ReadTimeoutMS := pos (v_ReadTimeoutMS v) (pol_ReadTimeoutMS p),
               pol_SendTimeoutMS := pos (v_SendTimeoutMS v) (pol_SendTimeoutMS p),
               pol_Websocket := v_Websocket v\<rparr>)"

subsection \<open>What the address rules mean\<close>

lemma fieldsNLComma_single:
  assumes "s \<noteq> []" "set s \<inter> {CHR '','', CHR 0x0A} = {}"
  shows "fieldsNLComma s = [s]"
proof -
  have "map (\<lambda>c. if c = CHR '','' then CHR 0x0A else c) s = s" using assms(2) by (intro map_idI) auto
  then show ?thesis using assms by (simp add: fieldsNLComma_def splitOn_no_sep)
qed

definition ruleChar :: "char \<Rightarrow> bool" where
  "ruleChar c \<longleftrightarrow> isDigit c \<or> c = CHR ''.'' \<or> c = CHR ''/''"

lemma ruleChar_plain: "ruleChar c \<Longrightarrow> \<not> isSpace c \<and> c \<noteq> CHR '','' \<and> c \<noteq> CHR 0x0A \<and> c \<noteq> CHR ''#''"
  by (auto simp: ruleChar_def isDigit_def isSpace_def byte_def)

lemma string4_ruleChar: "\<forall>c\<in>set (string4 w). ruleChar c"
  using decimal_chars by (auto simp: string4_def Let_def ruleChar_def)

lemma parsePrefix_V4_cidr:
  assumes "n \<le> 32"
  shows "parsePrefix (string4 a @ ''/'' @ decimal n) = Some \<lparr>p_Addr = V4 a, p_Bits = n\<rparr>"
proof -
  let ?s = "string4 a @ CHR ''/'' # decimal n"
  have ns: "CHR ''/'' \<notin> set (decimal n)" using decimal_chars by (fastforce simp: isDigit_def byte_def)
  then have l: "lastIndexByte ?s CHR ''/'' = Some (length (string4 a))" by (rule lastIndexByte_at)
  have c: "contains ?s ''/''" by (auto simp: contains_iff)
  have at: "atoi (decimal n) = Some (int n)"
    using atoi_itoa [of "int n"] assms by (simp add: strconvItoa_def)
  have "isDigit (hd (decimal n))" by (rule decimal_hd)
  moreover have "byte c = 48 \<Longrightarrow> c = CHR ''0''" for c     using of_char_eqI [of c "CHR ''0''", where 'a = nat] by (simp add: byte_def)
  ultimately have hd: "length (decimal n) > 1 \<Longrightarrow> \<not> (byte (hd (decimal n)) < 49 \<or> byte (hd (decimal n)) > 57)"
    using decimal_no_leading_zero [of n] by (auto simp: isDigit_def le_less)
  show ?thesis using l c at hd assms
    by (simp add: parsePrefix_def parsePrefixCIDR_def parseAddr_string4 Let_def)
qed

lemma parsePrefixList_cidr:
  assumes "n \<le> 32"
  shows "parsePrefixList (string4 a @ ''/'' @ decimal n) = [\<lparr>p_Addr = V4 a, p_Bits = n\<rparr>]"
proof -
  let ?s = "string4 a @ ''/'' @ decimal n"
  have ch: "\<forall>c\<in>set ?s. ruleChar c"
    using string4_ruleChar [of a] decimal_chars [of _ n] by (auto simp: ruleChar_def)
  then have t: "trimSpace ?s = ?s" using ruleChar_plain by (intro trimSpace_none) (auto simp: list_all_iff)
  have f: "fieldsNLComma ?s = [?s]"
  proof (rule fieldsNLComma_single)
    show "set ?s \<inter> {CHR '','', CHR 0x0A} = {}" using ch ruleChar_plain by blast
  qed simp
  have "\<not> hasPrefix ?s ''#''"
  proof
    assume "hasPrefix ?s ''#''"
    then have "CHR ''#'' \<in> set ?s" by (metis hasPrefix_iff in_set_conv_decomp append_Cons append_Nil)
    then show False using ch ruleChar_plain by blast
  qed
  then show ?thesis using t f parsePrefix_V4_cidr [OF assms, of a]
    by (simp add: parsePrefixList_def Let_def)
qed

text \<open>Address rules written as CIDR text mean what they say.  For a domain row whose allow list is
  the text of an IPv4 network of length \<open>n\<close> and whose deny list is the text of another of length \<open>m\<close>, a
  client is admitted exactly when its address is an IPv4 address that agrees with the allowed network in
  the first \<open>n\<close> bits and disagrees with the denied one in the first \<open>m\<close>: deny wins, everybody else
  (IPv6 clients and unreadable addresses included) stays outside.\<close>

theorem cidr_rules_exact:
  assumes "n \<le> 32" "m \<le> 32"
    and "v_AllowIPs v = string4 a @ ''/'' @ decimal n" and "v_DenyIPs v = string4 d @ ''/'' @ decimal m"
  shows "Allowed (resolvePolicy compile cfg (Some v)) c \<longleftrightarrow>
    (\<exists>w. c = V4 w \<and> drop_bit (32 - n) w = drop_bit (32 - n) a \<and> drop_bit (32 - m) w \<noteq> drop_bit (32 - m) d)"
proof -
  have "pol_Allow (resolvePolicy compile cfg (Some v)) = [\<lparr>p_Addr = V4 a, p_Bits = n\<rparr>]"
    "pol_Deny (resolvePolicy compile cfg (Some v)) = [\<lparr>p_Addr = V4 d, p_Bits = m\<rparr>]"
    using assms parsePrefixList_cidr by (simp_all add: resolvePolicy_def Let_def)
  then show ?thesis by (cases c) (auto simp: Allowed_def)
qed

definition sampleVHost :: "smap VHostPolicy" where
  "sampleVHost = \<lparr>v_NamespaceId = ''public'', v_Domain = ''example.com'', v_ForceHTTPS = False, v_HSTSMaxAge = 0,
     v_AllowIPs = ''10.0.0.0/8'', v_DenyIPs = ''10.1.0.0/16'', v_ClientMaxBodyBytes = 0, v_ConnectTimeoutMS = 0,
     v_ReadTimeoutMS = 0, v_SendTimeoutMS = 0, v_Websocket = True, v_Metadata = []\<rparr>"

definition sampleConfig :: Config where
  "sampleConfig = \<lparr>cfg_GatewayHTTPSAddr = '':8443'', cfg_GatewayForceHTTPS = True, cfg_GatewayHSTSMaxAge = 0,
     cfg_GatewayClientMaxBodyBytes = 0, cfg_GatewayConnectTimeoutMS = 3000, cfg_GatewayReadTimeoutMS = 60000,
     cfg_GatewaySendTimeoutMS = 60000, cfg_GatewayWebsocket = True, cfg_GatewayTrustForwardedFor = False,
     cfg_GatewayStaticRoot = '''', cfg_GatewayStaticFallback = True, cfg_GatewaySecurityHeaders = [''X-Frame-Options: DENY''],
     cfg_GatewayBlockUserAgents = [], cfg_GatewayBlockPaths = []\<rparr>"

text \<open>Evaluation of address text by rewriting.\<close>

lemmas addr_eval = string4_def Let_def decimal.simps digitChar_def char_of_def parseAddr_def parseIPv4_def octet_def
  isDigit_def byte_def decValue_def digitVal_def parsePrefixCIDR_def parsePrefix_def hasPrefix_def atoi_def parseIPv6_def
  isHex_def hexNibble_def hexGroup_def groupsWord_def trimSpace_def trimLeft_def trimRight_def isSpace_def fieldsNLComma_def
  parsePrefixList_def splitHostPort_def bit_Suc_0_iff
  parse6Loop.simps(2) [of "pred_numeral k" for k, folded numeral_eq_Suc]
  replicate_Suc [of "pred_numeral k" for k, folded numeral_eq_Suc]

theorem cidr_rules_exact_witness:
  "Allowed (resolvePolicy Some sampleConfig (Some sampleVHost)) (V4 0x0a020003) \<and>
   \<not> Allowed (resolvePolicy Some sampleConfig (Some sampleVHost)) (V4 0x0a010003)"
proof -
  have t: "string4 0x0a000000 @ ''/'' @ decimal 8 = ''10.0.0.0/8''" "string4 0x0a010000 @ ''/'' @ decimal 16 = ''10.1.0.0/16''"
    by (simp_all add: addr_eval)
  have al: "v_AllowIPs sampleVHost = string4 0x0a000000 @ ''/'' @ decimal 8" "v_DenyIPs sampleVHost = string4 0x0a010000 @ ''/'' @ decimal 16"
    unfolding t by (simp_all add: sampleVHost_def)
  have "Allowed (resolvePolicy Some sampleConfig (Some sampleVHost)) c \<longleftrightarrow>
    (\<exists>w. c = V4 w \<and> drop_bit 24 w = drop_bit 24 (0x0a000000 :: 32 word) \<and> drop_bit 16 w \<noteq> drop_bit 16 (0x0a010000 :: 32 word))" for c
    using cidr_rules_exact [OF _ _ al, of Some sampleConfig c] by simp
  then show ?thesis by auto
qed

text \<open>Forwarding headers cannot move a client past the rules of a directly exposed gateway: while
  \<^verbatim>\<open>GatewayTrustForwardedFor\<close> is off, the address every rule is evaluated against, and so the verdict, is a
  function of the connection's peer address alone.\<close>

theorem untrusted_headers_ignored:
  assumes "\<not> cfg_GatewayTrustForwardedFor cfg" and "rq_RemoteAddr r = rq_RemoteAddr r'"
  shows "ClientAddr r (cfg_GatewayTrustForwardedFor cfg) = ClientAddr r' (cfg_GatewayTrustForwardedFor cfg) \<and>
    Allowed pol (ClientAddr r (cfg_GatewayTrustForwardedFor cfg)) = Allowed pol (ClientAddr r' (cfg_GatewayTrustForwardedFor cfg))"
proof -
  have "ClientAddr r False = ClientAddr r' False" unfolding ClientAddr_def Let_def assms(2) by simp
  then show ?thesis using assms(1) by simp
qed

definition sampleRequest :: Request where
  "sampleRequest = \<lparr>rq_Method = ''GET'', rq_Host = ''example.com'', rq_Path = ''/api'', rq_RawPath = '''', rq_RequestURI = ''/api'',
     rq_Query = [], rq_Cookies = [], rq_Header = Map.empty, rq_RemoteAddr = ''10.2.0.3:5000'', rq_ContentLength = 0, rq_BodyLimit = None\<rparr>"

theorem untrusted_headers_ignored_witness:
  "ClientAddr (sampleRequest\<lparr>rq_Header := [''X-Forwarded-For'' \<mapsto> [''1.2.3.4'']]\<rparr>) False = V4 0x0a020003"
proof -
  have "ClientAddr sampleRequest False = V4 0x0a020003" by (simp add: ClientAddr_def sampleRequest_def addr_eval)
  then show ?thesis
    using untrusted_headers_ignored [THEN conjunct1, of sampleConfig "sampleRequest\<lparr>rq_Header := [''X-Forwarded-For'' \<mapsto> [''1.2.3.4'']]\<rparr>" sampleRequest]
    by (simp add: sampleConfig_def)
qed

subsection \<open>Where the rules are weaker than their comments\<close>

text \<open>A client whose address cannot be read passes a domain that has only deny rules; an allow list
  whose only entry has a typo admits everybody; a scoped link-local client is matched by no rule.\<close>

lemma unreadable_client_passes_deny_list:
  "Allowed (resolvePolicy Some sampleConfig (Some (sampleVHost\<lparr>v_AllowIPs := '''', v_DenyIPs := ''0.0.0.0/0''\<rparr>))) NoAddr"
  by (simp add: Allowed_def resolvePolicy_def Let_def parsePrefixList_def)

lemma misspelt_allow_list_admits_everybody:
  "Allowed (resolvePolicy Some sampleConfig (Some (sampleVHost\<lparr>v_AllowIPs := ''10.0.0.0/33'', v_DenyIPs := ''''\<rparr>))) a"
proof -
  have "parsePrefixList ''10.0.0.0/33'' = []" "parsePrefixList '''' = []" by (simp_all add: addr_eval)
  then show ?thesis by (cases a) (simp_all add: Allowed_def resolvePolicy_def Let_def)
qed

lemma scoped_client_passes_deny_list:
  defines "pol \<equiv> resolvePolicy Some sampleConfig (Some (sampleVHost\<lparr>v_AllowIPs := '''', v_DenyIPs := ''fe80::/10''\<rparr>))"
  shows "Allowed pol (ClientAddr (sampleRequest\<lparr>rq_RemoteAddr := ''[fe80::1%eth0]:443''\<rparr>) False)"
    and "\<not> Allowed pol (ClientAddr (sampleRequest\<lparr>rq_RemoteAddr := ''[fe80::1]:443''\<rparr>) False)"
proof -
  have p: "pol_Deny pol = [\<lparr>p_Addr = V6 0xfe800000000000000000000000000000 [], p_Bits = 10\<rparr>]" "pol_Allow pol = []"
    unfolding pol_def resolvePolicy_def by (simp_all add: addr_eval)
  have c: "ClientAddr (sampleRequest\<lparr>rq_RemoteAddr := ''[fe80::1%eth0]:443''\<rparr>) False = V6 0xfe800000000000000000000000000001 ''eth0''"
    "ClientAddr (sampleRequest\<lparr>rq_RemoteAddr := ''[fe80::1]:443''\<rparr>) False = V6 0xfe800000000000000000000000000001 []"
    by (simp_all add: ClientAddr_def sampleRequest_def addr_eval)
  show "Allowed pol (ClientAddr (sampleRequest\<lparr>rq_RemoteAddr := ''[fe80::1%eth0]:443''\<rparr>) False)"
    by (simp add: Allowed_def p c)
  show "\<not> Allowed pol (ClientAddr (sampleRequest\<lparr>rq_RemoteAddr := ''[fe80::1]:443''\<rparr>) False)"
    by (simp add: Allowed_def p c)
qed

end
