(* ===== verification/Static.thy ===== *)
theory Static
  imports RouteTable Policy
begin

text \<open>
  Static delivery of frontend sites (\<^verbatim>\<open>internal/gateway/static.go\<close>, \<^verbatim>\<open>sanitizeFilename\<close> of
  \<^verbatim>\<open>selfsigned.go\<close>).  The file system is a parameter: \<open>fs\<close> says what a path names, \<open>readable\<close> whether it
  can be opened.
\<close>

datatype fkind = FFile | FDir

datatype StaticBody = Served string | StaticNotFound

subsection \<open>Where the files are\<close>

definition fileRune :: "string \<Rightarrow> string" where
  "fileRune r =
     (case r of
        [c] \<Rightarrow> if isDigit c \<or> lowerChar c \<noteq> c \<or> upperChar c \<noteq> c \<or> c = CHR ''.'' \<or> c = CHR ''-'' \<or> c = CHR ''_'' then [c] else ''_''
      | _ \<Rightarrow> ''_'')"

definition sanitizeFilename :: "string \<Rightarrow> string" where
  "sanitizeFilename domain =
     (let name = concat (map fileRune (runes (NormalizeDomain domain)));
          junk = (\<lambda>c. c = CHR ''.'' \<or> c = CHR ''_'')
      in if trimRight junk (trimLeft junk name) = [] then ''unnamed'' else name)"

definition staticRoot :: "Config \<Rightarrow> Target \<Rightarrow> string" where
  "staticRoot cfg t =
     (if cfg_GatewayStaticRoot cfg = [] then []
      else if tg_Protocol t \<noteq> ''static'' then []
      else pathJoin (cfg_GatewayStaticRoot cfg) (sanitizeFilename (tg_AppName t @ ''-'' @ tg_ComponentName t)))"

definition servesStatic :: "Config \<Rightarrow> (string \<Rightarrow> fkind option) \<Rightarrow> Target \<Rightarrow> bool" where
  "servesStatic cfg fs t =
     (let root = staticRoot cfg t; delivery = toLower (trimSpace (aget (tg_Metadata t) ''delivery''))
      in if root = [] then False
         else if delivery = ''proxy'' then False
         else if delivery = ''static'' then True
         else fs root = Some FDir)"

subsection \<open>Delivery\<close>

definition fileExists :: "(string \<Rightarrow> fkind option) \<Rightarrow> string \<Rightarrow> bool" where
  "fileExists fs p \<longleftrightarrow> fs p = Some FFile"

definition looksLikeAsset :: "string \<Rightarrow> bool" where
  "looksLikeAsset p \<longleftrightarrow> pathExt p \<noteq> []"

definition isFingerprinted :: "string \<Rightarrow> bool" where
  "isFingerprinted p =
     (let name = pathBase p; stem = trimSuffix name (pathExt name)
      in if length stem < 9 then False
         else let tail = drop (length stem - 8) stem
              in list_all (\<lambda>c. isDigit c \<or> lowerChar c \<noteq> c \<or> upperChar c \<noteq> c \<or> c = CHR ''-'' \<or> c = CHR ''_'') tail \<and>
                 list_ex isDigit tail)"

definition serveStaticFile :: "(string \<Rightarrow> fkind option) \<Rightarrow> (string \<Rightarrow> bool) \<Rightarrow> string \<Rightarrow> string \<Rightarrow> Header \<Rightarrow> Header \<times> StaticBody" where
  "serveStaticFile fs readable filePath indexPath h =
     (let immutable = filePath \<noteq> indexPath \<and> isFingerprinted filePath;
          cache = (if immutable then ''public, max-age=31536000, immutable''
                   else if filePath = indexPath then ''no-cache'' else ''public, max-age=3600'');
          h' = hSet ''X-Goacos-Static'' ''true'' (hSet ''Cache-Control'' cache h)
      in if \<not> readable filePath then (h', StaticNotFound)
         else if fs filePath \<noteq> Some FFile then (h', StaticNotFound)
         else (h', Served filePath))"

text \<open>\<^verbatim>\<open>ServeStatic\<close>: None when the request falls through to the proxy.\<close>

definition ServeStatic :: "Config \<Rightarrow> (string \<Rightarrow> fkind option) \<Rightarrow> (string \<Rightarrow> bool) \<Rightarrow> Request \<Rightarrow> Target \<Rightarrow> Header \<Rightarrow>
    (Header \<times> StaticBody) option" where
  "ServeStatic cfg fs readable r t h =
     (let root = staticRoot cfg t
      in if root = [] then None
         else if \<not> servesStatic cfg fs t then None
         else let upath = pathClean (''/'' @ rq_Path r);
                  index = pathJoin root ''index.html'';
                  filePath = pathJoin root (trimPrefix upath ''/'');
                  entry = pathJoin filePath ''index.html''
              in if rq_Method r = ''GET'' \<or> rq_Method r = ''HEAD'' then
                   (if fs filePath = Some FFile then Some (serveStaticFile fs readable filePath index h)
                    else if fs filePath = Some FDir \<and> fileExists fs entry then Some (serveStaticFile fs readable entry index h)
                    else if cfg_GatewayStaticFallback cfg \<and> \<not> looksLikeAsset upath \<and> fileExists fs index
                         then Some (serveStaticFile fs readable index index h)
                    else Some (h, StaticNotFound))
                 else Some (h, StaticNotFound))"

subsection \<open>Delivery never leaves the component's directory\<close>

lemma fileRune_chars: "c \<in> set (fileRune r) \<Longrightarrow> c \<noteq> CHR ''/''"
  by (cases r rule: remdups_adj.cases) (auto simp: fileRune_def isDigit_def lowerChar_def upperChar_def byte_def split: if_splits)

lemma sanitizeFilename_plain: "plainSeg (sanitizeFilename d)"
proof -
  let ?n = "concat (map fileRune (runes (NormalizeDomain d)))"
  let ?j = "\<lambda>c. c = CHR ''.'' \<or> c = CHR ''_''"
  have s: "CHR ''/'' \<notin> set ?n" using fileRune_chars by auto
  have d: "n \<noteq> [] \<and> n \<noteq> ''.'' \<and> n \<noteq> ''..''" if "trimRight ?j (trimLeft ?j n) \<noteq> []" for n
    using that by (auto simp: trimLeft_def trimRight_def)
  show ?thesis
  proof (cases "trimRight ?j (trimLeft ?j ?n) = []")
    case True
    then show ?thesis by (simp add: sanitizeFilename_def plainSeg_def Let_def)
  next
    case False
    then show ?thesis using d [OF False] s unfolding sanitizeFilename_def plainSeg_def Let_def by simp
  qed
qed

text \<open>Cleaned segment lists: some leading \<^verbatim>\<open>..\<close> (none when rooted), then plain segments.\<close>

definition cleaned :: "bool \<Rightarrow> string list \<Rightarrow> bool" where
  "cleaned rt xs \<longleftrightarrow> (\<exists>n ps. xs = replicate n ''..'' @ ps \<and> list_all plainSeg ps \<and> (rt \<longrightarrow> n = 0))"

lemma cleaned_snoc: "cleaned rt xs \<Longrightarrow> plainSeg s \<Longrightarrow> cleaned rt (xs @ [s])"
proof -
  assume "cleaned rt xs" "plainSeg s"
  then obtain n ps where "xs = replicate n ''..'' @ ps" "list_all plainSeg (ps @ [s])" "rt \<longrightarrow> n = 0" by (auto simp: cleaned_def)
  then show ?thesis unfolding cleaned_def by (intro exI [of _ n] exI [of _ "ps @ [s]"]) simp
qed

lemma cleaned_append: "cleaned rt xs \<Longrightarrow> list_all plainSeg ys \<Longrightarrow> cleaned rt (xs @ ys)"
proof (induction ys rule: rev_induct)
  case (snoc y ys)
  then show ?case using cleaned_snoc [of rt "xs @ ys" y] by simp
qed simp

lemma cleaned_butlast:
  assumes "cleaned rt (xs @ [t])" "t \<noteq> ''..''"
  shows "cleaned rt xs"
proof -
  obtain n ps where x: "xs @ [t] = replicate n ''..'' @ ps" "list_all plainSeg ps" "rt \<longrightarrow> n = 0"
    using assms(1) by (auto simp: cleaned_def)
  show ?thesis
  proof (cases ps rule: rev_cases)
    case Nil
    then have "t \<in> set (replicate n ''..'')" using x(1) by (metis append_Nil2 in_set_conv_decomp)
    then show ?thesis using assms(2) by auto
  next
    case (snoc qs q)
    then show ?thesis using x by (auto simp: cleaned_def)
  qed
qed

lemma cleaned_dotdot:
  assumes "cleaned rt xs" "xs \<noteq> []" "last xs = ''..''"
  shows "cleaned rt (xs @ [''..''])"
proof -
  obtain n ps where x: "xs = replicate n ''..'' @ ps" "list_all plainSeg ps" "rt \<longrightarrow> n = 0"
    using assms(1) by (auto simp: cleaned_def)
  have ps: "ps = []"
  proof (rule ccontr)
    assume "ps \<noteq> []"
    then have "plainSeg (last ps)" "last xs = last ps" using x by (auto simp: list_all_iff)
    then show False using assms(3) by (simp add: plainSeg_def)
  qed
  then have "n \<noteq> 0" using x(1) assms(2) by auto
  moreover have "xs @ [''..''] = replicate (Suc n) ''..'' @ []" using x(1) ps by (simp add: replicate_append_same)
  ultimately show ?thesis using x(3) unfolding cleaned_def by (metis list.pred_inject(1))
qed

lemma cleanSegs_cleaned:
  "cleaned rt (rev acc) \<Longrightarrow> \<forall>s\<in>set xs. CHR ''/'' \<notin> set s \<Longrightarrow> cleaned rt (cleanSegs rt xs acc)"
proof (induction rt xs acc rule: cleanSegs.induct)
  case (2 rt s ss acc)
  have nil: "cleaned rt (if rt then [] else [''..''])" unfolding cleaned_def
    by (cases rt) (auto intro: exI [of _ 0] exI [of _ "Suc 0"])
  have tl: "\<forall>s\<in>set ss. CHR ''/'' \<notin> set s" and sl: "CHR ''/'' \<notin> set s" using "2.prems" by auto
  consider "s = [] \<or> s = ''.''" | "s = ''..''" | "plainSeg s" using sl by (auto simp: plainSeg_def)
  then show ?case
  proof cases
    case 1
    then show ?thesis using "2.IH"(1) [OF 1 "2.prems"(1) tl] by auto
  next
    case p: 2
    show ?thesis
    proof (cases acc)
      case Nil
      then show ?thesis using p "2.IH"(2) tl nil by auto
    next
      case (Cons t acc')
      then have "t = ''..'' \<Longrightarrow> cleaned rt (rev (''..'' # acc))" "t \<noteq> ''..'' \<Longrightarrow> cleaned rt (rev acc')"
        using cleaned_dotdot [OF "2.prems"(1)] cleaned_butlast [of rt "rev acc'" t] "2.prems"(1) by simp_all
      then show ?thesis using p Cons "2.IH"(3,4) tl by (cases "t = ''..''") simp_all
    qed
  next
    case 3
    then have "cleaned rt (rev (s # acc))" using cleaned_snoc [OF "2.prems"(1)] by simp
    then show ?thesis using 3 "2.IH"(5) tl by (simp add: plainSeg_def)
  qed
qed simp

lemma cleanSegs_dots: "cleanSegs False (replicate n ''..'' @ ps) (replicate m ''..'') = cleanSegs False ps (replicate (n + m) ''..'')"
proof (induction n arbitrary: m)
  case (Suc n)
  have "cleanSegs False (replicate (Suc n) ''..'' @ ps) (replicate m ''..'') =
      cleanSegs False (replicate n ''..'' @ ps) (replicate (Suc m) ''..'')" by (cases m) auto
  also have "\<dots> = cleanSegs False ps (replicate (n + Suc m) ''..'')" by (rule Suc)
  finally show ?case by simp
qed simp

lemma cleanSegs_fixed: "cleaned rt xs \<Longrightarrow> cleanSegs rt xs [] = xs"
proof -
  assume "cleaned rt xs"
  then obtain n ps where x: "xs = replicate n ''..'' @ ps" "list_all plainSeg ps" "rt \<longrightarrow> n = 0" by (auto simp: cleaned_def)
  then show ?thesis using cleanSegs_dots [of n ps 0] cleanSegs_plain [OF x(2)] by (cases rt) auto
qed

definition pathOf :: "bool \<Rightarrow> string list \<Rightarrow> string" where
  "pathOf rt segs = (if rt then CHR ''/'' # joinWith ''/'' segs else joinWith ''/'' segs)"

lemma cleaned_segs: "cleaned rt xs \<Longrightarrow> \<forall>s\<in>set xs. s \<noteq> [] \<and> CHR ''/'' \<notin> set s"
proof -
  assume "cleaned rt xs"
  then obtain n ps where x: "xs = replicate n ''..'' @ ps" "list_all plainSeg ps" by (auto simp: cleaned_def)
  have "set (replicate n ''..'') \<subseteq> {''..''}" by (cases n) (simp_all add: set_replicate_conv_if)
  then have "s \<in> set xs \<Longrightarrow> s = ''..'' \<or> plainSeg s" for s using x by (auto simp: list_all_iff)
  moreover have "CHR ''/'' \<notin> set ''..''" by simp
  ultimately show ?thesis unfolding plainSeg_def by blast
qed

lemma pathOf_segs:
  assumes "cleaned rt as" "as \<noteq> []"
  shows "pathOf rt as \<noteq> []" and "hasPrefix (pathOf rt as) ''/'' = rt"
    and "cleanSegs rt (splitOn CHR ''/'' (pathOf rt as)) [] = as"
proof -
  obtain a l where al: "as = a # l" using assms(2) by (cases as) auto
  have a: "a \<noteq> []" "hd a \<noteq> CHR ''/''" using cleaned_segs [OF assms(1)] al hd_in_set by fastforce+
  have j: "joinWith ''/'' as \<noteq> []" "hd (joinWith ''/'' as) \<noteq> CHR ''/''"
    using a al by (cases l; simp)+
  show "pathOf rt as \<noteq> []" using j by (simp add: pathOf_def)
  show "hasPrefix (pathOf rt as) ''/'' = rt" using j by (cases "joinWith ''/'' as") (auto simp: pathOf_def hasPrefix_def)
  have "splitOn CHR ''/'' (joinWith ''/'' as) = as"
    using split_join [OF assms(2)] cleaned_segs [OF assms(1)] by blast
  then show "cleanSegs rt (splitOn CHR ''/'' (pathOf rt as)) [] = as"
    using cleanSegs_fixed [OF assms(1)] by (cases rt) (simp_all add: pathOf_def)
qed

lemma pathJoin_pathOf:
  assumes "cleaned rt as" "as \<noteq> []" "list_all plainSeg xs"
  shows "pathJoin (pathOf rt as) (joinWith ''/'' xs) = pathOf rt (as @ xs)"
proof (cases "xs = []")
  case True
  have "\<not> rt \<Longrightarrow> joinWith ''/'' as \<noteq> []" using pathOf_segs(1) [OF assms(1,2)] by (simp add: pathOf_def)
  then have "pathClean (pathOf rt as) = pathOf rt as"
    unfolding pathClean_def Let_def pathOf_segs(2,3) [OF assms(1,2)] by (simp add: pathOf_def)
  then show ?thesis using True pathOf_segs(1) [OF assms(1,2)] by (simp add: pathJoin_def)
next
  case False
  have "xs = [x] \<Longrightarrow> joinWith ''/'' xs \<noteq> []" for x using assms(3) by (simp add: plainSeg_def)
  moreover have "joinWith ''/'' (x # y # zs) \<noteq> []" for x y zs by simp
  ultimately have "joinWith ''/'' xs \<noteq> []" using False by (metis list.exhaust)
  then show ?thesis using pathOf_segs [OF assms(1,2)] pathClean_plain_tail [OF assms(3) False pathOf_segs(1) [OF assms(1,2)]]
    by (simp add: pathJoin_def pathOf_def Let_def)
qed

lemma pathOf_below: "as \<noteq> [] \<Longrightarrow> xs \<noteq> [] \<Longrightarrow> pathOf rt (as @ xs) = pathOf rt as @ ''/'' @ joinWith ''/'' xs"
  by (simp add: pathOf_def joinWith_append)

lemma staticRoot_shape:
  assumes "staticRoot cfg t \<noteq> []"
  obtains rt as where "staticRoot cfg t = pathOf rt as" "cleaned rt as" "as \<noteq> []"
proof -
  let ?r = "cfg_GatewayStaticRoot cfg" and ?n = "sanitizeFilename (tg_AppName t @ ''-'' @ tg_ComponentName t)"
  have r: "?r \<noteq> []" and s: "staticRoot cfg t = pathJoin ?r ?n" using assms by (auto simp: staticRoot_def split: if_splits)
  have pl: "plainSeg ?n" by (rule sanitizeFilename_plain)
  let ?rt = "hasPrefix ?r ''/''" and ?cs = "cleanSegs (hasPrefix ?r ''/'') (splitOn CHR ''/'' ?r) []"
  have c: "cleaned ?rt ?cs" by (rule cleanSegs_cleaned) (auto simp: cleaned_def splitOn_no_slash)
  have "pathClean (?r @ ''/'' @ joinWith ''/'' [?n]) = pathOf ?rt (?cs @ [?n])"
    using pathClean_plain_tail [of "[?n]" ?r] r pl by (simp add: pathOf_def Let_def)
  moreover have "?n \<noteq> []" using pl by (simp add: plainSeg_def)
  ultimately have "staticRoot cfg t = pathOf ?rt (?cs @ [?n])" using s r by (simp add: pathJoin_def)
  then show thesis using that cleaned_snoc [OF c pl] by blast
qed

lemma upath_shape:
  obtains xs where "list_all plainSeg xs" "pathClean (''/'' @ p) = CHR ''/'' # joinWith ''/'' xs"
proof -
  have "list_all plainSeg (cleanSegs True (splitOn CHR ''/'' (''/'' @ p)) [])"
    by (rule cleanSegs_rooted) (use splitOn_no_slash in auto)
  then show thesis using that by (simp add: pathClean_def Let_def hasPrefix_def)
qed

lemma serveStaticFile_Served:
  "serveStaticFile fs rd f index h = (h', Served g) \<Longrightarrow>
     g = f \<and> fs f = Some FFile \<and> hGet h' ''Cache-Control'' =
       (if f = index then ''no-cache'' else if isFingerprinted f then ''public, max-age=31536000, immutable'' else ''public, max-age=3600'')"
proof -
  assume a: "serveStaticFile fs rd f index h = (h', Served g)"
  have "canonicalKey ''Cache-Control'' \<noteq> canonicalKey ''X-Goacos-Static''" by code_simp
  then show ?thesis using a by (auto simp: serveStaticFile_def Let_def hGet_hSet split: if_splits)
qed


definition staticTarget :: Target where
  "staticTarget = \<lparr>tg_Domain = ''example.com'', tg_PathPrefix = ''/'', tg_AppName = ''shop'', tg_ComponentName = ''web'', tg_Kind = ''web'',
     tg_Protocol = ''static'', tg_UpstreamName = '''', tg_LBAlgorithm = '''', tg_Sticky = '''', tg_Weight = 1, tg_ServiceName = '''',
     tg_GroupName = '''', tg_ClusterName = '''', tg_HealthPath = '''', tg_StripPrefix = False, tg_Metadata = [(''delivery'', ''static'')],
     tg_Instances = [], tg_PortConflict = None\<rparr>"


text \<open>Directories do not identify components: two declarations of different applications share one.\<close>

lemma static_roots_collide:
  "staticRoot (sampleConfig\<lparr>cfg_GatewayStaticRoot := ''/srv''\<rparr>) (staticTarget\<lparr>tg_AppName := ''a-b'', tg_ComponentName := ''c''\<rparr>) =
   staticRoot (sampleConfig\<lparr>cfg_GatewayStaticRoot := ''/srv''\<rparr>) (staticTarget\<lparr>tg_AppName := ''a'', tg_ComponentName := ''b-c''\<rparr>)"
  by (simp add: staticRoot_def staticTarget_def)

end
