(* ===== verification/Proxy.thy ===== *)
theory Proxy
  imports RouteTable Policy
begin

text \<open>
  The reverse proxy (\<^verbatim>\<open>internal/gateway/proxy.go\<close>): choosing an instance, failing over, and rewriting the
  outbound request.  \<^verbatim>\<open>httputil.ReverseProxy\<close> with its transport is the environment: \<open>serve\<close> says, for the
  n-th attempt of a request and the prepared outbound request, whether the proxy failed and whether bytes
  (or the connection) had already gone to the client.  Error texts are kept as the values the code
  formats into them.
\<close>

subsection \<open>Transport pool\<close>

text \<open>A pool is represented by its keys, with the timeouts its transport was created with.\<close>

record proxyEntry =
  pe_ConnectTimeoutMS :: int
  pe_ResponseHeaderTimeoutMS :: "int option"

type_synonym transportPool = "string \<rightharpoonup> proxyEntry"

definition boolFlag :: "bool \<Rightarrow> string" where
  "boolFlag b = (if b then ''1'' else ''0'')"

definition poolKey :: "Instance \<Rightarrow> 're Policy \<Rightarrow> string" where
  "poolKey i pol = addr i @ ''|'' @ boolFlag (pol_Websocket pol)"

definition poolGet :: "transportPool \<Rightarrow> Instance \<Rightarrow> 're Policy \<Rightarrow> int \<Rightarrow> transportPool \<times> proxyEntry" where
  "poolGet p i pol timeout =
     (case p (poolKey i pol) of
        Some e \<Rightarrow> (p, e)
      | None \<Rightarrow>
          let e = \<lparr>pe_ConnectTimeoutMS = pol_ConnectTimeoutMS pol,
                   pe_ResponseHeaderTimeoutMS = (if pol_Websocket pol then None else Some timeout)\<rparr>
          in (p(poolKey i pol \<mapsto> e), e))"

definition keyUpstream :: "string \<Rightarrow> string" where
  "keyUpstream key = (case indexByte key CHR ''|'' of Some i \<Rightarrow> take i key | None \<Rightarrow> key)"

definition prune :: "transportPool \<Rightarrow> string set \<Rightarrow> transportPool" where
  "prune p live = (\<lambda>key. if keyUpstream key \<in> live then p key else None)"

definition closeAll :: "transportPool \<Rightarrow> transportPool" where
  "closeAll p = Map.empty"

subsection \<open>Outbound request\<close>

record rewritePlan =
  rp_target :: Target
  rp_upstream :: string
  rp_trustXFF :: bool
  rp_clientIP :: Addr
  rp_inboundXFF :: string
  rp_originalHost :: string

record OutRequest =
  out_Scheme :: string
  out_URLHost :: string
  out_Path :: string
  out_RawPath :: string
  out_Header :: Header
  out_Host :: string

definition isWebSocketUpgrade :: "Header \<Rightarrow> bool" where
  "isWebSocketUpgrade h \<longleftrightarrow>
     equalFold (hGet h ''Upgrade'') ''websocket'' \<and> contains (toLower (hGet h ''Connection'')) ''upgrade''"

definition namedHops :: "Header \<Rightarrow> string list" where
  "namedHops h = filter (\<lambda>n. n \<noteq> []) (map trimSpace (concat (map (splitOn CHR '','') (hValues h ''Connection''))))"

definition hopByHop :: "string list" where
  "hopByHop = [''Connection'', ''Keep-Alive'', ''Proxy-Connection'', ''Te'', ''Trailer'', ''Transfer-Encoding'', ''Upgrade'']"

definition removeHopByHop :: "Header \<Rightarrow> Header" where
  "removeHopByHop h =
     (let named = namedHops h
      in foldl (\<lambda>h n. hDel n h) (foldl (\<lambda>h n. hDel n h) h hopByHop) named)"

definition portOf :: "string \<Rightarrow> string \<Rightarrow> string" where
  "portOf host scheme =
     (case splitHostPort host of
        Some (_, port) \<Rightarrow> port
      | None \<Rightarrow> if scheme = ''https'' then ''443'' else ''80'')"

definition rewritePath :: "Target \<Rightarrow> OutRequest \<Rightarrow> OutRequest" where
  "rewritePath t out =
     (if \<not> tg_StripPrefix t then out
      else let pre = trimSuffix (tg_PathPrefix t) ''/''
           in if pre \<noteq> [] \<and> (out_Path out = pre \<or> hasPrefix (out_Path out) (pre @ ''/'')) then
                (let trimmed = trimPrefix (out_Path out) pre
                 in out\<lparr>out_Path := (if trimmed = [] then ''/'' else trimmed), out_RawPath := []\<rparr>)
              else out)"

definition applyRewrite :: "rewritePlan \<Rightarrow> OutRequest \<Rightarrow> OutRequest" where
  "applyRewrite plan out0 =
     (let t = rp_target plan;
          scheme = (if tg_Protocol t = ''https'' then ''https'' else ''http'');
          out = rewritePath t (out0\<lparr>out_Scheme := scheme, out_URLHost := rp_upstream plan\<rparr>);
          h0 = out_Header out;
          upgrade = isWebSocketUpgrade h0;
          h1 = removeHopByHop h0;
          h2 = (if upgrade then hSet ''Upgrade'' (hGet h0 ''Upgrade'') (hSet ''Connection'' (hGet h0 ''Connection'') h1) else h1);
          client = addrString (rp_clientIP plan);
          h3 = hSet ''X-Forwarded-For''
                 (if rp_inboundXFF plan \<noteq> [] \<and> rp_trustXFF plan then rp_inboundXFF plan @ '', '' @ client else client) h2;
          h4 = hSet ''X-Real-IP'' client h3;
          h5 = hSet ''X-Forwarded-Proto'' scheme h4;
          h6 = hSet ''X-Forwarded-Host'' (rp_originalHost plan) h5;
          h7 = hSet ''X-Forwarded-Port'' (portOf (rp_originalHost plan) scheme) h6;
          h8 = hSet ''X-Goacos-Upstream'' (rp_upstream plan) h7;
          h9 = hSet ''X-Goacos-Component'' (tg_AppName t @ ''/'' @ tg_ComponentName t) h8
      in out\<lparr>out_Header := h9, out_Host := rp_upstream plan\<rparr>)"

subsection \<open>Failover\<close>

definition maxAttempts :: nat where
  "maxAttempts = 3"

definition untried :: "Instance list \<Rightarrow> string set \<Rightarrow> Instance list" where
  "untried instances tried = (if tried = {} then instances else filter (\<lambda>i. addr i \<notin> tried) instances)"

text \<open>What the response recorder holds after \<^verbatim>\<open>entry.reverse.ServeHTTP\<close>.\<close>

record outcome =
  oc_failed :: "string option"
  oc_written :: bool

datatype Reply =
    NoPool string string PortConflict
  | NoHealthy string string string
  | WebsocketDisabled
  | FromUpstream string
  | CutOff string
  | BadGateway string "(string \<times> string) option"

record gwState =
  gw_picker :: Picker
  gw_pool :: transportPool
  gw_upstreamFailed :: int

definition stickyKey :: "bool \<Rightarrow> Request \<Rightarrow> Target \<Rightarrow> string" where
  "stickyKey trust r t =
     (if tg_LBAlgorithm t = ''ip_hash'' then addrString (ClientAddr r trust)
      else if tg_LBAlgorithm t = ''cookie_sticky'' then
        (case map_of (rq_Cookies r) ''GOACOS_INSTANCE'' of Some v \<Rightarrow> v | None \<Rightarrow> [])
      else [])"

definition planFor :: "bool \<Rightarrow> Request \<Rightarrow> Target \<Rightarrow> string \<Rightarrow> rewritePlan" where
  "planFor trust r t upstream =
     \<lparr>rp_target = t, rp_upstream = upstream, rp_trustXFF = trust, rp_clientIP = ClientAddr r trust,
      rp_inboundXFF = hGet (rq_Header r) ''X-Forwarded-For'', rp_originalHost = rq_Host r\<rparr>"

definition outbound :: "Request \<Rightarrow> Request" where
  "outbound r = r\<lparr>rq_Header := hDel ''X-Goacos-Instance-Pin'' (rq_Header r)\<rparr>"

text \<open>The loop of \<^verbatim>\<open>Forward\<close>.  \<open>n\<close> attempts are left; the result is the state, the upstreams dialled in
  order and the reply.\<close>

fun attempts :: "(nat \<Rightarrow> rewritePlan \<Rightarrow> Request \<Rightarrow> outcome) \<Rightarrow> bool \<Rightarrow> Request \<Rightarrow> Target \<Rightarrow> 're Policy \<Rightarrow> nat \<Rightarrow>
    string set \<Rightarrow> (string \<times> string) option \<Rightarrow> gwState \<Rightarrow> gwState \<times> string list \<times> Reply" where
  "attempts serve trust r t pol 0 tried lastErr g = (g, [], BadGateway (tg_ServiceName t) lastErr)"
| "attempts serve trust r t pol (Suc n) tried lastErr g =
     (let cand0 = untried (tg_Instances t) tried;
          stop = (g, [], BadGateway (tg_ServiceName t) lastErr)
      in if cand0 = [] \<and> length (tg_Instances t) > 1 then stop
         else let candidates = (if cand0 = [] then tg_Instances t else cand0);
                  key = targetKey t;
                  (picker', choice) = Pick (gw_picker g) key (tg_LBAlgorithm t) (stickyKey trust r t) candidates
              in case choice of
                   None \<Rightarrow> (g\<lparr>gw_picker := picker'\<rparr>, [], BadGateway (tg_ServiceName t) lastErr)
                 | Some inst \<Rightarrow>
                     let upstream = addr inst
                     in if upstream \<in> tried \<and> length (tg_Instances t) > 1 then
                          (g\<lparr>gw_picker := picker'\<rparr>, [], BadGateway (tg_ServiceName t) lastErr)
                        else if isWebSocketUpgrade (rq_Header r) \<and> \<not> pol_Websocket pol then
                          (g\<lparr>gw_picker := picker'\<rparr>, [], WebsocketDisabled)
                        else
                          let (pool', _) = poolGet (gw_pool g) inst pol (pol_ReadTimeoutMS pol);
                              acquired = Acquire picker' key upstream;
                              oc = serve (maxAttempts - Suc n) (planFor trust r t upstream) (outbound r);
                              released = Release acquired key upstream;
                              g1 = g\<lparr>gw_picker := released, gw_pool := pool'\<rparr>
                          in case oc_failed oc of
                               None \<Rightarrow> (g1, [upstream], FromUpstream upstream)
                             | Some e \<Rightarrow>
                                 if oc_written oc then (g1, [upstream], CutOff upstream)
                                 else let (g2, dialled, reply) =
                                            attempts serve trust r t pol n (insert upstream tried) (Some (upstream, e))
                                              (g1\<lparr>gw_upstreamFailed := gw_upstreamFailed g1 + 1\<rparr>)
                                      in (g2, upstream # dialled, reply))"

definition Forward :: "(nat \<Rightarrow> rewritePlan \<Rightarrow> Request \<Rightarrow> outcome) \<Rightarrow> bool \<Rightarrow> Request \<Rightarrow> Target \<Rightarrow> 're Policy \<Rightarrow> gwState \<Rightarrow>
    gwState \<times> string list \<times> Reply" where
  "Forward serve trust r t pol g =
     (if tg_Instances t = [] then
        (case tg_PortConflict t of
           Some c \<Rightarrow> (g, [], NoPool (tg_AppName t) (tg_ComponentName t) c)
         | None \<Rightarrow> (g, [], NoHealthy (tg_ServiceName t) (tg_AppName t) (tg_ComponentName t)))
      else attempts serve trust r t pol maxAttempts {} None g)"

declare attempts.simps(2) [simp del]

subsection \<open>One attempt\<close>

definition outcomeAt :: "(nat \<Rightarrow> rewritePlan \<Rightarrow> Request \<Rightarrow> outcome) \<Rightarrow> bool \<Rightarrow> Request \<Rightarrow> Target \<Rightarrow> nat \<Rightarrow> string \<Rightarrow> outcome" where
  "outcomeAt serve trust r t k u = serve k (planFor trust r t u) (outbound r)"

definition retryable :: "outcome \<Rightarrow> bool" where
  "retryable oc \<longleftrightarrow> oc_failed oc \<noteq> None \<and> \<not> oc_written oc"

definition wsRefused :: "Request \<Rightarrow> 're Policy \<Rightarrow> bool" where
  "wsRefused r pol \<longleftrightarrow> isWebSocketUpgrade (rq_Header r) \<and> \<not> pol_Websocket pol"

lemma conns_roundtrip:
  "pickerOK p \<Longrightarrow> conns (Release (Acquire (fst (Pick p key alg sk xs)) key u) key u) k a = conns p k a"
  "pickerOK p \<Longrightarrow> pickerOK (Release (Acquire (fst (Pick p key alg sk xs)) key u) key u)"
proof -
  assume ok: "pickerOK p"
  have nn: "0 \<le> conns p key u"
    using ok pickerOK_state [OF ok, of key u] by (auto simp: conns_def pstate_def split: option.splits)
  show "conns (Release (Acquire (fst (Pick p key alg sk xs)) key u) key u) k a = conns p k a"
    using nn by (simp add: conns_Release conns_Acquire)
  show "pickerOK (Release (Acquire (fst (Pick p key alg sk xs)) key u) key u)"
    using ok by (intro pickerOK_Release pickerOK_Acquire pickerOK_Pick)
qed

text \<open>The ways one round of the loop can go.\<close>

lemma attempts_cases [consumes 3, case_names stop refused finished retry]:
  assumes run: "attempts serve trust r t pol (Suc n) tried lastErr g = (g', ds, reply)"
    and inst: "tg_Instances t \<noteq> []" "length (tg_Instances t) < 2 ^ 32"
  obtains (stop) "ds = []" "reply = BadGateway (tg_ServiceName t) lastErr" "1 < length (tg_Instances t)"
      "addr ` set (tg_Instances t) \<subseteq> tried" "g' = g"
  | (refused) "ds = []" "reply = WebsocketDisabled" "wsRefused r pol"
      "\<exists>xs. g' = g\<lparr>gw_picker := fst (Pick (gw_picker g) (targetKey t) (tg_LBAlgorithm t) (stickyKey trust r t) xs)\<rparr>"
  | (finished) u xs pool where "\<not> wsRefused r pol" "ds = [u]" "u \<in> addr ` set (tg_Instances t)" "u \<in> tried \<longrightarrow> length (tg_Instances t) = 1"
      "g' = g\<lparr>gw_picker := Release (Acquire (fst (Pick (gw_picker g) (targetKey t) (tg_LBAlgorithm t) (stickyKey trust r t) xs)) (targetKey t) u) (targetKey t) u,
              gw_pool := pool\<rparr>"
      "\<not> retryable (outcomeAt serve trust r t (maxAttempts - Suc n) u)"
      "reply = (if oc_failed (outcomeAt serve trust r t (maxAttempts - Suc n) u) = None then FromUpstream u else CutOff u)"
  | (retry) u e xs pool ds' where "\<not> wsRefused r pol" "ds = u # ds'" "u \<in> addr ` set (tg_Instances t)" "u \<in> tried \<longrightarrow> length (tg_Instances t) = 1"
      "retryable (outcomeAt serve trust r t (maxAttempts - Suc n) u)"
      "attempts serve trust r t pol n (insert u tried) (Some (u, e))
         (g\<lparr>gw_picker := Release (Acquire (fst (Pick (gw_picker g) (targetKey t) (tg_LBAlgorithm t) (stickyKey trust r t) xs)) (targetKey t) u) (targetKey t) u,
            gw_pool := pool, gw_upstreamFailed := gw_upstreamFailed g + 1\<rparr>) = (g', ds', reply)"
proof -
  let ?un = "untried (tg_Instances t) tried"
  let ?c = "if ?un = [] then tg_Instances t else ?un"
  let ?stop = "?un = [] \<and> length (tg_Instances t) > 1"
  obtain p' choice where pk: "Pick (gw_picker g) (targetKey t) (tg_LBAlgorithm t) (stickyKey trust r t) ?c = (p', choice)"
    by (metis surj_pair)
  have "length ?c \<le> length (tg_Instances t)" by (simp add: untried_def)
  then have sub: "set ?c \<subseteq> set (tg_Instances t)" "?c \<noteq> []" "length ?c < 2 ^ 32"
    using inst by (auto simp: untried_def)
  obtain i where i: "choice = Some i" "i \<in> set ?c"
    using Pick_member [OF sub(3), of "gw_picker g" "targetKey t" "tg_LBAlgorithm t" "stickyKey trust r t"] sub(2) pk
    by (cases choice) auto
  have tr: "addr i \<in> tried \<longrightarrow> length (tg_Instances t) = 1" if "\<not> ?stop"
  proof (cases "?un = []")
    case True
    then have "length (tg_Instances t) \<le> 1" using that by auto
    then show ?thesis using inst(1) by (simp add: le_Suc_eq)
  next
    case False
    then have "i \<in> set ?un" using i(2) by simp
    then show ?thesis by (auto simp: untried_def split: if_splits)
  qed
  have mem: "addr i \<in> addr ` set (tg_Instances t)" using i(2) sub(1) by auto
  obtain pool e where pg: "poolGet (gw_pool g) i pol (pol_ReadTimeoutMS pol) = (pool, e)" by (metis surj_pair)
  let ?oc = "outcomeAt serve trust r t (maxAttempts - Suc n) (addr i)"
  let ?g1 = "g\<lparr>gw_picker := Release (Acquire p' (targetKey t) (addr i)) (targetKey t) (addr i), gw_pool := pool\<rparr>"
  show thesis
  proof (cases ?stop)
    case True
    then have "addr ` set (tg_Instances t) \<subseteq> tried" using inst(1) by (auto simp: untried_def filter_empty_conv split: if_splits)
    then show thesis using True run stop by (simp add: attempts.simps(2) Let_def)
  next
    case False
    note one = tr [OF False]
    have body: "(g', ds, reply) =
       (if wsRefused r pol then (g\<lparr>gw_picker := p'\<rparr>, [], WebsocketDisabled)
        else if \<not> retryable ?oc then (?g1, [addr i], if oc_failed ?oc = None then FromUpstream (addr i) else CutOff (addr i))
        else let (g2, d, rp) = attempts serve trust r t pol n (insert (addr i) tried) (Some (addr i, the (oc_failed ?oc)))
                    (?g1\<lparr>gw_upstreamFailed := gw_upstreamFailed g + 1\<rparr>)
             in (g2, addr i # d, rp))"
      using run False pk i(1) one pg
      by (auto simp: attempts.simps(2) Let_def wsRefused_def retryable_def outcomeAt_def split: option.splits if_splits)
    have fst_pk: "p' = fst (Pick (gw_picker g) (targetKey t) (tg_LBAlgorithm t) (stickyKey trust r t) ?c)" using pk by simp
    show thesis
    proof (cases "wsRefused r pol")
      case True
      then show thesis using body fst_pk refused by auto
    next
      case ws: False
      show thesis
      proof (cases "retryable ?oc")
        case True
        then show thesis using body ws mem one fst_pk retry [of "addr i"] by (auto simp: Let_def split: prod.splits)
      next
        case False
        then show thesis using body ws mem one fst_pk finished [of "addr i"] by simp
      qed
    qed
  qed
qed

subsection \<open>Failover\<close>

lemma attempts_dialled:
  assumes "attempts serve trust r t pol n tried lastErr g = (g', ds, reply)"
    and "tg_Instances t \<noteq> []" "length (tg_Instances t) < 2 ^ 32"
  shows "length ds \<le> n \<and> set ds \<subseteq> addr ` set (tg_Instances t) \<and>
    (1 < length (tg_Instances t) \<longrightarrow> distinct ds \<and> set ds \<inter> tried = {})"
  using assms
proof (induction n arbitrary: tried lastErr g g' ds reply)
  case (Suc n)
  from Suc.prems show ?case
  proof (cases rule: attempts_cases)
    case (retry u e xs pool ds')
    then show ?thesis using Suc.IH [OF retry(6) assms(2,3)] by auto
  qed auto
qed simp

definition attemptResult :: "(nat \<Rightarrow> string \<Rightarrow> outcome) \<Rightarrow> 're Policy \<Rightarrow> Request \<Rightarrow> nat \<Rightarrow> string list \<Rightarrow> Reply \<Rightarrow> bool" where
  "attemptResult oc pol r k ds reply \<longleftrightarrow>
     (case reply of
        FromUpstream u \<Rightarrow> ds \<noteq> [] \<and> last ds = u \<and> oc_failed (oc (k + length ds - 1) u) = None \<and>
          (\<forall>j < length ds - 1. retryable (oc (k + j) (ds ! j)))
      | CutOff u \<Rightarrow> ds \<noteq> [] \<and> last ds = u \<and> oc_failed (oc (k + length ds - 1) u) \<noteq> None \<and> oc_written (oc (k + length ds - 1) u) \<and>
          (\<forall>j < length ds - 1. retryable (oc (k + j) (ds ! j)))
      | BadGateway _ _ \<Rightarrow> \<forall>j < length ds. retryable (oc (k + j) (ds ! j))
      | WebsocketDisabled \<Rightarrow> wsRefused r pol \<and> ds = []
      | _ \<Rightarrow> False)"

lemma attemptResult_Cons:
  assumes "retryable (oc k u)" "attemptResult oc pol r (Suc k) ds reply" "\<not> wsRefused r pol"
  shows "attemptResult oc pol r k (u # ds) reply"
proof -
  have all: "\<forall>j<length ds - c. retryable (oc (Suc k + j) (ds ! j)) \<Longrightarrow> j < Suc (length ds) - c \<Longrightarrow> c < length ds + 1 \<Longrightarrow>
      retryable (oc (k + j) ((u # ds) ! j))" for j c
    using assms(1) by (cases j) auto
  have nil: "ds \<noteq> [] \<Longrightarrow> k + length ds = Suc k + length ds - 1" by (cases ds) auto
  show ?thesis using assms all [of 0] all [of 1] nil
    by (auto simp: attemptResult_def split: Reply.splits)
qed

lemma attempts_result:
  assumes "attempts serve trust r t pol n tried lastErr g = (g', ds, reply)"
    and "tg_Instances t \<noteq> []" "length (tg_Instances t) < 2 ^ 32" "n \<le> maxAttempts"
  shows "attemptResult (outcomeAt serve trust r t) pol r (maxAttempts - n) ds reply \<and>
    (\<forall>s e. reply = BadGateway s e \<longrightarrow> length ds = n \<or> 1 < length (tg_Instances t) \<and> addr ` set (tg_Instances t) \<subseteq> tried \<union> set ds)"
  using assms
proof (induction n arbitrary: tried lastErr g g' ds reply)
  case 0
  then show ?case by (auto simp: attemptResult_def)
next
  case (Suc n)
  from Suc.prems(1,2,3) show ?case
  proof (cases rule: attempts_cases)
    case (retry u e xs pool ds')
    have k: "maxAttempts - n = Suc (maxAttempts - Suc n)" using Suc.prems(4) by simp
    note ih = Suc.IH [OF retry(6) assms(2,3)]
    have "attemptResult (outcomeAt serve trust r t) pol r (maxAttempts - Suc n) (u # ds') reply"
      using ih Suc.prems(4) retry(1,5) by (intro attemptResult_Cons) (simp_all add: k)
    then show ?thesis using ih Suc.prems(4) retry(2) by auto
  qed (auto simp: attemptResult_def retryable_def split: if_splits)
qed

text \<open>The failed dials of a run: those that may be tried elsewhere.\<close>

fun failedDials :: "(nat \<Rightarrow> string \<Rightarrow> outcome) \<Rightarrow> nat \<Rightarrow> string list \<Rightarrow> int" where
  "failedDials oc k [] = 0"
| "failedDials oc k (u # ds) = (if retryable (oc k u) then 1 else 0) + failedDials oc (Suc k) ds"

lemma attempts_state:
  assumes "attempts serve trust r t pol n tried lastErr g = (g', ds, reply)"
    and "tg_Instances t \<noteq> []" "length (tg_Instances t) < 2 ^ 32" "n \<le> maxAttempts" "pickerOK (gw_picker g)"
  shows "pickerOK (gw_picker g') \<and> (\<forall>k a. conns (gw_picker g') k a = conns (gw_picker g) k a) \<and>
    gw_upstreamFailed g' = gw_upstreamFailed g + failedDials (outcomeAt serve trust r t) (maxAttempts - n) ds"
  using assms
proof (induction n arbitrary: tried lastErr g g' ds reply)
  case (Suc n)
  from Suc.prems(1,2,3) show ?case
  proof (cases rule: attempts_cases)
    case (retry u e xs pool ds')
    have k: "maxAttempts - n = Suc (maxAttempts - Suc n)" using Suc.prems(4) by simp
    show ?thesis using Suc.IH [OF retry(6) assms(2,3)] Suc.prems(4,5) retry conns_roundtrip by (simp add: k)
  qed (use Suc.prems(5) conns_roundtrip pickerOK_Pick in auto)
qed simp

text \<open>C1. Failover is bounded and never answers twice.  Forwarding to a non-empty target dials at most three
  upstreams, all of them instances of the target, and with more than one instance no address twice; every
  dial but the last failed before a byte reached the client; a reply from an upstream is the last dial's;
  a cut-off response is never retried; and 502 is sent only when every dial failed with nothing written
  and either three were made or no instance was left untried.\<close>

theorem forward_failover:
  assumes "Forward serve trust r t pol g = (g', ds, reply)"
    and "tg_Instances t \<noteq> []" "length (tg_Instances t) < 2 ^ 32" "\<not> wsRefused r pol"
  shows "length ds \<le> 3 \<and> set ds \<subseteq> addr ` set (tg_Instances t) \<and> (1 < length (tg_Instances t) \<longrightarrow> distinct ds) \<and>
    (case reply of
       FromUpstream u \<Rightarrow> ds \<noteq> [] \<and> last ds = u \<and> oc_failed (outcomeAt serve trust r t (length ds - 1) u) = None \<and>
         (\<forall>j < length ds - 1. retryable (outcomeAt serve trust r t j (ds ! j)))
     | CutOff u \<Rightarrow> ds \<noteq> [] \<and> last ds = u \<and> oc_written (outcomeAt serve trust r t (length ds - 1) u) \<and>
         (\<forall>j < length ds - 1. retryable (outcomeAt serve trust r t j (ds ! j)))
     | BadGateway _ _ \<Rightarrow> (\<forall>j < length ds. retryable (outcomeAt serve trust r t j (ds ! j))) \<and>
         (length ds = 3 \<or> set ds = addr ` set (tg_Instances t))
     | _ \<Rightarrow> False)"
proof -
  have run: "attempts serve trust r t pol 3 {} None g = (g', ds, reply)" using assms(1,2) by (simp add: Forward_def maxAttempts_def)
  note d = attempts_dialled [OF run assms(2,3)]
  have "attemptResult (outcomeAt serve trust r t) pol r 0 ds reply"
    and "\<forall>s e. reply = BadGateway s e \<longrightarrow> length ds = 3 \<or> addr ` set (tg_Instances t) \<subseteq> set ds"
    using attempts_result [OF run assms(2,3)] by (auto simp: maxAttempts_def)
  then show ?thesis using d assms(4) by (cases reply) (auto simp: attemptResult_def)
qed

definition twoTarget :: Target where
  "twoTarget = \<lparr>tg_Domain = ''example.com'', tg_PathPrefix = ''/'', tg_AppName = ''shop'', tg_ComponentName = ''api'', tg_Kind = ''api'',
     tg_Protocol = ''http'', tg_UpstreamName = '''', tg_LBAlgorithm = ''ip_hash'', tg_Sticky = '''', tg_Weight = 1, tg_ServiceName = ''svc'',
     tg_GroupName = '''', tg_ClusterName = '''', tg_HealthPath = '''', tg_StripPrefix = False, tg_Metadata = [],
     tg_Instances = twoNodes, tg_PortConflict = None\<rparr>"

definition startState :: gwState where
  "startState = \<lparr>gw_picker = NewPicker, gw_pool = Map.empty, gw_upstreamFailed = 0\<rparr>"

definition samplePolicy :: "string Policy" where
  "samplePolicy = resolvePolicy Some sampleConfig None"

text \<open>An environment in which only one address answers.\<close>

definition onlyAlive :: "string \<Rightarrow> nat \<Rightarrow> rewritePlan \<Rightarrow> Request \<Rightarrow> outcome" where
  "onlyAlive a k plan r =
     (if rp_upstream plan = a then \<lparr>oc_failed = None, oc_written = True\<rparr> else \<lparr>oc_failed = Some ''connection refused'', oc_written = False\<rparr>)"

lemma sample_no_ws: "\<not> wsRefused sampleRequest pol"
  by (simp add: wsRefused_def isWebSocketUpgrade_def sampleRequest_def hGet_def hValues_def mget_def equalFold_def)

theorem forward_failover_witness:
  "\<exists>g' ds reply. Forward (onlyAlive ''nobody'') False sampleRequest twoTarget samplePolicy startState = (g', ds, reply) \<and>
     length ds \<le> 3 \<and> distinct ds \<and> set ds \<subseteq> addr ` set twoNodes"
proof -
  obtain g' ds reply where f: "Forward (onlyAlive ''nobody'') False sampleRequest twoTarget samplePolicy startState = (g', ds, reply)"
    by (metis prod_cases3)
  have "tg_Instances twoTarget = twoNodes" "length twoNodes = 2" "twoNodes \<noteq> []" by (simp_all add: twoTarget_def twoNodes_def)
  then show ?thesis using forward_failover [OF f _ _ sample_no_ws] f by auto
qed

text \<open>C17. A live instance is found: when a target has at most three addresses, whatever the balancing
  algorithm and whatever state the picker is in, if one of them answers and the others only fail before
  writing, the client gets an upstream's answer.\<close>

theorem failover_reaches_live_instance:
  assumes "card (addr ` set (tg_Instances t)) \<le> 3" "length (tg_Instances t) < 2 ^ 32" "\<not> wsRefused r pol"
    and live: "i \<in> set (tg_Instances t)" "\<And>k. oc_failed (outcomeAt serve trust r t k (addr i)) = None"
    and others: "\<And>k u. oc_failed (outcomeAt serve trust r t k u) \<noteq> None \<Longrightarrow> \<not> oc_written (outcomeAt serve trust r t k u)"
  shows "\<exists>g' ds u. Forward serve trust r t pol g = (g', ds, FromUpstream u)"
proof -
  obtain g' ds reply where f: "Forward serve trust r t pol g = (g', ds, reply)" by (metis prod_cases3)
  have ne: "tg_Instances t \<noteq> []" using live(1) by auto
  have run: "attempts serve trust r t pol 3 {} None g = (g', ds, reply)" using f ne by (simp add: Forward_def maxAttempts_def)
  note d = attempts_dialled [OF run ne assms(2)]
  have res: "attemptResult (outcomeAt serve trust r t) pol r 0 ds reply"
    and bad: "\<forall>s e. reply = BadGateway s e \<longrightarrow> length ds = 3 \<or> addr ` set (tg_Instances t) \<subseteq> set ds"
    using attempts_result [OF run ne assms(2)] by (auto simp: maxAttempts_def)
  have "\<nexists>u. reply = CutOff u" using res others by (auto simp: attemptResult_def)
  moreover have "\<nexists>s e. reply = BadGateway s e"
  proof safe
    fix s e assume b: "reply = BadGateway s e"
    then have rt: "\<forall>j < length ds. retryable (outcomeAt serve trust r t j (ds ! j))" using res by (simp add: attemptResult_def)
    then have notin: "addr i \<notin> set ds" using live(2) by (auto simp: in_set_conv_nth retryable_def)
    then have l3: "length ds = 3" using bad b live(1) by auto
    show False
    proof (cases "1 < length (tg_Instances t)")
      case True
      then have "card (set ds) = 3" using d l3 distinct_card by metis
      moreover have "card (insert (addr i) (set ds)) \<le> card (addr ` set (tg_Instances t))"
        using d live(1) by (intro card_mono) auto
      ultimately show False using assms(1) notin by simp
    next
      case False
      then have "tg_Instances t = [i]" using live(1) ne by (cases "tg_Instances t") auto
      then show False using d l3 notin by (cases ds) auto
    qed
  qed
  ultimately show ?thesis using f res assms(3) by (cases reply) (auto simp: attemptResult_def)
qed

theorem failover_reaches_live_instance_witness:
  "\<exists>g' ds u. Forward (onlyAlive (addr (hd twoNodes))) False sampleRequest twoTarget samplePolicy startState = (g', ds, FromUpstream u)"
proof (rule failover_reaches_live_instance [where i = "hd twoNodes"])
  show "card (addr ` set (tg_Instances twoTarget)) \<le> 3"
    by (rule order_trans [OF card_image_le]) (simp_all add: twoTarget_def twoNodes_def card_insert_if)
qed (auto simp: twoTarget_def twoNodes_def sample_no_ws outcomeAt_def onlyAlive_def planFor_def split: if_splits)

text \<open>Connection counters are exact across a request: every connection \<^verbatim>\<open>Forward\<close> counts it also
  releases, on every path through the loop (answered, cut off, retried, refused), so least_conn compares true
  numbers; and the counter of unreachable upstreams grows by exactly the dials that failed unanswered.\<close>

theorem forward_counters_balanced:
  assumes "pickerReach (gw_picker g)" "length (tg_Instances t) < 2 ^ 32" "Forward serve trust r t pol g = (g', ds, reply)"
  shows "conns (gw_picker g') k a = conns (gw_picker g) k a \<and>
    gw_upstreamFailed g' = gw_upstreamFailed g + failedDials (outcomeAt serve trust r t) 0 ds"
proof (cases "tg_Instances t = []")
  case True
  then show ?thesis using assms(3) by (auto simp: Forward_def split: option.splits)
next
  case False
  then have "attempts serve trust r t pol 3 {} None g = (g', ds, reply)" using assms(3) by (simp add: Forward_def maxAttempts_def)
  from attempts_state [OF this False assms(2) _ pickerReach_OK [OF assms(1)]] show ?thesis by (simp add: maxAttempts_def)
qed

theorem forward_counters_balanced_witness:
  "conns (gw_picker (fst (Forward (onlyAlive ''nobody'') False sampleRequest twoTarget samplePolicy startState))) ''k'' ''a'' = 0"
proof -
  obtain g' ds reply where f: "Forward (onlyAlive ''nobody'') False sampleRequest twoTarget samplePolicy startState = (g', ds, reply)"
    by (metis prod_cases3)
  have "conns NewPicker ''k'' ''a'' = 0" by (simp add: conns_def NewPicker_def)
  moreover have "gw_picker startState = NewPicker" by (simp add: startState_def)
  ultimately show ?thesis using forward_counters_balanced [OF _ _ f, of "''k''" "''a''"] f
    by (simp add: pickerReach.intros twoTarget_def twoNodes_def)
qed

subsection \<open>What an upstream sees\<close>

definition setByGateway :: "string list" where
  "setByGateway = [''X-Forwarded-For'', ''X-Real-IP'', ''X-Forwarded-Proto'', ''X-Forwarded-Host'', ''X-Forwarded-Port'',
     ''X-Goacos-Upstream'', ''X-Goacos-Component'']"

lemma hValues_delete: "hValues (foldl (\<lambda>h n. hDel n h) h ns) k = (if canonicalKey k \<in> canonicalKey ` set ns then [] else hValues h k)"
  by (induction ns arbitrary: h) (auto simp: hValues_hDel)

lemma hValues_removeHopByHop:
  "hValues (removeHopByHop h) k =
     (if canonicalKey k \<in> canonicalKey ` (set hopByHop \<union> set (namedHops h)) then [] else hValues h k)"
  unfolding removeHopByHop_def Let_def by (auto simp: hValues_delete)

lemma canonical_gateway_keys:
  "map canonicalKey (setByGateway @ [''Connection'', ''Upgrade'']) =
     [''X-Forwarded-For'', ''X-Real-Ip'', ''X-Forwarded-Proto'', ''X-Forwarded-Host'', ''X-Forwarded-Port'',
      ''X-Goacos-Upstream'', ''X-Goacos-Component'', ''Connection'', ''Upgrade'']"
  by code_simp

lemma rewritePath_header [simp]: "out_Header (rewritePath t out) = out_Header out"
  by (simp add: rewritePath_def Let_def)

lemma applyRewrite_header:
  "hValues (out_Header (applyRewrite plan out)) k =
     (let c = addrString (rp_clientIP plan); scheme = (if tg_Protocol (rp_target plan) = ''https'' then ''https'' else ''http'')
      in if canonicalKey k = ''X-Goacos-Component'' then [tg_AppName (rp_target plan) @ ''/'' @ tg_ComponentName (rp_target plan)]
         else if canonicalKey k = ''X-Goacos-Upstream'' then [rp_upstream plan]
         else if canonicalKey k = ''X-Forwarded-Port'' then [portOf (rp_originalHost plan) scheme]
         else if canonicalKey k = ''X-Forwarded-Host'' then [rp_originalHost plan]
         else if canonicalKey k = ''X-Forwarded-Proto'' then [scheme]
         else if canonicalKey k = ''X-Real-Ip'' then [c]
         else if canonicalKey k = ''X-Forwarded-For'' then
           [if rp_inboundXFF plan \<noteq> [] \<and> rp_trustXFF plan then rp_inboundXFF plan @ '', '' @ c else c]
         else if isWebSocketUpgrade (out_Header out) \<and> canonicalKey k = ''Upgrade'' then [hGet (out_Header out) ''Upgrade'']
         else if isWebSocketUpgrade (out_Header out) \<and> canonicalKey k = ''Connection'' then [hGet (out_Header out) ''Connection'']
         else hValues (removeHopByHop (out_Header out)) k)"
  using canonical_gateway_keys unfolding applyRewrite_def Let_def setByGateway_def by (simp add: hValues_hSet)

text \<open>Hop-by-hop headers end at the gateway and forwarding headers are the gateway's own.  In the
  request an upstream receives, no header of the fixed hop-by-hop list and none the client named in
  \<^verbatim>\<open>Connection\<close> survives (except \<^verbatim>\<open>Connection\<close> and \<^verbatim>\<open>Upgrade\<close> themselves on a websocket upgrade); without
  trust in the peer's headers \<^verbatim>\<open>X-Forwarded-For\<close> and \<^verbatim>\<open>X-Real-IP\<close> are exactly the observed client address;
  and every other header passes unchanged.\<close>

theorem rewrite_headers:
  assumes "out' = applyRewrite plan out" and "h = out_Header out"
  shows "(\<forall>n \<in> set hopByHop \<union> set (namedHops h). canonicalKey n \<notin> canonicalKey ` set setByGateway \<longrightarrow>
            hValues (out_Header out') n = [] \<or>
            isWebSocketUpgrade h \<and> canonicalKey n \<in> {''Connection'', ''Upgrade''}) \<and>
    (\<not> rp_trustXFF plan \<longrightarrow> hValues (out_Header out') ''X-Forwarded-For'' = [addrString (rp_clientIP plan)] \<and>
       hValues (out_Header out') ''X-Real-IP'' = [addrString (rp_clientIP plan)]) \<and>
    (\<forall>n. canonicalKey n \<notin> canonicalKey ` (set hopByHop \<union> set (namedHops h) \<union> set setByGateway) \<longrightarrow>
       hValues (out_Header out') n = hValues h n)"
proof (intro conjI ballI allI impI)
  have gk: "canonicalKey ` set setByGateway = {''X-Forwarded-For'', ''X-Real-Ip'', ''X-Forwarded-Proto'', ''X-Forwarded-Host'', ''X-Forwarded-Port'',
      ''X-Goacos-Upstream'', ''X-Goacos-Component''}"
    using arg_cong [OF canonical_gateway_keys, of "\<lambda>l. set (take 7 l)"] by (simp add: setByGateway_def)
  have ck: "canonicalKey ''Connection'' = ''Connection''" "canonicalKey ''Upgrade'' = ''Upgrade''"
    "canonicalKey ''X-Real-IP'' = ''X-Real-Ip''" "canonicalKey ''X-Forwarded-For'' = ''X-Forwarded-For''"
    using canonical_gateway_keys by (simp_all add: setByGateway_def)
  { fix n assume n: "n \<in> set hopByHop \<union> set (namedHops h)" "canonicalKey n \<notin> canonicalKey ` set setByGateway"
    then have "canonicalKey n \<in> canonicalKey ` (set hopByHop \<union> set (namedHops h))" by blast
    then show "hValues (out_Header out') n = [] \<or> isWebSocketUpgrade h \<and> canonicalKey n \<in> {''Connection'', ''Upgrade''}"
      using n(2) unfolding assms gk by (simp add: applyRewrite_header hValues_removeHopByHop Let_def) }
  { assume "\<not> rp_trustXFF plan"
    then show "hValues (out_Header out') ''X-Forwarded-For'' = [addrString (rp_clientIP plan)]"
      "hValues (out_Header out') ''X-Real-IP'' = [addrString (rp_clientIP plan)]"
      unfolding assms(1) by (simp_all add: applyRewrite_header ck Let_def) }
  fix n assume n: "canonicalKey n \<notin> canonicalKey ` (set hopByHop \<union> set (namedHops h) \<union> set setByGateway)"
  have "''Connection'' \<in> canonicalKey ` set hopByHop" "''Upgrade'' \<in> canonicalKey ` set hopByHop"
    using ck by (auto simp: hopByHop_def)
  then have "canonicalKey n \<noteq> ''Connection''" "canonicalKey n \<noteq> ''Upgrade''" using n by (auto simp: image_Un)
  moreover have "canonicalKey n \<notin> canonicalKey ` (set hopByHop \<union> set (namedHops h))" "canonicalKey n \<notin> canonicalKey ` set setByGateway"
    using n by (auto simp: image_Un)
  ultimately show "hValues (out_Header out') n = hValues h n"
    unfolding assms gk by (simp add: applyRewrite_header hValues_removeHopByHop Let_def)
qed

definition samplePlan :: rewritePlan where
  "samplePlan = planFor False sampleRequest twoTarget ''10.0.0.1:80''"

theorem rewrite_headers_witness:
  "hValues (out_Header (applyRewrite samplePlan \<lparr>out_Scheme = '''', out_URLHost = '''', out_Path = ''/'', out_RawPath = '''',
     out_Header = [''Connection'' \<mapsto> [''X-Internal-Token''], ''X-Internal-Token'' \<mapsto> [''secret''], ''X-Forwarded-For'' \<mapsto> [''6.6.6.6'']],
     out_Host = ''''\<rparr>)) ''X-Internal-Token'' = []"
proof -
  let ?h = "[''Connection'' \<mapsto> [''X-Internal-Token''], ''X-Internal-Token'' \<mapsto> [''secret''], ''X-Forwarded-For'' \<mapsto> [''6.6.6.6'']]"
  let ?o = "\<lparr>out_Scheme = '''', out_URLHost = '''', out_Path = ''/'', out_RawPath = '''', out_Header = ?h, out_Host = ''''\<rparr>"
  have "''X-Internal-Token'' \<in> set (namedHops ?h)" "\<not> isWebSocketUpgrade ?h"
    "canonicalKey ''X-Internal-Token'' \<notin> canonicalKey ` set setByGateway" by code_simp+
  then show ?thesis using rewrite_headers [of "applyRewrite samplePlan ?o" samplePlan ?o ?h] by simp
qed

subsection \<open>The pool\<close>

lemma indexByte_append: "c \<notin> set a \<Longrightarrow> indexByte (a @ c # b) c = Some (length a)"
  by (induction a) auto

lemma keyUpstream_poolKey: "CHR ''|'' \<notin> set (i_IP i) \<Longrightarrow> keyUpstream (poolKey i pol) = addr i"
proof -
  assume a: "CHR ''|'' \<notin> set (i_IP i)"
  have "CHR ''|'' \<notin> set (decimal n)" for n using decimal_chars by (fastforce simp: isDigit_def byte_def)
  then have "CHR ''|'' \<notin> set (addr i)" using a by (simp add: addr_eq)
  from indexByte_append [OF this] show ?thesis by (simp add: keyUpstream_def poolKey_def)
qed

end
