(* ===== verification/CertDir.thy ===== *)
theory CertDir
  imports Static
begin

text \<open>
  Certificates from the shared directory (\<^verbatim>\<open>internal/gateway/certdir.go\<close>): discovery in the three layouts,
  the precedence between sources, and wildcard coverage.  X.509 is a parameter: \<open>x509 certPEM keyPEM\<close> is
  the outcome of \<^verbatim>\<open>parseCertificate\<close> (None when the pair does not parse), \<open>pem\<close> the PEM blocks of a text with
  their type and re-encoded text.  The directory is a parameter too: its entries, and \<open>rd\<close> for the content
  of a readable regular file.  Instants are Unix nanoseconds.
\<close>

subsection \<open>Certificates\<close>

record Leaf =
  lf_IssuerCN :: string
  lf_IssuerOrg :: "string list"
  lf_NotBefore :: int
  lf_NotAfter :: int

text \<open>A loaded \<^verbatim>\<open>tls.Certificate\<close>: its material and its parsed leaf.\<close>

record TLSCert =
  tc_CertPEM :: string
  tc_KeyPEM :: string
  tc_Leaf :: Leaf

type_synonym x509 = "string \<Rightarrow> string \<Rightarrow> Leaf option"

definition parseCertificate :: "x509 \<Rightarrow> string \<Rightarrow> string \<Rightarrow> TLSCert option" where
  "parseCertificate x certPEM keyPEM =
     map_option (\<lambda>l. \<lparr>tc_CertPEM = certPEM, tc_KeyPEM = keyPEM, tc_Leaf = l\<rparr>) (x certPEM keyPEM)"

record CertInfo =
  ci_Domain :: string
  ci_Source :: string
  ci_Issuer :: string
  ci_NotBefore :: int
  ci_NotAfter :: int
  ci_Status :: string
  ci_LastError :: string
  ci_FilePath :: string

record fileCert =
  fc_domain :: string
  fc_path :: string
  fc_cert :: TLSCert

definition issuerOf :: "Leaf \<Rightarrow> string \<Rightarrow> string" where
  "issuerOf leaf fallback = (if lf_IssuerCN leaf \<noteq> '''' then lf_IssuerCN leaf else fallback)"

subsection \<open>Precedence\<close>

definition certRank :: "string \<Rightarrow> nat" where
  "certRank source = (if source = ''manual'' then 3 else if source = ''acme'' \<or> source = ''file'' then 2 else 1)"

definition betterCert :: "CertInfo \<Rightarrow> CertInfo \<Rightarrow> bool" where
  "betterCert incumbent cand =
     (let ri = certRank (ci_Source incumbent); rc = certRank (ci_Source cand)
      in if rc \<noteq> ri then rc > ri
         else if ci_NotAfter cand \<noteq> ci_NotAfter incumbent then ci_NotAfter cand > ci_NotAfter incumbent
         else ci_Source cand \<noteq> ''file'')"

definition classifyFileCert :: "Leaf \<Rightarrow> string" where
  "classifyFileCert leaf =
     (if list_ex (\<lambda>org. contains org ''goacos gateway'') (lf_IssuerOrg leaf) then ''self_signed''
      else if contains (lf_IssuerCN leaf) ''goacos gateway'' then ''self_signed''
      else ''file'')"

definition fileInfo :: "string \<Rightarrow> fileCert \<Rightarrow> CertInfo" where
  "fileInfo domain f =
     (let leaf = tc_Leaf (fc_cert f)
      in \<lparr>ci_Domain = domain, ci_Source = classifyFileCert leaf, ci_Issuer = issuerOf leaf '''',
          ci_NotBefore = lf_NotBefore leaf, ci_NotAfter = lf_NotAfter leaf, ci_Status = ''active'',
          ci_LastError = '''', ci_FilePath = fc_path f\<rparr>)"

type_synonym cert_cache = "(string \<rightharpoonup> CertInfo) \<times> (string \<rightharpoonup> TLSCert)"

definition mergeFile :: "string \<times> fileCert \<Rightarrow> cert_cache \<Rightarrow> cert_cache" where
  "mergeFile df c =
     (let (domain, f) = df; (info, certs) = c; cand = fileInfo domain f
      in case info domain of
           Some existing \<Rightarrow> if \<not> betterCert existing cand then (info, certs)
                            else (info(domain \<mapsto> cand), certs(domain \<mapsto> fc_cert f))
         | None \<Rightarrow> (info(domain \<mapsto> cand), certs(domain \<mapsto> fc_cert f)))"

text \<open>\<^verbatim>\<open>mergeCerts\<close>: the files in the order the Go map yields them.\<close>

definition mergeCerts :: "(string \<rightharpoonup> CertInfo) \<Rightarrow> (string \<rightharpoonup> TLSCert) \<Rightarrow> (string \<times> fileCert) list \<Rightarrow> cert_cache" where
  "mergeCerts db dbCerts files =
     fold mergeFile files (db, \<lambda>d. case db d of Some _ \<Rightarrow> dbCerts d | None \<Rightarrow> None)"

subsection \<open>Discovery\<close>

definition hostChar :: "char \<Rightarrow> bool" where
  "hostChar c \<longleftrightarrow> (97 \<le> byte c \<and> byte c \<le> 122) \<or> isDigit c \<or> c = CHR ''.'' \<or> c = CHR ''-'' \<or> c = CHR ''_''"

definition domainFromName :: "string \<Rightarrow> string" where
  "domainFromName name =
     (let d = trimSpace (toLower name)
      in if d = '''' \<or> hasPrefix d ''.'' then ''''
         else if hasPrefix d ''*.'' then
           (let r = drop 2 d in if r = '''' then '''' else ''*.'' @ trimSuffix r ''/'')
         else if \<not> contains d ''.'' then ''''
         else if list_ex (\<lambda>c. c = CHR ''/'' \<or> c = CHR 0x5C \<or> c = CHR '' '' \<or> c = CHR 0x09) d then ''''
         else if \<not> list_all hostChar d then ''''
         else d)"

type_synonym files = "string \<rightharpoonup> fileCert"

definition storePair :: "x509 \<Rightarrow> string \<Rightarrow> string \<Rightarrow> string \<Rightarrow> string \<Rightarrow> files \<Rightarrow> files" where
  "storePair x path certPEM keyPEM domain out =
     (if domain = '''' then out
      else case parseCertificate x certPEM keyPEM of
             None \<Rightarrow> out
           | Some cert \<Rightarrow> out(domain \<mapsto> \<lparr>fc_domain = domain, fc_path = path, fc_cert = cert\<rparr>))"

definition loadPair :: "x509 \<Rightarrow> (string \<Rightarrow> string option) \<Rightarrow> string \<Rightarrow> string \<Rightarrow> string \<Rightarrow> files \<Rightarrow> files" where
  "loadPair x rd certFile keyFile domain out =
     (case rd certFile of
        None \<Rightarrow> out
      | Some certPEM \<Rightarrow> (case rd keyFile of None \<Rightarrow> out | Some keyPEM \<Rightarrow> storePair x certFile certPEM keyPEM domain out))"

definition firstExisting :: "(string \<Rightarrow> fkind option) \<Rightarrow> string \<Rightarrow> string list \<Rightarrow> string" where
  "firstExisting fs dir candidates =
     (case find (fileExists fs) (map (pathJoin dir) candidates) of Some p \<Rightarrow> p | None \<Rightarrow> '''')"

definition collectFromSubdir :: "x509 \<Rightarrow> (string \<Rightarrow> fkind option) \<Rightarrow> (string \<Rightarrow> string option) \<Rightarrow> string \<Rightarrow> string \<Rightarrow> files \<Rightarrow> files" where
  "collectFromSubdir x fs rd rdir name out =
     (let domain = domainFromName name
      in if domain = '''' then out
         else let dir = pathJoin rdir name;
                  certFile = firstExisting fs dir [''fullchain.pem'', ''cert.pem'', domain @ ''.crt'', domain @ ''.pem''];
                  keyFile = firstExisting fs dir [''privkey.pem'', domain @ ''.key'', ''key.pem'']
              in if certFile = '''' \<or> keyFile = '''' then out else loadPair x rd certFile keyFile domain out)"

definition splitCombinedPEM :: "(string \<Rightarrow> (string \<times> string) list) \<Rightarrow> string \<Rightarrow> (string \<times> string) option" where
  "splitCombinedPEM pem raw =
     (let certs = concat (map snd (filter (\<lambda>b. fst b = ''CERTIFICATE'') (pem raw)));
          key = (case filter (\<lambda>b. fst b \<in> {''PRIVATE KEY'', ''RSA PRIVATE KEY'', ''EC PRIVATE KEY''} \<and> snd b \<noteq> '''') (pem raw) of
                   [] \<Rightarrow> '''' | b # _ \<Rightarrow> snd b)
      in if certs = '''' \<or> key = '''' then None else Some (certs, key))"

definition collectFlat :: "x509 \<Rightarrow> (string \<Rightarrow> (string \<times> string) list) \<Rightarrow> (string \<Rightarrow> fkind option) \<Rightarrow> (string \<Rightarrow> string option) \<Rightarrow>
    string \<Rightarrow> string \<Rightarrow> files \<Rightarrow> files" where
  "collectFlat x pem fs rd rdir name out =
     (let ext = toLower (pathExt name); stem = trimSuffix name (pathExt name)
      in if ext = ''.pem'' then
           (let p = pathJoin rdir name
            in case rd p of
                 None \<Rightarrow> out
               | Some raw \<Rightarrow>
                   (case splitCombinedPEM pem raw of
                      None \<Rightarrow> out
                    | Some (certPEM, keyPEM) \<Rightarrow> storePair x p certPEM keyPEM (domainFromName stem) out))
         else if ext = ''.crt'' \<or> ext = ''.cert'' \<or> ext = ''.key'' then
           (let crt = pathJoin rdir (stem @ ''.crt''); cer = pathJoin rdir (stem @ ''.cert'');
                certFile = (if ext \<noteq> ''.crt'' then (if \<not> fileExists fs cer then crt else cer) else crt);
                keyFile = pathJoin rdir (stem @ ''.key'')
            in if fileExists fs certFile \<and> fileExists fs keyFile then loadPair x rd certFile keyFile (domainFromName stem) out
               else out)
         else out)"

text \<open>\<^verbatim>\<open>scanCertDir\<close>: \<open>entries\<close> is the directory listing (None when it cannot be read).\<close>

definition scanEntry :: "x509 \<Rightarrow> (string \<Rightarrow> (string \<times> string) list) \<Rightarrow> (string \<Rightarrow> fkind option) \<Rightarrow> (string \<Rightarrow> string option) \<Rightarrow>
    string \<Rightarrow> string \<times> bool \<Rightarrow> files \<Rightarrow> files" where
  "scanEntry x pem fs rd dir e out =
     (let (name, isDir) = e
      in if hasPrefix name ''.'' then out
         else if isDir then collectFromSubdir x fs rd dir name out
         else collectFlat x pem fs rd dir name out)"

definition scanCertDir :: "x509 \<Rightarrow> (string \<Rightarrow> (string \<times> string) list) \<Rightarrow> (string \<Rightarrow> fkind option) \<Rightarrow> (string \<Rightarrow> string option) \<Rightarrow>
    (string \<times> bool) list option \<Rightarrow> string \<Rightarrow> files" where
  "scanCertDir x pem fs rd entries dir =
     (if dir = '''' then Map.empty
      else case entries of None \<Rightarrow> Map.empty | Some es \<Rightarrow> fold (scanEntry x pem fs rd dir) es Map.empty)"

subsection \<open>Wildcards\<close>

definition coversWildcard :: "string \<Rightarrow> string \<Rightarrow> bool" where
  "coversWildcard pattern name =
     (if \<not> hasPrefix pattern ''*.'' then False
      else let suffix = drop 2 pattern
           in if \<not> hasSuffix name (CHR ''.'' # suffix) then False
              else let label = trimSuffix name (CHR ''.'' # suffix)
                   in label \<noteq> '''' \<and> \<not> contains label ''.'')"

subsection \<open>Publishing a pair\<close>

text \<open>
  \<^verbatim>\<open>atomicWrite\<close> on a file system as a map from paths to contents.  \<open>fail\<close> names the system call that fails,
  if any; a failed \<^verbatim>\<open>Write\<close> may leave a prefix of the data.  The result carries every state a concurrent reader
  can observe, the last one being the final state.
\<close>

datatype wstage = CreateTempFails | WriteFails nat | SyncFails | CloseFails | ChmodFails | RenameFails

type_synonym fsys = "string \<rightharpoonup> string"

definition atomicWrite :: "wstage option \<Rightarrow> string \<Rightarrow> string \<Rightarrow> string \<Rightarrow> fsys \<Rightarrow> bool \<times> fsys list" where
  "atomicWrite fail tmp path content fs =
     (if fail = Some CreateTempFails then (False, [fs])
      else let created = fs(tmp \<mapsto> [])
           in case fail of
                Some (WriteFails n) \<Rightarrow> (False, [created, created(tmp \<mapsto> take n content), created(tmp := None)])
              | Some _ \<Rightarrow> (False, [created, created(tmp \<mapsto> content), created(tmp := None)])
              | None \<Rightarrow> (True, [created, created(tmp \<mapsto> content), created(path \<mapsto> content, tmp := None)]))"

definition writeCertPair :: "bool \<Rightarrow> (string \<Rightarrow> wstage option) \<Rightarrow> (string \<Rightarrow> string) \<Rightarrow> string \<Rightarrow> string \<Rightarrow> string \<Rightarrow> string \<Rightarrow>
    fsys \<Rightarrow> bool \<times> fsys list" where
  "writeCertPair mkdirOK fail tmp dir domain certPEM keyPEM fs =
     (if dir = '''' \<or> domain = '''' then (True, [fs])
      else if \<not> mkdirOK then (False, [fs])
      else let crt = pathJoin dir (domain @ ''.crt''); key = pathJoin dir (domain @ ''.key'');
               (ok, seen) = atomicWrite (fail crt) (tmp crt) crt certPEM fs
           in if \<not> ok then (False, seen)
              else let (ok', seen') = atomicWrite (fail key) (tmp key) key keyPEM (last seen)
                   in (ok', seen @ seen'))"

subsection \<open>What precedence guarantees\<close>

lemma mergeFile_other:
  "d \<noteq> fst df \<Longrightarrow> fst (mergeFile df c) d = fst c d \<and> snd (mergeFile df c) d = snd c d"
  by (auto simp: mergeFile_def Let_def split: prod.split option.split)

lemma merge_other:
  "d \<notin> fst ` set files \<Longrightarrow> fst (fold mergeFile files c) d = fst c d \<and> snd (fold mergeFile files c) d = snd c d"
  by (induction files arbitrary: c) (auto simp: mergeFile_other)

lemma merge_at:
  "distinct (map fst files) \<Longrightarrow> map_of files d = Some f \<Longrightarrow>
   fst (fold mergeFile files c) d = fst (mergeFile (d, f) c) d \<and>
   snd (fold mergeFile files c) d = snd (mergeFile (d, f) c) d"
proof (induction files arbitrary: c)
  case (Cons df files)
  show ?case
  proof (cases "fst df = d")
    case True
    then have "df = (d, f)" "d \<notin> fst ` set files" using Cons.prems by auto
    then show ?thesis using merge_other [of d files "mergeFile (d, f) c"] by simp
  next
    case False
    then have "map_of files d = Some f" using Cons.prems(2) by (cases df) simp
    then have "fst (fold mergeFile (df # files) c) d = fst (mergeFile (d, f) (mergeFile df c)) d \<and>
      snd (fold mergeFile (df # files) c) d = snd (mergeFile (d, f) (mergeFile df c)) d"
      using Cons.IH [of "mergeFile df c"] Cons.prems(1) by simp
    moreover have "fst (mergeFile (d, f) (mergeFile df c)) d = fst (mergeFile (d, f) c) d \<and>
      snd (mergeFile (d, f) (mergeFile df c)) d = snd (mergeFile (d, f) c) d"
      using mergeFile_other [of d df c] False
      by (auto simp: mergeFile_def [of "(d, f)"] Let_def split: prod.split option.split)
    ultimately show ?thesis by simp
  qed
qed simp

definition realSource :: "string \<Rightarrow> bool" where
  "realSource s \<longleftrightarrow> s = ''acme'' \<or> s = ''file''"

lemma fileInfo_sel [simp]:
  "ci_Source (fileInfo d f) = classifyFileCert (tc_Leaf (fc_cert f))"
  "ci_NotAfter (fileInfo d f) = lf_NotAfter (tc_Leaf (fc_cert f))"
  by (simp_all add: fileInfo_def Let_def)

lemma classify_cases: "classifyFileCert l = ''self_signed'' \<or> classifyFileCert l = ''file''"
  by (simp add: classifyFileCert_def)

lemma betterCert_file:
  "betterCert i (fileInfo d f) \<longleftrightarrow>
     (if ci_Source i = ''manual'' then False
      else if realSource (ci_Source i) then
        classifyFileCert (tc_Leaf (fc_cert f)) = ''file'' \<and> ci_NotAfter i < lf_NotAfter (tc_Leaf (fc_cert f))
      else classifyFileCert (tc_Leaf (fc_cert f)) = ''file'' \<or> ci_NotAfter i \<le> lf_NotAfter (tc_Leaf (fc_cert f)))"
  using classify_cases [of "tc_Leaf (fc_cert f)"]
  by (auto simp: betterCert_def certRank_def realSource_def Let_def)

text \<open>Precedence between the database and the directory does not depend on the order of the files: a manual
  certificate is never replaced, a real certificate replaces a placeholder and never the converse, of two real ones
  the later expiry wins with ties to the database, and a domain with one source keeps it.\<close>

theorem cert_precedence:
  assumes "distinct (map fst files)" "mergeCerts db dbCerts files = (info, certs)"
  shows "case (db d, map_of files d) of
           (None, None) \<Rightarrow> info d = None \<and> certs d = None
         | (Some i, None) \<Rightarrow> info d = Some i \<and> certs d = dbCerts d
         | (None, Some f) \<Rightarrow> info d = Some (fileInfo d f) \<and> certs d = Some (fc_cert f)
         | (Some i, Some f) \<Rightarrow>
             (let fileWins = info d = Some (fileInfo d f) \<and> certs d = Some (fc_cert f);
                  dbWins = info d = Some i \<and> certs d = dbCerts d;
                  real = classifyFileCert (tc_Leaf (fc_cert f)) = ''file''
              in if ci_Source i = ''manual'' then dbWins
                 else if realSource (ci_Source i) then
                   if real \<and> ci_NotAfter i < lf_NotAfter (tc_Leaf (fc_cert f)) then fileWins else dbWins
                 else if real then fileWins else fileWins \<or> dbWins)"
proof -
  let ?c = "(db, \<lambda>d. case db d of Some _ \<Rightarrow> dbCerts d | None \<Rightarrow> None)"
  have r: "info = fst (fold mergeFile files ?c)" "certs = snd (fold mergeFile files ?c)"
    using assms(2) by (simp_all add: mergeCerts_def)
  show ?thesis
  proof (cases "map_of files d")
    case None
    then have "d \<notin> fst ` set files" by (simp add: map_of_eq_None_iff)
    then show ?thesis using None merge_other [of d files ?c] by (auto simp: r split: option.split)
  next
    case (Some f)
    then show ?thesis using merge_at [OF assms(1) Some, of ?c] betterCert_file [of _ d f]
      by (auto simp: r mergeFile_def Let_def split: option.split)
  qed
qed

definition demoLeaf :: "string \<Rightarrow> int \<Rightarrow> Leaf" where
  "demoLeaf cn na = \<lparr>lf_IssuerCN = cn, lf_IssuerOrg = [], lf_NotBefore = 0, lf_NotAfter = na\<rparr>"

definition demoCert :: "string \<Rightarrow> int \<Rightarrow> TLSCert" where
  "demoCert cn na = \<lparr>tc_CertPEM = ''C'', tc_KeyPEM = ''K'', tc_Leaf = demoLeaf cn na\<rparr>"

definition demoFile :: fileCert where
  "demoFile = \<lparr>fc_domain = ''a.com'', fc_path = ''/certs/a.com.crt'', fc_cert = demoCert ''R3'' 50\<rparr>"

definition demoInfo :: "string \<Rightarrow> int \<Rightarrow> CertInfo" where
  "demoInfo src na = \<lparr>ci_Domain = ''a.com'', ci_Source = src, ci_Issuer = '''', ci_NotBefore = 0, ci_NotAfter = na,
     ci_Status = ''active'', ci_LastError = '''', ci_FilePath = ''''\<rparr>"

theorem cert_precedence_witness:
  "(let (info, certs) = mergeCerts [''a.com'' \<mapsto> demoInfo ''self_signed'' 900] [''a.com'' \<mapsto> demoCert ''x'' 900]
                          [(''a.com'', demoFile)]
    in certs ''a.com'' = Some (demoCert ''R3'' 50))"
proof -
  let ?m = "mergeCerts [''a.com'' \<mapsto> demoInfo ''self_signed'' 900] [''a.com'' \<mapsto> demoCert ''x'' 900] [(''a.com'', demoFile)]"
  have "classifyFileCert (tc_Leaf (fc_cert demoFile)) = ''file''" by code_simp
  then show ?thesis
    using cert_precedence [of "[(''a.com'', demoFile)]" "[''a.com'' \<mapsto> demoInfo ''self_signed'' 900]"
        "[''a.com'' \<mapsto> demoCert ''x'' 900]" "fst ?m" "snd ?m" "''a.com''"]
    by (simp add: case_prod_beta realSource_def demoInfo_def) (simp add: demoFile_def)
qed

text \<open>Two placeholders that expire together: the directory wins, not the database.\<close>

lemma placeholder_tie_goes_to_directory:
  assumes "\<not> realSource (ci_Source i)" "ci_Source i \<noteq> ''manual''"
    and "classifyFileCert (tc_Leaf (fc_cert f)) = ''self_signed''" "ci_NotAfter i = lf_NotAfter (tc_Leaf (fc_cert f))"
  shows "fst (mergeCerts [d \<mapsto> i] [d \<mapsto> c] [(d, f)]) d = Some (fileInfo d f)"
  using assms by (simp add: mergeCerts_def mergeFile_def betterCert_file)

subsection \<open>Wildcards and discovery\<close>

lemma contains_char: "contains s [c] \<longleftrightarrow> c \<in> set s"
  by (induction s) (auto simp: hasPrefix_def)

lemma coversWildcard_iff:
  "coversWildcard pattern name \<longleftrightarrow>
     (\<exists>suffix label. pattern = ''*.'' @ suffix \<and> name = label @ ''.'' @ suffix \<and> label \<noteq> '''' \<and> CHR ''.'' \<notin> set label)"
  (is "_ \<longleftrightarrow> (\<exists>suffix label. ?P suffix label)")
proof
  assume c: "coversWildcard pattern name"
  then obtain s where p: "pattern = ''*.'' @ s" by (auto simp: coversWildcard_def hasPrefix_iff split: if_splits)
  with c obtain l where "name = l @ ''.'' @ s" by (auto simp: coversWildcard_def Let_def hasSuffix_iff split: if_splits)
  then have "?P s l" using c p trimSuffix_append [of l "CHR ''.'' # s"] by (simp add: coversWildcard_def Let_def contains_char split: if_splits)
  then show "\<exists>suffix label. ?P suffix label" by blast
next
  assume "\<exists>suffix label. ?P suffix label"
  then obtain s l where "?P s l" by blast
  then show "coversWildcard pattern name"
    using trimSuffix_append [of l "CHR ''.'' # s"] hasSuffix_append [of l "CHR ''.'' # s"]
    by (simp add: coversWildcard_def Let_def contains_char hasPrefix_def)
qed

text \<open>A scan only ever adds pairs that parsed.\<close>

definition okFiles :: "x509 \<Rightarrow> files \<Rightarrow> bool" where
  "okFiles x fm \<longleftrightarrow> (\<forall>d f. fm d = Some f \<longrightarrow> d \<noteq> '''' \<and> fc_domain f = d \<and>
     parseCertificate x (tc_CertPEM (fc_cert f)) (tc_KeyPEM (fc_cert f)) = Some (fc_cert f))"

lemma storePair_ok: "okFiles x out \<Longrightarrow> okFiles x (storePair x path c k d out)"
  by (auto simp: okFiles_def storePair_def parseCertificate_def split: option.splits)

lemma loadPair_ok: "okFiles x out \<Longrightarrow> okFiles x (loadPair x rd c k d out)"
  by (simp add: loadPair_def storePair_ok split: option.split)

lemma collectFromSubdir_ok: "okFiles x out \<Longrightarrow> okFiles x (collectFromSubdir x fs rd dir name out)"
  unfolding collectFromSubdir_def Let_def by (simp only: loadPair_ok split: if_split) simp

lemma collectFlat_ok: "okFiles x out \<Longrightarrow> okFiles x (collectFlat x pem fs rd dir name out)"
  unfolding collectFlat_def Let_def
  by (simp only: loadPair_ok storePair_ok split: if_split option.split prod.split) simp

lemma scanEntry_ok: "okFiles x out \<Longrightarrow> okFiles x (scanEntry x pem fs rd dir e out)"
  by (cases e) (simp add: scanEntry_def collectFromSubdir_ok collectFlat_ok)

lemma fold_scan_ok: "okFiles x out \<Longrightarrow> okFiles x (fold (scanEntry x pem fs rd dir) es out)"
  by (induction es arbitrary: out) (simp_all add: scanEntry_ok)

lemma scan_ok: "okFiles x (scanCertDir x pem fs rd entries dir)"
proof -
  have "okFiles x Map.empty" by (simp add: okFiles_def)
  then show ?thesis by (auto simp: scanCertDir_def fold_scan_ok split: option.split)
qed

lemma scan_hidden: "hasPrefix (fst e) ''.'' \<Longrightarrow> scanEntry x pem fs rd dir e out = out"
  by (cases e) (simp add: scanEntry_def)



end
