(* ===== verification/Acme.thy ===== *)
theory Acme
  imports CertDir
begin

text \<open>
  Certificate issuance over ACME (\<^verbatim>\<open>internal/gateway/acme.go\<close>) and the self-signed fallback with its cache
  (\<^verbatim>\<open>internal/gateway/selfsigned.go\<close>).  The ACME client library, DNS, the file system and the cryptography
  are parameters: records of functions that answer each call with a result or an error text.
\<close>

unbundle bit_operations_syntax

subsection \<open>Address classes of \<^verbatim>\<open>net.IP\<close>\<close>

definition isLoopback :: "Addr \<Rightarrow> bool" where
  "isLoopback a \<longleftrightarrow> (case unmap a of NoAddr \<Rightarrow> False | V4 w \<Rightarrow> drop_bit 24 w = 127 | V6 w _ \<Rightarrow> w = 1)"

definition isLinkLocalUnicast :: "Addr \<Rightarrow> bool" where
  "isLinkLocalUnicast a \<longleftrightarrow>
     (case unmap a of NoAddr \<Rightarrow> False | V4 w \<Rightarrow> drop_bit 16 w = 0xA9FE | V6 w _ \<Rightarrow> drop_bit 118 w = 0x3FA)"

definition isMulticast :: "Addr \<Rightarrow> bool" where
  "isMulticast a \<longleftrightarrow> (case unmap a of NoAddr \<Rightarrow> False | V4 w \<Rightarrow> drop_bit 28 w = 14 | V6 w _ \<Rightarrow> drop_bit 120 w = 0xFF)"

definition isGlobalUnicast :: "Addr \<Rightarrow> bool" where
  "isGlobalUnicast a \<longleftrightarrow>
     (case unmap a of NoAddr \<Rightarrow> False | V4 w \<Rightarrow> w \<noteq> 0xFFFFFFFF \<and> w \<noteq> 0 | V6 w _ \<Rightarrow> w \<noteq> 0) \<and>
     \<not> isLoopback a \<and> \<not> isMulticast a \<and> \<not> isLinkLocalUnicast a"

definition isPrivate :: "Addr \<Rightarrow> bool" where
  "isPrivate a \<longleftrightarrow>
     (case unmap a of
        NoAddr \<Rightarrow> False
      | V4 w \<Rightarrow> drop_bit 24 w = 10 \<or> drop_bit 20 w = 0xAC1 \<or> drop_bit 16 w = 0xC0A8
      | V6 w _ \<Rightarrow> drop_bit 121 w = 0x7E)"

text \<open>\<^verbatim>\<open>net.ParseIP\<close> accepts what \<^verbatim>\<open>netip.ParseAddr\<close> accepts, less zones.\<close>

definition parseIP :: "string \<Rightarrow> Addr option" where
  "parseIP s = (case parseAddr s of Some a \<Rightarrow> if hasZone a then None else Some a | None \<Rightarrow> None)"

subsection \<open>Eligibility\<close>

definition hostOnly :: "string \<Rightarrow> string" where
  "hostOnly authority = (case splitHostPort authority of Some (h, _) \<Rightarrow> h | None \<Rightarrow> authority)"

definition reservedSuffixes :: "string list" where
  "reservedSuffixes = [''.local'', ''.localhost'', ''.internal'', ''.intranet'', ''.lan'', ''.home'',
     ''.test'', ''.example'', ''.invalid'', ''.svc'', ''.cluster.local'']"

definition eligibleForACME :: "string \<Rightarrow> bool" where
  "eligibleForACME domain =
     (let d = NormalizeDomain (hostOnly domain)
      in if d = '''' \<or> hasPrefix d ''*.'' then False
         else if hasPrefix d ''*'' then False
         else if parseIP d \<noteq> None then False
         else let lower = toLower d
              in if list_ex (hasSuffix lower) reservedSuffixes then False
                 else if lower = ''localhost'' \<or> \<not> contains lower ''.'' then False
                 else True)"

definition resolvablePublicly :: "(string \<Rightarrow> Addr list option) \<Rightarrow> string \<Rightarrow> bool" where
  "resolvablePublicly lookupIP domain =
     (case lookupIP (trimPrefix (toLower domain) ''*.'') of
        None \<Rightarrow> False
      | Some ips \<Rightarrow> ips \<noteq> [] \<and>
          list_all (\<lambda>ip. \<not> (\<not> isGlobalUnicast ip \<or> isPrivate ip \<or> isLoopback ip \<or> isLinkLocalUnicast ip)) ips)"

subsection \<open>One issuance\<close>

record Authorization =
  az_Status :: string
  az_Identifier :: string
  az_Challenges :: "(string \<times> string) list"

record acmeClient =
  ac_Key :: "string + string"
  ac_AuthorizeOrder :: "string \<Rightarrow> string + (string \<times> string list)"
  ac_GetAuthorization :: "string \<Rightarrow> string + Authorization"
  ac_HTTP01Response :: "string \<Rightarrow> string + string"
  ac_Accept :: "string \<Rightarrow> string option"
  ac_WaitOrder :: "string \<Rightarrow> string + (string \<times> string)"
  ac_CSR :: "string \<Rightarrow> string + string"
  ac_CreateOrderCert :: "string \<Rightarrow> string \<Rightarrow> string + string list"
  ac_MarshalKey :: "string \<Rightarrow> string + string"
  ac_Register :: "string list \<Rightarrow> string option"

record acmeIssuer =
  is_enabled :: bool
  is_directory :: string
  is_email :: string
  is_dataDir :: string
  is_client :: "acmeClient option"

definition http01Challenge :: "Authorization \<Rightarrow> string + string" where
  "http01Challenge az =
     (case find (\<lambda>ch. fst ch = ''http-01'') (az_Challenges az) of
        Some ch \<Rightarrow> Inr (snd ch)
      | None \<Rightarrow> Inl (''no http-01 challenge offered for '' @ az_Identifier az))"

text \<open>The loop over the authorizations: the error that ends it, if any, and the challenges registered so far.\<close>

fun authorizeAll :: "acmeClient \<Rightarrow> string \<Rightarrow> string list \<Rightarrow> string option \<times> (string \<times> string) list" where
  "authorizeAll c domain [] = (None, [])"
| "authorizeAll c domain (u # us) =
     (case ac_GetAuthorization c u of
        Inl e \<Rightarrow> (Some (''get authorization: '' @ e), [])
      | Inr az \<Rightarrow>
          if az_Status az = ''valid'' then authorizeAll c domain us
          else if az_Status az \<noteq> ''pending'' then (Some (''authorization for '' @ domain @ '' is '' @ az_Status az), [])
          else (case http01Challenge az of
                  Inl e \<Rightarrow> (Some e, [])
                | Inr token \<Rightarrow>
                    (case ac_HTTP01Response c token of
                       Inl e \<Rightarrow> (Some (''challenge response: '' @ e), [])
                     | Inr response \<Rightarrow>
                         (case ac_Accept c token of
                            Some e \<Rightarrow> (Some (''accept challenge: '' @ e), [(token, response)])
                          | None \<Rightarrow> (let (err, regs) = authorizeAll c domain us in (err, (token, response) # regs))))))"

definition finishOrder :: "acmeClient \<Rightarrow> string \<Rightarrow> string \<Rightarrow> string \<Rightarrow> string + (string \<times> string)" where
  "finishOrder c domain priv uri =
     (case ac_WaitOrder c uri of
        Inl e \<Rightarrow> Inl (''wait for order: '' @ e)
      | Inr (uri', status) \<Rightarrow>
          if status \<noteq> ''ready'' then Inl (''order for '' @ domain @ '' is '' @ status)
          else (case ac_CSR c domain of
                  Inl e \<Rightarrow> Inl (''create csr: '' @ e)
                | Inr csr \<Rightarrow>
                    (case ac_CreateOrderCert c uri' csr of
                       Inl e \<Rightarrow> Inl (''finalize order: '' @ e)
                     | Inr chain \<Rightarrow>
                         if chain = [] then Inl ''ca returned an empty certificate chain''
                         else (case ac_MarshalKey c priv of
                                 Inl e \<Rightarrow> Inl (''marshal key: '' @ e)
                               | Inr keyPEM \<Rightarrow> Inr (concat chain, keyPEM)))))"

text \<open>\<^verbatim>\<open>issue\<close>: the outcome and the calls of \<^verbatim>\<open>serveChallenge\<close> in order, the deferred removals last, latest first.\<close>

definition issue :: "acmeIssuer \<Rightarrow> string \<Rightarrow> (string + (string \<times> string)) \<times> (string \<times> string) list" where
  "issue a domain =
     (case (if is_enabled a then is_client a else None) of
        None \<Rightarrow> (Inl ''acme is disabled'', [])
      | Some c \<Rightarrow>
          (case ac_Key c of
             Inl e \<Rightarrow> (Inl (''generate key: '' @ e), [])
           | Inr priv \<Rightarrow>
               (case ac_AuthorizeOrder c domain of
                  Inl e \<Rightarrow> (Inl (''authorize order: '' @ e), [])
                | Inr (uri, urls) \<Rightarrow>
                    (let (err, regs) = authorizeAll c domain urls
                     in ((case err of Some e \<Rightarrow> Inl e | None \<Rightarrow> finishOrder c domain priv uri),
                         regs @ map (\<lambda>(token, _). (token, '''')) (rev regs))))))"

definition registerAccount :: "acmeIssuer \<Rightarrow> string option" where
  "registerAccount a =
     (case (if is_enabled a then is_client a else None) of
        None \<Rightarrow> Some ''acme is disabled''
      | Some c \<Rightarrow>
          (case ac_Register c (if is_email a \<noteq> '''' then [''mailto:'' @ is_email a] else []) of
             None \<Rightarrow> None
           | Some e \<Rightarrow>
               (let msg = toLower e
                in if contains msg ''already'' \<or> contains msg ''accountDoesNotExist'' then None
                   else Some (''register acme account: '' @ e))))"

definition selfSignedSubject :: "string \<Rightarrow> string" where
  "selfSignedSubject domain = ''goacos gateway (self-signed): '' @ domain"

subsection \<open>Directories, account key and self-signed cache\<close>

definition writableDir :: "(string \<Rightarrow> bool) \<Rightarrow> string \<Rightarrow> string \<Rightarrow> string \<Rightarrow> string" where
  "writableDir mkdirAll tempDir dir name =
     (if dir = '''' then dir
      else if mkdirAll dir then dir
      else let fallback = pathJoin tempDir (''goacos-'' @ name)
           in if \<not> mkdirAll fallback then '''' else fallback)"

definition accountKeyPath :: "string \<Rightarrow> string" where
  "accountKeyPath dir = pathJoin dir ''account.key''"

record osEnv =
  os_MkdirAll :: "string \<Rightarrow> bool"
  os_TempDir :: string
  os_ReadFile :: "string \<Rightarrow> string option"
  os_CanWrite :: "string \<Rightarrow> bool"

text \<open>The key and the file written, if any.  \<open>parseEC\<close> is \<^verbatim>\<open>parseECKey\<close>, \<open>gen\<close> a fresh key with its PEM text.\<close>

definition loadOrCreateAccountKey :: "osEnv \<Rightarrow> (string \<Rightarrow> 'k option) \<Rightarrow> ('k \<times> string) option \<Rightarrow> string \<Rightarrow>
    'k option \<times> (string \<times> string) list" where
  "loadOrCreateAccountKey os parseEC gen dir0 =
     (let dir = writableDir (os_MkdirAll os) (os_TempDir os) dir0 ''acme'';
          cached = (if dir = '''' then None else Option.bind (os_ReadFile os (accountKeyPath dir)) parseEC)
      in case cached of
           Some key \<Rightarrow> (Some key, [])
         | None \<Rightarrow>
             (case gen of
                None \<Rightarrow> (None, [])
              | Some (key, text) \<Rightarrow>
                  if dir = '''' then (Some key, [])
                  else if os_CanWrite os (accountKeyPath dir) then (Some key, [(accountKeyPath dir, text)])
                  else (None, [])))"

definition newACMEIssuer :: "('k \<Rightarrow> string \<Rightarrow> acmeClient) \<Rightarrow> osEnv \<Rightarrow> (string \<Rightarrow> 'k option) \<Rightarrow> ('k \<times> string) option \<Rightarrow>
    string \<Rightarrow> string \<Rightarrow> string \<Rightarrow> acmeIssuer option" where
  "newACMEIssuer client os parseEC gen directory email dataDir =
     (let a = \<lparr>is_enabled = directory \<noteq> '''', is_directory = directory, is_email = email, is_dataDir = dataDir, is_client = None\<rparr>
      in if \<not> is_enabled a then Some a
         else map_option (\<lambda>key. a\<lparr>is_client := Some (client key directory)\<rparr>) (fst (loadOrCreateAccountKey os parseEC gen dataDir)))"

definition selfSignedRenewBefore :: int where
  "selfSignedRenewBefore = 30 * 24 * 3600 * 10 ^ 9"

definition selfSignedLifetime :: int where
  "selfSignedLifetime = 90 * 24 * 3600 * 10 ^ 9"

text \<open>The cryptography: \<^verbatim>\<open>tls.X509KeyPair\<close>, the two steps of \<^verbatim>\<open>parseCertificate\<close>, a leaf from a PEM text,
  \<^verbatim>\<open>VerifyHostname\<close>.\<close>

record pki =
  pk_KeyPair :: "string \<Rightarrow> string \<Rightarrow> TLSCert option"
  pk_Parse :: x509
  pk_Leaf :: "string \<Rightarrow> Leaf option"
  pk_Verify :: "Leaf \<Rightarrow> string \<Rightarrow> bool"

definition loadSelfSigned :: "pki \<Rightarrow> osEnv \<Rightarrow> int \<Rightarrow> string \<Rightarrow> string \<Rightarrow> string \<Rightarrow> (string \<times> string \<times> int) option" where
  "loadSelfSigned pk os now certPath keyPath domain =
     (case os_ReadFile os certPath of
        None \<Rightarrow> None
      | Some certPEM \<Rightarrow>
          (case os_ReadFile os keyPath of
             None \<Rightarrow> None
           | Some keyPEM \<Rightarrow>
               (case pk_Leaf pk certPEM of
                  None \<Rightarrow> None
                | Some leaf \<Rightarrow>
                    if now > lf_NotAfter leaf - selfSignedRenewBefore then None
                    else if \<not> pk_Verify pk leaf domain then None
                    else Some (certPEM, keyPEM, lf_NotAfter leaf))))"

text \<open>\<^verbatim>\<open>generateSelfSigned\<close>: \<open>mint\<close> is what \<^verbatim>\<open>newSelfSigned\<close> answers for the domain; the second component lists the
  files written.\<close>

definition generateSelfSigned :: "pki \<Rightarrow> osEnv \<Rightarrow> int \<Rightarrow> (string \<times> string \<times> int) option \<Rightarrow> string \<Rightarrow> string \<Rightarrow>
    (string \<times> string \<times> int) option \<times> (string \<times> string) list" where
  "generateSelfSigned pk os now mint domain dir0 =
     (let dir = writableDir (os_MkdirAll os) (os_TempDir os) dir0 ''selftest'';
          certPath = pathJoin dir (sanitizeFilename domain @ ''.crt'');
          keyPath = pathJoin dir (sanitizeFilename domain @ ''.key'')
      in case (if dir \<noteq> '''' then loadSelfSigned pk os now certPath keyPath domain else None) of
           Some r \<Rightarrow> (Some r, [])
         | None \<Rightarrow>
             (case mint of
                None \<Rightarrow> (None, [])
              | Some (certPEM, keyPEM, notAfter) \<Rightarrow>
                  (Some (certPEM, keyPEM, notAfter),
                   if dir = '''' then [] else filter (\<lambda>w. os_CanWrite os (fst w)) [(certPath, certPEM), (keyPath, keyPEM)])))"

subsection \<open>Lemmas\<close>

lemma generateSelfSigned_total:
  "mint \<noteq> None \<Longrightarrow> fst (generateSelfSigned pk os now mint domain dir) \<noteq> None"
  by (auto simp: generateSelfSigned_def Let_def split: option.split)

lemma loadSelfSigned_fresh:
  assumes "loadSelfSigned pk os now cp kp d = Some (c, k, na)"
  shows "now + selfSignedRenewBefore \<le> na \<and> (\<exists>leaf. pk_Leaf pk c = Some leaf \<and> pk_Verify pk leaf d \<and> na = lf_NotAfter leaf)"
  using assms by (auto simp: loadSelfSigned_def split: option.splits if_splits)

lemma toLower_no_upper: "CHR ''D'' \<notin> set (toLower s)"
proof
  assume "CHR ''D'' \<in> set (toLower s)"
  then obtain c where "CHR ''D'' = lowerChar c" by (auto simp: toLower_def)
  then have "lowerChar (CHR ''D'') = CHR ''D''" by (metis lowerChar_idem)
  moreover have "lowerChar (CHR ''D'') = CHR ''d''" by code_simp
  ultimately show False by simp
qed

text \<open>The second message \<^verbatim>\<open>registerAccount\<close> means to tolerate can never be recognised: the text is lower-cased first.\<close>

lemma accountDoesNotExist_never_matches: "\<not> contains (toLower msg) ''accountDoesNotExist''"
  using toLower_no_upper [of msg] by (force simp: contains_iff)

end
