(* ===== verification/Certs.thy ===== *)
theory Certs
  imports Acme GatewayStore "HOL-Library.AList"
begin

text \<open>
  The certificate manager (\<^verbatim>\<open>internal/gateway/certs.go\<close>): the serving cache, the HTTP-01 challenge registry,
  issuance with its back-off, and the reconcile loop.  The state is the manager with the database behind it and
  the shared directory it may publish to; \<open>world\<close> collects what the outside answers during one call.  Instants
  and durations are nanoseconds.
\<close>

subsection \<open>State\<close>

record failureRecord =
  fr_count :: nat
  fr_next :: int

record CertManager =
  cm_certs :: "string \<rightharpoonup> TLSCert"
  cm_info :: "string \<rightharpoonup> CertInfo"
  cm_default :: "TLSCert option"
  cm_challenges :: "(string \<times> string) list"
  cm_failures :: "(string \<times> failureRecord) list"
  cm_accountOK :: bool
  cm_onDemand :: "(string \<times> TLSCert) list"

record certCfg =
  cc_ns :: string
  cc_CertDir :: string
  cc_WriteBack :: bool
  cc_SelfSignedDir :: string
  cc_CertRefreshSeconds :: int
  cc_CertScanSeconds :: int

record world =
  w_now :: "string \<Rightarrow> int"
  w_after :: "string \<Rightarrow> int"
  w_jitter :: "string \<Rightarrow> int"
  w_tenYears :: int
  w_pki :: pki
  w_mint :: "string \<Rightarrow> (string \<times> string \<times> int) option"
  w_os :: osEnv
  w_issuer :: acmeIssuer
  w_lookupIP :: "string \<Rightarrow> Addr list option"
  w_pem :: "string \<Rightarrow> (string \<times> string) list"
  w_stat :: "string \<Rightarrow> fkind option"
  w_entries :: "(string \<times> bool) list option"
  w_mapOrder :: "string list"
  w_wstage :: "string \<Rightarrow> wstage option"
  w_tmp :: "string \<Rightarrow> string"

record cmState =
  st_m :: CertManager
  st_db :: db
  st_dir :: fsys

definition acmeBackoffBase :: int where
  "acmeBackoffBase = 5 * 60 * 10 ^ 9"

definition maxIssuanceBackoff :: int where
  "maxIssuanceBackoff = 6 * 3600 * 10 ^ 9"

definition maxOnDemandSelfSigned :: nat where
  "maxOnDemandSelfSigned = 64"

subsection \<open>Handshakes and challenges\<close>

definition lookupWildcard :: "CertManager \<Rightarrow> string \<Rightarrow> TLSCert option" where
  "lookupWildcard m name =
     (if name = '''' then None
      else let labels = splitOn CHR ''.'' name;
               pat = (\<lambda>i. ''*.'' @ joinWith ''.'' (drop i labels))
           in case find (\<lambda>i. cm_certs m (pat i) \<noteq> None \<and> coversWildcard (pat i) name) [1..<length labels - 1] of
                Some i \<Rightarrow> cm_certs m (pat i)
              | None \<Rightarrow> None)"

definition onDemandCert :: "world \<Rightarrow> string \<Rightarrow> CertManager \<Rightarrow> TLSCert option \<times> CertManager" where
  "onDemandCert w name m =
     (case map_of (cm_onDemand m) name of
        Some cert \<Rightarrow> (Some cert, m)
      | None \<Rightarrow>
          if length (cm_onDemand m) \<ge> maxOnDemandSelfSigned then (cm_default m, m)
          else (case w_mint w name of
                  None \<Rightarrow> (cm_default m, m)
                | Some (certPEM, keyPEM, _) \<Rightarrow>
                    (case pk_KeyPair (w_pki w) certPEM keyPEM of
                       None \<Rightarrow> (cm_default m, m)
                     | Some cert \<Rightarrow> (Some cert, m\<lparr>cm_onDemand := AList.update name cert (cm_onDemand m)\<rparr>))))"

definition GetCertificateTLS :: "world \<Rightarrow> string \<Rightarrow> CertManager \<Rightarrow> TLSCert option \<times> CertManager" where
  "GetCertificateTLS w serverName m =
     (let name = NormalizeDomain serverName
      in if name \<noteq> '''' then
           (case cm_certs m name of
              Some cert \<Rightarrow> (Some cert, m)
            | None \<Rightarrow>
                (case lookupWildcard m name of
                   Some cert \<Rightarrow> (Some cert, m)
                 | None \<Rightarrow>
                     (let (c, m') = onDemandCert w name m
                      in if c \<noteq> None then (c, m') else (cm_default m', m'))))
         else (cm_default m, m))"

definition ServeChallenge :: "CertManager \<Rightarrow> string \<Rightarrow> Header \<Rightarrow> (Header \<times> string) option" where
  "ServeChallenge m token h =
     map_option (\<lambda>value. (hSet ''Content-Type'' ''application/octet-stream'' h, value)) (map_of (cm_challenges m) token)"

definition setChallenge :: "string \<times> string \<Rightarrow> CertManager \<Rightarrow> CertManager" where
  "setChallenge tv m =
     (if snd tv = '''' then m\<lparr>cm_challenges := AList.delete (fst tv) (cm_challenges m)\<rparr>
      else m\<lparr>cm_challenges := AList.update (fst tv) (snd tv) (cm_challenges m)\<rparr>)"

subsection \<open>Reload\<close>

fun loadRows :: "x509 \<Rightarrow> Certificate list \<Rightarrow> cert_cache \<Rightarrow> cert_cache" where
  "loadRows x [] c = c"
| "loadRows x (row # rows) c =
     (case parseCertificate x (cert_CertPEM row) (cert_KeyPEM row) of
        None \<Rightarrow> loadRows x rows c
      | Some cert \<Rightarrow>
          (let domain = NormalizeDomain (cert_Domain row); leaf = tc_Leaf cert
           in loadRows x rows
                ((fst c)(domain \<mapsto> \<lparr>ci_Domain = domain, ci_Source = cert_Source row, ci_Issuer = issuerOf leaf (cert_Issuer row),
                    ci_NotBefore = lf_NotBefore leaf, ci_NotAfter = lf_NotAfter leaf, ci_Status = cert_Status row,
                    ci_LastError = cert_LastError row, ci_FilePath = ''''\<rparr>),
                 (snd c)(domain \<mapsto> cert))))"

definition dirFiles :: "world \<Rightarrow> certCfg \<Rightarrow> fsys \<Rightarrow> files" where
  "dirFiles w cfg dir =
     scanCertDir (pk_Parse (w_pki w)) (w_pem w) (\<lambda>p. if dir p \<noteq> None then Some FFile else w_stat w p) dir
       (w_entries w) (cc_CertDir cfg)"

definition enumFiles :: "string list \<Rightarrow> files \<Rightarrow> (string \<times> fileCert) list" where
  "enumFiles order fm = List.map_filter (\<lambda>d. map_option (Pair d) (fm d)) order"

definition reload :: "world \<Rightarrow> certCfg \<Rightarrow> cmState \<Rightarrow> goerr option \<times> cmState" where
  "reload w cfg st =
     (case ListCertificates (cc_ns cfg) (st_db st) of
        (Inl e, d) \<Rightarrow> (Some e, st\<lparr>st_db := d\<rparr>)
      | (Inr rows, d) \<Rightarrow>
          (let (info, certs) = loadRows (pk_Parse (w_pki w)) rows (Map.empty, Map.empty);
               (info', certs') = mergeCerts info certs (enumFiles (w_mapOrder w) (dirFiles w cfg (st_dir st)))
           in (None, st\<lparr>st_m := (st_m st)\<lparr>cm_certs := certs', cm_info := info'\<rparr>, st_db := d\<rparr>)))"

definition scanDirectory :: "world \<Rightarrow> certCfg \<Rightarrow> bool \<Rightarrow> cmState \<Rightarrow> cmState" where
  "scanDirectory w cfg statOK st =
     (if cc_CertDir cfg = '''' then st
      else if \<not> statOK then st
      else snd (reload w cfg st))"

definition InfoOf :: "CertManager \<Rightarrow> string \<Rightarrow> CertInfo option" where
  "InfoOf m domain = cm_info m (NormalizeDomain domain)"

definition Expired :: "int \<Rightarrow> CertInfo \<Rightarrow> bool" where
  "Expired now c \<longleftrightarrow> now > ci_NotAfter c"

definition needsRenewal :: "int \<Rightarrow> CertInfo \<Rightarrow> bool" where
  "needsRenewal now info =
     (if Expired now info then True
      else let window = (if ci_Source info = ''self_signed'' then selfSignedRenewBefore else 21 * 24 * 3600 * 10 ^ 9)
           in now + window > ci_NotAfter info)"

subsection \<open>Back-off\<close>

fun backoffLoop :: "nat \<Rightarrow> int \<Rightarrow> int" where
  "backoffLoop 0 d = d"
| "backoffLoop (Suc k) d = (if d < maxIssuanceBackoff then backoffLoop k (d * 2) else d)"

definition backoffFor :: "nat \<Rightarrow> int" where
  "backoffFor n =
     (let d = backoffLoop (n - 1) acmeBackoffBase in if d > maxIssuanceBackoff then maxIssuanceBackoff else d)"

definition failureOf :: "CertManager \<Rightarrow> string \<Rightarrow> failureRecord" where
  "failureOf m domain = (case map_of (cm_failures m) domain of Some r \<Rightarrow> r | None \<Rightarrow> \<lparr>fr_count = 0, fr_next = zeroTime\<rparr>)"

definition recordAttempt :: "int \<Rightarrow> string \<Rightarrow> CertManager \<Rightarrow> CertManager" where
  "recordAttempt now domain m =
     (let rec = failureOf m domain
      in m\<lparr>cm_failures := AList.update domain (rec\<lparr>fr_next := now + backoffFor (fr_count rec)\<rparr>) (cm_failures m)\<rparr>)"

definition recordSuccess :: "string \<Rightarrow> CertManager \<Rightarrow> CertManager" where
  "recordSuccess domain m = m\<lparr>cm_failures := AList.delete domain (cm_failures m)\<rparr>"

text \<open>\<open>jitter\<close> is what \<^verbatim>\<open>rand.Int63n\<close> returned; it is reduced to the range the call asked for.\<close>

definition recordFailure :: "int \<Rightarrow> int \<Rightarrow> string \<Rightarrow> CertManager \<Rightarrow> CertManager" where
  "recordFailure now jitter domain m =
     (let rec = failureOf m domain; n = Suc (fr_count rec)
      in m\<lparr>cm_failures := AList.update domain
             \<lparr>fr_count = n, fr_next = now + (backoffFor n + jitter mod (int n * 10 ^ 9))\<rparr> (cm_failures m)\<rparr>)"

definition backoffRemaining :: "int \<Rightarrow> CertManager \<Rightarrow> string \<Rightarrow> int option" where
  "backoffRemaining now m domain =
     (case map_of (cm_failures m) domain of
        None \<Rightarrow> None
      | Some rec \<Rightarrow> if \<not> now < fr_next rec then None else Some (fr_next rec - now))"

subsection \<open>Issuance\<close>

definition acmePossible :: "world \<Rightarrow> string \<Rightarrow> bool" where
  "acmePossible w domain =
     (if \<not> is_enabled (w_issuer w) then False
      else if \<not> eligibleForACME domain then False
      else resolvablePublicly (w_lookupIP w) domain)"

definition clearOnDemand :: "string \<Rightarrow> CertManager \<Rightarrow> CertManager" where
  "clearOnDemand domain m = m\<lparr>cm_onDemand := AList.delete domain (cm_onDemand m)\<rparr>"

definition install :: "string \<Rightarrow> TLSCert \<Rightarrow> CertInfo \<Rightarrow> CertManager \<Rightarrow> CertManager" where
  "install domain cert info m =
     clearOnDemand domain (m\<lparr>cm_certs := (cm_certs m)(NormalizeDomain domain \<mapsto> cert),
                            cm_info := (cm_info m)(NormalizeDomain domain \<mapsto> info)\<rparr>)"

definition mirrorToDir :: "world \<Rightarrow> certCfg \<Rightarrow> string \<Rightarrow> string \<Rightarrow> string \<Rightarrow> fsys \<Rightarrow> fsys" where
  "mirrorToDir w cfg domain certPEM keyPEM dir =
     (if \<not> cc_WriteBack cfg \<or> cc_CertDir cfg = '''' then dir
      else last (snd (writeCertPair (os_MkdirAll (w_os w) (cc_CertDir cfg)) (w_wstage w) (w_tmp w) (cc_CertDir cfg) domain certPEM keyPEM dir)))"

definition issuedRow :: "string \<Rightarrow> string \<Rightarrow> string \<Rightarrow> string \<Rightarrow> string \<Rightarrow> string \<Rightarrow> int \<Rightarrow> int \<Rightarrow> int \<Rightarrow> Certificate" where
  "issuedRow ns domain source issuer certPEM keyPEM nb na renew =
     \<lparr>cert_NamespaceId = ns, cert_Domain = domain, cert_Source = source, cert_Issuer = issuer, cert_CertPEM = certPEM,
      cert_KeyPEM = keyPEM, cert_NotBefore = nb, cert_NotAfter = na, cert_RenewBeforeDays = renew, cert_AcmeOrderURL = '''',
      cert_Status = ''active'', cert_LastError = ''''\<rparr>"

definition activeInfo :: "string \<Rightarrow> string \<Rightarrow> string \<Rightarrow> int \<Rightarrow> int \<Rightarrow> CertInfo" where
  "activeInfo domain source issuer nb na =
     \<lparr>ci_Domain = domain, ci_Source = source, ci_Issuer = issuer, ci_NotBefore = nb, ci_NotAfter = na,
      ci_Status = ''active'', ci_LastError = '''', ci_FilePath = ''''\<rparr>"

definition storeIssued :: "world \<Rightarrow> certCfg \<Rightarrow> string \<Rightarrow> string \<Rightarrow> string \<Rightarrow> cmState \<Rightarrow> bool \<times> cmState" where
  "storeIssued w cfg domain certPEM keyPEM st =
     (case parseCertificate (pk_Parse (w_pki w)) certPEM keyPEM of
        None \<Rightarrow> (False, st)
      | Some cert \<Rightarrow>
          (let leaf = tc_Leaf cert; issuer = issuerOf leaf '''';
               row = issuedRow (cc_ns cfg) domain ''acme'' issuer certPEM keyPEM (lf_NotBefore leaf) (lf_NotAfter leaf) 21
           in case UpsertCertificate (w_after w domain) (w_tenYears w) row (st_db st) of
                (Inl _, d) \<Rightarrow> (False, st\<lparr>st_db := d\<rparr>)
              | (Inr _, d) \<Rightarrow>
                  (True, \<lparr>st_m = install domain cert (activeInfo domain ''acme'' issuer (lf_NotBefore leaf) (lf_NotAfter leaf)) (st_m st),
                          st_db = d, st_dir = mirrorToDir w cfg domain certPEM keyPEM (st_dir st)\<rparr>)))"

definition attemptIssuance :: "world \<Rightarrow> certCfg \<Rightarrow> string \<Rightarrow> cmState \<Rightarrow> cmState" where
  "attemptIssuance w cfg domain st =
     (if \<not> acmePossible w domain then st
      else if backoffRemaining (w_now w domain) (st_m st) domain \<noteq> None then st
      else let st1 = st\<lparr>st_m := recordAttempt (w_now w domain) domain (st_m st)\<rparr>;
               (result, chals) = issue (w_issuer w) domain;
               st2 = st1\<lparr>st_m := fold setChallenge chals (st_m st1)\<rparr>;
               failed = (\<lambda>s. s\<lparr>st_m := recordFailure (w_after w domain) (w_jitter w domain) domain (st_m s)\<rparr>)
           in case result of
                Inl e \<Rightarrow> (let st3 = failed st2
                          in st3\<lparr>st_db := snd (SetCertificateStatus (cc_ns cfg) domain ''failed'' e (st_db st3))\<rparr>)
              | Inr (certPEM, keyPEM) \<Rightarrow>
                  (let (ok, st3) = storeIssued w cfg domain certPEM keyPEM st2
                   in if ok then st3\<lparr>st_m := recordSuccess domain (st_m st3)\<rparr> else failed st3))"

definition provisionFallback :: "world \<Rightarrow> certCfg \<Rightarrow> string \<Rightarrow> cmState \<Rightarrow> cmState" where
  "provisionFallback w cfg domain st =
     (case fst (generateSelfSigned (w_pki w) (w_os w) (w_now w domain) (w_mint w domain) domain (cc_SelfSignedDir cfg)) of
        None \<Rightarrow> st
      | Some (certPEM, keyPEM, notAfter) \<Rightarrow>
          (case parseCertificate (pk_Parse (w_pki w)) certPEM keyPEM of
             None \<Rightarrow> st
           | Some cert \<Rightarrow>
               (let nb = lf_NotBefore (tc_Leaf cert); subject = selfSignedSubject domain;
                    row = issuedRow (cc_ns cfg) domain ''self_signed'' subject certPEM keyPEM nb notAfter 0
                in st\<lparr>st_db := snd (UpsertCertificate (w_now w domain) (w_tenYears w) row (st_db st)),
                      st_m := install domain cert (activeInfo domain ''self_signed'' subject nb notAfter) (st_m st)\<rparr>)))"

subsection \<open>The reconcile loop\<close>

definition reconcileDomain :: "world \<Rightarrow> certCfg \<Rightarrow> string \<Rightarrow> cmState \<Rightarrow> cmState" where
  "reconcileDomain w cfg domain st =
     (case InfoOf (st_m st) domain of
        None \<Rightarrow> attemptIssuance w cfg domain (provisionFallback w cfg domain st)
      | Some info \<Rightarrow>
          if ci_Source info = ''file'' then st
          else if ci_Source info = ''acme'' then
            (if needsRenewal (w_now w domain) info then attemptIssuance w cfg domain st else st)
          else if ci_Source info = ''self_signed'' then
            (if needsRenewal (w_now w domain) info then
               (if acmePossible w domain then attemptIssuance w cfg domain st else provisionFallback w cfg domain st)
             else st)
          else st)"

definition ensureAccount :: "world \<Rightarrow> CertManager \<Rightarrow> CertManager" where
  "ensureAccount w m =
     (if is_enabled (w_issuer w) \<and> \<not> cm_accountOK m then
        (if registerAccount (w_issuer w) = None then m\<lparr>cm_accountOK := True\<rparr> else m)
      else m)"

definition reconcile :: "world \<Rightarrow> certCfg \<Rightarrow> string list \<Rightarrow> cmState \<Rightarrow> cmState" where
  "reconcile w cfg domains st =
     (let st1 = snd (reload w cfg st); st2 = st1\<lparr>st_m := ensureAccount w (st_m st1)\<rparr>
      in fold (reconcileDomain w cfg) (sort domains) st2)"

subsection \<open>Management\<close>

definition DomainsNeedingCerts :: "CertManager \<Rightarrow> string list \<Rightarrow> string list" where
  "DomainsNeedingCerts m domains = filter (\<lambda>d. InfoOf m d = None) domains"

definition StoreManual :: "world \<Rightarrow> certCfg \<Rightarrow> string \<Rightarrow> string \<Rightarrow> string \<Rightarrow> cmState \<Rightarrow> (goerr + CertInfo) \<times> cmState" where
  "StoreManual w cfg domain0 certPEM keyPEM st =
     (case parseCertificate (pk_Parse (w_pki w)) certPEM keyPEM of
        None \<Rightarrow> (Inl (ErrMsg ''key pair does not match''), st)
      | Some cert \<Rightarrow>
          (let leaf = tc_Leaf cert; domain = NormalizeDomain domain0
           in if \<not> pk_Verify (w_pki w) leaf domain then (Inl (ErrMsg (''certificate does not cover '' @ domain)), st)
              else let issuer = issuerOf leaf '''';
                       row = issuedRow (cc_ns cfg) domain ''manual'' issuer certPEM keyPEM (lf_NotBefore leaf) (lf_NotAfter leaf) 0;
                       info = activeInfo domain ''manual'' issuer (lf_NotBefore leaf) (lf_NotAfter leaf)
                   in case UpsertCertificate (w_now w domain) (w_tenYears w) row (st_db st) of
                        (Inl e, d) \<Rightarrow> (Inl e, st\<lparr>st_db := d\<rparr>)
                      | (Inr _, d) \<Rightarrow> (Inr info, st\<lparr>st_db := d, st_m := install domain cert info (st_m st)\<rparr>)))"

definition ForgetCert :: "string \<Rightarrow> CertManager \<Rightarrow> CertManager" where
  "ForgetCert domain0 m =
     (let domain = NormalizeDomain domain0;
          m1 = clearOnDemand domain (m\<lparr>cm_certs := (cm_certs m)(domain := None), cm_info := (cm_info m)(domain := None)\<rparr>)
      in m1\<lparr>cm_failures := AList.delete domain (cm_failures m1)\<rparr>)"

record ACMEStatus =
  as_Enabled :: bool
  as_Directory :: string
  as_Email :: string
  as_DataDir :: string
  as_ChallengeOK :: bool
  as_Pending :: nat
  as_BackingOff :: nat

definition StatusOf :: "acmeIssuer \<Rightarrow> int \<Rightarrow> CertManager \<Rightarrow> ACMEStatus" where
  "StatusOf iss now m =
     \<lparr>as_Enabled = is_enabled iss, as_Directory = is_directory iss, as_Email = is_email iss, as_DataDir = is_dataDir iss,
      as_ChallengeOK = True, as_Pending = length (cm_challenges m),
      as_BackingOff = length (filter (\<lambda>(d, r). now < fr_next r) (cm_failures m))\<rparr>"

definition NewCertManager :: "world \<Rightarrow> certCfg \<Rightarrow> db \<Rightarrow> fsys \<Rightarrow> goerr + cmState" where
  "NewCertManager w cfg d dir =
     (let def = (case w_mint w ''goacos-gateway.invalid'' of
                   None \<Rightarrow> None | Some (certPEM, keyPEM, _) \<Rightarrow> pk_KeyPair (w_pki w) certPEM keyPEM);
          m = \<lparr>cm_certs = Map.empty, cm_info = Map.empty, cm_default = def, cm_challenges = [], cm_failures = [],
               cm_accountOK = False, cm_onDemand = []\<rparr>
      in case reload w cfg \<lparr>st_m = m, st_db = d, st_dir = dir\<rparr> of
           (Some e, _) \<Rightarrow> Inl e
         | (None, st) \<Rightarrow> Inr st)"

subsection \<open>Back-off\<close>

lemma backoff_consts: "0 < acmeBackoffBase" "acmeBackoffBase \<le> maxIssuanceBackoff"
  by (simp_all add: acmeBackoffBase_def maxIssuanceBackoff_def)

lemma backoffLoop_min:
  "0 < d \<Longrightarrow> min maxIssuanceBackoff (backoffLoop k d) = min maxIssuanceBackoff (d * 2 ^ k)"
proof (induction k arbitrary: d)
  case (Suc k)
  show ?case
  proof (cases "d < maxIssuanceBackoff")
    case True
    then show ?thesis using Suc.IH [of "d * 2"] Suc.prems by (simp add: mult.assoc)
  next
    case False
    have "d * 1 \<le> d * 2 ^ Suc k" using Suc.prems by (intro mult_left_mono one_le_power) simp_all
    then show ?thesis using False by (simp add: min_absorb1)
  qed
qed simp

lemma backoffFor_min: "backoffFor n = min maxIssuanceBackoff (acmeBackoffBase * 2 ^ (n - 1))"
  using backoffLoop_min [OF backoff_consts(1), of "n - 1"] by (simp add: backoffFor_def Let_def min_def split: if_splits)

lemma backoffFor_pos: "0 < backoffFor n"
  using backoff_consts by (simp add: backoffFor_min)

lemma backoffFor_mono: "n \<le> n' \<Longrightarrow> backoffFor n \<le> backoffFor n'"
  unfolding backoffFor_min
  by (intro min.mono mult_left_mono power_increasing diff_le_mono) (use backoff_consts in simp_all)

lemma failure_of_recordAttempt: "fr_count (failureOf (recordAttempt now d m) d) = fr_count (failureOf m d)"
  by (simp add: recordAttempt_def failureOf_def Let_def update_conv' split: option.split)

lemma failure_of_setChallenge: "failureOf (fold setChallenge cs m) d = failureOf m d"
  by (induction cs arbitrary: m) (auto simp: failureOf_def setChallenge_def)

lemma failure_after_recordFailure:
  "map_of (cm_failures (recordFailure now j d m)) d =
     Some \<lparr>fr_count = Suc (fr_count (failureOf m d)),
           fr_next = now + (backoffFor (Suc (fr_count (failureOf m d))) + j mod (int (Suc (fr_count (failureOf m d))) * 10 ^ 9))\<rparr>"
  by (simp add: recordFailure_def Let_def update_conv')

definition asksCA :: "world \<Rightarrow> string \<Rightarrow> cmState \<Rightarrow> bool" where
  "asksCA w d st \<longleftrightarrow> acmePossible w d \<and> backoffRemaining (w_now w d) (st_m st) d = None"

lemma attempt_quiet: "\<not> asksCA w d st \<Longrightarrow> attemptIssuance w cfg d st = st"
  by (auto simp: attemptIssuance_def asksCA_def)

lemma attempt_failed:
  assumes "asksCA w d st" "fst (issue (w_issuer w) d) = Inl e"
  shows "st_m (attemptIssuance w cfg d st) =
    recordFailure (w_after w d) (w_jitter w d) d
      (fold setChallenge (snd (issue (w_issuer w) d)) (recordAttempt (w_now w d) d (st_m st)))"
  using assms by (simp add: attemptIssuance_def asksCA_def Let_def case_prod_beta)

lemma jitter_range: "0 \<le> j mod (int (Suc n) * 10 ^ 9)"
  by (intro pos_mod_sign) simp


subsection \<open>Handshakes\<close>

lemma covers_at:
  assumes "labels = splitOn CHR ''.'' name" "1 \<le> i" "i < length labels"
  shows "coversWildcard (''*.'' @ joinWith ''.'' (drop i labels)) name \<longleftrightarrow> i = 1 \<and> hd labels \<noteq> ''''"
proof -
  have ne: "take i labels \<noteq> []" "drop i labels \<noteq> []" using assms(2,3) by auto
  have nm: "name = joinWith ''.'' (take i labels) @ ''.'' @ joinWith ''.'' (drop i labels)"
    using joinWith_append [OF ne, of "''.''"] join_split [of "CHR ''.''" name] assms(1) by simp
  have "coversWildcard (''*.'' @ joinWith ''.'' (drop i labels)) name \<longleftrightarrow>
      joinWith ''.'' (take i labels) \<noteq> '''' \<and> CHR ''.'' \<notin> set (joinWith ''.'' (take i labels))"
    unfolding coversWildcard_iff by (subst nm) auto
  also have "\<dots> \<longleftrightarrow> i = 1 \<and> hd labels \<noteq> ''''"
  proof (cases "i = 1")
    case True
    then have "take i labels = [hd labels]" using assms(3) by (cases labels) auto
    moreover have "CHR ''.'' \<notin> set (hd labels)" using splitOn_no_slash [of "hd labels" "CHR ''.''" name] assms(1) by simp
    ultimately show ?thesis using True by simp
  next
    case False
    then obtain a b r where "take i labels = a # b # r" using assms(2,3) by (cases labels; cases "tl labels"; cases i; cases "i - 1") auto
    then show ?thesis using False by simp
  qed
  finally show ?thesis .
qed

lemma lookupWildcard_dotless: "CHR ''.'' \<notin> set name \<Longrightarrow> lookupWildcard m name = None"
  by (simp add: lookupWildcard_def splitOn_no_sep)

lemma find_first_only:
  assumes "\<And>i. i \<in> set [1..<n] \<Longrightarrow> P i \<longleftrightarrow> i = 1 \<and> Q"
  shows "find P [1..<n] = (if 1 < n \<and> Q then Some 1 else None)"
proof (cases "1 < n \<and> Q")
  case True
  then have "[1..<n] = 1 # [2..<n]" using upt_conv_Cons [of 1 n] by (simp add: numeral_2_eq_2)
  then show ?thesis using True assms [of 1] by auto
next
  case False
  then show ?thesis using assms by (auto simp: find_None_iff)
qed

text \<open>The walk up the labels is one lookup: only the pattern one label up can cover the name.\<close>

lemma lookupWildcard_one_label:
  assumes "CHR ''.'' \<notin> set l"
  shows "lookupWildcard m (l @ CHR ''.'' # s) = (if l \<noteq> '''' \<and> CHR ''.'' \<in> set s then cm_certs m (''*.'' @ s) else None)"
proof -
  let ?n = "l @ CHR ''.'' # s" and ?labels = "l # splitOn CHR ''.'' s"
  have sp: "splitOn CHR ''.'' ?n = ?labels" using splitOn_append [OF assms] .
  have two: "2 \<le> length (splitOn CHR ''.'' s) \<longleftrightarrow> CHR ''.'' \<in> set s"
  proof (cases "CHR ''.'' \<in> set s")
    case True
    then obtain a b where "s = a @ CHR ''.'' # b" by (auto dest: split_list)
    then have "splitOn CHR ''.'' s = splitOn CHR ''.'' a @ splitOn CHR ''.'' b" by (simp add: splitOn_append_sep)
    moreover have "splitOn CHR ''.'' a \<noteq> []" "splitOn CHR ''.'' b \<noteq> []" by simp_all
    ultimately show ?thesis using True by (cases "splitOn CHR ''.'' a"; cases "splitOn CHR ''.'' b") auto
  qed (simp add: splitOn_no_sep)
  let ?P = "\<lambda>i. cm_certs m (''*.'' @ joinWith ''.'' (drop i ?labels)) \<noteq> None \<and>
     coversWildcard (''*.'' @ joinWith ''.'' (drop i ?labels)) ?n"
  have "find ?P [1..<length ?labels - 1] =
     (if 1 < length ?labels - 1 \<and> l \<noteq> '''' \<and> cm_certs m (''*.'' @ s) \<noteq> None then Some 1 else None)"
  proof (rule find_first_only)
    fix i assume "i \<in> set [1..<length ?labels - 1]"
    then have "coversWildcard (''*.'' @ joinWith ''.'' (drop i ?labels)) ?n \<longleftrightarrow> i = 1 \<and> l \<noteq> ''''"
      using covers_at [OF sp [symmetric], of i] by simp
    then show "?P i \<longleftrightarrow> i = 1 \<and> l \<noteq> '''' \<and> cm_certs m (''*.'' @ s) \<noteq> None" using join_split [of "CHR ''.''" s] by auto
  qed
  then show ?thesis using two join_split [of "CHR ''.''" s] by (auto simp: lookupWildcard_def sp Let_def)
qed

subsection \<open>The manager's invariant\<close>

definition cmInv :: "TLSCert option \<Rightarrow> CertManager \<Rightarrow> bool" where
  "cmInv dc m \<longleftrightarrow> cm_default m = dc \<and> dom (cm_info m) = dom (cm_certs m) \<and> distinct (map fst (cm_onDemand m)) \<and>
     length (cm_onDemand m) \<le> maxOnDemandSelfSigned \<and> distinct (map fst (cm_failures m)) \<and> distinct (map fst (cm_challenges m))"

lemma length_update_new: "k \<notin> fst ` set al \<Longrightarrow> length (AList.update k v al) = Suc (length al)"
  by (induction al) auto

lemma onDemandCert_inv: "cmInv dc m \<Longrightarrow> cmInv dc (snd (onDemandCert w n m))"
  by (auto simp: onDemandCert_def cmInv_def length_update_new map_of_eq_None_iff distinct_update
      split: option.split prod.split)

lemma onDemandCert_keeps:
  "cm_certs (snd (onDemandCert w n m)) = cm_certs m" "cm_info (snd (onDemandCert w n m)) = cm_info m"
  "cm_default (snd (onDemandCert w n m)) = cm_default m"
  by (auto simp: onDemandCert_def split: option.split prod.split)

lemma handshake_inv: "cmInv dc m \<Longrightarrow> cmInv dc (snd (GetCertificateTLS w sni m))"
  using onDemandCert_inv [of dc m w "NormalizeDomain sni"]
  by (auto simp: GetCertificateTLS_def Let_def case_prod_beta split: option.split)

lemma clearOnDemand_inv: "cmInv dc m \<Longrightarrow> cmInv dc (clearOnDemand d m)"
  using length_delete_le [of d "cm_onDemand m"] by (auto simp: cmInv_def clearOnDemand_def distinct_delete)

lemma install_inv: "cmInv dc m \<Longrightarrow> cmInv dc (install d c i m)"
  unfolding install_def by (rule clearOnDemand_inv) (simp add: cmInv_def)

lemma setChallenge_inv: "cmInv dc m \<Longrightarrow> cmInv dc (setChallenge tv m)"
  by (simp add: cmInv_def setChallenge_def distinct_update distinct_delete)

lemma setChallenges_inv: "cmInv dc m \<Longrightarrow> cmInv dc (fold setChallenge tvs m)"
  by (induction tvs arbitrary: m) (simp_all add: setChallenge_inv)

lemma record_inv:
  "cmInv dc m \<Longrightarrow> cmInv dc (recordAttempt t d m)" "cmInv dc m \<Longrightarrow> cmInv dc (recordFailure t j d m)" "cmInv dc m \<Longrightarrow> cmInv dc (recordSuccess d m)"
  by (simp_all add: cmInv_def recordAttempt_def recordFailure_def recordSuccess_def Let_def distinct_update distinct_delete)

lemma forget_inv: "cmInv dc m \<Longrightarrow> cmInv dc (ForgetCert d m)"
proof -
  assume a: "cmInv dc m"
  let ?m = "clearOnDemand (NormalizeDomain d)
    (m\<lparr>cm_certs := (cm_certs m)(NormalizeDomain d := None), cm_info := (cm_info m)(NormalizeDomain d := None)\<rparr>)"
  have "cmInv dc ?m" using a by (intro clearOnDemand_inv) (simp add: cmInv_def)
  then show ?thesis by (simp add: ForgetCert_def Let_def cmInv_def distinct_delete)
qed

lemma loadRows_dom: "dom (fst c) = dom (snd c) \<Longrightarrow> dom (fst (loadRows x rows c)) = dom (snd (loadRows x rows c))"
  by (induction x rows c rule: loadRows.induct) (simp_all add: Let_def split: option.split)

lemma mergeFile_dom: "dom (fst c) = dom (snd c) \<Longrightarrow> dom (fst (mergeFile df c)) = dom (snd (mergeFile df c))"
  by (cases df; cases c) (simp add: mergeFile_def Let_def split: option.split)

lemma merge_dom:
  assumes "dom db = dom dbCerts"
  shows "dom (fst (mergeCerts db dbCerts files)) = dom (snd (mergeCerts db dbCerts files))"
proof -
  have f: "dom (fst c) = dom (snd c) \<Longrightarrow> dom (fst (fold mergeFile files c)) = dom (snd (fold mergeFile files c))" for c
    by (induction files arbitrary: c) (simp_all add: mergeFile_dom)
  have "(case db d of Some _ \<Rightarrow> dbCerts d | None \<Rightarrow> None) = dbCerts d" for d
    using assms domIff [of d db] domIff [of d dbCerts] by (cases "db d") auto
  then have "(\<lambda>d. case db d of Some _ \<Rightarrow> dbCerts d | None \<Rightarrow> None) = dbCerts" by blast
  then show ?thesis using f [of "(db, dbCerts)"] assms by (simp add: mergeCerts_def)
qed

lemma reload_inv: "cmInv dc (st_m st) \<Longrightarrow> cmInv dc (st_m (snd (reload w cfg st)))"
  using merge_dom [OF loadRows_dom [of "(Map.empty, Map.empty)" "pk_Parse (w_pki w)"]]
  by (simp add: reload_def case_prod_beta cmInv_def split: sum.split)

lemma storeIssued_inv: "cmInv dc (st_m st) \<Longrightarrow> cmInv dc (st_m (snd (storeIssued w cfg d c k st)))"
  by (auto simp: storeIssued_def Let_def install_inv split: option.split prod.split sum.split)

lemma provision_inv: "cmInv dc (st_m st) \<Longrightarrow> cmInv dc (st_m (provisionFallback w cfg d st))"
  by (auto simp: provisionFallback_def Let_def install_inv split: option.split prod.split)

lemma attempt_inv: "cmInv dc (st_m st) \<Longrightarrow> cmInv dc (st_m (attemptIssuance w cfg d st))"
proof -
  assume a: "cmInv dc (st_m st)"
  let ?m = "fold setChallenge (snd (issue (w_issuer w) d)) (recordAttempt (w_now w d) d (st_m st))"
  have b: "cmInv dc ?m" using a by (intro setChallenges_inv record_inv)
  then show ?thesis using a storeIssued_inv [of dc "st\<lparr>st_m := ?m\<rparr>" w cfg d]
    by (simp add: attemptIssuance_def Let_def case_prod_beta record_inv split: sum.split)
qed

lemma ensureAccount_inv: "cmInv dc m \<Longrightarrow> cmInv dc (ensureAccount w m)"
  by (simp add: ensureAccount_def cmInv_def)

lemma reconcileDomain_inv: "cmInv dc (st_m st) \<Longrightarrow> cmInv dc (st_m (reconcileDomain w cfg d st))"
  by (simp add: reconcileDomain_def attempt_inv provision_inv split: option.split)

lemma reconcile_fold_inv: "cmInv dc (st_m st) \<Longrightarrow> cmInv dc (st_m (fold (reconcileDomain w cfg) ds st))"
  by (induction ds arbitrary: st) (simp_all add: reconcileDomain_inv)

lemma reconcile_inv: "cmInv dc (st_m st) \<Longrightarrow> cmInv dc (st_m (reconcile w cfg ds st))"
  by (simp add: reconcile_def Let_def reconcile_fold_inv ensureAccount_inv reload_inv)

lemma StoreManual_inv: "cmInv dc (st_m st) \<Longrightarrow> cmInv dc (st_m (snd (StoreManual w cfg d c k st)))"
  by (auto simp: StoreManual_def Let_def install_inv split: option.split prod.split sum.split)

inductive cmStep :: "certCfg \<Rightarrow> cmState \<Rightarrow> cmState \<Rightarrow> bool" for cfg where
  Handshake: "cmStep cfg st (st\<lparr>st_m := snd (GetCertificateTLS w sni (st_m st))\<rparr>)"
| Challenge: "cmStep cfg st (st\<lparr>st_m := setChallenge tv (st_m st)\<rparr>)"
| Reload: "cmStep cfg st (snd (reload w cfg st))"
| ScanDir: "cmStep cfg st (scanDirectory w cfg ok st)"
| Reconcile: "cmStep cfg st (reconcile w cfg domains st)"
| Manual: "cmStep cfg st (snd (StoreManual w cfg d c k st))"
| Forget: "cmStep cfg st (st\<lparr>st_m := ForgetCert d (st_m st)\<rparr>)"

lemma cmStep_inv: "cmStep cfg st st' \<Longrightarrow> cmInv dc (st_m st) \<Longrightarrow> cmInv dc (st_m st')"
  by (induction rule: cmStep.induct)
    (simp_all add: handshake_inv setChallenge_inv reload_inv scanDirectory_def reconcile_inv StoreManual_inv forget_inv)

lemma cmReach_inv: "(cmStep cfg)\<^sup>*\<^sup>* st st' \<Longrightarrow> cmInv dc (st_m st) \<Longrightarrow> cmInv dc (st_m st')"
  by (induction rule: rtranclp_induct) (auto dest: cmStep_inv)

lemma NewCertManager_inv:
  assumes "NewCertManager w cfg d dir = Inr st"
  shows "cmInv (cm_default (st_m st)) (st_m st)"
proof -
  define df where "df = (case w_mint w ''goacos-gateway.invalid'' of
    None \<Rightarrow> None | Some (certPEM, keyPEM, _) \<Rightarrow> pk_KeyPair (w_pki w) certPEM keyPEM)"
  define m where "m = \<lparr>cm_certs = Map.empty, cm_info = Map.empty, cm_default = df, cm_challenges = [], cm_failures = [],
               cm_accountOK = False, cm_onDemand = []\<rparr>"
  have "cmInv df m" by (simp add: cmInv_def m_def)
  moreover have "st = snd (reload w cfg \<lparr>st_m = m, st_db = d, st_dir = dir\<rparr>)"
    using assms by (auto simp: NewCertManager_def m_def df_def Let_def split: prod.splits option.splits)
  ultimately have "cmInv df (st_m st)" by (simp add: reload_inv)
  then show ?thesis by (simp add: cmInv_def)
qed


subsection \<open>Reconciling\<close>

lemma clearOnDemand_sel [simp]: "cm_info (clearOnDemand d m) = cm_info m" "cm_certs (clearOnDemand d m) = cm_certs m"
  by (simp_all add: clearOnDemand_def)

lemma install_sel [simp]:
  "cm_info (install d c i m) = (cm_info m)(NormalizeDomain d \<mapsto> i)" "cm_certs (install d c i m) = (cm_certs m)(NormalizeDomain d \<mapsto> c)"
  by (simp_all add: install_def)

lemma setChallenges_sel [simp]:
  "cm_info (fold setChallenge tvs m) = cm_info m" "cm_certs (fold setChallenge tvs m) = cm_certs m"
  by (induction tvs arbitrary: m) (simp_all add: setChallenge_def)

lemma record_sel [simp]:
  "cm_info (recordAttempt t d m) = cm_info m" "cm_certs (recordAttempt t d m) = cm_certs m"
  "cm_info (recordFailure t j d m) = cm_info m" "cm_certs (recordFailure t j d m) = cm_certs m"
  "cm_info (recordSuccess d m) = cm_info m" "cm_certs (recordSuccess d m) = cm_certs m"
  by (simp_all add: recordAttempt_def recordFailure_def recordSuccess_def Let_def)

lemma ensureAccount_sel [simp]: "cm_info (ensureAccount w m) = cm_info m" "cm_certs (ensureAccount w m) = cm_certs m"
  by (simp_all add: ensureAccount_def)

text \<open>What a turn for domain \<open>d\<close> may do to the cache and to the certificate table: change that domain's entry, never drop one.\<close>

definition touchesOnly :: "certCfg \<Rightarrow> string \<Rightarrow> cmState \<Rightarrow> cmState \<Rightarrow> bool" where
  "touchesOnly cfg d st st' \<longleftrightarrow>
     dom (cm_info (st_m st)) \<subseteq> dom (cm_info (st_m st')) \<and>
     (\<forall>n. n \<noteq> NormalizeDomain d \<longrightarrow> cm_info (st_m st') n = cm_info (st_m st) n \<and> cm_certs (st_m st') n = cm_certs (st_m st) n) \<and>
     (certStoreOK (st_db st) \<longrightarrow> certStoreOK (st_db st') \<and> (\<forall>k. k \<noteq> (cc_ns cfg, d) \<longrightarrow> certLook (st_db st') k = certLook (st_db st) k))"

lemma touchesOnly_refl: "touchesOnly cfg d st st"
  by (simp add: touchesOnly_def)

lemma touchesOnly_trans: "touchesOnly cfg d a b \<Longrightarrow> touchesOnly cfg d b c \<Longrightarrow> touchesOnly cfg d a c"
  by (auto simp: touchesOnly_def)

lemma upsert_touches:
  assumes "certStoreOK db" "certKey row = (ns, d)"
  shows "certStoreOK (snd (UpsertCertificate now ty row db)) \<and>
    (\<forall>k. k \<noteq> (ns, d) \<longrightarrow> certLook (snd (UpsertCertificate now ty row db)) k = certLook db k)"
  using UpsertCertificate_step [OF assms(1), of now ty row] assms(2) by auto

lemma status_touches:
  assumes "certStoreOK db"
  shows "certStoreOK (snd (SetCertificateStatus ns d s e db)) \<and>
    (\<forall>k. k \<noteq> (ns, d) \<longrightarrow> certLook (snd (SetCertificateStatus ns d s e db)) k = certLook db k)"
  using runCert_step [OF assms, of "SetStatus ns d s e"] by auto

lemma issuedRow_key [simp]: "certKey (issuedRow ns d src iss c k nb na r) = (ns, d)"
  by (simp add: issuedRow_def certKey_def)

lemma provision_touches: "touchesOnly cfg d st (provisionFallback w cfg d st)"
  using upsert_touches [of "st_db st"] install_sel
  by (auto simp: provisionFallback_def touchesOnly_def Let_def split: option.split prod.split)

lemma storeIssued_touches: "touchesOnly cfg d st (snd (storeIssued w cfg d c k st))"
proof (cases "parseCertificate (pk_Parse (w_pki w)) c k")
  case None
  then show ?thesis by (simp add: storeIssued_def touchesOnly_refl)
next
  case (Some cert)
  let ?row = "issuedRow (cc_ns cfg) d ''acme'' (issuerOf (tc_Leaf cert) '''') c k (lf_NotBefore (tc_Leaf cert)) (lf_NotAfter (tc_Leaf cert)) 21"
  obtain r db' where u: "UpsertCertificate (w_after w d) (w_tenYears w) ?row (st_db st) = (r, db')" by force
  then show ?thesis using Some upsert_touches [of "st_db st" ?row "cc_ns cfg" d "w_after w d" "w_tenYears w"]
    by (auto simp: storeIssued_def Let_def touchesOnly_def split: sum.split)
qed

lemma attempt_touches: "touchesOnly cfg d st (attemptIssuance w cfg d st)"
proof (cases "asksCA w d st")
  case True
  let ?m = "fold setChallenge (snd (issue (w_issuer w) d)) (recordAttempt (w_now w d) d (st_m st))"
  let ?st2 = "st\<lparr>st_m := ?m\<rparr>"
  show ?thesis
  proof (cases "fst (issue (w_issuer w) d)")
    case (Inl e)
    then show ?thesis using True status_touches [of "st_db st" "cc_ns cfg" d "''failed''" e]
      by (auto simp: attemptIssuance_def asksCA_def Let_def case_prod_beta touchesOnly_def)
  next
    case (Inr ck)
    have t: "touchesOnly cfg d ?st2 (snd (storeIssued w cfg d (fst ck) (snd ck) ?st2))" by (rule storeIssued_touches)
    then have t2: "touchesOnly cfg d st (snd (storeIssued w cfg d (fst ck) (snd ck) ?st2))" by (simp add: touchesOnly_def)
    then show ?thesis using True Inr
      by (simp add: attemptIssuance_def asksCA_def Let_def case_prod_beta) (simp add: touchesOnly_def)
  qed
qed (simp add: attempt_quiet touchesOnly_refl)

lemma reconcileDomain_touches: "touchesOnly cfg d st (reconcileDomain w cfg d st)"
  using attempt_touches provision_touches touchesOnly_trans [OF provision_touches attempt_touches]
  by (simp add: reconcileDomain_def touchesOnly_refl split: option.split)

lemma reconcileDomain_other_source:
  "InfoOf (st_m st) d = Some i \<Longrightarrow> ci_Source i \<notin> {''acme'', ''self_signed''} \<Longrightarrow> reconcileDomain w cfg d st = st"
  by (simp add: reconcileDomain_def)

lemma reconcile_loop_keeps:
  assumes "cm_info (st_m st) nd = Some i" "ci_Source i \<notin> {''acme'', ''self_signed''}"
  shows "cm_info (st_m (fold (reconcileDomain w cfg) ds st)) nd = Some i \<and>
    cm_certs (st_m (fold (reconcileDomain w cfg) ds st)) nd = cm_certs (st_m st) nd \<and>
    (certStoreOK (st_db st) \<longrightarrow> (\<forall>ns r. NormalizeDomain r = nd \<longrightarrow>
       certLook (st_db (fold (reconcileDomain w cfg) ds st)) (ns, r) = certLook (st_db st) (ns, r)))"
  using assms(1)
proof (induction ds arbitrary: st)
  case (Cons d ds)
  let ?st' = "reconcileDomain w cfg d st"
  have "cm_info (st_m ?st') nd = Some i \<and> cm_certs (st_m ?st') nd = cm_certs (st_m st) nd \<and>
    (certStoreOK (st_db st) \<longrightarrow> certStoreOK (st_db ?st') \<and>
      (\<forall>ns r. NormalizeDomain r = nd \<longrightarrow> certLook (st_db ?st') (ns, r) = certLook (st_db st) (ns, r)))"
  proof (cases "NormalizeDomain d = nd")
    case True
    then show ?thesis using reconcileDomain_other_source [of st d i w cfg] Cons.prems assms(2) by (simp add: InfoOf_def)
  next
    case False
    then show ?thesis using reconcileDomain_touches [of cfg d st w] Cons.prems by (auto simp: touchesOnly_def)
  qed
  then show ?case using Cons.IH [of ?st'] by auto
qed simp

lemma reload_db:
  "certStoreOK (st_db st) \<Longrightarrow> st_db (snd (reload w cfg st)) = st_db st"
  by (simp add: reload_def ListCertificates_def query_def stmt_def certStoreOK_def quiet_def case_prod_beta split: sum.split)

text \<open>A certificate an operator uploaded, or one another tool keeps in the shared directory, is never replaced by the
  automatic path: a whole reconcile pass leaves its cache entry as the reload read it, and its row in the
  database alone, whatever the other domains need.\<close>

theorem foreign_certificates_untouched:
  assumes "cm_info (st_m (snd (reload w cfg st))) nd = Some i" "ci_Source i = ''manual'' \<or> ci_Source i = ''file''"
  shows "cm_info (st_m (reconcile w cfg domains st)) nd = Some i \<and>
    cm_certs (st_m (reconcile w cfg domains st)) nd = cm_certs (st_m (snd (reload w cfg st))) nd \<and>
    (certStoreOK (st_db st) \<longrightarrow> (\<forall>ns r. NormalizeDomain r = nd \<longrightarrow>
       certLook (st_db (reconcile w cfg domains st)) (ns, r) = certLook (st_db st) (ns, r)))"
proof -
  let ?st1 = "snd (reload w cfg st)"
  let ?st2 = "?st1\<lparr>st_m := ensureAccount w (st_m ?st1)\<rparr>"
  have "cm_info (st_m ?st2) nd = Some i" "ci_Source i \<notin> {''acme'', ''self_signed''}" using assms by auto
  from reconcile_loop_keeps [OF this, of w cfg "sort domains"] show ?thesis
    by (auto simp: reconcile_def Let_def reload_db)
qed

lemma provision_serves:
  assumes "fst (generateSelfSigned (w_pki w) (w_os w) (w_now w d) (w_mint w d) d (cc_SelfSignedDir cfg)) = Some (c, k, na)"
    and "parseCertificate (pk_Parse (w_pki w)) c k = Some cert"
  shows "InfoOf (st_m (provisionFallback w cfg d st)) d = Some (activeInfo d ''self_signed'' (selfSignedSubject d) (lf_NotBefore (tc_Leaf cert)) na)"
  using assms by (simp add: provisionFallback_def Let_def InfoOf_def)

definition canProvision :: "world \<Rightarrow> certCfg \<Rightarrow> string \<Rightarrow> bool" where
  "canProvision w cfg d \<longleftrightarrow>
     (case fst (generateSelfSigned (w_pki w) (w_os w) (w_now w d) (w_mint w d) d (cc_SelfSignedDir cfg)) of
        None \<Rightarrow> False
      | Some (c, k, _) \<Rightarrow> parseCertificate (pk_Parse (w_pki w)) c k \<noteq> None)"

lemma reconcileDomain_serves:
  assumes "canProvision w cfg d"
  shows "InfoOf (st_m (reconcileDomain w cfg d st)) d \<noteq> None"
proof (cases "InfoOf (st_m st) d")
  case None
  then obtain c k na cert where g: "fst (generateSelfSigned (w_pki w) (w_os w) (w_now w d) (w_mint w d) d (cc_SelfSignedDir cfg)) = Some (c, k, na)"
    "parseCertificate (pk_Parse (w_pki w)) c k = Some cert"
    using assms by (auto simp: canProvision_def split: option.splits)
  let ?p = "provisionFallback w cfg d st"
  have "InfoOf (st_m ?p) d \<noteq> None" using provision_serves [of w d cfg c k na cert st] g by simp
  then have "NormalizeDomain d \<in> dom (cm_info (st_m ?p))" by (auto simp: InfoOf_def)
  then have "NormalizeDomain d \<in> dom (cm_info (st_m (attemptIssuance w cfg d ?p)))"
    using attempt_touches [of cfg d ?p w] unfolding touchesOnly_def by blast
  then show ?thesis using None by (auto simp: reconcileDomain_def InfoOf_def)
next
  case (Some i)
  then have "NormalizeDomain d \<in> dom (cm_info (st_m (reconcileDomain w cfg d st)))"
    using reconcileDomain_touches [of cfg d st w] unfolding touchesOnly_def InfoOf_def by blast
  then show ?thesis by (auto simp: InfoOf_def)
qed

lemma reconcile_loop_serves:
  "\<forall>d\<in>set ds. canProvision w cfg d \<Longrightarrow>
   dom (cm_info (st_m st)) \<subseteq> dom (cm_info (st_m (fold (reconcileDomain w cfg) ds st))) \<and>
   (\<forall>d\<in>set ds. InfoOf (st_m (fold (reconcileDomain w cfg) ds st)) d \<noteq> None)"
proof (induction ds arbitrary: st)
  case (Cons d ds)
  let ?st' = "reconcileDomain w cfg d st"
  have "dom (cm_info (st_m st)) \<subseteq> dom (cm_info (st_m ?st'))" using reconcileDomain_touches [of cfg d st w] by (simp add: touchesOnly_def)
  moreover have "NormalizeDomain d \<in> dom (cm_info (st_m ?st'))" using reconcileDomain_serves [of w cfg d st] Cons.prems by (auto simp: InfoOf_def)
  moreover note Cons.IH [of ?st']
  ultimately show ?case using Cons.prems by (auto simp: InfoOf_def)
qed simp

text \<open>C26. After one reconcile pass every declared domain has a certificate to hand out, also when the database is down
  (reload and store fail) and when the certificate authority refuses: self-signed material is enough.\<close>

theorem reconcile_serves_every_domain:
  assumes "NewCertManager w0 cfg d dir = Inr st0" "(cmStep cfg)\<^sup>*\<^sup>* st0 st"
    and "\<forall>dm\<in>set domains. canProvision w cfg dm"
  shows "DomainsNeedingCerts (st_m (reconcile w cfg domains st)) domains = [] \<and>
    (\<forall>dm\<in>set domains. NormalizeDomain dm \<noteq> '''' \<longrightarrow>
       fst (GetCertificateTLS w dm (st_m (reconcile w cfg domains st))) = cm_certs (st_m (reconcile w cfg domains st)) (NormalizeDomain dm) \<and>
       cm_certs (st_m (reconcile w cfg domains st)) (NormalizeDomain dm) \<noteq> None)"
proof -
  let ?m = "st_m (reconcile w cfg domains st)"
  have i: "cmInv (cm_default (st_m st0)) ?m" using cmReach_inv [OF assms(2)] NewCertManager_inv [OF assms(1)] by (simp add: reconcile_inv)
  have "\<forall>dm\<in>set (sort domains). canProvision w cfg dm" using assms(3) by simp
  from reconcile_loop_serves [OF this] have s: "InfoOf ?m dm \<noteq> None" if "dm \<in> set domains" for dm
    using that by (auto simp: reconcile_def Let_def)
  have c: "cm_certs ?m (NormalizeDomain dm) \<noteq> None" if "dm \<in> set domains" for dm
    using s [OF that] i by (auto simp: cmInv_def InfoOf_def)
  have "fst (GetCertificateTLS w dm ?m) = cm_certs ?m (NormalizeDomain dm)" if "dm \<in> set domains" "NormalizeDomain dm \<noteq> ''''" for dm
    using c [OF that(1)] that(2) by (auto simp: GetCertificateTLS_def Let_def)
  then show ?thesis using s c by (auto simp: DomainsNeedingCerts_def filter_empty_conv)
qed

text \<open>After a failed first issuance the fallback is all the domain gets until 30 days before the fallback expires:
  the reconcile turns in between do not ask the authority again, whatever the back-off says.\<close>

lemma fallback_not_retried:
  assumes "InfoOf (st_m st) d = Some (activeInfo d ''self_signed'' subj nb na)"
    and "w_now w d + selfSignedRenewBefore \<le> na"
  shows "reconcileDomain w cfg d st = st"
proof -
  have "\<not> needsRenewal (w_now w d) (activeInfo d ''self_signed'' subj nb na)"
    using assms(2) by (simp add: needsRenewal_def Expired_def activeInfo_def selfSignedRenewBefore_def)
  then show ?thesis using assms(1) by (simp add: reconcileDomain_def activeInfo_def)
qed

lemma first_failure_is_final:
  assumes "InfoOf (st_m st) d = None" "fst (issue (w_issuer w) d) = Inl e"
    and "fst (generateSelfSigned (w_pki w) (w_os w) (w_now w d) (w_mint w d) d (cc_SelfSignedDir cfg)) = Some (c, k, na)"
    and "parseCertificate (pk_Parse (w_pki w)) c k = Some cert"
    and "w_now w' d + selfSignedRenewBefore \<le> na"
  shows "reconcileDomain w' cfg d (reconcileDomain w cfg d st) = reconcileDomain w cfg d st"
proof -
  let ?p = "provisionFallback w cfg d st"
  have "cm_info (st_m (attemptIssuance w cfg d ?p)) = cm_info (st_m ?p)"
    using attempt_failed [OF _ assms(2), of ?p cfg] attempt_quiet [of w d ?p cfg] by (cases "asksCA w d ?p") simp_all
  then have "InfoOf (st_m (reconcileDomain w cfg d st)) d = Some (activeInfo d ''self_signed'' (selfSignedSubject d) (lf_NotBefore (tc_Leaf cert)) na)"
    using provision_serves [OF assms(3,4), of st] assms(1) by (simp add: reconcileDomain_def InfoOf_def)
  then show ?thesis using assms(5) by (rule fallback_not_retried)
qed

text \<open>A database failure during a reload keeps every certificate in hand.\<close>

lemma reload_failure_keeps_cache: "fst (reload w cfg st) \<noteq> None \<Longrightarrow> st_m (snd (reload w cfg st)) = st_m st"
  by (auto simp: reload_def Let_def split: prod.splits sum.splits)

subsection \<open>Concrete instances\<close>

definition demoPki :: pki where
  "demoPki = \<lparr>pk_KeyPair = (\<lambda>c k. Some \<lparr>tc_CertPEM = c, tc_KeyPEM = k, tc_Leaf = demoLeaf ''goacos gateway'' (10 ^ 18)\<rparr>),
     pk_Parse = (\<lambda>c k. Some (demoLeaf ''goacos gateway'' (10 ^ 18))), pk_Leaf = (\<lambda>_. None), pk_Verify = (\<lambda>_ _. True)\<rparr>"

definition demoOs :: osEnv where
  "demoOs = \<lparr>os_MkdirAll = (\<lambda>_. False), os_TempDir = ''/tmp'', os_ReadFile = (\<lambda>_. None), os_CanWrite = (\<lambda>_. False)\<rparr>"

definition demoClient :: acmeClient where
  "demoClient = \<lparr>ac_Key = Inr ''K'', ac_AuthorizeOrder = (\<lambda>_. Inl ''rate limited''), ac_GetAuthorization = (\<lambda>_. Inl ''x''),
     ac_HTTP01Response = (\<lambda>_. Inl ''x''), ac_Accept = (\<lambda>_. None), ac_WaitOrder = (\<lambda>_. Inl ''x''), ac_CSR = (\<lambda>_. Inl ''x''),
     ac_CreateOrderCert = (\<lambda>_ _. Inl ''x''), ac_MarshalKey = (\<lambda>_. Inl ''x''), ac_Register = (\<lambda>_. None)\<rparr>"

definition demoWorld :: world where
  "demoWorld = \<lparr>w_now = (\<lambda>_. 1000), w_after = (\<lambda>_. 2000), w_jitter = (\<lambda>_. 7), w_tenYears = 10 ^ 18, w_pki = demoPki,
     w_mint = (\<lambda>d. Some (''cert '' @ d, ''key'', 10 ^ 18)), w_os = demoOs,
     w_issuer = \<lparr>is_enabled = True, is_directory = ''https://ca'', is_email = '''', is_dataDir = '''', is_client = Some demoClient\<rparr>,
     w_lookupIP = (\<lambda>_. Some [V4 0x08080808]), w_pem = (\<lambda>_. []), w_stat = (\<lambda>_. None), w_entries = None, w_mapOrder = [],
     w_wstage = (\<lambda>_. None), w_tmp = (\<lambda>p. p @ ''.tmp'')\<rparr>"

definition demoCfg :: certCfg where
  "demoCfg = \<lparr>cc_ns = ''public'', cc_CertDir = '''', cc_WriteBack = False, cc_SelfSignedDir = '''', cc_CertRefreshSeconds = 10,
     cc_CertScanSeconds = 30\<rparr>"

definition demoDefault :: TLSCert where
  "demoDefault = \<lparr>tc_CertPEM = ''cert goacos-gateway.invalid'', tc_KeyPEM = ''key'', tc_Leaf = demoLeaf ''goacos gateway'' (10 ^ 18)\<rparr>"

definition demoManager :: "db \<Rightarrow> cmState" where
  "demoManager d = \<lparr>st_m = \<lparr>cm_certs = Map.empty, cm_info = Map.empty, cm_default = Some demoDefault, cm_challenges = [],
     cm_failures = [], cm_accountOK = False, cm_onDemand = []\<rparr>, st_db = d, st_dir = Map.empty\<rparr>"

definition emptyDb :: db where
  "emptyDb = \<lparr>tabs = empty_tables, script = []\<rparr>"

lemma demo_new: "NewCertManager demoWorld demoCfg emptyDb Map.empty = Inr (demoManager emptyDb)"
  by (simp add: NewCertManager_def demoWorld_def demoCfg_def demoPki_def emptyDb_def empty_tables_def demoManager_def demoDefault_def
      reload_def ListCertificates_def query_def stmt_def mergeCerts_def enumFiles_def map_filter_simps)

lemma demo_eligible: "asksCA demoWorld ''shop.io'' (demoManager emptyDb)"
proof -
  have "eligibleForACME ''shop.io''" by code_simp
  moreover have "resolvablePublicly (w_lookupIP demoWorld) ''shop.io''"
    by (simp add: resolvablePublicly_def demoWorld_def isGlobalUnicast_def isPrivate_def isLoopback_def isLinkLocalUnicast_def isMulticast_def)
  ultimately show ?thesis by (simp add: asksCA_def acmePossible_def backoffRemaining_def demoManager_def demoWorld_def)
qed



definition manualDb :: db where
  "manualDb = \<lparr>tabs = empty_tables\<lparr>gateway_certificate := [sampleCert\<lparr>cert_Source := ''manual''\<rparr>]\<rparr>, script = []\<rparr>"

theorem foreign_certificates_untouched_witness:
  "map_option ci_Source (cm_info (st_m (reconcile demoWorld demoCfg [''a.example'', ''b.example''] (demoManager manualDb))) ''a.example'')
     = Some ''manual''"
proof -
  have n: "NormalizeDomain ''a.example'' = ''a.example''" by code_simp
  obtain i where i: "cm_info (st_m (snd (reload demoWorld demoCfg (demoManager manualDb)))) ''a.example'' = Some i" "ci_Source i = ''manual''"
    by (simp add: n reload_def ListCertificates_def query_def stmt_def manualDb_def empty_tables_def demoManager_def demoCfg_def
        sampleCert_def parseCertificate_def demoWorld_def demoPki_def mergeCerts_def enumFiles_def map_filter_simps Let_def)
  show ?thesis using foreign_certificates_untouched [OF i(1), of "[''a.example'', ''b.example'']"] i(2) by simp
qed

theorem reconcile_serves_every_domain_witness:
  "DomainsNeedingCerts (st_m (reconcile demoWorld demoCfg [''shop.io''] (demoManager emptyDb))) [''shop.io''] = []"
proof -
  have "\<forall>dm\<in>set [''shop.io'']. canProvision demoWorld demoCfg dm"
    by (simp add: canProvision_def generateSelfSigned_def writableDir_def demoCfg_def demoWorld_def demoPki_def parseCertificate_def)
  then show ?thesis using reconcile_serves_every_domain [OF demo_new rtranclp.rtrancl_refl] by blast
qed

subsection \<open>Challenges\<close>

lemma setChallenge_look:
  "map_of (cm_challenges (setChallenge tv m)) = (map_of (cm_challenges m))(fst tv := (if snd tv = '''' then None else Some (snd tv)))"
  by (simp add: setChallenge_def update_conv' delete_conv')

lemma withdraw_look:
  "map_of (cm_challenges (fold setChallenge (map (\<lambda>(t, _). (t, '''')) regs) m)) t =
     (if t \<in> fst ` set regs then None else map_of (cm_challenges m) t)"
  by (induction regs arbitrary: m) (auto simp: setChallenge_look)

lemma register_other:
  "t \<notin> fst ` set regs \<Longrightarrow> map_of (cm_challenges (fold setChallenge regs m)) t = map_of (cm_challenges m) t"
  by (induction regs arbitrary: m) (auto simp: setChallenge_look)

lemma issue_events:
  obtains regs where "snd (issue a d) = regs @ map (\<lambda>(t, _). (t, '''')) (rev regs)"
  by (fastforce simp: issue_def Let_def split: option.splits sum.splits prod.splits)

text \<open>However an issuance ends, every challenge it published is withdrawn and no other challenge is disturbed.\<close>

theorem challenges_withdrawn:
  "let m' = fold setChallenge (snd (issue a d)) m
   in (\<forall>t. t \<in> fst ` set (snd (issue a d)) \<longrightarrow> ServeChallenge m' t h = None) \<and>
      (\<forall>t. t \<notin> fst ` set (snd (issue a d)) \<longrightarrow> ServeChallenge m' t h = ServeChallenge m t h)"
proof -
  obtain regs where r: "snd (issue a d) = regs @ map (\<lambda>(t, _). (t, '''')) (rev regs)" by (rule issue_events)
  have s: "fst ` set (snd (issue a d)) = fst ` set regs" unfolding r by force
  have "map_of (cm_challenges (fold setChallenge (snd (issue a d)) m)) t =
      (if t \<in> fst ` set regs then None else map_of (cm_challenges m) t)" for t
    using withdraw_look [of "rev regs" "fold setChallenge regs m" t] register_other [of t regs m] unfolding r by simp
  then show ?thesis by (simp add: s ServeChallenge_def Let_def)
qed

definition okClient :: acmeClient where
  "okClient = demoClient\<lparr>ac_AuthorizeOrder := (\<lambda>d. Inr (''/order'', [''/authz''])),
     ac_GetAuthorization := (\<lambda>u. Inr \<lparr>az_Status = ''pending'', az_Identifier = ''shop.io'', az_Challenges = [(''http-01'', ''tok'')]\<rparr>),
     ac_HTTP01Response := (\<lambda>t. Inr (t @ ''.thumb''))\<rparr>"

theorem challenges_withdrawn_witness:
  "let a = \<lparr>is_enabled = True, is_directory = ''https://ca'', is_email = '''', is_dataDir = '''', is_client = Some okClient\<rparr>
   in ServeChallenge (fold setChallenge (snd (issue a ''shop.io'')) (st_m (demoManager emptyDb))) ''tok'' Map.empty = None"
proof -
  let ?a = "\<lparr>is_enabled = True, is_directory = ''https://ca'', is_email = '''', is_dataDir = '''', is_client = Some okClient\<rparr>"
  have "''tok'' \<in> fst ` set (snd (issue ?a ''shop.io''))"
    by (simp add: issue_def okClient_def demoClient_def http01Challenge_def)
  then show ?thesis using challenges_withdrawn [of ?a "''shop.io''" "st_m (demoManager emptyDb)" Map.empty] by (simp add: Let_def)
qed

end
