(* ===== verification/Gateway.thy ===== *)
theory Gateway
  imports Proxy Static Certs
begin

text \<open>
  The running data plane (\<^verbatim>\<open>internal/gateway/gateway.go\<close>): the HTTP and HTTPS handlers, access control,
  dispatch to static delivery or the proxy, and the refresh of the routing snapshot.  A handler returns what is
  written (kind of response, response headers at that moment) and the new state; \<open>genv\<close> collects the
  configuration and the environment (regular expressions, file system, upstreams, time formatting).
\<close>

subsection \<open>State\<close>

record 're genv =
  ge_cfg :: Config
  ge_compile :: "string \<Rightarrow> 're option"
  ge_matches :: "'re \<Rightarrow> string \<Rightarrow> bool"
  ge_fs :: "string \<Rightarrow> fkind option"
  ge_readable :: "string \<Rightarrow> bool"
  ge_serve :: "nat \<Rightarrow> rewritePlan \<Rightarrow> Request \<Rightarrow> outcome"
  ge_rfc3339 :: "int \<Rightarrow> string"

record gateway =
  g_table :: Table
  g_certs :: CertManager
  g_fwd :: gwState
  g_requests :: int
  g_proxied :: int
  g_staticHits :: int
  g_redirects :: int
  g_rejected :: int
  g_noRoute :: int

text \<open>\<open>TooLarge\<close> carries the rendered limit; None is the panic of \<^verbatim>\<open>itoa\<close>.\<close>

datatype Response =
    ChallengeReply string
  | PlainNotFound
  | MovedPermanently string
  | GatewayError nat string
  | TooLarge "string option"
  | StaticReply StaticBody
  | Proxied Reply

type_synonym answer = "Response \<times> Header \<times> gateway"

definition policyFor :: "'re genv \<Rightarrow> gateway \<Rightarrow> string \<Rightarrow> 're Policy" where
  "policyFor e g host = resolvePolicy (ge_compile e) (ge_cfg e) (tablePolicy (g_table g) host)"

definition writeGatewayError :: "nat \<Rightarrow> string \<Rightarrow> Header \<Rightarrow> Response \<times> Header" where
  "writeGatewayError status msg h = (GatewayError status msg, hSet ''Content-Type'' ''application/json; charset=utf-8'' h)"

definition rejectBody :: "int \<Rightarrow> Header \<Rightarrow> Response \<times> Header" where
  "rejectBody limit h = (TooLarge (itoa limit), hSet ''Content-Type'' ''application/json; charset=utf-8'' h)"

subsection \<open>Admission\<close>

text \<open>\<^verbatim>\<open>admit\<close>: the headers with the policy's added, the rejection if there is one, and the state.\<close>

definition rejectText :: "nat \<Rightarrow> string" where
  "rejectText status = (if status = 403 then ''user agent is not permitted for this domain'' else ''not found'')"

definition admit :: "'re genv \<Rightarrow> Request \<Rightarrow> 're Policy \<Rightarrow> Header \<Rightarrow> gateway \<Rightarrow> (Response \<times> Header) option \<times> Header \<times> gateway" where
  "admit e r pol h0 g =
     (let h = applyHeaders pol h0
      in case rejectSensitiveRequest (ge_matches e) pol r of
           Some status \<Rightarrow> (Some (writeGatewayError status (rejectText status) h), h, g\<lparr>g_rejected := g_rejected g + 1\<rparr>)
         | None \<Rightarrow>
             if pol_Allow pol = [] \<and> pol_Deny pol = [] then (None, h, g)
             else if Allowed pol (ClientAddr r (cfg_GatewayTrustForwardedFor (ge_cfg e))) then (None, h, g)
             else (Some (writeGatewayError 403 ''client address is not permitted for this domain'' h), h,
                   g\<lparr>g_rejected := g_rejected g + 1\<rparr>))"

definition metaFiltersFrom :: "Request \<Rightarrow> smap" where
  "metaFiltersFrom r =
     (let q = (case map_of (rq_Query r) ''metaFilter'' of Some v \<Rightarrow> v | None \<Rightarrow> '''');
          raw = (if q = '''' then hGet (rq_Header r) ''X-Goacos-Meta-Filter'' else q)
      in parseMetaFilter raw)"

subsection \<open>Redirects\<close>

definition httpsPortSuffix :: "Config \<Rightarrow> string" where
  "httpsPortSuffix cfg =
     (case splitHostPort (cfg_GatewayHTTPSAddr cfg) of
        None \<Rightarrow> ''''
      | Some (_, port) \<Rightarrow> if port = '''' \<or> port = ''443'' then '''' else '':'' @ port)"

definition redirectToHTTPS :: "Config \<Rightarrow> Request \<Rightarrow> Header \<Rightarrow> Response \<times> Header" where
  "redirectToHTTPS cfg r h =
     (let location = ''https://'' @ NormalizeDomain (hostOnly (rq_Host r)) @ httpsPortSuffix cfg @ rq_RequestURI r
      in (MovedPermanently location, hSet ''Location'' location h))"

subsection \<open>Dispatch\<close>

definition certHeaders :: "'re genv \<Rightarrow> gateway \<Rightarrow> Request \<Rightarrow> Target \<Rightarrow> Header \<Rightarrow> Header" where
  "certHeaders e g r t h =
     hSet ''X-Goacos-Component'' (tg_AppName t @ ''/'' @ tg_ComponentName t)
       (case InfoOf (g_certs g) (rq_Host r) of
          None \<Rightarrow> h
        | Some info \<Rightarrow> hSet ''X-Goacos-Cert-Expiry'' (ge_rfc3339 e (ci_NotAfter info)) (hSet ''X-Goacos-Cert-Source'' (ci_Source info) h))"

definition dispatch :: "'re genv \<Rightarrow> bool \<Rightarrow> Request \<Rightarrow> Header \<Rightarrow> gateway \<Rightarrow> answer" where
  "dispatch e secure r h0 g0 =
     (let g1 = g0\<lparr>g_requests := g_requests g0 + 1\<rparr>;
          pol = policyFor e g1 (rq_Host r);
          (rej, h, g) = admit e r pol h0 g1
      in case rej of
           Some (resp, h') \<Rightarrow> (resp, h', g)
         | None \<Rightarrow>
             (case Lookup (g_table g) (rq_Host r) (rq_Path r) (metaFiltersFrom r) of
                None \<Rightarrow>
                  (let (resp, h') = writeGatewayError 404 (''no route declared for '' @ rq_Host r @ rq_Path r) h
                   in (resp, h', g\<lparr>g_noRoute := g_noRoute g + 1\<rparr>))
              | Some t \<Rightarrow>
                  (let h1 = certHeaders e g r t h; limit = pol_ClientMaxBodyBytes pol
                   in if \<not> secure \<and> pol_ForceHTTPS pol then
                        (let (resp, h') = redirectToHTTPS (ge_cfg e) r h1 in (resp, h', g\<lparr>g_redirects := g_redirects g + 1\<rparr>))
                      else if limit > 0 \<and> rq_ContentLength r > limit then
                        (let (resp, h') = rejectBody limit h1 in (resp, h', g\<lparr>g_rejected := g_rejected g + 1\<rparr>))
                      else
                        (let r' = (if limit > 0 then r\<lparr>rq_BodyLimit := Some limit\<rparr> else r);
                             static = (if servesStatic (ge_cfg e) (ge_fs e) t
                                       then ServeStatic (ge_cfg e) (ge_fs e) (ge_readable e) r' t h1 else None)
                         in case static of
                              Some (h', body) \<Rightarrow> (StaticReply body, h', g\<lparr>g_staticHits := g_staticHits g + 1\<rparr>)
                            | None \<Rightarrow>
                                (let (fw, _, reply) = Forward (ge_serve e) (cfg_GatewayTrustForwardedFor (ge_cfg e)) r' t pol (g_fwd g)
                                 in (Proxied reply, h1, g\<lparr>g_proxied := g_proxied g + 1, g_fwd := fw\<rparr>))))))"

subsection \<open>The two listeners\<close>

definition acmePrefix :: string where
  "acmePrefix = ''/.well-known/acme-challenge/''"

definition HTTPServe :: "'re genv \<Rightarrow> Request \<Rightarrow> gateway \<Rightarrow> answer" where
  "HTTPServe e r g =
     (if hasPrefix (rq_Path r) acmePrefix then
        (case ServeChallenge (g_certs g) (trimPrefix (rq_Path r) acmePrefix) Map.empty of
           Some (h, value) \<Rightarrow> (ChallengeReply value, h, g)
         | None \<Rightarrow> (PlainNotFound, Map.empty, g))
      else let pol = policyFor e g (rq_Host r);
               (rej, h, g1) = admit e r pol Map.empty g
           in case rej of
                Some (resp, h') \<Rightarrow> (resp, h', g1)
              | None \<Rightarrow>
                  if pol_ForceHTTPS pol then
                    (let (resp, h') = redirectToHTTPS (ge_cfg e) r h in (resp, h', g1\<lparr>g_redirects := g_redirects g1 + 1\<rparr>))
                  else dispatch e False r h g1)"

definition TLSServe :: "'re genv \<Rightarrow> Request \<Rightarrow> gateway \<Rightarrow> answer" where
  "TLSServe e r g =
     (let pol = policyFor e g (rq_Host r);
          h = (if pol_HSTSMaxAge pol > 0
               then hSet ''Strict-Transport-Security'' (''max-age='' @ decimal (nat (pol_HSTSMaxAge pol)) @ ''; includeSubDomains'') Map.empty
               else Map.empty)
      in dispatch e True r h g)"

subsection \<open>Refreshing\<close>

text \<open>\<^verbatim>\<open>refresh\<close>: \<open>order\<close> is the order in which Go's map iteration visits the domains.\<close>

definition refresh :: "int option \<Rightarrow> int \<Rightarrow> (string list \<Rightarrow> string list) \<Rightarrow> string \<Rightarrow> gateway \<Rightarrow> db \<Rightarrow> gateway \<times> db" where
  "refresh hb now order ns g d =
     (case Refresh hb now order ns (g_table g) d of
        (Some _, t, d') \<Rightarrow> (g\<lparr>g_table := t\<rparr>, d')
      | (None, t, d') \<Rightarrow>
          (let fw = g_fwd g
           in (g\<lparr>g_table := t,
                 g_fwd := fw\<lparr>gw_pool := prune (gw_pool fw) (liveAddresses t),
                            gw_picker := Forget (gw_picker fw) (set (TargetKeys t order))\<rparr>\<rparr>, d')))"

definition NewGateway :: "world \<Rightarrow> certCfg \<Rightarrow> int option \<Rightarrow> int \<Rightarrow> (string list \<Rightarrow> string list) \<Rightarrow> string \<Rightarrow> db \<Rightarrow> fsys \<Rightarrow>
    goerr + (gateway \<times> cmState)" where
  "NewGateway w cfg hb now order gwNamespace d dir =
     (let ns = (if gwNamespace = '''' then ''public'' else gwNamespace)
      in case NewCertManager w (cfg\<lparr>cc_ns := ns\<rparr>) d dir of
           Inl err \<Rightarrow> Inl err
         | Inr st \<Rightarrow>
             (case Refresh hb now order ns NewTable (st_db st) of
                (Some err, _, _) \<Rightarrow> Inl err
              | (None, t, d') \<Rightarrow>
                  Inr (\<lparr>g_table = t, g_certs = st_m st,
                        g_fwd = \<lparr>gw_picker = NewPicker, gw_pool = Map.empty, gw_upstreamFailed = 0\<rparr>,
                        g_requests = 0, g_proxied = 0, g_staticHits = 0, g_redirects = 0, g_rejected = 0, g_noRoute = 0\<rparr>,
                       st\<lparr>st_db := d'\<rparr>)))"

text \<open>\<^verbatim>\<open>DaysLeft\<close>: whole days towards zero; \<^verbatim>\<open>time.Until\<close> stops at the bounds of a 64-bit duration.\<close>

definition DaysLeft :: "int \<Rightarrow> int \<Rightarrow> int" where
  "DaysLeft now t = (let h = max (- (2 ^ 63)) (min (2 ^ 63 - 1) (t - now)); day = 24 * 3600 * 10 ^ 9 in if h \<ge> 0 then h div day else - ((- h) div day))"

subsection \<open>Admission\<close>

definition admitted :: "'re genv \<Rightarrow> gateway \<Rightarrow> Request \<Rightarrow> bool" where
  "admitted e g r \<longleftrightarrow>
     (let pol = policyFor e g (rq_Host r)
      in rejectSensitiveRequest (ge_matches e) pol r = None \<and>
         (pol_Allow pol = [] \<and> pol_Deny pol = [] \<or> Allowed pol (ClientAddr r (cfg_GatewayTrustForwardedFor (ge_cfg e)))))"

lemma admit_ok:
  "admitted e g r \<Longrightarrow> admit e r (policyFor e g (rq_Host r)) h0 g' = (None, applyHeaders (policyFor e g (rq_Host r)) h0, g')"
  by (auto simp: admitted_def admit_def Let_def)

lemma admit_no:
  assumes "\<not> admitted e g r"
  shows "\<exists>s msg. s \<in> {403, 404} \<and> admit e r (policyFor e g (rq_Host r)) h0 g' =
    (Some (GatewayError s msg, hSet ''Content-Type'' ''application/json; charset=utf-8'' (applyHeaders (policyFor e g (rq_Host r)) h0)),
     applyHeaders (policyFor e g (rq_Host r)) h0, g'\<lparr>g_rejected := g_rejected g' + 1\<rparr>)"
  using assms
  by (auto simp: admitted_def admit_def Let_def writeGatewayError_def rejectSensitiveRequest_def split: option.split if_splits)

lemma policyFor_cong [simp]:
  "policyFor e (g\<lparr>g_requests := n\<rparr>) host = policyFor e g host" "policyFor e (g\<lparr>g_rejected := n\<rparr>) host = policyFor e g host"
  by (simp_all add: policyFor_def)

lemma dispatch_refused:
  assumes "\<not> admitted e g r"
  shows "\<exists>s msg h g'. s \<in> {403, 404} \<and> dispatch e secure r h0 g = (GatewayError s msg, h, g') \<and>
    g' = g\<lparr>g_requests := g_requests g + 1, g_rejected := g_rejected g + 1\<rparr>"
  using admit_no [OF assms, of h0 "g\<lparr>g_requests := g_requests g + 1\<rparr>"] by (auto simp: dispatch_def Let_def)

definition content :: "Response \<Rightarrow> bool" where
  "content resp \<longleftrightarrow> (case resp of StaticReply _ \<Rightarrow> True | Proxied _ \<Rightarrow> True | _ \<Rightarrow> False)"

definition withinLimit :: "'re Policy \<Rightarrow> Request \<Rightarrow> bool" where
  "withinLimit pol r \<longleftrightarrow> pol_ClientMaxBodyBytes pol \<le> 0 \<or> rq_ContentLength r \<le> pol_ClientMaxBodyBytes pol"

lemma dispatch_content:
  assumes "dispatch e secure r h0 g = (resp, h, g')" "content resp"
  shows "admitted e g r \<and> Lookup (g_table g) (rq_Host r) (rq_Path r) (metaFiltersFrom r) \<noteq> None \<and>
    withinLimit (policyFor e g (rq_Host r)) r \<and> (secure \<or> \<not> pol_ForceHTTPS (policyFor e g (rq_Host r)))"
proof (cases "admitted e g r")
  case False
  then show ?thesis using dispatch_refused [OF False, of secure h0] assms by (auto simp: content_def)
next
  case True
  have "admit e r (policyFor e g (rq_Host r)) h0 (g\<lparr>g_requests := g_requests g + 1\<rparr>) =
    (None, applyHeaders (policyFor e g (rq_Host r)) h0, g\<lparr>g_requests := g_requests g + 1\<rparr>)" by (rule admit_ok [OF True])
  then show ?thesis using assms True
    by (auto simp: dispatch_def Let_def content_def withinLimit_def writeGatewayError_def redirectToHTTPS_def rejectBody_def
        split: option.splits if_splits prod.splits)
qed

lemma dispatch_quiet:
  assumes "dispatch e secure r h0 g = (resp, h, g')" "\<not> content resp"
  shows "g_fwd g' = g_fwd g"
proof (cases "admitted e g r")
  case False
  then show ?thesis using dispatch_refused [OF False, of secure h0] assms by auto
next
  case True
  have "admit e r (policyFor e g (rq_Host r)) h0 (g\<lparr>g_requests := g_requests g + 1\<rparr>) =
    (None, applyHeaders (policyFor e g (rq_Host r)) h0, g\<lparr>g_requests := g_requests g + 1\<rparr>)" by (rule admit_ok [OF True])
  then show ?thesis using assms
    by (auto simp: dispatch_def Let_def content_def writeGatewayError_def redirectToHTTPS_def rejectBody_def
        split: option.splits if_splits prod.splits)
qed

lemma http_serve_cases:
  assumes "\<not> hasPrefix (rq_Path r) acmePrefix" "admitted e g r" "\<not> pol_ForceHTTPS (policyFor e g (rq_Host r))"
  shows "HTTPServe e r g = dispatch e False r (applyHeaders (policyFor e g (rq_Host r)) Map.empty) g"
  using assms admit_ok [OF assms(2)] by (simp add: HTTPServe_def Let_def)

lemma http_serve_refused:
  assumes "\<not> hasPrefix (rq_Path r) acmePrefix" "\<not> admitted e g r"
  shows "\<exists>s msg h. s \<in> {403, 404} \<and> HTTPServe e r g = (GatewayError s msg, h, g\<lparr>g_rejected := g_rejected g + 1\<rparr>)"
  using admit_no [OF assms(2), of Map.empty g] assms(1) by (auto simp: HTTPServe_def Let_def)

lemma http_serve_redirect:
  assumes "\<not> hasPrefix (rq_Path r) acmePrefix" "admitted e g r" "pol_ForceHTTPS (policyFor e g (rq_Host r))"
  shows "\<exists>h. HTTPServe e r g =
    (MovedPermanently (''https://'' @ NormalizeDomain (hostOnly (rq_Host r)) @ httpsPortSuffix (ge_cfg e) @ rq_RequestURI r), h,
     g\<lparr>g_redirects := g_redirects g + 1\<rparr>)"
  using assms admit_ok [OF assms(2)] by (simp add: HTTPServe_def Let_def redirectToHTTPS_def)

text \<open>C3. The data plane is guarded on both listeners: a file or an upstream's answer is sent only to a client that passes the
  domain's address, path and user-agent rules, for a declared route, with a body within the domain's limit, and over
  plain HTTP only when the domain does not force HTTPS; any other answer leaves balancer, pool and upstream counters alone.\<close>

theorem content_only_when_permitted:
  assumes "(if secure then TLSServe e r g else HTTPServe e r g) = (resp, h, g')"
  shows "(content resp \<longrightarrow>
      admitted e g r \<and> Lookup (g_table g) (rq_Host r) (rq_Path r) (metaFiltersFrom r) \<noteq> None \<and>
      withinLimit (policyFor e g (rq_Host r)) r \<and> (secure \<or> \<not> pol_ForceHTTPS (policyFor e g (rq_Host r)))) \<and>
    (\<not> content resp \<longrightarrow> g_fwd g' = g_fwd g)"
proof (cases secure)
  case True
  then show ?thesis using assms dispatch_content [of e True r _ g resp h g'] dispatch_quiet [of e True r _ g resp h g']
    by (auto simp: TLSServe_def Let_def)
next
  case False
  show ?thesis
  proof (cases "hasPrefix (rq_Path r) acmePrefix")
    case True
    then show ?thesis using assms False by (auto simp: HTTPServe_def content_def split: option.splits)
  next
    case acme: False
    consider "\<not> admitted e g r" | "admitted e g r" "pol_ForceHTTPS (policyFor e g (rq_Host r))"
      | "admitted e g r" "\<not> pol_ForceHTTPS (policyFor e g (rq_Host r))" by blast
    then show ?thesis
    proof cases
      case 1
      then show ?thesis using http_serve_refused [OF acme 1] assms False by (auto simp: content_def)
    next
      case 2
      then show ?thesis using http_serve_redirect [OF acme 2] assms False by (auto simp: content_def)
    next
      case 3
      then have "dispatch e False r (applyHeaders (policyFor e g (rq_Host r)) Map.empty) g = (resp, h, g')"
        using http_serve_cases [OF acme 3] assms False by simp
      then show ?thesis using dispatch_content [of e False r _ g resp h g'] dispatch_quiet [of e False r _ g resp h g'] 3 by blast
    qed
  qed
qed

subsection \<open>Response headers\<close>

definition gatewayHeaders :: "string list" where
  "gatewayHeaders = [''Content-Type'', ''Location'', ''X-Goacos-Component'', ''X-Goacos-Cert-Source'', ''X-Goacos-Cert-Expiry'',
     ''X-Goacos-Static'', ''Cache-Control'']"

definition ownHeader :: "string \<Rightarrow> bool" where
  "ownHeader n \<longleftrightarrow> canonicalKey n \<notin> canonicalKey ` set gatewayHeaders"

lemma own_hSet: "ownHeader n \<Longrightarrow> j \<in> set gatewayHeaders \<Longrightarrow> hGet (hSet j v h) n = hGet h n"
  by (auto simp: ownHeader_def hGet_hSet)

lemma own_names:
  "''Content-Type'' \<in> set gatewayHeaders" "''Location'' \<in> set gatewayHeaders" "''X-Goacos-Component'' \<in> set gatewayHeaders"
  "''X-Goacos-Cert-Source'' \<in> set gatewayHeaders" "''X-Goacos-Cert-Expiry'' \<in> set gatewayHeaders"
  "''X-Goacos-Static'' \<in> set gatewayHeaders" "''Cache-Control'' \<in> set gatewayHeaders"
  by (simp_all add: gatewayHeaders_def)

lemmas own_simps = own_hSet [OF _ own_names(1)] own_hSet [OF _ own_names(2)] own_hSet [OF _ own_names(3)] own_hSet [OF _ own_names(4)]
  own_hSet [OF _ own_names(5)] own_hSet [OF _ own_names(6)] own_hSet [OF _ own_names(7)]

lemma foldl_hSet_other:
  "canonicalKey n \<notin> (canonicalKey \<circ> fst) ` set hs \<Longrightarrow> hGet (foldl (\<lambda>h (n, v). hSet n v h) h hs) n = hGet h n"
  by (induction hs arbitrary: h) (auto simp: hGet_hSet)

lemma applyHeaders_sets:
  assumes "(n, v) \<in> set (pol_SecurityHeaders pol)" "distinct (map (canonicalKey \<circ> fst) (pol_SecurityHeaders pol))"
  shows "hGet (applyHeaders pol h) n = v"
proof -
  have "(n, v) \<in> set hs \<Longrightarrow> distinct (map (canonicalKey \<circ> fst) hs) \<Longrightarrow> hGet (foldl (\<lambda>h (n, v). hSet n v h) h hs) n = v" for hs
  proof (induction hs arbitrary: h)
    case (Cons x hs)
    show ?case
    proof (cases "x = (n, v)")
      case True
      then have "canonicalKey n \<notin> (canonicalKey \<circ> fst) ` set hs" using Cons.prems(2) by simp
      then show ?thesis using True foldl_hSet_other [of n hs "hSet n v h"] by (simp add: hGet_hSet)
    next
      case False
      then have "(n, v) \<in> set hs" "distinct (map (canonicalKey \<circ> fst) hs)" using Cons.prems by (auto simp: comp_def)
      from Cons.IH [OF this] show ?thesis by simp
    qed
  qed simp
  then show ?thesis using assms by (simp add: applyHeaders_def)
qed

lemma serveStaticFile_header: "ownHeader n \<Longrightarrow> hGet (fst (serveStaticFile fs rd p i h)) n = hGet h n"
  by (simp add: serveStaticFile_def Let_def own_simps)

lemma ServeStatic_header:
  "ownHeader n \<Longrightarrow> ServeStatic cfg fs rd r t h = Some (h', b) \<Longrightarrow> hGet h' n = hGet h n"
  using serveStaticFile_header [of n fs rd]
  by (auto simp: ServeStatic_def Let_def split: if_splits) (metis fst_conv)+

lemma certHeaders_header: "ownHeader n \<Longrightarrow> hGet (certHeaders e g r t h) n = hGet h n"
  by (simp add: certHeaders_def own_simps split: option.split)

lemma dispatch_header:
  assumes "dispatch e secure r h0 g = (resp, h, g')" "ownHeader n"
  shows "hGet h n = hGet (applyHeaders (policyFor e g (rq_Host r)) h0) n"
proof (cases "admitted e g r")
  case False
  then show ?thesis using admit_no [OF False, of h0 "g\<lparr>g_requests := g_requests g + 1\<rparr>"] assms
    by (auto simp: dispatch_def Let_def own_simps)
next
  case True
  have "admit e r (policyFor e g (rq_Host r)) h0 (g\<lparr>g_requests := g_requests g + 1\<rparr>) =
    (None, applyHeaders (policyFor e g (rq_Host r)) h0, g\<lparr>g_requests := g_requests g + 1\<rparr>)" by (rule admit_ok [OF True])
  then show ?thesis using assms ServeStatic_header [OF assms(2)]
    by (auto simp: dispatch_def Let_def writeGatewayError_def redirectToHTTPS_def rejectBody_def own_simps certHeaders_header
        split: option.splits if_splits prod.splits)
qed

text \<open>The configured security headers are on every response, served, redirected or refused, of either listener
  (ACME challenges apart).\<close>

theorem security_headers_everywhere:
  assumes "(if secure then TLSServe e r g else HTTPServe e r g) = (resp, h, g')"
    and "secure \<or> \<not> hasPrefix (rq_Path r) acmePrefix"
    and "(n, v) \<in> set (pol_SecurityHeaders (policyFor e g (rq_Host r)))"
    and "distinct (map (canonicalKey \<circ> fst) (pol_SecurityHeaders (policyFor e g (rq_Host r))))" "ownHeader n"
  shows "hGet h n = v"
proof (cases secure)
  case True
  then obtain h0 where "dispatch e True r h0 g = (resp, h, g')" using assms(1) by (auto simp: TLSServe_def Let_def)
  then show ?thesis using dispatch_header [OF _ assms(5)] applyHeaders_sets [OF assms(3,4)] by metis
next
  case False
  then have acme: "\<not> hasPrefix (rq_Path r) acmePrefix" using assms(2) by blast
  let ?h0 = "applyHeaders (policyFor e g (rq_Host r)) Map.empty"
  consider "\<not> admitted e g r" | "admitted e g r" "pol_ForceHTTPS (policyFor e g (rq_Host r))"
    | "admitted e g r" "\<not> pol_ForceHTTPS (policyFor e g (rq_Host r))" by blast
  then have "hGet h n = hGet (applyHeaders (policyFor e g (rq_Host r)) ?h0) n \<or> hGet h n = hGet ?h0 n"
  proof cases
    case 1
    then show ?thesis using admit_no [OF 1, of Map.empty g] assms(1,5) acme False by (auto simp: HTTPServe_def Let_def own_simps)
  next
    case 2
    then show ?thesis using admit_ok [OF 2(1), of Map.empty g] assms(1,5) acme False
      by (auto simp: HTTPServe_def Let_def redirectToHTTPS_def own_simps)
  next
    case 3
    then have "dispatch e False r ?h0 g = (resp, h, g')" using http_serve_cases [OF acme 3] assms(1) False by simp
    then show ?thesis using dispatch_header [OF _ assms(5)] by blast
  qed
  then show ?thesis using applyHeaders_sets [OF assms(3,4)] by metis
qed

subsection \<open>Redirects\<close>

text \<open>A domain that forces HTTPS answers plain HTTP only with refusals and with a permanent redirect to the same host,
  path and query on the port of the gateway's own TLS listener, whatever port the client used.\<close>

theorem force_https_redirect:
  assumes "\<not> hasPrefix (rq_Path r) acmePrefix" "pol_ForceHTTPS (policyFor e g (rq_Host r))" "admitted e g r"
    and "rq_Host r = hn \<or> rq_Host r = hn @ '':'' @ q" "set (hn @ q) \<inter> {CHR '':'', CHR ''['', CHR '']''} = {}"
    and "cfg_GatewayHTTPSAddr (ge_cfg e) = a @ '':'' @ p" "set (a @ p) \<inter> {CHR '':'', CHR ''['', CHR '']''} = {}"
  shows "fst (HTTPServe e r g) =
    MovedPermanently (''https://'' @ NormalizeDomain hn @ (if p = '''' \<or> p = ''443'' then '''' else '':'' @ p) @ rq_RequestURI r)"
proof -
  have "hostOnly (rq_Host r) = hn"
  proof (cases "rq_Host r = hn")
    case True
    have "lastIndexByte hn CHR '':'' = None" using assms(5) by (auto simp: lastIndexByte_None)
    then show ?thesis using True by (simp add: hostOnly_def splitHostPort_def)
  next
    case False
    then show ?thesis using assms(4,5) splitHostPort_plain [of hn q] by (simp add: hostOnly_def)
  qed
  moreover have "httpsPortSuffix (ge_cfg e) = (if p = '''' \<or> p = ''443'' then '''' else '':'' @ p)"
    using splitHostPort_plain [OF assms(7)] assms(6) by (simp add: httpsPortSuffix_def)
  ultimately show ?thesis using http_serve_redirect [OF assms(1,3,2)] by auto
qed

subsection \<open>Refreshing\<close>

lemma groupRoutes_seen:
  "dom m \<subseteq> set seen \<Longrightarrow> dom (fst (groupRoutes comps rs m seen)) \<subseteq> set (snd (groupRoutes comps rs m seen))"
proof (induction rs arbitrary: m seen)
  case (Cons r rs)
  show ?case
  proof (cases "entryFor comps r")
    case None
    then show ?thesis using Cons by simp
  next
    case (Some e)
    let ?d = "NormalizeDomain (r_Domain r)"
    have "dom (m(?d \<mapsto> mget [] m ?d @ [e])) \<subseteq> set (if ?d \<in> set seen then seen else seen @ [?d])" using Cons.prems by auto
    from Cons.IH [OF this] show ?thesis by (simp only: groupRoutes.simps Some option.case Let_def)
  qed
qed simp

lemma built_domains:
  assumes "builtFrom t ns tb" "mget [] (tb_domains t) dm \<noteq> []"
  shows "dm \<in> set (tb_Domains t)"
proof -
  let ?g = "groupRoutes (compIndex ns tb) (routesOf ns tb) Map.empty []"
  have "fst ?g dm \<noteq> None" using assms by (auto simp: builtFrom_def mget_map_option mget_def split: if_splits option.splits)
  then have "dm \<in> set (snd ?g)" using groupRoutes_seen [of Map.empty "[]" "compIndex ns tb" "routesOf ns tb"] by auto
  then show ?thesis using assms(1) by (simp add: builtFrom_def)
qed

lemma lookup_key_live:
  assumes "builtFrom t ns tb" "Lookup t host path mf = Some tg" "\<And>xs. set (order xs) = set xs"
  shows "targetKey tg \<in> set (TargetKeys t order)"
proof -
  obtain en where en: "en \<in> set (mget [] (tb_domains t) (NormalizeDomain host))"
    "tg_ServiceName tg = ac_ServiceName (re_comp en)" "tg_AppName tg = ac_AppName (re_comp en)" "tg_ComponentName tg = ac_Name (re_comp en)"
    using Lookup_Some [OF assms(2)] by metis
  then have "NormalizeDomain host \<in> set (tb_Domains t)" using built_domains [OF assms(1), of "NormalizeDomain host"] by force
  then have "NormalizeDomain host \<in> set (order (tb_Domains t))" by (simp add: assms(3))
  moreover have "targetKey tg = targetKeyOf (ac_AppName (re_comp en)) (ac_Name (re_comp en)) (ac_ServiceName (re_comp en))"
    using en by (simp add: targetKey_def)
  ultimately show ?thesis using en(1) by (auto simp: TargetKeys_def)
qed

text \<open>C27. A refresh of the routing snapshot is safe for traffic in flight: when the database cannot be read nothing changes, and when it
  can, every target requests can still reach keeps its balancing state, so connection counts survive every tick.\<close>

theorem refresh_keeps_counters:
  assumes "\<And>xs. set (order xs) = set xs" "refresh hb now order ns g d = (g', d')"
  shows "(fst (Refresh hb now order ns (g_table g) d) \<noteq> None \<longrightarrow> g' = g) \<and>
    (script d = [] \<longrightarrow> (\<forall>host path mf tg. Lookup (g_table g') host path mf = Some tg \<longrightarrow>
        stats (gw_picker (g_fwd g')) (targetKey tg) = stats (gw_picker (g_fwd g)) (targetKey tg)))"
proof (intro conjI impI allI)
  assume "fst (Refresh hb now order ns (g_table g) d) \<noteq> None"
  then show "g' = g" using assms(2) by (auto simp: refresh_def Refresh_def split: prod.splits sum.splits)
next
  fix host path mf tg
  assume q: "script d = []" and l: "Lookup (g_table g') host path mf = Some tg"
  obtain t where t: "Refresh hb now order ns (g_table g) d = (None, t, d)" "builtFrom t ns (tabs d)" using Refresh_built [OF q] by blast
  then have g': "g_table g' = t" "gw_picker (g_fwd g') = Forget (gw_picker (g_fwd g)) (set (TargetKeys t order))"
    using assms(2) by (auto simp: refresh_def Let_def)
  have "targetKey tg \<in> set (TargetKeys t order)" using lookup_key_live [OF t(2) _ assms(1)] l g' by simp
  then show "stats (gw_picker (g_fwd g')) (targetKey tg) = stats (gw_picker (g_fwd g)) (targetKey tg)" by (simp add: g' Forget_def)
qed

subsection \<open>Concrete instances\<close>

definition sampleEnv :: "string genv" where
  "sampleEnv = \<lparr>ge_cfg = sampleConfig, ge_compile = Some, ge_matches = (=), ge_fs = (\<lambda>_. None), ge_readable = (\<lambda>_. False),
     ge_serve = onlyAlive ''10.0.0.1:80'', ge_rfc3339 = (\<lambda>_. '''')\<rparr>"

definition sampleGateway :: gateway where
  "sampleGateway = \<lparr>g_table = sampleTable, g_certs = st_m (demoManager emptyDb), g_fwd = startState, g_requests = 0, g_proxied = 0,
     g_staticHits = 0, g_redirects = 0, g_rejected = 0, g_noRoute = 0\<rparr>"

lemma sample_policy: "policyFor sampleEnv sampleGateway h = resolvePolicy Some sampleConfig None"
  by (simp add: policyFor_def sampleEnv_def sampleGateway_def tablePolicy_def sampleTable_def NewTable_def)

lemma sample_admitted: "admitted sampleEnv sampleGateway sampleRequest"
  by (simp add: admitted_def sample_policy resolvePolicy_def Let_def rejectSensitiveRequest_def sampleConfig_def)

lemma sample_no_acme: "\<not> hasPrefix (rq_Path sampleRequest) acmePrefix"
  by (simp add: sampleRequest_def acmePrefix_def hasPrefix_def)

lemma sample_forces: "pol_ForceHTTPS (policyFor sampleEnv sampleGateway h)"
  by (simp add: sample_policy resolvePolicy_def Let_def sampleConfig_def)

theorem content_only_when_permitted_witness:
  "\<not> content (fst (HTTPServe sampleEnv sampleRequest sampleGateway))"
proof -
  obtain resp h g' where r: "HTTPServe sampleEnv sampleRequest sampleGateway = (resp, h, g')" by (metis prod_cases3)
  then show ?thesis using content_only_when_permitted [of False sampleEnv sampleRequest sampleGateway resp h g'] sample_forces by auto
qed

theorem security_headers_everywhere_witness:
  "hGet (fst (snd (HTTPServe sampleEnv sampleRequest sampleGateway))) ''X-Frame-Options'' = ''DENY''"
proof -
  have s: "pol_SecurityHeaders (policyFor sampleEnv sampleGateway h) = [(''X-Frame-Options'', ''DENY'')]" for h
  proof -
    have "parseSecurityHeaders [''X-Frame-Options: DENY''] = [(''X-Frame-Options'', ''DENY'')]" by code_simp
    then show ?thesis by (simp add: sample_policy resolvePolicy_def Let_def sampleConfig_def)
  qed
  have "ownHeader ''X-Frame-Options''" unfolding ownHeader_def gatewayHeaders_def by code_simp
  then show ?thesis
    using security_headers_everywhere [of False sampleEnv sampleRequest sampleGateway _ _ _ "''X-Frame-Options''" "''DENY''"] sample_no_acme
    by (simp add: s) (metis prod.collapse)
qed

theorem force_https_redirect_witness:
  "fst (HTTPServe sampleEnv sampleRequest sampleGateway) = MovedPermanently ''https://example.com:8443/api''"
proof -
  have n: "NormalizeDomain ''example.com'' = ''example.com''" by code_simp
  have "fst (HTTPServe sampleEnv sampleRequest sampleGateway) =
     MovedPermanently (''https://'' @ NormalizeDomain ''example.com'' @ (if ''8443'' = '''' \<or> ''8443'' = ''443'' then '''' else '':'' @ ''8443'') @ rq_RequestURI sampleRequest)"
    by (rule force_https_redirect [OF sample_no_acme sample_forces sample_admitted, of _ "''''" "''''"])
      (simp_all add: sampleRequest_def sampleEnv_def sampleConfig_def)
  then show ?thesis by (simp add: n sampleRequest_def)
qed

theorem refresh_keeps_counters_witness:
  "fst (refresh None 0 (\<lambda>xs. xs) ''public'' sampleGateway \<lparr>tabs = empty_tables, script = [Fail]\<rparr>) = sampleGateway"
proof -
  let ?d = "\<lparr>tabs = empty_tables, script = [Fail]\<rparr>"
  obtain g' d' where r: "refresh None 0 (\<lambda>xs. xs) ''public'' sampleGateway ?d = (g', d')" by force
  have "fst (Refresh None 0 (\<lambda>xs. xs) ''public'' (g_table sampleGateway) ?d) \<noteq> None"
    by (simp add: Refresh_def buildTable_def bindS_def ListRoutes_def query_def stmt_def)
  then show ?thesis using refresh_keeps_counters [OF _ r] r by simp
qed

end
