(* ===== verification/ConfigStore.thy ===== *)
theory ConfigStore
  imports Schema GoStrings
begin

text \<open>
  The configuration centre's store (\<^verbatim>\<open>internal/storage/configstore.go\<close>, \<^verbatim>\<open>tenantstore.go\<close>): configurations with their
  history and tags, and namespaces.  \<open>md5\<close> is \<^verbatim>\<open>md5hex\<close>, any function here; \<open>now\<close> stands for \<^verbatim>\<open>NOW()\<close> and \<^verbatim>\<open>time.Now()\<close>.
  Empty strings are stored as NULL and read back as empty strings, so the rows hold plain strings.
\<close>

subsection \<open>Rows\<close>

type_synonym config_key = "string \<times> string \<times> string"

definition configKey :: "ConfigInfo \<Rightarrow> config_key" where
  "configKey c = (c_DataId c, c_GroupId c, c_TenantId c)"

definition histKey :: "HistoryInfo \<Rightarrow> config_key" where
  "histKey h = (h_DataId h, h_GroupId h, h_TenantId h)"

record ConfigUpsert =
  cu_DataId :: string
  cu_GroupId :: string
  cu_TenantId :: string
  cu_Content :: string
  cu_SrcUser :: string
  cu_SrcIp :: string
  cu_AppName :: string
  cu_Type :: string
  cu_CDesc :: string
  cu_CUse :: string
  cu_Effect :: string
  cu_CSchema :: string
  cu_ConfigMD5 :: string

definition cuKey :: "ConfigUpsert \<Rightarrow> config_key" where
  "cuKey u = (cu_DataId u, cu_GroupId u, cu_TenantId u)"

definition upsertMd5 :: "(string \<Rightarrow> string) \<Rightarrow> ConfigUpsert \<Rightarrow> string" where
  "upsertMd5 md5 u = (if cu_ConfigMD5 u = '''' then md5 (cu_Content u) else cu_ConfigMD5 u)"

definition setConfig :: "int \<Rightarrow> string \<Rightarrow> ConfigUpsert \<Rightarrow> ConfigInfo \<Rightarrow> ConfigInfo" where
  "setConfig now m u c = c\<lparr>c_Content := cu_Content u, c_Md5 := m, c_GmtModified := now, c_SrcUser := cu_SrcUser u,
     c_SrcIp := cu_SrcIp u, c_AppName := cu_AppName u, c_CDesc := cu_CDesc u, c_CUse := cu_CUse u, c_Effect := cu_Effect u,
     c_Type := cu_Type u, c_CSchema := cu_CSchema u\<rparr>"

definition newConfig :: "int \<Rightarrow> string \<Rightarrow> ConfigUpsert \<Rightarrow> int \<Rightarrow> ConfigInfo" where
  "newConfig now m u i = \<lparr>c_ID = i, c_DataId = cu_DataId u, c_GroupId = cu_GroupId u, c_Content = cu_Content u, c_Md5 = m,
     c_GmtCreate = now, c_GmtModified = now, c_SrcUser = cu_SrcUser u, c_SrcIp = cu_SrcIp u, c_AppName = cu_AppName u,
     c_TenantId = cu_TenantId u, c_CDesc = cu_CDesc u, c_CUse = cu_CUse u, c_Effect = cu_Effect u, c_Type = cu_Type u,
     c_CSchema = cu_CSchema u\<rparr>"

subsection \<open>Statements\<close>

definition selectConfigId :: "config_key \<Rightarrow> int dbop" where
  "selectConfigId k = queryRow (\<lambda>t. map c_ID (filter (\<lambda>c. configKey c = k) (config_info t)))"

definition insertConfigTab :: "int \<Rightarrow> string \<Rightarrow> ConfigUpsert \<Rightarrow> tables \<Rightarrow> (goerr + int) \<times> tables" where
  "insertConfigTab now m u t =
     (case insertUnique configKey (newConfig now m u (next_id t)) (config_info t) of
        (Inl e, _) \<Rightarrow> (Inl e, t)
      | (Inr _, cs) \<Rightarrow> (Inr (next_id t), t\<lparr>config_info := cs, next_id := next_id t + 1\<rparr>))"

definition insertHistoryTab :: "HistoryInfo \<Rightarrow> tables \<Rightarrow> tables" where
  "insertHistoryTab h t = t\<lparr>his_config_info := his_config_info t @ [h\<lparr>h_Nid := next_id t\<rparr>], next_id := next_id t + 1\<rparr>"

definition insertHistory :: "HistoryInfo \<Rightarrow> unit dbop" where
  "insertHistory h = exec (\<lambda>t. (Inr (), insertHistoryTab h t))"

definition upsertHistory :: "int \<Rightarrow> string \<Rightarrow> ConfigUpsert \<Rightarrow> string \<Rightarrow> int \<Rightarrow> HistoryInfo" where
  "upsertHistory now m u op i = \<lparr>h_Nid = 0, h_ID = i, h_DataId = cu_DataId u, h_GroupId = cu_GroupId u, h_AppName = cu_AppName u,
     h_Content = cu_Content u, h_Md5 = m, h_GmtCreate = now, h_GmtModified = now, h_SrcUser = cu_SrcUser u, h_SrcIp = cu_SrcIp u,
     h_OpType = op, h_TenantId = cu_TenantId u\<rparr>"

subsection \<open>Configurations\<close>

definition getConfig :: "string \<Rightarrow> string \<Rightarrow> string \<Rightarrow> ConfigInfo option dbop" where
  "getConfig dataId grp tenant =
     tryS (queryRow (\<lambda>t. filter (\<lambda>c. configKey c = (dataId, grp, tenant)) (config_info t)))
       (\<lambda>e. if e = ErrNoRows then retS None else failS e)
       (\<lambda>c. retS (Some c))"

definition upsertConfig :: "(string \<Rightarrow> string) \<Rightarrow> int \<Rightarrow> ConfigUpsert \<Rightarrow> (int \<times> bool) dbop" where
  "upsertConfig md5 now u =
     (let m = upsertMd5 md5 u;
          update = (\<lambda>existID.
             bindS (exec (\<lambda>t. (Inr (), t\<lparr>config_info := updateWhere (\<lambda>c. c_ID c = existID) (setConfig now m u) (config_info t)\<rparr>)))
               (\<lambda>_. bindS (insertHistory (upsertHistory now m u ''U'' existID)) (\<lambda>_. retS (existID, False))))
      in tryS (selectConfigId (cuKey u))
           (\<lambda>e. if e \<noteq> ErrNoRows then failS e
                else tryS (exec (insertConfigTab now m u))
                       (\<lambda>ierr. tryS (selectConfigId (cuKey u)) (\<lambda>_. failS ierr) update)
                       (\<lambda>i. bindS (insertHistory (upsertHistory now m u ''I'' i)) (\<lambda>_. retS (i, True))))
           update)"

definition deleteHistory :: "int \<Rightarrow> string \<Rightarrow> string \<Rightarrow> ConfigInfo \<Rightarrow> HistoryInfo" where
  "deleteHistory now srcUser srcIp c = \<lparr>h_Nid = 0, h_ID = c_ID c, h_DataId = c_DataId c, h_GroupId = c_GroupId c,
     h_AppName = c_AppName c, h_Content = c_Content c, h_Md5 = c_Md5 c, h_GmtCreate = now, h_GmtModified = now,
     h_SrcUser = srcUser, h_SrcIp = srcIp, h_OpType = ''D'', h_TenantId = c_TenantId c\<rparr>"

definition tagKey :: "TagRow \<Rightarrow> int \<times> string \<times> string" where
  "tagKey r = (t_id r, t_tag_name r, t_tag_type r)"

definition tagConfig :: "TagRow \<Rightarrow> config_key" where
  "tagConfig r = (t_data_id r, t_group_id r, t_tenant_id r)"

definition deleteConfig :: "int \<Rightarrow> string \<Rightarrow> string \<Rightarrow> string \<Rightarrow> string \<Rightarrow> string \<Rightarrow> bool dbop" where
  "deleteConfig now dataId grp tenant srcUser srcIp =
     bindS (getConfig dataId grp tenant)
       (\<lambda>found. case found of
          None \<Rightarrow> retS False
        | Some c \<Rightarrow>
            bindS (exec (\<lambda>t. (Inr (), t\<lparr>config_info := deleteWhere (\<lambda>c. configKey c = (dataId, grp, tenant)) (config_info t)\<rparr>)))
              (\<lambda>_. bindS (insertHistory (deleteHistory now srcUser srcIp c))
                 (\<lambda>_. bindS (exec (\<lambda>t. (Inr (), t\<lparr>config_tags_relation :=
                         deleteWhere (\<lambda>r. tagConfig r = (dataId, grp, tenant)) (config_tags_relation t)\<rparr>)))
                    (\<lambda>_. retS True))))"

record ListQuery =
  lq_TenantId :: string
  lq_DataId :: string
  lq_GroupId :: string
  lq_AppName :: string
  lq_Tag :: string
  lq_Accurate :: bool
  lq_PageNo :: int
  lq_PageSize :: int

definition textMatch :: "bool \<Rightarrow> string \<Rightarrow> string \<Rightarrow> bool" where
  "textMatch accurate q s \<longleftrightarrow> q = '''' \<or> (if accurate then s = q else blurMatch q s)"

definition configMatches :: "tables \<Rightarrow> ListQuery \<Rightarrow> ConfigInfo \<Rightarrow> bool" where
  "configMatches t q c \<longleftrightarrow>
     c_TenantId c = lq_TenantId q \<and> textMatch (lq_Accurate q) (lq_DataId q) (c_DataId c) \<and>
     textMatch (lq_Accurate q) (lq_GroupId q) (c_GroupId c) \<and> (lq_AppName q = '''' \<or> c_AppName c = lq_AppName q) \<and>
     (lq_Tag q = '''' \<or> list_ex (\<lambda>r. tagConfig r = configKey c \<and> t_tag_name r = lq_Tag q) (config_tags_relation t))"

definition listConfigs :: "ListQuery \<Rightarrow> (ConfigInfo list \<times> int) dbop" where
  "listConfigs q =
     bindS (query (\<lambda>t. countWhere (configMatches t q) (config_info t)))
       (\<lambda>cnt. let (pageNo, pageSize) = clampPage 100 (lq_PageNo q) (lq_PageSize q)
              in bindS (stmt (\<lambda>t. (limitOffset pageNo pageSize
                      (sliceStable (\<lambda>a b. c_ID b < c_ID a) (filter (configMatches t q) (config_info t))), t)))
                   (\<lambda>out. retS (out, cnt)))"

definition countConfigs :: "int dbop" where
  "countConfigs = query (\<lambda>t. int (length (config_info t)))"

subsection \<open>History\<close>

definition scanHistory :: "HistoryInfo \<Rightarrow> HistoryInfo" where
  "scanHistory h = h\<lparr>h_OpType := trimSpace (h_OpType h)\<rparr>"

record HistoryListQuery =
  hq_TenantId :: string
  hq_DataId :: string
  hq_GroupId :: string
  hq_Accurate :: bool
  hq_PageNo :: int
  hq_PageSize :: int

definition historyMatches :: "HistoryListQuery \<Rightarrow> HistoryInfo \<Rightarrow> bool" where
  "historyMatches q h \<longleftrightarrow>
     h_TenantId h = hq_TenantId q \<and> textMatch (hq_Accurate q) (hq_DataId q) (h_DataId h) \<and>
     textMatch (hq_Accurate q) (hq_GroupId q) (h_GroupId h)"

definition newestFirst :: "HistoryInfo list \<Rightarrow> HistoryInfo list" where
  "newestFirst hs = sliceStable (\<lambda>a b. h_Nid b < h_Nid a) hs"

definition listHistory :: "HistoryListQuery \<Rightarrow> (HistoryInfo list \<times> int) dbop" where
  "listHistory q =
     bindS (query (\<lambda>t. countWhere (historyMatches q) (his_config_info t)))
       (\<lambda>cnt. let (pageNo, pageSize) = clampPage 100 (hq_PageNo q) (hq_PageSize q)
              in bindS (stmt (\<lambda>t. (case limitOffset pageNo pageSize (newestFirst (filter (historyMatches q) (his_config_info t))) of
                                      Inl e \<Rightarrow> Inl e | Inr hs \<Rightarrow> Inr (map scanHistory hs), t)))
                   (\<lambda>out. retS (out, cnt)))"

definition getHistory :: "int \<Rightarrow> HistoryInfo option dbop" where
  "getHistory nid =
     tryS (queryRow (\<lambda>t. map scanHistory (filter (\<lambda>h. h_Nid h = nid) (his_config_info t))))
       (\<lambda>e. if e = ErrNoRows then retS None else failS e) (\<lambda>h. retS (Some h))"

definition getPreviousHistory :: "string \<Rightarrow> string \<Rightarrow> string \<Rightarrow> int \<Rightarrow> HistoryInfo option dbop" where
  "getPreviousHistory dataId grp tenant nid =
     tryS (queryRow (\<lambda>t. map scanHistory (take 1 (newestFirst
             (filter (\<lambda>h. histKey h = (dataId, grp, tenant) \<and> h_Nid h < nid) (his_config_info t))))))
       (\<lambda>e. if e = ErrNoRows then retS None else failS e) (\<lambda>h. retS (Some h))"

subsection \<open>Tags\<close>

fun insertTags :: "int \<Rightarrow> string \<Rightarrow> string \<Rightarrow> string \<Rightarrow> string list \<Rightarrow> unit dbop" where
  "insertTags i dataId grp tenant [] = retS ()"
| "insertTags i dataId grp tenant (tag0 # tags) =
     (let tag = trimSpace tag0
      in if tag = '''' then insertTags i dataId grp tenant tags
         else tryS (exec (\<lambda>t. let (r, rs) = insertUnique tagKey \<lparr>t_id = i, t_tag_name = tag, t_tag_type = ''text'',
                                     t_data_id = dataId, t_group_id = grp, t_tenant_id = tenant\<rparr> (config_tags_relation t)
                              in (r, t\<lparr>config_tags_relation := rs\<rparr>)))
                (\<lambda>e. failS (ErrMsg ''insert tag''))
                (\<lambda>_. insertTags i dataId grp tenant tags))"

definition replaceConfigTags :: "int \<Rightarrow> string \<Rightarrow> string \<Rightarrow> string \<Rightarrow> string list \<Rightarrow> unit dbop" where
  "replaceConfigTags i dataId grp tenant tags =
     bindS (exec (\<lambda>t. (Inr (), t\<lparr>config_tags_relation :=
             deleteWhere (\<lambda>r. t_id r = i \<and> t_tag_type r = ''text'') (config_tags_relation t)\<rparr>)))
       (\<lambda>_. insertTags i dataId grp tenant tags)"

subsection \<open>Namespaces\<close>

record Namespace =
  ns_NamespaceId :: string
  ns_Name :: string
  ns_Desc :: string
  ns_ConfigCount :: int

definition listNamespaces :: "Namespace list dbop" where
  "listNamespaces = query (\<lambda>t. map (\<lambda>n. \<lparr>ns_NamespaceId = n_NamespaceId n, ns_Name = n_Name n, ns_Desc = n_Desc n,
       ns_ConfigCount = countWhere (\<lambda>c. c_TenantId c = n_NamespaceId n) (config_info t)\<rparr>)
     (sliceStable (\<lambda>a b. n_id a < n_id b) (tenant_info t)))"

definition CreateNamespace :: "string \<Rightarrow> string \<Rightarrow> string \<Rightarrow> bool dbop" where
  "CreateNamespace i name desc =
     bindS (query (\<lambda>t. countWhere (\<lambda>n. n_NamespaceId n = i) (tenant_info t)))
       (\<lambda>n. if n > 0 then retS False
            else bindS (exec (\<lambda>t. let (r, rs) = insertUnique n_NamespaceId
                                        \<lparr>n_id = next_id t, n_NamespaceId = i, n_Name = name, n_Desc = desc\<rparr> (tenant_info t)
                                  in (r, t\<lparr>tenant_info := rs, next_id := next_id t + 1\<rparr>)))
                   (\<lambda>_. retS True))"

definition UpdateNamespace :: "string \<Rightarrow> string \<Rightarrow> string \<Rightarrow> unit dbop" where
  "UpdateNamespace i name desc =
     exec (\<lambda>t. (Inr (), t\<lparr>tenant_info := updateWhere (\<lambda>n. n_NamespaceId n = i) (\<lambda>n. n\<lparr>n_Name := name, n_Desc := desc\<rparr>) (tenant_info t)\<rparr>))"

definition deleteNamespace :: "string \<Rightarrow> (bool \<times> string) dbop" where
  "deleteNamespace i =
     bindS (query (\<lambda>t. countWhere (\<lambda>c. c_TenantId c = i) (config_info t)))
       (\<lambda>n. if n > 0 then retS (False, ''namespace has configs, delete them first'')
            else bindS (exec (\<lambda>t. (Inr (countWhere (\<lambda>r. n_NamespaceId r = i) (tenant_info t)),
                                  t\<lparr>tenant_info := deleteWhere (\<lambda>r. n_NamespaceId r = i) (tenant_info t)\<rparr>)))
                   (\<lambda>aff. retS (aff > 0, '''')))"

subsection \<open>What a publication and a deletion do\<close>

definition upsertSpec :: "(string \<Rightarrow> string) \<Rightarrow> int \<Rightarrow> ConfigUpsert \<Rightarrow> tables \<Rightarrow> tables" where
  "upsertSpec md5 now u t =
     (let m = upsertMd5 md5 u
      in case lookupBy configKey (config_info t) (cuKey u) of
           None \<Rightarrow> insertHistoryTab (upsertHistory now m u ''I'' (next_id t))
                     (t\<lparr>config_info := config_info t @ [newConfig now m u (next_id t)], next_id := next_id t + 1\<rparr>)
         | Some c \<Rightarrow> insertHistoryTab (upsertHistory now m u ''U'' (c_ID c))
                     (t\<lparr>config_info := updateWhere (\<lambda>c'. c_ID c' = c_ID c) (setConfig now m u) (config_info t)\<rparr>))"

definition deleteSpec :: "int \<Rightarrow> string \<Rightarrow> string \<Rightarrow> config_key \<Rightarrow> tables \<Rightarrow> tables" where
  "deleteSpec now srcUser srcIp k t =
     (case lookupBy configKey (config_info t) k of
        None \<Rightarrow> t
      | Some c \<Rightarrow>
          (let t1 = insertHistoryTab (deleteHistory now srcUser srcIp c) (t\<lparr>config_info := deleteWhere (\<lambda>c. configKey c = k) (config_info t)\<rparr>)
           in t1\<lparr>config_tags_relation := deleteWhere (\<lambda>r. tagConfig r = k) (config_tags_relation t1)\<rparr>))"

definition configOK :: "tables \<Rightarrow> bool" where
  "configOK t \<longleftrightarrow> uniqueBy configKey (config_info t) \<and> uniqueBy c_ID (config_info t) \<and> (\<forall>c\<in>set (config_info t). c_ID c < next_id t) \<and>
     sorted_wrt (<) (map h_Nid (his_config_info t)) \<and> (\<forall>h\<in>set (his_config_info t). h_Nid h < next_id t)"

interpretation configs: keyed_rows configKey "\<lambda>(now, m, u). setConfig now m u"
  by unfold_locales (simp add: configKey_def setConfig_def split: prod.split)

lemma configKey_simps [simp]:
  "configKey (newConfig now m u i) = cuKey u" "configKey (setConfig now m u c) = configKey c"
  "c_ID (setConfig now m u c) = c_ID c" "c_ID (newConfig now m u i) = i"
  "histKey (upsertHistory now m u op i) = cuKey u" "histKey (h\<lparr>h_Nid := n\<rparr>) = histKey h"
  "histKey (deleteHistory now su si c) = configKey c"
  by (simp_all add: configKey_def newConfig_def setConfig_def cuKey_def histKey_def upsertHistory_def deleteHistory_def)

lemma select_row:
  "configOK t \<Longrightarrow> filter (\<lambda>c. configKey c = k) (config_info t) = (case lookupBy configKey (config_info t) k of None \<Rightarrow> [] | Some c \<Rightarrow> [c])"
  by (simp add: configOK_def configs.filter_key)

lemma triple_selectConfigId:
  "triple (\<lambda>t. t = t0 \<and> configOK t0) (selectConfigId k)
     (\<lambda>r t. t = t0 \<and> configOK t0 \<and>
        (case r of Inr i \<Rightarrow> (\<exists>c. lookupBy configKey (config_info t0) k = Some c \<and> c_ID c = i)
                 | Inl e \<Rightarrow> e \<noteq> badConn \<longrightarrow> e = ErrNoRows \<and> lookupBy configKey (config_info t0) k = None))"
  unfolding selectConfigId_def queryRow_def
  by (rule triple_stmt_conn) (auto simp: select_row badConn_def split: option.split)

lemma triple_getConfig:
  "triple (\<lambda>t. t = t0 \<and> configOK t0) (getConfig dataId grp tenant)
     (\<lambda>r t. t = t0 \<and> configOK t0 \<and> (case r of Inr x \<Rightarrow> x = lookupBy configKey (config_info t0) (dataId, grp, tenant) | Inl _ \<Rightarrow> True))"
  unfolding getConfig_def
proof (rule triple_try [where R = "\<lambda>r t. t = t0 \<and> configOK t0 \<and>
    (case r of Inr c \<Rightarrow> lookupBy configKey (config_info t0) (dataId, grp, tenant) = Some c
             | Inl e \<Rightarrow> e = ErrNoRows \<longrightarrow> lookupBy configKey (config_info t0) (dataId, grp, tenant) = None)"])
  show "triple (\<lambda>t. t = t0 \<and> configOK t0) (queryRow (\<lambda>t. filter (\<lambda>c. configKey c = (dataId, grp, tenant)) (config_info t)))
    (\<lambda>r t. t = t0 \<and> configOK t0 \<and>
    (case r of Inr c \<Rightarrow> lookupBy configKey (config_info t0) (dataId, grp, tenant) = Some c
             | Inl e \<Rightarrow> e = ErrNoRows \<longrightarrow> lookupBy configKey (config_info t0) (dataId, grp, tenant) = None))"
    unfolding queryRow_def by (rule triple_stmt_conn) (auto simp: select_row badConn_def split: option.split)
qed (auto intro!: triple_if triple_ret triple_fail)

lemma insertUnique_new: "key r \<notin> key ` set rs \<Longrightarrow> insertUnique key r rs = (Inr (), rs @ [r])"
  by (simp add: insertUnique_def)

lemma triple_insertHistory:
  "triple (\<lambda>t. t = t0) (insertHistory h) (\<lambda>r t. case r of Inr _ \<Rightarrow> t = insertHistoryTab h t0 | Inl _ \<Rightarrow> True)"
  unfolding insertHistory_def exec_def by (rule triple_stmt) auto

lemma triple_update:
  assumes "\<And>t. t = t0 \<Longrightarrow> f t = (Inr (), t1)"
  shows "triple (\<lambda>t. t = t0) (bindS (exec f) (\<lambda>_. bindS (insertHistory h) (\<lambda>_. retS a)))
     (\<lambda>r t. case r of Inr b \<Rightarrow> b = a \<and> t = insertHistoryTab h t1 | Inl _ \<Rightarrow> True)"
proof (rule triple_bind [where R = "\<lambda>r t. case r of Inr _ \<Rightarrow> t = t1 | Inl _ \<Rightarrow> True"])
  show "triple (\<lambda>t. t = t0) (exec f) (\<lambda>r t. case r of Inr _ \<Rightarrow> t = t1 | Inl _ \<Rightarrow> True)"
    unfolding exec_def by (rule triple_stmt) (auto simp: assms)
  show "triple (\<lambda>t. case Inr x of Inr _ \<Rightarrow> t = t1 | Inl _ \<Rightarrow> True) (bindS (insertHistory h) (\<lambda>_. retS a))
     (\<lambda>r t. case r of Inr b \<Rightarrow> b = a \<and> t = insertHistoryTab h t1 | Inl _ \<Rightarrow> True)" for x :: unit
    by (simp, rule triple_bind [OF triple_insertHistory]) (auto intro!: triple_ret)
qed auto

lemma upsert_some:
  assumes "lookupBy configKey (config_info t0) (cuKey u) = Some c"
  shows "triple (\<lambda>t. t = t0)
     (bindS (exec (\<lambda>t. (Inr (), t\<lparr>config_info := updateWhere (\<lambda>c'. c_ID c' = c_ID c) (setConfig now (upsertMd5 md5 u) u) (config_info t)\<rparr>)))
               (\<lambda>_. bindS (insertHistory (upsertHistory now (upsertMd5 md5 u) u ''U'' (c_ID c))) (\<lambda>_. retS (c_ID c, False))))
     (\<lambda>r t. case r of Inr b \<Rightarrow> b = (c_ID c, False) \<and> t = upsertSpec md5 now u t0 | Inl _ \<Rightarrow> True)"
proof -
  have s: "upsertSpec md5 now u t0 = insertHistoryTab (upsertHistory now (upsertMd5 md5 u) u ''U'' (c_ID c))
      (t0\<lparr>config_info := updateWhere (\<lambda>c'. c_ID c' = c_ID c) (setConfig now (upsertMd5 md5 u) u) (config_info t0)\<rparr>)"
    using assms by (simp add: upsertSpec_def Let_def)
  show ?thesis unfolding s by (rule triple_update) simp
qed

text \<open>A publication that reports success did exactly what the specification says, whichever statements were
  lost on the way to an error.\<close>

lemma triple_upsertConfig:
  "triple (\<lambda>t. t = t0 \<and> configOK t0) (upsertConfig md5 now u)
     (\<lambda>r t. case r of Inr (i, created) \<Rightarrow> t = upsertSpec md5 now u t0 \<and> created = (lookupBy configKey (config_info t0) (cuKey u) = None)
                    | Inl _ \<Rightarrow> True)"
  unfolding upsertConfig_def Let_def
proof (rule triple_try [OF triple_selectConfigId], goal_cases)
  case (1 e)
  let ?m = "upsertMd5 md5 u"
  let ?Q = "\<lambda>r t. case r of Inr (i, created) \<Rightarrow> t = upsertSpec md5 now u t0 \<and> created = (lookupBy configKey (config_info t0) (cuKey u) = None)
                    | Inl _ \<Rightarrow> True"
  show ?case
  proof (rule triple_if)
    show "triple (\<lambda>t. t = t0 \<and> configOK t0 \<and> (case Inl e of Inr i \<Rightarrow> (\<exists>c. lookupBy configKey (config_info t0) (cuKey u) = Some c \<and> c_ID c = i)
                 | Inl e \<Rightarrow> e \<noteq> badConn \<longrightarrow> e = ErrNoRows \<and> lookupBy configKey (config_info t0) (cuKey u) = None)) (failS e) ?Q"
      by (rule triple_fail) simp
  next
    assume "\<not> e \<noteq> ErrNoRows"
    then have e: "e = ErrNoRows" by simp
    let ?P = "\<lambda>t. t = t0 \<and> configOK t0 \<and> lookupBy configKey (config_info t0) (cuKey u) = None"
    let ?t1 = "t0\<lparr>config_info := config_info t0 @ [newConfig now ?m u (next_id t0)], next_id := next_id t0 + 1\<rparr>"
    let ?R = "\<lambda>r t. lookupBy configKey (config_info t0) (cuKey u) = None \<and>
       (case r of Inr i \<Rightarrow> i = next_id t0 \<and> t = ?t1 | Inl (e::goerr) \<Rightarrow> t = t0 \<and> configOK t0)"
    have ins: "triple ?P (exec (insertConfigTab now ?m u)) ?R"
      unfolding exec_def
      by (rule triple_stmt) (auto simp: insertConfigTab_def insertUnique_new configs.lookup_None)
    have again: "triple (?R (Inl ierr)) (tryS (selectConfigId (cuKey u)) (\<lambda>_. failS ierr) k) ?Q" for ierr k
    proof (rule triple_pre)
      show "triple (\<lambda>t. t = t0 \<and> configOK t0 \<and> lookupBy configKey (config_info t0) (cuKey u) = None)
         (tryS (selectConfigId (cuKey u)) (\<lambda>_. failS ierr) k) ?Q"
      proof (cases "lookupBy configKey (config_info t0) (cuKey u) = None")
        case True
        then show ?thesis
          by (intro triple_try [OF triple_pre [OF triple_selectConfigId]]) (auto simp: triple_def failS_def)
      qed (auto simp: triple_def)
    qed auto
    have hist: "triple (?R (Inr i)) (bindS (insertHistory (upsertHistory now ?m u ''I'' i)) (\<lambda>_. retS (i, True))) ?Q" for i
    proof (cases "lookupBy configKey (config_info t0) (cuKey u) = None \<and> i = next_id t0")
      case True
      have "triple (\<lambda>t. t = ?t1) (bindS (insertHistory (upsertHistory now ?m u ''I'' i)) (\<lambda>_. retS (i, True))) ?Q"
        by (rule triple_bind [OF triple_insertHistory]) (use True in \<open>auto intro!: triple_ret simp: upsertSpec_def Let_def\<close>)
      then show ?thesis using True by (simp add: triple_def)
    qed (auto simp: triple_def)
    have "triple ?P (tryS (exec (insertConfigTab now ?m u))
        (\<lambda>ierr. tryS (selectConfigId (cuKey u)) (\<lambda>_. failS ierr)
           (\<lambda>existID. bindS (exec (\<lambda>t. (Inr (), t\<lparr>config_info := updateWhere (\<lambda>c. c_ID c = existID) (setConfig now ?m u) (config_info t)\<rparr>)))
               (\<lambda>_. bindS (insertHistory (upsertHistory now ?m u ''U'' existID)) (\<lambda>_. retS (existID, False)))))
        (\<lambda>i. bindS (insertHistory (upsertHistory now ?m u ''I'' i)) (\<lambda>_. retS (i, True)))) ?Q"
      by (rule triple_try [OF ins again hist])
    then show "triple (\<lambda>t. t = t0 \<and> configOK t0 \<and> (case Inl e of Inr i \<Rightarrow> (\<exists>c. lookupBy configKey (config_info t0) (cuKey u) = Some c \<and> c_ID c = i)
                 | Inl e \<Rightarrow> e \<noteq> badConn \<longrightarrow> e = ErrNoRows \<and> lookupBy configKey (config_info t0) (cuKey u) = None))
        (tryS (exec (insertConfigTab now ?m u))
        (\<lambda>ierr. tryS (selectConfigId (cuKey u)) (\<lambda>_. failS ierr)
           (\<lambda>existID. bindS (exec (\<lambda>t. (Inr (), t\<lparr>config_info := updateWhere (\<lambda>c. c_ID c = existID) (setConfig now ?m u) (config_info t)\<rparr>)))
               (\<lambda>_. bindS (insertHistory (upsertHistory now ?m u ''U'' existID)) (\<lambda>_. retS (existID, False)))))
        (\<lambda>i. bindS (insertHistory (upsertHistory now ?m u ''I'' i)) (\<lambda>_. retS (i, True)))) ?Q"
      by (rule triple_pre) (simp add: e badConn_def)
  qed
next
  case (2 existID)
  show ?case
  proof (cases "\<exists>c. lookupBy configKey (config_info t0) (cuKey u) = Some c \<and> c_ID c = existID")
    case True
    then obtain c where c: "lookupBy configKey (config_info t0) (cuKey u) = Some c" "c_ID c = existID" by blast
    show ?thesis unfolding c(2) [symmetric]
      by (rule triple_conseq [OF upsert_some [OF c(1), of now md5]]) (auto simp: c(1) split: sum.splits)
  qed (auto simp: triple_def)
qed

lemma triple_deleteConfig:
  "triple (\<lambda>t. t = t0 \<and> configOK t0) (deleteConfig now dataId grp tenant su si)
     (\<lambda>r t. case r of Inr b \<Rightarrow> t = deleteSpec now su si (dataId, grp, tenant) t0 \<and>
                              b = (lookupBy configKey (config_info t0) (dataId, grp, tenant) \<noteq> None)
                    | Inl _ \<Rightarrow> True)"
  unfolding deleteConfig_def
proof (rule triple_bind [OF triple_getConfig], goal_cases)
  case (2 found)
  let ?k = "(dataId, grp, tenant)"
  let ?Q = "\<lambda>r t. case r of Inr b \<Rightarrow> t = deleteSpec now su si ?k t0 \<and> b = (lookupBy configKey (config_info t0) ?k \<noteq> None) | Inl _ \<Rightarrow> True"
  show ?case
  proof (cases "found = lookupBy configKey (config_info t0) ?k")
    case f: True
    show ?thesis
    proof (cases found)
      case None
      then show ?thesis using f by (auto intro!: triple_ret simp: deleteSpec_def)
    next
      case (Some c)
      let ?t1 = "t0\<lparr>config_info := deleteWhere (\<lambda>c. configKey c = ?k) (config_info t0)\<rparr>"
      let ?t2 = "insertHistoryTab (deleteHistory now su si c) ?t1"
      let ?del = "\<lambda>t::tables. (Inr () :: goerr + unit, t\<lparr>config_tags_relation := deleteWhere (\<lambda>r. tagConfig r = ?k) (config_tags_relation t)\<rparr>)"
      have s: "deleteSpec now su si ?k t0 = ?t2\<lparr>config_tags_relation := deleteWhere (\<lambda>r. tagConfig r = ?k) (config_tags_relation ?t2)\<rparr>"
        using Some f by (simp add: deleteSpec_def Let_def)
      have 3: "triple (\<lambda>t. t = ?t2) (bindS (exec ?del) (\<lambda>_. retS True)) ?Q"
        by (rule triple_bind [where R = "\<lambda>r t. case r of Inr _ \<Rightarrow> t = deleteSpec now su si ?k t0 | Inl _ \<Rightarrow> True"])
          (use Some f in \<open>auto intro!: triple_ret triple_exec simp: s\<close>)
      have 2: "triple (\<lambda>t. t = ?t1) (bindS (insertHistory (deleteHistory now su si c)) (\<lambda>_. bindS (exec ?del) (\<lambda>_. retS True))) ?Q"
        by (rule triple_bind [OF triple_insertHistory]) (use 3 in auto)
      have 1: "triple (\<lambda>t. t = t0) (exec (\<lambda>t. (Inr (), t\<lparr>config_info := deleteWhere (\<lambda>c. configKey c = ?k) (config_info t)\<rparr>)))
          (\<lambda>r t. case r of Inr _ \<Rightarrow> t = ?t1 | Inl _ \<Rightarrow> True)"
        by (rule triple_exec) auto
      have "triple (\<lambda>t. t = t0) (bindS (exec (\<lambda>t. (Inr (), t\<lparr>config_info := deleteWhere (\<lambda>c. configKey c = ?k) (config_info t)\<rparr>)))
              (\<lambda>_. bindS (insertHistory (deleteHistory now su si c)) (\<lambda>_. bindS (exec ?del) (\<lambda>_. retS True)))) ?Q"
        by (rule triple_bind [OF 1]) (use 2 in auto)
      then show ?thesis unfolding Some option.case by (rule triple_pre) simp
    qed
  qed (auto simp: triple_def)
qed auto

subsection \<open>History follows the configurations\<close>

definition histOf :: "tables \<Rightarrow> config_key \<Rightarrow> HistoryInfo list" where
  "histOf t k = filter (\<lambda>h. histKey h = k) (his_config_info t)"

text \<open>The newest history entry of a configuration is its current content, and of a deleted one the deletion.\<close>

definition tracked :: "tables \<Rightarrow> config_key \<Rightarrow> bool" where
  "tracked t k \<longleftrightarrow>
     (case lookupBy configKey (config_info t) k of
        Some c \<Rightarrow> histOf t k \<noteq> [] \<and> h_Content (last (histOf t k)) = c_Content c \<and> h_Md5 (last (histOf t k)) = c_Md5 c \<and>
                  h_ID (last (histOf t k)) = c_ID c \<and> h_OpType (last (histOf t k)) \<in> {''I'', ''U''}
      | None \<Rightarrow> histOf t k = [] \<or> h_OpType (last (histOf t k)) = ''D'')"

definition wfConfig :: "tables \<Rightarrow> bool" where
  "wfConfig t \<longleftrightarrow> configOK t \<and> (\<forall>k. tracked t k)"

lemma histOf_insert: "histOf (insertHistoryTab h t) k = (if histKey h = k then histOf t k @ [h\<lparr>h_Nid := next_id t\<rparr>] else histOf t k)"
  by (simp add: histOf_def insertHistoryTab_def)

lemma histOf_config [simp]: "histOf (t\<lparr>config_info := cs\<rparr>) k = histOf t k" "histOf (t\<lparr>config_info := cs, next_id := n\<rparr>) k = histOf t k"
  "histOf (t\<lparr>config_tags_relation := ts\<rparr>) k = histOf t k"
  by (simp_all add: histOf_def)

lemma insertHistoryTab_sel [simp]:
  "config_info (insertHistoryTab h t) = config_info t" "next_id (insertHistoryTab h t) = next_id t + 1"
  "his_config_info (insertHistoryTab h t) = his_config_info t @ [h\<lparr>h_Nid := next_id t\<rparr>]"
  "config_tags_relation (insertHistoryTab h t) = config_tags_relation t" "tenant_info (insertHistoryTab h t) = tenant_info t"
  by (simp_all add: insertHistoryTab_def)

lemma configOK_hist: "configOK t \<Longrightarrow> configOK (insertHistoryTab h t)"
  by (auto simp: configOK_def sorted_wrt_append)

lemma configOK_update: "configOK t \<Longrightarrow> configOK (t\<lparr>config_info := updateWhere p (setConfig now m u) (config_info t)\<rparr>)"
  by (auto simp: configOK_def set_updateWhere uniqueBy_updateWhere)

lemma configOK_delete: "configOK t \<Longrightarrow> configOK (t\<lparr>config_info := deleteWhere p (config_info t)\<rparr>)"
  by (auto simp: configOK_def uniqueBy_deleteWhere)

lemma configOK_new:
  "configOK t \<Longrightarrow> lookupBy configKey (config_info t) (cuKey u) = None \<Longrightarrow>
   configOK (t\<lparr>config_info := config_info t @ [newConfig now m u (next_id t)], next_id := next_id t + 1\<rparr>)"
proof -
  assume ok: "configOK t" and n: "lookupBy configKey (config_info t) (cuKey u) = None"
  have "cuKey u \<notin> configKey ` set (config_info t)" using n by (simp add: configs.lookup_None)
  moreover have "next_id t \<notin> c_ID ` set (config_info t)" using ok by (force simp: configOK_def)
  ultimately show ?thesis using ok by (force simp: configOK_def uniqueBy_def)
qed

lemma lookup_set:
  assumes "configOK t" "lookupBy configKey (config_info t) k = Some c"
  shows "lookupBy configKey (updateWhere (\<lambda>c'. c_ID c' = c_ID c) (setConfig now m u) (config_info t)) k' =
    (if k' = k then Some (setConfig now m u c) else lookupBy configKey (config_info t) k')"
proof -
  have u: "uniqueBy c_ID (config_info t)" using assms(1) by (simp add: configOK_def)
  have c: "c \<in> set (config_info t)" "configKey c = k" using configs.lookup_Some [OF assms(2)] by auto
  note l = configs.lookup_update [of "\<lambda>c'. c_ID c' = c_ID c" "(now, m, u)" "config_info t" k', unfolded prod.case]
  show ?thesis
  proof (cases "lookupBy configKey (config_info t) k'")
    case None
    then have "k' \<noteq> k" using assms(2) by auto
    then show ?thesis using None l by simp
  next
    case (Some c')
    then have c': "c' \<in> set (config_info t)" "configKey c' = k'" using configs.lookup_Some by blast+
    show ?thesis
    proof (cases "k' = k")
      case True
      then show ?thesis using l assms(2) by simp
    next
      case False
      then have "c_ID c' \<noteq> c_ID c" using uniqueByD [OF u c'(1) c(1)] c(2) c'(2) by auto
      then show ?thesis using l Some False by simp
    qed
  qed
qed

lemma tracked_cong: "lookupBy configKey (config_info t') k = lookupBy configKey (config_info t) k \<Longrightarrow> histOf t' k = histOf t k \<Longrightarrow> tracked t' k = tracked t k"
  by (simp only: tracked_def)

lemma wfConfigD: "wfConfig t \<Longrightarrow> configOK t" "wfConfig t \<Longrightarrow> tracked t k"
  unfolding wfConfig_def by blast+

lemma upsertSpec_lookup:
  assumes "configOK t"
  shows "configOK (upsertSpec md5 now u t) \<and>
    (\<exists>c'. lookupBy configKey (config_info (upsertSpec md5 now u t)) = (lookupBy configKey (config_info t))(cuKey u \<mapsto> c') \<and>
       c_Content c' = cu_Content u \<and> c_Md5 c' = upsertMd5 md5 u \<and> c_Type c' = cu_Type u \<and>
       histOf (upsertSpec md5 now u t) = (histOf t)(cuKey u := histOf t (cuKey u) @
         [(upsertHistory now (upsertMd5 md5 u) u (if lookupBy configKey (config_info t) (cuKey u) = None then ''I'' else ''U'') (c_ID c'))
            \<lparr>h_Nid := next_id (upsertSpec md5 now u t) - 1\<rparr>]))"
proof (cases "lookupBy configKey (config_info t) (cuKey u)")
  case None
  let ?c = "newConfig now (upsertMd5 md5 u) u (next_id t)"
  have s: "upsertSpec md5 now u t = insertHistoryTab (upsertHistory now (upsertMd5 md5 u) u ''I'' (next_id t))
      (t\<lparr>config_info := config_info t @ [?c], next_id := next_id t + 1\<rparr>)"
    using None by (simp add: upsertSpec_def Let_def)
  have "lookupBy configKey (config_info t @ [?c]) = (lookupBy configKey (config_info t))(cuKey u \<mapsto> ?c)"
    using configs.lookup_snoc [of ?c "config_info t"] None by (simp add: configs.lookup_None)
  then show ?thesis using configOK_hist [OF configOK_new [OF assms None]] None
    unfolding s by (intro conjI exI [of _ ?c]) (auto simp: histOf_insert fun_eq_iff newConfig_def)
next
  case (Some c)
  let ?c = "setConfig now (upsertMd5 md5 u) u c"
  let ?cs = "updateWhere (\<lambda>c'. c_ID c' = c_ID c) (setConfig now (upsertMd5 md5 u) u) (config_info t)"
  have s: "upsertSpec md5 now u t = insertHistoryTab (upsertHistory now (upsertMd5 md5 u) u ''U'' (c_ID c)) (t\<lparr>config_info := ?cs\<rparr>)"
    using Some by (simp add: upsertSpec_def Let_def)
  have "lookupBy configKey ?cs = (lookupBy configKey (config_info t))(cuKey u \<mapsto> ?c)"
    using lookup_set [OF assms Some] by (auto simp: fun_eq_iff)
  then show ?thesis using configOK_hist [OF configOK_update [OF assms]] Some
    unfolding s by (intro conjI exI [of _ ?c]) (auto simp: histOf_insert fun_eq_iff setConfig_def)
qed

lemma wf_upsert: "wfConfig t \<Longrightarrow> wfConfig (upsertSpec md5 now u t)"
proof -
  assume wf: "wfConfig t"
  let ?t = "upsertSpec md5 now u t"
  obtain c' where c': "configOK ?t" "lookupBy configKey (config_info ?t) = (lookupBy configKey (config_info t))(cuKey u \<mapsto> c')"
     "c_Content c' = cu_Content u" "c_Md5 c' = upsertMd5 md5 u"
     "histOf ?t = (histOf t)(cuKey u := histOf t (cuKey u) @
         [(upsertHistory now (upsertMd5 md5 u) u (if lookupBy configKey (config_info t) (cuKey u) = None then ''I'' else ''U'') (c_ID c'))
            \<lparr>h_Nid := next_id ?t - 1\<rparr>])"
    using upsertSpec_lookup [of t md5 now u] wf unfolding wfConfig_def by blast
  have "tracked ?t k" for k
  proof (cases "k = cuKey u")
    case True
    then show ?thesis by (simp add: tracked_def c' upsertHistory_def)
  next
    case False
    then show ?thesis using wfConfigD(2) [OF wf, of k] tracked_cong [of ?t k t] by (simp add: c')
  qed
  then show ?thesis using c'(1) by (simp add: wfConfig_def)
qed

lemma deleteSpec_lookup:
  assumes "configOK t" "lookupBy configKey (config_info t) k = Some c"
  shows "configOK (deleteSpec now su si k t) \<and>
    lookupBy configKey (config_info (deleteSpec now su si k t)) = (lookupBy configKey (config_info t))(k := None) \<and>
    histOf (deleteSpec now su si k t) = (histOf t)(k := histOf t k @ [(deleteHistory now su si c)\<lparr>h_Nid := next_id t\<rparr>])"
proof -
  let ?cs = "deleteWhere (\<lambda>c. configKey c = k) (config_info t)"
  let ?t1 = "insertHistoryTab (deleteHistory now su si c) (t\<lparr>config_info := ?cs\<rparr>)"
  have s: "deleteSpec now su si k t = ?t1\<lparr>config_tags_relation := deleteWhere (\<lambda>r. tagConfig r = k) (config_tags_relation ?t1)\<rparr>"
    using assms(2) by (simp add: deleteSpec_def Let_def)
  have k: "configKey c = k" using configs.lookup_Some [OF assms(2)] by simp
  have "lookupBy configKey ?cs k' = ((lookupBy configKey (config_info t))(k := None)) k'" for k'
    using configs.lookup_delete [of "config_info t" "\<lambda>c. configKey c = k" k'] assms(1) configs.lookup_Some [of "config_info t" k']
    by (cases "lookupBy configKey (config_info t) k'") (auto simp: configOK_def)
  moreover have "configOK (?t1\<lparr>config_tags_relation := ts\<rparr>)" for ts
    using configOK_hist [OF configOK_delete [OF assms(1)], of "deleteHistory now su si c" "\<lambda>c. configKey c = k"] by (simp add: configOK_def)
  ultimately show ?thesis unfolding s by (auto simp: histOf_insert k fun_eq_iff)
qed

lemma wf_delete: "wfConfig t \<Longrightarrow> wfConfig (deleteSpec now su si k t)"
proof (cases "lookupBy configKey (config_info t) k")
  case None
  assume "wfConfig t"
  then show ?thesis using None by (simp add: deleteSpec_def)
next
  case (Some c)
  assume wf: "wfConfig t"
  let ?t = "deleteSpec now su si k t"
  have d: "configOK ?t" "lookupBy configKey (config_info ?t) = (lookupBy configKey (config_info t))(k := None)"
    "histOf ?t = (histOf t)(k := histOf t k @ [(deleteHistory now su si c)\<lparr>h_Nid := next_id t\<rparr>])"
    using deleteSpec_lookup [OF _ Some] wf by (auto simp: wfConfig_def)
  have "tracked ?t k'" for k'
  proof (cases "k' = k")
    case True
    then show ?thesis by (simp add: tracked_def d deleteHistory_def)
  next
    case False
    then show ?thesis using wfConfigD(2) [OF wf, of k'] tracked_cong [of ?t k' t] by (simp add: d)
  qed
  then show ?thesis using d(1) by (simp add: wfConfig_def)
qed

end
