(* ===== verification/ConfigOwner.thy ===== *)
theory ConfigOwner
  imports ConfigStore
begin

text \<open>
  Single-active ownership of the configuration tables (\<^verbatim>\<open>internal/storage/config_owner.go\<close>) and the fenced
  operations (\<^verbatim>\<open>config_facade.go\<close>).  The advisory lock, the session and the commit are answers of the database,
  collected in \<open>txEnv\<close>; a rolled back transaction undoes the four configuration tables and keeps consumed ids.
  Hooks registered with \<^verbatim>\<open>AfterConfigCommit\<close> are values: the notifications to send.
\<close>

subsection \<open>Owner\<close>

datatype hook = HookPublish config_key string | HookInvalidate config_key

definition ErrConfigInactive :: goerr where
  "ErrConfigInactive = ErrMsg ''configuration instance is not database-active''"

text \<open>\<^verbatim>\<open>configOwner\<close>: None before acquisition, otherwise whether the session has been lost.\<close>

record cnode =
  cn_lost :: "bool option"

definition lose :: "cnode \<Rightarrow> cnode" where
  "lose n = n\<lparr>cn_lost := map_option (\<lambda>_. True) (cn_lost n)\<rparr>"

record txEnv =
  te_cancelled :: bool
  te_owns :: bool
  te_begin :: bool
  te_ownsAtCommit :: bool
  te_commit :: bool
  te_applied :: bool

record txState =
  tx_db :: db
  tx_hooks :: "hook list"

definition liftTx :: "'a dbop \<Rightarrow> (txState, 'a) op" where
  "liftTx m s = (let (r, d) = m (tx_db s) in (r, s\<lparr>tx_db := d\<rparr>))"

definition AfterConfigCommit :: "hook \<Rightarrow> (txState, unit) op" where
  "AfterConfigCommit h s = (Inr (), s\<lparr>tx_hooks := tx_hooks s @ [h]\<rparr>)"

definition rollback :: "tables \<Rightarrow> tables \<Rightarrow> tables" where
  "rollback t0 t = t\<lparr>config_info := config_info t0, his_config_info := his_config_info t0,
     config_tags_relation := config_tags_relation t0, tenant_info := tenant_info t0\<rparr>"

definition rollbackDb :: "db \<Rightarrow> db \<Rightarrow> db" where
  "rollbackDb d0 d = d\<lparr>tabs := rollback (tabs d0) (tabs d)\<rparr>"

text \<open>\<^verbatim>\<open>WithConfigTransaction\<close> from outside a transaction: the result, the notifications that were sent, the owner and
  the database.  (Inside a transaction the code just runs \<^verbatim>\<open>fn\<close>.)\<close>

definition WithConfigTransaction :: "txEnv \<Rightarrow> (txState, 'a) op \<Rightarrow> cnode \<Rightarrow> db \<Rightarrow> (goerr + 'a) \<times> hook list \<times> cnode \<times> db" where
  "WithConfigTransaction env fn n d =
     (if te_cancelled env then (Inl (ErrMsg ''context canceled''), [], n, d)
      else if cn_lost n \<noteq> Some False then (Inl ErrConfigInactive, [], n, d)
      else if \<not> te_owns env then (Inl ErrConfigInactive, [], lose n, d)
      else if \<not> te_begin env then (Inl ErrConfigInactive, [], lose n, d)
      else (case fn \<lparr>tx_db = d, tx_hooks = []\<rparr> of
              (Inl e, s) \<Rightarrow> (Inl e, [], n, rollbackDb d (tx_db s))
            | (Inr a, s) \<Rightarrow>
                if \<not> te_ownsAtCommit env then (Inl ErrConfigInactive, [], lose n, rollbackDb d (tx_db s))
                else if \<not> te_commit env then
                  (Inl (ErrMsg ''config commit failed''), [], lose n, if te_applied env then tx_db s else rollbackDb d (tx_db s))
                else (Inr a, tx_hooks s, n, tx_db s)))"

text \<open>\<^verbatim>\<open>AcquireConfigOwnership\<close>: \<open>spare\<close> is whether the pool allows a second connection, \<open>granted\<close> whether the engine gave
  the advisory lock, \<open>transactional\<close> whether all four MySQL tables roll back.\<close>

definition AcquireConfigOwnership :: "txEnv \<Rightarrow> bool \<Rightarrow> bool \<Rightarrow> bool \<Rightarrow> cnode \<Rightarrow> db \<Rightarrow> (goerr + unit) \<times> cnode \<times> db" where
  "AcquireConfigOwnership env spare granted transactional n d =
     (case cn_lost n of
        Some True \<Rightarrow> (Inl ErrConfigInactive, n, d)
      | Some False \<Rightarrow> (let (r, _, n', d') = WithConfigTransaction env (retS ()) n d in (r, n', d'))
      | None \<Rightarrow>
          if \<not> spare then (Inl ErrConfigInactive, n, d)
          else if \<not> granted \<or> \<not> transactional then (Inl ErrConfigInactive, n, d)
          else (Inr (), n\<lparr>cn_lost := Some False\<rparr>, d))"

definition ReleaseConfigOwnership :: "cnode \<Rightarrow> cnode" where
  "ReleaseConfigOwnership n = lose n"

subsection \<open>Fenced operations\<close>

definition fenced :: "txEnv \<Rightarrow> 'a dbop \<Rightarrow> cnode \<Rightarrow> db \<Rightarrow> (goerr + 'a) \<times> hook list \<times> cnode \<times> db" where
  "fenced env m = WithConfigTransaction env (liftTx m)"

definition GetConfig :: "txEnv \<Rightarrow> string \<Rightarrow> string \<Rightarrow> string \<Rightarrow> cnode \<Rightarrow> db \<Rightarrow> (goerr + ConfigInfo option) \<times> hook list \<times> cnode \<times> db" where
  "GetConfig env dataId grp tenant = fenced env (getConfig dataId grp tenant)"

definition UpsertConfig :: "txEnv \<Rightarrow> (string \<Rightarrow> string) \<Rightarrow> int \<Rightarrow> ConfigUpsert \<Rightarrow> cnode \<Rightarrow> db \<Rightarrow> (goerr + int \<times> bool) \<times> hook list \<times> cnode \<times> db" where
  "UpsertConfig env md5 now u = fenced env (upsertConfig md5 now u)"

definition DeleteConfig :: "txEnv \<Rightarrow> int \<Rightarrow> string \<Rightarrow> string \<Rightarrow> string \<Rightarrow> string \<Rightarrow> string \<Rightarrow> cnode \<Rightarrow> db \<Rightarrow>
    (goerr + bool) \<times> hook list \<times> cnode \<times> db" where
  "DeleteConfig env now dataId grp tenant su si = fenced env (deleteConfig now dataId grp tenant su si)"

definition ListConfigs :: "txEnv \<Rightarrow> ListQuery \<Rightarrow> cnode \<Rightarrow> db \<Rightarrow> (goerr + ConfigInfo list \<times> int) \<times> hook list \<times> cnode \<times> db" where
  "ListConfigs env q = fenced env (listConfigs q)"

definition ListHistory :: "txEnv \<Rightarrow> HistoryListQuery \<Rightarrow> cnode \<Rightarrow> db \<Rightarrow> (goerr + HistoryInfo list \<times> int) \<times> hook list \<times> cnode \<times> db" where
  "ListHistory env q = fenced env (listHistory q)"

definition GetHistory :: "txEnv \<Rightarrow> int \<Rightarrow> cnode \<Rightarrow> db \<Rightarrow> (goerr + HistoryInfo option) \<times> hook list \<times> cnode \<times> db" where
  "GetHistory env nid = fenced env (getHistory nid)"

definition GetPreviousHistory :: "txEnv \<Rightarrow> string \<Rightarrow> string \<Rightarrow> string \<Rightarrow> int \<Rightarrow> cnode \<Rightarrow> db \<Rightarrow>
    (goerr + HistoryInfo option) \<times> hook list \<times> cnode \<times> db" where
  "GetPreviousHistory env dataId grp tenant nid = fenced env (getPreviousHistory dataId grp tenant nid)"

definition ReplaceConfigTags :: "txEnv \<Rightarrow> int \<Rightarrow> string \<Rightarrow> string \<Rightarrow> string \<Rightarrow> string list \<Rightarrow> cnode \<Rightarrow> db \<Rightarrow>
    (goerr + unit) \<times> hook list \<times> cnode \<times> db" where
  "ReplaceConfigTags env i dataId grp tenant tags = fenced env (replaceConfigTags i dataId grp tenant tags)"

definition CountConfigs :: "txEnv \<Rightarrow> cnode \<Rightarrow> db \<Rightarrow> (goerr + int) \<times> hook list \<times> cnode \<times> db" where
  "CountConfigs env = fenced env countConfigs"

definition configMD5Index :: "(config_key \<times> string) list dbop" where
  "configMD5Index = query (\<lambda>t. map (\<lambda>c. (configKey c, c_Md5 c)) (config_info t))"

definition ConfigMD5Index :: "txEnv \<Rightarrow> cnode \<Rightarrow> db \<Rightarrow> (goerr + (config_key \<times> string) list) \<times> hook list \<times> cnode \<times> db" where
  "ConfigMD5Index env = fenced env configMD5Index"

definition configMD5 :: "config_key \<Rightarrow> string dbop" where
  "configMD5 k =
     tryS (queryRow (\<lambda>t. map c_Md5 (filter (\<lambda>c. configKey c = k) (config_info t))))
       (\<lambda>e. if e = ErrNoRows then retS '''' else failS e) retS"

definition ConfigMD5 :: "txEnv \<Rightarrow> config_key \<Rightarrow> cnode \<Rightarrow> db \<Rightarrow> (goerr + string) \<times> hook list \<times> cnode \<times> db" where
  "ConfigMD5 env k = fenced env (configMD5 k)"

definition ListNamespaces :: "txEnv \<Rightarrow> cnode \<Rightarrow> db \<Rightarrow> (goerr + Namespace list) \<times> hook list \<times> cnode \<times> db" where
  "ListNamespaces env = fenced env listNamespaces"

definition DeleteNamespace :: "txEnv \<Rightarrow> string \<Rightarrow> cnode \<Rightarrow> db \<Rightarrow> (goerr + bool \<times> string) \<times> hook list \<times> cnode \<times> db" where
  "DeleteNamespace env i = fenced env (deleteNamespace i)"

subsection \<open>Transactions\<close>

lemma lost_is_final:
  assumes "cn_lost n = Some True"
  shows "\<exists>e. WithConfigTransaction env fn n d = (Inl e, [], n, d)"
  using assms by (simp add: WithConfigTransaction_def)

lemma alone_rely: "alone es \<Longrightarrow> rely P es"
  by (auto simp: alone_def rely_def)

lemma next_id_mono_exec:
  assumes "\<And>t. next_id t \<le> next_id (snd (f t))"
  shows "preserves (dbinv (\<lambda>t. n \<le> next_id t)) (exec f)"
  by (rule preserves_exec) (use assms order_trans in blast)

lemma next_id_insertHistory: "preserves (dbinv (\<lambda>t. n \<le> next_id t)) (insertHistory h)"
  unfolding insertHistory_def by (rule next_id_mono_exec) simp

lemma next_id_upsert: "preserves (dbinv (\<lambda>t. n \<le> next_id t)) (upsertConfig md5 now u)"
  unfolding upsertConfig_def Let_def selectConfigId_def
  by (intro pres_intros next_id_insertHistory next_id_mono_exec)
    (auto simp: insertConfigTab_def split: sum.split prod.split)

lemma next_id_delete: "preserves (dbinv (\<lambda>t. n \<le> next_id t)) (deleteConfig now dataId grp tenant su si)"
  unfolding deleteConfig_def getConfig_def
  by (intro pres_intros next_id_insertHistory next_id_mono_exec) simp_all

lemma next_id_tags: "preserves (dbinv (\<lambda>t. n \<le> next_id t)) (insertTags i dataId grp tenant tags)"
  by (induction tags) (auto simp: Let_def split: prod.split intro!: pres_intros next_id_mono_exec)

lemma next_id_retag: "preserves (dbinv (\<lambda>t. n \<le> next_id t)) (replaceConfigTags i dataId grp tenant tags)"
  unfolding replaceConfigTags_def by (intro pres_intros next_id_tags next_id_mono_exec) simp

lemma next_id_delNs: "preserves (dbinv (\<lambda>t. n \<le> next_id t)) (deleteNamespace i)"
  unfolding deleteNamespace_def by (intro pres_intros next_id_mono_exec) simp

lemma grows:
  assumes "preserves (dbinv (\<lambda>t. next_id (tabs d) \<le> next_id t)) m" "alone (script d)"
  shows "next_id (tabs d) \<le> next_id (tabs (snd (m d)))"
  using preservesD [OF assms(1), of d] assms(2) by (simp add: dbinv_def alone_rely)

lemma wf_rollback: "wfConfig t0 \<Longrightarrow> next_id t0 \<le> next_id t \<Longrightarrow> wfConfig (rollback t0 t)"
proof -
  assume wf: "wfConfig t0" and le: "next_id t0 \<le> next_id t"
  have s: "config_info (rollback t0 t) = config_info t0" "his_config_info (rollback t0 t) = his_config_info t0" "next_id (rollback t0 t) = next_id t"
    by (simp_all add: rollback_def)
  have "configOK (rollback t0 t)" using wfConfigD(1) [OF wf] le unfolding configOK_def s by (meson less_le_trans)
  moreover have "tracked (rollback t0 t) k" for k
    using wfConfigD(2) [OF wf, of k] tracked_cong [of "rollback t0 t" k t0] by (simp add: s histOf_def)
  ultimately show ?thesis unfolding wfConfig_def by blast
qed

text \<open>What a fenced operation leaves behind: what the operation did when it succeeded, and otherwise the configuration
  tables as they were, unless the commit itself was lost after the engine had applied it.\<close>

lemma fenced_cases:
  assumes "fenced env m n d = (r, hooks, n', d')"
  obtains (refused) e where "r = Inl e" "hooks = []" "d' = d"
  | (failed) e where "r = Inl e" "hooks = []" "d' = rollbackDb d (snd (m d))"
  | (unsure) a where "fst (m d) = Inr a" "r = Inl (ErrMsg ''config commit failed'')" "hooks = []" "\<not> te_commit env" "te_applied env" "d' = snd (m d)"
  | (committed) a where "fst (m d) = Inr a" "r = Inr a" "hooks = []" "n' = n" "d' = snd (m d)"
proof -
  obtain x d1 where m: "m d = (x, d1)" by force
  show thesis
    using assms that m
    by (cases x) (auto simp: fenced_def WithConfigTransaction_def liftTx_def split: if_splits)
qed

lemma rollbackDb_sel [simp]: "tabs (rollbackDb d0 d) = rollback (tabs d0) (tabs d)" "script (rollbackDb d0 d) = script d"
  by (simp_all add: rollbackDb_def)

locale fenced_op =
  fixes m :: "'a dbop" and spec :: "tables \<Rightarrow> tables"
  assumes m_spec: "triple (\<lambda>t. t = t0 \<and> wfConfig t0) m (\<lambda>r t. case r of Inr _ \<Rightarrow> t = spec t0 | Inl _ \<Rightarrow> True)"
    and m_grows: "preserves (dbinv (\<lambda>t. n \<le> next_id t)) m"
    and spec_wf: "wfConfig t \<Longrightarrow> wfConfig (spec t)"
begin

lemma result:
  assumes "alone (script d)" "wfConfig (tabs d)" "m d = (r, d1)"
  shows "alone (script d1) \<and> next_id (tabs d) \<le> next_id (tabs d1) \<and> (case r of Inr _ \<Rightarrow> tabs d1 = spec (tabs d) | Inl _ \<Rightarrow> True)"
  using tripleD [OF m_spec [of "tabs d"] assms(1) _ assms(3)] grows [OF m_grows assms(1)] assms(2,3) by auto

lemma all_or_nothing:
  assumes "fenced env m n d = (r, hooks, n', d')" "alone (script d)" "wfConfig (tabs d)"
  shows "alone (script d') \<and> wfConfig (tabs d') \<and> hooks = [] \<and>
    (case r of Inr _ \<Rightarrow> tabs d' = spec (tabs d)
             | Inl _ \<Rightarrow> rollback (tabs d) (tabs d') = tabs d' \<or> (\<not> te_commit env \<and> te_applied env \<and> tabs d' = spec (tabs d)))"
proof -
  obtain x d1 where m: "m d = (x, d1)" by force
  note res = result [OF assms(2,3) m]
  have wf1: "wfConfig (spec (tabs d))" using spec_wf [OF assms(3)] .
  from assms(1) show ?thesis
  proof (cases rule: fenced_cases)
    case (refused e)
    then show ?thesis using assms(2,3) by (simp add: rollback_def)
  next
    case (failed e)
    then show ?thesis using res m wf_rollback [OF assms(3), of "tabs d1"] by (simp add: rollback_def)
  next
    case (unsure a)
    then show ?thesis using res m wf1 by simp
  next
    case (committed a)
    then show ?thesis using res m wf1 by simp
  qed
qed

end

lemma wf_configOK: "wfConfig t \<Longrightarrow> configOK t"
  by (simp add: wfConfig_def)

interpretation put: fenced_op "upsertConfig md5 now u" "upsertSpec md5 now u"
  by unfold_locales
    (auto intro: triple_conseq [OF triple_upsertConfig] wf_configOK next_id_upsert wf_upsert split: sum.splits)

interpretation del: fenced_op "deleteConfig now dataId grp tenant su si" "deleteSpec now su si (dataId, grp, tenant)"
  by unfold_locales
    (auto intro: triple_conseq [OF triple_deleteConfig] wf_configOK next_id_delete wf_delete split: sum.splits)

subsection \<open>Reads\<close>

lemma insStable_last: "\<forall>y\<in>set ys. lt y x \<Longrightarrow> insStable lt x ys = ys @ [x]"
  by (induction ys) auto

lemma newestFirst_rev: "sorted_wrt (<) (map h_Nid hs) \<Longrightarrow> newestFirst hs = rev hs"
  by (induction hs) (auto simp: newestFirst_def insStable_last)

lemma previous_row:
  assumes "configOK t" "histOf t k = hs @ [h, h']"
  shows "take 1 (newestFirst (filter (\<lambda>x. histKey x = k \<and> h_Nid x < h_Nid h') (his_config_info t))) = [h]"
proof -
  have s: "sorted_wrt (<) (map h_Nid (histOf t k))"
    using assms(1) by (auto simp: configOK_def histOf_def sorted_wrt_map sorted_wrt_filter)
  have "filter (\<lambda>x. histKey x = k \<and> h_Nid x < h_Nid h') (his_config_info t) = filter (\<lambda>x. h_Nid x < h_Nid h') (histOf t k)"
    by (simp add: histOf_def conj_commute)
  also have "\<dots> = hs @ [h]" using s unfolding assms(2) by (auto simp: sorted_wrt_append filter_id_conv)
  finally show ?thesis using s unfolding assms(2) by (simp add: newestFirst_rev sorted_wrt_append)
qed

text \<open>A read through the fence leaves the tables alone and answers from them.\<close>

lemma fenced_read:
  assumes "fenced env m n d = (Inr a, hooks, n', d')" "alone (script d)"
    and "triple (\<lambda>t. t = tabs d) m (\<lambda>r t. case r of Inr b \<Rightarrow> P b \<and> t = tabs d | Inl _ \<Rightarrow> True)"
  shows "P a \<and> tabs d' = tabs d \<and> alone (script d')"
proof -
  obtain x d1 where m: "m d = (x, d1)" by force
  from assms(1) show ?thesis
    by (cases rule: fenced_cases) (use tripleD [OF assms(3,2) _ m] m in auto)
qed

lemma triple_previous:
  assumes "configOK t0" "histOf t0 (dataId, grp, tenant) = hs @ [h, h']"
  shows "triple (\<lambda>t. t = t0) (getPreviousHistory dataId grp tenant (h_Nid h'))
    (\<lambda>r t. case r of Inr b \<Rightarrow> b = Some (scanHistory h) \<and> t = t0 | Inl _ \<Rightarrow> True)"
  unfolding getPreviousHistory_def
proof (rule triple_try [where R = "\<lambda>r t. t = t0 \<and> (case r of Inr b \<Rightarrow> b = scanHistory h | Inl e \<Rightarrow> e = badConn)"])
  show "triple (\<lambda>t. t = t0) (queryRow (\<lambda>t. map scanHistory (take 1 (newestFirst
          (filter (\<lambda>x. histKey x = (dataId, grp, tenant) \<and> h_Nid x < h_Nid h') (his_config_info t))))))
     (\<lambda>r t. t = t0 \<and> (case r of Inr b \<Rightarrow> b = scanHistory h | Inl e \<Rightarrow> e = badConn))"
    unfolding queryRow_def by (rule triple_stmt_conn) (simp_all add: previous_row [OF assms, simplified])
qed (auto simp: badConn_def triple_def retS_def failS_def)

subsection \<open>Sequences of operations\<close>

text \<open>The configuration operations a node performs, one after the other.\<close>

datatype configOp =
    OpAcquire txEnv bool bool bool
  | OpPublish txEnv int ConfigUpsert
  | OpRemove txEnv int string string string string string
  | OpRetag txEnv int string string string "string list"
  | OpDropNs txEnv string
  | OpLose

fun configStep :: "(string \<Rightarrow> string) \<Rightarrow> configOp \<Rightarrow> cnode \<times> db \<Rightarrow> cnode \<times> db" where
  "configStep md5 (OpAcquire env spare granted transactional) (n, d) = snd (AcquireConfigOwnership env spare granted transactional n d)"
| "configStep md5 (OpPublish env now u) (n, d) = snd (snd (UpsertConfig env md5 now u n d))"
| "configStep md5 (OpRemove env now dataId grp tenant su si) (n, d) = snd (snd (DeleteConfig env now dataId grp tenant su si n d))"
| "configStep md5 (OpRetag env i dataId grp tenant tags) (n, d) = snd (snd (ReplaceConfigTags env i dataId grp tenant tags n d))"
| "configStep md5 (OpDropNs env i) (n, d) = snd (snd (DeleteNamespace env i n d))"
| "configStep md5 OpLose (n, d) = (ReleaseConfigOwnership n, d)"

definition runConfig :: "(string \<Rightarrow> string) \<Rightarrow> configOp list \<Rightarrow> cnode \<times> db \<Rightarrow> cnode \<times> db" where
  "runConfig md5 ops s = fold (configStep md5) ops s"

definition goodState :: "cnode \<times> db \<Rightarrow> bool" where
  "goodState s \<longleftrightarrow> alone (script (snd s)) \<and> wfConfig (tabs (snd s))"

lemma wfConfig_frame:
  "config_info t' = config_info t \<Longrightarrow> his_config_info t' = his_config_info t \<Longrightarrow> next_id t \<le> next_id t' \<Longrightarrow> wfConfig t \<Longrightarrow> wfConfig t'"
proof -
  assume s: "config_info t' = config_info t" "his_config_info t' = his_config_info t" "next_id t \<le> next_id t'" "wfConfig t"
  have "configOK t'" using wfConfigD(1) [OF s(4)] s(3) unfolding configOK_def s(1,2) by (meson less_le_trans)
  moreover have "tracked t' k" for k
    using wfConfigD(2) [OF s(4), of k] tracked_cong [of t' k t] by (simp add: s(1,2) histOf_def)
  ultimately show ?thesis unfolding wfConfig_def by blast
qed

definition frame :: "tables \<Rightarrow> tables \<Rightarrow> bool" where
  "frame t t' \<longleftrightarrow> config_info t' = config_info t \<and> his_config_info t' = his_config_info t \<and> next_id t \<le> next_id t'"

lemma frame_simps [simp]: "frame t0 (t\<lparr>config_tags_relation := ts\<rparr>) = frame t0 t" "frame t0 (t\<lparr>tenant_info := ns\<rparr>) = frame t0 t"
  by (simp_all add: frame_def)

lemma frame_exec: "(\<And>t. frame t0 t \<Longrightarrow> frame t0 (snd (f t))) \<Longrightarrow> triple (frame t0) (exec f) (\<lambda>_. frame t0)"
  by (rule triple_exec) auto

lemma frame_tags: "triple (frame t0) (insertTags i dataId grp tenant tags) (\<lambda>_. frame t0)"
  by (induction tags)
    (auto simp: Let_def split: prod.split intro!: triple_ret triple_fail triple_try [where R = "\<lambda>_. frame t0"] frame_exec)

lemma frame_retag: "triple (frame t0) (replaceConfigTags i dataId grp tenant tags) (\<lambda>_. frame t0)"
  unfolding replaceConfigTags_def
  by (rule triple_bind [where R = "\<lambda>_. frame t0"]) (auto intro!: frame_exec frame_tags)

lemma frame_delNs: "triple (frame t0) (deleteNamespace i) (\<lambda>_. frame t0)"
  unfolding deleteNamespace_def
  by (auto intro!: triple_if triple_ret triple_query frame_exec triple_bind [where R = "\<lambda>_. frame t0"])

lemma good_frame:
  assumes "triple (frame (tabs d)) m (\<lambda>_. frame (tabs d))" "goodState (n, d)"
  shows "goodState (snd (snd (fenced env m n d)))"
proof -
  obtain x d1 where m: "m d = (x, d1)" by force
  have d1: "alone (script d1)" "frame (tabs d) (tabs d1)"
    using tripleD [OF assms(1) _ _ m] assms(2) by (auto simp: goodState_def frame_def)
  have "wfConfig (tabs d1)" "wfConfig (rollback (tabs d) (tabs d1))"
    using d1(2) assms(2) wfConfig_frame [of "tabs d1" "tabs d"] wf_rollback [of "tabs d" "tabs d1"] by (auto simp: goodState_def frame_def)
  moreover obtain r hooks n' d' where f: "fenced env m n d = (r, hooks, n', d')" by (metis prod_cases4)
  ultimately show ?thesis using assms(2) d1(1) m
    by (cases rule: fenced_cases [OF f]) (auto simp: goodState_def f)
qed

context fenced_op
begin

lemma good: "goodState (n, d) \<Longrightarrow> goodState (snd (snd (fenced env m n d)))"
  using all_or_nothing [of env n d] by (cases "fenced env m n d") (auto simp: goodState_def)

end

lemma good_acquire: "goodState (n, d) \<Longrightarrow> goodState (snd (AcquireConfigOwnership env spare granted transactional n d))"
  using wf_rollback [of "tabs d" "tabs d"]
  by (auto simp: AcquireConfigOwnership_def WithConfigTransaction_def retS_def goodState_def rollback_def
      split: option.split bool.split prod.split if_splits)

lemma good_step: "goodState s \<Longrightarrow> goodState (configStep md5 a s)"
proof (cases s)
  case (Pair n d)
  assume g: "goodState s"
  then have "goodState (n', d)" for n' using Pair by (simp add: goodState_def)
  note gs = this good_acquire
  from gs show ?thesis unfolding Pair
    by (cases a)
      (auto simp: UpsertConfig_def DeleteConfig_def ReplaceConfigTags_def DeleteNamespace_def ReleaseConfigOwnership_def
        intro!: put.good del.good good_frame frame_retag frame_delNs)
qed

lemma good_run: "goodState s \<Longrightarrow> goodState (runConfig md5 ops s)"
  unfolding runConfig_def by (induction ops arbitrary: s) (simp_all add: good_step)

lemma lost_step: "cn_lost n = Some True \<Longrightarrow> configStep md5 a (n, d) = (n, d)"
  by (cases a)
    (simp_all add: AcquireConfigOwnership_def UpsertConfig_def DeleteConfig_def ReplaceConfigTags_def DeleteNamespace_def
      ReleaseConfigOwnership_def lose_def fenced_def WithConfigTransaction_def)

lemma lost_run: "cn_lost n = Some True \<Longrightarrow> fold (configStep md5) ops (n, d) = (n, d)"
  by (induction ops) (simp_all add: lost_step)

lemma put_result:
  assumes "UpsertConfig env md5 now u n d = (Inr r, hooks, n', d')" "goodState (n, d)"
  shows "goodState (n', d') \<and> tabs d' = upsertSpec md5 now u (tabs d)"
  using put.all_or_nothing [OF assms(1) [unfolded UpsertConfig_def]] assms(2) by (auto simp: goodState_def)

lemma upsert_effect:
  assumes "configOK t" "t' = upsertSpec md5 now u t"
  obtains c h where "lookupBy configKey (config_info t') = (lookupBy configKey (config_info t))(cuKey u \<mapsto> c)"
    "c_Content c = cu_Content u" "c_Md5 c = upsertMd5 md5 u"
    "histOf t' = (histOf t)(cuKey u := histOf t (cuKey u) @ [h])" "h_Content h = cu_Content u" "h_Md5 h = upsertMd5 md5 u"
proof -
  have "h_Content ((upsertHistory now m u op i)\<lparr>h_Nid := n\<rparr>) = cu_Content u" "h_Md5 ((upsertHistory now m u op i)\<lparr>h_Nid := n\<rparr>) = m" for m op i n
    by (simp_all add: upsertHistory_def)
  then show thesis using upsertSpec_lookup [OF assms(1), of md5 now u] that unfolding assms(2) by blast
qed

subsection \<open>Properties\<close>

text \<open>A publication is all or nothing.  From tables in which every configuration agrees with its newest history
  entry, \<^verbatim>\<open>UpsertConfig\<close> keeps that agreement on every path; when it succeeds exactly the published key maps to the
  published content, every other key is as before and one history entry was appended; when it reports an error the four
  configuration tables are as before, with the single exception of a commit whose answer was lost after it was applied.\<close>

theorem publish_all_or_nothing:
  assumes "UpsertConfig env md5 now u n d = (r, hooks, n', d')" "alone (script d)" "wfConfig (tabs d)"
  shows "wfConfig (tabs d') \<and>
    (case r of
       Inr _ \<Rightarrow> (\<exists>c h. lookupBy configKey (config_info (tabs d')) = (lookupBy configKey (config_info (tabs d)))(cuKey u \<mapsto> c) \<and>
                      c_Content c = cu_Content u \<and> c_Md5 c = upsertMd5 md5 u \<and>
                      histOf (tabs d') = (histOf (tabs d))(cuKey u := histOf (tabs d) (cuKey u) @ [h]) \<and> h_Content h = cu_Content u)
     | Inl _ \<Rightarrow> rollback (tabs d) (tabs d') = tabs d' \<or>
               (\<not> te_commit env \<and> te_applied env \<and> tabs d' = upsertSpec md5 now u (tabs d)))"
proof -
  note res = put.all_or_nothing [OF assms(1) [unfolded UpsertConfig_def] assms(2,3)]
  show ?thesis
  proof (cases r)
    case (Inr a)
    then have t: "tabs d' = upsertSpec md5 now u (tabs d)" "wfConfig (tabs d')" using res by auto
    then show ?thesis unfolding Inr sum.case by (metis upsert_effect [OF wfConfigD(1) [OF assms(3)] t(1)])
  qed (use res in auto)
qed

definition demoEnv :: txEnv where
  "demoEnv = \<lparr>te_cancelled = False, te_owns = True, te_begin = True, te_ownsAtCommit = True, te_commit = True, te_applied = True\<rparr>"

definition demoUpsert :: "string \<Rightarrow> ConfigUpsert" where
  "demoUpsert c = \<lparr>cu_DataId = ''app.yml'', cu_GroupId = ''G'', cu_TenantId = '''', cu_Content = c, cu_SrcUser = '''', cu_SrcIp = '''',
     cu_AppName = '''', cu_Type = ''yaml'', cu_CDesc = '''', cu_CUse = '''', cu_Effect = '''', cu_CSchema = '''', cu_ConfigMD5 = ''''\<rparr>"

definition demoDb :: db where
  "demoDb = \<lparr>tabs = empty_tables, script = []\<rparr>"

definition demoNode :: cnode where
  "demoNode = \<lparr>cn_lost = Some False\<rparr>"

lemma demo_good: "goodState (n, demoDb)"
  by (simp add: goodState_def demoDb_def alone_def wfConfig_def configOK_def tracked_def histOf_def empty_tables_def lookupBy_def)

theorem publish_all_or_nothing_witness:
  "\<exists>r hooks n' d'. UpsertConfig demoEnv (\<lambda>s. s) 7 (demoUpsert ''a: 1'') demoNode demoDb = (r, hooks, n', d') \<and> wfConfig (tabs d')"
proof -
  obtain r hooks n' d' where r: "UpsertConfig demoEnv (\<lambda>s. s) 7 (demoUpsert ''a: 1'') demoNode demoDb = (r, hooks, n', d')"
    by (metis prod_cases4)
  then show ?thesis using publish_all_or_nothing [OF r] demo_good by (auto simp: goodState_def)
qed

text \<open>C8. Whatever a node does - acquire ownership, publish, delete, retag, drop a namespace, lose its session, each with
  any failure of the database on the way - the newest history entry of every configuration holds its current content and
  digest, and that of a deleted configuration is the deletion.\<close>

theorem config_history_tracks:
  assumes "goodState s"
  shows "wfConfig (tabs (snd (runConfig md5 ops s))) \<and> tracked (tabs (snd (runConfig md5 ops s))) k"
  using good_run [OF assms, of md5 ops] wfConfigD by (auto simp: goodState_def)

theorem config_history_tracks_witness:
  "tracked (tabs (snd (runConfig (\<lambda>s. s) [OpPublish demoEnv 1 (demoUpsert ''a''), OpPublish demoEnv 2 (demoUpsert ''b''),
     OpRemove demoEnv 3 ''app.yml'' ''G'' '''' '''' ''''] (demoNode, demoDb)))) (''app.yml'', ''G'', '''')"
  using config_history_tracks [OF demo_good] by blast

text \<open>A roll back finds what it needs: after two successful publications of the same key, \<^verbatim>\<open>GetPreviousHistory\<close> below
  the newest entry returns the first content, and \<^verbatim>\<open>GetConfig\<close> the second, whatever nodes read them.\<close>

theorem revert_finds_previous:
  assumes "goodState (n, d)" "cuKey u = (dataId, grp, tenant)" "cuKey u' = (dataId, grp, tenant)"
    and "UpsertConfig env md5 now u n d = (Inr r, hk, n1, d1)" "UpsertConfig env' md5 now' u' n1 d1 = (Inr r', hk', n2, d2)"
    and "nid = h_Nid (last (histOf (tabs d2) (dataId, grp, tenant)))"
    and "GetPreviousHistory env2 dataId grp tenant nid n2 d2 = (Inr h, hk2, n3, d3)"
    and "GetConfig env3 dataId grp tenant n3 d3 = (Inr c, hk3, n4, d4)"
  shows "(\<exists>h0. h = Some h0 \<and> h_Content h0 = cu_Content u \<and> h_Md5 h0 = upsertMd5 md5 u) \<and>
    (\<exists>c0. c = Some c0 \<and> c_Content c0 = cu_Content u' \<and> c_Md5 c0 = upsertMd5 md5 u')"
proof -
  let ?k = "(dataId, grp, tenant)"
  note p1 = put_result [OF assms(4,1)] and p2 = put_result [OF assms(5) conjunct1 [OF put_result [OF assms(4,1)]]]
  have ok: "configOK (tabs d)" "configOK (tabs d1)" "configOK (tabs d2)"
    using assms(1) p1 p2 wfConfigD(1) by (auto simp: goodState_def)
  obtain h1 where h1: "histOf (tabs d1) ?k = histOf (tabs d) ?k @ [h1]" "h_Content h1 = cu_Content u" "h_Md5 h1 = upsertMd5 md5 u"
    using upsert_effect [OF ok(1) conjunct2 [OF p1]] assms(2) by (metis fun_upd_same)
  obtain h2 where h2: "histOf (tabs d2) ?k = histOf (tabs d1) ?k @ [h2]"
    using upsert_effect [OF ok(2) conjunct2 [OF p2]] assms(3) by (metis fun_upd_same)
  have "histOf (tabs d2) ?k = histOf (tabs d) ?k @ [h1, h2]" "nid = h_Nid h2" using h1 h2 assms(6) by simp_all
  then have g: "h = Some (scanHistory h1) \<and> tabs d3 = tabs d2 \<and> alone (script d3)"
    using fenced_read [OF assms(7) [unfolded GetPreviousHistory_def], of "\<lambda>x. x = Some (scanHistory h1)"] triple_previous [OF ok(3)] p2
    by (simp add: goodState_def)
  have "triple (\<lambda>t. t = tabs d3) (getConfig dataId grp tenant)
      (\<lambda>r t. case r of Inr b \<Rightarrow> b = lookupBy configKey (config_info (tabs d3)) ?k \<and> t = tabs d3 | Inl _ \<Rightarrow> True)"
    using ok(3) g by (intro triple_conseq [OF triple_getConfig [of "tabs d3" dataId grp tenant]]) (auto split: sum.splits)
  then have "c = lookupBy configKey (config_info (tabs d2)) ?k"
    using fenced_read [OF assms(8) [unfolded GetConfig_def], of "\<lambda>x. x = lookupBy configKey (config_info (tabs d3)) ?k"] g by simp
  moreover obtain c0 where "lookupBy configKey (config_info (tabs d2)) ?k = Some c0" "c_Content c0 = cu_Content u'" "c_Md5 c0 = upsertMd5 md5 u'"
    using upsert_effect [OF ok(2) conjunct2 [OF p2]] assms(3) by (metis fun_upd_same)
  ultimately show ?thesis using g h1 by (simp add: scanHistory_def)
qed

lemmas config_eval = UpsertConfig_def GetPreviousHistory_def GetConfig_def fenced_def WithConfigTransaction_def liftTx_def
  upsertConfig_def getPreviousHistory_def getConfig_def selectConfigId_def insertHistory_def upsertHistory_def insertConfigTab_def
  newConfig_def setConfig_def upsertMd5_def insertHistoryTab_def insertUnique_def updateWhere_def newestFirst_def scanHistory_def
  configKey_def cuKey_def histKey_def histOf_def demoEnv_def demoUpsert_def demoDb_def demoNode_def empty_tables_def

lemma demo_put:
  "UpsertConfig demoEnv (\<lambda>s. s) 1 (demoUpsert ''a'') demoNode demoDb = (Inr (1, True), [], demoNode, d1) \<Longrightarrow>
   \<exists>d2. UpsertConfig demoEnv (\<lambda>s. s) 2 (demoUpsert ''b'') demoNode d1 = (Inr (1, False), [], demoNode, d2) \<and>
     h_Nid (last (histOf (tabs d2) (''app.yml'', ''G'', ''''))) = 3 \<and>
     (\<exists>h c. GetPreviousHistory demoEnv ''app.yml'' ''G'' '''' 3 demoNode d2 = (Inr (Some h), [], demoNode, d2) \<and>
            GetConfig demoEnv ''app.yml'' ''G'' '''' demoNode d2 = (Inr (Some c), [], demoNode, d2))"
  by (auto simp: config_eval go_simps Let_def)

lemma demo_put1: "\<exists>d1. UpsertConfig demoEnv (\<lambda>s. s) 1 (demoUpsert ''a'') demoNode demoDb = (Inr (1, True), [], demoNode, d1)"
  by (simp add: config_eval go_simps Let_def)

lemma demo_key: "cuKey (demoUpsert c) = (''app.yml'', ''G'', '''')"
  by (simp add: cuKey_def demoUpsert_def)

theorem revert_finds_previous_witness:
  "\<exists>d2 h c. GetPreviousHistory demoEnv ''app.yml'' ''G'' '''' 3 demoNode d2 = (Inr (Some h), [], demoNode, d2) \<and>
     GetConfig demoEnv ''app.yml'' ''G'' '''' demoNode d2 = (Inr (Some c), [], demoNode, d2) \<and> h_Content h = ''a'' \<and> c_Content c = ''b''"
proof -
  obtain d1 where d1: "UpsertConfig demoEnv (\<lambda>s. s) 1 (demoUpsert ''a'') demoNode demoDb = (Inr (1, True), [], demoNode, d1)"
    using demo_put1 by blast
  obtain d2 h c where d2: "UpsertConfig demoEnv (\<lambda>s. s) 2 (demoUpsert ''b'') demoNode d1 = (Inr (1, False), [], demoNode, d2)"
     "h_Nid (last (histOf (tabs d2) (''app.yml'', ''G'', ''''))) = 3"
     "GetPreviousHistory demoEnv ''app.yml'' ''G'' '''' 3 demoNode d2 = (Inr (Some h), [], demoNode, d2)"
     "GetConfig demoEnv ''app.yml'' ''G'' '''' demoNode d2 = (Inr (Some c), [], demoNode, d2)"
    using demo_put [OF d1] by blast
  from revert_finds_previous [OF demo_good demo_key demo_key d1 d2(1) d2(2) [symmetric] d2(3,4)] d2(3,4) show ?thesis
    by (auto simp: demoUpsert_def)
qed

text \<open>C29. A node that lost its database session never writes or answers again: every operation, including an attempt to
  acquire ownership anew, leaves the node and the database as they are, and every transaction is refused.\<close>

theorem lost_owner_is_silent:
  assumes "cn_lost (fst (runConfig md5 ops s)) = Some True"
  shows "runConfig md5 (ops @ ops') s = runConfig md5 ops s \<and>
    (\<exists>e. WithConfigTransaction env fn (fst (runConfig md5 ops s)) d = (Inl e, [], fst (runConfig md5 ops s), d))"
proof -
  have "runConfig md5 (ops @ ops') s = fold (configStep md5) ops' (fst (runConfig md5 ops s), snd (runConfig md5 ops s))"
    by (simp add: runConfig_def)
  then show ?thesis using lost_run [OF assms, of md5 ops'] lost_is_final [OF assms] by (metis prod.collapse)
qed

theorem lost_owner_is_silent_witness:
  "runConfig (\<lambda>s. s) ([OpPublish demoEnv 1 (demoUpsert ''a''), OpPublish (demoEnv\<lparr>te_owns := False\<rparr>) 2 (demoUpsert ''b'')] @
      [OpAcquire demoEnv True True True, OpPublish demoEnv 3 (demoUpsert ''c'')]) (demoNode, demoDb) =
    runConfig (\<lambda>s. s) [OpPublish demoEnv 1 (demoUpsert ''a''), OpPublish (demoEnv\<lparr>te_owns := False\<rparr>) 2 (demoUpsert ''b'')] (demoNode, demoDb)"
proof -
  have "cn_lost (fst (runConfig (\<lambda>s. s) [OpPublish demoEnv 1 (demoUpsert ''a''), OpPublish (demoEnv\<lparr>te_owns := False\<rparr>) 2 (demoUpsert ''b'')]
     (demoNode, demoDb))) = Some True"
    by (simp add: runConfig_def config_eval go_simps Let_def lose_def)
  from lost_owner_is_silent [OF this] show ?thesis by blast
qed

end
