(* ===== verification/Hub.thy ===== *)
theory Hub
  imports ConfigOwner
begin

text \<open>
  The change hub of the configuration centre (\<^verbatim>\<open>internal/core/hub.go\<close>): who listens to which configuration, the
  notifications after a commit, and the long-polling wait.  A channel of capacity one is a number, \<open>hub_full\<close> the set of
  channels that hold a token.  Keys are the store's triples (data id, group, tenant).  The wait is a labelled transition
  relation, because the point of the code is what may happen between its steps.
\<close>

subsection \<open>The hub\<close>

record ConfigHub =
  hub_md5s :: "config_key \<rightharpoonup> string"
  hub_watchers :: "config_key \<rightharpoonup> nat set"
  hub_full :: "nat set"

definition NewConfigHub :: "txEnv \<Rightarrow> txEnv \<Rightarrow> bool \<Rightarrow> bool \<Rightarrow> bool \<Rightarrow> cnode \<Rightarrow> db \<Rightarrow> (goerr + ConfigHub) \<times> cnode \<times> db" where
  "NewConfigHub env env' spare granted transactional n d =
     (case AcquireConfigOwnership env spare granted transactional n d of
        (Inl e, n1, d1) \<Rightarrow> (Inl e, n1, d1)
      | (Inr _, n1, d1) \<Rightarrow>
          (case ConfigMD5Index env' n1 d1 of
             (Inl e, _, n2, d2) \<Rightarrow> (Inl e, ReleaseConfigOwnership n2, d2)
           | (Inr entries, _, n2, d2) \<Rightarrow>
               (Inr \<lparr>hub_md5s = fold (\<lambda>(k, m) f. f(k \<mapsto> m)) entries Map.empty, hub_watchers = Map.empty, hub_full = {}\<rparr>, n2, d2)))"

definition hubMd5 :: "txEnv \<Rightarrow> config_key \<Rightarrow> cnode \<Rightarrow> db \<Rightarrow> (goerr + string) \<times> hook list \<times> cnode \<times> db" where
  "hubMd5 env k = ConfigMD5 env k"

definition watching :: "ConfigHub \<Rightarrow> config_key \<Rightarrow> nat set" where
  "watching h k = mget {} (hub_watchers h) k"

definition takeWatchersLocked :: "config_key \<Rightarrow> ConfigHub \<Rightarrow> nat set \<times> ConfigHub" where
  "takeWatchersLocked k h = (watching h k, h\<lparr>hub_watchers := (hub_watchers h)(k := None)\<rparr>)"

definition notify :: "nat set \<Rightarrow> ConfigHub \<Rightarrow> ConfigHub" where
  "notify chs h = h\<lparr>hub_full := hub_full h \<union> chs\<rparr>"

definition hubPublish :: "config_key \<Rightarrow> string \<Rightarrow> ConfigHub \<Rightarrow> ConfigHub" where
  "hubPublish k m h = (let (chs, h') = takeWatchersLocked k (h\<lparr>hub_md5s := (hub_md5s h)(k \<mapsto> m)\<rparr>) in notify chs h')"

definition hubInvalidate :: "config_key \<Rightarrow> ConfigHub \<Rightarrow> ConfigHub" where
  "hubInvalidate k h = (let (chs, h') = takeWatchersLocked k (h\<lparr>hub_md5s := (hub_md5s h)(k := None)\<rparr>) in notify chs h')"

fun runHook :: "hook \<Rightarrow> ConfigHub \<Rightarrow> ConfigHub" where
  "runHook (HookPublish k m) h = hubPublish k m h"
| "runHook (HookInvalidate k) h = hubInvalidate k h"

fun hookKey :: "hook \<Rightarrow> config_key" where
  "hookKey (HookPublish k m) = k"
| "hookKey (HookInvalidate k) = k"

text \<open>The two critical sections of \<^verbatim>\<open>WaitChanged\<close>: registering the channel and, deferred, removing it.\<close>

definition watch :: "nat \<Rightarrow> config_key list \<Rightarrow> ConfigHub \<Rightarrow> ConfigHub" where
  "watch ch keys h = h\<lparr>hub_watchers := fold (\<lambda>k f. f(k \<mapsto> insert ch (mget {} f k))) keys (hub_watchers h)\<rparr>"

definition unwatchKey :: "nat \<Rightarrow> config_key \<Rightarrow> (config_key \<rightharpoonup> nat set) \<Rightarrow> (config_key \<rightharpoonup> nat set)" where
  "unwatchKey ch k f =
     (case f k of
        None \<Rightarrow> f
      | Some m \<Rightarrow> if m - {ch} = {} then f(k := None) else f(k \<mapsto> m - {ch}))"

definition unwatch :: "nat \<Rightarrow> config_key list \<Rightarrow> ConfigHub \<Rightarrow> ConfigHub" where
  "unwatch ch keys h = h\<lparr>hub_watchers := fold (unwatchKey ch) keys (hub_watchers h)\<rparr>"

subsection \<open>The fenced check\<close>

fun checkKeys :: "(config_key \<rightharpoonup> string) \<Rightarrow> config_key list \<Rightarrow> config_key list dbop" where
  "checkKeys known [] = retS []"
| "checkKeys known (k # ks) =
     bindS (configMD5 k)
       (\<lambda>m. bindS (checkKeys known ks) (\<lambda>changed. retS (if m \<noteq> mget '''' known k then k # changed else changed)))"

definition checkChanged :: "txEnv \<Rightarrow> (config_key \<rightharpoonup> string) \<Rightarrow> config_key list \<Rightarrow> cnode \<Rightarrow> db \<Rightarrow>
    (goerr + config_key list) \<times> hook list \<times> cnode \<times> db" where
  "checkChanged env known keys = fenced env (checkKeys known keys)"

text \<open>The digest of every configuration in the database, the empty string for one that does not exist.\<close>

definition digestOf :: "tables \<Rightarrow> config_key \<Rightarrow> string" where
  "digestOf t k = (case lookupBy configKey (config_info t) k of None \<Rightarrow> '''' | Some c \<Rightarrow> c_Md5 c)"

definition changedKeys :: "(config_key \<rightharpoonup> string) \<Rightarrow> config_key list \<Rightarrow> (config_key \<Rightarrow> string) \<Rightarrow> config_key list" where
  "changedKeys known keys digest = filter (\<lambda>k. digest k \<noteq> mget '''' known k) keys"

subsection \<open>Waiting\<close>

datatype phase = Start | Checked | Registered | Parked | Finished "goerr + config_key list"

record hubWorld =
  wd_digest :: "config_key \<Rightarrow> string"
  wd_pending :: "hook list"
  wd_hub :: ConfigHub
  wd_phase :: phase
  wd_wakes :: nat

text \<open>What a check does: finish when it found something, or go to the given phase.  The deferred removal exists only once
  the channel has been registered.\<close>

definition leave :: "nat \<Rightarrow> config_key list \<Rightarrow> hubWorld \<Rightarrow> ConfigHub" where
  "leave ch keys w = (if wd_phase w = Start then wd_hub w else unwatch ch keys (wd_hub w))"

definition decide :: "nat \<Rightarrow> (config_key \<rightharpoonup> string) \<Rightarrow> config_key list \<Rightarrow> phase \<Rightarrow> hubWorld \<Rightarrow> hubWorld" where
  "decide ch known keys ph w =
     (case changedKeys known keys (wd_digest w) of
        [] \<Rightarrow> w\<lparr>wd_phase := ph\<rparr>
      | cs \<Rightarrow> w\<lparr>wd_phase := Finished (Inr cs), wd_hub := leave ch keys w\<rparr>)"

definition finish :: "nat \<Rightarrow> config_key list \<Rightarrow> goerr + config_key list \<Rightarrow> hubWorld \<Rightarrow> hubWorld" where
  "finish ch keys r w = w\<lparr>wd_phase := Finished r, wd_hub := leave ch keys w\<rparr>"

datatype act = ActCommit hook | ActNotify hook | ActOthers | ActFirst | ActRegister | ActRecheck | ActWake | ActTick
  | ActDeadline | ActGiveUp goerr

fun commitDigest :: "hook \<Rightarrow> (config_key \<Rightarrow> string) \<Rightarrow> config_key \<Rightarrow> string" where
  "commitDigest (HookPublish k m) f = f(k := m)"
| "commitDigest (HookInvalidate k) f = f(k := '''')"

text \<open>One listener, with channel \<open>ch\<close>, among committing transactions (whose notifications run later, in any order) and
  other listeners.  \<open>ActGiveUp\<close> is a failing check, the loss of ownership or the end of the request.\<close>

inductive hubStep :: "nat \<Rightarrow> (config_key \<rightharpoonup> string) \<Rightarrow> config_key list \<Rightarrow> hubWorld \<Rightarrow> act \<Rightarrow> hubWorld \<Rightarrow> bool"
  for ch known keys where
  commit: "hubStep ch known keys w (ActCommit h) (w\<lparr>wd_digest := commitDigest h (wd_digest w), wd_pending := wd_pending w @ [h]\<rparr>)"
| notified: "wd_pending w = hs @ h # hs' \<Longrightarrow>
    hubStep ch known keys w (ActNotify h) (w\<lparr>wd_hub := runHook h (wd_hub w), wd_pending := hs @ hs'\<rparr>)"
| others: "(\<And>k. ch \<in> watching hub k \<longleftrightarrow> ch \<in> watching (wd_hub w) k) \<Longrightarrow> (ch \<in> hub_full hub \<longleftrightarrow> ch \<in> hub_full (wd_hub w)) \<Longrightarrow>
    hubStep ch known keys w ActOthers (w\<lparr>wd_hub := hub\<rparr>)"
| first: "wd_phase w = Start \<Longrightarrow> keys \<noteq> [] \<Longrightarrow> hubStep ch known keys w ActFirst (decide ch known keys Checked w)"
| nokeys: "wd_phase w = Start \<Longrightarrow> keys = [] \<Longrightarrow> hubStep ch known keys w ActFirst (finish ch keys (Inr []) w)"
| register: "wd_phase w = Checked \<Longrightarrow>
    hubStep ch known keys w ActRegister (w\<lparr>wd_phase := Registered, wd_hub := watch ch keys (wd_hub w)\<rparr>)"
| recheck: "wd_phase w = Registered \<Longrightarrow> hubStep ch known keys w ActRecheck (decide ch known keys Parked w)"
| wake: "wd_phase w = Parked \<Longrightarrow> ch \<in> hub_full (wd_hub w) \<Longrightarrow>
    hubStep ch known keys w ActWake
      (decide ch known keys Parked (w\<lparr>wd_hub := (wd_hub w)\<lparr>hub_full := hub_full (wd_hub w) - {ch}\<rparr>, wd_wakes := wd_wakes w + 1\<rparr>))"
| tick: "wd_phase w = Parked \<Longrightarrow> hubStep ch known keys w ActTick (decide ch known keys Parked w)"
| deadline: "wd_phase w = Parked \<Longrightarrow>
    hubStep ch known keys w ActDeadline (finish ch keys (Inr (changedKeys known keys (wd_digest w))) w)"
| giveUp: "wd_phase w \<in> {Start, Registered, Parked} \<Longrightarrow> hubStep ch known keys w (ActGiveUp e) (finish ch keys (Inl e) w)"

inductive_cases hubStepE: "hubStep ch known keys w a w'"

text \<open>A listener starts with a fresh channel.\<close>

definition fresh :: "nat \<Rightarrow> hubWorld \<Rightarrow> bool" where
  "fresh ch w \<longleftrightarrow> wd_phase w = Start \<and> wd_wakes w = 0 \<and> ch \<notin> hub_full (wd_hub w) \<and> ch \<notin> (\<Union>k. watching (wd_hub w) k)"

inductive hubReach :: "nat \<Rightarrow> (config_key \<rightharpoonup> string) \<Rightarrow> config_key list \<Rightarrow> hubWorld \<Rightarrow> bool"
  for ch known keys where
  init: "fresh ch w \<Longrightarrow> hubReach ch known keys w"
| step: "hubReach ch known keys w \<Longrightarrow> hubStep ch known keys w a w' \<Longrightarrow> hubReach ch known keys w'"

subsection \<open>Registrations and tokens\<close>

lemma mget_fold_watch:
  "mget {} (fold (\<lambda>k f. f(k \<mapsto> insert ch (mget {} f k))) keys f) k = (if k \<in> set keys then insert ch (mget {} f k) else mget {} f k)"
  by (induction keys arbitrary: f) (auto simp: mget_upd)

lemma mget_unwatchKey: "mget {} (unwatchKey ch j f) k = (if k = j then mget {} f k - {ch} else mget {} f k)"
  by (auto simp: unwatchKey_def mget_def split: option.splits)

lemma mget_fold_unwatch:
  "mget {} (fold (unwatchKey ch) keys f) k = (if k \<in> set keys then mget {} f k - {ch} else mget {} f k)"
  by (induction keys arbitrary: f) (auto simp: mget_unwatchKey)

lemma watching_simps [simp]:
  "watching (watch ch keys h) k = (if k \<in> set keys then insert ch (watching h k) else watching h k)"
  "watching (unwatch ch keys h) k = (if k \<in> set keys then watching h k - {ch} else watching h k)"
  "watching (h\<lparr>hub_full := x\<rparr>) k = watching h k"
  "hub_full (watch ch keys h) = hub_full h" "hub_full (unwatch ch keys h) = hub_full h"
  by (simp_all add: watching_def watch_def unwatch_def mget_fold_watch mget_fold_unwatch)

lemma runHook_simps [simp]:
  "watching (runHook x h) k = (if k = hookKey x then {} else watching h k)"
  "hub_full (runHook x h) = hub_full h \<union> watching h (hookKey x)"
  by (cases x; auto simp: hubPublish_def hubInvalidate_def takeWatchersLocked_def notify_def watching_def mget_def)+

lemma commitDigest_other: "k \<noteq> hookKey h \<Longrightarrow> commitDigest h f k = f k"
  by (cases h) auto

lemma decide_cases:
  obtains "changedKeys known keys (wd_digest w) = []" "decide ch known keys ph w = w\<lparr>wd_phase := ph\<rparr>"
  | "changedKeys known keys (wd_digest w) \<noteq> []"
    "decide ch known keys ph w = w\<lparr>wd_phase := Finished (Inr (changedKeys known keys (wd_digest w))), wd_hub := leave ch keys w\<rparr>"
  by (cases "changedKeys known keys (wd_digest w)") (auto simp: decide_def)

lemma unchanged: "changedKeys known keys digest = [] \<Longrightarrow> k \<in> set keys \<Longrightarrow> digest k = mget '''' known k"
  by (auto simp: changedKeys_def filter_empty_conv)

definition idle :: "phase \<Rightarrow> bool" where
  "idle ph \<longleftrightarrow> ph \<notin> {Registered, Parked}"

definition hubInv :: "nat \<Rightarrow> (config_key \<rightharpoonup> string) \<Rightarrow> config_key list \<Rightarrow> hubWorld \<Rightarrow> bool" where
  "hubInv ch known keys w \<longleftrightarrow>
     (\<forall>k. ch \<in> watching (wd_hub w) k \<longrightarrow> k \<in> set keys \<and> \<not> idle (wd_phase w)) \<and>
     (wd_phase w \<in> {Start, Checked, Registered} \<longrightarrow> wd_wakes w = 0) \<and>
     (\<not> idle (wd_phase w) \<and> wd_wakes w = 0 \<longrightarrow> (\<forall>k\<in>set keys. ch \<in> watching (wd_hub w) k \<or> ch \<in> hub_full (wd_hub w))) \<and>
     (wd_phase w = Parked \<longrightarrow> (\<forall>k\<in>set keys. wd_digest w k = mget '''' known k \<or> ch \<in> hub_full (wd_hub w) \<or>
          k \<in> hookKey ` set (wd_pending w) \<or> ch \<notin> watching (wd_hub w) k))"

lemma hubInv_finish:
  assumes "hubInv ch known keys w"
  shows "hubInv ch known keys (w\<lparr>wd_phase := Finished r, wd_hub := leave ch keys w\<rparr>)"
  using assms by (auto simp: hubInv_def leave_def idle_def)

lemma hubInv_step: "hubStep ch known keys w a w' \<Longrightarrow> hubInv ch known keys w \<Longrightarrow> hubInv ch known keys w'"
proof (induction rule: hubStep.induct)
  case (commit w h)
  then show ?case using commitDigest_other [of _ h] by (fastforce simp: hubInv_def)
next
  case (notified w hs h hs')
  then show ?case by (auto simp: hubInv_def)
next
  case (others hub w)
  then show ?case by (simp add: hubInv_def)
next
  case (first w)
  then show ?case
    by (cases rule: decide_cases [of known keys w ch Checked]) (auto simp: hubInv_finish, auto simp: hubInv_def idle_def)
next
  case (recheck w)
  then show ?case
    by (cases rule: decide_cases [of known keys w ch Parked]) (auto simp: hubInv_finish, auto simp: hubInv_def idle_def unchanged)
next
  case (wake w)
  let ?w = "w\<lparr>wd_hub := (wd_hub w)\<lparr>hub_full := hub_full (wd_hub w) - {ch}\<rparr>, wd_wakes := wd_wakes w + 1\<rparr>"
  show ?case
  proof (cases rule: decide_cases [of known keys ?w ch Parked])
    case 1
    then show ?thesis using wake unchanged [OF 1(1)] unfolding 1(2) by (auto simp: hubInv_def idle_def)
  next
    case 2
    then show ?thesis using wake unfolding 2(2) by (auto simp: hubInv_def idle_def leave_def)
  qed
next
  case (tick w)
  then show ?case
    by (cases rule: decide_cases [of known keys w ch Parked]) (auto simp: hubInv_finish, auto simp: hubInv_def idle_def unchanged)
qed (auto simp: finish_def hubInv_finish, auto simp: hubInv_def idle_def)

lemma hubInv_reach: "hubReach ch known keys w \<Longrightarrow> hubInv ch known keys w"
  by (induction rule: hubReach.induct) (auto simp: hubInv_step, auto simp: hubInv_def fresh_def idle_def)

subsection \<open>Checks against the database\<close>

lemma triple_configMD5:
  "triple (\<lambda>t. t = t0 \<and> configOK t0) (configMD5 k) (\<lambda>r t. t = t0 \<and> configOK t0 \<and> (case r of Inr m \<Rightarrow> m = digestOf t0 k | Inl _ \<Rightarrow> True))"
  unfolding configMD5_def
proof (rule triple_try [where R = "\<lambda>r t. t = t0 \<and> configOK t0 \<and>
    (case r of Inr m \<Rightarrow> m = digestOf t0 k | Inl e \<Rightarrow> e = ErrNoRows \<longrightarrow> digestOf t0 k = '''')"])
  show "triple (\<lambda>t. t = t0 \<and> configOK t0) (queryRow (\<lambda>t. map c_Md5 (filter (\<lambda>c. configKey c = k) (config_info t))))
    (\<lambda>r t. t = t0 \<and> configOK t0 \<and> (case r of Inr m \<Rightarrow> m = digestOf t0 k | Inl e \<Rightarrow> e = ErrNoRows \<longrightarrow> digestOf t0 k = ''''))"
    unfolding queryRow_def by (rule triple_stmt_conn) (auto simp: select_row badConn_def digestOf_def split: option.split)
qed (auto intro!: triple_if triple_ret triple_fail)

lemma triple_checkKeys:
  "triple (\<lambda>t. t = t0 \<and> configOK t0) (checkKeys known keys)
     (\<lambda>r t. t = t0 \<and> configOK t0 \<and> (case r of Inr cs \<Rightarrow> cs = changedKeys known keys (digestOf t0) | Inl _ \<Rightarrow> True))"
proof (induction keys)
  case Nil
  then show ?case by (auto intro!: triple_ret simp: changedKeys_def)
next
  case (Cons k ks)
  let ?Q = "\<lambda>r t. t = t0 \<and> configOK t0 \<and> (case r of Inr cs \<Rightarrow> cs = changedKeys known (k # ks) (digestOf t0) | Inl _ \<Rightarrow> True)"
  have "triple (\<lambda>t. t = t0 \<and> configOK t0 \<and> m = digestOf t0 k)
      (bindS (checkKeys known ks) (\<lambda>cs. retS (if m \<noteq> mget '''' known k then k # cs else cs))) ?Q" for m
  proof (cases "m = digestOf t0 k")
    case True
    show ?thesis
      by (rule triple_bind [OF triple_pre [OF Cons.IH]]) (auto intro!: triple_ret simp: changedKeys_def True)
  qed (simp add: triple_def)
  then show ?case by (auto intro: triple_bind [OF triple_configMD5])
qed

lemma digest_upsert:
  assumes "configOK t"
  shows "digestOf (upsertSpec md5 now u t) = (digestOf t)(cuKey u := upsertMd5 md5 u)"
proof -
  obtain c where "lookupBy configKey (config_info (upsertSpec md5 now u t)) = (lookupBy configKey (config_info t))(cuKey u \<mapsto> c)"
    "c_Md5 c = upsertMd5 md5 u"
    using upsert_effect [OF assms refl] by metis
  then show ?thesis by (simp add: digestOf_def [abs_def] fun_upd_def fun_eq_iff del: split_paired_All)
qed

lemma digest_delete:
  assumes "configOK t"
  shows "digestOf (deleteSpec now su si k t) = (digestOf t)(k := '''')"
proof (cases "lookupBy configKey (config_info t) k")
  case None
  then show ?thesis by (auto simp: digestOf_def deleteSpec_def fun_eq_iff)
next
  case (Some c)
  then show ?thesis using deleteSpec_lookup [OF assms Some] by (auto simp: digestOf_def fun_eq_iff)
qed

lemma check_result:
  assumes "checkChanged env known keys n d = (Inr cs, hooks, n', d')" "goodState (n, d)"
  shows "cs = changedKeys known keys (digestOf (tabs d))"
proof -
  have ok: "configOK (tabs d)" using assms(2) wfConfigD(1) by (auto simp: goodState_def)
  have "triple (\<lambda>t. t = tabs d) (checkKeys known keys)
      (\<lambda>r t. case r of Inr b \<Rightarrow> b = changedKeys known keys (digestOf (tabs d)) \<and> t = tabs d | Inl _ \<Rightarrow> True)"
    using ok by (intro triple_conseq [OF triple_checkKeys [of "tabs d" known keys]]) (auto split: sum.splits)
  then show ?thesis
    using fenced_read [OF assms(1) [unfolded checkChanged_def], of "\<lambda>b. b = changedKeys known keys (digestOf (tabs d))"] assms(2)
    by (simp add: goodState_def)
qed

subsection \<open>Properties\<close>

text \<open>C10. No wake-up is lost.  Whatever commits, notifications and other listeners come between the steps of a waiting
  listener: when it is parked and a configuration it listens to differs from what it knows, its channel holds a token or
  the notification of that very configuration is still to be sent - as long as it has not been woken before, and after
  that for every configuration it is still registered for.\<close>

theorem no_lost_wakeup:
  assumes "hubReach ch known keys w" "wd_phase w = Parked" "k \<in> set keys" "wd_digest w k \<noteq> mget '''' known k"
    and "wd_wakes w = 0 \<or> ch \<in> watching (wd_hub w) k"
  shows "ch \<in> hub_full (wd_hub w) \<or> k \<in> hookKey ` set (wd_pending w)"
  using hubInv_reach [OF assms(1)] assms(2-5) by (auto simp: hubInv_def idle_def)

definition demoKey :: config_key where
  "demoKey = (''app.yml'', ''G'', '''')"

definition demoStart :: hubWorld where
  "demoStart = \<lparr>wd_digest = \<lambda>_. '''', wd_pending = [], wd_hub = \<lparr>hub_md5s = Map.empty, hub_watchers = Map.empty, hub_full = {}\<rparr>,
     wd_phase = Start, wd_wakes = 0\<rparr>"

definition demoParked :: hubWorld where
  "demoParked = demoStart\<lparr>wd_hub := watch 1 [demoKey] (wd_hub demoStart), wd_phase := Parked\<rparr>"

lemma demo_parked: "hubReach 1 Map.empty [demoKey] demoParked"
proof -
  have 0: "hubReach 1 Map.empty [demoKey] demoStart"
    by (rule hubReach.init) (simp add: fresh_def demoStart_def watching_def)
  have 1: "hubReach 1 Map.empty [demoKey] (demoStart\<lparr>wd_phase := Checked\<rparr>)"
    using hubReach.step [OF 0 hubStep.first] by (simp add: demoStart_def decide_def changedKeys_def)
  have 2: "hubReach 1 Map.empty [demoKey] (demoStart\<lparr>wd_phase := Registered, wd_hub := watch 1 [demoKey] (wd_hub demoStart)\<rparr>)"
    using hubReach.step [OF 1 hubStep.register] by (simp add: demoStart_def)
  show ?thesis
    using hubReach.step [OF 2 hubStep.recheck] by (simp add: demoStart_def demoParked_def decide_def changedKeys_def)
qed

lemma demo_commit:
  "hubReach 1 Map.empty [demoKey] (demoParked\<lparr>wd_digest := (\<lambda>_. '''')(demoKey := ''m''), wd_pending := [HookPublish demoKey ''m'']\<rparr>)"
  using hubReach.step [OF demo_parked hubStep.commit [of _ _ _ _ "HookPublish demoKey ''m''"]] by (simp add: demoStart_def demoParked_def)

lemma demo_notified:
  "hubReach 1 Map.empty [demoKey] (demoParked\<lparr>wd_digest := (\<lambda>_. '''')(demoKey := ''m''),
     wd_hub := hubPublish demoKey ''m'' (wd_hub demoParked), wd_pending := []\<rparr>)"
  using hubReach.step [OF demo_commit hubStep.notified [of _ "[]" "HookPublish demoKey ''m''" "[]"]] by simp

theorem no_lost_wakeup_witness: "1 \<in> hub_full (hubPublish demoKey ''m'' (wd_hub demoParked))"
  using no_lost_wakeup [OF demo_notified, of demoKey] by (simp add: demoParked_def demoStart_def)

text \<open>C16. The answer of a long poll is exact.  A listener that finishes without error reports exactly the configurations
  it listens to whose digest in the database differs, at that moment, from the digest it knows; the report is empty only
  at the deadline or when it listens to nothing; a tick never leaves a listener parked over a difference; and a finished
  listener is registered nowhere.\<close>

theorem wait_answer_exact:
  assumes "hubReach ch known keys w" "hubStep ch known keys w a w'" "wd_phase w = Parked \<or> wd_phase w' \<noteq> wd_phase w"
  shows "(\<forall>cs. wd_phase w' = Finished (Inr cs) \<longrightarrow>
       cs = filter (\<lambda>k. wd_digest w' k \<noteq> mget '''' known k) keys \<and> (cs = [] \<longrightarrow> a = ActDeadline \<or> keys = [])) \<and>
    (a = ActTick \<longrightarrow> wd_phase w' = Parked \<longrightarrow> (\<forall>k\<in>set keys. wd_digest w' k = mget '''' known k)) \<and>
    (\<forall>r k. wd_phase w' = Finished r \<longrightarrow> ch \<notin> watching (wd_hub w') k)"
proof -
  have inv: "hubInv ch known keys w'" using hubInv_step [OF assms(2) hubInv_reach [OF assms(1)]] .
  have fin: "cs = changedKeys known keys (wd_digest w') \<and> (cs = [] \<longrightarrow> a = ActDeadline \<or> keys = [])" if "wd_phase w' = Finished (Inr cs)" for cs
    using assms(2,3) that
    by (cases rule: hubStep.cases) (auto simp: finish_def decide_def changedKeys_def split: list.splits)
  have tick: "\<forall>k\<in>set keys. wd_digest w' k = mget '''' known k" if "a = ActTick" "wd_phase w' = Parked"
    using assms(2) that by (cases rule: hubStep.cases) (auto simp: decide_def unchanged split: list.splits)
  from fin tick inv show ?thesis unfolding changedKeys_def hubInv_def idle_def by auto
qed

theorem wait_answer_exact_witness:
  "hubStep 1 Map.empty [demoKey] (demoParked\<lparr>wd_digest := (\<lambda>_. '''')(demoKey := ''m''), wd_pending := [HookPublish demoKey ''m'']\<rparr>) ActTick
     (finish 1 [demoKey] (Inr [demoKey]) (demoParked\<lparr>wd_digest := (\<lambda>_. '''')(demoKey := ''m''), wd_pending := [HookPublish demoKey ''m'']\<rparr>)) \<and>
   1 \<notin> watching (wd_hub (finish 1 [demoKey] (Inr [demoKey]) (demoParked\<lparr>wd_digest := (\<lambda>_. '''')(demoKey := ''m''), wd_pending := [HookPublish demoKey ''m'']\<rparr>))) demoKey"
proof -
  let ?w = "demoParked\<lparr>wd_digest := (\<lambda>_. '''')(demoKey := ''m''), wd_pending := [HookPublish demoKey ''m'']\<rparr>"
  have s: "hubStep 1 Map.empty [demoKey] ?w ActTick (finish 1 [demoKey] (Inr [demoKey]) ?w)"
    using hubStep.tick [of ?w 1 Map.empty "[demoKey]"] by (simp add: decide_def changedKeys_def finish_def demoParked_def)
  have "wd_phase (finish 1 [demoKey] (Inr [demoKey]) ?w) = Finished (Inr [demoKey])" "wd_phase ?w = Parked"
    by (simp_all add: finish_def demoParked_def)
  with wait_answer_exact [OF demo_commit s] s show ?thesis by blast
qed

text \<open>A listener and a publisher agree: after a successful publication, a check with any digests reports the published
  configuration exactly when the listener does not know the digest just stored, and every other configuration as before.\<close>

theorem listener_sees_publication:
  assumes "UpsertConfig env md5 now u n d = (Inr r, hk, n1, d1)" "goodState (n, d)"
    and "checkChanged env' known keys n1 d1 = (Inr cs, hk', n2, d2)"
  shows "cs = filter (\<lambda>k. (if k = cuKey u then upsertMd5 md5 u else digestOf (tabs d) k) \<noteq> mget '''' known k) keys"
proof -
  note p = put_result [OF assms(1,2)]
  have "configOK (tabs d)" using assms(2) wfConfigD(1) by (auto simp: goodState_def)
  then show ?thesis using check_result [OF assms(3)] p digest_upsert [of "tabs d" md5 now u] by (simp add: changedKeys_def fun_upd_def)
qed

lemma demo_check:
  "UpsertConfig demoEnv (\<lambda>s. s) 1 (demoUpsert ''a'') demoNode demoDb = (Inr (1, True), [], demoNode, d1) \<Longrightarrow>
   checkChanged demoEnv Map.empty [demoKey] demoNode d1 = (Inr [demoKey], [], demoNode, d1)"
  by (auto simp: config_eval go_simps Let_def checkChanged_def configMD5_def demoKey_def)

theorem listener_sees_publication_witness:
  "[demoKey] = filter (\<lambda>k. (if k = cuKey (demoUpsert ''a'') then upsertMd5 (\<lambda>s. s) (demoUpsert ''a'') else digestOf (tabs demoDb) k) \<noteq>
     mget '''' Map.empty k) [demoKey]"
proof -
  obtain d1 where d1: "UpsertConfig demoEnv (\<lambda>s. s) 1 (demoUpsert ''a'') demoNode demoDb = (Inr (1, True), [], demoNode, d1)"
    using demo_put1 by blast
  from listener_sees_publication [OF d1 demo_good demo_check [OF d1]] show ?thesis .
qed

text \<open>A registration is spent by the first notification of its key: a listener woken without a change (a publication of
  the content it knows) is parked unregistered, and only the one-second tick shows it the next change.\<close>

lemma second_change_waits_for_tick:
  "\<exists>w. hubReach 1 Map.empty [demoKey] w \<and> wd_phase w = Parked \<and> wd_digest w demoKey \<noteq> mget '''' Map.empty demoKey \<and>
     1 \<notin> hub_full (wd_hub w) \<and> wd_pending w = []"
proof -
  let ?h = "HookInvalidate demoKey" and ?g = "HookPublish demoKey ''m''"
  note 1 = hubReach.step [OF demo_parked hubStep.commit [of _ _ _ _ ?h]]
  have 3: "hubReach 1 Map.empty [demoKey] (demoParked\<lparr>wd_digest := \<lambda>_. '''', wd_hub := hubInvalidate demoKey (wd_hub demoParked), wd_pending := []\<rparr>)"
    using hubReach.step [OF 1 hubStep.notified [of _ "[]" ?h "[]"]] by (simp add: demoParked_def demoStart_def fun_upd_def)
  have e: "wd_hub demoParked = \<lparr>hub_md5s = Map.empty, hub_watchers = [demoKey \<mapsto> {1}], hub_full = {}\<rparr>"
    by (simp add: demoParked_def demoStart_def watch_def)
  have 4: "hubReach 1 Map.empty [demoKey] (demoParked\<lparr>wd_digest := \<lambda>_. '''',
      wd_hub := \<lparr>hub_md5s = Map.empty, hub_watchers = Map.empty, hub_full = {}\<rparr>, wd_pending := [], wd_wakes := 1\<rparr>)"
    using hubReach.step [OF 3 hubStep.wake]
    by (simp add: demoParked_def demoStart_def decide_def changedKeys_def e hubInvalidate_def takeWatchersLocked_def notify_def watching_def watch_def)
  show ?thesis
  proof (intro exI conjI)
    show "hubReach 1 Map.empty [demoKey] (demoParked\<lparr>wd_digest := (\<lambda>_. '''')(demoKey := ''m''),
       wd_hub := hubPublish demoKey ''m'' \<lparr>hub_md5s = Map.empty, hub_watchers = Map.empty, hub_full = {}\<rparr>, wd_pending := [], wd_wakes := 1\<rparr>)"
      using hubReach.step [OF hubReach.step [OF 4 hubStep.commit [of _ _ _ _ ?g]] hubStep.notified [of _ "[]" ?g "[]"]]
      by (simp add: demoParked_def demoStart_def)
  qed (simp_all add: demoParked_def demoStart_def hubPublish_def takeWatchersLocked_def notify_def watching_def)
qed

end
