(* ===== verification/ApiCore.thy ===== *)
theory ApiCore
  imports Json Schema
begin

text \<open>
  Requests, responses and helpers of the management API (\<^verbatim>\<open>internal/api/dto.go\<close>).  A request is what the
  handlers read of it: query and form as parsed pairs in order (\<^verbatim>\<open>Get\<close> takes the first), cookies, the headers they look
  at, the body.  A response is a status code, a content type and the bytes written; JSON bodies are written by \<open>jsonEncode\<close>,
  structs in field order and maps by ascending key, with the newline \<^verbatim>\<open>json.Encoder\<close> adds.  The text of a JSON number is kept,
  so \<open>floatText\<close>, the way Go prints the float64 it reads, is an argument.
\<close>

subsection \<open>Requests\<close>

record apiReq =
  ar_Method :: string
  ar_Path :: string
  ar_Query :: "(string \<times> string) list"
  ar_PostForm :: "(string \<times> string) list"
  ar_ContentType :: string
  ar_Body :: string
  ar_Cookies :: "(string \<times> string) list"
  ar_Authorization :: string
  ar_LongPulling :: string
  ar_RemoteAddr :: string

text \<open>\<^verbatim>\<open>url.Values.Get\<close>; \<^verbatim>\<open>r.Form\<close> lists body values before query values.\<close>

definition qget :: "(string \<times> string) list \<Rightarrow> string \<Rightarrow> string" where
  "qget q k = (case map_of q k of None \<Rightarrow> '''' | Some v \<Rightarrow> v)"

definition qhas :: "(string \<times> string) list \<Rightarrow> string \<Rightarrow> bool" where
  "qhas q k \<longleftrightarrow> k \<in> fst ` set q"

definition arForm :: "apiReq \<Rightarrow> (string \<times> string) list" where
  "arForm r = ar_PostForm r @ ar_Query r"

definition qparam :: "apiReq \<Rightarrow> string \<Rightarrow> string" where
  "qparam r k = qget (ar_Query r) k"

subsection \<open>JSON text\<close>

fun jsonEncode :: "json \<Rightarrow> string" where
  "jsonEncode JNull = ''null''"
| "jsonEncode (JBool b) = (if b then ''true'' else ''false'')"
| "jsonEncode (JNum n) = n"
| "jsonEncode (JStr s) = jsonString s"
| "jsonEncode (JArr vs) = ''['' @ joinWith '','' (map jsonEncode vs) @ '']''"
| "jsonEncode (JObj kvs) = ''{'' @ joinWith '','' (map (\<lambda>(k, v). jsonString k @ '':'' @ jsonEncode v) kvs) @ ''}''"

definition jInt :: "int \<Rightarrow> json" where
  "jInt n = JNum (strconvItoa n)"

text \<open>\<^verbatim>\<open>json.Decoder.Decode\<close>: the first value of the body, what follows it is not read.\<close>

definition jsonDecode :: "string \<Rightarrow> json option" where
  "jsonDecode s = map_option fst (parseVal (Suc (length s)) s)"

text \<open>What a decoded \<^verbatim>\<open>any\<close> looks like when it is marshalled again: maps keep the last of equal keys and are written by
  ascending key.\<close>

function (sequential) remarshal :: "(string \<Rightarrow> string) \<Rightarrow> json \<Rightarrow> string" where
  "remarshal ft (JNum n) = ft n"
| "remarshal ft (JArr vs) = ''['' @ joinWith '','' (map (remarshal ft) vs) @ '']''"
| "remarshal ft (JObj kvs) =
     (let ms = map (\<lambda>(k, v). (k, remarshal ft v)) kvs
      in ''{'' @ joinWith '','' (map (\<lambda>k. jsonString k @ '':'' @ the (map_of (rev ms) k)) (sort (remdups (map fst ms)))) @ ''}'')"
| "remarshal ft JNull = ''null''"
| "remarshal ft (JBool b) = (if b then ''true'' else ''false'')"
| "remarshal ft (JStr s) = jsonString s"
  by pat_completeness auto

termination
  by (relation "measure (size \<circ> snd)") (auto simp: less_Suc_eq_le intro: size_list_estimation')

subsection \<open>Parameters\<close>

definition paramText :: "(string \<Rightarrow> string) \<Rightarrow> json \<Rightarrow> string" where
  "paramText ft v = (case v of JStr s \<Rightarrow> s | JNum n \<Rightarrow> ft n | JBool b \<Rightarrow> (if b then ''true'' else ''false'') | _ \<Rightarrow> remarshal ft v)"

definition formOrJSON :: "(string \<Rightarrow> string) \<Rightarrow> apiReq \<Rightarrow> string \<Rightarrow> string" where
  "formOrJSON ft r k =
     (case (if hasPrefix (ar_ContentType r) ''application/json'' then jsonDecode (ar_Body r) else None) of
        Some (JObj kvs) \<Rightarrow> (case map_of (rev kvs) k of Some v \<Rightarrow> paramText ft v | None \<Rightarrow> qget (arForm r) k)
      | _ \<Rightarrow> qget (arForm r) k)"

fun firstNonEmpty :: "string list \<Rightarrow> string" where
  "firstNonEmpty [] = ''''"
| "firstNonEmpty (v # vs) = (if v \<noteq> '''' then v else firstNonEmpty vs)"

definition srcIP :: "apiReq \<Rightarrow> string" where
  "srcIP r =
     (let host = ar_RemoteAddr r;
          h = (case lastIndexByte host CHR '':'' of Some i \<Rightarrow> if i > 0 then take i host else host | None \<Rightarrow> host);
          br = (\<lambda>c. c = CHR ''['' \<or> c = CHR '']'')
      in trimRight br (trimLeft br h))"

fun cutAtAt :: "string \<Rightarrow> (string \<times> string) option" where
  "cutAtAt (c # d # s) = (if c = CHR ''@'' \<and> d = CHR ''@'' then Some ([], s) else map_option (\<lambda>(a, b). (c # a, b)) (cutAtAt (d # s)))"
| "cutAtAt _ = None"

definition parseServiceName :: "string \<Rightarrow> string \<Rightarrow> string \<times> string" where
  "parseServiceName serviceName groupName =
     (case cutAtAt serviceName of
        Some (g, n) \<Rightarrow> (g, n)
      | None \<Rightarrow> (if groupName = '''' then ''DEFAULT_GROUP'' else groupName, serviceName))"

definition configType :: "string \<Rightarrow> string \<Rightarrow> string" where
  "configType dataId explicit =
     (if explicit \<noteq> '''' then explicit
      else if hasSuffix dataId ''.yaml'' \<or> hasSuffix dataId ''.yml'' then ''yaml''
      else if hasSuffix dataId ''.json'' then ''json''
      else if hasSuffix dataId ''.properties'' then ''properties''
      else if hasSuffix dataId ''.xml'' then ''xml''
      else if hasSuffix dataId ''.html'' \<or> hasSuffix dataId ''.htm'' then ''html''
      else ''text'')"

text \<open>\<^verbatim>\<open>strconv.Atoi\<close> and \<^verbatim>\<open>ParseInt\<close> with the error dropped: out of range gives the nearest bound.\<close>

definition atoiOr0 :: "string \<Rightarrow> int" where
  "atoiOr0 s =
     (let neg = (take 1 s = ''-''); digits = (if take 1 s = ''-'' \<or> take 1 s = ''+'' then drop 1 s else s)
      in if digits = '''' \<or> \<not> list_all isDigit digits then 0
         else if neg then max (- int (decValue digits)) (- (2 ^ 63)) else min (int (decValue digits)) (2 ^ 63 - 1))"

subsection \<open>Responses\<close>

record apiResp =
  rs_code :: int
  rs_type :: string
  rs_body :: string

definition writeJSON :: "int \<Rightarrow> json \<Rightarrow> apiResp" where
  "writeJSON status v = \<lparr>rs_code = status, rs_type = ''application/json; charset=utf-8'', rs_body = jsonEncode v @ [CHR 0x0A]\<rparr>"

definition writeText :: "int \<Rightarrow> string \<Rightarrow> apiResp" where
  "writeText status s = \<lparr>rs_code = status, rs_type = ''text/plain; charset=utf-8'', rs_body = s\<rparr>"

definition envelope :: "int \<Rightarrow> string \<Rightarrow> json \<Rightarrow> json" where
  "envelope code msg v = JObj [(''code'', jInt code), (''message'', JStr msg), (''data'', v)]"

definition v2OK :: "json \<Rightarrow> apiResp" where
  "v2OK v = writeJSON 200 (envelope 0 ''success'' v)"

definition v2Fail :: "int \<Rightarrow> int \<Rightarrow> string \<Rightarrow> apiResp" where
  "v2Fail status code msg = writeJSON status (envelope code msg JNull)"

definition v1OK :: "json \<Rightarrow> apiResp" where
  "v1OK v = writeJSON 200 (envelope 200 ''ok'' v)"

definition v1Fail :: "int \<Rightarrow> int \<Rightarrow> string \<Rightarrow> apiResp" where
  "v1Fail status code msg = writeJSON status (envelope code msg JNull)"

fun errText :: "goerr \<Rightarrow> string" where
  "errText ErrNoRows = ''sql: no rows in result set''"
| "errText (ErrSQL m) = m"
| "errText (ErrDup m) = m"
| "errText (ErrMsg m) = m"
| "errText (Panic m) = m"

subsection \<open>Pages\<close>

definition pageCount :: "int \<Rightarrow> int \<Rightarrow> int" where
  "pageCount cnt pageSize = max 1 (i64 (cnt + pageSize - 1) div pageSize)"

definition newPage :: "int \<Rightarrow> int \<Rightarrow> int \<Rightarrow> json list \<Rightarrow> json" where
  "newPage cnt pageNo pageSize items =
     JObj [(''totalCount'', jInt cnt), (''pageNumber'', jInt pageNo), (''pagesAvailable'', jInt (pageCount cnt pageSize)),
           (''pageItems'', JArr items)]"

definition pageParams :: "(string \<times> string) list \<Rightarrow> int \<times> int" where
  "pageParams q = (atoiOr0 (qget q ''pageNo''), atoiOr0 (qget q ''pageSize''))"

definition pageShown :: "int \<Rightarrow> int \<times> int \<Rightarrow> int \<times> int" where
  "pageShown dflt p = (if fst p < 1 then 1 else fst p, if snd p < 1 then dflt else snd p)"

end
