(* ===== verification/ConfigApi.thy ===== *)
theory ConfigApi
  imports ApiCore Hub
begin

text \<open>
  The configuration and namespace endpoints (\<^verbatim>\<open>internal/api/config_admission.go\<close>, \<^verbatim>\<open>config_v1.go\<close>, \<^verbatim>\<open>config_v2.go\<close>,
  \<^verbatim>\<open>console_api.go\<close>).  A handler runs inside the transaction its request was admitted to: it maps the transaction's state to
  the buffered response and the new state, and \<open>serveConfig\<close> decides whether that transaction commits.  \<open>md5\<close> is the hex MD5
  digest, \<open>fmt\<close> the rendering of a time stamp, \<open>ft\<close> that of a JSON number, \<open>user\<close> the name in the request's claims.
\<close>

subsection \<open>Admission\<close>

type_synonym cfgHandler = "txState \<Rightarrow> apiResp \<times> txState"

definition errConfigHandler :: goerr where
  "errConfigHandler = ErrMsg ''config handler rejected operation''"

definition unavailable :: apiResp where
  "unavailable = writeText 503 ''configuration instance unavailable''"

definition overflowed :: "apiResp \<Rightarrow> bool" where
  "overflowed b \<longleftrightarrow> length (rs_body b) > 16 * 1024 * 1024"

definition admittedTx :: "cfgHandler \<Rightarrow> (txState, unit) op" where
  "admittedTx hdl s = (let (b, s') = hdl s in (if overflowed b \<or> rs_code b \<ge> 400 then Inl errConfigHandler else Inr (), s'))"

definition serveConfig :: "txEnv \<Rightarrow> cfgHandler \<Rightarrow> cnode \<Rightarrow> db \<Rightarrow> apiResp \<times> hook list \<times> cnode \<times> db" where
  "serveConfig env hdl n d =
     (let b = fst (hdl \<lparr>tx_db = d, tx_hooks = []\<rparr>)
      in case WithConfigTransaction env (admittedTx hdl) n d of
           (Inl e, hk, n', d') \<Rightarrow> (if e = errConfigHandler \<and> \<not> overflowed b then b else unavailable, hk, n', d')
         | (Inr _, hk, n', d') \<Rightarrow> (b, hk, n', d'))"

text \<open>Listener requests wait outside any transaction; their buffered answer \<open>b\<close> is sent only if the node still owns the
  configuration afterwards.\<close>

definition serveListener :: "txEnv \<Rightarrow> apiResp \<Rightarrow> cnode \<Rightarrow> db \<Rightarrow> apiResp \<times> cnode \<times> db" where
  "serveListener env b n d =
     (case WithConfigTransaction env (\<lambda>s. (if overflowed b then Inl errConfigHandler else Inr (), s)) n d of
        (Inl e, hk, n', d') \<Rightarrow> (unavailable, n', d')
      | (Inr _, hk, n', d') \<Rightarrow> (b, n', d'))"

text \<open>Run a store operation and continue on the error or on the value, as the handlers do.\<close>

definition onResult :: "'a dbop \<Rightarrow> (goerr \<Rightarrow> apiResp) \<Rightarrow> ('a \<Rightarrow> cfgHandler) \<Rightarrow> cfgHandler" where
  "onResult m h k s = (case liftTx m s of (Inl e, s') \<Rightarrow> (h e, s') | (Inr a, s') \<Rightarrow> k a s')"

definition respond :: "apiResp \<Rightarrow> cfgHandler" where
  "respond b s = (b, s)"

definition hooked :: "hook \<Rightarrow> cfgHandler \<Rightarrow> cfgHandler" where
  "hooked h k s = k (s\<lparr>tx_hooks := tx_hooks s @ [h]\<rparr>)"

subsection \<open>Shapes\<close>

definition respFromConfig :: "(int \<Rightarrow> string) \<Rightarrow> ConfigInfo \<Rightarrow> json" where
  "respFromConfig fmt c = JObj [(''id'', jInt (c_ID c)), (''dataId'', JStr (c_DataId c)), (''group'', JStr (c_GroupId c)),
     (''namespaceId'', JStr (c_TenantId c)), (''tenantId'', JStr (c_TenantId c)), (''content'', JStr (c_Content c)),
     (''md5'', JStr (c_Md5 c)), (''type'', JStr (c_Type c)), (''appName'', JStr (c_AppName c)), (''cDesc'', JStr (c_CDesc c)),
     (''srcUser'', JStr (c_SrcUser c)), (''createUser'', JStr (c_SrcUser c)), (''gmtCreate'', jInt (c_GmtCreate c)),
     (''gmtModified'', jInt (c_GmtModified c)), (''createDate'', JStr (fmt (c_GmtCreate c))), (''modifyDate'', JStr (fmt (c_GmtModified c)))]"

definition respFromHistory :: "(int \<Rightarrow> string) \<Rightarrow> bool \<Rightarrow> HistoryInfo \<Rightarrow> json" where
  "respFromHistory fmt withContent h = JObj [(''id'', jInt (h_Nid h)), (''configId'', jInt (h_ID h)), (''dataId'', JStr (h_DataId h)),
     (''group'', JStr (h_GroupId h)), (''tenantId'', JStr (h_TenantId h)), (''namespaceId'', JStr (h_TenantId h)),
     (''appName'', JStr (h_AppName h)), (''content'', if withContent then JStr (h_Content h) else JNull), (''md5'', JStr (h_Md5 h)),
     (''srcUser'', JStr (h_SrcUser h)), (''srcIp'', JStr (h_SrcIp h)), (''opType'', JStr (h_OpType h)),
     (''createdTime'', JStr (fmt (h_GmtCreate h))), (''lastModifiedTime'', JStr (fmt (h_GmtModified h))),
     (''gmtCreate'', jInt (h_GmtCreate h)), (''gmtModified'', jInt (h_GmtModified h))]"

definition tenantParam :: "(string \<Rightarrow> string) \<Rightarrow> string" where
  "tenantParam p = (if p ''namespaceId'' = '''' then p ''tenant'' else p ''namespaceId'')"

definition pageOf :: "(int \<Rightarrow> string) \<Rightarrow> int \<times> int \<Rightarrow> ConfigInfo list \<times> int \<Rightarrow> json" where
  "pageOf fmt p r = newPage (snd r) (fst (pageShown 100 p)) (snd (pageShown 100 p)) (map (respFromConfig fmt) (fst r))"

definition histPageOf :: "(int \<Rightarrow> string) \<Rightarrow> int \<times> int \<Rightarrow> HistoryInfo list \<times> int \<Rightarrow> json" where
  "histPageOf fmt p r = newPage (snd r) (fst (pageShown 100 p)) (snd (pageShown 100 p)) (map (respFromHistory fmt False) (fst r))"

subsection \<open>Version 1\<close>

definition configV1List :: "(int \<Rightarrow> string) \<Rightarrow> apiReq \<Rightarrow> cfgHandler" where
  "configV1List fmt r =
     (let q = qparam r; p = pageParams (ar_Query r)
      in onResult (listConfigs \<lparr>lq_TenantId = q ''tenant'', lq_DataId = q ''dataId'', lq_GroupId = q ''group'', lq_AppName = q ''appName'',
             lq_Tag = q ''config_tags'', lq_Accurate = (q ''search'' = ''accurate''), lq_PageNo = fst p, lq_PageSize = snd p\<rparr>)
           (\<lambda>e. writeJSON 500 (envelope 500 (errText e) JNull))
           (\<lambda>out. respond (writeJSON 200 (pageOf fmt p out))))"

definition configV1Get :: "(int \<Rightarrow> string) \<Rightarrow> apiReq \<Rightarrow> cfgHandler" where
  "configV1Get fmt r =
     (let q = qparam r; dataId = q ''dataId''; grp = q ''group''
      in if qhas (ar_Query r) ''search'' \<or> qhas (ar_Query r) ''pageNo'' then configV1List fmt r
         else if dataId = '''' \<or> grp = '''' then respond (writeText 400 ''dataId or group is empty'')
         else onResult (getConfig dataId grp (q ''tenant'')) (\<lambda>e. writeText 500 (errText e))
                (\<lambda>found. respond (case found of
                    None \<Rightarrow> writeText 404 ''config data not exist''
                  | Some c \<Rightarrow> if q ''show'' = ''all'' then writeJSON 200 (respFromConfig fmt c) else writeText 200 (c_Content c))))"

definition splitTags :: "string \<Rightarrow> string list" where
  "splitTags s = (if s = '''' then [] else splitOn CHR '','' s)"

text \<open>Publication is shared by both versions up to the names of parameters and the shape of the answers.\<close>

definition publishWith :: "(string \<Rightarrow> string) \<Rightarrow> int \<Rightarrow> ConfigUpsert \<Rightarrow> string list \<Rightarrow> (goerr \<Rightarrow> apiResp) \<Rightarrow> apiResp \<Rightarrow> cfgHandler" where
  "publishWith md5 now u tags failed ok =
     onResult (upsertConfig md5 now u) failed
       (\<lambda>(i, created).
          (if tags = [] then (\<lambda>k. k)
           else (\<lambda>k. onResult (replaceConfigTags i (cu_DataId u) (cu_GroupId u) (cu_TenantId u) tags)
                       (\<lambda>e. writeText 500 ''config tag update failed'') (\<lambda>_. k)))
          (hooked (HookPublish (cuKey u) (md5 (cu_Content u))) (respond ok)))"

definition configV1Publish :: "(string \<Rightarrow> string) \<Rightarrow> (string \<Rightarrow> string) \<Rightarrow> int \<Rightarrow> string option \<Rightarrow> apiReq \<Rightarrow> cfgHandler" where
  "configV1Publish ft md5 now user r =
     (let p = formOrJSON ft r
      in if p ''dataId'' = '''' \<or> p ''group'' = '''' then respond (writeText 400 ''dataId or group is empty'')
         else publishWith md5 now
           \<lparr>cu_DataId = p ''dataId'', cu_GroupId = p ''group'', cu_TenantId = p ''tenant'', cu_Content = p ''content'',
            cu_SrcUser = (case user of None \<Rightarrow> ''anonymous'' | Some n \<Rightarrow> n), cu_SrcIp = srcIP r, cu_AppName = p ''appName'',
            cu_Type = configType (p ''dataId'') (p ''type''), cu_CDesc = p ''desc'', cu_CUse = p ''use'', cu_Effect = p ''effect'',
            cu_CSchema = p ''schema'', cu_ConfigMD5 = ''''\<rparr>
           (splitTags (p ''config_tags'')) (\<lambda>e. writeText 500 (''publish failed: '' @ errText e)) (writeText 200 ''true''))"

definition deleteWith :: "int \<Rightarrow> config_key \<Rightarrow> string option \<Rightarrow> string \<Rightarrow> (goerr \<Rightarrow> apiResp) \<Rightarrow> (bool \<Rightarrow> apiResp) \<Rightarrow> cfgHandler" where
  "deleteWith now k user ip failed ok =
     onResult (deleteConfig now (fst k) (fst (snd k)) (snd (snd k)) (case user of None \<Rightarrow> ''anonymous'' | Some n \<Rightarrow> n) ip) failed
       (\<lambda>deleted. (if deleted then hooked (HookInvalidate k) else (\<lambda>x. x)) (respond (ok deleted)))"

definition configV1Delete :: "int \<Rightarrow> string option \<Rightarrow> apiReq \<Rightarrow> cfgHandler" where
  "configV1Delete now user r =
     (let q = qparam r
      in if q ''dataId'' = '''' \<or> q ''group'' = '''' then respond (writeText 400 ''dataId or group is empty'')
         else deleteWith now (q ''dataId'', q ''group'', q ''tenant'') user (srcIP r)
           (\<lambda>e. writeText 500 (''delete failed: '' @ errText e)) (\<lambda>_. writeText 200 ''true''))"

record ListenKey =
  lk_Key :: config_key
  lk_Md5 :: string

definition listenSep :: char where
  "listenSep = CHR 0x01"

definition fieldSep :: char where
  "fieldSep = CHR 0x02"

fun parseListenEntry :: "string \<Rightarrow> ListenKey option" where
  "parseListenEntry entry0 =
     (let entry = trimSpace entry0
      in if entry = '''' then None
         else case splitOn fieldSep entry of
                d # g # m # rest \<Rightarrow> Some \<lparr>lk_Key = (d, g, case rest of [] \<Rightarrow> '''' | t # _ \<Rightarrow> t), lk_Md5 = m\<rparr>
              | _ \<Rightarrow> None)"

definition parseV1ListeningConfigs :: "string \<Rightarrow> ListenKey list" where
  "parseV1ListeningConfigs raw = List.map_filter parseListenEntry (splitOn listenSep raw)"

definition pollTimeoutMs :: "string \<Rightarrow> int" where
  "pollTimeoutMs h = (if h = '''' then 29000 else case atoi h of Some ms \<Rightarrow> if ms > 0 then min ms 60000 else 29000 | None \<Rightarrow> 29000)"

definition listenKnown :: "ListenKey list \<Rightarrow> config_key \<rightharpoonup> string" where
  "listenKnown ks = fold (\<lambda>k f. f(lk_Key k \<mapsto> lk_Md5 k)) ks Map.empty"

definition changedLine :: "config_key \<Rightarrow> string" where
  "changedLine k = fst k @ [fieldSep] @ fst (snd k) @ [fieldSep] @ snd (snd k) @ [listenSep]"

text \<open>\<open>wait known keys ms\<close> is the answer of \<^verbatim>\<open>Hub.WaitChanged\<close>.\<close>

definition configV1Listener :: "((config_key \<rightharpoonup> string) \<Rightarrow> config_key list \<Rightarrow> int \<Rightarrow> goerr + config_key list) \<Rightarrow> apiReq \<Rightarrow> apiResp" where
  "configV1Listener wait r =
     (let keys = parseV1ListeningConfigs (qget (arForm r) ''Listening-Configs'')
      in if keys = [] then writeText 200 ''''
         else case wait (listenKnown keys) (map lk_Key keys) (pollTimeoutMs (ar_LongPulling r)) of
                Inl e \<Rightarrow> unavailable
              | Inr changed \<Rightarrow> writeText 200 (concat (map changedLine changed)))"

definition configV1HistoryList :: "(int \<Rightarrow> string) \<Rightarrow> apiReq \<Rightarrow> cfgHandler" where
  "configV1HistoryList fmt r =
     (let q = qparam r; p = pageParams (ar_Query r)
      in onResult (listHistory \<lparr>hq_TenantId = q ''tenant'', hq_DataId = q ''dataId'', hq_GroupId = q ''group'',
             hq_Accurate = (q ''search'' = ''accurate''), hq_PageNo = fst p, hq_PageSize = snd p\<rparr>)
           (\<lambda>e. v1Fail 500 500 (errText e)) (\<lambda>out. respond (writeJSON 200 (histPageOf fmt p out))))"

definition configV1HistoryDetail :: "(int \<Rightarrow> string) \<Rightarrow> apiReq \<Rightarrow> cfgHandler" where
  "configV1HistoryDetail fmt r =
     onResult (getHistory (atoiOr0 (qparam r ''nid''))) (\<lambda>e. v1Fail 500 500 (errText e))
       (\<lambda>found. respond (case found of None \<Rightarrow> v1Fail 404 404 ''history not exist'' | Some h \<Rightarrow> writeJSON 200 (respFromHistory fmt True h)))"

definition configV1HistoryPrevious :: "(int \<Rightarrow> string) \<Rightarrow> apiReq \<Rightarrow> cfgHandler" where
  "configV1HistoryPrevious fmt r =
     onResult (getPreviousHistory (qparam r ''dataId'') (qparam r ''group'') (qparam r ''tenant'') (atoiOr0 (qparam r ''id'')))
       (\<lambda>e. v1Fail 500 500 (errText e))
       (\<lambda>found. respond (case found of None \<Rightarrow> v1Fail 404 404 ''previous history not exist'' | Some h \<Rightarrow> writeJSON 200 (respFromHistory fmt True h)))"

subsection \<open>Version 2\<close>

definition configV2Get :: "(int \<Rightarrow> string) \<Rightarrow> apiReq \<Rightarrow> cfgHandler" where
  "configV2Get fmt r =
     (let q = qparam r
      in if q ''dataId'' = '''' \<or> q ''group'' = '''' then respond (v2Fail 400 400 ''dataId or group is empty'')
         else onResult (getConfig (q ''dataId'') (q ''group'') (tenantParam q)) (\<lambda>e. v2Fail 500 500 (errText e))
                (\<lambda>found. respond (case found of None \<Rightarrow> v2Fail 200 300 ''config not exist'' | Some c \<Rightarrow> v2OK (respFromConfig fmt c))))"

definition configV2Publish :: "(string \<Rightarrow> string) \<Rightarrow> (string \<Rightarrow> string) \<Rightarrow> int \<Rightarrow> string option \<Rightarrow> apiReq \<Rightarrow> cfgHandler" where
  "configV2Publish ft md5 now user r =
     (let p = formOrJSON ft r
      in if p ''dataId'' = '''' \<or> p ''group'' = '''' then respond (v2Fail 400 400 ''dataId or group is empty'')
         else publishWith md5 now
           \<lparr>cu_DataId = p ''dataId'', cu_GroupId = p ''group'', cu_TenantId = tenantParam p, cu_Content = p ''content'',
            cu_SrcUser = (case user of None \<Rightarrow> ''anonymous'' | Some n \<Rightarrow> n), cu_SrcIp = srcIP r, cu_AppName = p ''appName'',
            cu_Type = configType (p ''dataId'') (p ''type''), cu_CDesc = firstNonEmpty [p ''desc'', p ''cDesc''], cu_CUse = '''',
            cu_Effect = '''', cu_CSchema = '''', cu_ConfigMD5 = ''''\<rparr>
           (splitTags (if p ''configTags'' \<noteq> '''' then p ''configTags'' else p ''config_tags''))
           (\<lambda>e. v2Fail 500 500 (errText e)) (v2OK (JBool True)))"

definition configV2Delete :: "int \<Rightarrow> string option \<Rightarrow> apiReq \<Rightarrow> cfgHandler" where
  "configV2Delete now user r =
     (let q = qparam r
      in if q ''dataId'' = '''' \<or> q ''group'' = '''' then respond (v2Fail 400 400 ''dataId or group is empty'')
         else deleteWith now (q ''dataId'', q ''group'', tenantParam q) user (srcIP r)
           (\<lambda>e. v2Fail 500 500 (errText e)) (\<lambda>b. v2OK (JBool b)))"

definition configV2List :: "(int \<Rightarrow> string) \<Rightarrow> apiReq \<Rightarrow> cfgHandler" where
  "configV2List fmt r =
     (let q = qparam r; p = pageParams (ar_Query r)
      in onResult (listConfigs \<lparr>lq_TenantId = tenantParam q, lq_DataId = q ''dataId'', lq_GroupId = q ''group'', lq_AppName = '''',
             lq_Tag = '''', lq_Accurate = (q ''search'' = ''accurate''), lq_PageNo = fst p, lq_PageSize = snd p\<rparr>)
           (\<lambda>e. v2Fail 500 500 (errText e)) (\<lambda>out. respond (v2OK (pageOf fmt p out))))"

definition listenInfo :: "config_key \<Rightarrow> json" where
  "listenInfo k = JObj [(''dataId'', JStr (fst k)), (''group'', JStr (fst (snd k))), (''namespaceId'', JStr (snd (snd k))), (''md5'', JStr '''')]"

text \<open>\<open>infos\<close> is the decoded \<^verbatim>\<open>configInfos\<close> array, empty when the body does not decode.\<close>

definition configV2Listener :: "((config_key \<rightharpoonup> string) \<Rightarrow> config_key list \<Rightarrow> int \<Rightarrow> goerr + config_key list) \<Rightarrow> ListenKey list \<Rightarrow> apiResp" where
  "configV2Listener wait infos =
     (if infos = [] then v2OK (JArr [])
      else case wait (listenKnown infos) (map lk_Key infos) 29500 of
             Inl e \<Rightarrow> unavailable
           | Inr changed \<Rightarrow> v2OK (JArr (map listenInfo changed)))"

definition configV2HistoryList :: "(int \<Rightarrow> string) \<Rightarrow> apiReq \<Rightarrow> cfgHandler" where
  "configV2HistoryList fmt r =
     (let q = qparam r; p = pageParams (ar_Query r)
      in onResult (listHistory \<lparr>hq_TenantId = tenantParam q, hq_DataId = q ''dataId'', hq_GroupId = q ''group'',
             hq_Accurate = True, hq_PageNo = fst p, hq_PageSize = snd p\<rparr>)
           (\<lambda>e. v2Fail 500 500 (errText e)) (\<lambda>out. respond (v2OK (histPageOf fmt p out))))"

definition configV2HistoryDetail :: "(int \<Rightarrow> string) \<Rightarrow> apiReq \<Rightarrow> cfgHandler" where
  "configV2HistoryDetail fmt r =
     (let nid = atoiOr0 (qparam r ''nid'')
      in onResult (getHistory (if nid = 0 then atoiOr0 (qparam r ''id'') else nid)) (\<lambda>e. v2Fail 500 500 (errText e))
           (\<lambda>found. respond (case found of None \<Rightarrow> v2Fail 200 300 ''history not exist'' | Some h \<Rightarrow> v2OK (respFromHistory fmt True h))))"

subsection \<open>Namespaces\<close>

definition nsInfo :: "Namespace \<Rightarrow> json" where
  "nsInfo n = JObj [(''namespace'', JStr (ns_NamespaceId n)), (''namespaceShowName'', JStr (ns_Name n)), (''namespaceDesc'', JStr (ns_Desc n)),
     (''quota'', jInt 200), (''configCount'', jInt (ns_ConfigCount n)), (''type'', jInt 0)]"

definition namespaceListV1 :: cfgHandler where
  "namespaceListV1 =
     onResult listNamespaces (\<lambda>e. writeJSON 500 (JObj [(''code'', jInt 500), (''message'', JStr (errText e))]))
       (\<lambda>ns. respond (writeJSON 200 (JObj [(''code'', jInt 200), (''data'', JArr (map nsInfo ns)), (''message'', JNull)])))"

definition namespaceListV2 :: cfgHandler where
  "namespaceListV2 = onResult listNamespaces (\<lambda>e. v2Fail 500 500 (errText e)) (\<lambda>ns. respond (v2OK (JArr (map nsInfo ns))))"

definition createNs :: "(int \<Rightarrow> int \<Rightarrow> string \<Rightarrow> apiResp) \<Rightarrow> apiResp \<Rightarrow> (string \<Rightarrow> string) \<Rightarrow> cfgHandler" where
  "createNs failed ok p =
     (let i = firstNonEmpty [p ''customNamespaceId'', p ''namespaceId'']; name = firstNonEmpty [p ''customNamespaceName'', p ''namespaceName'']
      in if i = '''' \<or> name = '''' then respond (failed 400 400 ''namespaceId/namespaceName required'')
         else onResult (CreateNamespace i name (p ''namespaceDesc'')) (\<lambda>e. failed 500 500 (errText e))
                (\<lambda>created. respond (if created then ok else failed 400 400 ''namespace already exists'')))"

definition namespaceCreateV1 :: "(string \<Rightarrow> string) \<Rightarrow> apiReq \<Rightarrow> cfgHandler" where
  "namespaceCreateV1 ft r = createNs v1Fail (v1OK (JStr ''ok'')) (formOrJSON ft r)"

definition namespaceCreateV2 :: "(string \<Rightarrow> string) \<Rightarrow> apiReq \<Rightarrow> cfgHandler" where
  "namespaceCreateV2 ft r = createNs v2Fail (v2OK (JBool True)) (formOrJSON ft r)"

definition updateNs :: "(int \<Rightarrow> int \<Rightarrow> string \<Rightarrow> apiResp) \<Rightarrow> apiResp \<Rightarrow> (string \<Rightarrow> string) \<Rightarrow> cfgHandler" where
  "updateNs failed ok p =
     (if p ''namespaceId'' = '''' then respond (failed 400 400 ''namespaceId required'')
      else onResult (UpdateNamespace (p ''namespaceId'') (firstNonEmpty [p ''customNamespaceName'', p ''namespaceName'']) (p ''namespaceDesc''))
             (\<lambda>e. failed 500 500 (errText e)) (\<lambda>_. respond ok))"

definition namespaceUpdateV1 :: "(string \<Rightarrow> string) \<Rightarrow> apiReq \<Rightarrow> cfgHandler" where
  "namespaceUpdateV1 ft r = updateNs v1Fail (v1OK (JStr ''ok'')) (formOrJSON ft r)"

definition namespaceUpdateV2 :: "(string \<Rightarrow> string) \<Rightarrow> apiReq \<Rightarrow> cfgHandler" where
  "namespaceUpdateV2 ft r = updateNs v2Fail (v2OK (JBool True)) (formOrJSON ft r)"

definition deleteNs :: "(int \<Rightarrow> int \<Rightarrow> string \<Rightarrow> apiResp) \<Rightarrow> apiResp \<Rightarrow> string \<Rightarrow> cfgHandler" where
  "deleteNs failed ok i =
     (if i = '''' then respond (failed 400 400 ''namespaceId required'')
      else onResult (deleteNamespace i) (\<lambda>e. failed 500 500 (errText e))
             (\<lambda>(gone, reason). respond (if gone then ok else failed 400 400 (if reason \<noteq> '''' then reason else ''namespace not found''))))"

definition namespaceDeleteV1 :: "apiReq \<Rightarrow> cfgHandler" where
  "namespaceDeleteV1 r = deleteNs v1Fail (v1OK (JStr ''ok'')) (qparam r ''namespaceId'')"

definition namespaceDeleteV2 :: "apiReq \<Rightarrow> cfgHandler" where
  "namespaceDeleteV2 r = deleteNs v2Fail (v2OK (JBool True)) (qparam r ''namespaceId'')"

subsection \<open>What an admitted request leaves behind\<close>

lemma serve_cases:
  assumes "serveConfig env hdl n d = (resp, hooks, n', d')" "hdl \<lparr>tx_db = d, tx_hooks = []\<rparr> = (b, s)"
  obtains (refused) "resp = unavailable" "hooks = []" "d' = d"
  | (rejected) "resp = b \<or> resp = unavailable" "overflowed b \<or> rs_code b \<ge> 400" "resp = b \<longrightarrow> rs_code b \<ge> 400" "hooks = []" "d' = rollbackDb d (tx_db s)"
  | (lost) "resp = unavailable" "hooks = []" "d' = rollbackDb d (tx_db s)"
  | (unsure) "resp = unavailable" "hooks = []" "\<not> overflowed b" "rs_code b < 400" "\<not> te_commit env" "te_applied env" "d' = tx_db s"
  | (committed) "resp = b" "\<not> overflowed b" "rs_code b < 400" "hooks = tx_hooks s" "n' = n" "d' = tx_db s"
proof -
  have e: "ErrConfigInactive \<noteq> errConfigHandler" "ErrMsg ''context canceled'' \<noteq> errConfigHandler" "ErrMsg ''config commit failed'' \<noteq> errConfigHandler"
    by (simp_all add: ErrConfigInactive_def errConfigHandler_def)
  show thesis
    using assms that e
    by (auto simp: serveConfig_def WithConfigTransaction_def admittedTx_def Let_def split: if_splits)
qed

definition cfgSafe :: "db \<Rightarrow> db \<Rightarrow> bool" where
  "cfgSafe d d' \<longleftrightarrow> alone (script d') \<and> next_id (tabs d) \<le> next_id (tabs d')"

lemma cfgSafe_rollback: "goodState (n, d) \<Longrightarrow> cfgSafe d d' \<Longrightarrow> goodState (n', rollbackDb d d')"
  using wf_rollback [of "tabs d" "tabs d'"] by (simp add: goodState_def cfgSafe_def)

lemma retag_safe:
  assumes "replaceConfigTags i dataId grp tenant tags d = (r, d')" "alone (script d)"
  shows "alone (script d') \<and> frame (tabs d) (tabs d')"
  using tripleD [OF frame_retag [of "tabs d"] assms(2) _ assms(1)] by (simp add: frame_def)

text \<open>A publication inside its transaction.\<close>

lemma publish_run:
  assumes "publishWith md5 now u tags failed ok \<lparr>tx_db = d, tx_hooks = []\<rparr> = (b, s)" "goodState (n, d)"
    and "\<And>e. rs_code (failed e) \<ge> 400"
  shows "cfgSafe d (tx_db s) \<and>
    (rs_code b < 400 \<longrightarrow> b = ok \<and> tx_hooks s = [HookPublish (cuKey u) (md5 (cu_Content u))] \<and> frame (upsertSpec md5 now u (tabs d)) (tabs (tx_db s)))"
proof -
  obtain r d1 where r: "upsertConfig md5 now u d = (r, d1)" by force
  have 1: "alone (script d1)" "next_id (tabs d) \<le> next_id (tabs d1)" "\<And>a. r = Inr a \<Longrightarrow> tabs d1 = upsertSpec md5 now u (tabs d)"
    using put.result [OF _ _ r] assms(2) by (auto simp: goodState_def)
  obtain r2 d2 where r2: "replaceConfigTags (fst (projr r)) (cu_DataId u) (cu_GroupId u) (cu_TenantId u) tags d1 = (r2, d2)" by force
  have 2: "alone (script d2)" "frame (tabs d1) (tabs d2)" using retag_safe [OF r2 1(1)] by auto
  show ?thesis
  proof (cases r)
    case (Inl e)
    then show ?thesis using assms(1) 1 assms(3) [of e] by (auto simp: publishWith_def onResult_def liftTx_def r cfgSafe_def)
  next
    case (Inr a)
    obtain i created where a: "a = (i, created)" by force
    show ?thesis
    proof (cases "tags = []")
      case True
      then show ?thesis using assms(1) 1 Inr
        by (auto simp: publishWith_def onResult_def liftTx_def r cfgSafe_def a hooked_def respond_def frame_def)
    next
      case False
      then show ?thesis using assms(1) 1 2 Inr r2
        by (cases r2) (auto simp: publishWith_def onResult_def liftTx_def r cfgSafe_def a hooked_def respond_def frame_def writeText_def)
    qed
  qed
qed

lemma good_upsert_frame: "goodState (n, d) \<Longrightarrow> alone (script d') \<Longrightarrow> frame (upsertSpec md5 now u (tabs d)) (tabs d') \<Longrightarrow> goodState (n', d')"
  using wf_upsert [of "tabs d" md5 now u] wfConfig_frame [of "tabs d'" "upsertSpec md5 now u (tabs d)"] by (simp add: goodState_def frame_def)

lemma publish_served:
  assumes "serveConfig env (publishWith md5 now u tags failed ok) n d = (resp, hooks, n', d')" "goodState (n, d)"
    and "\<And>e. rs_code (failed e) \<ge> 400" "rs_code ok = 200"
  shows "goodState (n', d') \<and>
    (if rs_code resp = 200 then resp = ok \<and> hooks = [HookPublish (cuKey u) (md5 (cu_Content u))] \<and> frame (upsertSpec md5 now u (tabs d)) (tabs d')
     else hooks = [] \<and> (rollback (tabs d) (tabs d') = tabs d' \<or> (\<not> te_commit env \<and> te_applied env \<and> frame (upsertSpec md5 now u (tabs d)) (tabs d'))))"
proof -
  obtain b s where b: "publishWith md5 now u tags failed ok \<lparr>tx_db = d, tx_hooks = []\<rparr> = (b, s)" by force
  note run = publish_run [OF b assms(2,3)]
  have u: "rs_code unavailable = 503" by (simp add: unavailable_def writeText_def)
  have rb: "goodState (n'', rollbackDb d (tx_db s))" for n'' using cfgSafe_rollback [OF assms(2)] run by blast
  have roll: "rollback (tabs d) (rollback (tabs d) t) = rollback (tabs d) t" for t by (simp add: rollback_def)
  have good: "rs_code b < 400 \<Longrightarrow> goodState (n'', tx_db s)" for n''
    using good_upsert_frame [OF assms(2)] run by (auto simp: cfgSafe_def)
  from assms(1) b show ?thesis
  proof (cases rule: serve_cases)
    case refused
    then show ?thesis using assms(2) u by (simp add: goodState_def rollback_def)
  next
    case rejected
    then show ?thesis using rb u roll by auto
  next
    case lost
    then show ?thesis using rb u roll by auto
  next
    case unsure
    then show ?thesis using good u run by auto
  next
    case committed
    then show ?thesis using good run assms(4) by auto
  qed
qed

text \<open>On a database that answers, a publication succeeds and a read returns the row.\<close>

lemma upsert_quiet:
  assumes "script d = []" "configOK (tabs d)"
  shows "\<exists>a. upsertConfig md5 now u d = (Inr a, d\<lparr>tabs := upsertSpec md5 now u (tabs d)\<rparr>)"
proof (cases "lookupBy configKey (config_info (tabs d)) (cuKey u)")
  case None
  then have "cuKey u \<notin> configKey ` set (config_info (tabs d))" by (simp add: configs.lookup_None)
  then show ?thesis using assms None
    by (intro exI [of _ "(next_id (tabs d), True)"]) (simp add: upsertConfig_def selectConfigId_def go_simps select_row Let_def upsertSpec_def
        insertConfigTab_def insertUnique_def insertHistory_def)
next
  case (Some c)
  then show ?thesis using assms
    by (intro exI [of _ "(c_ID c, False)"])
      (simp add: upsertConfig_def selectConfigId_def go_simps select_row Let_def upsertSpec_def insertHistory_def)
qed

lemma get_quiet:
  assumes "script d = []" "configOK (tabs d)"
  shows "getConfig dataId grp tenant d = (Inr (lookupBy configKey (config_info (tabs d)) (dataId, grp, tenant)), d)"
  using assms by (simp add: getConfig_def go_simps select_row split: option.split)

definition working :: "txEnv \<Rightarrow> cnode \<Rightarrow> bool" where
  "working env n \<longleftrightarrow> \<not> te_cancelled env \<and> te_owns env \<and> te_begin env \<and> te_ownsAtCommit env \<and> te_commit env \<and> cn_lost n = Some False"

lemma serve_working:
  assumes "working env n" "hdl \<lparr>tx_db = d, tx_hooks = []\<rparr> = (b, s)" "\<not> overflowed b" "rs_code b < 400"
  shows "serveConfig env hdl n d = (b, tx_hooks s, n, tx_db s)"
  using assms by (simp add: serveConfig_def WithConfigTransaction_def admittedTx_def working_def)

lemma publish_quiet:
  assumes "script d = []" "configOK (tabs d)"
  shows "publishWith md5 now u [] failed ok \<lparr>tx_db = d, tx_hooks = []\<rparr> =
    (ok, \<lparr>tx_db = d\<lparr>tabs := upsertSpec md5 now u (tabs d)\<rparr>, tx_hooks = [HookPublish (cuKey u) (md5 (cu_Content u))]\<rparr>)"
  using upsert_quiet [OF assms, of md5 now u]
  by (auto simp: publishWith_def onResult_def liftTx_def hooked_def respond_def)

subsection \<open>Listening strings\<close>

definition listenEntry :: "ListenKey \<Rightarrow> string" where
  "listenEntry k = fst (lk_Key k) @ [fieldSep] @ fst (snd (lk_Key k)) @ [fieldSep] @ lk_Md5 k @ [fieldSep] @ snd (snd (lk_Key k)) @ [listenSep]"

definition listenable :: "ListenKey \<Rightarrow> bool" where
  "listenable k \<longleftrightarrow> {fieldSep, listenSep} \<inter> (set (fst (lk_Key k)) \<union> set (fst (snd (lk_Key k))) \<union> set (snd (snd (lk_Key k))) \<union> set (lk_Md5 k)) = {} \<and>
     fst (lk_Key k) \<noteq> '''' \<and> \<not> isSpace (hd (fst (lk_Key k))) \<and> (snd (snd (lk_Key k)) \<noteq> '''' \<longrightarrow> \<not> isSpace (last (snd (snd (lk_Key k)))))"

lemma trimSpace_tight: "s \<noteq> [] \<Longrightarrow> \<not> isSpace (hd s) \<Longrightarrow> \<not> isSpace (last s) \<Longrightarrow> trimSpace s = s"
proof -
  assume s: "s \<noteq> []" "\<not> isSpace (hd s)" "\<not> isSpace (last s)"
  have "dropWhile isSpace s = s" using s(1,2) by (simp add: dropWhile_eq_self_iff)
  moreover have "dropWhile isSpace (rev s) = rev s" using s(1,3) by (simp add: dropWhile_eq_self_iff hd_rev)
  ultimately show ?thesis by (simp add: trimSpace_def trimLeft_def trimRight_def)
qed

lemma parse_entry:
  assumes "listenable k"
  shows "parseListenEntry (butlast (listenEntry k)) = Some k"
proof -
  obtain d g t where k: "lk_Key k = (d, g, t)" by (cases "lk_Key k") auto
  let ?e = "d @ fieldSep # g @ fieldSep # lk_Md5 k @ fieldSep # t"
  have s: "fieldSep \<notin> set d" "fieldSep \<notin> set g" "fieldSep \<notin> set t" "fieldSep \<notin> set (lk_Md5 k)" "d \<noteq> []" "\<not> isSpace (hd d)"
    "t \<noteq> [] \<Longrightarrow> \<not> isSpace (last t)"
    using assms by (auto simp: listenable_def k)
  have "\<not> isSpace (last ?e)" using s(7) by (cases "t = []") (auto simp: fieldSep_def isSpace_def byte_def)
  then have "trimSpace ?e = ?e" using s by (intro trimSpace_tight) auto
  moreover have "butlast (listenEntry k) = ?e" by (simp add: listenEntry_def k butlast_append)
  moreover have "splitOn fieldSep ?e = [d, g, lk_Md5 k, t]" using s by (simp add: splitOn_append splitOn_no_sep)
  ultimately show ?thesis using s(5) by (simp add: k)
qed

lemma parse_listening:
  "\<forall>k\<in>set ks. listenable k \<Longrightarrow> parseV1ListeningConfigs (concat (map listenEntry ks)) = ks"
proof (induction ks)
  case Nil
  then show ?case by (simp add: parseV1ListeningConfigs_def map_filter_simps)
next
  case (Cons k ks)
  have e: "listenEntry k = butlast (listenEntry k) @ [listenSep]" by (simp add: listenEntry_def butlast_append)
  have "listenSep \<notin> set (butlast (listenEntry k))"
    using Cons.prems by (auto simp: listenEntry_def butlast_append listenable_def listenSep_def fieldSep_def)
  then have "splitOn listenSep (listenEntry k @ concat (map listenEntry ks)) = butlast (listenEntry k) # splitOn listenSep (concat (map listenEntry ks))"
    using splitOn_append [of listenSep "butlast (listenEntry k)" "concat (map listenEntry ks)"] e by (metis append.assoc append_Cons append_Nil)
  then show ?case using Cons parse_entry [of k] by (simp add: parseV1ListeningConfigs_def map_filter_simps del: parseListenEntry.simps)
qed

definition pubKey :: "(string \<Rightarrow> string) \<Rightarrow> apiReq \<Rightarrow> config_key" where
  "pubKey ft r = (formOrJSON ft r ''dataId'', formOrJSON ft r ''group'', formOrJSON ft r ''tenant'')"

subsection \<open>Properties\<close>

text \<open>C6. Publishing over HTTP is atomic from the client's point of view.  Status 200 means that the content is stored
  under its key with its digest, nothing else changed among the configurations, and exactly one notification went out;
  any other status means that no notification went out and the configuration tables are as before - also when only the
  tags could not be written - except for a commit whose answer was lost.\<close>

theorem api_publish_atomic:
  assumes "serveConfig env (configV1Publish ft md5 now user r) n d = (resp, hooks, n', d')" "goodState (n, d)"
  shows "goodState (n', d') \<and>
    (if rs_code resp = 200
     then hooks = [HookPublish (pubKey ft r) (md5 (formOrJSON ft r ''content''))] \<and>
       (\<exists>c. lookupBy configKey (config_info (tabs d')) = (lookupBy configKey (config_info (tabs d)))(pubKey ft r \<mapsto> c) \<and>
            c_Content c = formOrJSON ft r ''content'' \<and> c_Md5 c = md5 (formOrJSON ft r ''content''))
     else hooks = [] \<and> (rollback (tabs d) (tabs d') = tabs d' \<or> (\<not> te_commit env \<and> te_applied env)))"
proof (cases "formOrJSON ft r ''dataId'' = '''' \<or> formOrJSON ft r ''group'' = ''''")
  case True
  then have h: "configV1Publish ft md5 now user r \<lparr>tx_db = d, tx_hooks = []\<rparr> = (writeText 400 ''dataId or group is empty'', \<lparr>tx_db = d, tx_hooks = []\<rparr>)"
    by (simp add: configV1Publish_def respond_def)
  from assms(1) h show ?thesis
    by (cases rule: serve_cases)
      (use assms(2) wf_rollback [of "tabs d" "tabs d"] in \<open>auto simp: unavailable_def writeText_def goodState_def rollback_def\<close>)
next
  case False
  let ?u = "\<lparr>cu_DataId = formOrJSON ft r ''dataId'', cu_GroupId = formOrJSON ft r ''group'', cu_TenantId = formOrJSON ft r ''tenant'', cu_Content = formOrJSON ft r ''content'',
            cu_SrcUser = (case user of None \<Rightarrow> ''anonymous'' | Some n \<Rightarrow> n), cu_SrcIp = srcIP r, cu_AppName = formOrJSON ft r ''appName'',
            cu_Type = configType (formOrJSON ft r ''dataId'') (formOrJSON ft r ''type''), cu_CDesc = formOrJSON ft r ''desc'', cu_CUse = formOrJSON ft r ''use'', cu_Effect = formOrJSON ft r ''effect'',
            cu_CSchema = formOrJSON ft r ''schema'', cu_ConfigMD5 = ''''\<rparr>"
  have h: "configV1Publish ft md5 now user r = publishWith md5 now ?u (splitTags (formOrJSON ft r ''config_tags''))
      (\<lambda>e. writeText 500 (''publish failed: '' @ errText e)) (writeText 200 ''true'')"
    using False by (simp add: configV1Publish_def Let_def)
  note served = publish_served [OF assms(1) [unfolded h] assms(2)]
  have u: "cuKey ?u = pubKey ft r" "upsertMd5 md5 ?u = md5 (formOrJSON ft r ''content'')" by (simp_all add: cuKey_def pubKey_def upsertMd5_def)
  have eff: "\<exists>c. lookupBy configKey (config_info (tabs d')) = (lookupBy configKey (config_info (tabs d)))(pubKey ft r \<mapsto> c) \<and>
      c_Content c = formOrJSON ft r ''content'' \<and> c_Md5 c = md5 (formOrJSON ft r ''content'')"
    if "frame (upsertSpec md5 now ?u (tabs d)) (tabs d')"
    using upsert_effect [OF wfConfigD(1) refl, of "tabs d" md5 now ?u] assms(2) that u
    by (auto simp: goodState_def frame_def)
  then show ?thesis using served u by (auto simp: writeText_def split: if_splits)
qed

definition demoPublish :: apiReq where
  "demoPublish = \<lparr>ar_Method = ''POST'', ar_Path = ''/nacos/v1/cs/configs'', ar_Query = [],
     ar_PostForm = [(''dataId'', ''app.yml''), (''group'', ''G''), (''content'', ''a: 1'')], ar_ContentType = ''application/x-www-form-urlencoded'',
     ar_Body = '''', ar_Cookies = [], ar_Authorization = '''', ar_LongPulling = '''', ar_RemoteAddr = ''10.0.0.7:4711''\<rparr>"

definition demoGet :: apiReq where
  "demoGet = demoPublish\<lparr>ar_Method := ''GET'', ar_Query := [(''dataId'', ''app.yml''), (''group'', ''G''), (''tenant'', '''')], ar_PostForm := []\<rparr>"

lemma demo_form:
  "formOrJSON ft demoPublish k = (if k = ''dataId'' then ''app.yml'' else if k = ''group'' then ''G'' else if k = ''content'' then ''a: 1'' else '''')"
  by (simp add: formOrJSON_def demoPublish_def qget_def arForm_def hasPrefix_def)

theorem api_publish_atomic_witness:
  "\<exists>resp hooks n' d'. serveConfig demoEnv (configV1Publish (\<lambda>s. s) (\<lambda>s. s) 7 None demoPublish) demoNode demoDb = (resp, hooks, n', d') \<and> goodState (n', d')"
proof -
  obtain resp hooks n' d' where r: "serveConfig demoEnv (configV1Publish (\<lambda>s. s) (\<lambda>s. s) 7 None demoPublish) demoNode demoDb = (resp, hooks, n', d')"
    by (metis prod_cases4)
  with api_publish_atomic [OF r demo_good] show ?thesis by blast
qed

text \<open>C15. What is published over HTTP can be read back: on a node that owns the configuration and a database that answers,
  a publication without tags is answered \<^verbatim>\<open>true\<close> and the following read of that key returns exactly the published
  content, however both requests were encoded.\<close>

theorem api_publish_get_roundtrip:
  assumes "working env n" "working env' n" "script d = []" "goodState (n, d)"
    and "formOrJSON ft r ''dataId'' \<noteq> ''''" "formOrJSON ft r ''group'' \<noteq> ''''" "formOrJSON ft r ''config_tags'' = ''''"
    and "length (formOrJSON ft r ''content'') \<le> 16 * 1024 * 1024"
    and "ar_Query r' = [(''dataId'', formOrJSON ft r ''dataId''), (''group'', formOrJSON ft r ''group''), (''tenant'', formOrJSON ft r ''tenant'')]"
  shows "\<exists>d'. serveConfig env (configV1Publish ft md5 now user r) n d =
        (writeText 200 ''true'', [HookPublish (pubKey ft r) (md5 (formOrJSON ft r ''content''))], n, d') \<and>
      serveConfig env' (configV1Get fmt r') n d' = (writeText 200 (formOrJSON ft r ''content''), [], n, d')"
proof -
  let ?p = "formOrJSON ft r"
  let ?u = "\<lparr>cu_DataId = ?p ''dataId'', cu_GroupId = ?p ''group'', cu_TenantId = ?p ''tenant'', cu_Content = ?p ''content'',
            cu_SrcUser = (case user of None \<Rightarrow> ''anonymous'' | Some n \<Rightarrow> n), cu_SrcIp = srcIP r, cu_AppName = ?p ''appName'',
            cu_Type = configType (?p ''dataId'') (?p ''type''), cu_CDesc = ?p ''desc'', cu_CUse = ?p ''use'', cu_Effect = ?p ''effect'',
            cu_CSchema = ?p ''schema'', cu_ConfigMD5 = ''''\<rparr>"
  let ?d = "d\<lparr>tabs := upsertSpec md5 now ?u (tabs d)\<rparr>"
  have ok: "configOK (tabs d)" "configOK (tabs ?d)"
    using assms(4) wfConfigD(1) upsertSpec_lookup [of "tabs d" md5 now ?u] by (auto simp: goodState_def)
  have u: "cuKey ?u = pubKey ft r" by (simp add: cuKey_def pubKey_def)
  have h: "configV1Publish ft md5 now user r = publishWith md5 now ?u [] (\<lambda>e. writeText 500 (''publish failed: '' @ errText e)) (writeText 200 ''true'')"
    using assms(5-7) by (simp add: configV1Publish_def Let_def splitTags_def)
  have pub: "serveConfig env (configV1Publish ft md5 now user r) n d = (writeText 200 ''true'', [HookPublish (pubKey ft r) (md5 (?p ''content''))], n, ?d)"
    unfolding h using publish_quiet [OF assms(3) ok(1), of md5 now ?u "\<lambda>e. writeText 500 (''publish failed: '' @ errText e)" "writeText 200 ''true''"]
    by (subst serve_working [OF assms(1)]) (auto simp: u overflowed_def writeText_def)
  obtain c where c: "lookupBy configKey (config_info (tabs ?d)) = (lookupBy configKey (config_info (tabs d)))(pubKey ft r \<mapsto> c)" "c_Content c = ?p ''content''"
    using upsert_effect [OF ok(1) refl, of md5 now ?u] u by auto
  have get: "configV1Get fmt r' \<lparr>tx_db = ?d, tx_hooks = []\<rparr> = (writeText 200 (?p ''content''), \<lparr>tx_db = ?d, tx_hooks = []\<rparr>)"
    using assms(3,5,6,9) get_quiet [of ?d "?p ''dataId''" "?p ''group''" "?p ''tenant''"] ok(2) c
    by (simp add: configV1Get_def Let_def qparam_def qget_def qhas_def onResult_def liftTx_def respond_def pubKey_def)
  have "serveConfig env' (configV1Get fmt r') n ?d = (writeText 200 (?p ''content''), [], n, ?d)"
    using serve_working [where hdl = "configV1Get fmt r'", OF assms(2) get] assms(8) by (simp add: overflowed_def writeText_def)
  with pub show ?thesis by blast
qed

theorem api_publish_get_roundtrip_witness:
  "\<exists>d'. serveConfig demoEnv (configV1Get (\<lambda>_. '''') demoGet) demoNode d' = (writeText 200 ''a: 1'', [], demoNode, d')"
  using api_publish_get_roundtrip [of demoEnv demoNode demoEnv demoDb "\<lambda>s. s" demoPublish demoGet "\<lambda>s. s" 7 None "\<lambda>_. ''''"] demo_good
  by (auto simp: working_def demoEnv_def demoNode_def demoDb_def demo_form demoGet_def)

text \<open>The listening string of a version 1 client survives parsing: every list of keys and digests free of the two
  separators, with data ids that are not empty and no blank at either end of an entry, is read back as it was written.\<close>

theorem listening_roundtrip:
  assumes "\<forall>k\<in>set ks. listenable k"
  shows "parseV1ListeningConfigs (concat (map listenEntry ks)) = ks"
  using parse_listening [OF assms] .

theorem listening_roundtrip_witness:
  "parseV1ListeningConfigs (listenEntry \<lparr>lk_Key = (''app.yml'', ''G'', ''dev''), lk_Md5 = ''m''\<rparr>) = [\<lparr>lk_Key = (''app.yml'', ''G'', ''dev''), lk_Md5 = ''m''\<rparr>]"
  using listening_roundtrip [of "[\<lparr>lk_Key = (''app.yml'', ''G'', ''dev''), lk_Md5 = ''m''\<rparr>]"]
  by (simp add: listenable_def fieldSep_def listenSep_def isSpace_def byte_def)

end
