(* ===== verification/Auth.thy ===== *)
theory Auth
  imports ApiCore
begin

text \<open>
  Accounts, tokens and the guard in front of every endpoint: \<^verbatim>\<open>internal/storage/authstore.go\<close> with \<^verbatim>\<open>Store.Seed\<close>,
  \<^verbatim>\<open>internal/core/auth.go\<close>, \<^verbatim>\<open>internal/api/router.go\<close> and \<^verbatim>\<open>auth_api.go\<close>, and the checks of \<^verbatim>\<open>config.ValidateAuth\<close>.
  The password hash and the token library are arguments: \<open>compareHash\<close> and \<open>generateHash\<close> stand for bcrypt, \<open>signTok\<close>
  and \<open>openTok\<close> for the HS256 JWT library (\<open>openTok\<close> gives the claims of a token whose signature and method are right).
\<close>

subsection \<open>Configuration\<close>

record authCfg =
  ac_AuthEnabled :: bool
  ac_TokenSecret :: string
  ac_TokenTTLSeconds :: int
  ac_AdminUsername :: string
  ac_AdminPassword :: string

definition oldPublicKey :: string where
  "oldPublicKey = ''goacos-default-secret-SecretKey012345678901234567890123456789012345678901234567890123456789''"

definition ValidAuthPassword :: "string \<Rightarrow> bool" where
  "ValidAuthPassword pw \<longleftrightarrow> utf8Valid pw \<and> runeCount pw \<ge> 12 \<and> length pw \<le> 72 \<and> trimSpace pw = pw"

definition ValidateAuth :: "authCfg \<Rightarrow> goerr option" where
  "ValidateAuth c =
     (if \<not> ac_AuthEnabled c then None
      else if length (ac_TokenSecret c) < 32 \<or> ac_TokenSecret c = oldPublicKey \<or> trimSpace (ac_TokenSecret c) \<noteq> ac_TokenSecret c
        then Some (ErrMsg ''auth configuration: an explicit private JWT key of at least 32 bytes is required'')
      else if ac_AdminUsername c = '''' \<or> trimSpace (ac_AdminUsername c) \<noteq> ac_AdminUsername c
        then Some (ErrMsg ''auth configuration: a nonblank admin seed username is required'')
      else if \<not> ValidAuthPassword (ac_AdminPassword c)
        then Some (ErrMsg ''auth configuration: a private admin seed password of at least 12 characters and at most 72 bytes is required'')
      else if ac_TokenTTLSeconds c \<le> 0 \<or> ac_TokenTTLSeconds c > 86400
        then Some (ErrMsg ''auth configuration: JWT TTL must be positive and at most 86400 seconds'')
      else None)"

subsection \<open>Account store\<close>

datatype hashCheck = HashMatches | HashMismatch | HashBroken

type_synonym compareHash = "string \<Rightarrow> string \<Rightarrow> hashCheck"

fun adminHashes :: "compareHash \<Rightarrow> string list \<Rightarrow> unit dbop" where
  "adminHashes cmp [] = retS ()"
| "adminHashes cmp (h # hs) =
     (case cmp h ''nacos'' of
        HashMatches \<Rightarrow> failS (ErrMsg ''auth state: old public administrator credential requires explicit rotation'')
      | HashBroken \<Rightarrow> failS (ErrMsg ''auth state: invalid active administrator password hash'')
      | HashMismatch \<Rightarrow> adminHashes cmp hs)"

definition activeAdmins :: "tables \<Rightarrow> User list" where
  "activeAdmins t = filter (\<lambda>u. u_Enabled u \<and> (u_Username u, ''ROLE_ADMIN'') \<in> set (roles t)) (users t)"

definition ValidateAuthState :: "compareHash \<Rightarrow> authCfg \<Rightarrow> unit dbop" where
  "ValidateAuthState cmp cfg =
     (if \<not> ac_AuthEnabled cfg then retS ()
      else tryS (query (\<lambda>t. remdups (map u_Password (activeAdmins t))))
             (\<lambda>e. failS (ErrMsg ''auth state: cannot verify active administrator credentials''))
             (adminHashes cmp))"

definition GetUser :: "string \<Rightarrow> User option dbop" where
  "GetUser username =
     tryS (queryRow (\<lambda>t. filter (\<lambda>u. u_Username u = username) (users t)))
       (\<lambda>e. if e = ErrNoRows then retS None else failS e) (\<lambda>u. retS (Some u))"

definition CreateUser :: "string \<Rightarrow> string \<Rightarrow> unit dbop" where
  "CreateUser username hash =
     exec (\<lambda>t. let (r, us) = insertUnique u_Username \<lparr>u_Username = username, u_Password = hash, u_Enabled = True\<rparr> (users t)
               in (r, t\<lparr>users := us\<rparr>))"

definition UpdatePassword :: "string \<Rightarrow> string \<Rightarrow> unit dbop" where
  "UpdatePassword username hash =
     exec (\<lambda>t. (Inr (), t\<lparr>users := updateWhere (\<lambda>u. u_Username u = username) (\<lambda>u. u\<lparr>u_Password := hash\<rparr>) (users t)\<rparr>))"

definition DeleteUser :: "string \<Rightarrow> unit dbop" where
  "DeleteUser username =
     bindS (exec (\<lambda>t. (Inr (), t\<lparr>roles := deleteWhere (\<lambda>r. fst r = username) (roles t)\<rparr>)))
       (\<lambda>_. exec (\<lambda>t. (Inr (), t\<lparr>users := deleteWhere (\<lambda>u. u_Username u = username) (users t)\<rparr>)))"

definition ListUsers :: "int \<Rightarrow> int \<Rightarrow> (User list \<times> (string \<Rightarrow> string list) \<times> int) dbop" where
  "ListUsers pageNo0 pageSize0 =
     (let (pageNo, pageSize) = clampPage 100 pageNo0 pageSize0
      in bindS (query (\<lambda>t. int (length (users t))))
           (\<lambda>cnt. bindS (stmt (\<lambda>t. (limitOffset pageNo pageSize (sliceStable (\<lambda>a b. u_Username a < u_Username b) (users t)), t)))
              (\<lambda>us. bindS (query roles) (\<lambda>rs. retS (us, \<lambda>n. map snd (filter (\<lambda>r. fst r = n) rs), cnt)))))"

definition ListRolesByUser :: "string \<Rightarrow> string list dbop" where
  "ListRolesByUser username = query (\<lambda>t. map snd (filter (\<lambda>r. fst r = username) (roles t)))"

text \<open>The rows of the outer join: one without a role for an enabled account that has none.\<close>

definition EnabledUserRoles :: "string \<Rightarrow> (string list \<times> bool) dbop" where
  "EnabledUserRoles username =
     query (\<lambda>t. let active = list_ex (\<lambda>u. u_Username u = username \<and> u_Enabled u) (users t)
                in (if active then map snd (filter (\<lambda>r. fst r = username) (roles t)) else [], active))"

definition AddRole :: "string \<Rightarrow> string \<Rightarrow> unit dbop" where
  "AddRole username role = exec (\<lambda>t. (Inr (), t\<lparr>roles := insertIgnore (\<lambda>r. r) (username, role) (roles t)\<rparr>))"

definition DeleteRole :: "string \<Rightarrow> string \<Rightarrow> unit dbop" where
  "DeleteRole username role = exec (\<lambda>t. (Inr (), t\<lparr>roles := deleteWhere (\<lambda>r. r = (username, role)) (roles t)\<rparr>))"

definition seedAdmin :: "(string \<Rightarrow> goerr + string) \<Rightarrow> authCfg \<Rightarrow> unit dbop" where
  "seedAdmin gen cfg =
     (if ac_AdminUsername cfg = '''' then retS ()
      else case gen (ac_AdminPassword cfg) of
             Inl e \<Rightarrow> failS e
           | Inr hash \<Rightarrow>
               bindS (exec (\<lambda>t. (Inr (), t\<lparr>users := insertIgnore u_Username
                        \<lparr>u_Username = ac_AdminUsername cfg, u_Password = hash, u_Enabled = True\<rparr> (users t)\<rparr>)))
                 (\<lambda>_. bindS (AddRole (ac_AdminUsername cfg) ''ROLE_ADMIN'')
                    (\<lambda>_. exec (\<lambda>t. (Inr (), t\<lparr>permissions := insertIgnore (\<lambda>p. p) (''ROLE_ADMIN'', ''/*'', ''rw'') (permissions t)\<rparr>)))))"

definition seedNamespace :: "unit dbop" where
  "seedNamespace =
     tryS (query (\<lambda>t. countWhere (\<lambda>n. n_NamespaceId n = '''') (tenant_info t)))
       (\<lambda>_. retS ())
       (\<lambda>m. if m = 0
            then tryS (exec (\<lambda>t. (Inr (), t\<lparr>tenant_info := insertIgnore n_NamespaceId
                        \<lparr>n_id = next_id t, n_NamespaceId = '''', n_Name = ''public'', n_Desc = ''Public Namespace''\<rparr> (tenant_info t),
                        next_id := next_id t + 1\<rparr>)))
                   (\<lambda>_. retS ()) (\<lambda>_. retS ())
            else retS ())"

definition Seed :: "(string \<Rightarrow> goerr + string) \<Rightarrow> compareHash \<Rightarrow> authCfg \<Rightarrow> unit dbop" where
  "Seed gen cmp cfg =
     bindS (query (\<lambda>t. length (users t)))
       (\<lambda>n. bindS (if n = 0 then seedAdmin gen cfg else retS ())
          (\<lambda>_. bindS (ValidateAuthState cmp cfg) (\<lambda>_. seedNamespace)))"

subsection \<open>Tokens\<close>

record jwtClaims =
  jw_sub :: string
  jw_roles :: "string list"
  jw_iss :: string
  jw_iat :: int
  jw_exp :: int

record Claims =
  cl_Username :: string
  cl_Roles :: "string list"
  cl_Admin :: bool

definition ErrBadCredentials :: goerr where
  "ErrBadCredentials = ErrMsg ''unknown user or wrong password''"

definition hasAdmin :: "string list \<Rightarrow> bool" where
  "hasAdmin rs \<longleftrightarrow> ''ROLE_ADMIN'' \<in> set rs"

definition Login :: "compareHash \<Rightarrow> (string \<Rightarrow> jwtClaims \<Rightarrow> goerr + string) \<Rightarrow> authCfg \<Rightarrow> int \<Rightarrow> string \<Rightarrow> string \<Rightarrow> (string \<times> int \<times> bool) dbop" where
  "Login cmp signTok cfg now username password =
     (case ValidateAuth cfg of
        Some e \<Rightarrow> failS e
      | None \<Rightarrow>
          if ac_AuthEnabled cfg \<and> \<not> ValidAuthPassword password then failS ErrBadCredentials
          else bindS (GetUser username)
            (\<lambda>found. case found of
               None \<Rightarrow> failS ErrBadCredentials
             | Some u \<Rightarrow>
                 if \<not> u_Enabled u \<or> cmp (u_Password u) password \<noteq> HashMatches then failS ErrBadCredentials
                 else bindS (ListRolesByUser username)
                   (\<lambda>rs. case signTok (ac_TokenSecret cfg) \<lparr>jw_sub = username, jw_roles = rs, jw_iss = ''goacos'', jw_iat = now,
                                jw_exp = now + ac_TokenTTLSeconds cfg\<rparr> of
                           Inl e \<Rightarrow> failS e
                         | Inr tok \<Rightarrow> retS (tok, ac_TokenTTLSeconds cfg, hasAdmin rs))))"

text \<open>The registered claims \<^verbatim>\<open>jwt.Parse\<close> is asked to check: issuer, expiry (required) and issue time.\<close>

definition claimsInForce :: "int \<Rightarrow> jwtClaims \<Rightarrow> bool" where
  "claimsInForce now c \<longleftrightarrow> jw_iss c = ''goacos'' \<and> now < jw_exp c \<and> jw_iat c \<le> now"

definition Parse :: "(string \<Rightarrow> string \<Rightarrow> jwtClaims option) \<Rightarrow> authCfg \<Rightarrow> int \<Rightarrow> string \<Rightarrow> goerr + Claims" where
  "Parse openTok cfg now tok =
     (case ValidateAuth cfg of
        Some e \<Rightarrow> Inl e
      | None \<Rightarrow>
          (case openTok (ac_TokenSecret cfg) tok of
             None \<Rightarrow> Inl (ErrMsg ''invalid token'')
           | Some c \<Rightarrow>
               if \<not> claimsInForce now c then Inl (ErrMsg ''invalid token'')
               else if jw_sub c = '''' \<or> trimSpace (jw_sub c) \<noteq> jw_sub c then Inl (ErrMsg ''invalid subject'')
               else Inr \<lparr>cl_Username = jw_sub c, cl_Roles = jw_roles c, cl_Admin = hasAdmin (jw_roles c)\<rparr>))"

definition Authenticate :: "(string \<Rightarrow> string \<Rightarrow> jwtClaims option) \<Rightarrow> authCfg \<Rightarrow> int \<Rightarrow> string \<Rightarrow> Claims dbop" where
  "Authenticate openTok cfg now tok =
     (case Parse openTok cfg now tok of
        Inl e \<Rightarrow> failS e
      | Inr claims \<Rightarrow>
          bindS (EnabledUserRoles (cl_Username claims))
            (\<lambda>(rs, active). if \<not> active then failS ErrBadCredentials
                            else retS (claims\<lparr>cl_Roles := rs, cl_Admin := hasAdmin rs\<rparr>)))"

subsection \<open>Guard\<close>

definition isRead :: "string \<Rightarrow> bool" where
  "isRead m \<longleftrightarrow> m = ''GET'' \<or> m = ''HEAD''"

definition isOpenPath :: "string \<Rightarrow> string \<Rightarrow> bool" where
  "isOpenPath method path =
     (if path \<in> {''/'', ''/nacos'', ''/nacos/index.html'', ''/nacos/favicon.ico''} then isRead method
      else if isRead method \<and> (path = ''/nacos/'' \<or> hasPrefix path ''/nacos/assets/'') then True
      else if path \<in> {''/nacos/actuator/health'', ''/nacos/v1/console/health/readiness'', ''/nacos/v1/console/health/liveness'',
                      ''/nacos/v1/console/server/state''} then isRead method
      else if path \<in> {''/nacos/v1/auth/users/login'', ''/nacos/v2/auth/user/login''} then method = ''POST'' \<or> method = ''GET''
      else False)"

definition isAdminOnly :: "string \<Rightarrow> string \<Rightarrow> bool" where
  "isAdminOnly path method =
     (if hasPrefix path ''/nacos/v1/auth/users'' then True
      else if hasPrefix path ''/nacos/v1/auth/roles'' then True
      else if path = ''/nacos/v1/ns/instance/beat'' then True
      else if method = ''POST'' \<and> path \<in> {''/nacos/v1/cs/configs/listener'', ''/nacos/v2/cs/config/listener''} then False
      else \<not> isRead method)"

definition requestToken :: "apiReq \<Rightarrow> string" where
  "requestToken r =
     (let t1 = qparam r ''accessToken''; t2 = (if t1 = '''' then qget (ar_Cookies r) ''accessToken'' else t1);
          h = trimPrefix (ar_Authorization r) ''Bearer ''
      in if t2 = '''' then (if h \<noteq> '''' then trimSpace h else '''') else t2)"

definition tokenFromRequest :: "(string \<Rightarrow> string \<Rightarrow> jwtClaims option) \<Rightarrow> authCfg \<Rightarrow> int \<Rightarrow> apiReq \<Rightarrow> Claims dbop" where
  "tokenFromRequest openTok cfg now r =
     (if requestToken r = '''' then failS (ErrMsg ''unauthorized'') else Authenticate openTok cfg now (requestToken r))"

definition refusal :: "string \<Rightarrow> string \<Rightarrow> string \<Rightarrow> string \<Rightarrow> apiResp" where
  "refusal stamp err msg path =
     writeJSON 403 (JObj [(''error'', JStr err), (''message'', JStr msg), (''path'', JStr path), (''status'', jInt 403), (''timestamp'', JStr stamp)])"

text \<open>The guard of \<^verbatim>\<open>middleware\<close>: a refusal, or the claims the request goes on with.\<close>

definition middleware :: "(string \<Rightarrow> string \<Rightarrow> jwtClaims option) \<Rightarrow> authCfg \<Rightarrow> int \<Rightarrow> string \<Rightarrow> apiReq \<Rightarrow> db \<Rightarrow> (apiResp + Claims option) \<times> db" where
  "middleware openTok cfg now stamp r d =
     (if ac_AuthEnabled cfg \<and> \<not> isOpenPath (ar_Method r) (ar_Path r)
      then (case tokenFromRequest openTok cfg now r d of
              (Inl e, d') \<Rightarrow> (Inl (refusal stamp ''Unauthorized'' ''invalid token'' (ar_Path r)), d')
            | (Inr claims, d') \<Rightarrow>
                if isAdminOnly (ar_Path r) (ar_Method r) \<and> \<not> cl_Admin claims
                then (Inl (refusal stamp ''Forbidden'' ''admin permission required'' (ar_Path r)), d')
                else (Inr (Some claims), d'))
      else (Inr None, d))"

definition isConfigPath :: "string \<Rightarrow> bool" where
  "isConfigPath path \<longleftrightarrow> hasPrefix path ''/nacos/v1/cs/'' \<or> hasPrefix path ''/nacos/v2/cs/'' \<or> path = ''/nacos/v1/ns/operator/metrics'' \<or>
     path = ''/nacos/v1/console/namespaces'' \<or> hasPrefix path ''/nacos/v2/console/namespace''"

subsection \<open>Endpoints\<close>

type_synonym dbHandler = "db \<Rightarrow> apiResp \<times> db"

definition reply :: "apiResp \<Rightarrow> dbHandler" where
  "reply b d = (b, d)"

definition andThen :: "'a dbop \<Rightarrow> (goerr \<Rightarrow> dbHandler) \<Rightarrow> ('a \<Rightarrow> dbHandler) \<Rightarrow> dbHandler" where
  "andThen m h k d = (case m d of (Inl e, d') \<Rightarrow> h e d' | (Inr a, d') \<Rightarrow> k a d')"

definition v1Error :: "goerr \<Rightarrow> dbHandler" where
  "v1Error e = reply (v1Fail 500 500 (errText e))"

definition authLogin :: "compareHash \<Rightarrow> (string \<Rightarrow> jwtClaims \<Rightarrow> goerr + string) \<Rightarrow> authCfg \<Rightarrow> int \<Rightarrow> apiReq \<Rightarrow> dbHandler" where
  "authLogin cmp signTok cfg now r =
     (let f = qget (arForm r); username = firstNonEmpty [f ''username'', f ''user'']; password = firstNonEmpty [f ''password'', f ''pass'']
      in if username = '''' \<or> password = ''''
         then reply (writeJSON 400 (JObj [(''code'', jInt 400), (''message'', JStr ''username/password required'')]))
         else andThen (Login cmp signTok cfg now username password)
           (\<lambda>e. reply (writeJSON 401 (JObj [(''code'', jInt 401), (''message'', JStr ''unknown user'')])))
           (\<lambda>(tok, ttl, admin). reply (writeJSON 200 (JObj
              [(''accessToken'', JStr tok), (''code'', jInt 200),
               (''data'', JObj [(''accessToken'', JStr tok), (''globalAdmin'', JBool admin), (''tokenTtl'', jInt ttl), (''username'', JStr username)]),
               (''globalAdmin'', JBool admin), (''message'', JStr ''success''), (''tokenTtl'', jInt ttl), (''username'', JStr username)]))))"

definition authLoginV2 :: "compareHash \<Rightarrow> (string \<Rightarrow> jwtClaims \<Rightarrow> goerr + string) \<Rightarrow> authCfg \<Rightarrow> int \<Rightarrow> apiReq \<Rightarrow> dbHandler" where
  "authLoginV2 cmp signTok cfg now r =
     andThen (Login cmp signTok cfg now (qget (arForm r) ''username'') (qget (arForm r) ''password''))
       (\<lambda>e. reply (v2Fail 401 401 ''unknown user''))
       (\<lambda>(tok, ttl, admin). reply (v2OK (JObj [(''accessToken'', JStr tok), (''globalAdmin'', JBool admin), (''tokenTtl'', jInt ttl)])))"

definition authListUsers :: "apiReq \<Rightarrow> dbHandler" where
  "authListUsers r =
     (let (pageNo, pageSize) = pageShown 25 (pageParams (ar_Query r))
      in andThen (ListUsers pageNo pageSize) v1Error
           (\<lambda>(us, rs, cnt). reply (writeJSON 200 (newPage cnt pageNo pageSize
              (map (\<lambda>u. JObj [(''username'', JStr (u_Username u)), (''roles'', JArr (map JStr (rs (u_Username u)))), (''enabled'', JBool (u_Enabled u))]) us)))))"

definition badPassword :: apiResp where
  "badPassword = v1Fail 400 400 ''password must contain 12+ characters, at most 72 bytes and no padding''"

definition authCreateUser :: "(string \<Rightarrow> string) \<Rightarrow> (string \<Rightarrow> goerr + string) \<Rightarrow> authCfg \<Rightarrow> apiReq \<Rightarrow> dbHandler" where
  "authCreateUser ft gen cfg r =
     (let p = formOrJSON ft r
      in if p ''username'' = '''' \<or> p ''password'' = '''' then reply (v1Fail 400 400 ''username/password required'')
         else if ac_AuthEnabled cfg \<and> \<not> ValidAuthPassword (p ''password'') then reply badPassword
         else case gen (p ''password'') of
                Inl e \<Rightarrow> v1Error e
              | Inr hash \<Rightarrow> andThen (CreateUser (p ''username'') hash) v1Error
                  (\<lambda>_. andThen (AddRole (p ''username'') ''ROLE_USER'') (\<lambda>_. reply (v1OK (JStr ''ok''))) (\<lambda>_. reply (v1OK (JStr ''ok'')))))"

definition setPassword :: "(string \<Rightarrow> goerr + string) \<Rightarrow> string \<Rightarrow> string \<Rightarrow> dbHandler" where
  "setPassword gen username newPassword =
     (case gen newPassword of
        Inl e \<Rightarrow> v1Error e
      | Inr hash \<Rightarrow> andThen (UpdatePassword username hash) v1Error (\<lambda>_. reply (v1OK (JStr ''ok''))))"

definition authUpdateUser :: "(string \<Rightarrow> string) \<Rightarrow> compareHash \<Rightarrow> (string \<Rightarrow> goerr + string) \<Rightarrow> authCfg \<Rightarrow> Claims option \<Rightarrow> apiReq \<Rightarrow> dbHandler" where
  "authUpdateUser ft cmp gen cfg claims r =
     (let p = formOrJSON ft r; username = p ''username''; oldPassword = firstNonEmpty [p ''oldPassword'', p ''oldPass''];
          newPassword = firstNonEmpty [p ''newPassword'', p ''newPass'']
      in if username = '''' \<or> newPassword = '''' then reply (v1Fail 400 400 ''username/newPassword required'')
         else if ac_AuthEnabled cfg \<and> \<not> ValidAuthPassword newPassword then reply badPassword
         else if (case claims of None \<Rightarrow> True | Some c \<Rightarrow> \<not> cl_Admin c \<or> cl_Username c \<noteq> username \<or> oldPassword \<noteq> '''')
         then andThen (GetUser username) (\<lambda>e. reply (v1Fail 404 404 ''user not found''))
                (\<lambda>found. case found of
                   None \<Rightarrow> reply (v1Fail 404 404 ''user not found'')
                 | Some u \<Rightarrow> if oldPassword \<noteq> '''' \<and> cmp (u_Password u) oldPassword \<noteq> HashMatches
                             then reply (v1Fail 400 400 ''old password mismatch'') else setPassword gen username newPassword)
         else setPassword gen username newPassword)"

definition authDeleteUser :: "apiReq \<Rightarrow> dbHandler" where
  "authDeleteUser r =
     (if qparam r ''username'' = '''' then reply (v1Fail 400 400 ''username required'')
      else andThen (DeleteUser (qparam r ''username'')) v1Error (\<lambda>_. reply (v1OK (JStr ''ok''))))"

definition roleInfo :: "string \<Rightarrow> string \<Rightarrow> json" where
  "roleInfo username role = JObj [(''role'', JStr role), (''username'', JStr username)]"

definition rolePage :: "json list \<Rightarrow> apiResp" where
  "rolePage items = v1OK (JObj [(''pageItems'', JArr items), (''totalCount'', jInt (int (length items)))])"

definition authListRoles :: "apiReq \<Rightarrow> dbHandler" where
  "authListRoles r =
     (let username = qparam r ''username''
      in if username \<noteq> ''''
         then andThen (ListRolesByUser username) v1Error (\<lambda>rs. reply (rolePage (map (roleInfo username) rs)))
         else andThen (ListUsers 1 500) v1Error
                (\<lambda>(us, rs, cnt). reply (rolePage (concat (map (\<lambda>u. map (roleInfo (u_Username u)) (rs (u_Username u))) us)))))"

definition authAddRole :: "(string \<Rightarrow> string) \<Rightarrow> apiReq \<Rightarrow> dbHandler" where
  "authAddRole ft r =
     (let p = formOrJSON ft r
      in if p ''username'' = '''' \<or> p ''role'' = '''' then reply (v1Fail 400 400 ''username/role required'')
         else andThen (AddRole (p ''username'') (p ''role'')) v1Error (\<lambda>_. reply (v1OK (JStr ''ok''))))"

definition authDeleteRole :: "apiReq \<Rightarrow> dbHandler" where
  "authDeleteRole r =
     (if qparam r ''username'' = '''' \<or> qparam r ''role'' = '''' then reply (v1Fail 400 400 ''username/role required'')
      else andThen (DeleteRole (qparam r ''username'') (qparam r ''role'')) v1Error (\<lambda>_. reply (v1OK (JStr ''ok''))))"

subsection \<open>Routes\<close>

text \<open>The patterns of \<^verbatim>\<open>Server.Handler\<close>.  A wildcard stands for one non-empty segment; a \<^verbatim>\<open>GET\<close> pattern also serves \<^verbatim>\<open>HEAD\<close>.
  The last field says whether the handler changes the store or the gateway.\<close>

datatype seg = Lit string | Wild

definition pathSegs :: "string \<Rightarrow> seg list" where
  "pathSegs p = map (\<lambda>s. if take 1 s = ''{'' then Wild else Lit s) (splitOn CHR ''/'' p)"

fun segsMatch :: "seg list \<Rightarrow> string list \<Rightarrow> bool" where
  "segsMatch [] [] = True"
| "segsMatch (Lit s # ps) (x # xs) = (s = x \<and> segsMatch ps xs)"
| "segsMatch (Wild # ps) (x # xs) = (x \<noteq> '''' \<and> segsMatch ps xs)"
| "segsMatch _ _ = False"

definition patternMatches :: "string \<Rightarrow> string \<Rightarrow> string \<Rightarrow> string \<Rightarrow> bool" where
  "patternMatches pm pat method path \<longleftrightarrow> (pm = method \<or> pm = ''GET'' \<and> method = ''HEAD'') \<and> segsMatch (pathSegs pat) (splitOn CHR ''/'' path)"

definition routes_v1 :: "(string \<times> string \<times> string \<times> bool) list" where
  "routes_v1 =
     [(''GET'', ''/nacos/v1/cs/configs'', ''configV1Get'', False),
      (''POST'', ''/nacos/v1/cs/configs'', ''configV1Publish'', True),
      (''DELETE'', ''/nacos/v1/cs/configs'', ''configV1Delete'', True),
      (''POST'', ''/nacos/v1/cs/configs/listener'', ''configV1Listener'', False),
      (''GET'', ''/nacos/v1/cs/history'', ''configV1HistoryList'', False),
      (''GET'', ''/nacos/v1/cs/history/configId'', ''configV1HistoryDetail'', False),
      (''GET'', ''/nacos/v1/cs/history/configs'', ''configV1HistoryPrevious'', False),
      (''POST'', ''/nacos/v1/ns/instance'', ''namingV1Register'', True),
      (''PUT'', ''/nacos/v1/ns/instance'', ''namingV1Register'', True),
      (''DELETE'', ''/nacos/v1/ns/instance'', ''namingV1Deregister'', True),
      (''GET'', ''/nacos/v1/ns/instance'', ''namingV1GetInstance'', False),
      (''GET'', ''/nacos/v1/ns/instance/list'', ''namingV1ListInstances'', False),
      (''GET'', ''/nacos/v1/ns/instance/beat'', ''namingV1Beat'', True),
      (''PUT'', ''/nacos/v1/ns/instance/beat'', ''namingV1Beat'', True),
      (''GET'', ''/nacos/v1/ns/service/list'', ''namingV1ListServices'', False),
      (''GET'', ''/nacos/v1/ns/service'', ''namingV1ServiceDetail'', False),
      (''PUT'', ''/nacos/v1/ns/service'', ''namingV1UpdateService'', True),
      (''DELETE'', ''/nacos/v1/ns/service'', ''namingV1DeleteService'', True),
      (''GET'', ''/nacos/v1/ns/operator/metrics'', ''namingV1Metrics'', False),
      (''POST'', ''/nacos/v1/auth/users/login'', ''authLogin'', False),
      (''GET'', ''/nacos/v1/auth/users/login'', ''authLogin'', False),
      (''GET'', ''/nacos/v1/auth/users'', ''authListUsers'', False),
      (''POST'', ''/nacos/v1/auth/users'', ''authCreateUser'', True),
      (''PUT'', ''/nacos/v1/auth/users'', ''authUpdateUser'', True),
      (''DELETE'', ''/nacos/v1/auth/users'', ''authDeleteUser'', True),
      (''GET'', ''/nacos/v1/auth/roles'', ''authListRoles'', False),
      (''POST'', ''/nacos/v1/auth/roles'', ''authAddRole'', True),
      (''DELETE'', ''/nacos/v1/auth/roles'', ''authDeleteRole'', True),
      (''GET'', ''/nacos/v1/console/namespaces'', ''namespaceListV1'', False),
      (''POST'', ''/nacos/v1/console/namespaces'', ''namespaceCreateV1'', True),
      (''PUT'', ''/nacos/v1/console/namespaces'', ''namespaceUpdateV1'', True),
      (''DELETE'', ''/nacos/v1/console/namespaces'', ''namespaceDeleteV1'', True),
      (''GET'', ''/nacos/v1/console/server/state'', ''serverState'', False),
      (''GET'', ''/nacos/v1/console/health/readiness'', ''healthReadiness'', False),
      (''GET'', ''/nacos/v1/console/health/liveness'', ''healthLiveness'', False),
      (''GET'', ''/nacos/actuator/health'', ''actuatorHealth'', False)]"

definition routes_v2 :: "(string \<times> string \<times> string \<times> bool) list" where
  "routes_v2 =
     [(''GET'', ''/nacos/v2/cs/config'', ''configV2Get'', False),
      (''POST'', ''/nacos/v2/cs/config'', ''configV2Publish'', True),
      (''DELETE'', ''/nacos/v2/cs/config'', ''configV2Delete'', True),
      (''GET'', ''/nacos/v2/cs/config/list'', ''configV2List'', False),
      (''POST'', ''/nacos/v2/cs/config/listener'', ''configV2Listener'', False),
      (''GET'', ''/nacos/v2/cs/history/list'', ''configV2HistoryList'', False),
      (''GET'', ''/nacos/v2/cs/history'', ''configV2HistoryDetail'', False),
      (''POST'', ''/nacos/v2/ns/instance'', ''namingV2Register'', True),
      (''PUT'', ''/nacos/v2/ns/instance'', ''namingV2Register'', True),
      (''DELETE'', ''/nacos/v2/ns/instance'', ''namingV2Deregister'', True),
      (''GET'', ''/nacos/v2/ns/instance'', ''namingV2GetInstance'', False),
      (''GET'', ''/nacos/v2/ns/instance/list'', ''namingV2ListInstances'', False),
      (''POST'', ''/nacos/v2/ns/instance/beat'', ''namingV2Beat'', True),
      (''GET'', ''/nacos/v2/ns/service/list'', ''namingV2ListServices'', False),
      (''GET'', ''/nacos/v2/ns/service'', ''namingV2ServiceDetail'', False),
      (''POST'', ''/nacos/v2/ns/service'', ''namingV2CreateService'', True),
      (''PUT'', ''/nacos/v2/ns/service'', ''namingV2UpdateService'', True),
      (''DELETE'', ''/nacos/v2/ns/service'', ''namingV2DeleteService'', True),
      (''POST'', ''/nacos/v2/auth/user/login'', ''authLoginV2'', False),
      (''GET'', ''/nacos/v2/console/namespace/list'', ''namespaceListV2'', False),
      (''POST'', ''/nacos/v2/console/namespace'', ''namespaceCreateV2'', True),
      (''PUT'', ''/nacos/v2/console/namespace'', ''namespaceUpdateV2'', True),
      (''DELETE'', ''/nacos/v2/console/namespace'', ''namespaceDeleteV2'', True)]"

definition routes_goacos :: "(string \<times> string \<times> string \<times> bool) list" where
  "routes_goacos =
     [(''GET'', ''/goacos/v1/apps'', ''appList'', False),
      (''POST'', ''/goacos/v1/apps'', ''appWrite'', True),
      (''GET'', ''/goacos/v1/apps/{app}'', ''appGet'', False),
      (''DELETE'', ''/goacos/v1/apps/{app}'', ''appDelete'', True),
      (''GET'', ''/goacos/v1/apps/{app}/components'', ''componentList'', False),
      (''POST'', ''/goacos/v1/apps/{app}/components'', ''componentWrite'', True),
      (''PUT'', ''/goacos/v1/apps/{app}/components/{component}'', ''componentWrite'', True),
      (''DELETE'', ''/goacos/v1/apps/{app}/components/{component}'', ''componentDelete'', True),
      (''GET'', ''/goacos/v1/routes'', ''routeList'', False),
      (''POST'', ''/goacos/v1/routes'', ''routeWrite'', True),
      (''DELETE'', ''/goacos/v1/routes/{domain}'', ''routeDelete'', True),
      (''GET'', ''/goacos/v1/route/resolve'', ''routeResolve'', False),
      (''GET'', ''/goacos/v1/gateway/status'', ''gatewayStatus'', False),
      (''POST'', ''/goacos/v1/gateway/refresh'', ''gatewayRefresh'', True),
      (''GET'', ''/goacos/v1/certs'', ''certList'', False),
      (''POST'', ''/goacos/v1/certs'', ''certWrite'', True),
      (''DELETE'', ''/goacos/v1/certs/{domain}'', ''certDelete'', True),
      (''GET'', ''/goacos/v1/vhosts'', ''vhostList'', False),
      (''POST'', ''/goacos/v1/vhosts'', ''vhostWrite'', True),
      (''PUT'', ''/goacos/v1/vhosts/{domain}'', ''vhostWrite'', True),
      (''DELETE'', ''/goacos/v1/vhosts/{domain}'', ''vhostDelete'', True)]"

definition Handler_routes :: "(string \<times> string \<times> string \<times> bool) list" where
  "Handler_routes = routes_v1 @ routes_v2 @ routes_goacos"

definition mutating :: "string \<Rightarrow> string \<Rightarrow> bool" where
  "mutating method path \<longleftrightarrow> list_ex (\<lambda>(m, pat, h, writes). writes \<and> patternMatches m pat method path) Handler_routes"

subsection \<open>Every change is behind the guard\<close>

definition beatPath :: string where
  "beatPath = ''/nacos/v1/ns/instance/beat''"

definition freePosts :: "string list" where
  "freePosts = [''/nacos/v1/auth/users/login'', ''/nacos/v2/auth/user/login'', ''/nacos/v1/cs/configs/listener'', ''/nacos/v2/cs/config/listener'']"

lemma routes_checked:
  "list_all (\<lambda>(m, pat, h, writes). writes \<longrightarrow>
     (m \<in> set [''POST'', ''PUT'', ''DELETE''] \<or> pat = beatPath) \<and> list_all (\<lambda>q. \<not> segsMatch (pathSegs pat) (splitOn CHR ''/'' q)) freePosts) Handler_routes"
  by code_simp

lemma segsMatch_literal: "segsMatch (map Lit ss) xs \<longleftrightarrow> xs = ss"
proof (induction ss arbitrary: xs)
  case Nil
  then show ?case by (cases xs) auto
next
  case (Cons s ss)
  then show ?case by (cases xs) auto
qed

lemma beat_only: "segsMatch (pathSegs beatPath) (splitOn CHR ''/'' path) \<Longrightarrow> path = beatPath"
proof -
  assume m: "segsMatch (pathSegs beatPath) (splitOn CHR ''/'' path)"
  have "pathSegs beatPath = map Lit (splitOn CHR ''/'' beatPath)" by code_simp
  then have "splitOn CHR ''/'' path = splitOn CHR ''/'' beatPath" using m segsMatch_literal by simp
  then show ?thesis using join_split by metis
qed

lemma mutating_guarded: "mutating method path \<Longrightarrow> \<not> isOpenPath method path \<and> isAdminOnly path method"
proof -
  assume "mutating method path"
  then obtain m pat h where r: "(m, pat, h, True) \<in> set Handler_routes" "patternMatches m pat method path"
    by (auto simp: mutating_def list_ex_iff)
  then have c: "m \<in> {''POST'', ''PUT'', ''DELETE''} \<or> pat = beatPath" "\<forall>q\<in>set freePosts. \<not> segsMatch (pathSegs pat) (splitOn CHR ''/'' q)"
    using routes_checked by (auto simp: list_all_iff)
  have s: "segsMatch (pathSegs pat) (splitOn CHR ''/'' path)" and mm: "m = method \<or> m = ''GET'' \<and> method = ''HEAD''"
    using r(2) by (auto simp: patternMatches_def)
  have free: "path \<notin> set freePosts" using c(2) s by blast
  show ?thesis
  proof (cases "pat = beatPath")
    case True
    then have "path = beatPath" using beat_only s by blast
    then show ?thesis by (simp add: beatPath_def isOpenPath_def isAdminOnly_def hasPrefix_def)
  next
    case False
    then have "method \<in> {''POST'', ''PUT'', ''DELETE''}" using c(1) mm by auto
    then show ?thesis using free by (auto simp: isOpenPath_def isAdminOnly_def isRead_def freePosts_def)
  qed
qed

subsection \<open>Authority is read from the database\<close>

definition liveAccount :: "tables \<Rightarrow> string \<Rightarrow> bool" where
  "liveAccount t n \<longleftrightarrow> (\<exists>u\<in>set (users t). u_Username u = n \<and> u_Enabled u)"

definition liveAdmin :: "tables \<Rightarrow> string \<Rightarrow> bool" where
  "liveAdmin t n \<longleftrightarrow> liveAccount t n \<and> (n, ''ROLE_ADMIN'') \<in> set (roles t)"

text \<open>The tables a query sees: as they are, or as another session left them just before.\<close>

definition seen :: "db \<Rightarrow> tables" where
  "seen d = (case script d of Env g # _ \<Rightarrow> g (tabs d) | _ \<Rightarrow> tabs d)"

lemma query_sees: "query f d = (Inr x, d') \<Longrightarrow> x = f (seen d) \<and> tabs d' = seen d"
  by (auto simp: query_def stmt_def seen_def split: list.splits event.splits prod.splits)

lemma Authenticate_current:
  assumes "Authenticate openTok cfg now tok d = (Inr c, d')"
  shows "\<exists>j. ValidateAuth cfg = None \<and> openTok (ac_TokenSecret cfg) tok = Some j \<and> claimsInForce now j \<and> cl_Username c = jw_sub j \<and>
    liveAccount (seen d) (cl_Username c) \<and> set (cl_Roles c) = {r. (cl_Username c, r) \<in> set (roles (seen d))} \<and>
    (cl_Admin c \<longleftrightarrow> liveAdmin (seen d) (cl_Username c))"
proof -
  obtain p where p: "Parse openTok cfg now tok = Inr p" using assms by (auto simp: Authenticate_def failS_def split: sum.splits)
  then obtain j where j: "ValidateAuth cfg = None" "openTok (ac_TokenSecret cfg) tok = Some j" "claimsInForce now j" "cl_Username p = jw_sub j"
    by (auto simp: Parse_def split: option.splits if_splits)
  obtain rs where q: "EnabledUserRoles (cl_Username p) d = (Inr (rs, True), d')" "c = p\<lparr>cl_Roles := rs, cl_Admin := hasAdmin rs\<rparr>"
    using assms p by (auto simp: Authenticate_def bindS_def retS_def failS_def split: prod.splits sum.splits if_splits)
  have "rs = (if liveAccount (seen d) (cl_Username p) then map snd (filter (\<lambda>r. fst r = cl_Username p) (roles (seen d))) else [])"
    "liveAccount (seen d) (cl_Username p)"
    using query_sees [OF q(1) [unfolded EnabledUserRoles_def]] by (auto simp: Let_def liveAccount_def list_ex_iff)
  then show ?thesis using j q(2) by (auto simp: liveAdmin_def hasAdmin_def image_iff)
qed

lemma middleware_claims:
  assumes "middleware openTok cfg now stamp r d = (Inr cl, d')" "ac_AuthEnabled cfg" "\<not> isOpenPath (ar_Method r) (ar_Path r)"
  shows "\<exists>c. cl = Some c \<and> requestToken r \<noteq> '''' \<and> Authenticate openTok cfg now (requestToken r) d = (Inr c, d') \<and>
    (isAdminOnly (ar_Path r) (ar_Method r) \<longrightarrow> cl_Admin c)"
  using assms by (auto simp: middleware_def tokenFromRequest_def failS_def split: prod.splits sum.splits if_splits)

subsection \<open>Properties\<close>

text \<open>C7. With authentication on, a request reaches a handler that changes anything - configurations, instances, services,
  accounts, roles, namespaces, applications, routes, certificates, policies, also by the heartbeat that comes as a \<^verbatim>\<open>GET\<close> -
  only with a token that opens under the configured key, is in force, and names an account that is, in the database as the
  guard reads it, enabled and holds the administrator role: roles written into the token do not count.\<close>

theorem changes_need_live_admin:
  assumes "ac_AuthEnabled cfg" "mutating (ar_Method r) (ar_Path r)" "middleware openTok cfg now stamp r d = (Inr cl, d')"
  shows "\<exists>c j. cl = Some c \<and> openTok (ac_TokenSecret cfg) (requestToken r) = Some j \<and> claimsInForce now j \<and>
    jw_sub j = cl_Username c \<and> liveAdmin (seen d) (cl_Username c)"
proof -
  note g = mutating_guarded [OF assms(2)]
  obtain c where c: "cl = Some c" "Authenticate openTok cfg now (requestToken r) d = (Inr c, d')" "cl_Admin c"
    using middleware_claims [OF assms(3,1)] g by auto
  then show ?thesis using Authenticate_current [OF c(2)] by metis
qed

definition authCfg0 :: authCfg where
  "authCfg0 = \<lparr>ac_AuthEnabled = True, ac_TokenSecret = ''0123456789abcdef0123456789abcdef'', ac_TokenTTLSeconds = 3600,
     ac_AdminUsername = ''root'', ac_AdminPassword = ''correct-horse''\<rparr>"

definition demoTok :: "string \<Rightarrow> string \<Rightarrow> jwtClaims option" where
  "demoTok secret tok = (if tok = ''T'' then Some \<lparr>jw_sub = ''root'', jw_roles = [], jw_iss = ''goacos'', jw_iat = 100, jw_exp = 3700\<rparr> else None)"

definition demoAccounts :: db where
  "demoAccounts = \<lparr>tabs = empty_tables\<lparr>users := [\<lparr>u_Username = ''root'', u_Password = ''h'', u_Enabled = True\<rparr>], roles := [(''root'', ''ROLE_ADMIN'')]\<rparr>, script = []\<rparr>"

definition demoBeat :: apiReq where
  "demoBeat = \<lparr>ar_Method = ''GET'', ar_Path = ''/nacos/v1/ns/instance/beat'', ar_Query = [(''accessToken'', ''T'')], ar_PostForm = [],
     ar_ContentType = '''', ar_Body = '''', ar_Cookies = [], ar_Authorization = '''', ar_LongPulling = '''', ar_RemoteAddr = ''''\<rparr>"

lemma authCfg0_valid: "ValidateAuth authCfg0 = None"
  by code_simp

lemma demo_subject: "trimSpace ''root'' = ''root''"
  by code_simp

lemma demo_mutating: "mutating (ar_Method demoBeat) (ar_Path demoBeat)"
  by code_simp

lemma demo_middleware:
  "middleware demoTok authCfg0 200 ''now'' demoBeat demoAccounts =
     (Inr (Some \<lparr>cl_Username = ''root'', cl_Roles = [''ROLE_ADMIN''], cl_Admin = True\<rparr>), demoAccounts)"
  by (simp add: middleware_def tokenFromRequest_def requestToken_def qparam_def qget_def demoBeat_def isOpenPath_def isRead_def hasPrefix_def
      Authenticate_def Parse_def authCfg0_valid demoTok_def claimsInForce_def demo_subject EnabledUserRoles_def go_simps demoAccounts_def
      empty_tables_def hasAdmin_def Let_def) (simp add: authCfg0_def)

theorem changes_need_live_admin_witness: "\<exists>n. liveAdmin (seen demoAccounts) n"
  using changes_need_live_admin [OF _ demo_mutating demo_middleware] by (auto simp: authCfg0_def)

lemma GetUser_quiet:
  "script d = [] \<Longrightarrow> GetUser n d =
     (Inr (let us = filter (\<lambda>u. u_Username u = n) (users (tabs d)) in if us = [] then None else Some (hd us)), d)"
  by (cases "filter (\<lambda>u. u_Username u = n) (users (tabs d))") (simp_all add: GetUser_def go_simps Let_def)

lemma ListRoles_quiet: "script d = [] \<Longrightarrow> ListRolesByUser n d = (Inr (map snd (filter (\<lambda>r. fst r = n) (roles (tabs d)))), d)"
  by (simp add: ListRolesByUser_def query_quiet)

lemma authCfg0_sel:
  "ac_AuthEnabled authCfg0" "ac_TokenTTLSeconds authCfg0 = 3600" "ac_TokenSecret authCfg0 = ''0123456789abcdef0123456789abcdef''"
  by (simp_all add: authCfg0_def)


definition demoSign :: "string \<Rightarrow> jwtClaims \<Rightarrow> goerr + string" where
  "demoSign secret c = (if c = \<lparr>jw_sub = ''root'', jw_roles = [''ROLE_ADMIN''], jw_iss = ''goacos'', jw_iat = 100, jw_exp = 3700\<rparr>
     then Inr ''T'' else Inl (ErrMsg ''refused''))"

definition demoOpen :: "string \<Rightarrow> string \<Rightarrow> jwtClaims option" where
  "demoOpen secret tok = (if tok = ''T'' then Some \<lparr>jw_sub = ''root'', jw_roles = [''ROLE_ADMIN''], jw_iss = ''goacos'', jw_iat = 100, jw_exp = 3700\<rparr> else None)"

lemma demo_login:
  "Login (\<lambda>_ _. HashMatches) demoSign authCfg0 100 ''root'' ''correct-horse'' demoAccounts = (Inr (''T'', 3600, True), demoAccounts)"
proof -
  have "ValidAuthPassword ''correct-horse''" by code_simp
  then show ?thesis
    by (simp add: Login_def authCfg0_valid GetUser_quiet ListRoles_quiet bindS_def retS_def demoAccounts_def empty_tables_def demoSign_def authCfg0_sel hasAdmin_def)
qed


subsection \<open>Start-up\<close>

definition sameAccounts :: "tables \<Rightarrow> tables \<Rightarrow> bool" where
  "sameAccounts t t' \<longleftrightarrow> users t' = users t \<and> roles t' = roles t"

lemma sameAccounts_simps [simp]:
  "sameAccounts t0 (t\<lparr>tenant_info := x, next_id := n\<rparr>) = sameAccounts t0 t" "sameAccounts t t"
  by (simp_all add: sameAccounts_def)

lemma triple_seedNamespace: "triple (sameAccounts t0) seedNamespace (\<lambda>_. sameAccounts t0)"
  unfolding seedNamespace_def
  by (intro triple_try [where R = "\<lambda>_. sameAccounts t0"] triple_if triple_query triple_ret triple_exec) auto

definition noPublicPassword :: "compareHash \<Rightarrow> tables \<Rightarrow> bool" where
  "noPublicPassword cmp t \<longleftrightarrow> (\<forall>u\<in>set (activeAdmins t). cmp (u_Password u) ''nacos'' = HashMismatch)"

lemma adminHashes_ok: "adminHashes cmp hs d = (Inr (), d') \<Longrightarrow> d' = d \<and> (\<forall>h\<in>set hs. cmp h ''nacos'' = HashMismatch)"
  by (induction hs) (auto simp: retS_def failS_def split: hashCheck.splits)

lemma validate_ok:
  assumes "ValidateAuthState cmp cfg d = (Inr (), d')" "ac_AuthEnabled cfg" "alone (script d)"
  shows "tabs d' = tabs d \<and> alone (script d') \<and> noPublicPassword cmp (tabs d)"
proof -
  obtain hs d1 where q: "query (\<lambda>t. remdups (map u_Password (activeAdmins t))) d = (Inr hs, d1)" "adminHashes cmp hs d1 = (Inr (), d')"
    using assms(1,2) by (auto simp: ValidateAuthState_def tryS_def failS_def split: prod.splits sum.splits)
  have "seen d = tabs d" using assms(3) by (cases "script d") (auto simp: seen_def alone_def split: event.splits)
  moreover have "alone (script d1)"
    using tripleD [OF triple_query [of "\<lambda>_. True" "\<lambda>_ _. True"] assms(3) _ q(1)] by simp
  ultimately show ?thesis using query_sees [OF q(1)] adminHashes_ok [OF q(2)] by (auto simp: noPublicPassword_def)
qed

lemma alone_query: "query f d = (r, d') \<Longrightarrow> alone (script d) \<Longrightarrow> alone (script d')"
  using tripleD [OF triple_query [of "\<lambda>_. True" "\<lambda>_ _. True" f] _ _, of d r d'] by simp

lemma alone_seedAdmin: "seedAdmin gen cfg d = (r, d') \<Longrightarrow> alone (script d) \<Longrightarrow> alone (script d')"
proof -
  have "triple (\<lambda>_. True) (seedAdmin gen cfg) (\<lambda>_ _. True)"
    unfolding seedAdmin_def AddRole_def
    by (auto split: sum.split intro!: triple_if triple_ret triple_fail triple_bind [where R = "\<lambda>_ _. True"] triple_exec)
  then show "seedAdmin gen cfg d = (r, d') \<Longrightarrow> alone (script d) \<Longrightarrow> alone (script d')" using tripleD by blast
qed

text \<open>A server with authentication on does not come up over a public administrator password: after a successful start-up
  no enabled account with the administrator role accepts the password of the old public default, whether the account was
  just seeded or was there before, and whatever statements failed on the way.\<close>

theorem seed_refuses_public_password:
  assumes "Seed gen cmp cfg d = (Inr (), d')" "ac_AuthEnabled cfg" "alone (script d)"
  shows "\<forall>u\<in>set (users (tabs d')). u_Enabled u \<and> (u_Username u, ''ROLE_ADMIN'') \<in> set (roles (tabs d')) \<longrightarrow> cmp (u_Password u) ''nacos'' = HashMismatch"
proof -
  obtain n d1 where 1: "query (\<lambda>t. length (users t)) d = (Inr n, d1)"
    using assms(1) by (auto simp: Seed_def bindS_def split: prod.splits sum.splits)
  obtain d2 where 2: "(if n = 0 then seedAdmin gen cfg else retS ()) d1 = (Inr (), d2)"
    using assms(1) 1 by (auto simp: Seed_def bindS_def split: prod.splits sum.splits)
  obtain d3 where 3: "ValidateAuthState cmp cfg d2 = (Inr (), d3)" "seedNamespace d3 = (Inr (), d')"
    using assms(1) 1 2 by (auto simp: Seed_def bindS_def split: prod.splits sum.splits)
  have "alone (script d2)"
    using alone_query [OF 1 assms(3)] alone_seedAdmin [of gen cfg d1] 2 by (auto simp: retS_def split: if_splits)
  note v = validate_ok [OF 3(1) assms(2) this]
  have "sameAccounts (tabs d3) (tabs d')" using tripleD [OF triple_seedNamespace [of "tabs d3"] _ _ 3(2)] v by simp
  then show ?thesis using v by (auto simp: noPublicPassword_def activeAdmins_def sameAccounts_def)
qed

lemma demo_seed:
  "\<exists>d'. Seed (\<lambda>pw. Inr ('':'' @ pw)) (\<lambda>h pw. if h = '':'' @ pw then HashMatches else HashMismatch) authCfg0 \<lparr>tabs = empty_tables, script = []\<rparr> = (Inr (), d') \<and>
     liveAdmin (tabs d') ''root''"
  by (simp add: Seed_def seedAdmin_def AddRole_def ValidateAuthState_def activeAdmins_def seedNamespace_def go_simps empty_tables_def insertIgnore_def
      countWhere_def liveAdmin_def liveAccount_def authCfg0_def)

theorem seed_refuses_public_password_witness:
  "\<exists>d' :: db. liveAdmin (tabs d') ''root'' \<and>
     u_Password ` {u \<in> set (users (tabs d')). u_Enabled u \<and> (u_Username u, ''ROLE_ADMIN'') \<in> set (roles (tabs d'))} \<subseteq> - {'':nacos''}"
proof -
  obtain d' where d': "Seed (\<lambda>pw. Inr ('':'' @ pw)) (\<lambda>h pw. if h = '':'' @ pw then HashMatches else HashMismatch) authCfg0 \<lparr>tabs = empty_tables, script = []\<rparr> = (Inr (), d')"
     "liveAdmin (tabs d') ''root''"
    using demo_seed by blast
  have "ac_AuthEnabled authCfg0" "alone (script \<lparr>tabs = empty_tables, script = []\<rparr>)" by (simp_all add: authCfg0_def alone_def)
  note seed_refuses_public_password [OF d'(1) this]
  then have "'':nacos'' \<notin> u_Password ` {u \<in> set (users (tabs d')). u_Enabled u \<and> (u_Username u, ''ROLE_ADMIN'') \<in> set (roles (tabs d'))}"
    by auto
  then show ?thesis using d'(2) by blast
qed

text \<open>An outage after the first statement of the seed leaves a database no later start repairs: the account exists, so the
  seed is skipped, and it never gets the administrator role.\<close>

lemma interrupted_seed_is_final:
  assumes "users (tabs d) \<noteq> []" "script d = []" "Seed gen cmp cfg d = (r, d')"
  shows "roles (tabs d') = roles (tabs d) \<and> users (tabs d') = users (tabs d)"
proof -
  have "ValidateAuthState cmp cfg d = (r1, d1) \<Longrightarrow> d1 = d" for r1 d1
  proof -
    have "adminHashes cmp hs d = (r2, d2) \<Longrightarrow> d2 = d" for hs r2 d2
      by (induction hs) (auto simp: retS_def failS_def split: hashCheck.splits)
    then show "ValidateAuthState cmp cfg d = (r1, d1) \<Longrightarrow> d1 = d"
      using assms(2) by (auto simp: ValidateAuthState_def tryS_def query_quiet retS_def split: if_splits)
  qed
  moreover have "seedNamespace d = (r1, d1) \<Longrightarrow> users (tabs d1) = users (tabs d) \<and> roles (tabs d1) = roles (tabs d)" for r1 d1
    using assms(2) by (auto simp: seedNamespace_def go_simps split: if_splits)
  ultimately show ?thesis using assms
    by (auto simp: Seed_def bindS_def query_quiet retS_def split: prod.splits sum.splits)
qed

text \<open>A name with blanks around it can log in, but no token issued for it is ever accepted.\<close>

lemma padded_name_locked_out:
  "openTok (ac_TokenSecret cfg) tok = Some c \<Longrightarrow> trimSpace (jw_sub c) \<noteq> jw_sub c \<Longrightarrow> \<exists>e. Authenticate openTok cfg now tok d = (Inl e, d)"
  by (auto simp: Authenticate_def Parse_def failS_def split: option.split)

end
