(* ===== verification/NamingApi.thy ===== *)
theory NamingApi
  imports Naming Auth
begin

text \<open>
  The registry endpoints (\<^verbatim>\<open>internal/api/naming_v1.go\<close>, \<^verbatim>\<open>naming_v2.go\<close>) and the instance and service shapes of \<^verbatim>\<open>dto.go\<close>.
  \<open>ft\<close> is the text of a JSON number, \<open>parseF\<close> and \<open>showF\<close> reading and printing a float64, \<open>checksum\<close> the digest over the
  listed hosts, \<open>quote\<close> the quoting of \<^verbatim>\<open>%q\<close> in error texts.
\<close>

record napi =
  na_HeartbeatIntervalMs :: int
  na_HeartbeatTimeoutMs :: int
  na_ft :: "string \<Rightarrow> string"
  na_parseF :: "string \<Rightarrow> rat option"
  na_showF :: "rat \<Rightarrow> string"
  na_checksum :: "json list \<Rightarrow> string"
  na_quote :: "string \<Rightarrow> string"

subsection \<open>Parameters\<close>

definition normalizeNamespace :: "string \<Rightarrow> string" where
  "normalizeNamespace ns = (if ns = '''' then ''public'' else ns)"

record instanceParams =
  ip_NamespaceId :: string
  ip_GroupName :: string
  ip_ServiceName :: string
  ip_ClusterName :: string
  ip_IP :: string
  ip_Port :: "32 word"
  ip_Weight :: rat
  ip_Enabled :: bool
  ip_Ephemeral :: bool
  ip_Metadata :: "smap option"
  ip_BeatJSON :: string

text \<open>A nil map is \<^const>\<open>None\<close>: unmarshalling \<^verbatim>\<open>null\<close> into a map makes it nil.\<close>

definition metaFromParam :: "string \<Rightarrow> smap option" where
  "metaFromParam s = (if s = '''' then Some [] else if jsonParse s = Some JNull then None else Some (jsonUnmarshalMap s))"

definition flagParam :: "string \<Rightarrow> bool" where
  "flagParam s \<longleftrightarrow> s = '''' \<or> s = ''true''"

definition paramsOf :: "napi \<Rightarrow> (string \<Rightarrow> string) \<Rightarrow> instanceParams" where
  "paramsOf a p =
     (let (grp, name) = parseServiceName (p ''serviceName'') (if p ''groupName'' = '''' then p ''group'' else p ''groupName'')
      in \<lparr>ip_NamespaceId = normalizeNamespace (firstNonEmpty [p ''namespaceId'', p ''namespace_id'', p ''tenant'']),
          ip_GroupName = grp, ip_ServiceName = name,
          ip_ClusterName = (if p ''clusterName'' = '''' then ''DEFAULT'' else p ''clusterName''),
          ip_IP = p ''ip'', ip_Port = word_of_int (atoiOr0 (p ''port'')),
          ip_Weight = (if p ''weight'' = '''' then 1 else case na_parseF a (p ''weight'') of Some f \<Rightarrow> if f > 0 then f else 1 | None \<Rightarrow> 1),
          ip_Enabled = flagParam (p ''enabled''), ip_Ephemeral = flagParam (p ''ephemeral''),
          ip_Metadata = metaFromParam (p ''metadata''), ip_BeatJSON = p ''beat''\<rparr>)"

definition parseInstanceParams :: "napi \<Rightarrow> apiReq \<Rightarrow> instanceParams" where
  "parseInstanceParams a r = paramsOf a (formOrJSON (na_ft a) r)"

definition ipUpsert :: "instanceParams \<Rightarrow> InstanceUpsert" where
  "ipUpsert p = \<lparr>iu_NamespaceId = ip_NamespaceId p, iu_GroupName = ip_GroupName p, iu_ServiceName = ip_ServiceName p,
     iu_ClusterName = ip_ClusterName p, iu_IP = ip_IP p, iu_Port = ip_Port p, iu_Weight = ip_Weight p, iu_Enabled = ip_Enabled p,
     iu_Ephemeral = ip_Ephemeral p, iu_Metadata = ip_Metadata p\<rparr>"

subsection \<open>Shapes\<close>

definition smapJson :: "smap \<Rightarrow> json" where
  "smapJson m = JObj (map (\<lambda>k. (k, JStr (aget m k))) (sort (remdups (map fst m))))"

definition metaJson :: "string \<Rightarrow> smap \<Rightarrow> json" where
  "metaJson raw m = (if jsonParse raw = Some JNull then JNull else smapJson m)"

definition instanceResp :: "napi \<Rightarrow> string \<Rightarrow> string \<Rightarrow> Instance \<Rightarrow> json" where
  "instanceResp a grp name i =
     (let cluster = (if i_ClusterName i = '''' then ''DEFAULT'' else i_ClusterName i); port = strconvItoa (uint (i_Port i))
      in JObj ([(''instanceId'', JStr (i_IP i @ ''#'' @ port @ ''#'' @ cluster @ ''#'' @ grp @ ''@@'' @ name)), (''ip'', JStr (i_IP i)),
                (''port'', JNum port), (''weight'', JNum (na_showF a (i_Weight i))), (''healthy'', JBool (i_Healthy i)),
                (''enabled'', JBool (i_Enabled i)), (''ephemeral'', JBool (i_Ephemeral i)), (''clusterName'', JStr cluster),
                (''serviceName'', JStr (grp @ ''@@'' @ name)), (''metadata'', metaJson (i_MetadataJSON i) (instMetadata i))] @
               (if na_HeartbeatIntervalMs a = 0 then [] else [(''instanceHeartBeatInterval'', jInt (na_HeartbeatIntervalMs a))]) @
               (if na_HeartbeatTimeoutMs a = 0 then [] else [(''instanceHeartBeatTimeOut'', jInt (na_HeartbeatTimeoutMs a))]) @
               [(''instanceIdGenerator'', JStr ''simple'')]))"

definition serviceInfo :: "napi \<Rightarrow> int \<Rightarrow> string \<Rightarrow> string \<Rightarrow> string \<Rightarrow> Instance list \<Rightarrow> json" where
  "serviceInfo a now grp name clusters items =
     (let hosts = map (instanceResp a grp name) items
      in JObj [(''name'', JStr (grp @ ''@@'' @ name)), (''clusters'', JStr clusters), (''cacheMillis'', jInt 1000), (''hosts'', JArr hosts),
               (''checksum'', JStr (na_checksum a hosts)), (''lastRefTime'', jInt now), (''env'', JStr ''''), (''metadata'', JObj []),
               (''groupName'', JStr grp), (''valid'', JBool True), (''allIPs'', JBool False), (''reachProtectionThreshold'', JBool False),
               (''ok'', JBool True)])"

definition countCluster :: "Instance list \<Rightarrow> string \<Rightarrow> int" where
  "countCluster items cluster = int (length (filter (\<lambda>i. i_ClusterName i = cluster) items))"

definition clusterInfo :: "string \<Rightarrow> int \<Rightarrow> int \<Rightarrow> json" where
  "clusterInfo c healthy n = JObj [(''clusterName'', JStr c), (''healthChecker'', JObj [(''type'', JStr ''none'')]), (''healthyCount'', jInt healthy),
     (''instanceCount'', jInt n), (''metadata'', JObj [])]"

definition clusterMap :: "Instance list \<Rightarrow> json" where
  "clusterMap items =
     (let cs = sort (remdups (map i_ClusterName items))
      in if cs = [] then JObj [(''DEFAULT'', clusterInfo ''DEFAULT'' 0 0)]
         else JObj (map (\<lambda>c. (c, clusterInfo c (countCluster (filter i_Healthy items) c) (countCluster items c))) cs))"

definition serviceDetailResp :: "napi \<Rightarrow> int \<Rightarrow> ServiceRow \<Rightarrow> db \<Rightarrow> json \<times> db" where
  "serviceDetailResp a now s d =
     (let (r, d') = ListInstances (Some (na_HeartbeatTimeoutMs a)) now \<lparr>iq_NamespaceId = s_NamespaceId s, iq_GroupName = s_GroupName s,
              iq_ServiceName = s_Name s, iq_Clusters = '''', iq_HealthyOnly = False\<rparr> d;
          items = (case r of Inl _ \<Rightarrow> [] | Inr is \<Rightarrow> is)
      in (JObj [(''appId'', JStr (s_AppName s)), (''clusterCount'', jInt (s_ClusterCount s)), (''clusterMap'', clusterMap items),
                (''groupName'', JStr (s_GroupName s)), (''ipCount'', jInt (s_IPCount s)), (''metadata'', metaJson (s_MetadataJSON s) (serviceMetadata s)),
                (''name'', JStr (s_Name s)), (''namespaceId'', JStr (s_NamespaceId s)), (''protectThreshold'', JNum (na_showF a (s_ProtectThreshold s))),
                (''selector'', JObj [(''type'', JStr ''none'')])], d'))"

subsection \<open>Version 1\<close>

definition codeMsg :: "int \<Rightarrow> string \<Rightarrow> apiResp" where
  "codeMsg code msg = writeJSON code (JObj [(''code'', jInt code), (''message'', JStr msg)])"

definition namingV1Register :: "napi \<Rightarrow> int \<Rightarrow> apiReq \<Rightarrow> dbHandler" where
  "namingV1Register a now r =
     (let p = parseInstanceParams a r
      in if ip_ServiceName p = '''' \<or> ip_IP p = '''' \<or> ip_Port p = 0 then reply (writeText 400 ''serviceName/ip/port required'')
         else andThen (RegisterInstance now (ipUpsert p)) (\<lambda>e. reply (writeText 500 (''register failed: '' @ errText e)))
                (\<lambda>_. reply (writeText 200 ''ok'')))"

definition deleteOf :: "instanceParams \<Rightarrow> bool dbop" where
  "deleteOf p = DeleteInstance (ip_NamespaceId p) (ip_GroupName p) (ip_ServiceName p) (ip_ClusterName p) (ip_IP p) (ip_Port p)"

definition namingV1Deregister :: "napi \<Rightarrow> apiReq \<Rightarrow> dbHandler" where
  "namingV1Deregister a r =
     andThen (deleteOf (parseInstanceParams a r)) (\<lambda>e. reply (writeText 500 (''deregister failed: '' @ errText e))) (\<lambda>_. reply (writeText 200 ''ok''))"

definition getOf :: "napi \<Rightarrow> int \<Rightarrow> instanceParams \<Rightarrow> Instance option dbop" where
  "getOf a now p =
     GetInstance (Some (na_HeartbeatTimeoutMs a)) now (ip_NamespaceId p) (ip_GroupName p) (ip_ServiceName p) (ip_ClusterName p) (ip_IP p) (ip_Port p)"

definition namingV1GetInstance :: "napi \<Rightarrow> int \<Rightarrow> apiReq \<Rightarrow> dbHandler" where
  "namingV1GetInstance a now r =
     (let p = parseInstanceParams a r
      in andThen (getOf a now p) (\<lambda>e. reply (codeMsg 500 (errText e)))
           (\<lambda>found. reply (case found of None \<Rightarrow> codeMsg 404 ''instance not found''
                           | Some i \<Rightarrow> writeJSON 200 (instanceResp a (ip_GroupName p) (ip_ServiceName p) i))))"

definition listOf :: "napi \<Rightarrow> int \<Rightarrow> apiReq \<Rightarrow> instanceParams \<Rightarrow> Instance list dbop" where
  "listOf a now r p =
     ListInstances (Some (na_HeartbeatTimeoutMs a)) now \<lparr>iq_NamespaceId = ip_NamespaceId p, iq_GroupName = ip_GroupName p,
       iq_ServiceName = ip_ServiceName p, iq_Clusters = qparam r ''clusters'', iq_HealthyOnly = (qparam r ''healthyOnly'' = ''true'')\<rparr>"

definition namingV1ListInstances :: "napi \<Rightarrow> int \<Rightarrow> apiReq \<Rightarrow> dbHandler" where
  "namingV1ListInstances a now r =
     (let p = parseInstanceParams a r
      in if ip_ServiceName p = '''' then reply (codeMsg 400 ''serviceName required'')
         else andThen (listOf a now r p) (\<lambda>e. reply (codeMsg 500 (errText e)))
                (\<lambda>is. reply (writeJSON 200 (serviceInfo a now (ip_GroupName p) (ip_ServiceName p) (qparam r ''clusters'') is))))"

text \<open>The body as the handler finds it after the parameters were read: consumed for JSON and for submitted forms.\<close>

definition restBody :: "apiReq \<Rightarrow> string" where
  "restBody r =
     (if hasPrefix (ar_ContentType r) ''application/json'' then ''''
      else if ar_Method r \<in> {''POST'', ''PUT'', ''PATCH''} \<and> hasPrefix (ar_ContentType r) ''application/x-www-form-urlencoded'' then ''''
      else ar_Body r)"

text \<open>Decoding into a struct: keys are compared without case, the last one wins, \<^verbatim>\<open>null\<close> changes nothing, and a member of the
  wrong type makes the whole decoding fail.\<close>

definition jsonMemberOf :: "(string \<times> json) list \<Rightarrow> string \<Rightarrow> json option" where
  "jsonMemberOf kvs k = map_of (rev (map (\<lambda>(x, v). (toLower x, v)) (filter (\<lambda>(x, v). v \<noteq> JNull) kvs))) (toLower k)"

definition jsonStr :: "(string \<times> json) list \<Rightarrow> string \<Rightarrow> string" where
  "jsonStr kvs k = (case jsonMemberOf kvs k of Some (JStr s) \<Rightarrow> s | _ \<Rightarrow> '''')"

fun beatMemberOK :: "string \<times> json \<Rightarrow> bool" where
  "beatMemberOK (k, v) =
     (if v = JNull then True
      else if toLower k \<in> {''ip'', ''servicename'', ''cluster''} then (case v of JStr _ \<Rightarrow> True | _ \<Rightarrow> False)
      else if toLower k = ''port'' then (case v of JNum n \<Rightarrow> parseUint 32 n \<noteq> None | _ \<Rightarrow> False)
      else if toLower k = ''weight'' then (case v of JNum n \<Rightarrow> True | _ \<Rightarrow> False)
      else if toLower k = ''metadata'' then (case v of JObj m \<Rightarrow> list_all (\<lambda>(_, x). case x of JStr _ \<Rightarrow> True | JNull \<Rightarrow> True | _ \<Rightarrow> False) m | _ \<Rightarrow> False)
      else True)"

definition beatParams :: "(string \<times> json) list \<Rightarrow> instanceParams \<Rightarrow> instanceParams" where
  "beatParams b p =
     (let p1 = (if jsonStr b ''ip'' \<noteq> '''' then p\<lparr>ip_IP := jsonStr b ''ip''\<rparr> else p);
          port = (case jsonMemberOf b ''port'' of Some (JNum n) \<Rightarrow> (case parseUint 32 n of Some x \<Rightarrow> x | None \<Rightarrow> 0) | _ \<Rightarrow> 0);
          p2 = (if port > 0 then p1\<lparr>ip_Port := word_of_nat port\<rparr> else p1);
          p3 = (if jsonStr b ''serviceName'' \<noteq> '''' then p2\<lparr>ip_ServiceName := snd (parseServiceName (jsonStr b ''serviceName'') (ip_GroupName p2))\<rparr> else p2)
      in if jsonStr b ''cluster'' \<noteq> '''' then p3\<lparr>ip_ClusterName := jsonStr b ''cluster''\<rparr> else p3)"

text \<open>A heartbeat: the \<^verbatim>\<open>beat\<close> parameter only decides whether the body is looked at.\<close>

definition namingV1Beat :: "napi \<Rightarrow> int \<Rightarrow> apiReq \<Rightarrow> dbHandler" where
  "namingV1Beat a now r =
     (let p0 = parseInstanceParams a r;
          p1 = (if ip_BeatJSON p0 \<noteq> '''' then (case jsonDecode (restBody r) of Some (JObj b) \<Rightarrow> if list_all beatMemberOK b then beatParams b p0 else p0 | _ \<Rightarrow> p0) else p0);
          p = (if ip_ClusterName p1 = '''' then p1\<lparr>ip_ClusterName := ''DEFAULT''\<rparr> else p1)
      in andThen (BeatInstance now (ipUpsert p)) (\<lambda>e. reply (codeMsg 500 (errText e)))
           (\<lambda>_. reply (writeJSON 200 (JObj [(''clientBeatInterval'', jInt (na_HeartbeatIntervalMs a)), (''code'', jInt 10200), (''lightBeatEnabled'', JBool True)]))))"

definition servicesQuery :: "apiReq \<Rightarrow> ServiceListQuery" where
  "servicesQuery r =
     (let q = qparam r; p = pageParams (ar_Query r)
      in \<lparr>sq_NamespaceId = normalizeNamespace (firstNonEmpty [q ''namespaceId'', q ''tenant'']),
          sq_GroupName = (if q ''groupName'' = '''' then q ''group'' else q ''groupName''), sq_NameBlur = q ''serviceNameParam'',
          sq_PageNo = fst p, sq_PageSize = snd p\<rparr>)"

definition namingV1ListServices :: "apiReq \<Rightarrow> dbHandler" where
  "namingV1ListServices r =
     andThen (ListServices (servicesQuery r)) (\<lambda>e. reply (codeMsg 500 (errText e)))
       (\<lambda>(ss, cnt). reply (writeJSON 200 (JObj [(''count'', jInt cnt), (''doms'', JArr (map (\<lambda>s. JStr (s_Name s)) ss))])))"

definition serviceOf :: "instanceParams \<Rightarrow> ServiceRow option dbop" where
  "serviceOf p = GetService (ip_NamespaceId p) (ip_GroupName p) (ip_ServiceName p)"

definition namingV1ServiceDetail :: "napi \<Rightarrow> int \<Rightarrow> apiReq \<Rightarrow> dbHandler" where
  "namingV1ServiceDetail a now r =
     andThen (serviceOf (parseInstanceParams a r)) v1Error
       (\<lambda>found. case found of None \<Rightarrow> reply (v1Fail 404 404 ''service not found'')
                | Some s \<Rightarrow> (\<lambda>d. let (j, d') = serviceDetailResp a now s d in (writeJSON 200 j, d')))"

definition thresholdOf :: "napi \<Rightarrow> string \<Rightarrow> rat option" where
  "thresholdOf a v = (if v = '''' then None else na_parseF a v)"

definition updateServiceOf :: "napi \<Rightarrow> int \<Rightarrow> instanceParams \<Rightarrow> string \<Rightarrow> string \<Rightarrow> unit dbop" where
  "updateServiceOf a now p threshold metadata =
     UpdateService now (ip_NamespaceId p) (ip_GroupName p) (ip_ServiceName p) (thresholdOf a threshold)
       (if metadata = '''' then None else Some metadata) None"

definition namingV1UpdateService :: "napi \<Rightarrow> int \<Rightarrow> apiReq \<Rightarrow> dbHandler" where
  "namingV1UpdateService a now r =
     andThen (updateServiceOf a now (parseInstanceParams a r) (qparam r ''protectThreshold'') (qparam r ''metadata''))
       (\<lambda>e. reply (writeText 500 (errText e))) (\<lambda>_. reply (writeText 200 ''ok''))"

definition dropService :: "instanceParams \<Rightarrow> bool dbop" where
  "dropService p = DeleteService (ip_NamespaceId p) (ip_GroupName p) (ip_ServiceName p)"

definition namingV1DeleteService :: "napi \<Rightarrow> apiReq \<Rightarrow> dbHandler" where
  "namingV1DeleteService a r =
     andThen (dropService (parseInstanceParams a r)) v1Error
       (\<lambda>gone. reply (if gone then writeText 200 ''ok'' else v1Fail 400 400 ''service not empty or not found''))"

subsection \<open>Version 2\<close>

definition v2Error :: "goerr \<Rightarrow> dbHandler" where
  "v2Error e = reply (v2Fail 500 500 (errText e))"

definition namingV2Register :: "napi \<Rightarrow> int \<Rightarrow> apiReq \<Rightarrow> dbHandler" where
  "namingV2Register a now r =
     (let p = parseInstanceParams a r
      in if ip_ServiceName p = '''' \<or> ip_IP p = '''' \<or> ip_Port p = 0 then reply (v2Fail 400 400 ''serviceName/ip/port required'')
         else andThen (RegisterInstance now (ipUpsert p)) v2Error (\<lambda>_. reply (v2OK (JStr ''ok''))))"

definition namingV2Deregister :: "napi \<Rightarrow> apiReq \<Rightarrow> dbHandler" where
  "namingV2Deregister a r = andThen (deleteOf (parseInstanceParams a r)) v2Error (\<lambda>_. reply (v2OK (JStr ''ok'')))"

definition namingV2GetInstance :: "napi \<Rightarrow> int \<Rightarrow> apiReq \<Rightarrow> dbHandler" where
  "namingV2GetInstance a now r =
     (let p = parseInstanceParams a r
      in andThen (getOf a now p) v2Error
           (\<lambda>found. reply (case found of None \<Rightarrow> v2Fail 200 300 ''instance not exist''
                           | Some i \<Rightarrow> v2OK (instanceResp a (ip_GroupName p) (ip_ServiceName p) i))))"

definition namingV2ListInstances :: "napi \<Rightarrow> int \<Rightarrow> apiReq \<Rightarrow> dbHandler" where
  "namingV2ListInstances a now r =
     (let p = parseInstanceParams a r
      in if ip_ServiceName p = '''' then reply (v2Fail 400 400 ''serviceName required'')
         else andThen (listOf a now r p) v2Error
                (\<lambda>is. reply (v2OK (serviceInfo a now (ip_GroupName p) (ip_ServiceName p) (qparam r ''clusters'') is))))"

definition namingV2Beat :: "napi \<Rightarrow> int \<Rightarrow> apiReq \<Rightarrow> dbHandler" where
  "namingV2Beat a now r =
     (let p0 = parseInstanceParams a r;
          p = (if ip_ClusterName p0 = '''' then p0\<lparr>ip_ClusterName := ''DEFAULT''\<rparr> else p0)
      in andThen (BeatInstance now (ipUpsert p)) v2Error
           (\<lambda>created. reply (v2OK (JObj [(''clientBeatInterval'', jInt (na_HeartbeatIntervalMs a)), (''code'', jInt 10200),
              (''created'', JBool created), (''lightBeatEnabled'', JBool True)]))))"

definition namingV2ListServices :: "apiReq \<Rightarrow> dbHandler" where
  "namingV2ListServices r =
     (let (pageNo, pageSize) = pageShown 10 (pageParams (ar_Query r))
      in andThen (ListServices (servicesQuery r)) v2Error
           (\<lambda>(ss, cnt). reply (v2OK (JObj [(''count'', jInt cnt), (''pageNumber'', jInt pageNo), (''pageSize'', jInt pageSize),
              (''services'', JArr (map (\<lambda>s. JStr (s_GroupName s @ ''@@'' @ s_Name s)) ss))]))))"

definition namingV2ServiceDetail :: "napi \<Rightarrow> int \<Rightarrow> apiReq \<Rightarrow> dbHandler" where
  "namingV2ServiceDetail a now r =
     andThen (serviceOf (parseInstanceParams a r)) v2Error
       (\<lambda>found. case found of None \<Rightarrow> reply (v2Fail 200 300 ''service not exist'')
                | Some s \<Rightarrow> (\<lambda>d. let (j, d') = serviceDetailResp a now s d in (v2OK j, d')))"

definition namingV2CreateService :: "napi \<Rightarrow> int \<Rightarrow> apiReq \<Rightarrow> dbHandler" where
  "namingV2CreateService a now r =
     (let p = parseInstanceParams a r
      in if ip_ServiceName p = '''' then reply (v2Fail 400 400 ''serviceName required'')
         else andThen (EnsureService now (ip_NamespaceId p) (ip_GroupName p) (ip_ServiceName p)) v2Error
                (\<lambda>_. andThen (UpdateService now (ip_NamespaceId p) (ip_GroupName p) (ip_ServiceName p) None (map_option jsonMarshalMap (ip_Metadata p)) None) v2Error
                   (\<lambda>_. reply (v2OK (JBool True)))))"

text \<open>\<open>threshold\<close> is the \<^verbatim>\<open>protectThreshold\<close> query parameter or, without it, the header of that name.\<close>

definition namingV2UpdateService :: "napi \<Rightarrow> int \<Rightarrow> string \<Rightarrow> apiReq \<Rightarrow> dbHandler" where
  "namingV2UpdateService a now hdr r =
     andThen (updateServiceOf a now (parseInstanceParams a r) (firstNonEmpty [qparam r ''protectThreshold'', hdr]) (qparam r ''metadata'')) v2Error
       (\<lambda>_. reply (v2OK (JBool True)))"

definition namingV2DeleteService :: "napi \<Rightarrow> apiReq \<Rightarrow> dbHandler" where
  "namingV2DeleteService a r = andThen (dropService (parseInstanceParams a r)) v2Error (\<lambda>gone. reply (v2OK (JBool gone)))"

subsection \<open>Parsing\<close>

lemma parse_defaults: "ip_ClusterName (parseInstanceParams a r) \<noteq> ''''" "0 < ip_Weight (parseInstanceParams a r)"
  "ip_NamespaceId (parseInstanceParams a r) \<noteq> ''''"
  by (auto simp: parseInstanceParams_def paramsOf_def normalizeNamespace_def split: prod.split option.split)

lemma cutAtAt_first: "CHR ''@'' \<notin> set g \<Longrightarrow> cutAtAt (g @ ''@@'' @ n) = Some (g, n)"
proof (induction g)
  case (Cons c g)
  then show ?case by (cases "g @ ''@@'' @ n") auto
qed simp

text \<open>The two ways of naming a service mean the same one.\<close>

lemma service_name_forms:
  "CHR ''@'' \<notin> set g \<Longrightarrow> cutAtAt n = None \<Longrightarrow> g \<noteq> '''' \<Longrightarrow> parseServiceName (g @ ''@@'' @ n) grp = parseServiceName n g"
  using cutAtAt_first [of g n] by (simp add: parseServiceName_def)

subsection \<open>Register and read\<close>

definition ipKey :: "instanceParams \<Rightarrow> inst_key" where
  "ipKey p = (ip_NamespaceId p, ip_GroupName p, ip_ServiceName p, ip_ClusterName p, ip_IP p, ip_Port p)"

lemma ipUpsert_norm:
  assumes "p = parseInstanceParams a r"
  shows "normUpsert (ipUpsert p) = ipUpsert p" "iuKey (ipUpsert p) = ipKey p"
  using parse_defaults [of a r] by (simp_all add: assms normUpsert_def ipUpsert_def iuKey_def ipKey_def not_le [symmetric])

lemma regValue_key: "(\<And>i. v = Some i \<Longrightarrow> instKey i = iuKey (normUpsert u)) \<Longrightarrow> instKey (regValue now u n v) = iuKey (normUpsert u)"
  by (auto simp: regValue_def split: option.split)

text \<open>Registering over HTTP and asking for the instance: with no other session and no outage, a registration with a service
  name, an address and a port is answered \<^verbatim>\<open>ok\<close>, and a later request that names the same instance - by whichever of the
  accepted parameter names - is answered with it: same identity, weight and flags, healthy exactly while it is persistent or
  within the heartbeat timeout, and the registered metadata.\<close>

theorem api_register_then_get:
  assumes "script d = []" "namingOK (tabs d)" "0 < now" "now \<le> later" "0 < na_HeartbeatTimeoutMs a"
    and "p = parseInstanceParams a r" "ip_ServiceName p \<noteq> ''''" "ip_IP p \<noteq> ''''" "ip_Port p \<noteq> 0"
    and "ipKey (parseInstanceParams a r') = ipKey p" "ip_Metadata p = Some m" "metaUtf8 m"
  shows "\<exists>i d'. namingV1Register a now r d = (writeText 200 ''ok'', d') \<and>
    namingV1GetInstance a later r' d' = (writeJSON 200 (instanceResp a (ip_GroupName p) (ip_ServiceName p) i), d') \<and>
    instKey i = ipKey p \<and> i_Weight i = ip_Weight p \<and> i_Enabled i = ip_Enabled p \<and> i_Ephemeral i = ip_Ephemeral p \<and>
    (i_Healthy i \<longleftrightarrow> \<not> ip_Ephemeral p \<or> later - now \<le> na_HeartbeatTimeoutMs a) \<and> map_of (instMetadata i) = map_of m"
proof -
  let ?u = "ipUpsert p" and ?T = "na_HeartbeatTimeoutMs a"
  note nu = ipUpsert_norm [OF assms(6)]
  obtain t' where r: "RegisterInstance now ?u d = (Inr (registered (tabs d) (ipKey p) = None), d\<lparr>tabs := t'\<rparr>)"
    and ok: "namingOK t'"
    and m: "registered t' (ipKey p) = Some (regValue now ?u (next_id (tabs d) + 1) (registered (tabs d) (ipKey p)))"
    using RegisterInstance_quiet [OF assms(1,2) refl, of now ?u] nu by fastforce
  let ?i = "regValue now ?u (next_id (tabs d) + 1) (registered (tabs d) (ipKey p))" and ?d = "d\<lparr>tabs := t'\<rparr>"
  let ?j = "?i\<lparr>i_Healthy := effectiveInstanceHealth (Some ?T) ?i later\<rparr>"
  have reg: "namingV1Register a now r d = (writeText 200 ''ok'', ?d)"
    using assms(6-9) r by (simp add: namingV1Register_def Let_def andThen_def reply_def)
  have "getOf a later (parseInstanceParams a r') ?d = (Inr (Some ?j), ?d)"
    using ok m assms(1,10) parse_defaults(1) [of a r'] by (simp add: getOf_def GetInstance_quiet ipKey_def)
  then have get: "namingV1GetInstance a later r' ?d = (writeJSON 200 (instanceResp a (ip_GroupName p) (ip_ServiceName p) ?j), ?d)"
    using assms(10) by (simp add: namingV1GetInstance_def Let_def andThen_def reply_def ipKey_def)
  have k: "instKey ?j = ipKey p"
    using regValue_key [of "registered (tabs d) (ipKey p)" ?u now] nu inst_beat.lookup_Some [of "naming_instance (tabs d)" "ipKey p"]
    by (auto simp: registered_def)
  have h: "i_Healthy ?j \<longleftrightarrow> \<not> ip_Ephemeral p \<or> later - now \<le> ?T"
    using assms(3-5) by (simp add: effectiveInstanceHealth_def regValue_fields ipUpsert_def)
  have meta: "map_of (instMetadata ?j) = map_of m"
    using assms(11,12) by (simp add: instMetadata_def regValue_fields upsertMeta_def ipUpsert_def unmarshal_marshal)
  have w: "i_Weight ?j = ip_Weight p" "i_Enabled ?j = ip_Enabled p" "i_Ephemeral ?j = ip_Ephemeral p"
    using parse_defaults(2) [of a r] assms(6) by (simp_all add: regValue_fields ipUpsert_def)
  from reg get k h meta w show ?thesis by blast
qed

definition demoNapi :: napi where
  "demoNapi = \<lparr>na_HeartbeatIntervalMs = 5000, na_HeartbeatTimeoutMs = 15000, na_ft = (\<lambda>s. s), na_parseF = (\<lambda>_. None), na_showF = (\<lambda>_. ''1''),
     na_checksum = (\<lambda>_. ''''), na_quote = (\<lambda>s. s)\<rparr>"

definition demoRegister :: apiReq where
  "demoRegister = \<lparr>ar_Method = ''POST'', ar_Path = ''/nacos/v1/ns/instance'', ar_Query = [(''serviceName'', ''svc''), (''ip'', ''10.0.0.1''), (''port'', ''8080'')],
     ar_PostForm = [], ar_ContentType = '''', ar_Body = '''', ar_Cookies = [], ar_Authorization = '''', ar_LongPulling = '''', ar_RemoteAddr = ''''\<rparr>"

lemma demo_port: "atoiOr0 ''8080'' = 8080"
  by (simp add: atoiOr0_def decValue_def digitVal_def byte_def isDigit_def)

lemma demo_params:
  "parseInstanceParams demoNapi demoRegister = \<lparr>ip_NamespaceId = ''public'', ip_GroupName = ''DEFAULT_GROUP'', ip_ServiceName = ''svc'', ip_ClusterName = ''DEFAULT'',
     ip_IP = ''10.0.0.1'', ip_Port = 8080, ip_Weight = 1, ip_Enabled = True, ip_Ephemeral = True, ip_Metadata = Some [], ip_BeatJSON = ''''\<rparr>"
  by (simp add: parseInstanceParams_def paramsOf_def formOrJSON_def demoRegister_def qget_def arForm_def hasPrefix_def parseServiceName_def
      normalizeNamespace_def flagParam_def metaFromParam_def demo_port)

theorem api_register_then_get_witness:
  "\<exists>i d'. namingV1Register demoNapi 1000 demoRegister \<lparr>tabs = empty_tables, script = []\<rparr> = (writeText 200 ''ok'', d') \<and>
     namingV1GetInstance demoNapi 2000 demoRegister d' = (writeJSON 200 (instanceResp demoNapi ''DEFAULT_GROUP'' ''svc'' i), d') \<and> i_Healthy i"
proof -
  have "metaUtf8 []" by (simp add: metaUtf8_def)
  with api_register_then_get [of "\<lparr>tabs = empty_tables, script = []\<rparr>" 1000 2000 demoNapi _ demoRegister demoRegister, OF _ _ _ _ _ refl]
  show ?thesis unfolding demo_params using namingOK_empty by (simp add: demoNapi_def) blast
qed

subsection \<open>Heartbeats\<close>

text \<open>The \<^verbatim>\<open>beat\<close> document itself is never read: with a submitted form the body is empty by then, so a client that sends its
  address only inside \<^verbatim>\<open>beat\<close> registers an instance with an empty address.\<close>

lemma beat_document_ignored:
  assumes "restBody r = ''''"
  shows "namingV1Beat a now r = (let p = parseInstanceParams a r in
     andThen (BeatInstance now (ipUpsert p)) (\<lambda>e. reply (codeMsg 500 (errText e)))
       (\<lambda>_. reply (writeJSON 200 (JObj [(''clientBeatInterval'', jInt (na_HeartbeatIntervalMs a)), (''code'', jInt 10200), (''lightBeatEnabled'', JBool True)]))))"
proof -
  have "jsonDecode '''' = None" by (simp add: jsonDecode_def skipWs_def)
  then show ?thesis using parse_defaults(1) [of a r] assms by (simp add: namingV1Beat_def Let_def)
qed

lemma beat_registers_ghost:
  assumes "restBody r = ''''" "script d = []" "namingOK (tabs d)" "p = parseInstanceParams a r" "registered (tabs d) (ipKey p) = None"
  shows "\<exists>i. registered (tabs (snd (namingV1Beat a now r d))) (ipKey p) = Some i \<and> rs_code (fst (namingV1Beat a now r d)) = 200"
proof -
  note nu = ipUpsert_norm [OF assms(4)]
  have z: "countWhere (\<lambda>i. instKey i = ipKey p) (naming_instance (tabs d)) = 0" "beatTab now (ipKey p) (tabs d) = tabs d"
  proof -
    have n: "instKey i \<noteq> ipKey p" if "i \<in> set (naming_instance (tabs d))" for i
      using assms(5) imageI [OF that, of instKey] unfolding registered_def inst_beat.lookup_None by metis
    then show "countWhere (\<lambda>i. instKey i = ipKey p) (naming_instance (tabs d)) = 0" by (auto simp: countWhere_def filter_empty_conv)
    have "updateWhere (\<lambda>i. instKey i = ipKey p) f (naming_instance (tabs d)) = naming_instance (tabs d)" for f
      using n by (auto simp: updateWhere_def intro: map_idI)
    then show "beatTab now (ipKey p) (tabs d) = tabs d" by (simp add: beatTab_def)
  qed
  obtain t' where r: "RegisterInstance now (ipUpsert p) d = (Inr True, d\<lparr>tabs := t'\<rparr>)"
    and m: "registered t' (ipKey p) = Some (regValue now (ipUpsert p) (next_id (tabs d) + 1) None)"
    using RegisterInstance_quiet [OF assms(2,3) refl, of now "ipUpsert p"] nu assms(5) by fastforce
  have "BeatInstance now (ipUpsert p) d = (Inr True, d\<lparr>tabs := t'\<rparr>)"
    using r z assms(2) nu(2) by (simp add: BeatInstance_def go_simps)
  then show ?thesis using m by (simp add: beat_document_ignored [OF assms(1)] Let_def andThen_def reply_def assms(4) [symmetric] writeJSON_def)
qed

end
