(* ===== verification/AppApi.thy ===== *)
theory AppApi
  imports AppModel NamingApi
begin

text \<open>
  The application endpoints (\<^verbatim>\<open>internal/api/app_v1.go\<close>, \<^verbatim>\<open>component_spec.go\<close>): applications, components, routes and route
  resolution.  A request body is decoded into a struct, member by member as \<^verbatim>\<open>encoding/json\<close> does it; when that fails the
  handlers go on with \<^verbatim>\<open>formOrJSON\<close> on the request whose body the decoder has read by then.  That second view of the request is
  the argument \<open>rest\<close>; \<open>pv\<close> gives the values of the path wildcards.
\<close>

subsection \<open>Decoding into a struct\<close>

text \<open>Keys are compared without case.  \<^verbatim>\<open>null\<close> leaves a plain field alone and makes a pointer or map nil; a member of the wrong
  type leaves its field alone and makes the whole decoding report an error after the other members were stored.\<close>

datatype ftype = FStr | FInt | FNum | FBoolPtr | FStrPtr | FMap

type_synonym members = "(string \<times> json) list"

definition memberVals :: "members \<Rightarrow> string \<Rightarrow> json list" where
  "memberVals kvs k = map snd (filter (\<lambda>(x, _). toLower x = toLower k) kvs)"

definition fieldStr :: "members \<Rightarrow> string \<Rightarrow> string" where
  "fieldStr kvs k = fold (\<lambda>v s. case v of JStr x \<Rightarrow> x | _ \<Rightarrow> s) (memberVals kvs k) ''''"

definition fieldInt :: "members \<Rightarrow> string \<Rightarrow> int" where
  "fieldInt kvs k = fold (\<lambda>v n. case v of JNum t \<Rightarrow> (case atoi t of Some m \<Rightarrow> m | None \<Rightarrow> n) | _ \<Rightarrow> n) (memberVals kvs k) 0"

definition fieldNum :: "napi \<Rightarrow> members \<Rightarrow> string \<Rightarrow> rat" where
  "fieldNum a kvs k = fold (\<lambda>v n. case v of JNum t \<Rightarrow> (case na_parseF a t of Some m \<Rightarrow> m | None \<Rightarrow> n) | _ \<Rightarrow> n) (memberVals kvs k) 0"

definition fieldBoolPtr :: "members \<Rightarrow> string \<Rightarrow> bool option" where
  "fieldBoolPtr kvs k = fold (\<lambda>v p. case v of JBool b \<Rightarrow> Some b | JNull \<Rightarrow> None | _ \<Rightarrow> p) (memberVals kvs k) None"

definition fieldStrPtr :: "members \<Rightarrow> string \<Rightarrow> string option" where
  "fieldStrPtr kvs k = fold (\<lambda>v p. case v of JStr b \<Rightarrow> Some b | JNull \<Rightarrow> None | _ \<Rightarrow> p) (memberVals kvs k) None"

definition storeInto :: "members \<Rightarrow> smap \<Rightarrow> smap" where
  "storeInto kvs m = fold (\<lambda>(k, v) m. aput m k (case v of JStr x \<Rightarrow> x | _ \<Rightarrow> [])) kvs m"

definition fieldMap :: "members \<Rightarrow> string \<Rightarrow> smap option" where
  "fieldMap kvs k =
     fold (\<lambda>v p. case v of JObj m \<Rightarrow> Some (storeInto m (case p of None \<Rightarrow> [] | Some q \<Rightarrow> q)) | JNull \<Rightarrow> None | _ \<Rightarrow> p) (memberVals kvs k) None"

fun memberOK :: "napi \<Rightarrow> ftype \<Rightarrow> json \<Rightarrow> bool" where
  "memberOK a t JNull = True"
| "memberOK a FStr v = (case v of JStr _ \<Rightarrow> True | _ \<Rightarrow> False)"
| "memberOK a FStrPtr v = (case v of JStr _ \<Rightarrow> True | _ \<Rightarrow> False)"
| "memberOK a FInt v = (case v of JNum t \<Rightarrow> atoi t \<noteq> None | _ \<Rightarrow> False)"
| "memberOK a FNum v = (case v of JNum t \<Rightarrow> na_parseF a t \<noteq> None | _ \<Rightarrow> False)"
| "memberOK a FBoolPtr v = (case v of JBool _ \<Rightarrow> True | _ \<Rightarrow> False)"
| "memberOK a FMap v = (case v of JObj m \<Rightarrow> list_all (\<lambda>(_, x). case x of JStr _ \<Rightarrow> True | JNull \<Rightarrow> True | _ \<Rightarrow> False) m | _ \<Rightarrow> False)"

definition structOK :: "napi \<Rightarrow> (string \<times> ftype) list \<Rightarrow> members \<Rightarrow> bool" where
  "structOK a schema kvs \<longleftrightarrow>
     list_all (\<lambda>(x, v). case map_of (map (\<lambda>(k, t). (toLower k, t)) schema) (toLower x) of None \<Rightarrow> True | Some t \<Rightarrow> memberOK a t v) kvs"

definition decodeStruct :: "napi \<Rightarrow> (string \<times> ftype) list \<Rightarrow> apiReq \<Rightarrow> bool \<times> members" where
  "decodeStruct a schema r =
     (case jsonDecode (ar_Body r) of
        Some (JObj kvs) \<Rightarrow> (structOK a schema kvs, kvs)
      | Some JNull \<Rightarrow> (True, [])
      | _ \<Rightarrow> (False, []))"

text \<open>What is left of a request whose body fits into the decoder's buffer.\<close>

definition drained :: "apiReq \<Rightarrow> apiReq" where
  "drained r = r\<lparr>ar_Body := '''', ar_PostForm := []\<rparr>"

subsection \<open>Helpers\<close>

text \<open>A Go map is written by ascending key.\<close>

definition mapObj :: "members \<Rightarrow> json" where
  "mapObj kvs = JObj (sort_key fst kvs)"

definition defaultNamespace :: "string \<Rightarrow> string" where
  "defaultNamespace ns = (if ns = '''' then ''public'' else ns)"

definition appError :: "int \<Rightarrow> int \<Rightarrow> string \<Rightarrow> apiResp" where
  "appError status code msg = writeJSON status (mapObj [(''code'', jInt code), (''message'', JStr msg), (''data'', JNull)])"

definition appFail :: "goerr \<Rightarrow> dbHandler" where
  "appFail e = reply (appError 500 500 (errText e))"

definition appOK :: "json \<Rightarrow> apiResp" where
  "appOK v = writeJSON 200 (envelope 200 '''' v)"

definition nsParam :: "apiReq \<Rightarrow> string" where
  "nsParam r = defaultNamespace (qparam r ''namespaceId'')"

definition componentJSON :: "napi \<Rightarrow> smap ApplicationComponent \<Rightarrow> json" where
  "componentJSON a c =
     mapObj [(''namespaceId'', JStr (ac_NamespaceId c)), (''appName'', JStr (ac_AppName c)), (''name'', JStr (ac_Name c)),
       (''kind'', JStr (ac_Kind c)), (''protocol'', JStr (ac_Protocol c)), (''serviceName'', JStr (ac_ServiceName c)),
       (''groupName'', JStr (ac_GroupName c)), (''clusterName'', JStr (ac_ClusterName c)), (''healthPath'', JStr (ac_HealthPath c)),
       (''weight'', JNum (na_showF a (ac_Weight c))), (''lbAlgorithm'', JStr (ac_LBAlgorithm c)), (''sticky'', JStr (ac_Sticky c)),
       (''metadata'', smapJson (ac_Metadata c))]"

subsection \<open>Applications\<close>

definition appFields :: "smap Application \<Rightarrow> members" where
  "appFields p = [(''namespaceId'', JStr (a_NamespaceId p)), (''name'', JStr (a_Name p)), (''displayName'', JStr (a_DisplayName p)),
     (''description'', JStr (a_Description p)), (''env'', JStr (a_Env p)), (''metadata'', smapJson (a_Metadata p))]"

definition appList :: "apiReq \<Rightarrow> dbHandler" where
  "appList r = andThen (ListApplications (nsParam r)) appFail (\<lambda>items. reply (appOK (JArr (map (mapObj \<circ> appFields) items))))"

definition appGet :: "napi \<Rightarrow> (string \<Rightarrow> string) \<Rightarrow> apiReq \<Rightarrow> dbHandler" where
  "appGet a pv r =
     (let ns = nsParam r; name = pv ''app''
      in andThen (GetApplication ns name) appFail
           (\<lambda>found. case found of
              None \<Rightarrow> reply (appError 404 404 (''application not found: '' @ name))
            | Some p \<Rightarrow> andThen (ListComponents ns name) appFail
                (\<lambda>cs. reply (appOK (mapObj (appFields p @ [(''components'', JArr (map (componentJSON a) cs))]))))))"

definition appSchema :: "(string \<times> ftype) list" where
  "appSchema = [(''namespaceId'', FStr), (''name'', FStr), (''displayName'', FStr), (''description'', FStr), (''env'', FStr), (''metadata'', FMap)]"

definition appBody :: "napi \<Rightarrow> apiReq \<Rightarrow> apiReq \<Rightarrow> smap Application" where
  "appBody a rest r =
     (let (fine, kvs) = decodeStruct a appSchema r;
          f = (if fine then fieldStr kvs else formOrJSON (na_ft a) rest)
      in \<lparr>a_NamespaceId = f ''namespaceId'', a_Name = f ''name'', a_DisplayName = f ''displayName'', a_Description = f ''description'',
          a_Env = f ''env'', a_Metadata = (if fine then (case fieldMap kvs ''metadata'' of None \<Rightarrow> [] | Some m \<Rightarrow> m) else [])\<rparr>)"

definition appWrite :: "napi \<Rightarrow> apiReq \<Rightarrow> apiReq \<Rightarrow> dbHandler" where
  "appWrite a rest r =
     (let body = appBody a rest r
      in if a_Name body = '''' then reply (appError 400 400 ''name is required'')
         else andThen (UpsertApplication (body\<lparr>a_NamespaceId := defaultNamespace (a_NamespaceId body)\<rparr>)) appFail
                (\<lambda>created. reply (appOK (mapObj [(''created'', JBool created), (''name'', JStr (a_Name body))]))))"

definition appDelete :: "(string \<Rightarrow> string) \<Rightarrow> apiReq \<Rightarrow> dbHandler" where
  "appDelete pv r =
     andThen (DeleteApplication (nsParam r) (pv ''app'')) appFail (\<lambda>_. reply (appOK (mapObj [(''deleted'', JStr (pv ''app''))])))"

subsection \<open>Component declarations\<close>

record componentSpec =
  sp_NamespaceId :: string
  sp_AppName :: string
  sp_Name :: string
  sp_Kind :: string
  sp_Protocol :: string
  sp_ServiceName :: string
  sp_GroupName :: string
  sp_ClusterName :: string
  sp_HealthPath :: string
  sp_Weight :: rat
  sp_LBAlgorithm :: string
  sp_Sticky :: string
  sp_Metadata :: "smap option"

definition validKinds :: "string list" where
  "validKinds = [''api'', ''web'', ''worker'', ''mcp'', ''gateway'']"

definition defaultLBAlgorithmForKind :: "string \<Rightarrow> string" where
  "defaultLBAlgorithmForKind kind = (if kind = ''web'' then ''ip_hash'' else ''round_robin'')"

definition componentNeedsInstances :: "string \<Rightarrow> bool" where
  "componentNeedsInstances protocol \<longleftrightarrow> toLower (trimSpace protocol) \<noteq> ''static''"

definition specPort :: "componentSpec \<Rightarrow> goerr option" where
  "specPort c =
     (case (case sp_Metadata c of None \<Rightarrow> None | Some m \<Rightarrow> map_of m ServicePortMetaKey) of
        None \<Rightarrow> None
      | Some raw \<Rightarrow> (case ParseServicePort raw of Inl e \<Rightarrow> Some e | Inr _ \<Rightarrow> None))"

definition normalizeComponentSpec :: "napi \<Rightarrow> componentSpec \<Rightarrow> goerr + componentSpec" where
  "normalizeComponentSpec a c0 =
     (let c1 = (if sp_Kind c0 = '''' then c0\<lparr>sp_Kind := ''api''\<rparr> else c0)
      in if sp_Kind c1 \<notin> set validKinds
         then Inl (ErrMsg (''kind '' @ na_quote a (sp_Kind c1) @ '' is not one of ['' @ joinWith '' '' (sort validKinds) @ '']''))
         else let p = toLower (trimSpace (sp_Protocol c1));
                  c2 = c1\<lparr>sp_Protocol := (if p = '''' then ''http'' else p)\<rparr>
              in case specPort c2 of
                   Some e \<Rightarrow> Inl e
                 | None \<Rightarrow>
                     let c3 = (if sp_GroupName c2 = '''' then c2\<lparr>sp_GroupName := ''DEFAULT_GROUP''\<rparr> else c2);
                         c4 = (if sp_Weight c3 \<le> 0 then c3\<lparr>sp_Weight := 1\<rparr> else c3);
                         c5 = (if sp_LBAlgorithm c4 = '''' then c4\<lparr>sp_LBAlgorithm := defaultLBAlgorithmForKind (sp_Kind c4)\<rparr> else c4)
                     in if sp_ServiceName c5 = '''' \<and> componentNeedsInstances (sp_Protocol c5)
                        then Inl (ErrMsg (''serviceName is required for protocol '' @ na_quote a (sp_Protocol c5) @
                               '' (a static component is served from disk and needs none)''))
                        else Inr c5)"

subsection \<open>Components\<close>

definition componentList :: "napi \<Rightarrow> (string \<Rightarrow> string) \<Rightarrow> apiReq \<Rightarrow> dbHandler" where
  "componentList a pv r = andThen (ListComponents (nsParam r) (pv ''app'')) appFail (\<lambda>cs. reply (appOK (JArr (map (componentJSON a) cs))))"

definition componentSchema :: "(string \<times> ftype) list" where
  "componentSchema =
     map (\<lambda>k. (k, FStr)) [''namespaceId'', ''appName'', ''name'', ''kind'', ''protocol'', ''serviceName'', ''groupName'', ''clusterName'', ''healthPath'',
       ''lbAlgorithm'', ''sticky''] @ [(''weight'', FNum), (''metadata'', FMap)]"

definition specOf :: "napi \<Rightarrow> members \<Rightarrow> componentSpec" where
  "specOf a kvs =
     (let f = fieldStr kvs
      in \<lparr>sp_NamespaceId = f ''namespaceId'', sp_AppName = f ''appName'', sp_Name = f ''name'', sp_Kind = f ''kind'', sp_Protocol = f ''protocol'',
          sp_ServiceName = f ''serviceName'', sp_GroupName = f ''groupName'', sp_ClusterName = f ''clusterName'', sp_HealthPath = f ''healthPath'',
          sp_Weight = fieldNum a kvs ''weight'', sp_LBAlgorithm = f ''lbAlgorithm'', sp_Sticky = f ''sticky'', sp_Metadata = fieldMap kvs ''metadata''\<rparr>)"

text \<open>After a failed decoding the load-balancing algorithm, the metadata and, without a weight parameter, the weight are still those
  the decoder had stored.\<close>

definition specFromForm :: "napi \<Rightarrow> (string \<Rightarrow> string) \<Rightarrow> apiReq \<Rightarrow> componentSpec \<Rightarrow> componentSpec" where
  "specFromForm a pv rest b =
     (let f = formOrJSON (na_ft a) rest
      in b\<lparr>sp_NamespaceId := f ''namespaceId'', sp_AppName := pv ''app'', sp_Name := f ''name'', sp_Kind := f ''kind'', sp_Protocol := f ''protocol'',
           sp_ServiceName := f ''serviceName'', sp_GroupName := f ''groupName'', sp_ClusterName := f ''clusterName'', sp_HealthPath := f ''healthPath'',
           sp_Sticky := f ''sticky'', sp_Weight := (case na_parseF a (f ''weight'') of Some v \<Rightarrow> v | None \<Rightarrow> sp_Weight b)\<rparr>)"

definition componentBody :: "napi \<Rightarrow> (string \<Rightarrow> string) \<Rightarrow> apiReq \<Rightarrow> apiReq \<Rightarrow> componentSpec" where
  "componentBody a pv rest r =
     (let (fine, kvs) = decodeStruct a componentSchema r;
          b1 = (if fine then specOf a kvs else specFromForm a pv rest (specOf a kvs))
      in if pv ''component'' \<noteq> '''' then b1\<lparr>sp_Name := pv ''component''\<rparr> else b1)"

definition specComponent :: "componentSpec \<Rightarrow> smap ApplicationComponent" where
  "specComponent b = \<lparr>ac_NamespaceId = defaultNamespace (sp_NamespaceId b), ac_AppName = sp_AppName b, ac_Name = sp_Name b, ac_Kind = sp_Kind b,
     ac_Protocol = sp_Protocol b, ac_ServiceName = sp_ServiceName b, ac_GroupName = sp_GroupName b, ac_ClusterName = sp_ClusterName b,
     ac_HealthPath = sp_HealthPath b, ac_Weight = sp_Weight b, ac_LBAlgorithm = sp_LBAlgorithm b, ac_Sticky = sp_Sticky b,
     ac_Metadata = (case sp_Metadata b of None \<Rightarrow> [] | Some m \<Rightarrow> m)\<rparr>"

definition componentWrite :: "napi \<Rightarrow> (string \<Rightarrow> string) \<Rightarrow> apiReq \<Rightarrow> apiReq \<Rightarrow> dbHandler" where
  "componentWrite a pv rest r =
     (let b1 = componentBody a pv rest r
      in if sp_Name b1 = '''' then reply (appError 400 400 ''name is required in the path or the body'')
         else let b2 = (if sp_AppName b1 = '''' then b1\<lparr>sp_AppName := pv ''app''\<rparr> else b1)
              in case normalizeComponentSpec a b2 of
                   Inl e \<Rightarrow> reply (appError 400 400 (errText e))
                 | Inr b \<Rightarrow> andThen (UpsertComponent (specComponent b)) appFail
                     (\<lambda>created. reply (appOK (mapObj [(''created'', JBool created)]))))"

definition componentDelete :: "(string \<Rightarrow> string) \<Rightarrow> apiReq \<Rightarrow> dbHandler" where
  "componentDelete pv r =
     andThen (DeleteComponent (nsParam r) (pv ''app'') (pv ''component'')) appFail (\<lambda>_. reply (appOK (mapObj [(''deleted'', JBool True)])))"

subsection \<open>Routes\<close>

definition routeJSON :: "RouteBinding \<Rightarrow> json" where
  "routeJSON rt =
     mapObj [(''namespaceId'', JStr (r_NamespaceId rt)), (''domain'', JStr (r_Domain rt)), (''pathPrefix'', JStr (r_PathPrefix rt)),
       (''appName'', JStr (r_AppName rt)), (''componentName'', JStr (r_ComponentName rt)), (''upstreamName'', JStr (r_UpstreamName rt)),
       (''priority'', jInt (r_Priority rt))]"

definition routeList :: "apiReq \<Rightarrow> dbHandler" where
  "routeList r = andThen (ListRoutes (nsParam r)) appFail (\<lambda>rs. reply (appOK (JArr (map routeJSON rs))))"

definition routeSchema :: "(string \<times> ftype) list" where
  "routeSchema = map (\<lambda>k. (k, FStr)) [''namespaceId'', ''domain'', ''pathPrefix'', ''appName'', ''componentName'', ''upstreamName''] @ [(''priority'', FInt)]"

definition routeBody :: "napi \<Rightarrow> apiReq \<Rightarrow> apiReq \<Rightarrow> RouteBinding" where
  "routeBody a rest r =
     (let (fine, kvs) = decodeStruct a routeSchema r;
          f = (if fine then fieldStr kvs else formOrJSON (na_ft a) rest);
          prio = fieldInt kvs ''priority''
      in \<lparr>r_NamespaceId = f ''namespaceId'', r_Domain = f ''domain'', r_PathPrefix = f ''pathPrefix'', r_AppName = f ''appName'',
          r_ComponentName = f ''componentName'', r_UpstreamName = f ''upstreamName'',
          r_Priority = (if fine then prio else case atoi (f ''priority'') of Some v \<Rightarrow> v | None \<Rightarrow> prio)\<rparr>)"

definition routeWrite :: "napi \<Rightarrow> apiReq \<Rightarrow> apiReq \<Rightarrow> dbHandler" where
  "routeWrite a rest r =
     (let b = routeBody a rest r
      in if r_Domain b = '''' \<or> r_AppName b = '''' \<or> r_ComponentName b = ''''
         then reply (appError 400 400 ''domain, appName and componentName are required'')
         else andThen (UpsertRoute (b\<lparr>r_NamespaceId := defaultNamespace (r_NamespaceId b), r_Domain := toLower (r_Domain b),
                         r_PathPrefix := (if r_PathPrefix b = '''' then ''/'' else r_PathPrefix b)\<rparr>)) appFail
                (\<lambda>_. reply (appOK (mapObj [(''saved'', JBool True)]))))"

definition routeDelete :: "(string \<Rightarrow> string) \<Rightarrow> apiReq \<Rightarrow> dbHandler" where
  "routeDelete pv r =
     (let p = qparam r ''pathPrefix''
      in andThen (DeleteRoute (nsParam r) (toLower (pv ''domain'')) (if p = '''' then ''/'' else p)) appFail
           (\<lambda>_. reply (appOK (mapObj [(''deleted'', JBool True)]))))"

subsection \<open>Resolution\<close>

definition metaPair :: "string \<Rightarrow> smap \<Rightarrow> smap" where
  "metaPair raw out =
     (let pair = trimSpace raw
      in if pair = '''' then out
         else let (k, v, fine) = cutAt CHR ''='' pair
              in if \<not> fine then out else if trimSpace k \<noteq> '''' then aput out (trimSpace k) (trimSpace v) else out)"

text \<open>The nil map the code returns without a pair behaves like the empty one.\<close>

definition parseMetaFilter :: "string \<Rightarrow> smap" where
  "parseMetaFilter raw = (if raw = '''' then [] else fold metaPair (splitOn CHR '','' raw) [])"

definition resolvedInstance :: "napi \<Rightarrow> Instance \<Rightarrow> json" where
  "resolvedInstance a i =
     mapObj [(''ip'', JStr (i_IP i)), (''port'', JNum (strconvItoa (uint (i_Port i)))), (''cluster'', JStr (i_ClusterName i)),
       (''weight'', JNum (na_showF a (i_Weight i))), (''healthy'', JBool (i_Healthy i)), (''enabled'', JBool (i_Enabled i)),
       (''ephemeral'', JBool (i_Ephemeral i)), (''metadata'', metaJson (i_MetadataJSON i) (instMetadata i))]"

definition resolvedJSON :: "napi \<Rightarrow> ResolvedRoute \<Rightarrow> json" where
  "resolvedJSON a rr =
     mapObj [(''namespaceId'', JStr (rr_NamespaceId rr)), (''domain'', JStr (rr_Domain rr)), (''pathPrefix'', JStr (rr_PathPrefix rr)),
       (''appName'', JStr (rr_AppName rr)), (''componentName'', JStr (rr_ComponentName rr)), (''componentKind'', JStr (rr_ComponentKind rr)),
       (''protocol'', JStr (rr_Protocol rr)), (''upstreamName'', JStr (rr_UpstreamName rr)), (''lbAlgorithm'', JStr (rr_LBAlgorithm rr)),
       (''sticky'', JStr (rr_Sticky rr)), (''serviceName'', JStr (rr_ServiceName rr)), (''groupName'', JStr (rr_GroupName rr)),
       (''clusterName'', JStr (rr_ClusterName rr)), (''healthPath'', JStr (rr_HealthPath rr)), (''instances'', JArr (map (resolvedInstance a) (rr_Instances rr)))]"

definition routeResolve :: "napi \<Rightarrow> int \<Rightarrow> apiReq \<Rightarrow> dbHandler" where
  "routeResolve a now r =
     (let domain = qparam r ''domain''; path = qparam r ''path''
      in if domain = '''' then reply (appError 400 400 ''domain is required'')
         else andThen (ResolveRoute (Some (na_HeartbeatTimeoutMs a)) now (nsParam r) (toLower domain) (if path = '''' then ''/'' else path)
                         (parseMetaFilter (qparam r ''metaFilter''))) appFail
                (\<lambda>found. reply (appOK (case found of None \<Rightarrow> JNull | Some rr \<Rightarrow> resolvedJSON a rr))))"

subsection \<open>Every declared component is valid\<close>

text \<open>What a stored component promises to the gateway.\<close>

definition validRow :: "string ApplicationComponent \<Rightarrow> bool" where
  "validRow c \<longleftrightarrow> ac_NamespaceId c \<noteq> '''' \<and> ac_Name c \<noteq> '''' \<and> ac_Kind c \<in> set validKinds \<and>
     ac_Protocol c \<noteq> '''' \<and> toLower (trimSpace (ac_Protocol c)) = ac_Protocol c \<and> ac_GroupName c \<noteq> '''' \<and> 0 < ac_Weight c \<and>
     ac_LBAlgorithm c \<noteq> '''' \<and> (ac_ServiceName c = '''' \<longrightarrow> ac_Protocol c = ''static'') \<and>
     (\<exists>m. ac_Metadata c = encodeMeta m \<and> (\<forall>raw. map_of m ServicePortMetaKey = Some raw \<longrightarrow> (\<exists>p. ParseServicePort raw = Inr p)))"

definition declarationsOK :: "tables \<Rightarrow> bool" where
  "declarationsOK t \<longleftrightarrow> (\<forall>c\<in>set (application_component t). validRow c)"


lemma protocol_canonical: "toLower (trimSpace (toLower (trimSpace p))) = toLower (trimSpace p)"
  by (metis toLower_idem toLower_trimSpace trimSpace_idem)

lemma spec_if:
  "(if P then c\<lparr>sp_Kind := k\<rparr> else c) = c\<lparr>sp_Kind := if P then k else sp_Kind c\<rparr>"
  "(if P then c\<lparr>sp_GroupName := k\<rparr> else c) = c\<lparr>sp_GroupName := if P then k else sp_GroupName c\<rparr>"
  "(if P then c\<lparr>sp_Weight := w\<rparr> else c) = c\<lparr>sp_Weight := if P then w else sp_Weight c\<rparr>"
  "(if P then c\<lparr>sp_LBAlgorithm := k\<rparr> else c) = c\<lparr>sp_LBAlgorithm := if P then k else sp_LBAlgorithm c\<rparr>"
  by simp_all

lemma specPort_upd:
  "specPort (c\<lparr>sp_Kind := k\<rparr>) = specPort c" "specPort (c\<lparr>sp_Protocol := k\<rparr>) = specPort c" "specPort (c\<lparr>sp_GroupName := k\<rparr>) = specPort c"
  "specPort (c\<lparr>sp_Weight := w\<rparr>) = specPort c" "specPort (c\<lparr>sp_LBAlgorithm := k\<rparr>) = specPort c"
  by (simp_all add: specPort_def)

lemma normalize_Inr:
  assumes "normalizeComponentSpec a c = Inr b"
  shows "b = c\<lparr>sp_Kind := (if sp_Kind c = '''' then ''api'' else sp_Kind c),
      sp_Protocol := (let p = toLower (trimSpace (sp_Protocol c)) in if p = '''' then ''http'' else p),
      sp_GroupName := (if sp_GroupName c = '''' then ''DEFAULT_GROUP'' else sp_GroupName c),
      sp_Weight := (if sp_Weight c \<le> 0 then 1 else sp_Weight c),
      sp_LBAlgorithm := (if sp_LBAlgorithm c = '''' then defaultLBAlgorithmForKind (if sp_Kind c = '''' then ''api'' else sp_Kind c) else sp_LBAlgorithm c)\<rparr>"
    (is "b = ?b")
    and "sp_Kind b \<in> set validKinds" "specPort b = None" "sp_ServiceName b = '''' \<Longrightarrow> \<not> componentNeedsInstances (sp_Protocol b)"
proof -
  have e: "normalizeComponentSpec a c =
      (if sp_Kind ?b \<notin> set validKinds then Inl (ErrMsg (''kind '' @ na_quote a (sp_Kind ?b) @ '' is not one of ['' @ joinWith '' '' (sort validKinds) @ '']''))
       else case specPort ?b of Some e \<Rightarrow> Inl e
         | None \<Rightarrow> if sp_ServiceName ?b = '''' \<and> componentNeedsInstances (sp_Protocol ?b)
             then Inl (ErrMsg (''serviceName is required for protocol '' @ na_quote a (sp_Protocol ?b) @
                    '' (a static component is served from disk and needs none)'')) else Inr ?b)"
    by (simp add: normalizeComponentSpec_def spec_if specPort_upd Let_def cong: if_cong option.case_cong)
  define s where "s = ?b"
  note e' = e [folded s_def, unfolded assms]
  have b: "b = s" using e' by (simp split: if_splits option.splits)
  then show "b = ?b" by (simp only: s_def)
  show "sp_Kind b \<in> set validKinds" "specPort b = None" "sp_ServiceName b = '''' \<Longrightarrow> \<not> componentNeedsInstances (sp_Protocol b)"
    using e' unfolding b by (simp_all split: if_splits option.splits)
qed

lemma normalize_valid:
  assumes "normalizeComponentSpec a c = Inr b" "sp_Name c \<noteq> ''''"
  shows "validRow (compRow (specComponent b))"
proof -
  have k: "sp_Kind b \<in> set validKinds" and p: "sp_Protocol b \<noteq> ''''" "toLower (trimSpace (sp_Protocol b)) = sp_Protocol b"
    and g: "sp_GroupName b \<noteq> ''''" and w: "0 < sp_Weight b" and l: "sp_LBAlgorithm b \<noteq> ''''" and n: "sp_Name b \<noteq> ''''"
    and s: "sp_ServiceName b = '''' \<longrightarrow> sp_Protocol b = ''static''" and port: "specPort b = None"
  proof -
    note n = normalize_Inr [OF assms(1)]
    show "sp_Kind b \<in> set validKinds" "specPort b = None" by (fact n)+
    show p: "toLower (trimSpace (sp_Protocol b)) = sp_Protocol b"
    proof -
      have "toLower (trimSpace ''http'') = ''http''" by code_simp
      then show ?thesis by (subst (1 2) n(1)) (simp add: Let_def protocol_canonical)
    qed
    show "sp_ServiceName b = '''' \<longrightarrow> sp_Protocol b = ''static''" using n(4) p by (simp add: componentNeedsInstances_def)
    show "sp_Protocol b \<noteq> ''''" "sp_GroupName b \<noteq> ''''" "0 < sp_Weight b" "sp_LBAlgorithm b \<noteq> ''''" "sp_Name b \<noteq> ''''"
      using assms(2) by (subst n(1), simp add: Let_def defaultLBAlgorithmForKind_def)+
  qed
  have "\<forall>raw. map_of (ac_Metadata (specComponent b)) ServicePortMetaKey = Some raw \<longrightarrow> (\<exists>p. ParseServicePort raw = Inr p)"
    using port by (auto simp: specPort_def specComponent_def split: option.splits sum.splits)
  with k p g w l n s show ?thesis
    unfolding validRow_def by (simp add: compRow_def specComponent_def defaultNamespace_def) blast
qed

text \<open>A handler keeps \<open>P\<close> when every answer leaves a state with \<open>P\<close>.\<close>

definition keeps :: "(db \<Rightarrow> bool) \<Rightarrow> dbHandler \<Rightarrow> bool" where
  "keeps P h \<longleftrightarrow> (\<forall>d. P d \<longrightarrow> P (snd (h d)))"

named_theorems keeps_intros

lemma keepsD: "keeps P h \<Longrightarrow> P d \<Longrightarrow> P (snd (h d))"
  by (simp add: keeps_def)

lemma keeps_reply [keeps_intros]: "keeps P (reply x)"
  by (simp add: keeps_def reply_def)

lemma keeps_appFail [keeps_intros]: "keeps P (appFail e)"
  by (simp add: appFail_def keeps_reply)

lemma keeps_andThen [keeps_intros]:
  assumes "preserves P m" "\<And>e. keeps P (h e)" "\<And>x. keeps P (k x)"
  shows "keeps P (andThen m h k)"
  unfolding keeps_def
proof (intro allI impI)
  fix d assume d: "P d"
  then have "P (snd (m d))" by (rule preservesD [OF assms(1)])
  then show "P (snd (andThen m h k d))"
    using assms(2,3) by (cases "m d") (auto simp: andThen_def keeps_def split: sum.split)
qed

lemma keeps_if [keeps_intros]: "(b \<Longrightarrow> keeps P m) \<Longrightarrow> (\<not> b \<Longrightarrow> keeps P n) \<Longrightarrow> keeps P (if b then m else n)"
  by simp

lemma keeps_case_sum [keeps_intros]:
  "(\<And>e. x = Inl e \<Longrightarrow> keeps P (m e)) \<Longrightarrow> (\<And>v. x = Inr v \<Longrightarrow> keeps P (k v)) \<Longrightarrow> keeps P (case x of Inl e \<Rightarrow> m e | Inr v \<Rightarrow> k v)"
  by (cases x) auto

lemma declarations_PutComp:
  assumes "validRow (compRow c)"
  shows "preserves (dbinv declarationsOK) (UpsertComponent c)"
proof -
  have v: "validRow (setComp (compRow c) r)" if "validRow r" for r
    using that assms by (simp add: validRow_def setComp_def compRow_def)
  show ?thesis
    unfolding UpsertComponent_def GetComponent_def
    by (intro pres_intros)
      (auto simp: declarationsOK_def case_prod_beta Let_def updateWhere_def insertUnique_def v assms)
qed

lemma declarations_others:
  "preserves (dbinv declarationsOK) (UpsertApplication x)" "preserves (dbinv declarationsOK) (DeleteApplication ns n)"
  "preserves (dbinv declarationsOK) (DeleteComponent ns n c)" "preserves (dbinv declarationsOK) (UpsertRoute rt)"
  "preserves (dbinv declarationsOK) (DeleteRoute ns dm p)"
  unfolding UpsertApplication_def GetApplication_def DeleteApplication_def DeleteComponent_def UpsertRoute_def DeleteRoute_def
  by (intro pres_intros; auto simp: declarationsOK_def deleteWhere_def case_prod_beta Let_def)+

text \<open>The write requests of the application endpoints.\<close>

datatype appRequest =
    AppWrite apiReq apiReq | AppDelete "string \<Rightarrow> string" apiReq
  | ComponentWrite "string \<Rightarrow> string" apiReq apiReq | ComponentDelete "string \<Rightarrow> string" apiReq
  | RouteWrite apiReq apiReq | RouteDelete "string \<Rightarrow> string" apiReq

fun serveApp :: "napi \<Rightarrow> appRequest \<Rightarrow> dbHandler" where
  "serveApp a (AppWrite rest r) = appWrite a rest r"
| "serveApp a (AppDelete pv r) = appDelete pv r"
| "serveApp a (ComponentWrite pv rest r) = componentWrite a pv rest r"
| "serveApp a (ComponentDelete pv r) = componentDelete pv r"
| "serveApp a (RouteWrite rest r) = routeWrite a rest r"
| "serveApp a (RouteDelete pv r) = routeDelete pv r"

lemma keeps_serveApp: "keeps (dbinv declarationsOK) (serveApp a q)"
proof (cases q)
  case (ComponentWrite pv rest r)
  have "validRow (compRow (specComponent b))" if "normalizeComponentSpec a b2 = Inr b" "sp_Name b1 \<noteq> ''''"
    "b2 = (if sp_AppName b1 = '''' then b1\<lparr>sp_AppName := x\<rparr> else b1)" for b b1 b2 x
    using normalize_valid [OF that(1)] that(2,3) by (simp split: if_splits)
  then show ?thesis
    unfolding ComponentWrite serveApp.simps componentWrite_def Let_def
    by (intro keeps_intros declarations_PutComp) auto
qed (auto simp: appWrite_def appDelete_def componentDelete_def routeWrite_def routeDelete_def Let_def intro!: keeps_intros declarations_others)


definition jsonRequest :: "string \<Rightarrow> string \<Rightarrow> apiReq" where
  "jsonRequest path body = \<lparr>ar_Method = ''POST'', ar_Path = path, ar_Query = [], ar_PostForm = [], ar_ContentType = ''application/json'', ar_Body = body,
     ar_Cookies = [], ar_Authorization = '''', ar_LongPulling = '''', ar_RemoteAddr = ''''\<rparr>"

definition demoSpec :: apiReq where
  "demoSpec = jsonRequest ''/goacos/v1/apps/shop/components'' ''{\"KIND\":\"web\",\"name\":\"u\",\"serviceName\":\"s\"}''"

definition demoPath :: "string \<Rightarrow> string" where
  "demoPath k = (if k = ''app'' then ''shop'' else '''')"

lemma demo_componentBody:
  "componentBody demoNapi demoPath (drained demoSpec) demoSpec =
     \<lparr>sp_NamespaceId = '''', sp_AppName = '''', sp_Name = ''u'', sp_Kind = ''web'', sp_Protocol = '''', sp_ServiceName = ''s'', sp_GroupName = '''',
      sp_ClusterName = '''', sp_HealthPath = '''', sp_Weight = 0, sp_LBAlgorithm = '''', sp_Sticky = '''', sp_Metadata = None\<rparr>"
  by code_simp

lemma demo_spec:
  "normalizeComponentSpec demoNapi \<lparr>sp_NamespaceId = '''', sp_AppName = ''shop'', sp_Name = ''u'', sp_Kind = ''web'', sp_Protocol = '''', sp_ServiceName = ''s'',
      sp_GroupName = '''', sp_ClusterName = '''', sp_HealthPath = '''', sp_Weight = 0, sp_LBAlgorithm = '''', sp_Sticky = '''', sp_Metadata = None\<rparr> =
   Inr \<lparr>sp_NamespaceId = '''', sp_AppName = ''shop'', sp_Name = ''u'', sp_Kind = ''web'', sp_Protocol = ''http'', sp_ServiceName = ''s'',
      sp_GroupName = ''DEFAULT_GROUP'', sp_ClusterName = '''', sp_HealthPath = '''', sp_Weight = 1, sp_LBAlgorithm = ''ip_hash'', sp_Sticky = '''', sp_Metadata = None\<rparr>"
  by (simp add: normalizeComponentSpec_def validKinds_def toLower_def trimSpace_def trimLeft_def trimRight_def specPort_def
      defaultLBAlgorithmForKind_def)


subsection \<open>From declaration to resolution\<close>

lemma componentWrite_quiet:
  assumes "script d = []" "uniqueBy compKey (application_component (tabs d))"
    and "sp_Name (componentBody a pv rest r) \<noteq> ''''"
    and "normalizeComponentSpec a (let b = componentBody a pv rest r in if sp_AppName b = '''' then b\<lparr>sp_AppName := pv ''app''\<rparr> else b) = Inr b"
  shows "\<exists>cs' created. componentWrite a pv rest r d = (appOK (mapObj [(''created'', JBool created)]), d\<lparr>tabs := (tabs d)\<lparr>application_component := cs'\<rparr>\<rparr>) \<and>
    uniqueBy compKey cs' \<and> lookupBy compKey cs' (compKey (specComponent b)) = Some (compRow (specComponent b))"
  using UpsertComponent_quiet [OF assms(1,2), of "specComponent b"] assms(3,4)
  by (auto simp: componentWrite_def Let_def andThen_def reply_def)

text \<open>The row a route request stands for.\<close>

definition routeRowOf :: "RouteBinding \<Rightarrow> RouteBinding" where
  "routeRowOf b = b\<lparr>r_NamespaceId := defaultNamespace (r_NamespaceId b), r_Domain := toLower (r_Domain b),
     r_PathPrefix := (if r_PathPrefix b = '''' then ''/'' else r_PathPrefix b)\<rparr>"

lemma routeWrite_quiet:
  assumes "script d = []" "rt = routeRowOf (routeBody a rest r)"
    and "r_Domain (routeBody a rest r) \<noteq> ''''" "r_AppName (routeBody a rest r) \<noteq> ''''" "r_ComponentName (routeBody a rest r) \<noteq> ''''"
    and "\<And>x. x \<in> set (route_binding (tabs d)) \<Longrightarrow> r_NamespaceId x = r_NamespaceId rt \<Longrightarrow> \<not> equalFold (r_Domain x) (r_Domain rt)"
  shows "routeWrite a rest r d = (appOK (mapObj [(''saved'', JBool True)]), d\<lparr>tabs := (tabs d)\<lparr>route_binding := route_binding (tabs d) @ [rt]\<rparr>\<rparr>)"
proof -
  have "routeKey rt \<notin> routeKey ` set (route_binding (tabs d))"
    using assms(6) by (force simp: routeKey_def equalFold_def)
  then show ?thesis
    using assms(1-5) by (simp add: routeWrite_def routeRowOf_def Let_def andThen_def reply_def UpsertRoute_def go_simps upsertRow_def)
qed

lemma matchRoute_only:
  assumes "script d = []" "route_binding (tabs d) = rs @ [rt]" "r_NamespaceId rt = ns" "routeMatches domain path rt" "path \<noteq> ''''"
    and "\<And>x. x \<in> set rs \<Longrightarrow> r_NamespaceId x = ns \<Longrightarrow> \<not> equalFold (r_Domain x) domain"
  shows "matchRoute ns domain path d = (Inr (Some rt), d)"
proof -
  let ?rs = "routesOf ns (tabs d)"
  have s: "set ?rs = {x \<in> set rs. r_NamespaceId x = ns} \<union> {rt}" using assms(2,3) by (auto simp: routesOf_def)
  have "matchLoop domain path ?rs None \<noteq> None" using s assms(4) by (auto simp: matchLoop_None)
  then obtain b where b: "matchLoop domain path ?rs None = Some b" by blast
  with matchLoop_spec [OF b] s assms(6) have "b = rt" by (auto simp: routeMatches_def)
  with b show ?thesis using assms(1,5) by (simp add: matchRoute_def ListRoutes_def go_simps)
qed

text \<open>A registration touches the registry tables only.\<close>

lemma register_frame:
  assumes "script d = []"
  shows "route_binding (tabs (snd (RegisterInstance now u d))) = route_binding (tabs d) \<and>
    application_component (tabs (snd (RegisterInstance now u d))) = application_component (tabs d)"
proof -
  let ?P = "\<lambda>t. route_binding t = route_binding (tabs d) \<and> application_component t = application_component (tabs d)"
  have "preserves (dbinv ?P) (RegisterInstance now u)"
    unfolding RegisterInstance_def EnsureService_def selectInstanceId_def Let_def
    by (intro pres_intros) (auto simp: ensureServiceTab_def insertInstanceTab_def updateInstanceTab_def Let_def case_prod_beta)
  from preservesD [OF this, of d] show ?thesis using assms by (simp add: dbinv_def)
qed

text \<open>The only instance of a service is its whole listing.\<close>

lemma list_only:
  assumes "script d = []" "namingOK (tabs d)" "registered (tabs d) k = Some i" "instKey i = k"
    and "instService i = (ns, grp, svc)" "cl = '''' \<or> i_ClusterName i \<in> set (clusterNames cl)"
    and "\<And>k' j. registered (tabs d) k' = Some j \<Longrightarrow> instService j = (ns, grp, svc) \<Longrightarrow> k' = k"
    and "effectiveInstanceHealth hb i now" "i_Healthy i"
  shows "ListInstances hb now \<lparr>iq_NamespaceId = ns, iq_GroupName = grp, iq_ServiceName = svc, iq_Clusters = cl, iq_HealthyOnly = True\<rparr> d = (Inr [i], d)"
proof -
  let ?q = "\<lparr>iq_NamespaceId = ns, iq_GroupName = grp, iq_ServiceName = svc, iq_Clusters = cl, iq_HealthyOnly = True\<rparr>"
  let ?rs = "naming_instance (tabs d)"
  have u: "uniqueBy instKey ?rs" using assms(2) by (simp add: namingOK_def)
  have i: "i \<in> set ?rs" using assms(3) inst_beat.lookup_Some by (fastforce simp: registered_def)
  have "servable hb now ?q j \<longleftrightarrow> instKey j = k" if "j \<in> set ?rs" for j
  proof -
    have j: "registered (tabs d) (instKey j) = Some j" using inst_beat.lookup_in [OF u that] by (simp add: registered_def)
    show ?thesis
    proof
      assume "servable hb now ?q j"
      then show "instKey j = k" using assms(7) [OF j] by (simp add: servable_def instanceSelected_def)
    next
      assume "instKey j = k"
      then have "j = i" using j assms(3) by simp
      then show "servable hb now ?q j" using assms(5,6,8,9) by (auto simp: servable_def instanceSelected_def clusterNames_def)
    qed
  qed
  then have "filter (servable hb now ?q) ?rs = filter (\<lambda>j. instKey j = k) ?rs" by (rule filter_cong [OF refl])
  also have "\<dots> = [i]" using inst_beat.filter_key [OF u, of k] assms(3) by (simp add: registered_def)
  finally show ?thesis using assms(1,9) by (simp add: ListInstances_def go_simps liveInstances_servable)
qed

lemma first_registration:
  assumes "script d = []" "namingOK (tabs d)" "p = parseInstanceParams a r" "ip_IP p \<noteq> []" "ip_Port p \<noteq> 0" "ip_ServiceName p \<noteq> []"
    and first: "\<And>i. i \<in> set (naming_instance (tabs d)) \<Longrightarrow> instService i \<noteq> (ip_NamespaceId p, ip_GroupName p, ip_ServiceName p)"
    and time: "0 < now" "now \<le> later" "0 < na_HeartbeatTimeoutMs a" "later - now \<le> na_HeartbeatTimeoutMs a"
  shows "\<exists>i d'. namingV1Register a now r d = (writeText 200 ''ok'', d') \<and> script d' = [] \<and> route_binding (tabs d') = route_binding (tabs d) \<and>
    application_component (tabs d') = application_component (tabs d) \<and> instKey i = ipKey p \<and> i_Healthy i \<and>
    (\<forall>cl. cl = [] \<or> ip_ClusterName p \<in> set (clusterNames cl) \<longrightarrow>
      ListInstances (Some (na_HeartbeatTimeoutMs a)) later \<lparr>iq_NamespaceId = ip_NamespaceId p, iq_GroupName = ip_GroupName p, iq_ServiceName = ip_ServiceName p,
        iq_Clusters = cl, iq_HealthyOnly = True\<rparr> d' = (Inr [i], d'))"
proof -
  let ?u = "ipUpsert p" and ?k = "ipKey p" and ?s = "(ip_NamespaceId p, ip_GroupName p, ip_ServiceName p)"
  note nu = ipUpsert_norm [OF assms(3)]
  have svc: "instService i \<noteq> ?s" if "registered (tabs d) k' = Some i" for i k'
    using that first [of i] inst_beat.lookup_Some [of _ k' i] by (auto simp: registered_def)
  have none: "registered (tabs d) ?k = None"
    using svc inst_beat.lookup_Some by (cases "registered (tabs d) ?k") (fastforce simp: registered_def instKey_def instService_def ipKey_def)+
  let ?i = "regValue now ?u (next_id (tabs d) + 1) None"
  obtain t' where w: "RegisterInstance now ?u d = (Inr True, d\<lparr>tabs := t'\<rparr>)" and ok: "namingOK t'"
    and m: "registered t' = (registered (tabs d))(?k \<mapsto> ?i)"
    using RegisterInstance_quiet [OF assms(1,2) refl, of now ?u] none nu by auto
  let ?d = "d\<lparr>tabs := t'\<rparr>"
  have reg: "namingV1Register a now r d = (writeText 200 ''ok'', ?d)"
    using assms(3-6) w by (simp add: namingV1Register_def Let_def andThen_def reply_def)
  have ki: "instKey ?i = ?k" using regValue_key [of None ?u now] nu by simp
  have i: "instService ?i = ?s" "i_ClusterName ?i = ip_ClusterName p"
    using ki by (simp_all add: instKey_def instService_def ipKey_def)
  have h: "effectiveInstanceHealth (Some (na_HeartbeatTimeoutMs a)) ?i later" "i_Healthy ?i"
    using time by (simp_all add: effectiveInstanceHealth_def regValue_fields)
  have only: "k' = ?k" if "registered (tabs ?d) k' = Some j" "instService j = ?s" for k' j
    using that m svc by (auto split: if_splits)
  have q: "script ?d = []" "namingOK (tabs ?d)" "registered (tabs ?d) ?k = Some ?i" using assms(1) ok m by simp_all
  have "ListInstances (Some (na_HeartbeatTimeoutMs a)) later \<lparr>iq_NamespaceId = ip_NamespaceId p, iq_GroupName = ip_GroupName p,
      iq_ServiceName = ip_ServiceName p, iq_Clusters = cl, iq_HealthyOnly = True\<rparr> ?d = (Inr [?i], ?d)"
    if "cl = [] \<or> ip_ClusterName p \<in> set (clusterNames cl)" for cl
    by (rule list_only [OF q ki i(1) _ only h]) (use that i(2) in simp)
  with reg ki h(2) register_frame [OF assms(1), of now ?u] w assms(1) show ?thesis by auto
qed

lemma DeclaredServicePort_cong: "map_of m = map_of m' \<Longrightarrow> DeclaredServicePort m = DeclaredServicePort m'"
  by (simp add: DeclaredServicePort_def)

lemma resolve_only:
  assumes "script d = []" "matchRoute ns domain path d = (Inr (Some rt), d)"
    and "GetComponent ns (r_AppName rt) (r_ComponentName rt) d = (Inr (Some cmp), d)" "ac_GroupName cmp \<noteq> ''''"
    and "ListInstances hb now \<lparr>iq_NamespaceId = ns, iq_GroupName = ac_GroupName cmp, iq_ServiceName = ac_ServiceName cmp, iq_Clusters = ac_ClusterName cmp,
           iq_HealthyOnly = True\<rparr> d = (Inr [i], d)"
    and "DeclaredServicePort (ac_Metadata cmp) = 0 \<or> DeclaredServicePort (ac_Metadata cmp) = i_Port i"
  shows "\<exists>rr. ResolveRoute hb now ns domain path [] d = (Inr (Some rr), d) \<and> rr_Instances rr = [i] \<and> rr_AppName rr = ac_AppName cmp \<and>
    rr_ComponentName rr = ac_Name cmp \<and> rr_PathPrefix rr = r_PathPrefix rt \<and> rr_LBAlgorithm rr = ac_LBAlgorithm cmp"
proof -
  obtain pool pc where sp: "SelectPortPool [i] (DeclaredServicePort (ac_Metadata cmp)) = (pool, pc)" by fastforce
  then have "pool = [i]" using SelectPortPool_pool [of "[i]" "DeclaredServicePort (ac_Metadata cmp)"] assms(6) by auto
  with sp show ?thesis
    using assms(1-5) by (simp add: ResolveRoute_def bindS_def retS_def Let_def sortInstances_def)
qed

text \<open>C40. From declaration to resolution, over HTTP: declare a component, bind a domain without other routes to it, register the first
  instance of its service - the resolve endpoint then answers with that component, its balancing algorithm and exactly this instance,
  healthy, for every path under the prefix and until the heartbeat runs out.\<close>

theorem deploy_then_resolve:
  assumes quiet: "script d = []" and ok: "appModelOK (tabs d)" "namingOK (tabs d)"
    and comp_name: "sp_Name (componentBody a pv rest1 r1) \<noteq> ''''"
    and comp: "normalizeComponentSpec a (let b = componentBody a pv rest1 r1 in if sp_AppName b = '''' then b\<lparr>sp_AppName := pv ''app''\<rparr> else b) = Inr b"
    and c: "c = specComponent b" "metaUtf8 (ac_Metadata c)"
    and rt: "rt = routeRowOf (routeBody a rest2 r2)"
      "r_Domain (routeBody a rest2 r2) \<noteq> ''''" "r_AppName (routeBody a rest2 r2) \<noteq> ''''" "r_ComponentName (routeBody a rest2 r2) \<noteq> ''''"
      "compKey c = (r_NamespaceId rt, r_AppName rt, r_ComponentName rt)"
    and first_route: "\<And>x. x \<in> set (route_binding (tabs d)) \<Longrightarrow> r_NamespaceId x = r_NamespaceId rt \<Longrightarrow> \<not> equalFold (r_Domain x) (r_Domain rt)"
    and p: "p = parseInstanceParams a r3" "ip_IP p \<noteq> ''''" "ip_Port p \<noteq> 0" "ip_ServiceName p \<noteq> ''''"
      "(ip_NamespaceId p, ip_GroupName p, ip_ServiceName p) = (ac_NamespaceId c, ac_GroupName c, ac_ServiceName c)"
      "ac_ClusterName c = '''' \<or> ip_ClusterName p \<in> set (clusterNames (ac_ClusterName c))"
      "DeclaredServicePort (ac_Metadata c) = 0 \<or> DeclaredServicePort (ac_Metadata c) = ip_Port p"
    and first_instance: "\<And>i. i \<in> set (naming_instance (tabs d)) \<Longrightarrow> instService i \<noteq> (ac_NamespaceId c, ac_GroupName c, ac_ServiceName c)"
    and time: "0 < now" "now \<le> later" "0 < na_HeartbeatTimeoutMs a" "later - now \<le> na_HeartbeatTimeoutMs a"
    and q: "nsParam r4 = r_NamespaceId rt" "qparam r4 ''domain'' \<noteq> ''''" "toLower (qparam r4 ''domain'') = r_Domain rt" "qparam r4 ''metaFilter'' = ''''"
      "pathPrefixMatches (r_PathPrefix rt) (let s = qparam r4 ''path'' in if s = '''' then ''/'' else s)"
  shows "\<exists>d1 d2 d3 rr i. rs_code (fst (componentWrite a pv rest1 r1 d)) = 200 \<and> d1 = snd (componentWrite a pv rest1 r1 d) \<and>
    rs_code (fst (routeWrite a rest2 r2 d1)) = 200 \<and> d2 = snd (routeWrite a rest2 r2 d1) \<and>
    namingV1Register a now r3 d2 = (writeText 200 ''ok'', d3) \<and> routeResolve a later r4 d3 = (appOK (resolvedJSON a rr), d3) \<and>
    rr_Instances rr = [i] \<and> instKey i = ipKey p \<and> i_Healthy i \<and>
    rr_AppName rr = ac_AppName c \<and> rr_ComponentName rr = ac_Name c \<and> rr_LBAlgorithm rr = ac_LBAlgorithm c"
proof -
  have uc: "uniqueBy compKey (application_component (tabs d))" using ok by (simp add: appModelOK_def)
  obtain cs' created where w1: "componentWrite a pv rest1 r1 d =
      (appOK (mapObj [(''created'', JBool created)]), d\<lparr>tabs := (tabs d)\<lparr>application_component := cs'\<rparr>\<rparr>)"
    and cs': "uniqueBy compKey cs'" "lookupBy compKey cs' (compKey c) = Some (compRow c)"
    using componentWrite_quiet [OF quiet uc comp_name comp] c(1) by blast
  define d1 where "d1 = d\<lparr>tabs := (tabs d)\<lparr>application_component := cs'\<rparr>\<rparr>"
  define d2 where "d2 = d1\<lparr>tabs := (tabs d1)\<lparr>route_binding := route_binding (tabs d1) @ [rt]\<rparr>\<rparr>"
  have w2: "routeWrite a rest2 r2 d1 = (appOK (mapObj [(''saved'', JBool True)]), d2)"
    unfolding d2_def using routeWrite_quiet [of d1, OF _ rt(1-4)] quiet first_route by (simp add: d1_def)
  have s2: "script d2 = []" and n2: "naming_instance (tabs d2) = naming_instance (tabs d)"
      "next_id (tabs d2) = next_id (tabs d)" "naming_service (tabs d2) = naming_service (tabs d)"
    using quiet by (simp_all add: d2_def d1_def)
  then have ok2: "namingOK (tabs d2)" using ok(2) by (simp add: namingOK_def)
  have first2: "instService i \<noteq> (ip_NamespaceId p, ip_GroupName p, ip_ServiceName p)" if "i \<in> set (naming_instance (tabs d2))" for i
    using that first_instance p(5) n2 by simp
  obtain i d3 where reg: "namingV1Register a now r3 d2 = (writeText 200 ''ok'', d3)" and s3: "script d3 = []"
    and f3: "route_binding (tabs d3) = route_binding (tabs d) @ [rt]" "application_component (tabs d3) = cs'"
    and i: "instKey i = ipKey p" "i_Healthy i"
    and li: "ListInstances (Some (na_HeartbeatTimeoutMs a)) later \<lparr>iq_NamespaceId = ip_NamespaceId p, iq_GroupName = ip_GroupName p,
        iq_ServiceName = ip_ServiceName p, iq_Clusters = ac_ClusterName c, iq_HealthyOnly = True\<rparr> d3 = (Inr [i], d3)"
    using first_registration [OF s2 ok2 p(1-4) first2 time] p(6) by (auto simp: d2_def d1_def)
  let ?cmp = "scanComponent (compRow c)"
  have cmp: "ac_GroupName ?cmp = ac_GroupName c" "ac_ServiceName ?cmp = ac_ServiceName c" "ac_ClusterName ?cmp = ac_ClusterName c"
      "ac_AppName ?cmp = ac_AppName c" "ac_Name ?cmp = ac_Name c" "ac_LBAlgorithm ?cmp = ac_LBAlgorithm c"
      "DeclaredServicePort (ac_Metadata ?cmp) = DeclaredServicePort (ac_Metadata c)"
    using DeclaredServicePort_cong [OF map_of_decode_encode [OF c(2)]] by (simp_all add: scan_compRow)
  have g: "ac_GroupName c \<noteq> []"
    using normalize_valid [OF comp] comp_name by (simp add: validRow_def compRow_def c(1) Let_def split: if_splits)
  have gc: "GetComponent (r_NamespaceId rt) (r_AppName rt) (r_ComponentName rt) d3 = (Inr (Some ?cmp), d3)"
    using quiet_GetComponent [OF s3, of "r_NamespaceId rt"] cs' f3(2) rt(5) by simp
  have port: "i_Port i = ip_Port p" using i(1) by (simp add: instKey_def ipKey_def)
  have "(ip_NamespaceId p, ip_GroupName p, ip_ServiceName p) = (r_NamespaceId rt, ac_GroupName c, ac_ServiceName c)"
    using p(5) rt(5) by (simp add: compKey_def)
  then have li': "ListInstances (Some (na_HeartbeatTimeoutMs a)) later \<lparr>iq_NamespaceId = r_NamespaceId rt, iq_GroupName = ac_GroupName ?cmp,
      iq_ServiceName = ac_ServiceName ?cmp, iq_Clusters = ac_ClusterName ?cmp, iq_HealthyOnly = True\<rparr> d3 = (Inr [i], d3)"
    using li unfolding cmp by simp
  define path where "path = (let s = qparam r4 ''path'' in if s = '''' then ''/'' else s)"
  have mr: "matchRoute (r_NamespaceId rt) (r_Domain rt) path d3 = (Inr (Some rt), d3)"
    using matchRoute_only [OF s3 f3(1) refl, of "r_Domain rt" path] first_route q(5) by (simp add: routeMatches_def equalFold_def path_def Let_def)
  obtain rr where rr: "ResolveRoute (Some (na_HeartbeatTimeoutMs a)) later (r_NamespaceId rt) (r_Domain rt) path [] d3 = (Inr (Some rr), d3)"
    and fields: "rr_Instances rr = [i]" "rr_AppName rr = ac_AppName c" "rr_ComponentName rr = ac_Name c" "rr_LBAlgorithm rr = ac_LBAlgorithm c"
    using resolve_only [OF s3 mr gc _ li'] g p(7) port unfolding cmp by auto
  have "routeResolve a later r4 d3 = (appOK (resolvedJSON a rr), d3)"
    using rr q(1-4) by (simp add: routeResolve_def Let_def andThen_def reply_def parseMetaFilter_def path_def)
  with w1 w2 reg fields i show ?thesis by (auto simp: d1_def appOK_def writeJSON_def)
qed

definition queryRequest :: "string \<Rightarrow> (string \<times> string) list \<Rightarrow> apiReq" where
  "queryRequest path q = \<lparr>ar_Method = ''POST'', ar_Path = path, ar_Query = q, ar_PostForm = [], ar_ContentType = '''', ar_Body = '''',
     ar_Cookies = [], ar_Authorization = '''', ar_LongPulling = '''', ar_RemoteAddr = ''''\<rparr>"

definition demoRoute :: apiReq where
  "demoRoute = queryRequest ''/goacos/v1/routes'' [(''domain'', ''A.com''), (''appName'', ''shop''), (''componentName'', ''u'')]"

definition demoInstance :: apiReq where
  "demoInstance = queryRequest ''/nacos/v1/ns/instance'' [(''serviceName'', ''s''), (''ip'', ''10.0.0.1''), (''port'', ''8080'')]"

definition demoResolve :: apiReq where
  "demoResolve = queryRequest ''/goacos/v1/route/resolve'' [(''domain'', ''a.com''), (''path'', ''/x'')]"

lemma decode_empty: "jsonDecode '''' = None"
  by (simp add: jsonDecode_def skipWs_def)

lemma demo_routeBody:
  "routeBody demoNapi demoRoute demoRoute = \<lparr>r_NamespaceId = '''', r_Domain = ''A.com'', r_PathPrefix = '''', r_AppName = ''shop'', r_ComponentName = ''u'',
     r_UpstreamName = '''', r_Priority = 0\<rparr>"
  by (simp add: routeBody_def decodeStruct_def demoRoute_def queryRequest_def decode_empty formOrJSON_def arForm_def qget_def hasPrefix_def
      fieldInt_def memberVals_def atoi_def)

lemma demo_routeRow:
  "routeRowOf (routeBody demoNapi demoRoute demoRoute) = \<lparr>r_NamespaceId = ''public'', r_Domain = ''a.com'', r_PathPrefix = ''/'', r_AppName = ''shop'',
     r_ComponentName = ''u'', r_UpstreamName = '''', r_Priority = 0\<rparr>"
proof -
  have "toLower ''A.com'' = ''a.com''" by code_simp
  then show ?thesis by (simp add: demo_routeBody routeRowOf_def defaultNamespace_def)
qed

lemma demo_instance:
  "parseInstanceParams demoNapi demoInstance = \<lparr>ip_NamespaceId = ''public'', ip_GroupName = ''DEFAULT_GROUP'', ip_ServiceName = ''s'', ip_ClusterName = ''DEFAULT'',
     ip_IP = ''10.0.0.1'', ip_Port = 8080, ip_Weight = 1, ip_Enabled = True, ip_Ephemeral = True, ip_Metadata = Some [], ip_BeatJSON = ''''\<rparr>"
  by (simp add: parseInstanceParams_def paramsOf_def formOrJSON_def demoInstance_def queryRequest_def qget_def arForm_def hasPrefix_def parseServiceName_def
      normalizeNamespace_def flagParam_def metaFromParam_def demo_port)

theorem deploy_then_resolve_witness:
  "\<exists>d1 d2 d3 rr i. d1 = snd (componentWrite demoNapi demoPath (drained demoSpec) demoSpec \<lparr>tabs = empty_tables, script = []\<rparr>) \<and>
     d2 = snd (routeWrite demoNapi demoRoute demoRoute d1) \<and> namingV1Register demoNapi 1000 demoInstance d2 = (writeText 200 ''ok'', d3) \<and>
     routeResolve demoNapi 2000 demoResolve d3 = (appOK (resolvedJSON demoNapi rr), d3) \<and> rr_Instances rr = [i] \<and> i_IP i = ''10.0.0.1'' \<and> i_Port i = 8080"
proof -
  let ?d = "\<lparr>tabs = empty_tables, script = []\<rparr>"
  let ?b = "\<lparr>sp_NamespaceId = '''', sp_AppName = ''shop'', sp_Name = ''u'', sp_Kind = ''web'', sp_Protocol = ''http'', sp_ServiceName = ''s'',
      sp_GroupName = ''DEFAULT_GROUP'', sp_ClusterName = '''', sp_HealthPath = '''', sp_Weight = 1, sp_LBAlgorithm = ''ip_hash'', sp_Sticky = '''', sp_Metadata = None\<rparr>"
  have b: "normalizeComponentSpec demoNapi (let b = componentBody demoNapi demoPath (drained demoSpec) demoSpec
      in if sp_AppName b = '''' then b\<lparr>sp_AppName := demoPath ''app''\<rparr> else b) = Inr ?b"
    by (simp add: demo_componentBody demo_spec demoPath_def Let_def)
  have lower: "toLower ''a.com'' = ''a.com''" by code_simp
  have e: "metaUtf8 []" "DeclaredServicePort [] = 0" "appModelOK empty_tables" "route_binding empty_tables = []" "naming_instance empty_tables = []"
      "na_HeartbeatTimeoutMs demoNapi = 15000"
    by (simp_all add: metaUtf8_def DeclaredServicePort_def appModelOK_def empty_tables_def demoNapi_def)
  have "\<exists>d1 d2 d3 rr i. rs_code (fst (componentWrite demoNapi demoPath (drained demoSpec) demoSpec ?d)) = 200 \<and>
      d1 = snd (componentWrite demoNapi demoPath (drained demoSpec) demoSpec ?d) \<and>
      rs_code (fst (routeWrite demoNapi demoRoute demoRoute d1)) = 200 \<and> d2 = snd (routeWrite demoNapi demoRoute demoRoute d1) \<and>
      namingV1Register demoNapi 1000 demoInstance d2 = (writeText 200 ''ok'', d3) \<and>
      routeResolve demoNapi 2000 demoResolve d3 = (appOK (resolvedJSON demoNapi rr), d3) \<and>
      rr_Instances rr = [i] \<and> instKey i = ipKey (parseInstanceParams demoNapi demoInstance) \<and> i_Healthy i \<and>
      rr_AppName rr = ac_AppName (specComponent ?b) \<and> rr_ComponentName rr = ac_Name (specComponent ?b) \<and>
      rr_LBAlgorithm rr = ac_LBAlgorithm (specComponent ?b)"
    by (rule deploy_then_resolve [OF _ _ _ _ b refl _ refl _ _ _ _ _ refl])
      (use lower e namingOK_empty in \<open>simp_all add: demo_componentBody demo_routeRow [unfolded demo_routeBody] demo_routeBody demo_instance specComponent_def defaultNamespace_def compKey_def
        nsParam_def qparam_def demoResolve_def queryRequest_def qget_def pathPrefixMatches_def\<close>)
  then show ?thesis by (force simp: demo_instance ipKey_def instKey_def)
qed

subsection \<open>What a failed decoding sees\<close>

text \<open>A body that the decoder has read is not seen again: without a JSON object of the right types only query parameters count, so the
  fields of a submitted form are lost.\<close>

lemma drained_form: "formOrJSON ft (drained r) k = qget (ar_Query r) k"
  by (simp add: formOrJSON_def drained_def arForm_def decode_empty)

lemma form_body_ignored:
  assumes "jsonDecode (ar_Body r) = None" "qget (ar_Query r) ''name'' = ''''"
  shows "appWrite a (drained r) r = reply (appError 400 400 ''name is required'')"
  using assms by (simp add: appWrite_def appBody_def decodeStruct_def drained_form)

end
