(* ===== verification/GatewayApi.thy ===== *)
theory GatewayApi
  imports Gateway AppApi
begin

text \<open>
  The gateway endpoints of the management API (\<^verbatim>\<open>internal/api/gateway_v1.go\<close>): certificates, traffic policies per domain, a
  forced refresh and the per-domain part of the status report.  The state of the server is its database and, when the data plane
  runs in this process, the gateway; \<open>gwApi\<close> collects the configuration and what the environment answers.
\<close>

subsection \<open>State\<close>

record gwApi =
  gx_napi :: napi
  gx_cfg :: Config
  gx_ccfg :: certCfg
  gx_world :: world
  gx_order :: "string list \<Rightarrow> string list"
  gx_now :: int
  gx_nowMS :: int
  gx_rfc3339 :: "int \<Rightarrow> string"
  gx_dir :: fsys

type_synonym gwServer = "gateway option \<times> db"

type_synonym gwHandler = "gwServer \<Rightarrow> apiResp \<times> gwServer"

definition gwReply :: "apiResp \<Rightarrow> gwHandler" where
  "gwReply x s = (x, s)"

definition gwThen :: "'a dbop \<Rightarrow> (goerr \<Rightarrow> gwHandler) \<Rightarrow> ('a \<Rightarrow> gwHandler) \<Rightarrow> gwHandler" where
  "gwThen m h k s = (case m (snd s) of (Inl e, d) \<Rightarrow> h e (fst s, d) | (Inr x, d) \<Rightarrow> k x (fst s, d))"

definition gwFail :: "goerr \<Rightarrow> gwHandler" where
  "gwFail e = gwReply (appError 500 500 (errText e))"

definition errAny :: "goerr option \<Rightarrow> json" where
  "errAny e = (case e of None \<Rightarrow> JNull | Some x \<Rightarrow> JStr (errText x))"

text \<open>\<^verbatim>\<open>Gateway.Refresh\<close> as a handler reaches it, with the error the routing table remembers.\<close>

definition tableRefresh :: "gwApi \<Rightarrow> gateway \<Rightarrow> db \<Rightarrow> goerr option" where
  "tableRefresh x g d = fst (Refresh (Some (na_HeartbeatTimeoutMs (gx_napi x))) (gx_nowMS x) (gx_order x) (cc_ns (gx_ccfg x)) (g_table g) d)"

definition refreshNow :: "gwApi \<Rightarrow> gwServer \<Rightarrow> gwServer" where
  "refreshNow x s =
     (case fst s of
        None \<Rightarrow> s
      | Some g \<Rightarrow> (let (g', d') = refresh (Some (na_HeartbeatTimeoutMs (gx_napi x))) (gx_nowMS x) (gx_order x) (cc_ns (gx_ccfg x)) g (snd s) in (Some g', d')))"

definition gatewayRefresh :: "gwApi \<Rightarrow> gwHandler" where
  "gatewayRefresh x s =
     (case fst s of
        None \<Rightarrow> (appError 400 400 ''gateway is not enabled'', s)
      | Some g \<Rightarrow>
          (let s' = refreshNow x s; loaded = (case fst s' of Some g' \<Rightarrow> tb_LoadedAt (g_table g') | None \<Rightarrow> zeroTime)
           in (appOK (mapObj [(''reloadedAt'', JStr (gx_rfc3339 x loaded)), (''error'', errAny (tableRefresh x g (snd s)))]), s')))"

definition Counters :: "gateway \<Rightarrow> json" where
  "Counters g =
     mapObj [(''requests'', jInt (g_requests g)), (''proxied'', jInt (g_proxied g)), (''static'', jInt (g_staticHits g)),
       (''redirects'', jInt (g_redirects g)), (''rejected'', jInt (g_rejected g)), (''noRoute'', jInt (g_noRoute g)),
       (''upstreamFailed'', jInt (gw_upstreamFailed (g_fwd g))), (''pooledUpstreams'', jInt (int (card (dom (gw_pool (g_fwd g))))))]"

subsection \<open>Certificates\<close>

definition certWarning :: "int \<Rightarrow> Certificate \<Rightarrow> string" where
  "certWarning now row =
     (if cert_Status row = ''failed'' then ''issuance failed: '' @ cert_LastError row
      else if cert_Source row = ''self_signed''
        then ''self-signed: browsers will not trust this domain until ACME issues or an operator uploads a certificate''
      else if DaysLeft now (cert_NotAfter row) < 0 then ''certificate has expired''
      else if DaysLeft now (cert_NotAfter row) \<le> 21 \<and> cert_Source row = ''acme'' then ''inside the renewal window''
      else '''')"

definition certRowJSON :: "gwApi \<Rightarrow> Certificate \<Rightarrow> json" where
  "certRowJSON x row =
     mapObj [(''namespaceId'', JStr (cert_NamespaceId row)), (''domain'', JStr (NormalizeDomain (cert_Domain row))),
       (''source'', JStr (cert_Source row)), (''issuer'', JStr (cert_Issuer row)), (''notBefore'', JStr (gx_rfc3339 x (cert_NotBefore row))),
       (''notAfter'', JStr (gx_rfc3339 x (cert_NotAfter row))), (''daysLeft'', jInt (DaysLeft (gx_now x) (cert_NotAfter row))),
       (''status'', JStr (cert_Status row)), (''lastError'', JStr (cert_LastError row)), (''autoRenew'', JBool (cert_Source row = ''acme'')),
       (''sourceWarning'', JStr (certWarning (gx_now x) row))]"

definition certList :: "gwApi \<Rightarrow> apiReq \<Rightarrow> gwHandler" where
  "certList x r = gwThen (ListCertificates (nsParam r)) gwFail (\<lambda>rows. gwReply (appOK (JArr (map (certRowJSON x) rows))))"

definition certSchema :: "(string \<times> ftype) list" where
  "certSchema = map (\<lambda>k. (k, FStr)) [''namespaceId'', ''domain'', ''certPem'', ''keyPem'']"

definition certField :: "napi \<Rightarrow> apiReq \<Rightarrow> apiReq \<Rightarrow> string \<Rightarrow> string" where
  "certField a rest r = (let (fine, kvs) = decodeStruct a certSchema r in if fine then fieldStr kvs else formOrJSON (na_ft a) rest)"

definition storeManualWithoutGateway :: "gwApi \<Rightarrow> string \<Rightarrow> string \<Rightarrow> string \<Rightarrow> string \<Rightarrow> bool dbop" where
  "storeManualWithoutGateway x ns domain certPEM keyPEM =
     UpsertCertificate (gx_now x) (w_tenYears (gx_world x))
       \<lparr>cert_NamespaceId = ns, cert_Domain = NormalizeDomain domain, cert_Source = ''manual'', cert_Issuer = '''', cert_CertPEM = certPEM, cert_KeyPEM = keyPEM,
        cert_NotBefore = zeroTime, cert_NotAfter = zeroTime, cert_RenewBeforeDays = 0, cert_AcmeOrderURL = '''', cert_Status = '''', cert_LastError = ''''\<rparr>"

text \<open>The upload: with a gateway through \<^verbatim>\<open>StoreManual\<close>, without one straight into the database.  \<open>(domain, notAfter)\<close> is what the
  answer shows of the returned \<^verbatim>\<open>CertInfo\<close>, the zero value without a gateway.\<close>

definition certStore :: "gwApi \<Rightarrow> string \<Rightarrow> string \<Rightarrow> string \<Rightarrow> string \<Rightarrow> gwServer \<Rightarrow> (goerr + string \<times> int) \<times> gwServer" where
  "certStore x ns domain certPEM keyPEM s =
     (case fst s of
        Some g \<Rightarrow>
          (let (res, st) = StoreManual (gx_world x) (gx_ccfg x) domain certPEM keyPEM \<lparr>st_m = g_certs g, st_db = snd s, st_dir = gx_dir x\<rparr>
           in (case res of Inl e \<Rightarrow> Inl e | Inr info \<Rightarrow> Inr (ci_Domain info, ci_NotAfter info), (Some (g\<lparr>g_certs := st_m st\<rparr>), st_db st)))
      | None \<Rightarrow>
          (let (res, d) = storeManualWithoutGateway x ns domain certPEM keyPEM (snd s)
           in (case res of Inl e \<Rightarrow> Inl e | Inr _ \<Rightarrow> Inr ('''', zeroTime), (None, d))))"

definition certWrite :: "gwApi \<Rightarrow> apiReq \<Rightarrow> apiReq \<Rightarrow> gwHandler" where
  "certWrite x rest r s =
     (let f = certField (gx_napi x) rest r
      in if f ''domain'' = '''' then (appError 400 400 ''domain is required'', s)
         else if f ''certPem'' = '''' \<or> f ''keyPem'' = '''' then (appError 400 400 ''certPem and keyPem are both required'', s)
         else case certStore x (defaultNamespace (f ''namespaceId'')) (f ''domain'') (f ''certPem'') (f ''keyPem'') s of
                (Inl e, s') \<Rightarrow> (appError 400 400 (errText e), s')
              | (Inr (domain, notAfter), s') \<Rightarrow>
                  (appOK (mapObj [(''domain'', JStr domain), (''source'', JStr ''manual''), (''notAfter'', JStr (gx_rfc3339 x notAfter)),
                     (''daysLeft'', jInt (DaysLeft (gx_now x) notAfter)),
                     (''note'', JStr ''manual certificates are never auto-renewed; upload a replacement before expiry'')]), s'))"

definition forgetCertificate :: "string \<Rightarrow> gateway option \<Rightarrow> bool \<times> gateway option" where
  "forgetCertificate domain gw =
     (case gw of
        None \<Rightarrow> (False, None)
      | Some g \<Rightarrow> (case InfoOf (g_certs g) domain of None \<Rightarrow> False | Some info \<Rightarrow> ci_Source info = ''file'' \<or> ci_FilePath info \<noteq> '''',
                   Some (g\<lparr>g_certs := ForgetCert domain (g_certs g)\<rparr>)))"

definition certDelete :: "gwApi \<Rightarrow> (string \<Rightarrow> string) \<Rightarrow> apiReq \<Rightarrow> gwHandler" where
  "certDelete x pv r =
     (let domain = NormalizeDomain (pv ''domain'')
      in gwThen (DeleteCertificate (nsParam r) domain) gwFail
           (\<lambda>_ s. let (fromFile, gw) = forgetCertificate domain (fst s);
                      note = (if fromFile
                              then ''database copy deleted, but '' @ domain @ '' is still served from '' @ cc_CertDir (gx_ccfg x) @ '' '' @
                                   [CHR 0xE2, CHR 0x80, CHR 0x94] @ '' remove the file there to complete the revocation''
                              else ''any serving domain will fall back to a self-signed certificate until issuance succeeds'')
                  in (appOK (mapObj [(''deleted'', JStr domain), (''note'', JStr note)]), (gw, snd s))))"

subsection \<open>Traffic policies\<close>

definition vhostJSON :: "smap option VHostPolicy \<Rightarrow> json" where
  "vhostJSON v =
     mapObj [(''namespaceId'', JStr (v_NamespaceId v)), (''domain'', JStr (NormalizeDomain (v_Domain v))), (''forceHttps'', JBool (v_ForceHTTPS v)),
       (''hstsMaxAge'', jInt (v_HSTSMaxAge v)), (''allowIps'', JStr (v_AllowIPs v)), (''denyIps'', JStr (v_DenyIPs v)),
       (''clientMaxBodyBytes'', jInt (v_ClientMaxBodyBytes v)), (''connectTimeoutMs'', jInt (v_ConnectTimeoutMS v)),
       (''readTimeoutMs'', jInt (v_ReadTimeoutMS v)), (''sendTimeoutMs'', jInt (v_SendTimeoutMS v)), (''websocket'', JBool (v_Websocket v)),
       (''metadata'', case v_Metadata v of None \<Rightarrow> JNull | Some m \<Rightarrow> smapJson m)]"

text \<open>The same policy with another kind of metadata; a nil map is stored like an empty one.\<close>

definition withMeta :: "'n \<Rightarrow> 'm VHostPolicy \<Rightarrow> 'n VHostPolicy" where
  "withMeta m v = \<lparr>v_NamespaceId = v_NamespaceId v, v_Domain = v_Domain v, v_ForceHTTPS = v_ForceHTTPS v, v_HSTSMaxAge = v_HSTSMaxAge v,
     v_AllowIPs = v_AllowIPs v, v_DenyIPs = v_DenyIPs v, v_ClientMaxBodyBytes = v_ClientMaxBodyBytes v, v_ConnectTimeoutMS = v_ConnectTimeoutMS v,
     v_ReadTimeoutMS = v_ReadTimeoutMS v, v_SendTimeoutMS = v_SendTimeoutMS v, v_Websocket = v_Websocket v, v_Metadata = m\<rparr>"

definition vhostList :: "apiReq \<Rightarrow> gwHandler" where
  "vhostList r = gwThen (ListVHosts (nsParam r)) gwFail (\<lambda>rows. gwReply (appOK (JArr (map (\<lambda>v. vhostJSON (withMeta (Some (v_Metadata v)) v)) rows))))"

record vhostBody =
  vb_NamespaceId :: string
  vb_Domain :: string
  vb_ForceHTTPS :: "bool option"
  vb_HSTSMaxAge :: int
  vb_AllowIPs :: "string option"
  vb_DenyIPs :: "string option"
  vb_ClientMaxBodyBytes :: int
  vb_ConnectTimeoutMS :: int
  vb_ReadTimeoutMS :: int
  vb_SendTimeoutMS :: int
  vb_Websocket :: "bool option"
  vb_Metadata :: "smap option"

definition atoiDefault :: "string \<Rightarrow> int \<Rightarrow> int" where
  "atoiDefault s def = (if s = '''' then def else case atoi (trimSpace s) of None \<Rightarrow> def | Some n \<Rightarrow> n)"

text \<open>\<^verbatim>\<open>strconv.ParseBool\<close>.\<close>

definition strconvParseBool :: "string \<Rightarrow> bool option" where
  "strconvParseBool s =
     (if s \<in> set [''1'', ''t'', ''T'', ''TRUE'', ''true'', ''True''] then Some True
      else if s \<in> set [''0'', ''f'', ''F'', ''FALSE'', ''false'', ''False''] then Some False else None)"

definition parseBoolPtr :: "string \<Rightarrow> bool option" where
  "parseBoolPtr s = (if s = '''' then None else strconvParseBool (trimSpace s))"

text \<open>Whether the map \<^verbatim>\<open>formOrJSON\<close> builds has a key.\<close>

definition formHas :: "apiReq \<Rightarrow> string \<Rightarrow> bool" where
  "formHas r k \<longleftrightarrow> qhas (arForm r) k \<or>
     (case (if hasPrefix (ar_ContentType r) ''application/json'' then jsonDecode (ar_Body r) else None) of Some (JObj kvs) \<Rightarrow> k \<in> fst ` set kvs | _ \<Rightarrow> False)"

definition vhostSchema :: "(string \<times> ftype) list" where
  "vhostSchema = [(''namespaceId'', FStr), (''domain'', FStr), (''forceHttps'', FBoolPtr), (''hstsMaxAge'', FInt), (''allowIps'', FStrPtr), (''denyIps'', FStrPtr),
     (''clientMaxBodyBytes'', FInt), (''connectTimeoutMs'', FInt), (''readTimeoutMs'', FInt), (''sendTimeoutMs'', FInt), (''websocket'', FBoolPtr), (''metadata'', FMap)]"

definition vhostFromJSON :: "members \<Rightarrow> vhostBody" where
  "vhostFromJSON kvs = \<lparr>vb_NamespaceId = fieldStr kvs ''namespaceId'', vb_Domain = fieldStr kvs ''domain'', vb_ForceHTTPS = fieldBoolPtr kvs ''forceHttps'',
     vb_HSTSMaxAge = fieldInt kvs ''hstsMaxAge'', vb_AllowIPs = fieldStrPtr kvs ''allowIps'', vb_DenyIPs = fieldStrPtr kvs ''denyIps'',
     vb_ClientMaxBodyBytes = fieldInt kvs ''clientMaxBodyBytes'', vb_ConnectTimeoutMS = fieldInt kvs ''connectTimeoutMs'',
     vb_ReadTimeoutMS = fieldInt kvs ''readTimeoutMs'', vb_SendTimeoutMS = fieldInt kvs ''sendTimeoutMs'', vb_Websocket = fieldBoolPtr kvs ''websocket'',
     vb_Metadata = fieldMap kvs ''metadata''\<rparr>"

definition vhostFromForm :: "(string \<Rightarrow> string) \<Rightarrow> apiReq \<Rightarrow> vhostBody \<Rightarrow> vhostBody" where
  "vhostFromForm ft rest b =
     (let f = formOrJSON ft rest
      in b\<lparr>vb_NamespaceId := f ''namespaceId'', vb_Domain := f ''domain'', vb_HSTSMaxAge := atoiDefault (f ''hstsMaxAge'') 0,
           vb_AllowIPs := (if formHas rest ''allowIps'' then Some (f ''allowIps'') else vb_AllowIPs b),
           vb_DenyIPs := (if formHas rest ''denyIps'' then Some (f ''denyIps'') else vb_DenyIPs b),
           vb_ClientMaxBodyBytes := atoiDefault (f ''clientMaxBodyBytes'') 0, vb_ConnectTimeoutMS := atoiDefault (f ''connectTimeoutMs'') 0,
           vb_ReadTimeoutMS := atoiDefault (f ''readTimeoutMs'') 0, vb_SendTimeoutMS := atoiDefault (f ''sendTimeoutMs'') 0,
           vb_ForceHTTPS := (case parseBoolPtr (f ''forceHttps'') of Some v \<Rightarrow> Some v | None \<Rightarrow> vb_ForceHTTPS b),
           vb_Websocket := (case parseBoolPtr (f ''websocket'') of Some v \<Rightarrow> Some v | None \<Rightarrow> vb_Websocket b)\<rparr>)"

definition vhostBodyOf :: "napi \<Rightarrow> (string \<Rightarrow> string) \<Rightarrow> apiReq \<Rightarrow> apiReq \<Rightarrow> vhostBody" where
  "vhostBodyOf a pv rest r =
     (let (fine, kvs) = decodeStruct a vhostSchema r;
          b = (if fine then vhostFromJSON kvs else vhostFromForm (na_ft a) rest (vhostFromJSON kvs));
          fromPath = NormalizeDomain (pv ''domain'')
      in if fromPath \<noteq> '''' then b\<lparr>vb_Domain := fromPath\<rparr> else b)"

text \<open>The base of the new policy: the stored one or the defaults of the gateway.\<close>

definition vhostBase :: "Config \<Rightarrow> string \<Rightarrow> vhostBody \<Rightarrow> smap VHostPolicy option \<Rightarrow> smap option VHostPolicy" where
  "vhostBase cfg ns b cur =
     (let p = \<lparr>v_NamespaceId = ns, v_Domain = NormalizeDomain (vb_Domain b), v_ForceHTTPS = cfg_GatewayForceHTTPS cfg, v_HSTSMaxAge = 0, v_AllowIPs = '''',
               v_DenyIPs = '''', v_ClientMaxBodyBytes = cfg_GatewayClientMaxBodyBytes cfg, v_ConnectTimeoutMS = cfg_GatewayConnectTimeoutMS cfg,
               v_ReadTimeoutMS = cfg_GatewayReadTimeoutMS cfg, v_SendTimeoutMS = cfg_GatewaySendTimeoutMS cfg, v_Websocket = cfg_GatewayWebsocket cfg,
               v_Metadata = vb_Metadata b\<rparr>
      in case cur of
           None \<Rightarrow> p
         | Some c \<Rightarrow> p\<lparr>v_ForceHTTPS := v_ForceHTTPS c, v_HSTSMaxAge := v_HSTSMaxAge c, v_AllowIPs := v_AllowIPs c, v_DenyIPs := v_DenyIPs c,
              v_ClientMaxBodyBytes := v_ClientMaxBodyBytes c, v_ConnectTimeoutMS := v_ConnectTimeoutMS c, v_ReadTimeoutMS := v_ReadTimeoutMS c,
              v_SendTimeoutMS := v_SendTimeoutMS c, v_Websocket := v_Websocket c,
              v_Metadata := (case vb_Metadata b of None \<Rightarrow> Some (v_Metadata c) | Some m \<Rightarrow> Some m)\<rparr>)"

definition given :: "'a option \<Rightarrow> 'a \<Rightarrow> 'a" where
  "given x old = (case x of None \<Rightarrow> old | Some v \<Rightarrow> v)"

definition positive :: "int \<Rightarrow> int \<Rightarrow> int" where
  "positive n old = (if n > 0 then n else old)"

definition vhostPatch :: "vhostBody \<Rightarrow> smap option VHostPolicy \<Rightarrow> smap option VHostPolicy" where
  "vhostPatch b p =
     p\<lparr>v_ForceHTTPS := given (vb_ForceHTTPS b) (v_ForceHTTPS p), v_Websocket := given (vb_Websocket b) (v_Websocket p),
       v_HSTSMaxAge := positive (vb_HSTSMaxAge b) (v_HSTSMaxAge p), v_AllowIPs := given (vb_AllowIPs b) (v_AllowIPs p),
       v_DenyIPs := given (vb_DenyIPs b) (v_DenyIPs p), v_ClientMaxBodyBytes := positive (vb_ClientMaxBodyBytes b) (v_ClientMaxBodyBytes p),
       v_ConnectTimeoutMS := positive (vb_ConnectTimeoutMS b) (v_ConnectTimeoutMS p), v_ReadTimeoutMS := positive (vb_ReadTimeoutMS b) (v_ReadTimeoutMS p),
       v_SendTimeoutMS := positive (vb_SendTimeoutMS b) (v_SendTimeoutMS p)\<rparr>"

definition vhostWrite :: "gwApi \<Rightarrow> (string \<Rightarrow> string) \<Rightarrow> apiReq \<Rightarrow> apiReq \<Rightarrow> gwHandler" where
  "vhostWrite x pv rest r =
     (let b = vhostBodyOf (gx_napi x) pv rest r
      in if vb_Domain b = '''' then gwReply (appError 400 400 ''domain is required in the path or the body'')
         else let ns = defaultNamespace (vb_NamespaceId b)
              in gwThen (GetVHost ns (vb_Domain b)) gwFail
                   (\<lambda>cur. let policy = vhostPatch b (vhostBase (gx_cfg x) ns b cur)
                      in gwThen (UpsertVHost (withMeta (given (v_Metadata policy) []) policy)) gwFail
                           (\<lambda>created s. (appOK (mapObj [(''created'', JBool created), (''policy'', vhostJSON policy)]), refreshNow x s))))"

definition vhostDelete :: "gwApi \<Rightarrow> (string \<Rightarrow> string) \<Rightarrow> apiReq \<Rightarrow> gwHandler" where
  "vhostDelete x pv r =
     (let domain = NormalizeDomain (pv ''domain'')
      in gwThen (DeleteVHost (nsParam r) domain) gwFail
           (\<lambda>_ s. (appOK (mapObj [(''deleted'', JStr domain), (''note'', JStr ''the domain now inherits the gateway-wide defaults'')]), refreshNow x s)))"

subsection \<open>Status of a domain\<close>

definition sortedAddresses :: "Instance list \<Rightarrow> json" where
  "sortedAddresses is = JArr (map (\<lambda>i. JStr (i_IP i @ '':'' @ strconvItoa (uint (i_Port i)))) is)"

definition portText :: "32 word \<Rightarrow> string" where
  "portText p = strconvItoa (uint p)"

definition portList :: "32 word list \<Rightarrow> json" where
  "portList ports = JArr (map (JStr \<circ> portText) ports)"

text \<open>\<^verbatim>\<open>PortConflict.Reason\<close>.\<close>

definition Reason :: "(string \<Rightarrow> string) \<Rightarrow> PortConflict \<Rightarrow> string" where
  "Reason qt c =
     (let ports = joinWith '', '' (map portText (pc_Ports c))
      in if pc_Declared c \<noteq> 0
         then ''service '' @ qt (pc_ServiceName c) @ '' has healthy instances on ports '' @ ports @ '', but the component declares '' @
              portText (pc_Declared c) @ ''; only the instances on '' @ portText (pc_Chosen c) @ '' are eligible and the other '' @
              strconvItoa (pc_Excluded c) @ '' are excluded. Give each service its own name, or correct the component's '' @ ServicePortMetaKey @ '' metadata''
         else ''service '' @ qt (pc_ServiceName c) @ '' has healthy instances on more than one port ('' @ ports @
              ''), so the pool is not homogeneous: every instance is eligible and each is dialled at its own port. '' @
              ''Give each service its own name, or declare the component's '' @ ServicePortMetaKey @ '' metadata to pin it'')"

definition jput :: "string \<Rightarrow> json \<Rightarrow> members \<Rightarrow> members" where
  "jput k v kvs = filter (\<lambda>(x, _). x \<noteq> k) kvs @ [(k, v)]"

definition targetJSON :: "napi \<Rightarrow> Target \<Rightarrow> json" where
  "targetJSON a t =
     mapObj ([(''app'', JStr (tg_AppName t)), (''component'', JStr (tg_ComponentName t)), (''kind'', JStr (tg_Kind t)), (''protocol'', JStr (tg_Protocol t)),
        (''service'', JStr (tg_ServiceName t)), (''group'', JStr (tg_GroupName t)), (''lb'', JStr (tg_LBAlgorithm t)),
        (''instances'', sortedAddresses (tg_Instances t)), (''healthy'', jInt (int (length (tg_Instances t)))),
        (''healthyIsFrom'', JStr ''registry (registrar heartbeat), not a data-plane probe'')] @
       (case tg_PortConflict t of
          None \<Rightarrow> []
        | Some c \<Rightarrow> [(''portConflict'', mapObj [(''ports'', portList (pc_Ports c)), (''declared'', JNum (portText (pc_Declared c))),
             (''chosen'', JNum (portText (pc_Chosen c))), (''excluded'', jInt (pc_Excluded c)), (''reason'', JStr (Reason (na_quote a) c))])]))"

definition tlsEntry :: "gwApi \<Rightarrow> CertInfo option \<Rightarrow> members" where
  "tlsEntry x found =
     (case found of
        None \<Rightarrow> [(''tls'', JStr ''none''), (''tlsWarning'', JStr ''no certificate yet; issuance pending or not eligible'')]
      | Some info \<Rightarrow>
          [(''tls'', JStr (ci_Source info)), (''tlsIssuer'', JStr (ci_Issuer info)), (''tlsExpiry'', JStr (gx_rfc3339 x (ci_NotAfter info))),
           (''tlsDaysLeft'', jInt (DaysLeft (gx_now x) (ci_NotAfter info)))] @
          (if ci_FilePath info \<noteq> ''''
           then [(''tlsPath'', JStr (ci_FilePath info)), (''tlsNote'', JStr ''managed outside goacos; it is never auto-renewed here'')] else []) @
          (if ci_Source info = ''self_signed''
           then [(''tlsWarning'', JStr ''running on a self-signed certificate; browsers will not trust this domain'')] else []) @
          (if Expired (gx_now x) info then [(''tlsWarning'', JStr ''certificate has expired'')] else []))"

text \<open>The entry is one Go map: a later assignment to a key replaces an earlier one, whatever the path prefixes are called.\<close>

definition domainEntry :: "gwApi \<Rightarrow> gateway \<Rightarrow> string \<Rightarrow> json" where
  "domainEntry x g domain =
     mapObj (fold (\<lambda>(k, v). jput k v)
       ((''domain'', JStr domain) # map (\<lambda>t. (tg_PathPrefix t, targetJSON (gx_napi x) t)) (allTargets (g_table g) domain) @
        tlsEntry x (InfoOf (g_certs g) domain)) [])"

subsection \<open>A policy write is a patch, in force at once\<close>

lemma GetVHost_quiet:
  assumes "script d = []" "uniqueBy vhostKey (gateway_vhost (tabs d))"
  shows "GetVHost ns dm d = (Inr (map_option scanVHost (lookupBy vhostKey (gateway_vhost (tabs d)) (ns, dm))), d)"
  using assms by (simp add: GetVHost_def go_simps vhosts.filter_key split: option.split)

lemma vhostKey_row [simp]: "vhostKey (vhostRow v) = vhostKey v"
  by (simp add: vhostKey_def vhostRow_def)

lemma setVHost_row: "vhostKey r = vhostKey v \<Longrightarrow> setVHost (vhostRow v) r = vhostRow v"
  by (cases r) (simp add: setVHost_def vhostRow_def vhostKey_def)

lemma UpsertVHost_quiet:
  assumes "script d = []" "uniqueBy vhostKey (gateway_vhost (tabs d))"
  shows "\<exists>vs' created. UpsertVHost v d = (Inr created, d\<lparr>tabs := (tabs d)\<lparr>gateway_vhost := vs'\<rparr>\<rparr>) \<and> uniqueBy vhostKey vs' \<and>
    lookupBy vhostKey vs' = (lookupBy vhostKey (gateway_vhost (tabs d)))(vhostKey v \<mapsto> vhostRow v)"
proof -
  let ?vs = "gateway_vhost (tabs d)"
  have k: "vhostKey v = (v_NamespaceId v, v_Domain v)" by (simp add: vhostKey_def)
  show ?thesis
  proof (cases "lookupBy vhostKey ?vs (vhostKey v)")
    case None
    then have n: "vhostKey v \<notin> vhostKey ` set ?vs" by (simp add: vhosts.lookup_None)
    have "UpsertVHost v d = (Inr True, d\<lparr>tabs := (tabs d)\<lparr>gateway_vhost := ?vs @ [vhostRow v]\<rparr>\<rparr>)"
      using assms(1) None n by (simp add: UpsertVHost_def GetVHost_quiet [OF assms] k [symmetric] go_simps insertUnique_def)
    moreover have "uniqueBy vhostKey (?vs @ [vhostRow v])" using assms(2) n by (simp add: uniqueBy_def)
    ultimately show ?thesis using vhosts.lookup_snoc [of "vhostRow v" ?vs] n by auto
  next
    case (Some r)
    then have r: "vhostKey r = vhostKey v" using vhosts.lookup_Some by blast
    let ?vs' = "updateWhere (\<lambda>r. vhostKey r = vhostKey v) (setVHost (vhostRow v)) ?vs"
    have "UpsertVHost v d = (Inr False, d\<lparr>tabs := (tabs d)\<lparr>gateway_vhost := ?vs'\<rparr>\<rparr>)"
      using assms(1) Some by (simp add: UpsertVHost_def GetVHost_quiet [OF assms] k [symmetric] go_simps)
    moreover have "lookupBy vhostKey ?vs' = (lookupBy vhostKey ?vs)(vhostKey v \<mapsto> vhostRow v)"
    proof
      fix k'
      show "lookupBy vhostKey ?vs' k' = ((lookupBy vhostKey ?vs)(vhostKey v \<mapsto> vhostRow v)) k'"
        using Some setVHost_row [OF r] vhosts.lookup_Some [of ?vs k']
        by (cases "lookupBy vhostKey ?vs k'") (auto simp: vhosts.lookup_update)
    qed
    ultimately show ?thesis using vhosts.unique_update [OF assms(2)] by blast
  qed
qed

text \<open>What a domain without a row inherits.\<close>

definition inheritedPolicy :: "Config \<Rightarrow> smap VHostPolicy" where
  "inheritedPolicy cfg = \<lparr>v_NamespaceId = '''', v_Domain = '''', v_ForceHTTPS = cfg_GatewayForceHTTPS cfg, v_HSTSMaxAge = 0, v_AllowIPs = '''', v_DenyIPs = '''',
     v_ClientMaxBodyBytes = cfg_GatewayClientMaxBodyBytes cfg, v_ConnectTimeoutMS = cfg_GatewayConnectTimeoutMS cfg, v_ReadTimeoutMS = cfg_GatewayReadTimeoutMS cfg,
     v_SendTimeoutMS = cfg_GatewaySendTimeoutMS cfg, v_Websocket = cfg_GatewayWebsocket cfg, v_Metadata = []\<rparr>"

definition effectivePolicy :: "Config \<Rightarrow> tables \<Rightarrow> string \<times> string \<Rightarrow> smap VHostPolicy" where
  "effectivePolicy cfg t k = (case lookupBy vhostKey (gateway_vhost t) k of None \<Rightarrow> inheritedPolicy cfg | Some row \<Rightarrow> scanVHost row)"

text \<open>\<open>patchedBy\<close>: every setting is the one given, or the old one when the request leaves it out.\<close>

definition patchedBy :: "vhostBody \<Rightarrow> smap VHostPolicy \<Rightarrow> smap VHostPolicy \<Rightarrow> bool" where
  "patchedBy b old v \<longleftrightarrow>
     v_ForceHTTPS v = given (vb_ForceHTTPS b) (v_ForceHTTPS old) \<and> v_Websocket v = given (vb_Websocket b) (v_Websocket old) \<and>
     v_AllowIPs v = given (vb_AllowIPs b) (v_AllowIPs old) \<and> v_DenyIPs v = given (vb_DenyIPs b) (v_DenyIPs old) \<and>
     v_HSTSMaxAge v = positive (vb_HSTSMaxAge b) (v_HSTSMaxAge old) \<and>
     v_ClientMaxBodyBytes v = positive (vb_ClientMaxBodyBytes b) (v_ClientMaxBodyBytes old) \<and>
     v_ConnectTimeoutMS v = positive (vb_ConnectTimeoutMS b) (v_ConnectTimeoutMS old) \<and>
     v_ReadTimeoutMS v = positive (vb_ReadTimeoutMS b) (v_ReadTimeoutMS old) \<and> v_SendTimeoutMS v = positive (vb_SendTimeoutMS b) (v_SendTimeoutMS old) \<and>
     map_of (v_Metadata v) = map_of (given (vb_Metadata b) (v_Metadata old))"

lemma policy_patched:
  assumes "p = vhostPatch b (vhostBase cfg ns b (map_option scanVHost (lookupBy vhostKey (gateway_vhost t) k)))"
  shows "patchedBy b (effectivePolicy cfg t k) (withMeta (given (v_Metadata p) []) p)"
    "v_NamespaceId p = ns" "v_Domain p = NormalizeDomain (vb_Domain b)"
  by (cases "lookupBy vhostKey (gateway_vhost t) k"; cases "vb_Metadata b";
      simp add: assms patchedBy_def effectivePolicy_def inheritedPolicy_def vhostPatch_def vhostBase_def withMeta_def given_def)+

lemma patched_row: "patchedBy b old v \<Longrightarrow> metaUtf8 (v_Metadata v) \<Longrightarrow> patchedBy b old (scanVHost (vhostRow v))"
  by (simp add: patchedBy_def scanVHost_def vhostRow_def map_of_decode_encode)

lemma lookup_canonical:
  assumes "lookupBy vhostKey vs' = (lookupBy vhostKey vs)(vhostKey v \<mapsto> vhostRow v)" "uniqueBy vhostKey vs'"
    and "\<And>v. v \<in> set vs \<Longrightarrow> P (v_Domain v)" "P (v_Domain v)" "x \<in> set vs'"
  shows "P (v_Domain x)"
proof -
  have "lookupBy vhostKey vs' (vhostKey x) = Some x" using vhosts.lookup_in [OF assms(2,5)] .
  then have "x = vhostRow v \<or> lookupBy vhostKey vs (vhostKey x) = Some x" using assms(1) by (auto split: if_splits)
  then show ?thesis using vhosts.lookup_Some [of vs "vhostKey x" x] assms(3,4) by (auto simp: vhostRow_def)
qed

lemma refreshNow_quiet:
  assumes "script d = []" "uniqueBy vhostKey (gateway_vhost (tabs d))" "lookupBy vhostKey (gateway_vhost (tabs d)) (cc_ns (gx_ccfg x), dm) = Some v"
    and "\<And>v. v \<in> set (gateway_vhost (tabs d)) \<Longrightarrow> NormalizeDomain (v_Domain v) = v_Domain v"
  shows "\<exists>g'. refreshNow x (Some g, d) = (Some g', d) \<and> tb_vhosts (g_table g') dm = Some (scanVHost v)"
  using Refresh_policy [OF assms, of "Some (na_HeartbeatTimeoutMs (gx_napi x))" "gx_nowMS x" "gx_order x" "g_table g"]
  by (auto simp: refreshNow_def refresh_def Let_def)


definition demoGwApi :: gwApi where
  "demoGwApi = \<lparr>gx_napi = demoNapi, gx_cfg = sampleConfig, gx_ccfg = demoCfg\<lparr>cc_ns := ''public''\<rparr>, gx_world = demoWorld, gx_order = (\<lambda>xs. xs), gx_now = 0, gx_nowMS = 0,
     gx_rfc3339 = (\<lambda>_. ''''), gx_dir = Map.empty\<rparr>"

definition demoVHost :: apiReq where
  "demoVHost = queryRequest ''/goacos/v1/vhosts/A.com'' [(''denyIps'', ''10.0.0.0/8''), (''websocket'', ''false'')]"

lemma demo_vhostBody:
  "vhostBodyOf demoNapi (\<lambda>_. ''A.com'') demoVHost demoVHost = \<lparr>vb_NamespaceId = '''', vb_Domain = ''a.com'', vb_ForceHTTPS = None, vb_HSTSMaxAge = 0,
     vb_AllowIPs = None, vb_DenyIPs = Some ''10.0.0.0/8'', vb_ClientMaxBodyBytes = 0, vb_ConnectTimeoutMS = 0, vb_ReadTimeoutMS = 0, vb_SendTimeoutMS = 0,
     vb_Websocket = Some False, vb_Metadata = None\<rparr>"
proof -
  have "NormalizeDomain ''A.com'' = ''a.com''" "trimSpace ''false'' = ''false''" by code_simp+
  then show ?thesis
    by (simp add: vhostBodyOf_def decodeStruct_def demoVHost_def queryRequest_def decode_empty vhostFromForm_def vhostFromJSON_def formOrJSON_def formHas_def qhas_def
        arForm_def qget_def hasPrefix_def fieldBoolPtr_def fieldStrPtr_def fieldMap_def memberVals_def atoiDefault_def parseBoolPtr_def strconvParseBool_def)
qed


subsection \<open>Where the endpoints surprise\<close>

text \<open>The current policy is looked up under the domain as the body spells it but stored under the canonical one: with another spelling
  every setting that the request leaves out falls back to the default, although the domain has a row.\<close>

lemma miscased_domain_resets:
  assumes "script d = []" "uniqueBy vhostKey (gateway_vhost (tabs d))" "b = vhostBodyOf (gx_napi x) pv rest r" "vb_Domain b \<noteq> ''''"
    and "ns = defaultNamespace (vb_NamespaceId b)" "lookupBy vhostKey (gateway_vhost (tabs d)) (ns, vb_Domain b) = None" "vb_Metadata b = None"
  shows "\<exists>d' row. snd (vhostWrite x pv rest r (None, d)) = (None, d') \<and>
    lookupBy vhostKey (gateway_vhost (tabs d')) (ns, NormalizeDomain (vb_Domain b)) = Some row \<and> patchedBy b (inheritedPolicy (gx_cfg x)) (scanVHost row)"
proof -
  define p where "p = vhostPatch b (vhostBase (gx_cfg x) ns b (map_option scanVHost (lookupBy vhostKey (gateway_vhost (tabs d)) (ns, vb_Domain b))))"
  define v where "v = withMeta (given (v_Metadata p) []) p"
  note pp = policy_patched [OF p_def]
  have "effectivePolicy (gx_cfg x) (tabs d) (ns, vb_Domain b) = inheritedPolicy (gx_cfg x)" using assms(6) by (simp add: effectivePolicy_def)
  moreover have m: "v_Metadata v = []" using assms(6,7) by (simp add: v_def p_def withMeta_def given_def vhostPatch_def vhostBase_def)
  ultimately have r: "patchedBy b (inheritedPolicy (gx_cfg x)) (scanVHost (vhostRow v))"
    using patched_row [of b _ v] pp(1) by (simp add: v_def metaUtf8_def)
  have kv: "vhostKey v = (ns, NormalizeDomain (vb_Domain b))" using pp(2,3) by (simp add: v_def vhostKey_def withMeta_def)
  obtain vs' created where up: "UpsertVHost v d = (Inr created, d\<lparr>tabs := (tabs d)\<lparr>gateway_vhost := vs'\<rparr>\<rparr>)"
    and l: "lookupBy vhostKey vs' = (lookupBy vhostKey (gateway_vhost (tabs d)))(vhostKey v \<mapsto> vhostRow v)"
    using UpsertVHost_quiet [OF assms(1,2), of v] by auto
  have "snd (vhostWrite x pv rest r (None, d)) = (None, d\<lparr>tabs := (tabs d)\<lparr>gateway_vhost := vs'\<rparr>\<rparr>)"
    using up assms(4) GetVHost_quiet [OF assms(1,2), of ns "vb_Domain b"]
    by (simp add: vhostWrite_def Let_def gwThen_def assms(3,5) [symmetric] p_def [symmetric] v_def [symmetric] refreshNow_def)
  with l r kv show ?thesis by auto
qed

text \<open>Without a running gateway an upload is not validated at all, and the answer names neither its domain nor its expiry.\<close>

lemma staged_upload_unchecked:
  assumes "certField (gx_napi x) rest r ''domain'' \<noteq> ''''" "certField (gx_napi x) rest r ''certPem'' \<noteq> ''''" "certField (gx_napi x) rest r ''keyPem'' \<noteq> ''''"
    and ok: "certStoreOK d"
  shows "\<exists>s'. certWrite x rest r (None, d) = (appOK (mapObj [(''domain'', JStr ''''), (''source'', JStr ''manual''), (''notAfter'', JStr (gx_rfc3339 x zeroTime)),
     (''daysLeft'', jInt (DaysLeft (gx_now x) zeroTime)), (''note'', JStr ''manual certificates are never auto-renewed; upload a replacement before expiry'')]), s')"
proof -
  have up: "\<exists>res d'. UpsertCertificate now ty c d = (Inr res, d')" for now ty c
  proof -
    have k: "(cert_NamespaceId (certDefaults now ty c), cert_Domain (certDefaults now ty c)) = certKey c" by (metis certKey_def key_certDefaults)
    show ?thesis
      using ok by (auto simp: UpsertCertificate_def Let_def bindS_def GetCertificate_quiet [OF ok] k retS_def exec_quiet certStoreOK_def quiet_def insertUnique_def
          certLook_def certs.lookup_None)
  qed
  let ?f = "certField (gx_napi x) rest r"
  obtain res d' where "storeManualWithoutGateway x (defaultNamespace (?f ''namespaceId'')) (?f ''domain'') (?f ''certPem'') (?f ''keyPem'') d = (Inr res, d')"
    using up unfolding storeManualWithoutGateway_def by blast
  then show ?thesis using assms(1-3) by (simp add: certWrite_def certStore_def Let_def)
qed

end
