(* ===== verification/Wire.thy ===== *)
theory Wire
  imports AppApi
begin

text \<open>
  The two texts that travel between a client and the server: queries and forms as \<^verbatim>\<open>net/url\<close> writes and reads them, and JSON
  documents as \<^verbatim>\<open>encoding/json\<close> writes them and reads them back.  For both, reading what was written gives back the value;
  the client of \<^verbatim>\<open>sdk/registry\<close> and the handlers of \<^verbatim>\<open>internal/api\<close> meet only through these lemmas.
\<close>

subsection \<open>Queries\<close>

definition hexUpper :: "nat \<Rightarrow> char" where
  "hexUpper n = (if n < 10 then char_of (48 + n) else char_of (55 + n))"

definition plainChar :: "char \<Rightarrow> bool" where
  "plainChar c \<longleftrightarrow> isDigit c \<or> lowerChar c \<noteq> c \<or> upperChar c \<noteq> c \<or> c \<in> {CHR ''-'', CHR ''_'', CHR ''.'', CHR ''~''}"

definition queryEscapeChar :: "char \<Rightarrow> string" where
  "queryEscapeChar c =
     (if plainChar c then [c] else if c = CHR '' '' then ''+'' else [CHR ''%'', hexUpper (byte c div 16), hexUpper (byte c mod 16)])"

definition queryEscape :: "string \<Rightarrow> string" where
  "queryEscape s = concat (map queryEscapeChar s)"

fun queryUnescape :: "string \<Rightarrow> string option" where
  "queryUnescape [] = Some []"
| "queryUnescape (c # cs) =
     (if c = CHR ''%'' then
        (case cs of
           a # b # r \<Rightarrow> (case (hexVal a, hexVal b) of
              (Some x, Some y) \<Rightarrow> map_option (\<lambda>t. char_of (x * 16 + y) # t) (queryUnescape r)
            | _ \<Rightarrow> None)
         | _ \<Rightarrow> None)
      else map_option (\<lambda>t. (if c = CHR ''+'' then CHR '' '' else c) # t) (queryUnescape cs))"

text \<open>\<^verbatim>\<open>url.Values.Encode\<close> on values that were set once, and \<^verbatim>\<open>url.ParseQuery\<close>, which skips what it cannot read.\<close>

definition queryPair :: "string \<times> string \<Rightarrow> string" where
  "queryPair kv = queryEscape (fst kv) @ CHR ''='' # queryEscape (snd kv)"

definition valuesEncode :: "(string \<times> string) list \<Rightarrow> string" where
  "valuesEncode q = joinWith ''&'' (map queryPair (sort_key fst q))"

definition parsePair :: "string \<Rightarrow> (string \<times> string) list" where
  "parsePair s =
     (if s = '''' \<or> CHR '';'' \<in> set s then []
      else let (k, v, _) = cutAt CHR ''='' s
           in case (queryUnescape k, queryUnescape v) of (Some a, Some b) \<Rightarrow> [(a, b)] | _ \<Rightarrow> [])"

definition parseQuery :: "string \<Rightarrow> (string \<times> string) list" where
  "parseQuery s = concat (map parsePair (splitOn CHR ''&'' s))"

lemma hexVal_hexUpper: "n < 16 \<Longrightarrow> hexVal (hexUpper n) = Some n"
  by (auto simp: hexVal_def hexUpper_def byte_def Let_def)

lemma plainChar_not: "\<not> plainChar (CHR ''%'')" "\<not> plainChar (CHR ''+'')" "\<not> plainChar (CHR ''='')" "\<not> plainChar (CHR ''&'')" "\<not> plainChar (CHR '';'')"
  by (simp_all add: plainChar_def isDigit_def lowerChar_def upperChar_def byte_def)

lemma unescape_char: "queryUnescape (queryEscapeChar c @ s) = map_option (\<lambda>t. c # t) (queryUnescape s)"
proof -
  consider "plainChar c" | "\<not> plainChar c" "c = CHR '' ''" | "\<not> plainChar c" "c \<noteq> CHR '' ''" by blast
  then show ?thesis
  proof cases
    case 1
    then have "c \<noteq> CHR ''%''" "c \<noteq> CHR ''+''" using plainChar_not by auto
    with 1 show ?thesis by (simp add: queryEscapeChar_def)
  next
    case 3
    have "hexVal (hexUpper (byte c div 16)) = Some (byte c div 16)" "hexVal (hexUpper (byte c mod 16)) = Some (byte c mod 16)"
      using byte_less [of c] by (simp_all add: hexVal_hexUpper)
    moreover have "byte c div 16 * 16 + byte c mod 16 = byte c" by simp
    ultimately show ?thesis using 3 by (simp add: queryEscapeChar_def del: mult.commute)
  qed (simp add: queryEscapeChar_def)
qed

lemma unescape_escape: "queryUnescape (queryEscape s) = Some s"
  by (induction s) (simp_all add: queryEscape_def unescape_char)

lemma hexUpper_plain: "n < 16 \<Longrightarrow> plainChar (hexUpper n)"
  by (auto simp: plainChar_def hexUpper_def isDigit_def lowerChar_def byte_def)

lemma escape_chars: "c \<in> set (queryEscape s) \<Longrightarrow> plainChar c \<or> c = CHR ''%'' \<or> c = CHR ''+''"
proof -
  have "x \<in> set (queryEscapeChar d) \<Longrightarrow> plainChar x \<or> x = CHR ''%'' \<or> x = CHR ''+''" for x d
    using hexUpper_plain [of "byte d div 16"] hexUpper_plain [of "byte d mod 16"] byte_less [of d]
    by (auto simp: queryEscapeChar_def less_mult_imp_div_less split: if_splits)
  then show "c \<in> set (queryEscape s) \<Longrightarrow> ?thesis" by (auto simp: queryEscape_def)
qed

lemma escape_clean: "CHR ''='' \<notin> set (queryEscape s)" "CHR ''&'' \<notin> set (queryEscape s)" "CHR '';'' \<notin> set (queryEscape s)"
  using escape_chars [of _ s] plainChar_not by auto

lemma cutAt_clean: "c \<notin> set s \<Longrightarrow> cutAt c (s @ c # t) = (s, t, True)"
  by (induction s) auto

lemma parsePair_pair: "parsePair (queryPair kv) = [kv]"
  by (simp add: parsePair_def queryPair_def escape_clean cutAt_clean unescape_escape)

lemma parse_joined: "parseQuery (joinWith ''&'' (map queryPair kvs)) = kvs"
proof (cases kvs)
  case Nil
  then show ?thesis by (simp add: parseQuery_def parsePair_def)
next
  case (Cons kv kvs')
  have "splitOn CHR ''&'' (joinWith [CHR ''&''] (map queryPair kvs)) = map queryPair kvs"
    using Cons by (intro split_join) (auto simp: queryPair_def escape_clean)
  then show ?thesis by (simp add: parseQuery_def comp_def parsePair_pair)
qed

text \<open>What the server reads from the query the client wrote: the same pairs, by ascending key.\<close>

lemma parse_valuesEncode: "parseQuery (valuesEncode q) = sort_key fst q"
  by (simp add: valuesEncode_def parse_joined)

lemma map_of_sort_key: "distinct (map fst q) \<Longrightarrow> map_of (sort_key fst q) = map_of q"
  by (rule map_of_eqI) (auto simp: distinct_map image_iff)

lemma qget_valuesEncode: "distinct (map fst q) \<Longrightarrow> qget (parseQuery (valuesEncode q)) k = qget q k"
  by (simp add: qget_def parse_valuesEncode map_of_sort_key)

subsection \<open>JSON documents\<close>

text \<open>A value Go can write: numbers in the grammar of JSON, strings in UTF-8.\<close>

fun jsonValid :: "json \<Rightarrow> bool" where
  "jsonValid JNull = True"
| "jsonValid (JBool _) = True"
| "jsonValid (JNum n) = (okNum n \<and> list_all isNumChar n)"
| "jsonValid (JStr s) = utf8Valid s"
| "jsonValid (JArr vs) = (\<forall>v\<in>set vs. jsonValid v)"
| "jsonValid (JObj kvs) = (\<forall>(k, v)\<in>set kvs. utf8Valid k \<and> jsonValid v)"

definition stops :: "string \<Rightarrow> bool" where
  "stops r \<longleftrightarrow> r = [] \<or> \<not> isNumChar (hd r)"

lemma stops_sep [simp]: "stops (CHR '','' # r)" "stops (CHR '']'' # r)" "stops (CHR ''}'' # r)" "stops []" "stops (CHR 0x0A # r)"
  by (simp_all add: stops_def isNumChar_def isDigit_def byte_def)

lemma skipWs_plain: "s \<noteq> [] \<Longrightarrow> \<not> isWs (hd s) \<Longrightarrow> skipWs s = s"
  by (cases s) (simp_all add: skipWs_def)

lemma skipWs_brackets [simp]: "skipWs (CHR ''['' # s) = CHR ''['' # s" "skipWs (CHR '']'' # s) = CHR '']'' # s" "skipWs [CHR 0x0A] = []"
  by (simp_all add: skipWs_def isWs_def byte_def)

lemma okNum_start: "okNum n \<Longrightarrow> n \<noteq> [] \<and> (hd n = CHR ''-'' \<or> isDigit (hd n))"
  by (cases n) (auto simp: okNum_def Let_def split: if_splits)

text \<open>No value starts with white space or with a closing bracket.\<close>

lemma encode_start:
  assumes "jsonValid v"
  obtains c s where "jsonEncode v = c # s" "\<not> isWs c" "c \<noteq> CHR '']''" "c \<noteq> CHR ''}''"
proof -
  have "\<exists>c s. jsonEncode v = c # s \<and> \<not> isWs c \<and> c \<noteq> CHR '']'' \<and> c \<noteq> CHR ''}''"
  proof (cases v)
    case (JNum n)
    then obtain c s where n: "n = c # s" "c = CHR ''-'' \<or> isDigit c" using assms okNum_start [of n] by (cases n) auto
    then show ?thesis using JNum by (auto simp: isWs_def isDigit_def byte_def)
  qed (auto simp: jsonString_def isWs_def byte_def)
  then show ?thesis using that by blast
qed

lemma parse_number:
  assumes "okNum n" "list_all isNumChar n" "stops r"
  shows "parseVal (Suc m) (n @ r) = Some (JNum n, r)"
proof -
  obtain c s where n: "n = c # s" "c = CHR ''-'' \<or> isDigit c" using okNum_start [OF assms(1)] by (cases n) auto
  have c: "c \<noteq> CHR 0x22" "c \<noteq> CHR ''{''" "c \<noteq> CHR ''[''" "c \<noteq> CHR ''t''" "c \<noteq> CHR ''f''" "c \<noteq> CHR ''n''" "\<not> isWs c"
    using n(2) by (auto simp: isWs_def isDigit_def byte_def)
  have "takeWhile isNumChar (n @ r) = n" "dropWhile isNumChar (n @ r) = r"
    using assms(2,3) by (cases r; simp add: takeWhile_append dropWhile_append list_all_iff stops_def)+
  then have "parseLit (n @ r) = Some (JNum n, r)" using assms(1) n c by (simp add: parseLit_def hasPrefix_def)
  moreover have "skipWs (n @ r) = n @ r" using n c by (intro skipWs_plain) auto
  ultimately show ?thesis using n c by simp
qed

lemma parse_word:
  "parseVal (Suc m) (''null'' @ r) = Some (JNull, r)" "parseVal (Suc m) (''true'' @ r) = Some (JBool True, r)"
  "parseVal (Suc m) (''false'' @ r) = Some (JBool False, r)"
  by (simp_all add: skipWs_def isWs_def byte_def parseLit_def hasPrefix_def)

lemma parseElems_step:
  "parseVal n s = Some (v, CHR '','' # r) \<Longrightarrow> parseElems (Suc n) s acc = parseElems n r (acc @ [v])"
  "parseVal n s = Some (v, CHR '']'' # r) \<Longrightarrow> parseElems (Suc n) s acc = Some (JArr (acc @ [v]), r)"
  by (simp_all del: parseVal.simps)

lemma parse_elems:
  assumes "\<And>v m r. v \<in> set vs \<Longrightarrow> length (jsonEncode v) < m \<Longrightarrow> stops r \<Longrightarrow> parseVal m (jsonEncode v @ r) = Some (v, r)"
    and "vs \<noteq> []" "length (joinWith '','' (map jsonEncode vs)) + 1 < n"
  shows "parseElems n (joinWith '','' (map jsonEncode vs) @ CHR '']'' # r) acc = Some (JArr (acc @ vs), r)"
  using assms
proof (induction vs arbitrary: n acc)
  case (Cons v vs)
  obtain m where n: "n = Suc m" using Cons.prems(3) by (cases n) auto
  show ?case
  proof (cases vs)
    case Nil
    then have "parseVal m (jsonEncode v @ CHR '']'' # r) = Some (v, CHR '']'' # r)" using Cons.prems n by simp
    then show ?thesis using Nil n by (simp add: parseElems_step(2) del: parseElems.simps parseVal.simps)
  next
    case (Cons w ws)
    let ?rest = "joinWith '','' (map jsonEncode vs) @ CHR '']'' # r"
    have j: "joinWith '','' (map jsonEncode (v # vs)) = jsonEncode v @ CHR '','' # joinWith '','' (map jsonEncode vs)"
      using Cons by simp
    have "parseVal m (jsonEncode v @ CHR '','' # ?rest) = Some (v, CHR '','' # ?rest)"
      using Cons.prems j n by simp
    moreover have "parseElems m ?rest (acc @ [v]) = Some (JArr ((acc @ [v]) @ vs), r)"
      using Cons.IH Cons.prems Cons j n by simp
    ultimately show ?thesis unfolding j n using parseElems_step(1) by simp
  qed
qed simp

definition encodeMember :: "string \<times> json \<Rightarrow> string" where
  "encodeMember kv = jsonString (fst kv) @ CHR '':'' # jsonEncode (snd kv)"

lemma parseMembers_step:
  assumes "utf8Valid k"
  shows "parseVal n s = Some (v, CHR '','' # r) \<Longrightarrow> parseMembers (Suc n) (jsonString k @ CHR '':'' # s) acc = parseMembers n r (acc @ [(k, v)])"
    "parseVal n s = Some (v, CHR ''}'' # r) \<Longrightarrow> parseMembers (Suc n) (jsonString k @ CHR '':'' # s) acc = Some (JObj (acc @ [(k, v)]), r)"
  by (simp_all add: jsonString_def parseStr_string [OF assms] del: parseVal.simps)

lemma parse_members:
  assumes "\<And>k v m r. (k, v) \<in> set kvs \<Longrightarrow> length (jsonEncode v) < m \<Longrightarrow> stops r \<Longrightarrow> parseVal m (jsonEncode v @ r) = Some (v, r)"
    and "\<And>k v. (k, v) \<in> set kvs \<Longrightarrow> utf8Valid k"
    and "kvs \<noteq> []" "length (joinWith '','' (map encodeMember kvs)) < n"
  shows "parseMembers n (joinWith '','' (map encodeMember kvs) @ CHR ''}'' # r) acc = Some (JObj (acc @ kvs), r)"
  using assms
proof (induction kvs arbitrary: n acc)
  case (Cons kv kvs)
  obtain k v where kv: "kv = (k, v)" by (cases kv)
  have u: "utf8Valid k" using Cons.prems(2) [of k v] kv by simp
  obtain m where n: "n = Suc m" using Cons.prems(4) by (cases n) auto
  show ?case
  proof (cases kvs)
    case Nil
    then have "parseVal m (jsonEncode v @ CHR ''}'' # r) = Some (v, CHR ''}'' # r)" using Cons.prems kv n by (simp add: encodeMember_def)
    then show ?thesis using Nil n kv by (simp add: encodeMember_def parseMembers_step(2) [OF u] del: parseMembers.simps parseVal.simps)
  next
    case (Cons w ws)
    let ?rest = "joinWith '','' (map encodeMember kvs) @ CHR ''}'' # r"
    have j: "joinWith '','' (map encodeMember (kv # kvs)) = jsonString k @ CHR '':'' # jsonEncode v @ CHR '','' # joinWith '','' (map encodeMember kvs)"
      using Cons kv by (simp add: encodeMember_def)
    have "parseVal m (jsonEncode v @ CHR '','' # ?rest) = Some (v, CHR '','' # ?rest)"
      using Cons.prems(1) [of k v m "CHR '','' # ?rest"] Cons.prems(4) j n kv by simp
    moreover have "parseMembers m ?rest (acc @ [(k, v)]) = Some (JObj ((acc @ [(k, v)]) @ kvs), r)"
    proof (rule Cons.IH)
      show "length (joinWith '','' (map encodeMember kvs)) < m" using Cons.prems(4) n unfolding j by simp
      show "utf8Valid ka" if "(ka, va) \<in> set kvs" for ka va using Cons.prems(2) that by (meson list.set_intros(2))
    qed (use Cons Cons.prems(1) in \<open>auto intro: list.set_intros(2)\<close>)
    ultimately show ?thesis using parseMembers_step(1) [OF u] kv unfolding j n by simp
  qed
qed simp

lemma encode_JObj: "jsonEncode (JObj kvs) = CHR ''{'' # joinWith '','' (map encodeMember kvs) @ ''}''"
  by (simp add: encodeMember_def [abs_def] case_prod_beta')

lemma joined_start:
  assumes "xs \<noteq> []" "hd xs = c # s"
  shows "\<exists>t. joinWith sep xs = c # t"
  using assms by (induction sep xs rule: joinWith.induct) auto

lemma parseVal_encode:
  "jsonValid v \<Longrightarrow> length (jsonEncode v) < n \<Longrightarrow> stops r \<Longrightarrow> parseVal n (jsonEncode v @ r) = Some (v, r)"
proof (induction v arbitrary: n r)
  case (JNum x)
  then show ?case using parse_number [of x r "n - 1"] by (cases n) simp_all
next
  case (JStr x)
  then show ?case using parseVal_string [of x "n - 1" r] by (cases n) simp_all
next
  case (JArr vs)
  obtain m where n: "n = Suc m" using JArr.prems(2) by (cases n) auto
  show ?case
  proof (cases vs)
    case (Cons v ws)
    then obtain c s where c: "jsonEncode v = c # s" "\<not> isWs c" "c \<noteq> CHR '']''" using encode_start [of v] JArr.prems(1) by (metis jsonValid.simps(5) list.set_intros(1))
    let ?body = "joinWith '','' (map jsonEncode vs)"
    obtain t where t: "?body = c # t" using joined_start [of "map jsonEncode vs" c s] Cons c by auto
    have "parseElems m (?body @ CHR '']'' # r) [] = Some (JArr ([] @ vs), r)"
      using JArr Cons n by (intro parse_elems) auto
    moreover have "take 1 (skipWs (?body @ CHR '']'' # r)) \<noteq> '']''" using t c by (simp add: skipWs_def)
    ultimately show ?thesis using n by (simp del: parseElems.simps)
  qed (simp add: n)
next
  case (JObj kvs)
  obtain m where n: "n = Suc m" using JObj.prems(2) by (cases n) auto
  show ?case
  proof (cases kvs)
    case (Cons kv ws)
    let ?body = "joinWith '','' (map encodeMember kvs)"
    obtain t where t: "?body = CHR 0x22 # t" 
      using joined_start [of "map encodeMember kvs" "CHR 0x22"] Cons by (auto simp: encodeMember_def jsonString_def)
    have "parseMembers m (?body @ CHR ''}'' # r) [] = Some (JObj ([] @ kvs), r)"
      using JObj Cons n unfolding encode_JObj by (intro parse_members) fastforce+
    moreover have "take 1 (skipWs (?body @ CHR ''}'' # r)) \<noteq> ''}''" using t by simp
    ultimately show ?thesis using n unfolding encode_JObj by (simp del: parseMembers.simps)
  qed (simp add: n)
next
  case JNull
  then obtain m where "n = Suc m" by (cases n) auto
  then show ?case using parse_word(1) [of m r] by (simp del: parseVal.simps)
next
  case (JBool b)
  then obtain m where "n = Suc m" by (cases n) auto
  then show ?case using parse_word(2,3) [of m r] by (simp del: parseVal.simps)
qed

lemma jsonParse_encode: "jsonValid v \<Longrightarrow> jsonParse (jsonEncode v) = Some v"
  using parseVal_encode [of v "Suc (length (jsonEncode v))" "[]"] by (simp add: jsonParse_def del: parseVal.simps)

lemma jsonParse_line: "jsonValid v \<Longrightarrow> jsonParse (jsonEncode v @ [CHR 0x0A]) = Some v"
  using parseVal_encode [of v "Suc (Suc (length (jsonEncode v)))" "[CHR 0x0A]"] by (simp add: jsonParse_def del: parseVal.simps)

lemma jsonDecode_encode: "jsonValid v \<Longrightarrow> jsonDecode (jsonEncode v) = Some v"
  using parseVal_encode [of v "Suc (length (jsonEncode v))" "[]"] by (simp add: jsonDecode_def del: parseVal.simps)

text \<open>What one side writes, the other reads: a JSON document of numbers in the grammar of JSON and strings in UTF-8, however
  deeply nested, is read back from its text as the very same value, with or without the newline an encoder appends.\<close>

theorem json_roundtrip:
  assumes "jsonValid v"
  shows "jsonParse (jsonEncode v) = Some v \<and> jsonParse (jsonEncode v @ [CHR 0x0A]) = Some v \<and> jsonDecode (jsonEncode v) = Some v"
  using jsonParse_encode [OF assms] jsonParse_line [OF assms] jsonDecode_encode [OF assms] by simp

text \<open>ASCII text and the texts of integers can always be written.\<close>

lemma utf8_ascii: "byte c < 128 \<Longrightarrow> utf8Valid (c # s) \<longleftrightarrow> utf8Valid s"
proof -
  assume "byte c < 128"
  then have v: "runeValid (c # t) = Some 1" for t by (simp add: runeValid.simps runeNeed_def runeTail_def)
  then have "runes (c # s) = [c] # runes s" by (subst runes.simps) (simp add: runeWidth_def)
  then show ?thesis using v [of "[]"] by (simp add: utf8Valid_def)
qed

definition plainJson :: "char \<Rightarrow> bool" where
  "plainJson c \<longleftrightarrow> 32 \<le> byte c \<and> byte c < 128 \<and> byte c \<notin> {34, 92, 60, 62, 38}"

lemma jsonString_plain: "list_all plainJson s \<Longrightarrow> jsonString s = CHR 0x22 # s @ [CHR 0x22]"
proof -
  have "concat (map escRune (runes s)) = s" if "list_all plainJson s" using that
  proof (induction s)
    case (Cons c s)
    then have c: "byte c < 128" "plainJson c" by (simp_all add: plainJson_def)
    have v: "runeValid (c # t) = Some 1" for t using c by (simp add: runeValid.simps runeNeed_def runeTail_def)
    have "runes (c # s) = [c] # runes s" using v by (subst runes.simps) (simp add: runeWidth_def)
    moreover have "escRune [c] = [c]" using c(2) by (auto simp: escRune_def escChar_def plainJson_def Let_def byte_special)
    ultimately show ?case using Cons by simp
  qed simp
  then show "list_all plainJson s \<Longrightarrow> ?thesis" by (simp add: jsonString_def)
qed

lemma utf8_Nil [simp]: "utf8Valid []"
  by (simp add: utf8Valid_def)

lemma decimal_hd0: "hd (decimal n) = CHR ''0'' \<Longrightarrow> n = 0"
proof (induction n rule: decimal.induct)
  case (1 n)
  show ?case
  proof (cases "n < 10")
    case True
    then have "digitChar n = CHR ''0''" using "1.prems" by (subst (asm) decimal.simps) simp
    then show ?thesis using digitVal_digitChar [OF True] by (simp add: digitVal_def byte_def)
  next
    case False
    then have "hd (decimal (n div 10)) = CHR ''0''" using "1.prems" by (subst (asm) decimal.simps) simp
    then show ?thesis using "1.IH" False by auto
  qed
qed

lemma okNum_decimal: "okNum (decimal n)" "okNum (CHR ''-'' # decimal n)"
proof -
  have w: "takeWhile isDigit (decimal n) = decimal n" "dropWhile isDigit (decimal n) = []"
    using decimal_digits [of n] by (auto simp: list_all_iff)
  have z: "length (decimal n) = 1" if "hd (decimal n) = CHR ''0''" using decimal_hd0 [OF that] by (simp add: decimal.simps)
  obtain c t where ct: "decimal n = c # t" by (cases "decimal n") auto
  have "c \<noteq> CHR ''-''" using decimal_hd [of n] ct by (auto dest: digit_not_sign)
  then show "okNum (decimal n)" "okNum (CHR ''-'' # decimal n)" using w z ct by (simp_all add: okNum_def okFrac_def)
qed

lemma jInt_valid [simp]: "jsonValid (jInt n)"
proof -
  have "list_all isNumChar (decimal m)" for m using decimal_chars by (auto simp: list_all_iff isNumChar_def)
  then show ?thesis using okNum_decimal by (simp add: jInt_def strconvItoa_def) (simp add: isNumChar_def)
qed

theorem json_roundtrip_witness:
  "jsonParse (jsonEncode (JObj [(''a'', JArr [JNum ''-1.5e3'', JNull, JStr '''']), (''b'', JBool True)]) @ [CHR 0x0A]) =
     Some (JObj [(''a'', JArr [JNum ''-1.5e3'', JNull, JStr '''']), (''b'', JBool True)])"
proof -
  have "jsonValid (JObj [(''a'', JArr [JNum ''-1.5e3'', JNull, JStr '''']), (''b'', JBool True)])" by code_simp
  from json_roundtrip [OF this] show ?thesis by (elim conjE)
qed

end
