(* ===== verification/SdkAddr.thy ===== *)
theory SdkAddr
  imports Acme
begin

text \<open>
  The address a service advertises (\<^verbatim>\<open>sdk/registry/client.go\<close>): the choice among the host's interfaces and the warning about
  addresses that only make sense inside a container.  An interface is its up flag and its addresses; a \<^verbatim>\<open>net.IP\<close> is an
  address without zone, nil being \<^const>\<open>NoAddr\<close>.  The interface table, the marker files and the text of
  \<^verbatim>\<open>/proc/self/cgroup\<close> are arguments, as the source keeps them behind variables.
\<close>

datatype netAddr = IPNet Addr | IPAddr Addr | OtherAddr

record netInterface =
  ni_Name :: string
  ni_Up :: bool
  ni_Addrs :: "netAddr list"

fun addrIP :: "netAddr \<Rightarrow> Addr" where
  "addrIP (IPNet a) = a"
| "addrIP (IPAddr a) = a"
| "addrIP OtherAddr = NoAddr"

text \<open>\<^verbatim>\<open>net.IP.To4\<close>\<close>

definition to4 :: "Addr \<Rightarrow> Addr" where
  "to4 a = (case unmap a of V4 w \<Rightarrow> V4 w | _ \<Rightarrow> NoAddr)"

definition meshPrefix :: Prefix where
  "meshPrefix = \<lparr>p_Addr = V4 0x64400000, p_Bits = 10\<rparr>"

definition isMeshAddr :: "Addr \<Rightarrow> bool" where
  "isMeshAddr v4 = (case to4 v4 of NoAddr \<Rightarrow> False | a \<Rightarrow> prefixContains meshPrefix (unmap a))"

subsection \<open>Choosing the address\<close>

definition dialable :: "Addr \<Rightarrow> bool" where
  "dialable v4 \<longleftrightarrow> v4 \<noteq> NoAddr \<and> \<not> isLoopback v4 \<and> \<not> isLinkLocalUnicast v4 \<and> isGlobalUnicast v4"

text \<open>The inner loop, over the addresses of one interface: \<open>Inl\<close> is the address it returns, \<open>Inr\<close> the fallback it goes on with.\<close>

fun scanAddrs :: "netAddr list \<Rightarrow> string \<Rightarrow> string + string" where
  "scanAddrs [] fallback = Inr fallback"
| "scanAddrs (x # xs) fallback =
     (let v4 = to4 (addrIP x)
      in if \<not> dialable v4 then scanAddrs xs fallback
         else if isMeshAddr v4 then Inl (addrString v4)
         else scanAddrs xs (if fallback = '''' then addrString v4 else fallback))"

fun scanIfaces :: "netInterface list \<Rightarrow> string \<Rightarrow> string" where
  "scanIfaces [] fallback = fallback"
| "scanIfaces (i # is) fallback =
     (if \<not> ni_Up i then scanIfaces is fallback
      else case scanAddrs (ni_Addrs i) fallback of Inl ip \<Rightarrow> ip | Inr f \<Rightarrow> scanIfaces is f)"

text \<open>\<open>None\<close> is a table that cannot be listed.\<close>

definition selectAdvertiseIP :: "string \<Rightarrow> netInterface list option \<Rightarrow> string" where
  "selectAdvertiseIP configuredIP table =
     (if configuredIP \<noteq> '''' then configuredIP
      else case table of None \<Rightarrow> '''' | Some is \<Rightarrow> scanIfaces is '''')"

text \<open>The interfaces of the host: one whose addresses cannot be read is dropped.\<close>

definition defaultIfaces :: "(string \<times> bool \<times> netAddr list option) list option \<Rightarrow> netInterface list option" where
  "defaultIfaces listed =
     map_option (\<lambda>is. concat (map (\<lambda>(n, up, addrs). case addrs of None \<Rightarrow> [] | Some as \<Rightarrow> [\<lparr>ni_Name = n, ni_Up = up, ni_Addrs = as\<rparr>]) is)) listed"

subsection \<open>Containers\<close>

definition inDockerDefaultPool :: "Addr \<Rightarrow> bool" where
  "inDockerDefaultPool a = (case unmap a of V4 w \<Rightarrow> 0xAC110000 \<le> w \<and> w \<le> 0xAC1FFFFF | _ \<Rightarrow> False)"

definition containerMarkerPaths :: "string list" where
  "containerMarkerPaths = [''/.dockerenv'', ''/run/.containerenv'']"

definition looksLikeContainerCgroup :: "string \<Rightarrow> bool" where
  "looksLikeContainerCgroup content \<longleftrightarrow>
     list_ex (contains content) [''kubepods'', ''containerd'', ''libpod'', ''lxc'', ''docker/'', ''docker-'']"

definition detectContainerNetns :: "(string \<Rightarrow> bool) \<Rightarrow> string option \<Rightarrow> bool" where
  "detectContainerNetns exists cgroup \<longleftrightarrow>
     list_ex exists containerMarkerPaths \<or> (case cgroup of Some c \<Rightarrow> looksLikeContainerCgroup c | None \<Rightarrow> False)"

definition isContainerLocalAddr :: "Addr \<Rightarrow> bool" where
  "isContainerLocalAddr a =
     (case unmap a of V4 w \<Rightarrow> \<not> prefixContains meshPrefix (V4 w) \<and> isPrivate (V4 w) | _ \<Rightarrow> False)"

definition ContainerLocalWarning :: "bool \<Rightarrow> string \<Rightarrow> string" where
  "ContainerLocalWarning netns ip =
     (case (case parseIP ip of Some a \<Rightarrow> to4 a | None \<Rightarrow> NoAddr) of
        NoAddr \<Rightarrow> ''''
      | a \<Rightarrow> if inDockerDefaultPool (unmap a) then ''falls inside Docker''@[CHR 0x27]@''s default bridge pool (172.17.0.0/16-172.31.0.0/16)''
             else if netns \<and> isContainerLocalAddr (unmap a) then ''is this container''@[CHR 0x27]@''s own bridge address (a private address)''
             else '''')"

subsection \<open>What is chosen\<close>

text \<open>The addresses the loops look at, in table order.\<close>

definition offered :: "netInterface list \<Rightarrow> Addr list" where
  "offered is = filter dialable (map (to4 \<circ> addrIP) (concat (map ni_Addrs (filter ni_Up is))))"

definition preferred :: "Addr list \<Rightarrow> string \<Rightarrow> string" where
  "preferred as fallback =
     (case find isMeshAddr as of
        Some a \<Rightarrow> addrString a
      | None \<Rightarrow> if fallback \<noteq> '''' then fallback else case as of [] \<Rightarrow> '''' | a # _ \<Rightarrow> addrString a)"

lemma addrString_not_Nil: "addrString (to4 a) \<noteq> []"
  by (cases "unmap a") (simp_all add: to4_def string4_def Let_def)

lemma scanAddrs_spec:
  "scanAddrs xs f = (let as = filter dialable (map (to4 \<circ> addrIP) xs) in
     case find isMeshAddr as of Some a \<Rightarrow> Inl (addrString a) | None \<Rightarrow> Inr (if f \<noteq> '''' then f else case as of [] \<Rightarrow> '''' | a # _ \<Rightarrow> addrString a))"
proof (induction xs arbitrary: f)
  case (Cons x xs)
  then show ?case using addrString_not_Nil [of "addrIP x"] by (auto simp: Let_def split: option.split list.split)
qed simp

lemma find_append: "find P (xs @ ys) = (case find P xs of Some x \<Rightarrow> Some x | None \<Rightarrow> find P ys)"
  by (induction xs) auto

lemma scanIfaces_spec: "scanIfaces is f = preferred (offered is) f"
proof (induction "is" arbitrary: f)
  case (Cons i "is")
  show ?case
  proof (cases "ni_Up i")
    case True
    let ?as = "filter dialable (map (to4 \<circ> addrIP) (ni_Addrs i))"
    have o: "offered (i # is) = ?as @ offered is" using True by (simp add: offered_def)
    have ne: "addrString a \<noteq> []" if "a \<in> set ?as" for a using that addrString_not_Nil by auto
    show ?thesis
    proof (cases "find isMeshAddr ?as")
      case None
      then show ?thesis using True o Cons ne by (cases ?as) (auto simp: scanAddrs_spec preferred_def find_append Let_def split: option.split)
    next
      case (Some a)
      then show ?thesis using True o by (simp add: scanAddrs_spec preferred_def find_append Let_def)
    qed
  qed (use Cons in \<open>simp add: offered_def\<close>)
qed (simp add: preferred_def offered_def)

text \<open>The address a service advertises: a configured address always wins; otherwise it is the first overlay address
  (100.64.0.0/10) among the dialable IPv4 addresses of the interfaces that are up, wherever it stands in the table; only without one
  it is the first dialable address; and it is empty exactly when there is none or the table cannot be read.\<close>

theorem advertise_prefers_mesh:
  "selectAdvertiseIP configured table =
     (if configured \<noteq> '''' then configured
      else case table of
        None \<Rightarrow> ''''
      | Some is \<Rightarrow> (case find isMeshAddr (offered is) of
          Some a \<Rightarrow> addrString a
        | None \<Rightarrow> (case offered is of [] \<Rightarrow> '''' | a # _ \<Rightarrow> addrString a)))"
  by (simp add: selectAdvertiseIP_def scanIfaces_spec preferred_def split: option.split list.split)

text \<open>An overlay address never draws the warning, the default pool of Docker always does.\<close>

lemma warning_pool: "parseIP ip = Some (V4 w) \<Longrightarrow> inDockerDefaultPool (V4 w) \<Longrightarrow> ContainerLocalWarning netns ip \<noteq> ''''"
  by (simp add: ContainerLocalWarning_def to4_def)

lemma mesh_not_pool: "prefixContains meshPrefix (V4 w) \<Longrightarrow> \<not> inDockerDefaultPool (V4 w)"
proof
  assume m: "prefixContains meshPrefix (V4 w)" and p: "inDockerDefaultPool (V4 w)"
  have "drop_bit 22 (0x64400000 XOR w) = (0 :: 32 word)" using m by (simp add: meshPrefix_def)
  then have "drop_bit 22 w = drop_bit 22 (0x64400000 :: 32 word)" by (simp add: drop_bit_xor)
  then have "unat (drop_bit 22 w) = unat (drop_bit 22 (0x64400000 :: 32 word))" by (simp only:)
  then have "unat w div 2 ^ 22 = 401" unfolding unat_drop_bit_eq drop_bit_eq_div by (simp add: unat_div_distrib)
  moreover have "0xAC110000 \<le> unat w" using p by (simp add: inDockerDefaultPool_def word_le_nat_alt)
  ultimately show False by simp
qed

lemma mesh_no_warning: "parseIP ip = Some (V4 w) \<Longrightarrow> prefixContains meshPrefix (V4 w) \<Longrightarrow> ContainerLocalWarning netns ip = ''''"
  using mesh_not_pool [of w] by (simp add: ContainerLocalWarning_def to4_def isContainerLocalAddr_def)

end
