(* ===== verification/SdkClient.thy ===== *)
theory SdkClient
  imports Wire SdkAddr
begin

text \<open>
  The registry client (\<^verbatim>\<open>sdk/registry/client.go\<close>): requests with a cached token and one retry, register, beat, deregister,
  discovery, and the background loop.  Times and durations are nanoseconds, \<^const>\<open>i64\<close> where the code multiplies in 64 bits.
  A method is a function of the client and of the state \<open>'w\<close> of everything outside it; \<open>sdkEnv\<close> is what the client uses of that
  outside: \<^verbatim>\<open>http.NewRequest\<close>, \<^verbatim>\<open>http.Client.Do\<close>, the clock, the context of the loop and its timer.  An error is the failing
  step with its data instead of its formatted text; JSON numbers and weights go through the functions of \<^typ>\<open>napi\<close>.
\<close>

subsection \<open>Configuration and client\<close>

record sdkConfig =
  sc_Enabled :: bool
  sc_ServerAddr :: string
  sc_ServiceName :: string
  sc_NamespaceID :: string
  sc_GroupName :: string
  sc_ClusterName :: string
  sc_IP :: string
  sc_IPAutoDetected :: bool
  sc_Port :: int
  sc_Weight :: rat
  sc_Metadata :: "smap option"
  sc_Username :: string
  sc_Password :: string
  sc_Token :: string
  sc_HeartbeatInterval :: int
  sc_RequestTimeout :: int

definition millisecond :: int where "millisecond = 1000000"
definition second :: int where "second = 1000000000"

definition DefaultHeartbeatInterval :: int where "DefaultHeartbeatInterval = 5 * second"
definition DefaultRequestTimeout :: int where "DefaultRequestTimeout = 3 * second"
definition minAdvertisedBeatInterval :: int where "minAdvertisedBeatInterval = 50 * millisecond"
definition beatFailureThreshold :: nat where "beatFailureThreshold = 3"
definition maxErrorBodyBytes :: nat where "maxErrorBodyBytes = 512"

record sdkClient =
  c_cfg :: sdkConfig
  c_base :: string
  c_token :: string
  c_tokenExpiry :: "int option"
  c_beatInterval :: int
  c_started :: bool
  c_stopped :: bool
  c_registerBackoffInitial :: int
  c_registerBackoffMax :: int
  c_bridgeWarned :: "(string \<times> string) option"

datatype sdkErr =
    ErrNilClient
  | ErrDisabled string
  | ErrNoIP string
  | ErrBadPort string int
  | ErrBuild string string string
  | ErrTransport string string string
  | ErrRead string string string
  | StatusError string string int string
  | ErrEnvelope string string string
  | ErrRegistry string string int string
  | ErrData string string
  | ErrLoginBuild string
  | ErrLoginTransport string string
  | ErrLoginRead string
  | ErrLoginStatus string int string
  | ErrLoginDecode string
  | ErrNoAccessToken string string
  | ErrHealthDecode string
  | ErrHealthStatus string string
  | ErrArgument string
  | ErrNilApplicationSpec string
  | ErrStep string sdkErr

definition orString :: "string \<Rightarrow> string \<Rightarrow> string" where
  "orString v fallback = (if trimSpace v = '''' then fallback else v)"

definition normalizeBaseURL :: "string \<Rightarrow> string" where
  "normalizeBaseURL addr0 =
     (let addr = trimSpace addr0
      in if addr = '''' then ''''
         else let a = trimRight (\<lambda>c. c = CHR ''/'') addr
              in if contains a ''://'' then a else ''http://'' @ a)"

definition summarizeBody :: "string \<Rightarrow> string" where
  "summarizeBody raw =
     (let s = trimSpace raw
      in if s = '''' then ''(empty body)'' else if length s > maxErrorBodyBytes then take maxErrorBodyBytes s @ ''...'' else s)"

definition NewClient :: "sdkConfig \<Rightarrow> sdkClient" where
  "NewClient cfg =
     (let cfg1 = cfg\<lparr>sc_GroupName := orString (sc_GroupName cfg) ''DEFAULT_GROUP'', sc_ClusterName := orString (sc_ClusterName cfg) ''DEFAULT'',
            sc_Weight := (if sc_Weight cfg \<le> 0 then 1 else sc_Weight cfg),
            sc_HeartbeatInterval := (if sc_HeartbeatInterval cfg \<le> 0 then DefaultHeartbeatInterval else sc_HeartbeatInterval cfg),
            sc_RequestTimeout := (if sc_RequestTimeout cfg \<le> 0 then DefaultRequestTimeout else sc_RequestTimeout cfg)\<rparr>
      in \<lparr>c_cfg = cfg1, c_base = normalizeBaseURL (sc_ServerAddr cfg), c_token = '''', c_tokenExpiry = None, c_beatInterval = 0,
          c_started = False, c_stopped = False, c_registerBackoffInitial = second, c_registerBackoffMax = 30 * second, c_bridgeWarned = None\<rparr>)"

text \<open>A nil client is \<^const>\<open>None\<close>.\<close>

definition sdkEnabled :: "sdkClient option \<Rightarrow> bool" where
  "sdkEnabled p = (case p of None \<Rightarrow> False | Some c \<Rightarrow> sc_Enabled (c_cfg c))"

definition sdkServerAddr :: "sdkClient option \<Rightarrow> string" where
  "sdkServerAddr p = (case p of None \<Rightarrow> '''' | Some c \<Rightarrow> c_base c)"

definition usable :: "sdkClient \<Rightarrow> sdkErr option" where
  "usable c =
     (if \<not> sc_Enabled (c_cfg c) then Some (ErrDisabled ''Enabled=false'')
      else if c_base c = '''' then Some (ErrDisabled ''ServerAddr is empty; run Discover first'')
      else if sc_ServiceName (c_cfg c) = '''' then Some (ErrDisabled ''ServiceName is empty'')
      else None)"

definition ready :: "sdkClient \<Rightarrow> sdkErr option" where
  "ready c =
     (case usable c of
        Some e \<Rightarrow> Some e
      | None \<Rightarrow>
          if sc_IP (c_cfg c) = '''' then Some (ErrNoIP (sc_ServiceName (c_cfg c)))
          else if sc_Port (c_cfg c) \<le> 0 \<or> sc_Port (c_cfg c) > 65535 then Some (ErrBadPort (sc_ServiceName (c_cfg c)) (sc_Port (c_cfg c)))
          else None)"

subsection \<open>The outside\<close>

record sdkReq =
  q_Method :: string
  q_URL :: string
  q_ContentType :: string
  q_Authorization :: string
  q_Body :: string

datatype httpResult = HttpError string | HttpUnreadable string | HttpResponse int string

record 'w sdkEnv =
  se_newRequest :: "string \<Rightarrow> string \<Rightarrow> string option"
  se_do :: "sdkReq \<Rightarrow> 'w \<Rightarrow> httpResult \<times> 'w"
  se_now :: "'w \<Rightarrow> int"
  se_cancelled :: "'w \<Rightarrow> bool"
  se_sleep :: "int \<Rightarrow> 'w \<Rightarrow> bool \<times> 'w"
  se_netns :: bool
  se_api :: napi

type_synonym 'w cst = "sdkClient \<times> 'w"

type_synonym ('w, 'a) sdk = "'w cst \<Rightarrow> (sdkErr + 'a) \<times> 'w cst"

definition kbind :: "('w, 'a) sdk \<Rightarrow> ('a \<Rightarrow> ('w, 'b) sdk) \<Rightarrow> ('w, 'b) sdk" where
  "kbind m k s = (case m s of (Inl e, s') \<Rightarrow> (Inl e, s') | (Inr a, s') \<Rightarrow> k a s')"

text \<open>A method called through a pointer that may be nil.\<close>

definition nilSafe :: "('w, 'a) sdk \<Rightarrow> sdkClient option \<Rightarrow> 'w \<Rightarrow> (sdkErr + 'a) \<times> sdkClient option \<times> 'w" where
  "nilSafe m p w =
     (case p of
        None \<Rightarrow> (Inl ErrNilClient, None, w)
      | Some c \<Rightarrow> (case m (c, w) of (r, c', w') \<Rightarrow> (r, Some c', w')))"

subsection \<open>Documents\<close>

definition unmarshalValue :: "napi \<Rightarrow> (string \<times> ftype) list \<Rightarrow> json \<Rightarrow> members option" where
  "unmarshalValue a schema v =
     (case v of JObj kvs \<Rightarrow> if structOK a schema kvs then Some kvs else None | JNull \<Rightarrow> Some [] | _ \<Rightarrow> None)"

definition unmarshalStruct :: "napi \<Rightarrow> (string \<times> ftype) list \<Rightarrow> string \<Rightarrow> members option" where
  "unmarshalStruct a schema raw = (case jsonParse raw of Some v \<Rightarrow> unmarshalValue a schema v | None \<Rightarrow> None)"

definition envelopeSchema :: "(string \<times> ftype) list" where
  "envelopeSchema = [(''code'', FInt), (''message'', FStr)]"

text \<open>The raw \<^verbatim>\<open>data\<close> member; \<^verbatim>\<open>null\<close> is four bytes, only a missing member is empty.\<close>

definition rawMember :: "members \<Rightarrow> string \<Rightarrow> json option" where
  "rawMember kvs k = (case memberVals kvs k of [] \<Rightarrow> None | vs \<Rightarrow> Some (last vs))"

definition loginDataSchema :: "(string \<times> ftype) list" where
  "loginDataSchema = [(''accessToken'', FStr), (''tokenTtl'', FInt)]"

definition loginSchema :: "(string \<times> ftype) list" where
  "loginSchema = [(''accessToken'', FStr), (''tokenTtl'', FInt), (''username'', FStr), (''globalAdmin'', FBoolPtr), (''code'', FInt), (''message'', FStr)]"

text \<open>The pointer to the nested struct: \<^verbatim>\<open>null\<close> makes it nil, a further object is stored into the struct it points to.\<close>

definition loginData :: "members \<Rightarrow> members option" where
  "loginData kvs =
     fold (\<lambda>v p. case v of JObj m \<Rightarrow> Some ((case p of None \<Rightarrow> [] | Some q \<Rightarrow> q) @ m) | JNull \<Rightarrow> None | _ \<Rightarrow> p) (memberVals kvs ''data'') None"

definition loginDataOK :: "napi \<Rightarrow> members \<Rightarrow> bool" where
  "loginDataOK a kvs \<longleftrightarrow> list_all (\<lambda>v. case v of JObj m \<Rightarrow> structOK a loginDataSchema m | JNull \<Rightarrow> True | _ \<Rightarrow> False) (memberVals kvs ''data'')"

subsection \<open>Tokens\<close>

definition isAuthRejection :: "sdkErr \<Rightarrow> bool" where
  "isAuthRejection e = (case e of StatusError _ _ st _ \<Rightarrow> st = 401 \<or> st = 403 | _ \<Rightarrow> False)"

text \<open>Division of durations truncates towards zero.\<close>

definition quotient :: "int \<Rightarrow> int \<Rightarrow> int" where
  "quotient x n = (if x < 0 then - ((- x) div n) else x div n)"

definition refreshLifetime :: "int \<Rightarrow> int" where
  "refreshLifetime ttl =
     (let margin0 = quotient ttl 10;
          margin = (if margin0 > 60 * second then 60 * second else margin0);
          d = ttl - margin
      in if d < 100 * millisecond then quotient ttl 2 else d)"

definition tokenExpiredLocked :: "sdkClient \<Rightarrow> int \<Rightarrow> bool" where
  "tokenExpiredLocked c now = (case c_tokenExpiry c of None \<Rightarrow> True | Some e \<Rightarrow> \<not> now < e)"

definition invalidateToken :: "sdkClient \<Rightarrow> sdkClient" where
  "invalidateToken c = (if sc_Token (c_cfg c) \<noteq> '''' then c else c\<lparr>c_token := '''', c_tokenExpiry := None\<rparr>)"

definition loginURL :: "sdkClient \<Rightarrow> string" where
  "loginURL c = c_base c @ ''/nacos'' @ ''/v1/auth/users/login''"

definition loginReq :: "sdkClient \<Rightarrow> sdkReq" where
  "loginReq c = \<lparr>q_Method = ''POST'', q_URL = loginURL c, q_ContentType = ''application/x-www-form-urlencoded'', q_Authorization = '''',
     q_Body = valuesEncode [(''username'', sc_Username (c_cfg c)), (''password'', sc_Password (c_cfg c))]\<rparr>"

text \<open>What the client makes of the login answer.\<close>

definition loginTTL :: "members \<Rightarrow> int" where
  "loginTTL kvs =
     (let t1 = fieldInt kvs ''tokenTtl'';
          t2 = (if t1 \<le> 0 then (case loginData kvs of Some m \<Rightarrow> fieldInt m ''tokenTtl'' | None \<Rightarrow> t1) else t1)
      in if t2 \<le> 0 then 18000 else t2)"

definition loginToken :: "members \<Rightarrow> string" where
  "loginToken kvs =
     (let t = fieldStr kvs ''accessToken''
      in if t = '''' then (case loginData kvs of Some m \<Rightarrow> fieldStr m ''accessToken'' | None \<Rightarrow> t) else t)"

definition bodyLimit :: nat where "bodyLimit = 1048576"

definition loginAnswer :: "napi \<Rightarrow> string \<Rightarrow> int \<Rightarrow> string \<Rightarrow> sdkErr + string \<times> int" where
  "loginAnswer a u st body =
     (let raw = take bodyLimit body
      in if st < 200 \<or> st > 299 then Inl (ErrLoginStatus u st (summarizeBody raw))
         else case unmarshalStruct a loginSchema raw of
                None \<Rightarrow> Inl (ErrLoginDecode (summarizeBody raw))
              | Some kvs \<Rightarrow>
                  if \<not> loginDataOK a kvs then Inl (ErrLoginDecode (summarizeBody raw))
                  else if loginToken kvs = '''' then Inl (ErrNoAccessToken u (summarizeBody raw))
                  else Inr (loginToken kvs, i64 (loginTTL kvs * second)))"

definition sdkLogin :: "'w sdkEnv \<Rightarrow> sdkClient \<Rightarrow> 'w \<Rightarrow> (sdkErr + string \<times> int) \<times> 'w" where
  "sdkLogin env c w =
     (let u = loginURL c
      in case se_newRequest env ''POST'' u of
           Some e \<Rightarrow> (Inl (ErrLoginBuild e), w)
         | None \<Rightarrow>
             (case se_do env (loginReq c) w of
                (HttpError e, w') \<Rightarrow> (Inl (ErrLoginTransport u e), w')
              | (HttpUnreadable e, w') \<Rightarrow> (Inl (ErrLoginRead e), w')
              | (HttpResponse st body, w') \<Rightarrow> (loginAnswer (se_api env) u st body, w')))"

definition ensureToken :: "'w sdkEnv \<Rightarrow> ('w, string) sdk" where
  "ensureToken env s =
     (case s of (c, w) \<Rightarrow>
        if sc_Token (c_cfg c) \<noteq> '''' then (Inr (sc_Token (c_cfg c)), (c, w))
        else if sc_Username (c_cfg c) = '''' \<and> sc_Password (c_cfg c) = '''' then (Inr '''', (c, w))
        else if c_token c \<noteq> '''' \<and> \<not> tokenExpiredLocked c (se_now env w) then (Inr (c_token c), (c, w))
        else case sdkLogin env c w of
               (Inl e, w') \<Rightarrow> (Inl e, (c, w'))
             | (Inr (token, ttl), w') \<Rightarrow> (Inr token, (c\<lparr>c_token := token, c_tokenExpiry := Some (se_now env w' + refreshLifetime ttl)\<rparr>, w')))"

subsection \<open>Requests\<close>

definition apiURL :: "sdkClient \<Rightarrow> string \<Rightarrow> string \<Rightarrow> (string \<times> string) list \<Rightarrow> string" where
  "apiURL c prefix path qs = c_base c @ prefix @ path @ (if qs = [] then '''' else CHR ''?'' # valuesEncode qs)"

definition apiReqOf :: "string \<Rightarrow> string \<Rightarrow> json option \<Rightarrow> string \<Rightarrow> sdkReq" where
  "apiReqOf method u body token =
     \<lparr>q_Method = method, q_URL = u, q_ContentType = (if body = None then '''' else ''application/json''),
      q_Authorization = (if token = '''' then '''' else ''Bearer '' @ token), q_Body = (case body of None \<Rightarrow> '''' | Some v \<Rightarrow> jsonEncode v)\<rparr>"

definition exchange :: "'w sdkEnv \<Rightarrow> string \<Rightarrow> string \<Rightarrow> sdkReq \<Rightarrow> ('w, string) sdk" where
  "exchange env method u q s =
     (case s of (c, w) \<Rightarrow>
        (case se_do env q w of
           (HttpError e, w') \<Rightarrow> (Inl (ErrTransport method u e), (c, w'))
         | (HttpUnreadable e, w') \<Rightarrow> (Inl (ErrRead method u e), (c, w'))
         | (HttpResponse st body, w') \<Rightarrow>
             (let raw = take bodyLimit body
              in if st < 200 \<or> st > 299 then (Inl (StatusError method u st (summarizeBody raw)), (c, w')) else (Inr raw, (c, w')))))"

definition sendAt :: "'w sdkEnv \<Rightarrow> string \<Rightarrow> string \<Rightarrow> string \<Rightarrow> (string \<times> string) list \<Rightarrow> json option \<Rightarrow> ('w, string) sdk" where
  "sendAt env method prefix path qs body s =
     (let u = apiURL (fst s) prefix path qs
      in case se_newRequest env method u of
           Some e \<Rightarrow> (Inl (ErrBuild method u e), s)
         | None \<Rightarrow> kbind (ensureToken env) (\<lambda>token. exchange env method u (apiReqOf method u body token)) s)"

text \<open>The envelope of an answer: the registry's own code, and the data as it stands.\<close>

definition openEnvelope :: "napi \<Rightarrow> string \<Rightarrow> string \<Rightarrow> string \<Rightarrow> sdkErr + json option" where
  "openEnvelope a method path raw =
     (if trimSpace raw = '''' then Inr None
      else case unmarshalStruct a envelopeSchema raw of
             None \<Rightarrow> Inl (ErrEnvelope method path (summarizeBody raw))
           | Some kvs \<Rightarrow>
               if fieldInt kvs ''code'' \<noteq> 0
               then Inl (ErrRegistry method path (fieldInt kvs ''code'') (orString (fieldStr kvs ''message'') (summarizeBody raw)))
               else Inr (rawMember kvs ''data''))"

definition retrying :: "('w, 'a) sdk \<Rightarrow> ('w, 'a) sdk" where
  "retrying m s =
     (case m s of
        (Inl e, (c, w)) \<Rightarrow> if \<not> isAuthRejection e then (Inl e, (c, w)) else m (invalidateToken c, w)
      | r \<Rightarrow> r)"

definition doAt :: "'w sdkEnv \<Rightarrow> string \<Rightarrow> string \<Rightarrow> string \<Rightarrow> (string \<times> string) list \<Rightarrow> json option \<Rightarrow> ('w, json option) sdk" where
  "doAt env method prefix path qs body =
     kbind (retrying (sendAt env method prefix path qs body)) (\<lambda>raw s. (openEnvelope (se_api env) method path raw, s))"

text \<open>\<^verbatim>\<open>out\<close>: the value decoded from the data, the zero value when there is none.\<close>

definition doInto :: "'w sdkEnv \<Rightarrow> string \<Rightarrow> string \<Rightarrow> (string \<times> string) list \<Rightarrow> json option \<Rightarrow> (json \<Rightarrow> 'a option) \<Rightarrow> 'a \<Rightarrow> ('w, 'a) sdk" where
  "doInto env method path qs body dec zero =
     kbind (doAt env method ''/nacos'' path qs body)
       (\<lambda>data s. (case data of None \<Rightarrow> Inr zero | Some v \<Rightarrow> (case dec v of None \<Rightarrow> Inl (ErrData method path) | Some x \<Rightarrow> Inr x), s))"

definition call :: "'w sdkEnv \<Rightarrow> string \<Rightarrow> string \<Rightarrow> (string \<times> string) list \<Rightarrow> json option \<Rightarrow> ('w, unit) sdk" where
  "call env method path qs body = kbind (doAt env method ''/nacos'' path qs body) (\<lambda>_ s. (Inr (), s))"

subsection \<open>Naming\<close>

definition guarded :: "(sdkClient \<Rightarrow> sdkErr option) \<Rightarrow> ('w, 'a) sdk \<Rightarrow> ('w, 'a) sdk" where
  "guarded check m s = (case check (fst s) of Some e \<Rightarrow> (Inl e, s) | None \<Rightarrow> m s)"

definition warnContainerBridgeOnce :: "bool \<Rightarrow> string \<Rightarrow> sdkClient \<Rightarrow> sdkClient" where
  "warnContainerBridgeOnce netns ip c =
     (if sc_IP (c_cfg c) \<noteq> '''' \<and> \<not> sc_IPAutoDetected (c_cfg c) then c
      else let reason = ContainerLocalWarning netns ip
           in if reason = '''' then c
              else if c_bridgeWarned c = None then c\<lparr>c_bridgeWarned := Some (ip, reason)\<rparr> else c)"

definition AdvertiseIP :: "bool \<Rightarrow> netInterface list option \<Rightarrow> sdkClient option \<Rightarrow> string \<times> sdkClient option" where
  "AdvertiseIP netns table p =
     (case p of
        None \<Rightarrow> ('''', None)
      | Some c \<Rightarrow>
          (let ip = selectAdvertiseIP (sc_IP (c_cfg c)) table
           in if ip \<noteq> '''' then (ip, Some (warnContainerBridgeOnce netns ip c)) else (''127.0.0.1'', Some c)))"

definition ResolveIP :: "netInterface list option \<Rightarrow> sdkConfig \<Rightarrow> string" where
  "ResolveIP table cfg = selectAdvertiseIP (sc_IP cfg) table"

definition registerRequest :: "napi \<Rightarrow> sdkConfig \<Rightarrow> json" where
  "registerRequest a cfg =
     JObj [(''serviceName'', JStr (sc_ServiceName cfg)), (''ip'', JStr (sc_IP cfg)), (''port'', jInt (sc_Port cfg)),
       (''namespaceId'', JStr (sc_NamespaceID cfg)), (''groupName'', JStr (sc_GroupName cfg)), (''clusterName'', JStr (sc_ClusterName cfg)),
       (''weight'', JNum (na_showF a (sc_Weight cfg))), (''enabled'', JBool True), (''ephemeral'', JBool True),
       (''metadata'', case sc_Metadata cfg of None \<Rightarrow> JNull | Some m \<Rightarrow> smapJson m)]"

definition sdkRegister :: "'w sdkEnv \<Rightarrow> ('w, unit) sdk" where
  "sdkRegister env =
     guarded ready (\<lambda>(c, w).
       call env ''POST'' ''/v2/ns/instance'' [] (Some (registerRequest (se_api env) (c_cfg c)))
         (warnContainerBridgeOnce (se_netns env) (sc_IP (c_cfg c)) c, w))"

definition heartbeatInterval :: "sdkClient \<Rightarrow> int" where
  "heartbeatInterval c =
     (if c_beatInterval c > 0 then c_beatInterval c
      else if sc_HeartbeatInterval (c_cfg c) > 0 then sc_HeartbeatInterval (c_cfg c) else DefaultHeartbeatInterval)"

definition beatSchema :: "(string \<times> ftype) list" where
  "beatSchema = [(''clientBeatInterval'', FInt), (''code'', FInt), (''lightBeatEnabled'', FBoolPtr), (''created'', FBoolPtr)]"

definition adoptInterval :: "int \<Rightarrow> sdkClient \<Rightarrow> sdkClient" where
  "adoptInterval ms c =
     (if ms > 0 then let i = i64 (ms * millisecond) in c\<lparr>c_beatInterval := (if i < minAdvertisedBeatInterval then minAdvertisedBeatInterval else i)\<rparr>
      else c)"

definition instanceQuery :: "sdkConfig \<Rightarrow> (string \<times> string) list" where
  "instanceQuery cfg = [(''serviceName'', sc_ServiceName cfg), (''ip'', sc_IP cfg), (''port'', strconvItoa (sc_Port cfg)), (''clusterName'', sc_ClusterName cfg)]"

definition sdkBeat :: "'w sdkEnv \<Rightarrow> ('w, unit) sdk" where
  "sdkBeat env =
     guarded ready (\<lambda>(c, w).
       kbind (doInto env ''POST'' ''/v2/ns/instance/beat'' (instanceQuery (c_cfg c)) None
                (\<lambda>v. map_option (\<lambda>kvs. fieldInt kvs ''clientBeatInterval'') (unmarshalValue (se_api env) beatSchema v)) 0)
         (\<lambda>ms (c', w'). (Inr (), (adoptInterval ms c', w'))) (c, w))"

definition sdkDeregister :: "'w sdkEnv \<Rightarrow> ('w, unit) sdk" where
  "sdkDeregister env =
     guarded ready (\<lambda>(c, w).
       call env ''DELETE'' ''/v2/ns/instance''
         (instanceQuery (c_cfg c) @ [(''namespaceId'', sc_NamespaceID (c_cfg c)), (''groupName'', sc_GroupName (c_cfg c))]) None (c, w))"

subsection \<open>Discovery\<close>

record sdkInstance =
  si_InstanceID :: string
  si_IP :: string
  si_Port :: int
  si_Weight :: rat
  si_Healthy :: bool
  si_Enabled :: bool
  si_Ephemeral :: bool
  si_ClusterName :: string
  si_ServiceName :: string
  si_Metadata :: "smap option"

definition instanceSchema :: "(string \<times> ftype) list" where
  "instanceSchema = [(''instanceId'', FStr), (''ip'', FStr), (''port'', FInt), (''weight'', FNum), (''healthy'', FBoolPtr), (''enabled'', FBoolPtr),
     (''ephemeral'', FBoolPtr), (''clusterName'', FStr), (''serviceName'', FStr), (''metadata'', FMap)]"

definition fieldBool :: "members \<Rightarrow> string \<Rightarrow> bool" where
  "fieldBool kvs k = fold (\<lambda>v p. case v of JBool b \<Rightarrow> b | _ \<Rightarrow> p) (memberVals kvs k) False"

definition instanceOf :: "napi \<Rightarrow> members \<Rightarrow> sdkInstance" where
  "instanceOf a kvs = \<lparr>si_InstanceID = fieldStr kvs ''instanceId'', si_IP = fieldStr kvs ''ip'', si_Port = fieldInt kvs ''port'',
     si_Weight = fieldNum a kvs ''weight'', si_Healthy = fieldBool kvs ''healthy'', si_Enabled = fieldBool kvs ''enabled'',
     si_Ephemeral = fieldBool kvs ''ephemeral'', si_ClusterName = fieldStr kvs ''clusterName'', si_ServiceName = fieldStr kvs ''serviceName'',
     si_Metadata = fieldMap kvs ''metadata''\<rparr>"

text \<open>A slice field, named once in its document: \<^verbatim>\<open>null\<close> is the nil slice.\<close>

definition fieldList :: "(json \<Rightarrow> 'a option) \<Rightarrow> members \<Rightarrow> string \<Rightarrow> 'a list option" where
  "fieldList dec kvs k =
     (case rawMember kvs k of
        None \<Rightarrow> Some []
      | Some JNull \<Rightarrow> Some []
      | Some (JArr vs) \<Rightarrow> those (map dec vs)
      | _ \<Rightarrow> None)"

definition instanceListData :: "napi \<Rightarrow> json \<Rightarrow> sdkInstance list option" where
  "instanceListData a v =
     Option.bind (unmarshalValue a [(''name'', FStr)] v)
       (\<lambda>kvs. fieldList (\<lambda>x. map_option (instanceOf a) (unmarshalValue a instanceSchema x)) kvs ''hosts'')"

definition sdkListInstances :: "'w sdkEnv \<Rightarrow> string \<Rightarrow> ('w, sdkInstance list) sdk" where
  "sdkListInstances env serviceName =
     guarded usable (\<lambda>(c, w).
       if serviceName = '''' then (Inl (ErrArgument ''nacos: ListInstances requires a service name''), (c, w))
       else doInto env ''GET'' ''/v2/ns/instance/list''
              [(''serviceName'', serviceName), (''namespaceId'', sc_NamespaceID (c_cfg c)), (''groupName'', sc_GroupName (c_cfg c)),
               (''clusters'', sc_ClusterName (c_cfg c)), (''healthyOnly'', ''true'')] None (instanceListData (se_api env)) [] (c, w))"

definition serviceListData :: "napi \<Rightarrow> json \<Rightarrow> string list option" where
  "serviceListData a v =
     Option.bind (unmarshalValue a [(''count'', FInt), (''pageNumber'', FInt), (''pageSize'', FInt)] v)
       (\<lambda>kvs. fieldList (\<lambda>x. case x of JStr s \<Rightarrow> Some s | JNull \<Rightarrow> Some '''' | _ \<Rightarrow> None) kvs ''services'')"

definition sdkListServices :: "'w sdkEnv \<Rightarrow> int \<Rightarrow> int \<Rightarrow> ('w, string list) sdk" where
  "sdkListServices env pageNo pageSize =
     guarded usable
       (doInto env ''GET'' ''/v2/ns/service/list''
          [(''pageNo'', strconvItoa (if pageNo \<le> 0 then 1 else pageNo)), (''pageSize'', strconvItoa (if pageSize \<le> 0 then 10 else pageSize))] None
          (serviceListData (se_api env)) [])"

definition Ping :: "'w sdkEnv \<Rightarrow> ('w, unit) sdk" where
  "Ping env =
     guarded usable
       (kbind (sendAt env ''GET'' ''/nacos'' ''/actuator/health'' [] None)
          (\<lambda>raw (c, w).
             (case (if trimSpace raw = '''' then Some [] else unmarshalStruct (se_api env) [(''status'', FStr)] raw) of
                None \<Rightarrow> Inl (ErrHealthDecode (summarizeBody raw))
              | Some kvs \<Rightarrow>
                  let st = fieldStr kvs ''status''
                  in if st \<noteq> '''' \<and> \<not> equalFold st ''UP'' then Inl (ErrHealthStatus (c_base c) st) else Inr (), (c, w))))"

subsection \<open>The loop\<close>

record runState =
  r_backoff :: int
  r_registered :: bool
  r_failures :: nat

definition nextBackoff :: "sdkClient \<Rightarrow> int \<Rightarrow> int" where
  "nextBackoff c d = (let n = i64 (d * 2) in if n > c_registerBackoffMax c then c_registerBackoffMax c else n)"

definition sleepCtx :: "'w sdkEnv \<Rightarrow> int \<Rightarrow> 'w \<Rightarrow> bool \<times> 'w" where
  "sleepCtx env d w = (if se_cancelled env w then (False, w) else if d \<le> 0 then (True, w) else se_sleep env d w)"

datatype 'w runOut = Returned "'w cst" | Next runState "'w cst"

definition beatPhase :: "'w sdkEnv \<Rightarrow> runState \<Rightarrow> 'w cst \<Rightarrow> 'w runOut" where
  "beatPhase env rs s =
     (case s of (c, w) \<Rightarrow>
        case sleepCtx env (heartbeatInterval c) w of
          (False, w') \<Rightarrow> Returned (c, w')
        | (True, w') \<Rightarrow>
            (case sdkBeat env (c, w') of
               (Inr _, s') \<Rightarrow> Next (rs\<lparr>r_failures := 0\<rparr>) s'
             | (Inl _, (c'', w'')) \<Rightarrow>
                 if se_cancelled env w'' then Returned (c'', w'')
                 else let n = r_failures rs + 1
                      in Next (if n \<ge> beatFailureThreshold then rs\<lparr>r_registered := False, r_failures := 0\<rparr> else rs\<lparr>r_failures := n\<rparr>) (c'', w'')))"

definition runIter :: "'w sdkEnv \<Rightarrow> runState \<Rightarrow> 'w cst \<Rightarrow> 'w runOut" where
  "runIter env rs s =
     (if se_cancelled env (snd s) then Returned s
      else if r_registered rs then beatPhase env rs s
      else case sdkRegister env s of
             (Inr _, (c', w')) \<Rightarrow> beatPhase env \<lparr>r_backoff = c_registerBackoffInitial c', r_registered = True, r_failures = 0\<rparr> (c', w')
           | (Inl _, (c', w')) \<Rightarrow>
               if se_cancelled env w' then Returned (c', w')
               else (case sleepCtx env (r_backoff rs) w' of
                       (False, w'') \<Rightarrow> Returned (c', w'')
                     | (True, w'') \<Rightarrow> Next (rs\<lparr>r_backoff := nextBackoff c' (r_backoff rs)\<rparr>) (c', w'')))"

definition runInit :: "sdkClient \<Rightarrow> runState" where
  "runInit c = \<lparr>r_backoff = c_registerBackoffInitial c, r_registered = False, r_failures = 0\<rparr>"

partial_function (option) runLoop :: "'w sdkEnv \<Rightarrow> runState \<Rightarrow> 'w cst \<Rightarrow> 'w cst option" where
  "runLoop env rs s = (case runIter env rs s of Returned s' \<Rightarrow> Some s' | Next rs' s' \<Rightarrow> runLoop env rs' s')"

definition run :: "'w sdkEnv \<Rightarrow> 'w cst \<Rightarrow> 'w cst option" where
  "run env s = runLoop env (runInit (fst s)) s"

text \<open>Starting: whether a goroutine runs the loop now.\<close>

definition Start :: "sdkClient option \<Rightarrow> bool \<times> sdkClient option" where
  "Start p =
     (case p of
        None \<Rightarrow> (False, None)
      | Some c \<Rightarrow> if ready c \<noteq> None \<or> c_started c then (False, Some c) else (True, Some (c\<lparr>c_started := True, c_stopped := False\<rparr>)))"

text \<open>Stopping: \<open>over\<close> tells whether the context of the caller is done, \<open>wait\<close> is the wait for the loop or that context.\<close>

definition Stop :: "'w sdkEnv \<Rightarrow> ('w \<Rightarrow> bool) \<Rightarrow> ('w \<Rightarrow> 'w) \<Rightarrow> ('w, unit) sdk" where
  "Stop env over wait s =
     (case s of (c, w) \<Rightarrow>
        if c_stopped c then (Inr (), (c, w))
        else let w1 = (if c_started c then wait w else w);
                 c1 = c\<lparr>c_stopped := True, c_started := False\<rparr>
             in if over w1 then (Inr (), (c1, w1))
                else if ready c1 \<noteq> None then (Inr (), (c1, w1))
                else case sdkDeregister env (c1, w1) of
                       (Inl e, (c2, w2)) \<Rightarrow> (if over w2 then Inr () else Inl e, (c2, w2))
                     | (Inr _, s2) \<Rightarrow> (Inr (), s2))"

subsection \<open>Refresh times\<close>

text \<open>A token is trusted for less than its advertised life, and for at least nine tenths of it.\<close>

lemma refreshLifetime_bounds:
  assumes "second \<le> ttl"
  shows "9 * ttl \<le> 10 * refreshLifetime ttl" "refreshLifetime ttl < ttl" "ttl - refreshLifetime ttl \<le> 60 * second"
proof -
  have t: "1000000000 \<le> ttl" using assms by (simp add: second_def)
  then have q: "quotient ttl 10 = ttl div 10" "ttl div 10 > 0" by (simp_all add: quotient_def)
  have d: "\<not> ttl - (if ttl div 10 > 60 * second then 60 * second else ttl div 10) < 100 * millisecond"
  proof -
    have "10 * (ttl div 10) \<le> ttl" by presburger
    then show ?thesis using t by (auto simp: second_def millisecond_def)
  qed
  have r: "refreshLifetime ttl = ttl - (if ttl div 10 > 60 * second then 60 * second else ttl div 10)"
    using d q by (simp add: refreshLifetime_def Let_def)
  show "9 * ttl \<le> 10 * refreshLifetime ttl" "refreshLifetime ttl < ttl" "ttl - refreshLifetime ttl \<le> 60 * second"
    using q t unfolding r by (auto simp: second_def)
qed

lemma refreshLifetime_positive: "0 < refreshLifetime ttl \<Longrightarrow> refreshLifetime ttl \<le> ttl"
  by (auto simp: refreshLifetime_def quotient_def Let_def second_def millisecond_def split: if_splits)

subsection \<open>What every call keeps\<close>

text \<open>A relation between client and outside before and after a call.  It holds of every call once it is reflexive and transitive
  and holds of one request and of the four ways a call changes the client.\<close>

locale sdk_frame =
  fixes env :: "'w sdkEnv" and R :: "'w cst \<Rightarrow> 'w cst \<Rightarrow> bool"
  assumes R_refl: "R s s"
    and R_trans: "R s t \<Longrightarrow> R t u \<Longrightarrow> R s u"
    and R_do: "R (c, w) (c, snd (se_do env q w))"
    and R_token: "R (c, w) (c\<lparr>c_token := tok, c_tokenExpiry := e\<rparr>, w)"
    and R_interval: "R (c, w) (adoptInterval ms c, w)"
    and R_warn: "R (c, w) (warnContainerBridgeOnce b ip c, w)"
begin

definition keeps :: "('w, 'a) sdk \<Rightarrow> bool" where
  "keeps m \<longleftrightarrow> (\<forall>s. R s (snd (m s)))"

lemma keeps_kbind: "keeps m \<Longrightarrow> (\<And>a. keeps (k a)) \<Longrightarrow> keeps (kbind m k)"
  unfolding keeps_def kbind_def by (auto split: prod.split sum.split) (metis R_trans snd_conv)+

lemma keeps_guarded: "keeps m \<Longrightarrow> keeps (guarded check m)"
  by (auto simp: keeps_def guarded_def R_refl split: option.split)

lemma keeps_retrying: "keeps m \<Longrightarrow> keeps (retrying m)"
proof -
  assume m: "keeps m"
  have "R s (snd (retrying m s))" for s
  proof (cases "m s")
    case (fields r c w)
    have s: "R s (c, w)" using m fields by (metis keeps_def snd_conv)
    have i: "R (c, w) (invalidateToken c, w)" using R_token [where tok = "''''" and e = None] R_refl by (auto simp: invalidateToken_def)
    have "R s (snd (m (invalidateToken c, w)))" using m by (meson R_trans i keeps_def s)
    then show ?thesis using s fields by (auto simp: retrying_def split: sum.split)
  qed
  then show ?thesis by (simp add: keeps_def)
qed

lemma keeps_result: "keeps (\<lambda>s. (f s, s))"
  by (simp add: keeps_def R_refl)

lemma login_keeps: "R (c, w) (c, snd (sdkLogin env c w))"
  using R_do [of c w "loginReq c"] R_refl
  by (auto simp: sdkLogin_def Let_def split: option.split prod.split httpResult.split)

lemma keeps_ensureToken: "keeps (ensureToken env)"
proof -
  have "R (c, w) (snd (ensureToken env (c, w)))" for c w
    using login_keeps [of c w] R_refl
    by (auto simp: ensureToken_def split: prod.split sum.split) (metis R_token R_trans snd_conv)+
  then show ?thesis by (simp add: keeps_def)
qed

lemma keeps_exchange: "keeps (exchange env m u q)"
proof -
  have "R (c, w) (snd (exchange env m u q (c, w)))" for c w
    using R_do [of c w q] by (auto simp: exchange_def Let_def split: prod.split httpResult.split)
  then show ?thesis by (simp add: keeps_def)
qed

lemma keeps_sendAt: "keeps (sendAt env m pre path qs body)"
  using keeps_kbind [OF keeps_ensureToken keeps_exchange]
  by (auto simp: keeps_def sendAt_def Let_def R_refl split: option.split)

lemma keeps_doAt: "keeps (doAt env m pre path qs body)"
  unfolding doAt_def by (intro keeps_kbind keeps_retrying keeps_sendAt keeps_result)

lemma keeps_call: "keeps (call env m path qs body)"
  unfolding call_def by (intro keeps_kbind keeps_doAt keeps_result)

lemma keeps_doInto: "keeps (doInto env m path qs body dec zero)"
  unfolding doInto_def by (intro keeps_kbind keeps_doAt keeps_result)

lemma keeps_register: "keeps (sdkRegister env)"
proof -
  have "R s (snd (call env m path qs (f (fst s)) (warnContainerBridgeOnce (se_netns env) (ip (fst s)) (fst s), snd s)))" for s m path qs f ip
    using R_warn keeps_call by (metis R_trans keeps_def prod.collapse)
  then show ?thesis unfolding sdkRegister_def by (intro keeps_guarded) (auto simp: keeps_def case_prod_beta')
qed

lemma keeps_beat: "keeps (sdkBeat env)"
proof -
  have "keeps (kbind (doInto env m path qs body dec zero) (\<lambda>ms (c, w). (Inr (), (adoptInterval ms c, w))))" for m path qs body dec zero
    by (intro keeps_kbind keeps_doInto) (auto simp: keeps_def R_interval)
  then show ?thesis unfolding sdkBeat_def by (intro keeps_guarded) (auto simp: keeps_def)
qed

end

subsection \<open>The loop never gives up and never storms\<close>

text \<open>What no call changes: the configuration, the address of the registry, the lifecycle flags and the retry ladder; an adopted
  heartbeat interval is at least the floor.\<close>

definition sameSelf :: "'w cst \<Rightarrow> 'w cst \<Rightarrow> bool" where
  "sameSelf s t \<longleftrightarrow>
     c_cfg (fst t) = c_cfg (fst s) \<and> c_base (fst t) = c_base (fst s) \<and> c_started (fst t) = c_started (fst s) \<and> c_stopped (fst t) = c_stopped (fst s) \<and>
     c_registerBackoffInitial (fst t) = c_registerBackoffInitial (fst s) \<and> c_registerBackoffMax (fst t) = c_registerBackoffMax (fst s) \<and>
     (c_beatInterval (fst t) = c_beatInterval (fst s) \<or> minAdvertisedBeatInterval \<le> c_beatInterval (fst t))"

interpretation self: sdk_frame env sameSelf for env :: "'w sdkEnv"
  by unfold_locales (auto simp: sameSelf_def adoptInterval_def warnContainerBridgeOnce_def Let_def)

inductive runReach :: "'w sdkEnv \<Rightarrow> sdkConfig \<Rightarrow> runState \<Rightarrow> 'w cst \<Rightarrow> bool" for env cfg where
  start: "sameSelf (NewClient cfg, w0) (c, w) \<Longrightarrow> runReach env cfg (runInit c) (c, w)"
| iter: "runReach env cfg rs s \<Longrightarrow> runIter env rs s = Next rs' s' \<Longrightarrow> runReach env cfg rs' s'"


lemma beatPhase_Next:
  assumes "beatPhase env rs (c, w) = Next rs' s'"
  obtains w' r where "sleepCtx env (heartbeatInterval c) w = (True, w')" "sdkBeat env (c, w') = (r, s')"
    "rs' = (if \<not> isl r then rs\<lparr>r_failures := 0\<rparr>
      else if r_failures rs + 1 \<ge> beatFailureThreshold then rs\<lparr>r_registered := False, r_failures := 0\<rparr> else rs\<lparr>r_failures := r_failures rs + 1\<rparr>)"
  using assms by (auto simp: beatPhase_def Let_def split: prod.splits bool.splits sum.splits if_splits)

text \<open>One iteration that goes on: a refused registration and its pause, or a pause and a heartbeat, after a registration if one was due.\<close>

lemma runIter_Next:
  assumes "runIter env rs (c, w) = Next rs' s'"
  obtains
    (refused) e c' w' w'' where "\<not> r_registered rs" "sdkRegister env (c, w) = (Inl e, (c', w'))" "sleepCtx env (r_backoff rs) w' = (True, w'')"
      "rs' = rs\<lparr>r_backoff := nextBackoff c' (r_backoff rs)\<rparr>" "s' = (c', w'')"
  | (registered) c' w' where "\<not> r_registered rs" "sdkRegister env (c, w) = (Inr (), (c', w'))"
      "beatPhase env \<lparr>r_backoff = c_registerBackoffInitial c', r_registered = True, r_failures = 0\<rparr> (c', w') = Next rs' s'"
  | (beating) "r_registered rs" "beatPhase env rs (c, w) = Next rs' s'"
  using assms by (auto simp: runIter_def split: if_splits prod.splits sum.splits bool.splits)

lemma self_register: "sdkRegister env s = (r, s') \<Longrightarrow> sameSelf s s'"
  using self.keeps_register unfolding self.keeps_def by (metis snd_conv)

lemma self_beat: "sdkBeat env s = (r, s') \<Longrightarrow> sameSelf s s'"
  using self.keeps_beat unfolding self.keeps_def by (metis snd_conv)

lemma self_world: "sameSelf (c, w) (c, w')"
  by (simp add: sameSelf_def)

lemma beatPhase_self: "beatPhase env rs (c, w) = Next rs' s' \<Longrightarrow> sameSelf (c, w) s'"
  by (erule beatPhase_Next) (blast intro: self.R_trans self_world self_beat)

lemma runIter_self: "runIter env rs (c, w) = Next rs' s' \<Longrightarrow> sameSelf (c, w) s'"
  by (erule runIter_Next) (blast intro: self.R_trans self_world self_register beatPhase_self)+

lemma runReach_self: "runReach env cfg rs s \<Longrightarrow> sameSelf (NewClient cfg, undefined) s"
proof (induction rule: runReach.induct)
  case (start w0 c w)
  then show ?case by (simp add: sameSelf_def)
next
  case (iter rs s rs' s')
  then show ?case using runIter_self [of env rs "fst s" "snd s"] by (metis prod.collapse self.R_trans)
qed

lemma heartbeat_floor:
  assumes "sameSelf (NewClient cfg, w0) (c, w)" "iv = sc_HeartbeatInterval (c_cfg (NewClient cfg))"
  shows "min minAdvertisedBeatInterval iv \<le> heartbeatInterval c" "0 < iv"
proof -
  have iv: "0 < iv" by (simp add: assms(2) NewClient_def Let_def DefaultHeartbeatInterval_def second_def)
  then show "0 < iv" .
  have "sc_HeartbeatInterval (c_cfg c) = iv" "c_beatInterval c = 0 \<or> minAdvertisedBeatInterval \<le> c_beatInterval c"
    using assms by (auto simp: sameSelf_def NewClient_def Let_def)
  then show "min minAdvertisedBeatInterval iv \<le> heartbeatInterval c"
    using iv by (auto simp: heartbeatInterval_def minAdvertisedBeatInterval_def millisecond_def)
qed

definition runInv :: "runState \<Rightarrow> bool" where
  "runInv rs \<longleftrightarrow> r_failures rs < beatFailureThreshold \<and> (\<not> r_registered rs \<longrightarrow> r_failures rs = 0) \<and>
     second \<le> r_backoff rs \<and> r_backoff rs \<le> 30 * second \<and> (r_registered rs \<longrightarrow> r_backoff rs = second)"

lemma self_ladder: "sameSelf (NewClient cfg, w0) (c, w) \<Longrightarrow> c_registerBackoffInitial c = second \<and> c_registerBackoffMax c = 30 * second"
  by (simp add: sameSelf_def NewClient_def Let_def)

lemma beatPhase_inv: "beatPhase env rs (c, w) = Next rs' s' \<Longrightarrow> runInv rs \<Longrightarrow> r_registered rs \<Longrightarrow> runInv rs'"
  by (erule beatPhase_Next) (auto simp: runInv_def beatFailureThreshold_def second_def)

lemma nextBackoff_range:
  assumes "c_registerBackoffMax c = 30 * second" "second \<le> d" "d \<le> 30 * second"
  shows "second \<le> nextBackoff c d" "nextBackoff c d \<le> 30 * second" "nextBackoff c d = min (30 * second) (2 * d)"
proof -
  have "i64 (d * 2) = d * 2" using assms by (simp add: i64_def second_def)
  then show "second \<le> nextBackoff c d" "nextBackoff c d \<le> 30 * second" "nextBackoff c d = min (30 * second) (2 * d)"
    using assms by (auto simp: nextBackoff_def second_def)
qed

lemma runReach_inv: "runReach env cfg rs s \<Longrightarrow> runInv rs"
proof (induction rule: runReach.induct)
  case (start w0 c w)
  then show ?case using self_ladder by (fastforce simp: runInv_def runInit_def beatFailureThreshold_def second_def)
next
  case (iter rs s rs' s')
  obtain c w where s: "s = (c, w)" by (cases s)
  have me: "sameSelf (NewClient cfg, undefined) (c, w)" using runReach_self [OF iter.hyps(1)] s by simp
  from iter.hyps(2)[unfolded s] show ?case
  proof (cases rule: runIter_Next)
    case (refused e c' w' w'')
    have "c_registerBackoffMax c' = 30 * second" using self_ladder [OF self.R_trans [OF me self_register [OF refused(2)]]] by simp
    from nextBackoff_range [OF this] show ?thesis using iter.IH refused by (auto simp: runInv_def)
  next
    case (registered c' w')
    have "c_registerBackoffInitial c' = second" using self_ladder [OF self.R_trans [OF me self_register [OF registered(2)]]] by simp
    then show ?thesis using beatPhase_inv [OF registered(3)] by (auto simp: runInv_def beatFailureThreshold_def second_def)
  next
    case beating
    then show ?thesis using iter.IH by (intro beatPhase_inv [OF beating(2)])
  qed
qed

text \<open>C13. The register-and-heartbeat loop, at every iteration it ever reaches, whatever the registry, the network and the clock do:
  it has counted fewer than three failed heartbeats in a row (the third sends it back to registering), it counts none while
  unregistered, the pause between registrations lies between one and thirty seconds - a second right after a success - and the
  pause before a heartbeat is never below the floor of fifty milliseconds or the configured interval, whichever is smaller.\<close>

theorem lifecycle_invariant:
  assumes "runReach env cfg rs (c, w)"
  shows "r_failures rs < 3 \<and> (\<not> r_registered rs \<longrightarrow> r_failures rs = 0) \<and> second \<le> r_backoff rs \<and> r_backoff rs \<le> 30 * second \<and>
    (r_registered rs \<longrightarrow> r_backoff rs = second) \<and>
    min (50 * millisecond) (sc_HeartbeatInterval (c_cfg (NewClient cfg))) \<le> heartbeatInterval c \<and> 0 < heartbeatInterval c"
  using runReach_inv [OF assms] heartbeat_floor [OF runReach_self [OF assms] refl]
  by (auto simp: runInv_def beatFailureThreshold_def minAdvertisedBeatInterval_def millisecond_def)

subsection \<open>The loop ends\<close>

lemma runLoop_unfold: "runLoop env rs s = (case runIter env rs s of Returned s' \<Rightarrow> Some s' | Next rs' s' \<Rightarrow> runLoop env rs' s')"
  by (rule runLoop.simps)

definition laterThan :: "'w sdkEnv \<Rightarrow> 'w cst \<Rightarrow> 'w cst \<Rightarrow> bool" where
  "laterThan env s t \<longleftrightarrow> se_now env (snd s) \<le> se_now env (snd t)"

definition clockRuns :: "'w sdkEnv \<Rightarrow> bool" where
  "clockRuns env \<longleftrightarrow> (\<forall>q w. se_now env w \<le> se_now env (snd (se_do env q w))) \<and>
     (\<forall>d w. fst (se_sleep env d w) \<longrightarrow> se_now env w + d \<le> se_now env (snd (se_sleep env d w)))"

lemma clock_frame: "clockRuns env \<Longrightarrow> sdk_frame env (laterThan env)"
  by unfold_locales (auto simp: laterThan_def clockRuns_def)

lemma clock_calls:
  assumes "clockRuns env"
  shows "sdkRegister env s = (r, s') \<Longrightarrow> laterThan env s s'" "sdkBeat env s = (r, s') \<Longrightarrow> laterThan env s s'"
  using sdk_frame.keeps_register [OF clock_frame [OF assms]] sdk_frame.keeps_beat [OF clock_frame [OF assms]]
  unfolding sdk_frame.keeps_def [OF clock_frame [OF assms]] by (metis snd_conv)+

lemma sleep_advances: "clockRuns env \<Longrightarrow> sleepCtx env d w = (True, w') \<Longrightarrow> 0 < d \<Longrightarrow> se_now env w + d \<le> se_now env w'"
  unfolding clockRuns_def sleepCtx_def by (metis fst_conv snd_conv not_le)

lemma beatPhase_advances:
  assumes "clockRuns env" "beatPhase env rs (c, w) = Next rs' s'" "0 < heartbeatInterval c"
  shows "se_now env w < se_now env (snd s')"
  using assms(2)
proof (rule beatPhase_Next)
  fix w' r
  assume "sleepCtx env (heartbeatInterval c) w = (True, w')" "sdkBeat env (c, w') = (r, s')"
  then show ?thesis using sleep_advances [OF assms(1)] clock_calls(2) [OF assms(1)] assms(3) by (fastforce simp: laterThan_def)
qed

lemma runIter_advances:
  assumes "clockRuns env" "sameSelf (NewClient cfg, w0) (c, w)" "0 < r_backoff rs" "runIter env rs (c, w) = Next rs' s'"
  shows "se_now env w < se_now env (snd s')"
proof -
  have beat: "0 < heartbeatInterval c'" if "sameSelf (NewClient cfg, w0) (c', w')" for c' w'
    using heartbeat_floor [OF that refl] by (auto simp: minAdvertisedBeatInterval_def millisecond_def)
  from assms(4) show ?thesis
  proof (cases rule: runIter_Next)
    case (refused e c' w' w'')
    then show ?thesis using sleep_advances [OF assms(1) refused(3) assms(3)] clock_calls(1) [OF assms(1) refused(2)] assms(3)
      by (simp add: laterThan_def)
  next
    case (registered c' w')
    have "0 < heartbeatInterval c'" using beat self.R_trans [OF assms(2) self_register [OF registered(2)]] by blast
    from beatPhase_advances [OF assms(1) registered(3) this] show ?thesis
      using clock_calls(1) [OF assms(1) registered(2)] by (simp add: laterThan_def)
  next
    case beating
    then show ?thesis using beatPhase_advances [OF assms(1)] beat [OF assms(2)] by blast
  qed
qed

lemma runLoop_ends:
  assumes "clockRuns env" "\<And>w. T \<le> se_now env w \<Longrightarrow> se_cancelled env w" "runReach env cfg rs s"
  shows "\<exists>s'. runLoop env rs s = Some s'"
  using assms(3)
proof (induction "nat (T - se_now env (snd s))" arbitrary: rs s rule: less_induct)
  case less
  obtain c w where s: "s = (c, w)" by (cases s)
  show ?case
  proof (cases "runIter env rs s")
    case (Returned s')
    then show ?thesis by (subst runLoop_unfold) simp
  next
    case (Next rs' s')
    have "0 < r_backoff rs" using runReach_inv [OF less.prems] by (simp add: runInv_def second_def)
    moreover have "sameSelf (NewClient cfg, undefined) (c, w)" using runReach_self [OF less.prems] s by simp
    ultimately have "se_now env w < se_now env (snd s')" using runIter_advances [OF assms(1)] Next s by blast
    moreover have "se_now env w < T" using assms(2) [of w] Next s by (force simp: runIter_def)
    ultimately have "nat (T - se_now env (snd s')) < nat (T - se_now env (snd s))" using s by simp
    then obtain s'' where "runLoop env rs' s' = Some s''" using less.hyps runReach.iter [OF less.prems Next] by blast
    then show ?thesis using Next by (subst runLoop_unfold) simp
  qed
qed

text \<open>C12. Stopping the background loop works: when its context is cancelled at some time - earlier or later, whatever the registry
  answers until then - the loop returns, so that \<^verbatim>\<open>Stop\<close> does not wait for it forever.  Needed of the outside is only that the
  clock does not run backwards and that a timer does not fire early.\<close>

theorem lifecycle_terminates:
  assumes "clockRuns env" "\<And>w. T \<le> se_now env w \<Longrightarrow> se_cancelled env w"
  shows "\<exists>s'. run env (NewClient cfg, w) = Some s'"
proof -
  have "runReach env cfg (runInit (NewClient cfg)) (NewClient cfg, w)" by (rule runReach.start [OF self_world])
  from runLoop_ends [OF assms this] show ?thesis by (simp add: run_def)
qed

subsection \<open>The requests a client sends\<close>

text \<open>The outside with a record of every request: what was sent, what came back, when it was sent and when the answer was there.\<close>

type_synonym entry = "sdkReq \<times> httpResult \<times> int \<times> int"

definition traced :: "'w sdkEnv \<Rightarrow> ('w \<times> entry list) sdkEnv" where
  "traced env =
     \<lparr>se_newRequest = se_newRequest env,
      se_do = (\<lambda>q (w, tr). case se_do env q w of (r, w') \<Rightarrow> (r, (w', tr @ [(q, r, se_now env w, se_now env w')]))),
      se_now = (\<lambda>(w, _). se_now env w), se_cancelled = (\<lambda>(w, _). se_cancelled env w),
      se_sleep = (\<lambda>d (w, tr). case se_sleep env d w of (b, w') \<Rightarrow> (b, (w', tr))), se_netns = se_netns env, se_api = se_api env\<rparr>"

lemma traced_simps [simp]:
  "se_newRequest (traced env) = se_newRequest env" "se_now (traced env) (w, tr) = se_now env w" "se_api (traced env) = se_api env"
  "se_do (traced env) q (w, tr) = (fst (se_do env q w), (snd (se_do env q w), tr @ [(q, fst (se_do env q w), se_now env w, se_now env (snd (se_do env q w)))]))"
  by (simp_all add: traced_def split: prod.split)

text \<open>A token is fresh at a time when an earlier login answered with it and its refresh time has not come; right after that
  answer it is fresh whatever life the answer gives it.\<close>

definition fresh :: "'w sdkEnv \<Rightarrow> entry list \<Rightarrow> string \<Rightarrow> int \<Rightarrow> bool" where
  "fresh env tr tok t \<longleftrightarrow>
     (\<exists>q st body t1 t0 u ttl. (q, HttpResponse st body, t1, t0) \<in> set tr \<and> q_ContentType q = ''application/x-www-form-urlencoded'' \<and>
        loginAnswer (se_api env) u st body = Inr (tok, ttl) \<and> (t = t0 \<or> t < t0 + refreshLifetime ttl))"

definition entryOK :: "'w sdkEnv \<Rightarrow> entry list \<Rightarrow> entry \<Rightarrow> bool" where
  "entryOK env pre x \<longleftrightarrow> (case x of (q, _, t, _) \<Rightarrow> q_Authorization q = '''' \<or> (\<exists>tok. q_Authorization q = ''Bearer '' @ tok \<and> fresh env pre tok t))"

definition logOK :: "'w sdkEnv \<Rightarrow> entry list \<Rightarrow> bool" where
  "logOK env tr \<longleftrightarrow> (\<forall>i<length tr. entryOK env (take i tr) (tr ! i))"

lemma logOK_snoc: "logOK env (tr @ [x]) \<longleftrightarrow> logOK env tr \<and> entryOK env tr x"
  by (auto simp: logOK_def nth_append less_Suc_eq)

definition cacheOK :: "'w sdkEnv \<Rightarrow> sdkClient \<Rightarrow> entry list \<Rightarrow> bool" where
  "cacheOK env c tr \<longleftrightarrow>
     (\<forall>e t. c_token c \<noteq> '''' \<and> c_tokenExpiry c = Some e \<and> t < e \<longrightarrow> fresh env tr (c_token c) t)"

definition histOK :: "'w sdkEnv \<Rightarrow> sdkClient \<Rightarrow> entry list \<Rightarrow> bool" where
  "histOK env c tr \<longleftrightarrow> sc_Token (c_cfg c) = '''' \<and> cacheOK env c tr \<and> logOK env tr"

lemma fresh_mono: "fresh env tr tok t \<Longrightarrow> set tr \<subseteq> set tr' \<Longrightarrow> fresh env tr' tok t"
  unfolding fresh_def by blast

lemma cacheOK_snoc: "cacheOK env c tr \<Longrightarrow> cacheOK env c (tr @ xs)"
  using fresh_mono [of env tr _ _ "tr @ xs"] by (auto simp: cacheOK_def)

lemma loginReq_simps [simp]: "q_Authorization (loginReq c) = ''''" "q_ContentType (loginReq c) = ''application/x-www-form-urlencoded''"
  by (simp_all add: loginReq_def)

text \<open>A login adds at most its own request to the record.\<close>

lemma login_traced:
  assumes "sdkLogin (traced env) c (w, tr) = (r, (w', tr'))"
  shows "\<exists>new. tr' = tr @ new \<and> length new \<le> 1 \<and> (\<forall>x\<in>set new. fst x = loginReq c)"
    "r = Inr (tok, ttl) \<Longrightarrow> \<exists>st body u t1. tr' = tr @ [(loginReq c, HttpResponse st body, t1, se_now env w')] \<and> loginAnswer (se_api env) u st body = Inr (tok, ttl)"
  using assms by (auto simp: sdkLogin_def Let_def split: option.splits prod.splits httpResult.splits)

lemma ensureToken_cases:
  assumes "sc_Token (c_cfg c) = ''''" "ensureToken env (c, w) = (r, (c', w'))"
  obtains (none) "r = Inr ''''" "c' = c" "w' = w"
  | (cached) e where "r = Inr (c_token c)" "c' = c" "w' = w" "c_token c \<noteq> ''''" "c_tokenExpiry c = Some e" "se_now env w < e"
  | (failed) e where "r = Inl e" "c' = c" "sdkLogin env c w = (Inl e, w')"
  | (login) tk ttl where "r = Inr tk" "c' = c\<lparr>c_token := tk, c_tokenExpiry := Some (se_now env w' + refreshLifetime ttl)\<rparr>"
      "sdkLogin env c w = (Inr (tk, ttl), w')"
proof (cases "sc_Username (c_cfg c) = '''' \<and> sc_Password (c_cfg c) = ''''")
  case True
  then show ?thesis using none assms by (simp add: ensureToken_def)
next
  case F: False
  show ?thesis
  proof (cases "c_token c \<noteq> '''' \<and> \<not> tokenExpiredLocked c (se_now env w)")
    case True
    then have "ensureToken env (c, w) = (Inr (c_token c), (c, w))" using F assms(1) by (auto simp: ensureToken_def)
    then show ?thesis using cached True assms(2) by (auto simp: tokenExpiredLocked_def split: option.splits)
  next
    case False
    have E: "ensureToken env (c, w) = (case sdkLogin env c w of (Inl e, w') \<Rightarrow> (Inl e, (c, w'))
        | (Inr (token, ttl), w') \<Rightarrow> (Inr token, (c\<lparr>c_token := token, c_tokenExpiry := Some (se_now env w' + refreshLifetime ttl)\<rparr>, w')))"
      using False F assms(1) by (simp only: ensureToken_def prod.case if_False if_True simp_thms)
    obtain x v where l: "sdkLogin env c w = (x, v)" by (cases "sdkLogin env c w")
    show ?thesis
    proof (cases x)
      case (Inl e)
      then show ?thesis using failed E l assms(2) by simp
    next
      case (Inr y)
      obtain tk ttl where y: "y = (tk, ttl)" by (cases y)
      have "(r, (c', w')) = (Inr tk, (c\<lparr>c_token := tk, c_tokenExpiry := Some (se_now env v + refreshLifetime ttl)\<rparr>, v))"
        using E l Inr y unfolding assms(2) by simp
      then have "r = Inr tk" "c' = c\<lparr>c_token := tk, c_tokenExpiry := Some (se_now env v + refreshLifetime ttl)\<rparr>" "w' = v" by (simp_all only: prod.inject)
      then show ?thesis using login l Inr y by blast
    qed
  qed
qed

lemma ensure_traced:
  assumes "histOK env c tr" "ensureToken (traced env) (c, (w, tr)) = (r, (c', (w', tr')))"
  shows "histOK env c' tr'" "r = Inr tok \<Longrightarrow> tok \<noteq> '''' \<Longrightarrow> fresh env tr' tok (se_now env w')"
proof -
  note h = assms(1)[unfolded histOK_def]
  have "sc_Token (c_cfg c) = ''''" using h by simp
  from this assms(2) have "histOK env c' tr' \<and> (\<forall>tok. r = Inr tok \<longrightarrow> tok \<noteq> '''' \<longrightarrow> fresh env tr' tok (se_now env w'))"
  proof (cases rule: ensureToken_cases)
    case (failed e)
    obtain new where n: "tr' = tr @ new" "length new \<le> 1" "\<forall>x\<in>set new. fst x = loginReq c" using login_traced(1) [OF failed(3)] by blast
    then have "logOK env tr'" using h by (cases new) (auto simp: logOK_snoc entryOK_def)
    then show ?thesis using h n failed cacheOK_snoc [of env c tr new] by (auto simp: histOK_def)
  next
    case (login tk ttl)
    obtain st body u t1 where n: "tr' = tr @ [(loginReq c, HttpResponse st body, t1, se_now env w')]"
        "loginAnswer (se_api env) u st body = Inr (tk, ttl)" using login_traced(2) [OF login(3) refl] by blast
    have f: "fresh env tr' tk t" if "t = se_now env w' \<or> t < se_now env w' + refreshLifetime ttl" for t
      unfolding fresh_def using n that by (intro exI [of _ "loginReq c"] exI [of _ st] exI [of _ body] exI [of _ t1] exI [of _ "se_now env w'"]
        exI [of _ u] exI [of _ ttl]) auto
    have "logOK env tr'" using h n by (simp add: logOK_snoc entryOK_def)
    moreover have "cacheOK env c' tr'" using f login(2) by (simp add: cacheOK_def)
    ultimately show ?thesis using h n login f by (simp add: histOK_def)
  qed (use h in \<open>auto simp: histOK_def cacheOK_def\<close>)
  then show "histOK env c' tr'" "r = Inr tok \<Longrightarrow> tok \<noteq> '''' \<Longrightarrow> fresh env tr' tok (se_now env w')" by blast+
qed

lemma ensure_requests:
  assumes "ensureToken (traced env) (c, (w, tr)) = (r, (c', (w', tr')))"
  shows "\<exists>new. tr' = tr @ new \<and> length new \<le> 1 \<and> (\<forall>x\<in>set new. fst x = loginReq c)"
proof (cases "sc_Token (c_cfg c) = ''''")
  case True
  from this assms show ?thesis by (cases rule: ensureToken_cases) (auto dest: login_traced(1))
qed (use assms in \<open>auto simp: ensureToken_def\<close>)

lemma exchange_traced:
  assumes "exchange (traced env) m u q (c, (w, tr)) = (r, (c', (w', tr')))"
  obtains res t where "c' = c" "tr' = tr @ [(q, res, se_now env w, t)]" "\<And>mm uu st b. r = Inl (StatusError mm uu st b) \<Longrightarrow> \<exists>body. res = HttpResponse st body"
  using assms by (auto simp: exchange_def Let_def split: prod.splits httpResult.splits if_splits)

lemma apiReqOf_simps [simp]:
  "q_ContentType (apiReqOf m u b tok) \<noteq> ''application/x-www-form-urlencoded''"
  "q_Authorization (apiReqOf m u b tok) = (if tok = '''' then '''' else ''Bearer '' @ tok)"
  by (simp_all add: apiReqOf_def)

definition isLoginEntry :: "entry \<Rightarrow> bool" where
  "isLoginEntry x \<longleftrightarrow> q_ContentType (fst x) = ''application/x-www-form-urlencoded''"

definition rejected :: "entry \<Rightarrow> bool" where
  "rejected x = (case fst (snd x) of HttpResponse st _ \<Rightarrow> st = 401 \<or> st = 403 | _ \<Rightarrow> False)"

lemma ensure_no_rejection: "ensureToken env s = (Inl e, s') \<Longrightarrow> \<not> isAuthRejection e"
  by (cases s) (auto simp: ensureToken_def sdkLogin_def loginAnswer_def isAuthRejection_def Let_def
      split: if_splits prod.splits sum.splits option.splits httpResult.splits)

text \<open>One send: a login if one is due, then the request with the token.\<close>

lemma sendAt_cases:
  assumes "sendAt env m pre path qs body (c, w) = (r, (c', w'))"
  obtains (build) e where "r = Inl (ErrBuild m (apiURL c pre path qs) e)" "c' = c" "w' = w"
  | (refused) e where "ensureToken env (c, w) = (Inl e, (c', w'))" "r = Inl e"
  | (sent) tok c1 w1 where "ensureToken env (c, w) = (Inr tok, (c1, w1))"
      "exchange env m (apiURL c pre path qs) (apiReqOf m (apiURL c pre path qs) body tok) (c1, w1) = (r, (c', w'))"
proof (cases "se_newRequest env m (apiURL c pre path qs)")
  case (Some e)
  then have "(r, (c', w')) = (Inl (ErrBuild m (apiURL c pre path qs) e), (c, w))" unfolding assms [symmetric] by (simp add: sendAt_def Let_def)
  then show ?thesis by (intro build [of e]) simp_all
next
  case None
  obtain x c1 w1 where e: "ensureToken env (c, w) = (x, (c1, w1))" by (metis prod.collapse)
  show ?thesis
  proof (cases x)
    case (Inl e')
    then have "(r, (c', w')) = (Inl e', (c1, w1))" using None e unfolding assms [symmetric] by (simp add: sendAt_def Let_def kbind_def)
    then show ?thesis using e Inl by (intro refused [of e']) simp_all
  next
    case (Inr tok)
    then show ?thesis using None e assms by (intro sent [of tok c1 w1]) (simp_all add: sendAt_def Let_def kbind_def)
  qed
qed

lemma send_requests:
  assumes "sendAt (traced env) m pre path qs body (c, (w, tr)) = (r, (c', (w', tr')))"
  shows "\<exists>ls ss. tr' = tr @ ls @ ss \<and> length ls \<le> 1 \<and> length ss \<le> 1 \<and> list_all isLoginEntry ls \<and> list_all (Not \<circ> isLoginEntry) ss \<and>
      (\<forall>e. r = Inl e \<longrightarrow> isAuthRejection e \<longrightarrow> list_all rejected ss)"
  using assms
proof (cases rule: sendAt_cases)
  case (build e)
  then show ?thesis by (auto simp: isAuthRejection_def)
next
  case (refused e)
  obtain ls where "tr' = tr @ ls" "length ls \<le> 1" "list_all isLoginEntry ls"
    using ensure_requests [OF refused(1)] by (auto simp: list_all_iff isLoginEntry_def)
  then show ?thesis using refused(2) ensure_no_rejection [OF refused(1)] by (intro exI [of _ ls] exI [of _ "[]"]) simp
next
  case (sent tok c1 w1)
  obtain v1 tr1 where w1: "w1 = (v1, tr1)" by (cases w1)
  let ?q = "apiReqOf m (apiURL c pre path qs) body tok"
  obtain ls where ls: "tr1 = tr @ ls" "length ls \<le> 1" "list_all isLoginEntry ls"
    using ensure_requests [OF sent(1)[unfolded w1]] by (auto simp: list_all_iff isLoginEntry_def)
  obtain res t where y: "tr' = tr1 @ [(?q, res, se_now env v1, t)]"
      "\<And>mm uu st b. r = Inl (StatusError mm uu st b) \<Longrightarrow> \<exists>body. res = HttpResponse st body"
    using exchange_traced [OF sent(2)[unfolded w1]] by metis
  have "list_all rejected [(?q, res, se_now env v1, t)]" if "r = Inl e'" "isAuthRejection e'" for e'
    using that y(2) by (auto simp: isAuthRejection_def rejected_def split: sdkErr.splits)
  then show ?thesis using ls y(1)
    by (intro exI [of _ ls] exI [of _ "[(?q, res, se_now env v1, t)]"]) (auto simp: isLoginEntry_def)
qed

lemma send_hist:
  assumes "sendAt (traced env) m pre path qs body (c, (w, tr)) = (r, (c', (w', tr')))" "histOK env c tr"
  shows "histOK env c' tr'"
  using assms(1)
proof (cases rule: sendAt_cases)
  case (refused e)
  then show ?thesis using ensure_traced(1) [OF assms(2)] by simp
next
  case (sent tok c1 w1)
  obtain v1 tr1 where w1: "w1 = (v1, tr1)" by (cases w1)
  let ?q = "apiReqOf m (apiURL c pre path qs) body tok"
  obtain res t where y: "c' = c1" "tr' = tr1 @ [(?q, res, se_now env v1, t)]" using exchange_traced [OF sent(2)[unfolded w1]] by metis
  have h1: "histOK env c1 tr1" "tok \<noteq> [] \<Longrightarrow> fresh env tr1 tok (se_now env v1)"
    using ensure_traced [OF assms(2) sent(1)[unfolded w1]] by auto
  then have "entryOK env tr1 (?q, res, se_now env v1, t)" by (simp add: entryOK_def)
  then show ?thesis using h1(1) cacheOK_snoc y by (auto simp: histOK_def logOK_snoc)
qed (use assms(2) in simp)

lemma retry_cases:
  assumes "retrying m s = (r, s')"
  obtains (once) "m s = (r, s')" | (twice) e c w where "m s = (Inl e, (c, w))" "isAuthRejection e" "m (invalidateToken c, w) = (r, s')"
  using assms by (auto simp: retrying_def split: prod.splits sum.splits if_splits)

lemma invalidate_hist: "histOK env c tr \<Longrightarrow> histOK env (invalidateToken c) tr"
  by (auto simp: histOK_def cacheOK_def invalidateToken_def)

lemma doAt_outer:
  assumes "doAt env m pre path qs body s = (r, s')"
  obtains r' where "retrying (sendAt env m pre path qs body) s = (r', s')"
  using assms by (auto simp: doAt_def kbind_def split: prod.splits sum.splits)

text \<open>C38. The traffic of one call: whatever the registry answers, one call sends at most two requests and logs in at most twice,
  and the second request is sent only after the registry answered the first with 401 or 403 - a refused connection, an unreadable
  answer or any other status is never retried, and a wrong password never becomes a login storm.\<close>

theorem one_retry:
  assumes "doAt (traced env) m pre path qs body (c, (w, tr)) = (r, (c', (w', tr')))"
  shows "\<exists>new. tr' = tr @ new \<and> length (filter isLoginEntry new) \<le> 2 \<and> length (filter (Not \<circ> isLoginEntry) new) \<le> 2 \<and>
    (length (filter (Not \<circ> isLoginEntry) new) = 2 \<longrightarrow> rejected (hd (filter (Not \<circ> isLoginEntry) new)))"
proof -
  have parts: "filter isLoginEntry (ls @ ss) = ls" "filter (Not \<circ> isLoginEntry) (ls @ ss) = ss"
    if "list_all isLoginEntry ls" "list_all (Not \<circ> isLoginEntry) ss" for ls ss
    using that by (auto simp: list_all_iff filter_id_conv filter_empty_conv)
  obtain r' where "retrying (sendAt (traced env) m pre path qs body) (c, (w, tr)) = (r', (c', (w', tr')))"
    using doAt_outer [OF assms] by blast
  then show ?thesis
  proof (cases rule: retry_cases)
    case once
    then show ?thesis using send_requests [OF once] parts by fastforce
  next
    case (twice e c1 w1)
    obtain v1 tr1 where w1: "w1 = (v1, tr1)" by (cases w1)
    obtain ls ss where a: "tr1 = tr @ ls @ ss" "length ls \<le> 1" "length ss \<le> 1" "list_all isLoginEntry ls" "list_all (Not \<circ> isLoginEntry) ss"
        "list_all rejected ss" using send_requests [OF twice(1)[unfolded w1]] twice(2) by blast
    obtain ls' ss' where b: "tr' = tr1 @ ls' @ ss'" "length ls' \<le> 1" "length ss' \<le> 1" "list_all isLoginEntry ls'" "list_all (Not \<circ> isLoginEntry) ss'"
      using send_requests [OF twice(3)[unfolded w1]] by blast
    have f: "filter isLoginEntry ((ls @ ss) @ ls' @ ss') = ls @ ls'" "filter (Not \<circ> isLoginEntry) ((ls @ ss) @ ls' @ ss') = ss @ ss'"
      by (subst filter_append, simp only: parts [OF a(4,5)] parts [OF b(4,5)])+
    have "rejected (hd (ss @ ss'))" if "length (ss @ ss') = 2" using a(3,6) b(3) that by (cases ss) auto
    then show ?thesis using a b f by (intro exI [of _ "(ls @ ss) @ ls' @ ss'"]) simp
  qed
qed

text \<open>The life of a client: calls, and time passing between them.  Every method is made of these steps.\<close>

inductive sdkHist :: "'w sdkEnv \<Rightarrow> sdkConfig \<Rightarrow> sdkClient \<Rightarrow> 'w \<Rightarrow> entry list \<Rightarrow> bool" for env cfg where
  new: "sdkHist env cfg (NewClient cfg) w []"
| send: "sdkHist env cfg c w tr \<Longrightarrow> sendAt (traced env) m pre path qs body (c, (w, tr)) = (r, (c', (w', tr'))) \<Longrightarrow> sdkHist env cfg c' w' tr'"
| drop_token: "sdkHist env cfg c w tr \<Longrightarrow> sdkHist env cfg (invalidateToken c) w tr"
| adopt: "sdkHist env cfg c w tr \<Longrightarrow> sdkHist env cfg (adoptInterval ms c) w tr"
| warn: "sdkHist env cfg c w tr \<Longrightarrow> sdkHist env cfg (warnContainerBridgeOnce b ip c) w tr"
| tick: "sdkHist env cfg c w tr \<Longrightarrow> sdkHist env cfg c w' tr"

definition lives :: "'w sdkEnv \<Rightarrow> sdkConfig \<Rightarrow> ('w \<times> entry list) cst \<Rightarrow> bool" where
  "lives env cfg s \<longleftrightarrow> sdkHist env cfg (fst s) (fst (snd s)) (snd (snd s))"

lemma lives_send: "lives env cfg s \<Longrightarrow> lives env cfg (snd (sendAt (traced env) m pre path qs body s))"
  unfolding lives_def by (metis prod.collapse sdkHist.send)

lemma lives_retry:
  assumes "lives env cfg s" "\<And>s. lives env cfg s \<Longrightarrow> lives env cfg (snd (k s))"
  shows "lives env cfg (snd (retrying k s))"
proof -
  obtain r s' where r: "retrying k s = (r, s')" by (cases "retrying k s")
  then show ?thesis
  proof (cases rule: retry_cases)
    case (twice e c w)
    have "lives env cfg (invalidateToken c, w)" using assms twice(1) by (metis fst_conv lives_def sdkHist.drop_token snd_conv)
    then show ?thesis using assms(2) twice(3) r by fastforce
  qed (use assms r in fastforce)
qed

lemma lives_kbind: "lives env cfg (snd (m s)) \<Longrightarrow> (\<And>a s. lives env cfg s \<Longrightarrow> lives env cfg (snd (k a s))) \<Longrightarrow> lives env cfg (snd (kbind m k s))"
  by (cases "m s") (auto simp: kbind_def split: sum.split)

lemma lives_doAt: "lives env cfg s \<Longrightarrow> lives env cfg (snd (doAt (traced env) m pre path qs body s))"
  unfolding doAt_def by (intro lives_kbind lives_retry lives_send) simp_all

lemma lives_call: "lives env cfg s \<Longrightarrow> lives env cfg (snd (call (traced env) m path qs body s))"
  unfolding call_def by (intro lives_kbind lives_doAt) simp_all

lemma lives_doInto: "lives env cfg s \<Longrightarrow> lives env cfg (snd (doInto (traced env) m path qs body dec zero s))"
  unfolding doInto_def by (intro lives_kbind lives_doAt) simp_all

lemma lives_adopt: "lives env cfg (c, x) \<Longrightarrow> lives env cfg (adoptInterval ms c, x)"
  by (simp add: lives_def sdkHist.adopt)

lemma lives_warn: "lives env cfg (c, x) \<Longrightarrow> lives env cfg (warnContainerBridgeOnce b ip c, x)"
  by (simp add: lives_def sdkHist.warn)

lemma lives_guarded: "lives env cfg s \<Longrightarrow> lives env cfg (snd (m s)) \<Longrightarrow> lives env cfg (snd (guarded check m s))"
  by (simp add: guarded_def split: option.split)

lemma lives_methods:
  assumes "lives env cfg s"
  shows "lives env cfg (snd (sdkRegister (traced env) s))" "lives env cfg (snd (sdkBeat (traced env) s))"
    "lives env cfg (snd (sdkDeregister (traced env) s))" "lives env cfg (snd (sdkListInstances (traced env) name s))"
    "lives env cfg (snd (sdkListServices (traced env) n k s))" "lives env cfg (snd (Ping (traced env) s))"
proof -
  obtain c x where s: "s = (c, x)" by (cases s)
  note l = assms [unfolded s]
  show "lives env cfg (snd (sdkRegister (traced env) s))"
    unfolding s sdkRegister_def by (intro lives_guarded l) (simp add: lives_call lives_warn l)
  show "lives env cfg (snd (sdkBeat (traced env) s))"
    unfolding s sdkBeat_def by (intro lives_guarded l) (auto intro!: lives_kbind lives_doInto lives_adopt l)
  show "lives env cfg (snd (sdkDeregister (traced env) s))"
    unfolding s sdkDeregister_def by (intro lives_guarded l) (simp add: lives_call l)
  show "lives env cfg (snd (sdkListInstances (traced env) name s))"
    unfolding s sdkListInstances_def by (intro lives_guarded l) (simp add: lives_doInto l)
  show "lives env cfg (snd (sdkListServices (traced env) n k s))"
    unfolding s sdkListServices_def by (intro lives_guarded l lives_doInto)
  show "lives env cfg (snd (Ping (traced env) s))"
    unfolding s Ping_def by (intro lives_guarded l lives_kbind lives_send) (simp add: case_prod_beta')
qed

lemma hist_ok: "sdkHist env cfg c w tr \<Longrightarrow> sc_Token cfg = '''' \<Longrightarrow> histOK env c tr"
proof (induction rule: sdkHist.induct)
  case (new w)
  then show ?case by (simp add: histOK_def cacheOK_def logOK_def NewClient_def Let_def)
next
  case (send c w tr m pre path qs body r c' w' tr')
  then show ?case by (intro send_hist [OF send.hyps(2)]) simp
next
  case (drop_token c w tr)
  then show ?case by (simp add: invalidate_hist)
qed (auto simp: histOK_def cacheOK_def adoptInterval_def warnContainerBridgeOnce_def Let_def)

text \<open>C20. A token is never used past its time: in the life of a client that logs in with a user name and a password, every request
  that carries a token is preceded by a login answer that issued this very token, and is sent right when that answer arrived or
  before the token's refresh time - which for every life of a second or more lies before its advertised end.\<close>

theorem token_in_time:
  assumes "sdkHist env cfg c w tr" "sc_Token cfg = ''''" "i < length tr" "tr ! i = (q, res, t, t')" "q_Authorization q \<noteq> ''''"
  shows "\<exists>tok j l st body t1 t0 u ttl. q_Authorization q = ''Bearer '' @ tok \<and> j < i \<and> tr ! j = (l, HttpResponse st body, t1, t0) \<and>
    loginAnswer (se_api env) u st body = Inr (tok, ttl) \<and> (t = t0 \<or> t < t0 + refreshLifetime ttl) \<and>
    (second \<le> ttl \<longrightarrow> t = t0 \<or> t < t0 + ttl)"
proof -
  have "entryOK env (take i tr) (q, res, t, t')" using hist_ok [OF assms(1,2)] assms(3,4) by (auto simp: histOK_def logOK_def)
  then obtain tok l st body t1 t0 u ttl where f: "q_Authorization q = ''Bearer '' @ tok" "(l, HttpResponse st body, t1, t0) \<in> set (take i tr)"
      "loginAnswer (se_api env) u st body = Inr (tok, ttl)" "t = t0 \<or> t < t0 + refreshLifetime ttl"
    using assms(5) by (auto simp: entryOK_def fresh_def)
  from f(2) obtain j where "j < i" "tr ! j = (l, HttpResponse st body, t1, t0)" using assms(3) by (auto simp: in_set_conv_nth)
  moreover have "t = t0 \<or> t < t0 + ttl" if "second \<le> ttl" using f(4) refreshLifetime_bounds(2) [OF that] by auto
  ultimately show ?thesis using f by blast
qed

subsection \<open>Examples\<close>

definition demoCfg :: sdkConfig where
  "demoCfg = \<lparr>sc_Enabled = True, sc_ServerAddr = ''r:1/'', sc_ServiceName = ''s'', sc_NamespaceID = '''', sc_GroupName = '' '', sc_ClusterName = '''',
     sc_IP = ''10.0.0.1'', sc_IPAutoDetected = False, sc_Port = 80, sc_Weight = 0, sc_Metadata = None, sc_Username = ''u'', sc_Password = ''p'',
     sc_Token = '''', sc_HeartbeatInterval = 0, sc_RequestTimeout = 0\<rparr>"

text \<open>A registry that refuses every connection after a second; the loop is cancelled after ten.\<close>

definition downEnv :: "int sdkEnv" where
  "downEnv = \<lparr>se_newRequest = (\<lambda>_ _. None), se_do = (\<lambda>_ w. (HttpError ''refused'', w + second)), se_now = (\<lambda>w. w), se_cancelled = (\<lambda>w. 10 * second \<le> w),
     se_sleep = (\<lambda>d w. (True, w + d)), se_netns = False, se_api = demoNapi\<rparr>"

text \<open>A registry that answers a login with a token and every request but the first with an empty page.\<close>

definition upEnv :: "int sdkEnv" where
  "upEnv = downEnv\<lparr>se_do := (\<lambda>q w. (if q_Body q \<noteq> '''' then HttpResponse 200 (jsonEncode (JObj [(''accessToken'', JStr ''t''), (''tokenTtl'', jInt 60)]))
     else HttpResponse (if w < 2 then 401 else 200) '''', w + 1))\<rparr>"

theorem lifecycle_terminates_witness: "\<exists>s'. run downEnv (NewClient demoCfg, 0) = Some s'"
  by (rule lifecycle_terminates [of downEnv "10 * second"]) (simp_all add: clockRuns_def downEnv_def second_def)

lemmas call_defs = sdkRegister_def guarded_def ready_def usable_def call_def doAt_def kbind_def retrying_def sendAt_def ensureToken_def sdkLogin_def
  exchange_def tokenExpiredLocked_def invalidateToken_def isAuthRejection_def warnContainerBridgeOnce_def Let_def

lemma demo_client:
  "NewClient demoCfg = \<lparr>c_cfg = demoCfg\<lparr>sc_GroupName := ''DEFAULT_GROUP'', sc_ClusterName := ''DEFAULT'', sc_Weight := 1,
      sc_HeartbeatInterval := 5 * second, sc_RequestTimeout := 3 * second\<rparr>,
     c_base = ''http://r:1'', c_token = [], c_tokenExpiry = None, c_beatInterval = 0, c_started = False, c_stopped = False,
     c_registerBackoffInitial = second, c_registerBackoffMax = 30 * second, c_bridgeWarned = None\<rparr>"
  by (simp add: NewClient_def demoCfg_def orString_def trimSpace_def trimLeft_def trimRight_def isSpace_def byte_def normalizeBaseURL_def
      DefaultHeartbeatInterval_def DefaultRequestTimeout_def hasPrefix_def Let_def)

lemma demo_iter:
  "runIter downEnv (runInit (NewClient demoCfg)) (NewClient demoCfg, 0) =
     Next \<lparr>r_backoff = 2 * second, r_registered = False, r_failures = 0\<rparr> (NewClient demoCfg, 2 * second)"
  unfolding demo_client
  by (simp add: runIter_def runInit_def call_defs demoCfg_def downEnv_def sleepCtx_def nextBackoff_def second_def i64_def)

theorem lifecycle_invariant_witness:
  "\<exists>c w. runReach downEnv demoCfg \<lparr>r_backoff = 2 * second, r_registered = False, r_failures = 0\<rparr> (c, w) \<and> 0 < heartbeatInterval c"
proof -
  have r: "runReach downEnv demoCfg \<lparr>r_backoff = 2 * second, r_registered = False, r_failures = 0\<rparr> (NewClient demoCfg, 2 * second)"
    by (rule runReach.iter [OF runReach.start [OF self_world] demo_iter])
  from lifecycle_invariant [OF r] r show ?thesis by blast
qed

definition demoCall :: "(sdkErr + json option) \<times> (int \<times> entry list) cst" where
  "demoCall = doAt (traced upEnv) ''GET'' ''/nacos'' ''/x'' [] None (NewClient demoCfg, (0, []))"

lemma length_itoa_60: "length (strconvItoa 60) = 2"
  by (simp add: strconvItoa_def decimal.simps)

lemma demo_token_login: "loginAnswer demoNapi u 200 (jsonEncode (JObj [(''accessToken'', JStr ''t''), (''tokenTtl'', jInt 60)])) = Inr (''t'', 60 * second)"
proof -
  let ?v = "JObj [(''accessToken'', JStr ''t''), (''tokenTtl'', jInt 60)]"
  define b where "b = jsonEncode ?v"
  have "jsonParse b = Some ?v" unfolding b_def by (rule jsonParse_encode) (simp add: utf8_ascii byte_def)
  then have v: "jsonParse b = Some (JObj [(''accessToken'', JStr ''t''), (''tokenTtl'', JNum (strconvItoa 60))])" by (simp add: jInt_def)
  have "length b \<le> 60" using length_itoa_60 unfolding b_def by (simp add: jInt_def jsonString_plain plainJson_def byte_def)
  then have t: "take bodyLimit b = b" by (simp add: bodyLimit_def)
  have "atoi (strconvItoa 60) = Some 60" by (simp add: atoi_itoa)
  then have "loginAnswer demoNapi u 200 b = Inr (''t'', 60 * second)"
    by (simp add: loginAnswer_def t v unmarshalStruct_def unmarshalValue_def structOK_def loginSchema_def loginDataOK_def memberVals_def
        loginToken_def fieldStr_def fieldInt_def loginTTL_def toLower_def lowerChar_def byte_def i64_def second_def)
  then show ?thesis by (simp only: b_def)
qed

lemma upEnv_simps:
  "se_newRequest upEnv m u = None" "se_now upEnv w = w" "se_api upEnv = demoNapi"
  "q_Body q \<noteq> '''' \<Longrightarrow> se_do upEnv q w = (HttpResponse 200 (jsonEncode (JObj [(''accessToken'', JStr ''t''), (''tokenTtl'', jInt 60)])), w + 1)"
  "q_Body q = '''' \<Longrightarrow> se_do upEnv q w = (HttpResponse (if w < 2 then 401 else 200) '''', w + 1)"
  by (simp_all add: upEnv_def downEnv_def)

lemma demo_token_form: "q_Body (loginReq c) \<noteq> ''''"
proof -
  have "valuesEncode q \<noteq> ''''" if "q \<noteq> []" for q
  proof
    assume "valuesEncode q = []"
    then have "sort_key fst q = []" using parse_valuesEncode [of q] by (simp add: parseQuery_def parsePair_def)
    then show False using that by (metis length_0_conv length_sort)
  qed
  then show ?thesis by (simp add: loginReq_def)
qed

lemma demo_trace:
  "\<exists>c w x1 x2 x3 x4. demoCall = (Inr None, (c, (w, [x1, x2, x3, x4]))) \<and> \<not> isLoginEntry x2 \<and> rejected x2 \<and> q_Authorization (fst x2) = ''Bearer t''"
proof -
  let ?c = "NewClient demoCfg"
  have f: "sc_Token (c_cfg ?c) = ''''" "sc_Username (c_cfg ?c) = ''u''" "c_token ?c = ''''" unfolding demo_client by (simp_all add: demoCfg_def)
  have l: "sdkLogin (traced upEnv) c (w, tr) = (Inr (''t'', 60 * second), (w + 1, tr @ [(loginReq c, HttpResponse 200 (jsonEncode (JObj [(''accessToken'', JStr ''t''), (''tokenTtl'', jInt 60)])), w, w + 1)]))"
    for c w tr using demo_token_form [of c] by (simp add: sdkLogin_def upEnv_simps demo_token_login del: jsonEncode.simps)
  show ?thesis
    unfolding demoCall_def
    by (simp add: doAt_def kbind_def retrying_def sendAt_def Let_def upEnv_simps ensureToken_def f l exchange_def apiReqOf_def isAuthRejection_def
        invalidateToken_def bodyLimit_def openEnvelope_def trimSpace_def trimLeft_def trimRight_def isLoginEntry_def rejected_def del: jsonEncode.simps)
qed

theorem one_retry_witness:
  "length (snd (snd (snd demoCall))) = 4 \<and> length (filter (Not \<circ> isLoginEntry) (snd (snd (snd demoCall)))) \<le> 2"
proof -
  obtain c w x1 x2 x3 x4 where d: "demoCall = (Inr None, (c, (w, [x1, x2, x3, x4])))" using demo_trace by blast
  have "length (filter (Not \<circ> isLoginEntry) [x1, x2, x3, x4]) \<le> 2" using one_retry [OF d [unfolded demoCall_def]] by (metis append_Nil)
  then show ?thesis unfolding d snd_conv by (intro conjI) simp_all
qed

theorem token_in_time_witness:
  "\<exists>x1 x2 tr ttl t0. snd (snd (snd demoCall)) = x1 # x2 # tr \<and> q_Authorization (fst x2) = ''Bearer t'' \<and> snd (snd (snd x1)) = t0 \<and>
     (fst (snd (snd x2)) = t0 \<or> fst (snd (snd x2)) < t0 + refreshLifetime ttl)"
proof -
  obtain c w x1 x2 x3 x4 where d: "demoCall = (Inr None, (c, (w, [x1, x2, x3, x4])))" "q_Authorization (fst x2) = ''Bearer t''"
    using demo_trace by blast
  have "lives upEnv demoCfg (NewClient demoCfg, (0, []))" by (simp add: lives_def sdkHist.new)
  from lives_doAt [OF this] have h: "sdkHist upEnv demoCfg c w [x1, x2, x3, x4]" using d unfolding demoCall_def lives_def by (metis fst_conv snd_conv)
  have "sc_Token demoCfg = ''''" by (simp add: demoCfg_def)
  from token_in_time [OF h this, of 1 "fst x2" "fst (snd x2)" "fst (snd (snd x2))" "snd (snd (snd x2))"] d(2)
  obtain j l st body t1 t0 ttl where "j < 1" "[x1, x2, x3, x4] ! j = (l, HttpResponse st body, t1, t0)"
      "fst (snd (snd x2)) = t0 \<or> fst (snd (snd x2)) < t0 + refreshLifetime ttl" by (simp only: nth_Cons_Suc One_nat_def nth_Cons_0 prod.collapse) force
  moreover have "snd (snd (snd demoCall)) = x1 # x2 # [x3, x4]" unfolding d(1) by simp
  ultimately show ?thesis using d(2) by (metis less_one nth_Cons_0 snd_conv)
qed

end
