(* ===== verification/SdkServer.thy ===== *)
theory SdkServer
  imports SdkClient
begin

text \<open>
  The client of \<^verbatim>\<open>sdk/registry\<close> talking to the server of \<^verbatim>\<open>internal/api\<close>: \<open>serverReq\<close> is how the request looks to the handlers,
  \<open>nacosServe\<close> the part of the routing table (\<^verbatim>\<open>router.go\<close>) the client uses, on a server without authentication as it is
  deployed by default, and \<open>serverEnv\<close> the outside of a client whose registry is that server.  The theorems follow a registration and
  a heartbeat from the configuration of a service to the rows of the registry.
\<close>

subsection \<open>The server as the outside of a client\<close>

definition serverReq :: "string \<Rightarrow> sdkReq \<Rightarrow> apiReq" where
  "serverReq base q =
     (let u = drop (length base) (q_URL q); form = hasPrefix (q_ContentType q) ''application/x-www-form-urlencoded''
      in \<lparr>ar_Method = q_Method q, ar_Path = takeWhile (\<lambda>c. c \<noteq> CHR ''?'') u, ar_Query = parseQuery (drop 1 (dropWhile (\<lambda>c. c \<noteq> CHR ''?'') u)),
          ar_PostForm = (if form then parseQuery (q_Body q) else []), ar_ContentType = q_ContentType q, ar_Body = q_Body q, ar_Cookies = [],
          ar_Authorization = q_Authorization q, ar_LongPulling = '''', ar_RemoteAddr = ''''\<rparr>)"

definition nacosServe :: "napi \<Rightarrow> int \<Rightarrow> apiReq \<Rightarrow> dbHandler" where
  "nacosServe a now r =
     (let on = (\<lambda>m p. ar_Method r = m \<and> ar_Path r = p)
      in if on ''POST'' ''/nacos/v2/ns/instance'' \<or> on ''PUT'' ''/nacos/v2/ns/instance'' then namingV2Register a now r
         else if on ''DELETE'' ''/nacos/v2/ns/instance'' then namingV2Deregister a r
         else if on ''GET'' ''/nacos/v2/ns/instance'' then namingV2GetInstance a now r
         else if on ''GET'' ''/nacos/v2/ns/instance/list'' then namingV2ListInstances a now r
         else if on ''POST'' ''/nacos/v2/ns/instance/beat'' then namingV2Beat a now r
         else if on ''GET'' ''/nacos/v2/ns/service/list'' then namingV2ListServices r
         else reply (writeText 404 ''404 page not found''))"

text \<open>The state of the outside is the server's clock, in milliseconds, and its database.\<close>

definition serverEnv :: "napi \<Rightarrow> string \<Rightarrow> (int \<times> db) sdkEnv" where
  "serverEnv a base =
     \<lparr>se_newRequest = (\<lambda>_ _. None),
      se_do = (\<lambda>q (t, d). case nacosServe a t (serverReq base q) d of (resp, d') \<Rightarrow> (HttpResponse (rs_code resp) (rs_body resp), (t, d'))),
      se_now = (\<lambda>(t, _). t * millisecond), se_cancelled = (\<lambda>_. False), se_sleep = (\<lambda>n (t, d). (True, (t + n div millisecond + 1, d))),
      se_netns = False, se_api = a\<rparr>"

definition anonymous :: "sdkConfig \<Rightarrow> bool" where
  "anonymous cfg \<longleftrightarrow> sc_Token cfg = '''' \<and> sc_Username cfg = '''' \<and> sc_Password cfg = ''''"

subsection \<open>Answers\<close>

lemma length_decimal: "n < 10 ^ k \<Longrightarrow> 0 < k \<Longrightarrow> length (decimal n) \<le> k"
proof (induction k arbitrary: n)
  case (Suc k)
  show ?case
  proof (cases "n < 10")
    case True
    then show ?thesis by (subst decimal.simps) simp
  next
    case False
    then have "0 < k" using Suc.prems by (cases k) auto
    moreover have "n div 10 < 10 ^ k" using Suc.prems(1) by (simp add: less_mult_imp_div_less mult.commute)
    ultimately have "length (decimal (n div 10)) \<le> k" using Suc.IH by blast
    then show ?thesis using False by (subst decimal.simps) simp
  qed
qed simp

lemma length_itoa: "\<bar>n\<bar> < 2 ^ 63 \<Longrightarrow> length (strconvItoa n) \<le> 20"
proof -
  assume "\<bar>n\<bar> < 2 ^ 63"
  then have "nat n < 10 ^ 19" "nat (- n) < 10 ^ 19" by auto
  from length_decimal [OF this(1)] length_decimal [OF this(2)] show ?thesis by (auto simp: strconvItoa_def)
qed

lemma trimSpace_not_Nil: "\<not> isSpace c \<Longrightarrow> trimSpace (c # s) \<noteq> []"
proof -
  assume "\<not> isSpace c"
  then have "c \<in> set (trimRight isSpace (c # s))"
    by (auto simp: trimRight_def dropWhile_eq_Nil_conv intro: ccontr) (metis append_Nil2 dropWhile_append3 in_set_conv_decomp rev.simps(2) set_rev)
  with \<open>\<not> isSpace c\<close> show ?thesis by (auto simp: trimSpace_def trimLeft_def)
qed

definition answer :: "int \<Rightarrow> string \<Rightarrow> json \<Rightarrow> string" where
  "answer code msg v = jsonEncode (envelope code msg v) @ [CHR 0x0A]"

lemma openEnvelope_answer:
  assumes "jsonValid v" "utf8Valid msg" "- (2 ^ 63) \<le> code" "code < 2 ^ 63"
  shows "openEnvelope a m p (answer code msg v) =
    (if code \<noteq> 0 then Inl (ErrRegistry m p code (orString msg (summarizeBody (answer code msg v)))) else Inr (Some v))"
proof -
  have j: "jsonParse (answer code msg v) = Some (envelope code msg v)"
    unfolding answer_def using assms by (intro jsonParse_line) (simp add: envelope_def utf8_ascii byte_def)
  have s: "trimSpace (answer code msg v) \<noteq> []"
    unfolding answer_def envelope_def jsonEncode.simps by (simp add: trimSpace_not_Nil isSpace_def byte_def)
  have n: "atoi (strconvItoa code) = Some code" using assms by (simp add: atoi_itoa)
  define b where "b = answer code msg v"
  have "openEnvelope a m p b = (if code \<noteq> 0 then Inl (ErrRegistry m p code (orString msg (summarizeBody b))) else Inr (Some v))"
    using s j n unfolding b_def [symmetric]
    by (simp add: openEnvelope_def unmarshalStruct_def unmarshalValue_def envelope_def structOK_def envelopeSchema_def jInt_def
        fieldInt_def fieldStr_def memberVals_def rawMember_def toLower_def lowerChar_def byte_def)
  then show ?thesis by (simp only: b_def)
qed

lemma v2OK_answer: "rs_code (v2OK v) = 200" "rs_body (v2OK v) = answer 0 ''success'' v"
  by (simp_all add: v2OK_def writeJSON_def answer_def)

text \<open>A call whose request the server answers with success.\<close>

lemma doAt_served:
  assumes "anonymous (c_cfg c)" "c_base c = base" "jsonValid v" "length (answer 0 ''success'' v) \<le> bodyLimit"
    and "nacosServe a t (serverReq base (apiReqOf m (apiURL c ''/nacos'' path qs) body '''')) d = (v2OK v, d')"
  shows "doAt (serverEnv a base) m ''/nacos'' path qs body (c, (t, d)) = (Inr (Some v), (c, (t, d')))"
proof -
  have o: "openEnvelope a m path (answer 0 ''success'' v) = Inr (Some v)"
    using openEnvelope_answer [OF assms(3), of "''success''" 0] by (simp add: utf8_ascii byte_def)
  have tk: "take bodyLimit (rs_body (v2OK v)) = answer 0 ''success'' v" using assms(4) by (simp add: v2OK_answer)
  show ?thesis using assms(1,2,5) o tk
    by (simp add: doAt_def kbind_def retrying_def sendAt_def Let_def serverEnv_def ensureToken_def anonymous_def exchange_def v2OK_answer(1))
qed

subsection \<open>What the server reads\<close>

text \<open>Numbers as they travel: the text the client writes is a JSON number, and the server reads the value back from it.\<close>

definition numbersOK :: "napi \<Rightarrow> rat \<Rightarrow> int \<Rightarrow> bool" where
  "numbersOK a weight port \<longleftrightarrow> okNum (na_showF a weight) \<and> list_all isNumChar (na_showF a weight) \<and>
     na_parseF a (na_ft a (na_showF a weight)) = Some weight \<and> na_ft a (na_showF a weight) \<noteq> '''' \<and> na_ft a (strconvItoa port) = strconvItoa port"

definition textOK :: "sdkConfig \<Rightarrow> bool" where
  "textOK cfg \<longleftrightarrow> utf8Valid (sc_ServiceName cfg) \<and> utf8Valid (sc_IP cfg) \<and> utf8Valid (sc_NamespaceID cfg) \<and> utf8Valid (sc_GroupName cfg) \<and>
     utf8Valid (sc_ClusterName cfg) \<and> (case sc_Metadata cfg of None \<Rightarrow> True | Some m \<Rightarrow> metaUtf8 m) \<and> cutAtAt (sc_ServiceName cfg) = None"

lemma smapJson_valid: "metaUtf8 m \<Longrightarrow> jsonValid (smapJson m)"
  using metaUtf8_keys [of m] by (auto simp: smapJson_def metaUtf8_def list_all_iff)

lemma registerRequest_valid: "textOK cfg \<Longrightarrow> numbersOK a (sc_Weight cfg) p \<Longrightarrow> jsonValid (registerRequest a cfg)"
  by (auto simp: registerRequest_def textOK_def numbersOK_def smapJson_valid utf8_ascii byte_def split: option.splits)

lemma remarshal_smap: "remarshal ft (smapJson m) = jsonMarshalMap m"
proof -
  let ?ks = "sort (remdups (map fst m))"
  have k: "sort (remdups ?ks) = ?ks" by (simp add: sorted_sort_id distinct_remdups_id)

  have "the (map_of (rev (map (\<lambda>k. (k, jsonString (aget m k))) ?ks)) k) = jsonString (aget m k)" if "k \<in> set ?ks" for k
    using that by (simp add: rev_map map_of_keys)
  then have eq: "map (\<lambda>k. jsonString k @ CHR '':'' # the (map_of (rev (map (\<lambda>k. (k, jsonString (aget m k))) ?ks)) k)) ?ks =
      map (\<lambda>k. jsonString k @ CHR '':'' # jsonString (aget m k)) ?ks" by (intro map_cong) simp_all
  have "remarshal ft (smapJson m) =
      ''{'' @ joinWith '','' (map (\<lambda>k. jsonString k @ CHR '':'' # the (map_of (rev (map (\<lambda>k. (k, jsonString (aget m k))) ?ks)) k)) ?ks) @ ''}''"
    using k by (simp add: smapJson_def comp_def Let_def)
  also have "\<dots> = jsonMarshalMap m" unfolding eq by (simp add: jsonMarshalMap_def jsonMember_def comp_def)
  finally show ?thesis .
qed

definition sdkParams :: "sdkConfig \<Rightarrow> instanceParams" where
  "sdkParams cfg = \<lparr>ip_NamespaceId = normalizeNamespace (sc_NamespaceID cfg), ip_GroupName = sc_GroupName cfg, ip_ServiceName = sc_ServiceName cfg,
     ip_ClusterName = sc_ClusterName cfg, ip_IP = sc_IP cfg, ip_Port = word_of_int (sc_Port cfg), ip_Weight = sc_Weight cfg, ip_Enabled = True,
     ip_Ephemeral = True, ip_Metadata = map_option (\<lambda>m. jsonUnmarshalMap (jsonMarshalMap m)) (sc_Metadata cfg), ip_BeatJSON = ''''\<rparr>"

lemma atoiOr0_itoa: "0 \<le> n \<Longrightarrow> n < 2 ^ 63 \<Longrightarrow> atoiOr0 (strconvItoa n) = n"
proof -
  assume n: "0 \<le> n" "n < 2 ^ 63"
  obtain c t where ct: "decimal (nat n) = c # t" by (cases "decimal (nat n)") auto
  then have "c \<noteq> CHR ''-''" "c \<noteq> CHR ''+''" using decimal_hd [of "nat n"] by (auto dest: digit_not_sign)
  then show ?thesis using n ct decimal_digits [of "nat n"] decValue_decimal [of "nat n"] by (simp add: atoiOr0_def strconvItoa_def)
qed

lemma metaFromParam_map:
  assumes "metaUtf8 m"
  shows "metaFromParam (jsonMarshalMap m) = Some (jsonUnmarshalMap (jsonMarshalMap m))" "metaFromParam ''null'' = None"
proof -
  have "jsonParse ''null'' = Some JNull" by (simp add: jsonParse_def skipWs_def isWs_def byte_def parseLit_def hasPrefix_def)
  then show "metaFromParam ''null'' = None" by (simp add: metaFromParam_def)
qed (simp add: metaFromParam_def jsonParse_marshal [OF assms])

lemma server_reads_registration:
  assumes "textOK cfg" "numbersOK a (sc_Weight cfg) (sc_Port cfg)" "0 < sc_Weight cfg" "0 < sc_Port cfg" "sc_Port cfg \<le> 65535"
    and "sc_GroupName cfg \<noteq> ''''" "sc_ClusterName cfg \<noteq> ''''"
    and "ar_ContentType r = ''application/json''" "ar_Body r = jsonEncode (registerRequest a cfg)" "ar_Query r = []" "ar_PostForm r = []"
  shows "parseInstanceParams a r = sdkParams cfg"
proof -
  have body: "jsonDecode (ar_Body r) = Some (registerRequest a cfg)"
    unfolding assms(9) by (rule jsonDecode_encode) (rule registerRequest_valid [OF assms(1,2)])
  define f where "f = formOrJSON (na_ft a) r"
  have f: "f k = (case map_of (rev [(''serviceName'', JStr (sc_ServiceName cfg)), (''ip'', JStr (sc_IP cfg)), (''port'', jInt (sc_Port cfg)),
       (''namespaceId'', JStr (sc_NamespaceID cfg)), (''groupName'', JStr (sc_GroupName cfg)), (''clusterName'', JStr (sc_ClusterName cfg)),
       (''weight'', JNum (na_showF a (sc_Weight cfg))), (''enabled'', JBool True), (''ephemeral'', JBool True),
       (''metadata'', case sc_Metadata cfg of None \<Rightarrow> JNull | Some m \<Rightarrow> smapJson m)]) k of Some v \<Rightarrow> paramText (na_ft a) v | None \<Rightarrow> '''')" for k
    using assms(8,10,11) body by (simp add: f_def formOrJSON_def hasPrefix_def registerRequest_def arForm_def qget_def)
  have meta: "metaFromParam (paramText (na_ft a) (case sc_Metadata cfg of None \<Rightarrow> JNull | Some m \<Rightarrow> smapJson m)) =
      map_option (\<lambda>m. jsonUnmarshalMap (jsonMarshalMap m)) (sc_Metadata cfg)"
    using assms(1) metaFromParam_map(2) [of "[]"] metaFromParam_map(1) remarshal_smap [of "na_ft a"]
    by (auto simp: textOK_def paramText_def smapJson_def metaUtf8_def split: option.split)
  have port: "na_ft a (strconvItoa (sc_Port cfg)) = strconvItoa (sc_Port cfg)" "atoiOr0 (strconvItoa (sc_Port cfg)) = sc_Port cfg"
    using assms(2,4,5) by (simp_all add: numbersOK_def atoiOr0_itoa)
  have "paramsOf a f = sdkParams cfg"
    using assms(1-7) meta port unfolding paramsOf_def f
    by (simp add: sdkParams_def parseServiceName_def textOK_def flagParam_def jInt_def numbersOK_def paramText_def metaFromParam_def)
  then show ?thesis by (simp add: parseInstanceParams_def f_def)
qed

text \<open>A request without a body: the parameters are those of the query.\<close>

lemma server_reads_query:
  assumes "distinct (map fst qs)" "q = apiReqOf m (apiURL c ''/nacos'' path qs) None tok" "c_base c = base" "CHR ''?'' \<notin> set path" "qs \<noteq> []"
  shows "formOrJSON ft (serverReq base q) k = qget qs k" "ar_Path (serverReq base q) = ''/nacos'' @ path" "ar_Method (serverReq base q) = m"
proof -
  have u: "drop (length base) (q_URL q) = (''/nacos'' @ path) @ CHR ''?'' # valuesEncode qs"
    using assms(2,3,5) by (simp add: apiReqOf_def apiURL_def)
  have tw: "takeWhile (\<lambda>c. c \<noteq> CHR ''?'') (path @ CHR ''?'' # s) = path"
    "dropWhile (\<lambda>c. c \<noteq> CHR ''?'') (path @ CHR ''?'' # s) = CHR ''?'' # s" for s
    using assms(4) by (auto simp: takeWhile_append dropWhile_append)
  show "ar_Path (serverReq base q) = ''/nacos'' @ path" unfolding serverReq_def u by (simp add: tw)
  have ct: "q_ContentType q = ''''" "q_Method q = m" using assms(2) by (simp_all add: apiReqOf_def)
  show "ar_Method (serverReq base q) = m" using ct by (simp add: serverReq_def Let_def)
  have "ar_Query (serverReq base q) = parseQuery (valuesEncode qs)" unfolding serverReq_def u by (simp add: tw)
  moreover have "ar_PostForm (serverReq base q) = []" "ar_ContentType (serverReq base q) = ''''" using ct by (simp_all add: serverReq_def hasPrefix_def Let_def)
  ultimately show "formOrJSON ft (serverReq base q) k = qget qs k"
    using qget_valuesEncode [OF assms(1), of k] by (simp add: formOrJSON_def hasPrefix_def arForm_def)
qed

definition beatTarget :: "sdkConfig \<Rightarrow> instanceParams" where
  "beatTarget cfg = (sdkParams cfg)\<lparr>ip_NamespaceId := ''public'', ip_GroupName := ''DEFAULT_GROUP'', ip_Weight := 1, ip_Metadata := Some []\<rparr>"

lemma paramsOf_beat:
  assumes "textOK cfg" "0 < sc_Port cfg" "sc_Port cfg \<le> 65535" "sc_ClusterName cfg \<noteq> ''''"
  shows "paramsOf a (qget (instanceQuery cfg)) = beatTarget cfg"
  using assms atoiOr0_itoa [of "sc_Port cfg"]
  by (simp add: paramsOf_def instanceQuery_def qget_def beatTarget_def sdkParams_def parseServiceName_def textOK_def normalizeNamespace_def flagParam_def metaFromParam_def)

lemma instanceQuery_distinct: "distinct (map fst (instanceQuery cfg))" "instanceQuery cfg \<noteq> []"
  by (simp_all add: instanceQuery_def)

lemma client_config:
  assumes "c = NewClient cfg" "ready c = None"
  shows "sc_GroupName (c_cfg c) \<noteq> ''''" "sc_ClusterName (c_cfg c) \<noteq> ''''" "0 < sc_Weight (c_cfg c)" "0 < sc_Port (c_cfg c)" "sc_Port (c_cfg c) \<le> 65535"
    "sc_ServiceName (c_cfg c) \<noteq> ''''" "sc_IP (c_cfg c) \<noteq> ''''"
proof -
  have o: "fb \<noteq> '''' \<Longrightarrow> orString v fb \<noteq> ''''" for v fb by (auto simp: orString_def trimSpace_def trimLeft_def trimRight_def)
  have "sc_GroupName (c_cfg c) = orString (sc_GroupName cfg) ''DEFAULT_GROUP''" "sc_ClusterName (c_cfg c) = orString (sc_ClusterName cfg) ''DEFAULT''"
    "sc_Weight (c_cfg c) = (if sc_Weight cfg \<le> 0 then 1 else sc_Weight cfg)" by (simp_all add: assms(1) NewClient_def Let_def)
  then show "sc_GroupName (c_cfg c) \<noteq> ''''" "sc_ClusterName (c_cfg c) \<noteq> ''''" "0 < sc_Weight (c_cfg c)" using o by simp_all
  show "0 < sc_Port (c_cfg c)" "sc_Port (c_cfg c) \<le> 65535" "sc_ServiceName (c_cfg c) \<noteq> ''''" "sc_IP (c_cfg c) \<noteq> ''''"
    using assms(2) by (auto simp: ready_def usable_def split: if_splits)
qed

lemma port_word: "0 < p \<Longrightarrow> p \<le> 65535 \<Longrightarrow> (word_of_int p :: 32 word) \<noteq> 0"
  by (simp add: word_of_int_eq_0_iff zdvd_not_zless)

subsection \<open>Registering\<close>

definition quietServer :: "db \<Rightarrow> bool" where
  "quietServer d \<longleftrightarrow> script d = [] \<and> namingOK (tabs d)"

lemma sdkParams_norm:
  assumes "ip_ClusterName p \<noteq> ''''" "0 < ip_Weight p"
  shows "iuKey (normUpsert (ipUpsert p)) = ipKey p" "iuKey (ipUpsert p) = ipKey p"
  using assms by (simp_all add: ipUpsert_def iuKey_def ipKey_def)

lemma registration_served:
  assumes c: "c = NewClient cfg" "ready c = None" and t: "textOK (c_cfg c)" "numbersOK a (sc_Weight (c_cfg c)) (sc_Port (c_cfg c))"
    and d: "quietServer d"
  shows "\<exists>d' i. nacosServe a now (serverReq (c_base c) (apiReqOf ''POST'' (apiURL c ''/nacos'' ''/v2/ns/instance'' []) (Some (registerRequest a (c_cfg c))) '''')) d =
      (v2OK (JStr ''ok''), d') \<and> quietServer d' \<and> registered (tabs d') = (registered (tabs d))(ipKey (sdkParams (c_cfg c)) \<mapsto> i) \<and>
      i_LastHeartbeatMS i = now \<and> i_Healthy i \<and> i_Ephemeral i \<and> i_Weight i = sc_Weight (c_cfg c) \<and> instKey i = ipKey (sdkParams (c_cfg c)) \<and>
      i_MetadataJSON i = upsertMeta (ipUpsert (sdkParams (c_cfg c)))"
proof -
  note cc = client_config [OF c]
  let ?cfg = "c_cfg c" and ?q = "apiReqOf ''POST'' (apiURL c ''/nacos'' ''/v2/ns/instance'' []) (Some (registerRequest a (c_cfg c))) ''''"
  let ?r = "serverReq (c_base c) ?q" and ?p = "sdkParams (c_cfg c)"
  let ?u = "ipUpsert ?p" and ?k = "ipKey ?p"
  have tw: "takeWhile (\<lambda>c. c \<noteq> CHR ''?'') ''/nacos/v2/ns/instance'' = ''/nacos/v2/ns/instance''" by simp
  have r: "ar_Method ?r = ''POST''" "ar_Path ?r = ''/nacos/v2/ns/instance''" "ar_Query ?r = []" "ar_PostForm ?r = []"
      "ar_ContentType ?r = ''application/json''" "ar_Body ?r = jsonEncode (registerRequest a ?cfg)"
    by (simp_all add: serverReq_def apiReqOf_def apiURL_def hasPrefix_def parseQuery_def parsePair_def)
  have p: "parseInstanceParams a ?r = ?p"
    by (rule server_reads_registration) (use t cc r in simp_all)
  have pk: "iuKey (normUpsert ?u) = ?k" using cc by (intro sdkParams_norm) (simp_all add: sdkParams_def)
  obtain t' where reg: "RegisterInstance now ?u d = (Inr (registered (tabs d) ?k = None), d\<lparr>tabs := t'\<rparr>)" "namingOK t'"
      "registered t' = (registered (tabs d))(?k \<mapsto> regValue now ?u (next_id (tabs d) + 1) (registered (tabs d) ?k))"
    using RegisterInstance_quiet [of d ?k ?u now] d pk by (auto simp: quietServer_def)
  have "ip_ServiceName ?p \<noteq> ''''" "ip_IP ?p \<noteq> ''''" "ip_Port ?p \<noteq> 0" using cc port_word by (simp_all add: sdkParams_def)
  then have "nacosServe a now ?r d = (v2OK (JStr ''ok''), d\<lparr>tabs := t'\<rparr>)"
    using reg(1) by (simp add: nacosServe_def r namingV2Register_def p Let_def andThen_def reply_def)
  moreover have "instKey (regValue now ?u n (registered (tabs d) ?k)) = ?k" for n
    using regValue_key [of "registered (tabs d) ?k" ?u now] pk inst_beat.lookup_Some [of "naming_instance (tabs d)" ?k] by (auto simp: registered_def)
  ultimately show ?thesis using reg d cc
    by (intro exI [of _ "d\<lparr>tabs := t'\<rparr>"] exI [of _ "regValue now ?u (next_id (tabs d) + 1) (registered (tabs d) ?k)"])
       (simp add: quietServer_def regValue_fields ipUpsert_def sdkParams_def)
qed

lemma answer_ok_short: "length (answer 0 ''success'' (JStr ''ok'')) \<le> bodyLimit"
  using length_itoa [of 0] by (simp add: answer_def envelope_def jInt_def jsonString_plain plainJson_def byte_def bodyLimit_def)

lemma warn_keeps: "c_cfg (warnContainerBridgeOnce b ip c) = c_cfg c" "c_base (warnContainerBridgeOnce b ip c) = c_base c"
    "c_beatInterval (warnContainerBridgeOnce b ip c) = c_beatInterval c"
  by (simp_all add: warnContainerBridgeOnce_def Let_def)

lemma call_served:
  assumes "anonymous (c_cfg c)" "c_base c = base"
    and "nacosServe a t (serverReq base (apiReqOf m (apiURL c ''/nacos'' path qs) body '''')) d = (v2OK (JStr ''ok''), d')"
  shows "call (serverEnv a base) m path qs body (c, (t, d)) = (Inr (), (c, (t, d')))"
  using doAt_served [OF assms(1,2) _ answer_ok_short assms(3)] by (simp add: call_def kbind_def utf8_ascii byte_def)

definition enrolled :: "sdkConfig \<Rightarrow> int \<Rightarrow> Instance \<Rightarrow> bool" where
  "enrolled cfg now i \<longleftrightarrow> instKey i = ipKey (sdkParams cfg) \<and> i_Weight i = sc_Weight cfg \<and> i_Healthy i \<and> i_Ephemeral i \<and> i_LastHeartbeatMS i = now \<and>
     i_MetadataJSON i = upsertMeta (ipUpsert (sdkParams cfg))"

lemma register_served:
  assumes c: "c = NewClient cfg" "ready c = None" "anonymous (c_cfg c)"
    and t: "textOK (c_cfg c)" "numbersOK a (sc_Weight (c_cfg c)) (sc_Port (c_cfg c))" and d: "quietServer d"
  shows "\<exists>d' i. sdkRegister (serverEnv a (c_base c)) (c, (now, d)) = (Inr (), (warnContainerBridgeOnce False (sc_IP (c_cfg c)) c, (now, d'))) \<and>
    quietServer d' \<and> registered (tabs d') = (registered (tabs d))(ipKey (sdkParams (c_cfg c)) \<mapsto> i) \<and> enrolled (c_cfg c) now i"
proof -
  let ?w = "warnContainerBridgeOnce False (sc_IP (c_cfg c)) c"
  obtain d' i where s: "nacosServe a now (serverReq (c_base c) (apiReqOf ''POST'' (apiURL c ''/nacos'' ''/v2/ns/instance'' []) (Some (registerRequest a (c_cfg c))) '''')) d =
      (v2OK (JStr ''ok''), d')" "quietServer d'" "registered (tabs d') = (registered (tabs d))(ipKey (sdkParams (c_cfg c)) \<mapsto> i)" "enrolled (c_cfg c) now i"
    using registration_served [OF c(1,2) t d, of now] by (auto simp: enrolled_def)
  have "apiURL ?w = apiURL c" by (intro ext) (simp add: apiURL_def warn_keeps)
  then have "call (serverEnv a (c_base c)) ''POST'' ''/v2/ns/instance'' [] (Some (registerRequest a (c_cfg c))) (?w, (now, d)) = (Inr (), (?w, (now, d')))"
    using s(1) c(3) by (intro call_served) (simp_all add: warn_keeps)
  then have "sdkRegister (serverEnv a (c_base c)) (c, (now, d)) = (Inr (), (?w, (now, d')))"
    using c(2) by (simp add: sdkRegister_def guarded_def serverEnv_def)
  then show ?thesis using s by blast
qed

subsection \<open>Heartbeats\<close>

lemma BeatInstance_effect:
  assumes "quietServer d" "iuKey u = k" "iuKey (normUpsert u) = k"
  shows "\<exists>t' b i. BeatInstance now u d = (Inr b, d\<lparr>tabs := t'\<rparr>) \<and> quietServer (d\<lparr>tabs := t'\<rparr>) \<and> registered t' = (registered (tabs d))(k \<mapsto> i) \<and>
    i_LastHeartbeatMS i = now \<and> i_Healthy i \<and>
    (case registered (tabs d) k of None \<Rightarrow> i_Ephemeral i = iu_Ephemeral u
     | Some j \<Rightarrow> i = j\<lparr>i_LastHeartbeatMS := now, i_Healthy := True, i_GmtModified := now\<rparr>)"
proof (cases "registered (tabs d) k")
  case None
  have q: "script d = []" "namingOK (tabs d)" using assms(1) by (simp_all add: quietServer_def)
  obtain t' where "RegisterInstance now u d = (Inr (registered (tabs d) k = None), d\<lparr>tabs := t'\<rparr>)" "namingOK t'"
      "registered t' = (registered (tabs d))(k \<mapsto> regValue now u (next_id (tabs d) + 1) (registered (tabs d) k))"
    using RegisterInstance_quiet [OF q, of k u now] assms(3) by auto
  then show ?thesis using None assms q by (simp add: BeatInstance_quiet [OF q] beat_absent quietServer_def regValue_fields) (metis regValue_fields(3,5,6))
next
  case (Some j)
  have q: "script d = []" "namingOK (tabs d)" using assms(1) by (simp_all add: quietServer_def)
  have "registered (beatTab now k (tabs d)) = (registered (tabs d))(k \<mapsto> j\<lparr>i_LastHeartbeatMS := now, i_Healthy := True, i_GmtModified := now\<rparr>)"
    using Some by (intro ext) (simp add: registered_beat)
  then show ?thesis using Some assms(1,2)
    by (intro exI [of _ "beatTab now k (tabs d)"] exI [of _ False] exI [of _ "j\<lparr>i_LastHeartbeatMS := now, i_Healthy := True, i_GmtModified := now\<rparr>"])
       (simp add: BeatInstance_quiet [OF q] quietServer_def namingOK_beat)
qed

definition beatAnswer :: "napi \<Rightarrow> bool \<Rightarrow> json" where
  "beatAnswer a created = JObj [(''clientBeatInterval'', jInt (na_HeartbeatIntervalMs a)), (''code'', jInt 10200),
     (''created'', JBool created), (''lightBeatEnabled'', JBool True)]"

lemma beatAnswer_facts:
  assumes "\<bar>na_HeartbeatIntervalMs a\<bar> < 2 ^ 63"
  shows "jsonValid (beatAnswer a b)" "length (answer 0 ''success'' (beatAnswer a b)) \<le> bodyLimit"
    "map_option (\<lambda>kvs. fieldInt kvs ''clientBeatInterval'') (unmarshalValue a beatSchema (beatAnswer a b)) = Some (na_HeartbeatIntervalMs a)"
proof -
  show "jsonValid (beatAnswer a b)" by (simp add: beatAnswer_def utf8_ascii byte_def)
  have l: "length (jsonString ''code'') = 6" "length (jsonString ''message'') = 9" "length (jsonString ''data'') = 6" "length (jsonString ''success'') = 9"
    "length (jsonString ''clientBeatInterval'') = 20" "length (jsonString ''created'') = 9" "length (jsonString ''lightBeatEnabled'') = 18"
    by (simp_all add: jsonString_plain plainJson_def byte_def)
  have "length (strconvItoa (na_HeartbeatIntervalMs a)) \<le> 20" "length (strconvItoa 10200) \<le> 20" "length (strconvItoa 0) \<le> 20"
    using assms by (simp_all add: length_itoa)
  then show "length (answer 0 ''success'' (beatAnswer a b)) \<le> bodyLimit"
    by (simp add: answer_def envelope_def beatAnswer_def jInt_def l bodyLimit_def)
  have n: "atoi (strconvItoa (na_HeartbeatIntervalMs a)) = Some (na_HeartbeatIntervalMs a)" "atoi (strconvItoa 10200) = Some 10200"
    using assms by (simp_all add: atoi_itoa)
  show "map_option (\<lambda>kvs. fieldInt kvs ''clientBeatInterval'') (unmarshalValue a beatSchema (beatAnswer a b)) = Some (na_HeartbeatIntervalMs a)"
    using n by (simp add: unmarshalValue_def beatAnswer_def structOK_def beatSchema_def jInt_def fieldInt_def memberVals_def toLower_def lowerChar_def byte_def)
qed

lemma beat_served:
  assumes c: "ready c = None" "anonymous (c_cfg c)" "sc_ClusterName (c_cfg c) \<noteq> ''''"
    and t: "textOK (c_cfg c)" "\<bar>na_HeartbeatIntervalMs a\<bar> < 2 ^ 63" and d: "quietServer d"
  shows "\<exists>d' i. sdkBeat (serverEnv a (c_base c)) (c, (now, d)) = (Inr (), (adoptInterval (na_HeartbeatIntervalMs a) c, (now, d'))) \<and> quietServer d' \<and>
    registered (tabs d') = (registered (tabs d))(ipKey (beatTarget (c_cfg c)) \<mapsto> i) \<and> i_LastHeartbeatMS i = now \<and> i_Healthy i \<and>
    (case registered (tabs d) (ipKey (beatTarget (c_cfg c))) of None \<Rightarrow> i_Ephemeral i
     | Some j \<Rightarrow> i = j\<lparr>i_LastHeartbeatMS := now, i_Healthy := True, i_GmtModified := now\<rparr>)"
proof -
  let ?cfg = "c_cfg c" and ?p = "beatTarget (c_cfg c)" and ?qs = "instanceQuery (c_cfg c)"
  let ?q = "apiReqOf ''POST'' (apiURL c ''/nacos'' ''/v2/ns/instance/beat'' ?qs) None ''''"
  let ?r = "serverReq (c_base c) ?q"
  have port: "0 < sc_Port ?cfg" "sc_Port ?cfg \<le> 65535" using c(1) by (auto simp: ready_def split: option.splits if_splits)
  have "CHR ''?'' \<notin> set ''/v2/ns/instance/beat''" by simp
  note sr = server_reads_query [OF instanceQuery_distinct(1) refl refl this instanceQuery_distinct(2)]
  have "formOrJSON (na_ft a) ?r = qget ?qs" by (rule ext) (rule sr(1))
  then have p: "parseInstanceParams a ?r = ?p" using paramsOf_beat [OF t(1) port c(3)] by (simp add: parseInstanceParams_def)
  have k: "iuKey (ipUpsert ?p) = ipKey ?p" "iuKey (normUpsert (ipUpsert ?p)) = ipKey ?p"
    using c(3) by (intro sdkParams_norm; simp add: beatTarget_def sdkParams_def)+
  obtain t' b i where e: "BeatInstance now (ipUpsert ?p) d = (Inr b, d\<lparr>tabs := t'\<rparr>)" "quietServer (d\<lparr>tabs := t'\<rparr>)"
      "registered t' = (registered (tabs d))(ipKey ?p \<mapsto> i)" "i_LastHeartbeatMS i = now" "i_Healthy i"
      "case registered (tabs d) (ipKey ?p) of None \<Rightarrow> i_Ephemeral i = iu_Ephemeral (ipUpsert ?p)
       | Some j \<Rightarrow> i = j\<lparr>i_LastHeartbeatMS := now, i_Healthy := True, i_GmtModified := now\<rparr>"
    using BeatInstance_effect [OF d k, of now] by blast
  have "nacosServe a now ?r d = (v2OK (beatAnswer a b), d\<lparr>tabs := t'\<rparr>)"
    using e(1) c(3) by (simp add: nacosServe_def sr(2,3) Let_def namingV2Beat_def p andThen_def reply_def beatAnswer_def beatTarget_def sdkParams_def)
  from doAt_served [OF c(2) refl beatAnswer_facts(1,2) [OF t(2)] this] beatAnswer_facts(3) [OF t(2), of b]
  have "sdkBeat (serverEnv a (c_base c)) (c, (now, d)) = (Inr (), (adoptInterval (na_HeartbeatIntervalMs a) c, (now, d\<lparr>tabs := t'\<rparr>)))"
    using c(1) by (auto simp: sdkBeat_def guarded_def doInto_def kbind_def serverEnv_def split: option.splits)
  then show ?thesis using e
    by (intro exI [of _ "d\<lparr>tabs := t'\<rparr>"] exI [of _ i]) (auto simp: ipUpsert_def beatTarget_def sdkParams_def split: option.splits)
qed

subsection \<open>Deregistering\<close>

lemma deregister_served:
  assumes c: "ready c = None" "anonymous (c_cfg c)" "sc_ClusterName (c_cfg c) \<noteq> ''''" "sc_GroupName (c_cfg c) \<noteq> ''''" and t: "textOK (c_cfg c)" and d: "quietServer d"
  shows "\<exists>d'. sdkDeregister (serverEnv a (c_base c)) (c, (now, d)) = (Inr (), (c, (now, d'))) \<and> quietServer d' \<and>
    registered (tabs d') = (registered (tabs d))(ipKey (sdkParams (c_cfg c)) := None)"
proof -
  let ?cfg = "c_cfg c" and ?k = "ipKey (sdkParams (c_cfg c))"
  let ?qs = "instanceQuery ?cfg @ [(''namespaceId'', sc_NamespaceID ?cfg), (''groupName'', sc_GroupName ?cfg)]"
  let ?q = "apiReqOf ''DELETE'' (apiURL c ''/nacos'' ''/v2/ns/instance'' ?qs) None ''''"
  let ?r = "serverReq (c_base c) ?q" and ?t = "(tabs d)\<lparr>naming_instance := deleteWhere (\<lambda>i. instKey i = ?k) (naming_instance (tabs d))\<rparr>"
  have port: "0 < sc_Port ?cfg" "sc_Port ?cfg \<le> 65535" using c(1) by (auto simp: ready_def split: option.splits if_splits)
  have di: "distinct (map fst ?qs)" "?qs \<noteq> []" "CHR ''?'' \<notin> set ''/v2/ns/instance''" by (simp_all add: instanceQuery_def)
  note sr = server_reads_query [OF di(1) refl refl di(3) di(2)]
  have "formOrJSON (na_ft a) ?r = qget ?qs" by (rule ext) (rule sr(1))
  moreover have "ipKey (paramsOf a (qget ?qs)) = ?k" "ip_ClusterName (paramsOf a (qget ?qs)) \<noteq> ''''"
    using t c(3,4) port atoiOr0_itoa [of "sc_Port ?cfg"]
    by (simp_all add: paramsOf_def instanceQuery_def qget_def sdkParams_def parseServiceName_def textOK_def ipKey_def)
  ultimately have p: "ipKey (parseInstanceParams a ?r) = ?k" "ip_ClusterName (parseInstanceParams a ?r) \<noteq> ''''" by (simp_all add: parseInstanceParams_def)
  have q: "script d = []" "namingOK (tabs d)" "uniqueBy instKey (naming_instance (tabs d))" using d by (simp_all add: quietServer_def namingOK_def)
  have r: "registered ?t = (registered (tabs d))(?k := None)"
    using inst_beat.lookup_Some [of "naming_instance (tabs d)"]
    by (intro ext) (simp add: registered_def inst_beat.lookup_delete [OF q(3)] split: option.split)
  have "\<exists>b. deleteOf (parseInstanceParams a ?r) d = (Inr b, d\<lparr>tabs := ?t\<rparr>)"
    using p q(1) by (simp add: deleteOf_def DeleteInstance_def Let_def go_simps ipKey_def)
  then have "nacosServe a now ?r d = (v2OK (JStr ''ok''), d\<lparr>tabs := ?t\<rparr>)"
    by (auto simp: nacosServe_def sr(2,3) Let_def namingV2Deregister_def andThen_def reply_def)
  from call_served [OF c(2) refl this] have "sdkDeregister (serverEnv a (c_base c)) (c, (now, d)) = (Inr (), (c, (now, d\<lparr>tabs := ?t\<rparr>)))"
    using c(1) by (simp add: sdkDeregister_def guarded_def)
  then show ?thesis using r q namingOK_delInst [OF q(2)] by (intro exI [of _ "d\<lparr>tabs := ?t\<rparr>"]) (simp add: quietServer_def)
qed

subsection \<open>From the client to the registry and back\<close>

lemma ready_warn: "ready (warnContainerBridgeOnce b ip c) = ready c" "ready (adoptInterval ms c) = ready c"
  by (simp_all add: ready_def usable_def warn_keeps adoptInterval_def Let_def)

lemma adopt_keeps: "c_cfg (adoptInterval ms c) = c_cfg c" "c_base (adoptInterval ms c) = c_base c"
  by (simp_all add: adoptInterval_def Let_def)

text \<open>C11. A service in the public namespace and the default group, from its configuration to the registry's rows: with a quiet
  server and texts that survive JSON, registering succeeds and stores the instance; a later heartbeat succeeds, adopts the server's
  interval (not below the floor) and keeps the instance healthy for the heartbeat timeout from then on, with its weight and metadata;
  and deregistering removes exactly this instance.\<close>

theorem sdk_end_to_end:
  assumes c: "c = NewClient cfg" "ready c = None" "anonymous (c_cfg c)"
    and t: "textOK (c_cfg c)" "numbersOK a (sc_Weight (c_cfg c)) (sc_Port (c_cfg c))" "0 < na_HeartbeatIntervalMs a" "na_HeartbeatIntervalMs a < 9 * 10 ^ 12"
    and d: "quietServer d" "0 < t0" "0 < t1" "t1 \<le> t2" "0 < na_HeartbeatTimeoutMs a" "t2 - t1 \<le> na_HeartbeatTimeoutMs a"
    and n: "sc_NamespaceID cfg = '''' \<or> sc_NamespaceID cfg = ''public''" "sc_GroupName (c_cfg c) = ''DEFAULT_GROUP''"
    and e: "env = serverEnv a (c_base c)" "k = ipKey (sdkParams (c_cfg c))"
  shows "\<exists>c1 d1 c2 d2 d3 i. sdkRegister env (c, (t0, d)) = (Inr (), (c1, (t0, d1))) \<and> sdkBeat env (c1, (t1, d1)) = (Inr (), (c2, (t1, d2))) \<and>
    heartbeatInterval c2 = max (50 * millisecond) (na_HeartbeatIntervalMs a * millisecond) \<and>
    getOf a t2 (sdkParams (c_cfg c)) d2 = (Inr (Some i), d2) \<and> instKey i = k \<and> i_Healthy i \<and> i_Weight i = sc_Weight (c_cfg c) \<and>
    i_MetadataJSON i = upsertMeta (ipUpsert (sdkParams (c_cfg c))) \<and>
    sdkDeregister env (c2, (t2, d2)) = (Inr (), (c2, (t2, d3))) \<and> registered (tabs d3) = (registered (tabs d))(k := None)"
proof -
  let ?cfg = "c_cfg c"
  note cc = client_config [OF c(1,2)]
  obtain d1 i1 where r: "sdkRegister env (c, (t0, d)) = (Inr (), (warnContainerBridgeOnce False (sc_IP ?cfg) c, (t0, d1)))" "quietServer d1"
      "registered (tabs d1) = (registered (tabs d))(k \<mapsto> i1)" "enrolled ?cfg t0 i1"
    using register_served [OF c t(1,2) d(1), of t0] e by blast
  define c1 where "c1 = warnContainerBridgeOnce False (sc_IP ?cfg) c"
  have c1: "ready c1 = None" "c_cfg c1 = ?cfg" "c_base c1 = c_base c" "c_beatInterval c1 = c_beatInterval c"
    using c(2) by (simp_all add: c1_def ready_warn warn_keeps)
  have ns: "sc_NamespaceID ?cfg = sc_NamespaceID cfg" by (simp add: c(1) NewClient_def Let_def)
  have bk: "ipKey (beatTarget ?cfg) = k" using n ns by (auto simp: e(2) beatTarget_def sdkParams_def ipKey_def normalizeNamespace_def)
  let ?i2 = "i1\<lparr>i_LastHeartbeatMS := t1, i_Healthy := True, i_GmtModified := t1\<rparr>"
  define c2 where "c2 = adoptInterval (na_HeartbeatIntervalMs a) c1"
  have "\<exists>d2. sdkBeat env (c1, (t1, d1)) = (Inr (), (c2, (t1, d2))) \<and> quietServer d2 \<and> registered (tabs d2) = (registered (tabs d1))(k \<mapsto> ?i2)"
    using beat_served [of c1 a d1 t1] c1 c(3) cc(2) t r bk e(1) by (auto simp: c2_def)
  then obtain d2 where b: "sdkBeat env (c1, (t1, d1)) = (Inr (), (c2, (t1, d2)))" "quietServer d2" "registered (tabs d2) = (registered (tabs d1))(k \<mapsto> ?i2)"
    by blast
  have c2: "ready c2 = None" "c_cfg c2 = ?cfg" "c_base c2 = c_base c" using c1 by (simp_all add: c2_def ready_warn adopt_keeps)
  have hb: "heartbeatInterval c2 = max (50 * millisecond) (na_HeartbeatIntervalMs a * millisecond)"
    using t(3,4) by (simp add: c2_def adoptInterval_def heartbeatInterval_def Let_def i64_def minAdvertisedBeatInterval_def millisecond_def)
  have g: "getOf a t2 (sdkParams ?cfg) d2 = (Inr (Some (?i2\<lparr>i_Healthy := effectiveInstanceHealth (Some (na_HeartbeatTimeoutMs a)) ?i2 t2\<rparr>)), d2)"
    using b(2,3) cc(2) by (simp add: getOf_def quietServer_def GetInstance_quiet e(2) ipKey_def sdkParams_def)
  obtain d3 where x: "sdkDeregister env (c2, (t2, d2)) = (Inr (), (c2, (t2, d3)))" "registered (tabs d3) = (registered (tabs d2))(k := None)"
    using deregister_served [of c2 d2 a t2] c2 c(3) cc t(1) b(2) e by auto
  have h: "effectiveInstanceHealth (Some (na_HeartbeatTimeoutMs a)) ?i2 t2" using r(4) d by (simp add: effectiveInstanceHealth_def enrolled_def)
  have "registered (tabs d3) = (registered (tabs d))(k := None)" using x(2) b(3) r(3) by auto
  then show ?thesis using r(1) b(1) hb g x(1) r(4) h unfolding c1_def [symmetric]
    by (intro exI [of _ c1] exI [of _ d1] exI [of _ c2] exI [of _ d2] exI [of _ d3] exI [of _ "?i2\<lparr>i_Healthy := True\<rparr>"])
       (simp add: enrolled_def e(2) instKey_def)
qed

text \<open>The heartbeats of a client, one after the other at the given times; the first component tells whether all succeeded.\<close>

fun beatAll :: "napi \<Rightarrow> int list \<Rightarrow> sdkClient \<Rightarrow> db \<Rightarrow> bool \<times> sdkClient \<times> db" where
  "beatAll a [] c d = (True, c, d)"
| "beatAll a (t # ts) c d =
     (case sdkBeat (serverEnv a (c_base c)) (c, (t, d)) of
        (r, (c', (_, d'))) \<Rightarrow> if isl r then (False, c', d') else beatAll a ts c' d')"

lemma beatAll_elsewhere:
  assumes "ready c = None" "anonymous (c_cfg c)" "sc_ClusterName (c_cfg c) \<noteq> ''''" "textOK (c_cfg c)" "\<bar>na_HeartbeatIntervalMs a\<bar> < 2 ^ 63" "quietServer d"
    and "k \<noteq> ipKey (beatTarget (c_cfg c))"
  shows "\<exists>c' d'. beatAll a ts c d = (True, c', d') \<and> quietServer d' \<and> registered (tabs d') k = registered (tabs d) k \<and>
    (ts \<noteq> [] \<longrightarrow> (\<exists>i. registered (tabs d') (ipKey (beatTarget (c_cfg c))) = Some i \<and> i_LastHeartbeatMS i = last ts))"
  using assms
proof (induction ts arbitrary: c d)
  case (Cons t ts)
  obtain d' i where b: "sdkBeat (serverEnv a (c_base c)) (c, (t, d)) = (Inr (), (adoptInterval (na_HeartbeatIntervalMs a) c, (t, d')))" "quietServer d'"
      "registered (tabs d') = (registered (tabs d))(ipKey (beatTarget (c_cfg c)) \<mapsto> i)" "i_LastHeartbeatMS i = t"
    using beat_served [of c a d t] Cons.prems by blast
  have "\<exists>c'' d''. beatAll a ts (adoptInterval (na_HeartbeatIntervalMs a) c) d' = (True, c'', d'') \<and> quietServer d'' \<and> registered (tabs d'') k = registered (tabs d') k \<and>
    (ts \<noteq> [] \<longrightarrow> (\<exists>i. registered (tabs d'') (ipKey (beatTarget (c_cfg c))) = Some i \<and> i_LastHeartbeatMS i = last ts))"
    using Cons.IH [of "adoptInterval (na_HeartbeatIntervalMs a) c" d'] Cons.prems b(2) by (simp add: ready_warn adopt_keeps)
  then show ?case using b Cons.prems(7) by (cases ts) auto
qed simp

text \<open>C23. A service outside the public namespace or the default group is lost: it registers, every one of its heartbeats is answered
  with success, and still the registry reports its instance unhealthy as soon as the heartbeat timeout has passed since the
  registration, however often and however recently it beat; the heartbeats have instead created an instance of the same name in the
  public namespace and the default group and keep that one alive.\<close>

theorem beats_miss_namespace:
  assumes c: "c = NewClient cfg" "ready c = None" "anonymous (c_cfg c)"
    and t: "textOK (c_cfg c)" "numbersOK a (sc_Weight (c_cfg c)) (sc_Port (c_cfg c))" "\<bar>na_HeartbeatIntervalMs a\<bar> < 2 ^ 63"
    and d: "quietServer d" "0 < t0" "na_HeartbeatTimeoutMs a < t2 - t0" "ts \<noteq> []"
    and n: "normalizeNamespace (sc_NamespaceID (c_cfg c)) \<noteq> ''public'' \<or> sc_GroupName (c_cfg c) \<noteq> ''DEFAULT_GROUP''"
  shows "\<exists>c1 d1 c2 d2 i g. sdkRegister (serverEnv a (c_base c)) (c, (t0, d)) = (Inr (), (c1, (t0, d1))) \<and> beatAll a ts c1 d1 = (True, c2, d2) \<and>
    getOf a t2 (sdkParams (c_cfg c)) d2 = (Inr (Some i), d2) \<and> \<not> i_Healthy i \<and>
    registered (tabs d2) (''public'', ''DEFAULT_GROUP'', sc_ServiceName (c_cfg c), sc_ClusterName (c_cfg c), sc_IP (c_cfg c), word_of_int (sc_Port (c_cfg c))) = Some g \<and>
    i_LastHeartbeatMS g = last ts"
proof -
  let ?cfg = "c_cfg c" and ?k = "ipKey (sdkParams (c_cfg c))"
  note cc = client_config [OF c(1,2)]
  obtain d1 i1 where r: "sdkRegister (serverEnv a (c_base c)) (c, (t0, d)) = (Inr (), (warnContainerBridgeOnce False (sc_IP ?cfg) c, (t0, d1)))" "quietServer d1"
      "registered (tabs d1) = (registered (tabs d))(?k \<mapsto> i1)" "enrolled ?cfg t0 i1"
    using register_served [OF c t(1,2) d(1), of t0] by blast
  let ?c1 = "warnContainerBridgeOnce False (sc_IP ?cfg) c"
  have k: "?k \<noteq> ipKey (beatTarget ?cfg)" using n by (auto simp: beatTarget_def sdkParams_def ipKey_def)
  obtain c2 d2 g where b: "beatAll a ts ?c1 d1 = (True, c2, d2)" "quietServer d2" "registered (tabs d2) ?k = registered (tabs d1) ?k"
      "registered (tabs d2) (ipKey (beatTarget ?cfg)) = Some g" "i_LastHeartbeatMS g = last ts"
    using beatAll_elsewhere [of ?c1 a d1 ?k ts] c cc(2) t r(2) k d(4) by (auto simp: ready_warn warn_keeps)
  have g: "getOf a t2 (sdkParams ?cfg) d2 = (Inr (Some (i1\<lparr>i_Healthy := effectiveInstanceHealth (Some (na_HeartbeatTimeoutMs a)) i1 t2\<rparr>)), d2)"
    using b(2,3) r(3) cc(2) by (simp add: getOf_def quietServer_def GetInstance_quiet ipKey_def sdkParams_def)
  have "\<not> effectiveInstanceHealth (Some (na_HeartbeatTimeoutMs a)) i1 t2" using r(4) d by (auto simp: effectiveInstanceHealth_def enrolled_def)
  then show ?thesis using r(1) b g
    by (intro exI [of _ ?c1] exI [of _ d1] exI [of _ c2] exI [of _ d2] exI [of _ "i1\<lparr>i_Healthy := False\<rparr>"] exI [of _ g])
       (simp add: beatTarget_def sdkParams_def ipKey_def)
qed

subsection \<open>Examples\<close>

definition sdkNapi :: napi where
  "sdkNapi = demoNapi\<lparr>na_parseF := (\<lambda>_. Some 1)\<rparr>"

definition openCfg :: "string \<Rightarrow> sdkConfig" where
  "openCfg ns = demoCfg\<lparr>sc_Username := '''', sc_Password := '''', sc_NamespaceID := ns\<rparr>"

lemma open_client:
  "NewClient (openCfg ns) = (NewClient demoCfg)\<lparr>c_cfg := (c_cfg (NewClient demoCfg))\<lparr>sc_Username := '''', sc_Password := '''', sc_NamespaceID := ns\<rparr>\<rparr>"
  by (simp add: NewClient_def openCfg_def Let_def demoCfg_def)

lemma open_facts:
  "ready (NewClient (openCfg ns)) = None" "anonymous (c_cfg (NewClient (openCfg ns)))" "sc_GroupName (c_cfg (NewClient (openCfg ns))) = ''DEFAULT_GROUP''"
  "sc_NamespaceID (c_cfg (NewClient (openCfg ns))) = ns" "utf8Valid ns \<Longrightarrow> textOK (c_cfg (NewClient (openCfg ns)))"
  "numbersOK sdkNapi (sc_Weight (c_cfg (NewClient (openCfg ns)))) (sc_Port (c_cfg (NewClient (openCfg ns))))"
  unfolding open_client demo_client
  by (simp_all add: demoCfg_def ready_def usable_def anonymous_def textOK_def utf8_ascii byte_def numbersOK_def sdkNapi_def demoNapi_def
      okNum_def okFrac_def isDigit_def isNumChar_def)

lemma empty_quiet: "quietServer \<lparr>tabs = empty_tables, script = []\<rparr>"
  by (simp add: quietServer_def namingOK_empty)

theorem sdk_end_to_end_witness:
  "\<exists>c1 d1 c2 d2 d3 i. sdkRegister (serverEnv sdkNapi ''http://r:1'') (NewClient (openCfg ''''), (1000, \<lparr>tabs = empty_tables, script = []\<rparr>)) = (Inr (), (c1, (1000, d1))) \<and>
     sdkBeat (serverEnv sdkNapi ''http://r:1'') (c1, (6000, d1)) = (Inr (), (c2, (6000, d2))) \<and>
     getOf sdkNapi 9000 (sdkParams (c_cfg (NewClient (openCfg '''')))) d2 = (Inr (Some i), d2) \<and> i_Healthy i \<and>
     sdkDeregister (serverEnv sdkNapi ''http://r:1'') (c2, (9000, d2)) = (Inr (), (c2, (9000, d3)))"
proof -
  have "c_base (NewClient (openCfg '''')) = ''http://r:1''" by (simp add: open_client demo_client)
  moreover have "0 < na_HeartbeatIntervalMs sdkNapi" "na_HeartbeatIntervalMs sdkNapi < 9 * 10 ^ 12" "(9000 :: int) - 6000 \<le> na_HeartbeatTimeoutMs sdkNapi"
      "0 < na_HeartbeatTimeoutMs sdkNapi" "sc_NamespaceID (openCfg '''') = ''''" by (simp_all add: sdkNapi_def demoNapi_def openCfg_def)
  ultimately show ?thesis
    using sdk_end_to_end [OF refl open_facts(1,2) open_facts(5) [OF utf8_Nil] open_facts(6), of "\<lparr>tabs = empty_tables, script = []\<rparr>" 1000 6000 9000, OF _ _ _ _ _ _ _ _ _ _ refl refl]
      empty_quiet open_facts(3) by auto
qed

theorem beats_miss_namespace_witness:
  "\<exists>c1 d1 c2 d2 i. sdkRegister (serverEnv sdkNapi ''http://r:1'') (NewClient (openCfg ''dev''), (1000, \<lparr>tabs = empty_tables, script = []\<rparr>)) = (Inr (), (c1, (1000, d1))) \<and>
     beatAll sdkNapi [6000, 11000, 16000] c1 d1 = (True, c2, d2) \<and> getOf sdkNapi 16001 (sdkParams (c_cfg (NewClient (openCfg ''dev'')))) d2 = (Inr (Some i), d2) \<and> \<not> i_Healthy i"
proof -
  have "c_base (NewClient (openCfg ''dev'')) = ''http://r:1''" by (simp add: open_client demo_client)
  moreover have "utf8Valid ''dev''" by (simp add: utf8_ascii byte_def)
  moreover have "\<bar>na_HeartbeatIntervalMs sdkNapi\<bar> < 2 ^ 63" "na_HeartbeatTimeoutMs sdkNapi < 16001 - 1000" by (simp_all add: sdkNapi_def demoNapi_def)
  ultimately show ?thesis
    using beats_miss_namespace [OF refl open_facts(1,2) open_facts(5) [of "''dev''"] open_facts(6) [of "''dev''"], of "\<lparr>tabs = empty_tables, script = []\<rparr>" 1000 16001 "[6000, 11000, 16000]"]
      empty_quiet open_facts(4) [of "''dev''"] by (auto simp: normalizeNamespace_def)
qed

end
