(* ===== verification/SdkService.thy ===== *)
theory SdkService
  imports SdkServer
begin

text \<open>
  Publishing an application with its components and routes (\<^verbatim>\<open>sdk/registry/app.go\<close>), and what becomes of it at the application
  endpoints of the server.
\<close>

subsection \<open>Publishing\<close>

record appDecl =
  ad_NamespaceID :: string
  ad_Name :: string
  ad_DisplayName :: string
  ad_Description :: string
  ad_Env :: string
  ad_Metadata :: smap

record componentDecl =
  cd_NamespaceID :: string
  cd_AppName :: string
  cd_Name :: string
  cd_Kind :: string
  cd_Protocol :: string
  cd_ServiceName :: string
  cd_GroupName :: string
  cd_ClusterName :: string
  cd_HealthPath :: string
  cd_Weight :: rat
  cd_LBAlgorithm :: string
  cd_Sticky :: string
  cd_Metadata :: smap

record routeDecl =
  rd_NamespaceID :: string
  rd_Domain :: string
  rd_PathPrefix :: string
  rd_AppName :: string
  rd_ComponentName :: string
  rd_UpstreamName :: string
  rd_Priority :: int

definition metaMember :: "smap \<Rightarrow> members" where
  "metaMember m = (if m = [] then [] else [(''metadata'', smapJson m)])"

definition postAt :: "'w sdkEnv \<Rightarrow> string \<Rightarrow> string \<Rightarrow> json \<Rightarrow> ('w, unit) sdk" where
  "postAt env method path body = kbind (doAt env method ''/goacos/v1'' path [] (Some body)) (\<lambda>_ s. (Inr (), s))"

definition blank :: "string \<Rightarrow> bool" where
  "blank s \<longleftrightarrow> trimSpace s = ''''"

definition appDoc :: "appDecl \<Rightarrow> json" where
  "appDoc p = mapObj ([(''namespaceId'', JStr (ad_NamespaceID p)), (''name'', JStr (ad_Name p)), (''displayName'', JStr (ad_DisplayName p)),
     (''description'', JStr (ad_Description p)), (''env'', JStr (ad_Env p))] @ metaMember (ad_Metadata p))"

definition PublishApplication :: "'w sdkEnv \<Rightarrow> appDecl \<Rightarrow> ('w, unit) sdk" where
  "PublishApplication env p s =
     (if blank (ad_Name p) then (Inl (ErrNilApplicationSpec ''an application needs a name''), s)
      else postAt env ''POST'' ''/apps'' (appDoc p) s)"

text \<open>\<^verbatim>\<open>url.PathEscape\<close>\<close>

definition pathEscape :: "string \<Rightarrow> string" where
  "pathEscape s = concat (map (\<lambda>c. if plainChar c \<or> c \<in> set ''$&+:=@'' then [c]
     else [CHR ''%'', hexUpper (byte c div 16), hexUpper (byte c mod 16)]) s)"

definition componentDoc :: "napi \<Rightarrow> componentDecl \<Rightarrow> json" where
  "componentDoc a p =
     mapObj ([(''namespaceId'', JStr (cd_NamespaceID p)), (''appName'', JStr (cd_AppName p)), (''name'', JStr (cd_Name p)), (''kind'', JStr (cd_Kind p)),
       (''protocol'', JStr (cd_Protocol p)), (''serviceName'', JStr (cd_ServiceName p)), (''groupName'', JStr (cd_GroupName p)),
       (''clusterName'', JStr (cd_ClusterName p)), (''healthPath'', JStr (cd_HealthPath p)), (''weight'', JNum (na_showF a (cd_Weight p))),
       (''lbAlgorithm'', JStr (cd_LBAlgorithm p)), (''sticky'', JStr (cd_Sticky p))] @ metaMember (cd_Metadata p))"

definition PublishComponent :: "'w sdkEnv \<Rightarrow> componentDecl \<Rightarrow> ('w, unit) sdk" where
  "PublishComponent env p s =
     (if blank (cd_AppName p) \<or> blank (cd_Name p) then (Inl (ErrNilApplicationSpec ''a component needs an app name and a component name''), s)
      else postAt env ''PUT'' (''/apps/'' @ pathEscape (cd_AppName p) @ ''/components/'' @ pathEscape (cd_Name p)) (componentDoc (se_api env) p) s)"

definition routeDoc :: "routeDecl \<Rightarrow> json" where
  "routeDoc p =
     mapObj [(''namespaceId'', JStr (rd_NamespaceID p)), (''domain'', JStr (rd_Domain p)),
       (''pathPrefix'', JStr (if rd_PathPrefix p = '''' then ''/'' else rd_PathPrefix p)), (''appName'', JStr (rd_AppName p)),
       (''componentName'', JStr (rd_ComponentName p)), (''upstreamName'', JStr (rd_UpstreamName p)), (''priority'', jInt (rd_Priority p))]"

definition PublishRoute :: "'w sdkEnv \<Rightarrow> routeDecl \<Rightarrow> ('w, unit) sdk" where
  "PublishRoute env p s =
     (if blank (rd_Domain p) \<or> blank (rd_AppName p) \<or> blank (rd_ComponentName p)
      then (Inl (ErrNilApplicationSpec ''a route needs a domain, an app name and a component name''), s)
      else postAt env ''POST'' ''/routes'' (routeDoc p) s)"

definition step :: "string \<Rightarrow> ('w, unit) sdk \<Rightarrow> ('w, unit) sdk" where
  "step what m s = (case m s of (Inl e, s') \<Rightarrow> (Inl (ErrStep what e), s') | (Inr x, s') \<Rightarrow> (Inr x, s'))"

fun inTurn :: "('w, unit) sdk list \<Rightarrow> ('w, unit) sdk" where
  "inTurn [] s = (Inr (), s)"
| "inTurn (m # ms) s = kbind m (\<lambda>_. inTurn ms) s"

definition PublishApplicationModel :: "'w sdkEnv \<Rightarrow> appDecl \<Rightarrow> componentDecl list \<Rightarrow> routeDecl list \<Rightarrow> ('w, unit) sdk" where
  "PublishApplicationModel env p cs rs =
     (let comp = (\<lambda>x. let x1 = (if cd_NamespaceID x = '''' then x\<lparr>cd_NamespaceID := ad_NamespaceID p\<rparr> else x)
                       in if cd_AppName x1 = '''' then x1\<lparr>cd_AppName := ad_Name p\<rparr> else x1);
          route = (\<lambda>x. let x1 = (if rd_NamespaceID x = '''' then x\<lparr>rd_NamespaceID := ad_NamespaceID p\<rparr> else x)
                        in if rd_AppName x1 = '''' then x1\<lparr>rd_AppName := ad_Name p\<rparr> else x1)
      in inTurn (step ''application'' (PublishApplication env p)
                 # map (\<lambda>x. step ''component'' (PublishComponent env (comp x))) cs
                 @ map (\<lambda>x. step ''route'' (PublishRoute env (route x))) rs))"

subsection \<open>Publishing to the server\<close>

text \<open>The application endpoints of \<^verbatim>\<open>router.go\<close> the client uses; a body decoder has read the request before \<^verbatim>\<open>formOrJSON\<close> sees it.\<close>

fun pathUnescape :: "string \<Rightarrow> string option" where
  "pathUnescape [] = Some []"
| "pathUnescape (c # cs) =
     (if c = CHR ''%'' then
        (case cs of
           x # y # r \<Rightarrow> (case (hexVal x, hexVal y) of
              (Some m, Some n) \<Rightarrow> map_option (\<lambda>t. char_of (m * 16 + n) # t) (pathUnescape r)
            | _ \<Rightarrow> None)
         | _ \<Rightarrow> None)
      else map_option (\<lambda>t. c # t) (pathUnescape cs))"

definition goacosServe :: "napi \<Rightarrow> apiReq \<Rightarrow> dbHandler" where
  "goacosServe a r =
     (let missing = reply (writeText 404 ''404 page not found'')
      in if ar_Method r = ''POST'' \<and> ar_Path r = ''/goacos/v1/apps'' then appWrite a (drained r) r
         else if ar_Method r = ''POST'' \<and> ar_Path r = ''/goacos/v1/routes'' then routeWrite a (drained r) r
         else case splitOn CHR ''/'' (ar_Path r) of
                [e, g, v, p, app, k, cmp] \<Rightarrow>
                  if ar_Method r = ''PUT'' \<and> [e, g, v, p, k] = ['''', ''goacos'', ''v1'', ''apps'', ''components'']
                  then (case (pathUnescape app, pathUnescape cmp) of
                          (Some x, Some y) \<Rightarrow> componentWrite a (\<lambda>w. if w = ''app'' then x else if w = ''component'' then y else '''') (drained r) r
                        | _ \<Rightarrow> missing)
                  else missing
              | _ \<Rightarrow> missing)"

definition goacosEnv :: "napi \<Rightarrow> string \<Rightarrow> (int \<times> db) sdkEnv" where
  "goacosEnv a base = (serverEnv a base)
     \<lparr>se_do := (\<lambda>q (t, d). case goacosServe a (serverReq base q) d of (resp, d') \<Rightarrow> (HttpResponse (rs_code resp) (rs_body resp), (t, d')))\<rparr>"

lemma appOK_answer: "rs_code (appOK v) = 200" "rs_body (appOK v) = answer 200 '''' v"
  by (simp_all add: appOK_def writeJSON_def answer_def)

text \<open>The client takes the success code of these endpoints for an error of the registry.\<close>

lemma success_is_error:
  assumes "anonymous (c_cfg c)" "c_base c = base" "jsonValid v" "length (answer 200 '''' v) \<le> bodyLimit"
    and "goacosServe a (serverReq base (apiReqOf m (apiURL c ''/goacos/v1'' path []) (Some body) '''')) d = (appOK v, d')"
  shows "postAt (goacosEnv a base) m path body (c, (t, d)) =
    (Inl (ErrRegistry m path 200 (orString '''' (summarizeBody (answer 200 '''' v)))), (c, (t, d')))"
proof -
  have o: "openEnvelope a m path (answer 200 '''' v) = Inl (ErrRegistry m path 200 (orString '''' (summarizeBody (answer 200 '''' v))))"
    using openEnvelope_answer [OF assms(3) utf8_Nil, of 200] by simp
  have tk: "take bodyLimit (rs_body (appOK v)) = answer 200 '''' v" using assms(4) by (simp add: appOK_answer)
  show ?thesis using assms(1,2,5) o tk
    by (simp add: postAt_def doAt_def kbind_def retrying_def sendAt_def Let_def goacosEnv_def serverEnv_def ensureToken_def anonymous_def exchange_def appOK_answer(1))
qed

lemma UpsertApplication_quiet:
  assumes "script d = []" "uniqueBy appKey (application (tabs d))"
  shows "\<exists>as' b. UpsertApplication p d = (Inr b, d\<lparr>tabs := (tabs d)\<lparr>application := as'\<rparr>\<rparr>) \<and> lookupBy appKey as' (appKey p) = Some (appRow p)"
proof -
  let ?as = "application (tabs d)"
  have k: "(a_NamespaceId p, a_Name p) = appKey p" by (simp add: appKey_def)
  have g: "GetApplication (a_NamespaceId p) (a_Name p) d = (Inr (map_option scanApp (lookupBy appKey ?as (appKey p))), d)"
    using assms by (simp add: GetApplication_def go_simps apps.filter_key k split: option.split)
  show ?thesis
  proof (cases "lookupBy appKey ?as (appKey p)")
    case None
    then have "appKey p \<notin> appKey ` set ?as" by (simp add: apps.lookup_None)
    then show ?thesis using None g assms(1)
      by (intro exI [of _ "?as @ [appRow p]"] exI [of _ True])
         (auto simp: UpsertApplication_def go_simps insertUnique_def lookupBy_def find_append split: option.split)
  next
    case (Some r)
    have "setApp (appRow p) r = appRow p" using apps.lookup_Some [OF Some] by (cases r) (simp add: setApp_def appRow_def appKey_def)
    then show ?thesis using Some g assms(1) apps.lookup_update [of "\<lambda>r. appKey r = appKey p" "appRow p" ?as "appKey p"] apps.lookup_Some [OF Some]
      by (intro exI [of _ "updateWhere (\<lambda>r. appKey r = appKey p) (setApp (appRow p)) ?as"] exI [of _ False])
         (auto simp: UpsertApplication_def go_simps)
  qed
qed

lemma memberVals_sorted: "memberVals (sort_key fst kvs) k = map snd (sort_key fst (filter (\<lambda>(x, _). toLower x = toLower k) kvs))"
  by (simp add: memberVals_def filter_sort)

lemma sort_key_one: "sort_key f [x] = [x]" "sort_key f [] = []"
  by simp_all

lemma structOK_sorted: "structOK a schema (sort_key fst kvs) = structOK a schema kvs"
  by (simp add: structOK_def list_all_iff)

lemma mapObj_valid: "jsonValid (mapObj kvs) \<longleftrightarrow> (\<forall>(k, v)\<in>set kvs. utf8Valid k \<and> jsonValid v)"
  by (simp add: mapObj_def)

definition declared :: "appDecl \<Rightarrow> smap Application" where
  "declared p = \<lparr>a_NamespaceId = defaultNamespace (ad_NamespaceID p), a_Name = ad_Name p, a_DisplayName = ad_DisplayName p,
     a_Description = ad_Description p, a_Env = ad_Env p, a_Metadata = storeInto (map (\<lambda>k. (k, JStr (aget (ad_Metadata p) k))) (sort (remdups (map fst (ad_Metadata p))))) []\<rparr>"

definition declText :: "appDecl \<Rightarrow> bool" where
  "declText p \<longleftrightarrow> utf8Valid (ad_NamespaceID p) \<and> utf8Valid (ad_Name p) \<and> utf8Valid (ad_DisplayName p) \<and> utf8Valid (ad_Description p) \<and>
     utf8Valid (ad_Env p) \<and> metaUtf8 (ad_Metadata p)"

lemma appDoc_valid: "declText p \<Longrightarrow> jsonValid (appDoc p)"
  by (auto simp: appDoc_def mapObj_valid metaMember_def smapJson_valid declText_def utf8_ascii byte_def)

lemma appBody_decl:
  assumes "declText p" "ar_Body r = jsonEncode (appDoc p)"
  shows "appBody a rest r = (declared p)\<lparr>a_NamespaceId := ad_NamespaceID p\<rparr>"
proof -
  let ?kvs = "[(''namespaceId'', JStr (ad_NamespaceID p)), (''name'', JStr (ad_Name p)), (''displayName'', JStr (ad_DisplayName p)),
     (''description'', JStr (ad_Description p)), (''env'', JStr (ad_Env p))] @ metaMember (ad_Metadata p)"
  let ?m = "map (\<lambda>k. (k, JStr (aget (ad_Metadata p) k))) (sort (remdups (map fst (ad_Metadata p))))"
  have j: "jsonDecode (ar_Body r) = Some (JObj (sort_key fst ?kvs))"
    unfolding assms(2) using jsonDecode_encode [OF appDoc_valid [OF assms(1)]] by (simp only: appDoc_def mapObj_def)
  have s: "structOK a appSchema ?kvs"
    by (auto simp: structOK_def appSchema_def metaMember_def smapJson_def toLower_def lowerChar_def byte_def list_all_iff)
  have f: "fieldStr (sort_key fst ?kvs) ''namespaceId'' = ad_NamespaceID p" "fieldStr (sort_key fst ?kvs) ''name'' = ad_Name p"
    "fieldStr (sort_key fst ?kvs) ''displayName'' = ad_DisplayName p" "fieldStr (sort_key fst ?kvs) ''description'' = ad_Description p"
    "fieldStr (sort_key fst ?kvs) ''env'' = ad_Env p"
    by (simp_all add: fieldStr_def memberVals_sorted sort_key_one metaMember_def toLower_def lowerChar_def byte_def del: sort_key_simps)
  have m: "(case fieldMap (sort_key fst ?kvs) ''metadata'' of None \<Rightarrow> [] | Some m \<Rightarrow> m) = storeInto ?m []"
    by (simp add: fieldMap_def memberVals_sorted metaMember_def smapJson_def storeInto_def sort_key_one toLower_def lowerChar_def byte_def del: sort_key_simps)
  show ?thesis
    unfolding appBody_def decodeStruct_def j option.case json.case structOK_sorted using s f m by (simp add: declared_def)
qed

text \<open>C34. Declaring an application through the client never works: the server stores the application - its name, texts and metadata -
  and answers success, but the client reads the success code of that endpoint as an error, returns it, and publishes none of the
  components and routes that were to follow; their tables stay as they were.\<close>

theorem publish_stops_after_application:
  assumes c: "anonymous (c_cfg c)" "env = goacosEnv a (c_base c)"
    and p: "declText p" "\<not> blank (ad_Name p)" "ad_Name p \<noteq> ''''" "length (jsonString (ad_Name p)) \<le> 2 ^ 19"
    and d: "script d = []" "uniqueBy appKey (application (tabs d))"
  shows "\<exists>msg d'. PublishApplicationModel env p cs rs (c, (t, d)) = (Inl (ErrStep ''application'' (ErrRegistry ''POST'' ''/apps'' 200 msg)), (c, (t, d'))) \<and>
    lookupBy appKey (application (tabs d')) (appKey (declared p)) = Some (appRow (declared p)) \<and>
    application_component (tabs d') = application_component (tabs d) \<and> route_binding (tabs d') = route_binding (tabs d)"
proof -
  let ?q = "apiReqOf ''POST'' (apiURL c ''/goacos/v1'' ''/apps'' []) (Some (appDoc p)) ''''"
  let ?r = "serverReq (c_base c) ?q"
  have r: "ar_Method ?r = ''POST''" "ar_Path ?r = ''/goacos/v1/apps''" "ar_Body ?r = jsonEncode (appDoc p)"
    by (simp_all add: serverReq_def apiReqOf_def apiURL_def Let_def)
  obtain as' b where u: "UpsertApplication (declared p) d = (Inr b, d\<lparr>tabs := (tabs d)\<lparr>application := as'\<rparr>\<rparr>)"
      "lookupBy appKey as' (appKey (declared p)) = Some (appRow (declared p))"
    using UpsertApplication_quiet [OF d, of "declared p"] by blast
  let ?v = "mapObj [(''created'', JBool b), (''name'', JStr (ad_Name p))]" and ?d = "d\<lparr>tabs := (tabs d)\<lparr>application := as'\<rparr>\<rparr>"
  have w: "goacosServe a ?r d = (appOK ?v, ?d)"
    using u(1) p(3) by (simp add: goacosServe_def r appWrite_def appBody_decl [OF p(1) r(3)] Let_def andThen_def reply_def declared_def)
  have v: "jsonValid ?v" using p(1) by (simp add: mapObj_valid declText_def utf8_ascii byte_def)
  have "length (strconvItoa 200) \<le> 20" by (simp add: length_itoa)
  moreover have "mapObj [(''created'', JBool b), (''name'', JStr (ad_Name p))] = JObj [(''created'', JBool b), (''name'', JStr (ad_Name p))]"
    by (simp add: mapObj_def)
  ultimately have "length (answer 200 '''' ?v) \<le> bodyLimit"
    using p(4) by (simp add: answer_def envelope_def jInt_def bodyLimit_def jsonString_plain plainJson_def byte_def)
  from success_is_error [OF c(1) refl v this w]
  obtain msg where "PublishApplication env p (c, (t, d)) = (Inl (ErrRegistry ''POST'' ''/apps'' 200 msg), (c, (t, ?d)))"
    using p(2) c(2) by (auto simp: PublishApplication_def)
  then have "PublishApplicationModel env p cs rs (c, (t, d)) = (Inl (ErrStep ''application'' (ErrRegistry ''POST'' ''/apps'' 200 msg)), (c, (t, ?d)))"
    by (simp add: PublishApplicationModel_def Let_def kbind_def step_def)
  then show ?thesis using u(2) by fastforce
qed

definition demoDecl :: appDecl where
  "demoDecl = \<lparr>ad_NamespaceID = '''', ad_Name = ''shop'', ad_DisplayName = '''', ad_Description = '''', ad_Env = ''prod'', ad_Metadata = []\<rparr>"

definition demoRouteDecl :: routeDecl where
  "demoRouteDecl = \<lparr>rd_NamespaceID = '''', rd_Domain = ''shop.example'', rd_PathPrefix = '''', rd_AppName = '''', rd_ComponentName = ''web'', rd_UpstreamName = '''', rd_Priority = 0\<rparr>"

theorem publish_stops_after_application_witness:
  "\<exists>msg d'. PublishApplicationModel (goacosEnv sdkNapi ''http://r:1'') demoDecl [] [demoRouteDecl] (NewClient (openCfg ''''), (1000, \<lparr>tabs = empty_tables, script = []\<rparr>)) =
       (Inl (ErrStep ''application'' (ErrRegistry ''POST'' ''/apps'' 200 msg)), (NewClient (openCfg ''''), (1000, d'))) \<and>
     route_binding (tabs d') = []"
proof -
  have "c_base (NewClient (openCfg '''')) = ''http://r:1''" by (simp add: open_client demo_client)
  moreover have "declText demoDecl" "\<not> blank (ad_Name demoDecl)" "ad_Name demoDecl \<noteq> ''''" "length (jsonString (ad_Name demoDecl)) \<le> 2 ^ 19"
    by (simp_all add: declText_def demoDecl_def utf8_ascii byte_def metaUtf8_def blank_def trimSpace_def trimLeft_def trimRight_def isSpace_def
        jsonString_plain plainJson_def)
  moreover have "uniqueBy appKey (application empty_tables)" by (simp add: empty_tables_def uniqueBy_def)
  ultimately show ?thesis
    using publish_stops_after_application [OF open_facts(2) [of "''''"] refl, of demoDecl "\<lparr>tabs = empty_tables, script = []\<rparr>" sdkNapi "[]" "[demoRouteDecl]" 1000]
    by (auto simp: empty_tables_def)
qed

end
