(* ===== verification/Announcing.thy ===== *)
theory Announcing
  imports SdkClient
begin

text \<open>
  Registration driven by the environment (\<^verbatim>\<open>sdk/registry/service.go\<close>): the configuration a service gets from its variables, the
  policy for addresses nobody chose, and \<^verbatim>\<open>Announce\<close>; also \<^verbatim>\<open>internal/envbool\<close>.  The environment is a function from names to
  values, unset being empty.
\<close>

subsection \<open>Booleans\<close>

datatype envErr = NotBoolean string string | NotPort string string

definition truthy :: "string list" where
  "truthy = [''1'', ''t'', ''true'', ''yes'', ''y'', ''on'']"

definition falsy :: "string list" where
  "falsy = [''0'', ''f'', ''false'', ''no'', ''n'', ''off'']"

definition envBool :: "(string \<Rightarrow> string) \<Rightarrow> string \<Rightarrow> bool \<Rightarrow> envErr + bool" where
  "envBool getenv key fallback =
     (let raw = trimSpace (getenv key)
      in if raw = '''' then Inr fallback
         else if toLower raw \<in> set truthy then Inr True
         else if toLower raw \<in> set falsy then Inr False
         else Inl (NotBoolean key raw))"

text \<open>The copy of the server side.\<close>

definition envboolParse :: "(string \<Rightarrow> string) \<Rightarrow> string \<Rightarrow> bool \<Rightarrow> envErr + bool" where
  "envboolParse getenv key fallback =
     (let raw = trimSpace (getenv key)
      in if raw = '''' then Inr fallback
         else if toLower raw \<in> {''1'', ''t'', ''true'', ''yes'', ''y'', ''on''} then Inr True
         else if toLower raw \<in> {''0'', ''f'', ''false'', ''no'', ''n'', ''off''} then Inr False
         else Inl (NotBoolean key raw))"

definition envboolMustParse :: "(string \<Rightarrow> string) \<Rightarrow> string \<Rightarrow> bool \<Rightarrow> bool" where
  "envboolMustParse getenv key fallback = (case envboolParse getenv key fallback of Inl _ \<Rightarrow> fallback | Inr v \<Rightarrow> v)"

lemma envbool_copies_agree: "envboolParse = envBool"
  by (intro ext) (simp add: envboolParse_def envBool_def truthy_def falsy_def Let_def)

lemma truthy_falsy_disjoint: "set truthy \<inter> set falsy = {}"
  by (auto simp: truthy_def falsy_def)

subsection \<open>Addresses and ports\<close>

definition isUnspecified :: "Addr \<Rightarrow> bool" where
  "isUnspecified a \<longleftrightarrow> (case unmap a of NoAddr \<Rightarrow> False | V4 w \<Rightarrow> w = 0 | V6 w _ \<Rightarrow> w = 0)"

definition isRoutable :: "string \<Rightarrow> bool" where
  "isRoutable ip0 =
     (let ip = trimSpace ip0
      in if ip = '''' then False
         else case parseIP ip of None \<Rightarrow> False | Some a \<Rightarrow> \<not> isLoopback a \<and> \<not> isUnspecified a)"

definition isDialableLoopback :: "string \<Rightarrow> bool" where
  "isDialableLoopback ip = (case parseIP (trimSpace ip) of None \<Rightarrow> False | Some a \<Rightarrow> isLoopback a)"

definition advertisedPort :: "int \<Rightarrow> string \<Rightarrow> int" where
  "advertisedPort explicit listenAddr =
     (if explicit > 0 \<and> explicit \<le> 65535 then explicit
      else let addr = trimSpace listenAddr
           in if addr = '''' then 0
              else let portStr = (case splitHostPort addr of Some (_, p) \<Rightarrow> p | None \<Rightarrow> addr)
                   in case atoi (trimSpace portStr) of
                        None \<Rightarrow> 0
                      | Some p \<Rightarrow> if p \<le> 0 \<or> p > 65535 then 0 else p)"

subsection \<open>Metadata\<close>

definition metaSegment :: "string \<Rightarrow> smap \<Rightarrow> smap" where
  "metaSegment seg0 out =
     (let seg = trimSpace seg0
      in if seg = '''' then out
         else let (k0, v, ok) = cutAt CHR ''='' seg; k = trimSpace k0
              in if \<not> ok \<or> k = '''' then out else aput out k (trimSpace v))"

text \<open>A nil map stays nil only when there is nothing to merge.\<close>

definition mergeMetadata :: "smap option \<Rightarrow> string \<Rightarrow> smap option" where
  "mergeMetadata base raw0 =
     (let raw = trimSpace raw0; m = (case base of None \<Rightarrow> [] | Some b \<Rightarrow> b)
      in if raw = '''' \<and> m = [] then base else Some (fold metaSegment (splitOn CHR '','' raw) m))"

subsection \<open>The configuration\<close>

record Service =
  sv_Name :: string
  sv_ListenAddr :: string
  sv_AllowLoopback :: bool
  sv_Metadata :: "smap option"

definition envRecord :: "(string \<Rightarrow> string) \<Rightarrow> Service \<Rightarrow> bool \<Rightarrow> int \<Rightarrow> sdkConfig" where
  "envRecord getenv svc enabled port =
     (let name = trimSpace (getenv ''GOACOS_SERVICE_NAME'')
      in \<lparr>sc_Enabled = enabled, sc_ServerAddr = trimSpace (getenv ''GOACOS_SERVER_ADDR''),
          sc_ServiceName = (if name = '''' then trimSpace (sv_Name svc) else name),
          sc_NamespaceID = trimSpace (getenv ''GOACOS_NAMESPACE''), sc_GroupName = trimSpace (getenv ''GOACOS_GROUP''),
          sc_ClusterName = trimSpace (getenv ''GOACOS_CLUSTER''), sc_IP = trimSpace (getenv ''GOACOS_IP''),
          sc_IPAutoDetected = False, sc_Port = port, sc_Weight = 0,
          sc_Metadata = mergeMetadata (sv_Metadata svc) (getenv ''GOACOS_METADATA''),
          sc_Username = getenv ''GOACOS_USERNAME'', sc_Password = getenv ''GOACOS_PASSWORD'',
          sc_Token = trimSpace (getenv ''GOACOS_TOKEN''), sc_HeartbeatInterval = 0, sc_RequestTimeout = 0\<rparr>)"

definition detectAddress :: "netInterface list option \<Rightarrow> bool \<Rightarrow> sdkConfig \<Rightarrow> sdkConfig" where
  "detectAddress table allowLoopback cfg =
     (if sc_Enabled cfg \<and> sc_IP cfg = ''''
      then let detected = selectAdvertiseIP '''' table
           in if isRoutable detected \<or> (allowLoopback \<and> isDialableLoopback detected)
              then cfg\<lparr>sc_IP := detected, sc_IPAutoDetected := True\<rparr> else cfg
      else cfg)"

definition ConfigFromEnv :: "netInterface list option \<Rightarrow> (string \<Rightarrow> string) \<Rightarrow> Service \<Rightarrow> envErr + sdkConfig" where
  "ConfigFromEnv table getenv svc =
     (case envBool getenv ''GOACOS_ENABLED'' False of
        Inl e \<Rightarrow> Inl e
      | Inr enabled \<Rightarrow>
          (case envBool getenv ''GOACOS_ALLOW_LOOPBACK'' (sv_AllowLoopback svc) of
             Inl e \<Rightarrow> Inl e
           | Inr allowLoopback \<Rightarrow>
               (let raw = trimSpace (getenv ''GOACOS_PORT'')
                in case (if raw = '''' then Some 0 else atoi raw) of
                     None \<Rightarrow> Inl (NotPort ''GOACOS_PORT'' raw)
                   | Some port \<Rightarrow> Inr (detectAddress table allowLoopback (envRecord getenv svc enabled port)))))"

subsection \<open>Announcing\<close>

text \<open>What \<^verbatim>\<open>Announce\<close> leaves behind: nothing, a client whose registration failed, or a client whose loop was started.\<close>

datatype announced = Skipped string | RegistrationFailed sdkClient sdkErr | Running sdkClient

definition Announce :: "'w sdkEnv \<Rightarrow> sdkConfig \<Rightarrow> string \<Rightarrow> 'w \<Rightarrow> announced \<times> 'w" where
  "Announce env cfg listenAddr w =
     (let name = trimSpace (sc_ServiceName cfg); ip = trimSpace (sc_IP cfg); port = advertisedPort (sc_Port cfg) listenAddr
      in if \<not> sc_Enabled cfg then (Skipped ''disabled'', w)
         else if name = '''' then (Skipped ''no service name'', w)
         else if ip = '''' then (Skipped ''no address peers can dial'', w)
         else if parseIP ip = None then (Skipped ''configured address is not an IP'', w)
         else if port = 0 then (Skipped ''cannot determine the advertised port'', w)
         else case sdkRegister env (NewClient (cfg\<lparr>sc_IP := ip, sc_Port := port\<rparr>), w) of
                (Inl e, (c, w')) \<Rightarrow> (RegistrationFailed c e, w')
              | (Inr _, (c, w')) \<Rightarrow> (Running (case Start (Some c) of (_, Some c') \<Rightarrow> c' | (_, None) \<Rightarrow> c), w'))"

text \<open>The function it returns: the first call stops the client, later ones do nothing; the result tells whether a failure to
  deregister was reported.\<close>

definition announceStop :: "'w sdkEnv \<Rightarrow> ('w \<Rightarrow> bool) \<Rightarrow> ('w \<Rightarrow> 'w) \<Rightarrow> announced \<Rightarrow> bool \<Rightarrow> 'w \<Rightarrow> bool \<times> announced \<times> bool \<times> 'w" where
  "announceStop env over wait an called w =
     (if called then (False, an, True, w)
      else case an of
             Skipped m \<Rightarrow> (False, an, False, w)
           | RegistrationFailed c e \<Rightarrow> (case Stop env over wait (c, w) of (r, (c', w')) \<Rightarrow> (isl r, RegistrationFailed c' e, True, w'))
           | Running c \<Rightarrow> (case Stop env over wait (c, w) of (r, (c', w')) \<Rightarrow> (isl r, Running c', True, w')))"

subsection \<open>The address nobody chose\<close>

lemma trimSpace_id: "\<forall>c\<in>set s. \<not> isSpace c \<Longrightarrow> trimSpace s = s"
proof -
  assume a: "\<forall>c\<in>set s. \<not> isSpace c"
  have "dropWhile isSpace xs = xs" if "\<forall>c\<in>set xs. \<not> isSpace c" for xs using that by (cases xs) auto
  from this [of s] this [of "rev s"] show ?thesis using a by (simp add: trimSpace_def trimLeft_def trimRight_def)
qed

lemma string4_no_space: "\<forall>c\<in>set (string4 w). \<not> isSpace c"
proof -
  have "\<not> isSpace c" if "c \<in> set (decimal n)" for c n using decimal_chars [OF that] by (auto simp: isDigit_def isSpace_def)
  then show ?thesis by (auto simp: string4_def Let_def isSpace_def byte_def)
qed

lemma to4_V4: "to4 a \<noteq> NoAddr \<Longrightarrow> \<exists>w. to4 a = V4 w"
  by (auto simp: to4_def split: Addr.splits)

lemma selected_dialable:
  assumes "ip = selectAdvertiseIP '''' table" "ip \<noteq> ''''"
  shows "\<exists>w. ip = string4 w \<and> parseIP ip = Some (V4 w) \<and> dialable (V4 w)"
proof -
  obtain "is" where t: "table = Some is" using assms by (cases table) (auto simp: selectAdvertiseIP_def)
  have ip: "ip = preferred (offered is) ''''" using assms(1) by (simp add: t selectAdvertiseIP_def scanIfaces_spec)
  have "\<exists>a\<in>set (offered is). ip = addrString a"
  proof (cases "find isMeshAddr (offered is)")
    case None
    then show ?thesis using ip assms(2) by (auto simp: preferred_def split: list.splits)
  next
    case (Some a)
    then have "a \<in> set (offered is)" by (auto simp: find_Some_iff)
    then show ?thesis using ip Some by (auto simp: preferred_def)
  qed
  then obtain x where x: "dialable (to4 x)" "ip = addrString (to4 x)" by (auto simp: offered_def)
  obtain w where w: "to4 x = V4 w" using to4_V4 [of x] x(1) by (auto simp: dialable_def)
  then show ?thesis using x by (simp add: parseIP_def parseAddr_string4)
qed

lemma dialable_routable: "dialable (V4 w) \<Longrightarrow> isRoutable (string4 w)"
  using addrString_not_Nil [of "V4 w"]
  by (auto simp: isRoutable_def trimSpace_id [OF string4_no_space] parseIP_def parseAddr_string4 dialable_def isUnspecified_def isGlobalUnicast_def to4_def)

text \<open>The address a service publishes without having been given one: when registration is on and \<^verbatim>\<open>GOACOS_IP\<close> is blank, the
  configuration carries exactly the address detected on the interfaces, marked as detected, and every such address is an IPv4
  address peers can dial - never loopback, link-local, multicast or unspecified, whatever \<^verbatim>\<open>GOACOS_ALLOW_LOOPBACK\<close> says.\<close>

theorem detected_address:
  assumes "ConfigFromEnv table getenv svc = Inr cfg" "sc_Enabled cfg" "trimSpace (getenv ''GOACOS_IP'') = ''''"
  shows "sc_IP cfg = selectAdvertiseIP '''' table \<and> (sc_IPAutoDetected cfg \<longleftrightarrow> sc_IP cfg \<noteq> '''') \<and>
    (sc_IP cfg \<noteq> '''' \<longrightarrow> (\<exists>w. parseIP (sc_IP cfg) = Some (V4 w) \<and> dialable (V4 w)))"
proof -
  let ?d = "selectAdvertiseIP '''' table"
  have e: "\<not> isRoutable ''''" "\<not> isDialableLoopback ''''"
    by (simp_all add: isRoutable_def isDialableLoopback_def trimSpace_def trimLeft_def trimRight_def parseIP_def parseAddr_def)
  have r: "?d \<noteq> '''' \<Longrightarrow> isRoutable ?d" using selected_dialable [OF refl, of table] dialable_routable by metis
  obtain allow port where c: "cfg = detectAddress table allow (envRecord getenv svc (sc_Enabled cfg) port)"
  proof -
    obtain en allow port where "cfg = detectAddress table allow (envRecord getenv svc en port)"
      using assms(1) by (auto simp: ConfigFromEnv_def Let_def split: sum.splits option.splits)
    moreover from this have "en = sc_Enabled cfg" by (simp add: detectAddress_def envRecord_def Let_def)
    ultimately show ?thesis using that [of allow port] by simp
  qed
  define rec where "rec = envRecord getenv svc (sc_Enabled cfg) port"
  have rec: "sc_Enabled rec" "sc_IP rec = ''''" "\<not> sc_IPAutoDetected rec" using assms(2,3) by (simp_all add: rec_def envRecord_def Let_def)
  have "detectAddress table allow rec = (if ?d \<noteq> '''' then rec\<lparr>sc_IP := ?d, sc_IPAutoDetected := True\<rparr> else rec)"
    using rec e r by (cases "?d = ''''") (simp_all add: detectAddress_def Let_def)
  then have "sc_IP cfg = ?d \<and> (sc_IPAutoDetected cfg \<longleftrightarrow> sc_IP cfg \<noteq> '''')"
    using c rec unfolding rec_def [symmetric] by (cases "?d = ''''") simp_all
  then show ?thesis using selected_dialable [OF refl, of table] by metis
qed

subsection \<open>What is announced\<close>

lemma advertisedPort_range: "advertisedPort p la \<noteq> 0 \<Longrightarrow> 1 \<le> advertisedPort p la \<and> advertisedPort p la \<le> 65535"
  by (auto simp: advertisedPort_def Let_def split: option.splits if_splits)

text \<open>C37. Announcing a service never publishes a guess: when any of the switch, the name, an IP address or a port is missing it
  skips, and nothing is sent; otherwise the client it leaves behind is enabled and carries a name, an address that is an IP and a
  port between 1 and 65535; and the heartbeat loop runs exactly when the registration succeeded.\<close>

theorem announce_never_guesses:
  assumes "Announce env cfg listen w = (out, w')"
  shows "case out of
      Skipped _ \<Rightarrow> w' = w
    | RegistrationFailed c e \<Rightarrow> \<not> c_started c \<and> sc_Enabled (c_cfg c) \<and> trimSpace (sc_ServiceName (c_cfg c)) \<noteq> '''' \<and> parseIP (sc_IP (c_cfg c)) \<noteq> None \<and>
        1 \<le> sc_Port (c_cfg c) \<and> sc_Port (c_cfg c) \<le> 65535
    | Running c \<Rightarrow> c_started c \<and> ready c = None \<and> parseIP (sc_IP (c_cfg c)) \<noteq> None"
proof (cases "out")
  case (Skipped m)
  then show ?thesis using assms by (auto simp: Announce_def Let_def split: if_splits prod.splits sum.splits)
next
  case (RegistrationFailed c e)
  let ?n = "NewClient (cfg\<lparr>sc_IP := trimSpace (sc_IP cfg), sc_Port := advertisedPort (sc_Port cfg) listen\<rparr>)"
  have r: "sdkRegister env (?n, w) = (Inl e, (c, w'))" and g: "sc_Enabled cfg" "trimSpace (sc_ServiceName cfg) \<noteq> ''''"
      "parseIP (trimSpace (sc_IP cfg)) \<noteq> None" "advertisedPort (sc_Port cfg) listen \<noteq> 0"
    using assms RegistrationFailed by (auto simp: Announce_def Let_def split: if_splits prod.splits sum.splits)
  have "c_cfg c = c_cfg ?n" "c_started c = c_started ?n" using self_register [OF r] by (simp_all add: sameSelf_def)
  then show ?thesis using RegistrationFailed g advertisedPort_range [OF g(4)] by (simp add: NewClient_def Let_def)
next
  case (Running c)
  let ?n = "NewClient (cfg\<lparr>sc_IP := trimSpace (sc_IP cfg), sc_Port := advertisedPort (sc_Port cfg) listen\<rparr>)"
  obtain c1 where r: "sdkRegister env (?n, w) = (Inr (), (c1, w'))" and c: "c = (case Start (Some c1) of (_, Some c') \<Rightarrow> c' | (_, None) \<Rightarrow> c1)"
      and g: "parseIP (trimSpace (sc_IP cfg)) \<noteq> None"
    using assms Running by (auto simp: Announce_def Let_def split: if_splits prod.splits sum.splits)
  have s: "c_cfg c1 = c_cfg ?n" "c_base c1 = c_base ?n" "c_started c1 = c_started ?n" using self_register [OF r] by (simp_all add: sameSelf_def)
  have "ready ?n = None" using r by (auto simp: sdkRegister_def guarded_def split: option.splits)
  moreover have "ready c1 = ready ?n" unfolding ready_def usable_def s(1,2) ..
  ultimately have rc: "ready c1 = None" by simp
  have ns: "\<not> c_started c1" using s(3) by (simp add: NewClient_def Let_def)
  have "c = c1\<lparr>c_started := True, c_stopped := False\<rparr>" using c rc ns by (simp add: Start_def)
  moreover have "sc_IP (c_cfg c1) = trimSpace (sc_IP cfg)" unfolding s(1) by (simp add: NewClient_def Let_def)
  moreover have "ready (c1\<lparr>c_started := True, c_stopped := False\<rparr>) = ready c1" unfolding ready_def usable_def by simp
  ultimately show ?thesis using Running rc g by simp
qed

definition demoEnvVars :: "string \<Rightarrow> string" where
  "demoEnvVars k = (if k = ''GOACOS_ENABLED'' then ''TRUE'' else if k = ''GOACOS_PORT'' then '' 80 '' else '''')"

definition demoTable :: "netInterface list option" where
  "demoTable = Some [\<lparr>ni_Name = ''lo'', ni_Up = True, ni_Addrs = [IPNet (V4 0x7F000001)]\<rparr>, \<lparr>ni_Name = ''eth0'', ni_Up = True, ni_Addrs = [IPNet (V4 0x0A000001)]\<rparr>,
     \<lparr>ni_Name = ''wt0'', ni_Up = True, ni_Addrs = [IPNet (V4 0x64400007)]\<rparr>]"

theorem detected_address_witness:
  "\<exists>cfg. ConfigFromEnv demoTable demoEnvVars \<lparr>sv_Name = ''s'', sv_ListenAddr = '''', sv_AllowLoopback = False, sv_Metadata = None\<rparr> = Inr cfg \<and>
     sc_IP cfg = selectAdvertiseIP '''' demoTable \<and> (sc_IPAutoDetected cfg \<longleftrightarrow> sc_IP cfg \<noteq> '''')"
proof -
  let ?svc = "\<lparr>sv_Name = ''s'', sv_ListenAddr = '''', sv_AllowLoopback = False, sv_Metadata = None\<rparr>"
  have t: "trimSpace ''TRUE'' = ''TRUE''" "trimSpace '' 80 '' = ''80''" "trimSpace '''' = ''''"
    by (simp_all add: trimSpace_def trimLeft_def trimRight_def isSpace_def byte_def)
  have "toLower ''TRUE'' = ''true''" by code_simp
  moreover have "atoi ''80'' = Some 80" by (simp add: atoi_def decValue_def digitVal_def byte_def isDigit_def)
  ultimately have c: "ConfigFromEnv demoTable demoEnvVars ?svc = Inr (detectAddress demoTable False (envRecord demoEnvVars ?svc True 80))"
    by (simp add: ConfigFromEnv_def envBool_def demoEnvVars_def t truthy_def Let_def)
  have "sc_Enabled (detectAddress demoTable False (envRecord demoEnvVars ?svc True 80))" by (simp add: detectAddress_def envRecord_def Let_def)
  moreover have "trimSpace (demoEnvVars ''GOACOS_IP'') = ''''" by (simp add: demoEnvVars_def t)
  ultimately show ?thesis using detected_address [OF c] c by blast
qed

theorem announce_never_guesses_witness:
  "\<exists>m. Announce downEnv (demoCfg\<lparr>sc_IP := '' ''\<rparr>) '':8080'' 0 = (Skipped m, 0)"
proof -
  obtain out w' where a: "Announce downEnv (demoCfg\<lparr>sc_IP := '' ''\<rparr>) '':8080'' 0 = (out, w')"
    by (cases "Announce downEnv (demoCfg\<lparr>sc_IP := '' ''\<rparr>) '':8080'' 0")
  have t: "trimSpace '' '' = ''''" "trimSpace ''s'' = ''s''" by (simp_all add: trimSpace_def trimLeft_def trimRight_def isSpace_def byte_def)
  have "out = Skipped ''no address peers can dial''" using a by (auto simp: Announce_def demoCfg_def Let_def t)
  then show ?thesis using announce_never_guesses [OF a] a by simp
qed

end
