(* ===== verification/Registrar.thy ===== *)
theory Registrar
  imports Announcing
begin

text \<open>
  Finding the registry (\<^verbatim>\<open>sdk/registry/discover.go\<close>) and the sidecar command that registers an endpoint it does not serve
  (\<^verbatim>\<open>cmd/goacos-registrar\<close>).  Probing and dialling are functions of the state of the outside; a probe gets the time it may take.
\<close>

subsection \<open>Candidates\<close>

record Candidate =
  cn_Addr :: string
  cn_Source :: string

fun afterScheme :: "string \<Rightarrow> string option" where
  "afterScheme [] = None"
| "afterScheme (c # s) = (if hasPrefix (c # s) ''://'' then Some (drop 3 (c # s)) else afterScheme s)"

definition candidateKey :: "string \<Rightarrow> string" where
  "candidateKey addr0 =
     (let adr = trimSuffix (trimSpace (toLower addr0)) ''/''
      in case afterScheme adr of Some r \<Rightarrow> r | None \<Rightarrow> adr)"

definition wellKnownNames :: "string list" where
  "wellKnownNames = [''goacos'', ''nacos'', ''host.docker.internal'']"

definition addCandidate :: "string \<times> string \<Rightarrow> Candidate list \<Rightarrow> Candidate list" where
  "addCandidate x acc =
     (let adr = trimSpace (fst x)
      in if adr = '''' then acc
         else if candidateKey adr \<in> candidateKey ` cn_Addr ` set acc then acc
         else acc @ [\<lparr>cn_Addr = adr, cn_Source = snd x\<rparr>])"

definition Candidates :: "sdkConfig \<Rightarrow> Candidate list" where
  "Candidates cfg =
     fold addCandidate
       ((if sc_ServerAddr cfg \<noteq> '''' then [(sc_ServerAddr cfg, ''config'')] else []) @
        map (\<lambda>n. (n @ '':'' @ strconvItoa 8848, ''wellknown:'' @ n)) wellKnownNames @ [(''127.0.0.1:'' @ strconvItoa 8848, ''loopback'')]) []"

subsection \<open>Probing\<close>

definition probeBodyLimit :: nat where "probeBodyLimit = 4096"

text \<open>The health probe: the error it reports, if any.\<close>

definition defaultProbe :: "'w sdkEnv \<Rightarrow> string \<Rightarrow> 'w \<Rightarrow> string option \<times> 'w" where
  "defaultProbe env adr w =
     (let base = normalizeBaseURL adr; u = base @ ''/nacos'' @ ''/actuator/health''
      in if base = '''' then (Some ''empty address'', w)
         else case se_newRequest env ''GET'' u of
                Some e \<Rightarrow> (Some (''build request: '' @ e), w)
              | None \<Rightarrow>
                  (case se_do env \<lparr>q_Method = ''GET'', q_URL = u, q_ContentType = '''', q_Authorization = '''', q_Body = ''''\<rparr> w of
                     (HttpError e, w') \<Rightarrow> (Some e, w')
                   | (HttpUnreadable e, w') \<Rightarrow> (Some (''read response: '' @ e), w')
                   | (HttpResponse st body0, w') \<Rightarrow>
                       (let body = take probeBodyLimit body0;
                            status = (case unmarshalStruct (se_api env) [(''status'', FStr)] body of Some kvs \<Rightarrow> fieldStr kvs ''status'' | None \<Rightarrow> '''')
                        in if st < 200 \<or> st > 299 then (Some (''unexpected status '' @ strconvItoa st @ '': '' @ summarizeBody body), w')
                           else if status \<noteq> '''' \<and> \<not> equalFold status ''UP'' then (Some (''health status '' @ na_quote (se_api env) status), w')
                           else (None, w'))))"

record probeFailure =
  pf_addr :: string
  pf_source :: string
  pf_elapsed :: int
  pf_err :: "string option"

text \<open>\<open>Duration.Round(time.Millisecond)\<close> of a duration that is not negative.\<close>

definition roundMs :: "int \<Rightarrow> int" where
  "roundMs d = (let r = d mod millisecond in if r + r < millisecond then d - r else d + (millisecond - r))"

definition perCandidateTimeout :: int where "perCandidateTimeout = 2 * second"

text \<open>\<open>probe\<close> takes the time it may use and the address; \<open>dead\<close> tells that the overall context is over.  A failure without an error
  is the candidate that was not probed for that reason.\<close>

fun discoverLoop :: "('w \<Rightarrow> int) \<Rightarrow> ('w \<Rightarrow> bool) \<Rightarrow> (int \<Rightarrow> string \<Rightarrow> 'w \<Rightarrow> string option \<times> 'w) \<Rightarrow> int \<Rightarrow>
    Candidate list \<Rightarrow> probeFailure list \<Rightarrow> 'w \<Rightarrow> (probeFailure list + string) \<times> 'w" where
  "discoverLoop now dead probe deadline [] fs w = (Inl fs, w)"
| "discoverLoop now dead probe deadline (cn # cs) fs w =
     (if dead w then (Inl (fs @ [\<lparr>pf_addr = ''(not probed)'', pf_source = cn_Source cn, pf_elapsed = 0, pf_err = None\<rparr>]), w)
      else let budget = min perCandidateTimeout (deadline - now w)
           in if budget \<le> 0 then (Inl fs, w)
              else case probe budget (cn_Addr cn) w of
                     (None, w') \<Rightarrow> (Inr (cn_Addr cn), w')
                   | (Some e, w') \<Rightarrow>
                       discoverLoop now dead probe deadline cs
                         (fs @ [\<lparr>pf_addr = cn_Addr cn, pf_source = cn_Source cn, pf_elapsed = roundMs (now w' - now w), pf_err = Some e\<rparr>]) w')"

definition DefaultDiscoverTimeout :: int where "DefaultDiscoverTimeout = 10 * second"

datatype discoverErr = NoCandidates | NothingAnswered "Candidate list" int "probeFailure list"

definition discoverWith :: "('w \<Rightarrow> int) \<Rightarrow> ('w \<Rightarrow> bool) \<Rightarrow> (int \<Rightarrow> string \<Rightarrow> 'w \<Rightarrow> string option \<times> 'w) \<Rightarrow> Candidate list \<Rightarrow> int \<Rightarrow>
    'w \<Rightarrow> (discoverErr + string) \<times> 'w" where
  "discoverWith now dead probe cs timeout0 w =
     (if cs = [] then (Inl NoCandidates, w)
      else let timeout = (if timeout0 \<le> 0 then DefaultDiscoverTimeout else timeout0)
           in case discoverLoop now dead probe (now w + timeout) cs [] w of
                (Inl fs, w') \<Rightarrow> (Inl (NothingAnswered cs timeout fs), w')
              | (Inr a, w') \<Rightarrow> (Inr a, w'))"

definition Discover :: "'w sdkEnv \<Rightarrow> ('w \<Rightarrow> bool) \<Rightarrow> Candidate list \<Rightarrow> int \<Rightarrow> 'w \<Rightarrow> (discoverErr + string) \<times> 'w" where
  "Discover env dead = discoverWith (se_now env) dead (\<lambda>_. defaultProbe env)"

subsection \<open>The sidecar\<close>

record options =
  o_server :: string
  o_service :: string
  o_port :: int
  o_advertiseIP :: string
  o_namespace :: string
  o_group :: string
  o_cluster :: string
  o_weight :: rat
  o_role :: string
  o_meta :: "string list"
  o_username :: string
  o_password :: string
  o_allowLoopback :: bool
  o_verifyDial :: bool
  o_dialTimeout :: int

definition envInt :: "(string \<Rightarrow> string) \<Rightarrow> string \<Rightarrow> int \<Rightarrow> int" where
  "envInt getenv key fallback =
     (if getenv key \<noteq> '''' then (case atoi (getenv key) of Some n \<Rightarrow> n | None \<Rightarrow> fallback) else fallback)"

text \<open>The defaults of the flags.\<close>

definition newFlagSet :: "(string \<Rightarrow> string) \<Rightarrow> options" where
  "newFlagSet getenv = \<lparr>o_server = getenv ''GOACOS_SERVER_ADDR'', o_service = getenv ''GOACOS_SERVICE_NAME'', o_port = envInt getenv ''GOACOS_PORT'' 0,
     o_advertiseIP = getenv ''GOACOS_ADVERTISE_IP'', o_namespace = getenv ''GOACOS_NAMESPACE'', o_group = getenv ''GOACOS_GROUP'',
     o_cluster = getenv ''GOACOS_CLUSTER'', o_weight = 1, o_role = getenv ''GOACOS_ROLE'', o_meta = [], o_username = getenv ''GOACOS_USERNAME'',
     o_password = getenv ''GOACOS_PASSWORD'', o_allowLoopback = envboolMustParse getenv ''GOACOS_ALLOW_LOOPBACK'' False, o_verifyDial = True,
     o_dialTimeout = 30 * second\<rparr>"

definition stringListSet :: "string \<Rightarrow> options \<Rightarrow> options" where
  "stringListSet v ops = ops\<lparr>o_meta := o_meta ops @ [v]\<rparr>"

datatype optErr = NoService | PortRange int | NoServer | NoAddress | NotAnAddress string | Wildcard string | LoopbackRefused string | BadMeta string

text \<open>\<^verbatim>\<open>netip.Addr.IsUnspecified\<close> compares with the two unspecified addresses.\<close>

definition netipUnspecified :: "Addr \<Rightarrow> bool" where
  "netipUnspecified a \<longleftrightarrow> a = V4 0 \<or> a = V6 0 []"

definition checkAddress :: "string \<Rightarrow> bool \<Rightarrow> optErr option" where
  "checkAddress ip allowLoopback =
     (case parseAddr ip of
        None \<Rightarrow> Some (NotAnAddress ip)
      | Some a \<Rightarrow>
          if netipUnspecified a then Some (Wildcard ip)
          else if isLoopback a then (if \<not> allowLoopback then Some (LoopbackRefused ip) else None)
          else None)"

fun metaFlags :: "string list \<Rightarrow> smap \<Rightarrow> optErr + smap" where
  "metaFlags [] m = Inr m"
| "metaFlags (kv # kvs) m =
     (let (k, v, ok) = cutAt CHR ''='' kv in if \<not> ok \<or> k = '''' then Inl (BadMeta kv) else metaFlags kvs (aput m k v))"

definition registryConfig :: "netInterface list option \<Rightarrow> options \<Rightarrow> optErr + sdkConfig" where
  "registryConfig table ops =
     (let ip = (if o_advertiseIP ops = '''' then selectAdvertiseIP '''' table else o_advertiseIP ops)
      in if o_service ops = '''' then Inl NoService
         else if o_port ops \<le> 0 \<or> o_port ops > 65535 then Inl (PortRange (o_port ops))
         else if o_server ops = '''' then Inl NoServer
         else if ip = '''' then Inl NoAddress
         else case checkAddress ip (o_allowLoopback ops) of
                Some e \<Rightarrow> Inl e
              | None \<Rightarrow>
                  (case metaFlags (o_meta ops) [] of
                     Inl e \<Rightarrow> Inl e
                   | Inr m \<Rightarrow>
                       Inr \<lparr>sc_Enabled = True, sc_ServerAddr = o_server ops, sc_ServiceName = o_service ops, sc_NamespaceID = o_namespace ops,
                         sc_GroupName = o_group ops, sc_ClusterName = o_cluster ops, sc_IP = ip, sc_IPAutoDetected = False, sc_Port = o_port ops,
                         sc_Weight = o_weight ops, sc_Metadata = Some (if o_role ops \<noteq> '''' then aput m ''role'' (o_role ops) else m),
                         sc_Username = o_username ops, sc_Password = o_password ops, sc_Token = '''', sc_HeartbeatInterval = 0, sc_RequestTimeout = 0\<rparr>))"

text \<open>Waiting for the endpoint: dial, and after a failure give up past the deadline or sleep a second.\<close>

record 'w dialEnv =
  de_now :: "'w \<Rightarrow> int"
  de_dial :: "string \<Rightarrow> int \<Rightarrow> 'w \<Rightarrow> bool \<times> 'w"
  de_sleep :: "int \<Rightarrow> 'w \<Rightarrow> 'w"

partial_function (option) dialLoop :: "'w dialEnv \<Rightarrow> string \<Rightarrow> int \<Rightarrow> int \<Rightarrow> 'w \<Rightarrow> (bool \<times> 'w) option" where
  "dialLoop de ip port deadline w =
     (case de_dial de ip port w of
        (ok, w') \<Rightarrow>
          if ok then Some (True, w')
          else if de_now de w' > deadline then Some (False, w') else dialLoop de ip port deadline (de_sleep de second w'))"

definition waitForDial :: "'w dialEnv \<Rightarrow> string \<Rightarrow> int \<Rightarrow> int \<Rightarrow> 'w \<Rightarrow> (bool \<times> 'w) option" where
  "waitForDial de ip port timeout w = dialLoop de ip port (de_now de w + timeout) w"

datatype runErr = BadOptions optErr | NothingListens | RegisterFailed sdkErr | DeregisterFailed sdkErr

text \<open>The command: the signal cancels the context under which the loop of the client runs; \<open>until\<close> is the wait for it when no loop
  runs.  The stop has a context of its own.\<close>

definition registrarRun :: "'w sdkEnv \<Rightarrow> 'w dialEnv \<Rightarrow> netInterface list option \<Rightarrow> ('w \<Rightarrow> 'w) \<Rightarrow> ('w \<Rightarrow> bool) \<Rightarrow> ('w \<Rightarrow> 'w) \<Rightarrow> options \<Rightarrow> 'w \<Rightarrow>
    ((runErr + unit) \<times> 'w) option" where
  "registrarRun env de table until over wait ops w =
     (case registryConfig table ops of
        Inl e \<Rightarrow> Some (Inl (BadOptions e), w)
      | Inr cfg \<Rightarrow>
          (case (if o_verifyDial ops then waitForDial de (sc_IP cfg) (sc_Port cfg) (o_dialTimeout ops) w else Some (True, w)) of
             None \<Rightarrow> None
           | Some (False, w1) \<Rightarrow> Some (Inl NothingListens, w1)
           | Some (True, w1) \<Rightarrow>
               (case sdkRegister env (NewClient cfg, w1) of
                  (Inl e, (_, w2)) \<Rightarrow> Some (Inl (RegisterFailed e), w2)
                | (Inr _, (c, w2)) \<Rightarrow>
                    (case Start (Some c) of
                       (started, Some c') \<Rightarrow>
                         (case (if started then run env (c', w2) else Some (c', until w2)) of
                            None \<Rightarrow> None
                          | Some s3 \<Rightarrow>
                              (case Stop env over wait s3 of
                                 (Inl e, (_, w4)) \<Rightarrow> Some (Inl (DeregisterFailed e), w4)
                               | (Inr _, (_, w4)) \<Rightarrow> Some (Inr (), w4)))
                     | (_, None) \<Rightarrow> Some (Inr (), w2)))))"

subsection \<open>Candidates are listed once\<close>

definition keysOf :: "Candidate list \<Rightarrow> string list" where
  "keysOf cs = map (\<lambda>cn. candidateKey (cn_Addr cn)) cs"

lemma addCandidate_distinct: "distinct (keysOf acc) \<Longrightarrow> distinct (keysOf (addCandidate x acc))"
  by (auto simp: addCandidate_def keysOf_def Let_def image_image)

lemma addCandidate_length: "length (addCandidate x acc) \<le> Suc (length acc)"
  by (simp add: addCandidate_def Let_def)

lemma fold_addCandidate:
  "distinct (keysOf acc) \<Longrightarrow> distinct (keysOf (fold addCandidate xs acc))"
  "length (fold addCandidate xs acc) \<le> length xs + length acc"
proof (induction xs arbitrary: acc)
  case (Cons x xs)
  { case 1 then show ?case using Cons.IH(1) addCandidate_distinct by simp }
  { case 2 show ?case using Cons.IH(2) [of "addCandidate x acc"] addCandidate_length [of x acc] by simp }
qed simp_all

lemma Candidates_distinct: "distinct (keysOf (Candidates cfg))"
  unfolding Candidates_def by (rule fold_addCandidate(1)) (simp add: keysOf_def)

lemma Candidates_length: "length (Candidates cfg) \<le> 5"
proof -
  have "length (Candidates cfg) \<le> length ((if sc_ServerAddr cfg \<noteq> '''' then [(sc_ServerAddr cfg, ''config'')] else []) @
        map (\<lambda>n. (n @ '':'' @ strconvItoa 8848, ''wellknown:'' @ n)) wellKnownNames @ [(''127.0.0.1:'' @ strconvItoa 8848, ''loopback'')]) + length ([] :: Candidate list)"
    unfolding Candidates_def by (rule fold_addCandidate(2))
  also have "\<dots> \<le> 5" by (simp add: wellKnownNames_def)
  finally show ?thesis .
qed

subsection \<open>Discovery\<close>

text \<open>The overall deadline bounds the search as soon as every probe keeps to the time it is given.\<close>

lemma discoverLoop_deadline:
  assumes "\<And>b a w. 0 < b \<Longrightarrow> now (snd (probe b a w)) \<le> now w + b" and "now w \<le> deadline"
  shows "now (snd (discoverLoop now dead probe deadline cs fs w)) \<le> deadline"
  using assms(2)
proof (induction cs arbitrary: fs w)
  case (Cons cn cs)
  define b where "b = min perCandidateTimeout (deadline - now w)"
  have t: "0 < b \<Longrightarrow> now (snd (probe b (cn_Addr cn) w)) \<le> deadline"
    using assms(1) [of b "cn_Addr cn" w] by (simp add: b_def)
  show ?case
    using t Cons by (auto simp: Let_def b_def [symmetric] split: prod.split option.split)
qed simp

text \<open>The address that is found belongs to a candidate whose probe succeeded within at most two seconds.\<close>

lemma discoverLoop_found:
  "discoverLoop now dead probe deadline cs fs w = (Inr a, w') \<Longrightarrow>
     \<exists>cn b w1. cn \<in> set cs \<and> a = cn_Addr cn \<and> 0 < b \<and> b \<le> perCandidateTimeout \<and> probe b a w1 = (None, w')"
proof (induction cs arbitrary: fs w)
  case (Cons cn cs)
  define b where "b = min perCandidateTimeout (deadline - now w)"
  obtain r w1 where pr: "probe b (cn_Addr cn) w = (r, w1)" by (cases "probe b (cn_Addr cn) w")
  have g: "\<not> dead w" "0 < b" using Cons.prems by (auto simp: b_def Let_def split: if_splits)
  have l: "b \<le> perCandidateTimeout" by (simp add: b_def)
  show ?case
  proof (cases r)
    case None
    then have "a = cn_Addr cn" "w1 = w'" using Cons.prems pr g by (simp_all add: Let_def b_def [symmetric])
    then show ?thesis using None pr g l by auto
  next
    case (Some e)
    then have "\<exists>gs. discoverLoop now dead probe deadline cs gs w1 = (Inr a, w')" using Cons.prems pr g by (auto simp: Let_def b_def [symmetric])
    then show ?thesis using Cons.IH by (metis list.set_intros(2))
  qed
qed simp

text \<open>With room for a full probe of every candidate that is left, the first live one is found.\<close>

lemma discoverLoop_live:
  assumes up: "\<And>a w. fst (probe perCandidateTimeout a w) = None \<longleftrightarrow> up a"
    and time: "\<And>a w. now (snd (probe perCandidateTimeout a w)) \<le> now w + perCandidateTimeout"
    and dead: "\<And>w. now w < deadline \<Longrightarrow> \<not> dead w"
  shows "now w + int (length cs) * perCandidateTimeout \<le> deadline \<Longrightarrow>
    (case find (\<lambda>cn. up (cn_Addr cn)) cs of
       Some cn \<Rightarrow> fst (discoverLoop now dead probe deadline cs fs w) = Inr (cn_Addr cn)
     | None \<Rightarrow> \<exists>gs. fst (discoverLoop now dead probe deadline cs fs w) = Inl (fs @ gs) \<and> map pf_addr gs = map cn_Addr cs)"
proof (induction cs arbitrary: fs w)
  case (Cons cn cs)
  have p: "0 < perCandidateTimeout" by (simp add: perCandidateTimeout_def second_def)
  have "0 \<le> int (length cs) * perCandidateTimeout" using p by simp
  then have room: "perCandidateTimeout \<le> deadline - now w" using Cons.prems by (simp add: distrib_right)
  have b: "min perCandidateTimeout (deadline - now w) = perCandidateTimeout" "\<not> dead w"
    using room p dead [of w] by simp_all
  obtain r w' where pr: "probe perCandidateTimeout (cn_Addr cn) w = (r, w')" by (cases "probe perCandidateTimeout (cn_Addr cn) w")
  have u: "r = None \<longleftrightarrow> up (cn_Addr cn)" using up [of "cn_Addr cn" w] pr by simp
  have "now w' \<le> now w + perCandidateTimeout" using time [of "cn_Addr cn" w] pr by simp
  then have "now w' + int (length cs) * perCandidateTimeout \<le> deadline" using Cons.prems by (simp add: distrib_right)
  note IH = Cons.IH [OF this]
  show ?case
  proof (cases r)
    case None
    then show ?thesis using u pr b p by (simp add: Let_def)
  next
    case (Some e)
    then show ?thesis
      using u pr b p IH [of "fs @ [\<lparr>pf_addr = cn_Addr cn, pf_source = cn_Source cn, pf_elapsed = roundMs (now w' - now w), pf_err = Some e\<rparr>]"]
      by (fastforce simp: Let_def split: option.splits)
  qed
qed simp

lemma addCandidate_not_Nil: "trimSpace (fst x) \<noteq> '''' \<Longrightarrow> addCandidate x acc \<noteq> []"
  by (auto simp: addCandidate_def Let_def)

lemma Candidates_not_Nil: "Candidates cfg \<noteq> []"
  unfolding Candidates_def fold_append o_apply append_assoc [symmetric] fold.simps id_apply
  by (rule addCandidate_not_Nil) (simp add: trimSpace_def trimLeft_def trimRight_def isSpace_def byte_def)

text \<open>C21. Finding the registry: when the caller's context outlives the budget, every probe ends within its two seconds and whether an
  address answers does not change during the search, discovery over the candidates of a configuration with the default budget (or a larger
  one) returns the first address, in the order of preference, whose registry answers the health probe; only when none of them does it
  fails, and then the error names every candidate.\<close>

theorem discover_finds_registry:
  assumes "\<forall>a v. (fst (defaultProbe env a v) = None) = up a"
    and "\<forall>a v. se_now env (snd (defaultProbe env a v)) \<le> se_now env v + perCandidateTimeout"
    and "\<forall>v. se_now env v < se_now env w + budget \<longrightarrow> \<not> dead v"
    and "budget = (if timeout \<le> 0 then DefaultDiscoverTimeout else timeout)" and "DefaultDiscoverTimeout \<le> budget"
  shows "case find (\<lambda>cn. up (cn_Addr cn)) (Candidates cfg) of
      Some cn \<Rightarrow> fst (Discover env dead (Candidates cfg) timeout w) = Inr (cn_Addr cn)
    | None \<Rightarrow> \<exists>fs. fst (Discover env dead (Candidates cfg) timeout w) = Inl (NothingAnswered (Candidates cfg) budget fs) \<and>
        map pf_addr fs = map cn_Addr (Candidates cfg)"
proof -
  have "int (length (Candidates cfg)) * perCandidateTimeout \<le> 5 * perCandidateTimeout"
    using Candidates_length [of cfg] by (intro mult_right_mono) (simp_all add: perCandidateTimeout_def second_def)
  then have "se_now env w + int (length (Candidates cfg)) * perCandidateTimeout \<le> se_now env w + budget"
    using assms(5) by (simp add: DefaultDiscoverTimeout_def perCandidateTimeout_def second_def)
  note d = discoverLoop_live [where probe = "\<lambda>_. defaultProbe env" and now = "se_now env" and dead = dead, OF _ _ _ this, of up "[]"]
  have l: "case find (\<lambda>cn. up (cn_Addr cn)) (Candidates cfg) of
      Some cn \<Rightarrow> fst (discoverLoop (se_now env) dead (\<lambda>_. defaultProbe env) (se_now env w + budget) (Candidates cfg) [] w) = Inr (cn_Addr cn)
    | None \<Rightarrow> \<exists>gs. fst (discoverLoop (se_now env) dead (\<lambda>_. defaultProbe env) (se_now env w + budget) (Candidates cfg) [] w) = Inl ([] @ gs) \<and>
        map pf_addr gs = map cn_Addr (Candidates cfg)"
    by (rule d) (use assms(1-3) in auto)
  obtain r w' where "discoverLoop (se_now env) dead (\<lambda>_. defaultProbe env) (se_now env w + budget) (Candidates cfg) [] w = (r, w')" by fastforce
  then show ?thesis
    using l Candidates_not_Nil [of cfg] unfolding Discover_def discoverWith_def Let_def assms(4) [symmetric]
    by (auto split: option.splits)
qed

definition liveEnv :: "int sdkEnv" where
  "liveEnv = downEnv\<lparr>se_do := (\<lambda>q w. (if q_URL q = ''http://nacos:8848/nacos/actuator/health'' then HttpResponse 200 '''' else HttpError ''refused'', w + second))\<rparr>"

lemma liveEnv_probe:
  "(fst (defaultProbe liveEnv a v) = None) = (fst (defaultProbe liveEnv a 0) = None)"
  "se_now liveEnv (snd (defaultProbe liveEnv a v)) \<le> se_now liveEnv v + perCandidateTimeout"
  by (simp_all add: defaultProbe_def liveEnv_def downEnv_def Let_def perCandidateTimeout_def second_def)

lemma digit_chars: "digitChar 8 = CHR ''8''" "digitChar 4 = CHR ''4''"
  by code_simp+

lemma itoa_8848: "strconvItoa 8848 = ''8848''"
  by (simp add: strconvItoa_def decimal.simps digit_chars)

lemma demo_candidates:
  "map cn_Addr (Candidates demoCfg) = [''r:1/'', ''goacos:8848'', ''nacos:8848'', ''host.docker.internal:8848'', ''127.0.0.1:8848'']"
  by (simp add: Candidates_def wellKnownNames_def demoCfg_def addCandidate_def candidateKey_def trimSuffix_def hasPrefix_def hasSuffix_def toLower_def lowerChar_def
      trimSpace_def trimLeft_def trimRight_def isSpace_def byte_def Let_def itoa_8848)

theorem discover_finds_registry_witness:
  "cn_Addr (Candidates demoCfg ! 2) = ''nacos:8848'' \<and> fst (Discover liveEnv (\<lambda>w. 60 * second \<le> w) (Candidates demoCfg) 0 0) = Inr ''nacos:8848''"
proof -
  let ?up = "\<lambda>a. fst (defaultProbe liveEnv a 0) = None"
  obtain c1 c2 c3 c4 c5 where cs: "Candidates demoCfg = [c1, c2, c3, c4, c5]"
    and a: "cn_Addr c1 = ''r:1/''" "cn_Addr c2 = ''goacos:8848''" "cn_Addr c3 = ''nacos:8848''"
    using demo_candidates by (auto simp: map_eq_Cons_conv)
  have u: "?up ''r:1/'' = False" "?up ''goacos:8848'' = False" "?up ''nacos:8848''"
    by (simp_all add: defaultProbe_def liveEnv_def downEnv_def normalizeBaseURL_def trimSpace_def trimLeft_def trimRight_def isSpace_def byte_def
        hasPrefix_def unmarshalStruct_def jsonParse_def Let_def)
  have f: "find (\<lambda>cn. ?up (cn_Addr cn)) (Candidates demoCfg) = Some c3" by (simp only: cs find.simps a u if_False if_True refl)
  have "\<forall>v. se_now liveEnv v < se_now liveEnv 0 + DefaultDiscoverTimeout \<longrightarrow> \<not> 60 * second \<le> v"
    by (simp add: liveEnv_def downEnv_def DefaultDiscoverTimeout_def second_def)
  then have "fst (Discover liveEnv (\<lambda>w. 60 * second \<le> w) (Candidates demoCfg) 0 0) = Inr (cn_Addr c3)"
    using discover_finds_registry [of liveEnv ?up 0 DefaultDiscoverTimeout "\<lambda>w. 60 * second \<le> w" 0 demoCfg] liveEnv_probe f by simp
  then show ?thesis by (simp add: cs a)
qed

subsection \<open>The endpoint must answer before it is registered\<close>

text \<open>Waiting ends as soon as time passes: after the deadline at the latest, whatever the network does.\<close>

lemma dialLoop_ends:
  assumes dial: "\<And>w. de_now de w \<le> de_now de (snd (de_dial de ip port w))"
    and sleep: "\<And>d w. de_now de w + d \<le> de_now de (de_sleep de d w)"
  shows "\<exists>ok w'. dialLoop de ip port deadline w = Some (ok, w') \<and> (\<not> ok \<longrightarrow> deadline < de_now de w')"
proof (induction "nat (deadline + 1 - de_now de w)" arbitrary: w rule: less_induct)
  case less
  obtain ok w' where d: "de_dial de ip port w = (ok, w')" by fastforce
  show ?case
  proof (cases "ok \<or> deadline < de_now de w'")
    case True
    then show ?thesis using d by (subst dialLoop.simps) auto
  next
    case False
    then have "nat (deadline + 1 - de_now de (de_sleep de second w')) < nat (deadline + 1 - de_now de w)"
      using dial [of w] d sleep [of w' second] by (simp add: second_def)
    from less [OF this] show ?thesis using d False by (subst dialLoop.simps) auto
  qed
qed

lemma dialLoop_answered: "dialLoop de ip port deadline w = Some r \<Longrightarrow> fst r \<longrightarrow> (\<exists>v. de_dial de ip port v = (True, snd r))"
  by (erule dialLoop.raw_induct [where P = "\<lambda>de ip port deadline w r. fst r \<longrightarrow> (\<exists>v. de_dial de ip port v = (True, snd r))", rotated])
    (auto split: prod.splits if_splits)

subsection \<open>What the sidecar may publish\<close>

lemma keys_aput: "j \<noteq> k \<Longrightarrow> j \<notin> set (map fst m) \<Longrightarrow> j \<notin> set (map fst (aput m k v))"
  by (auto simp: aput_def)

lemma metaFlags_keys: "metaFlags kvs m = Inr m' \<Longrightarrow> '''' \<notin> set (map fst m) \<Longrightarrow> '''' \<notin> set (map fst m')"
proof (induction kvs arbitrary: m)
  case (Cons kv kvs)
  obtain k v ok where c: "cutAt CHR ''='' kv = (k, v, ok)" by (cases "cutAt CHR ''='' kv") auto
  then have k: "ok" "k \<noteq> ''''" "metaFlags kvs (aput m k v) = Inr m'" using Cons.prems(1) by (auto split: if_splits)
  then show ?case using Cons.IH [OF k(3) keys_aput] Cons.prems(2) by metis
qed simp

lemma checkAddress_None:
  "checkAddress ip allow = None \<longleftrightarrow> (\<exists>a. parseAddr ip = Some a \<and> \<not> netipUnspecified a \<and> (isLoopback a \<longrightarrow> allow))"
  by (auto simp: checkAddress_def split: option.splits if_splits)

text \<open>What the sidecar publishes: a configuration it accepts names a service and a registry, a port from 1 to 65535 and a
  well-formed IP address that is not a bind wildcard, and a loopback address only when the operator allowed it; an address given on
  the command line is the one published, and otherwise the one detected; the role, if one is given, is the one in the metadata.\<close>

theorem sidecar_config_dialable:
  assumes "registryConfig table ops = Inr cfg"
  shows "sc_Enabled cfg \<and> sc_ServiceName cfg = o_service ops \<and> o_service ops \<noteq> '''' \<and> sc_ServerAddr cfg = o_server ops \<and> o_server ops \<noteq> '''' \<and>
    sc_Port cfg = o_port ops \<and> 1 \<le> sc_Port cfg \<and> sc_Port cfg \<le> 65535 \<and>
    sc_IP cfg = selectAdvertiseIP (o_advertiseIP ops) table \<and>
    (\<exists>a. parseAddr (sc_IP cfg) = Some a \<and> \<not> netipUnspecified a \<and> (isLoopback a \<longrightarrow> o_allowLoopback ops)) \<and>
    (\<exists>m. sc_Metadata cfg = Some m \<and> '''' \<notin> set (map fst m) \<and> (o_role ops \<noteq> '''' \<longrightarrow> map_of m ''role'' = Some (o_role ops)))"
proof -
  define ip where "ip = (if o_advertiseIP ops = '''' then selectAdvertiseIP '''' table else o_advertiseIP ops)"
  have ip: "ip = selectAdvertiseIP (o_advertiseIP ops) table" by (simp add: ip_def selectAdvertiseIP_def)
  have g: "o_service ops \<noteq> ''''" "1 \<le> o_port ops" "o_port ops \<le> 65535" "o_server ops \<noteq> ''''" "checkAddress ip (o_allowLoopback ops) = None"
    using assms unfolding registryConfig_def ip_def [symmetric] Let_def by (auto split: if_splits option.splits)
  then obtain m where m: "metaFlags (o_meta ops) [] = Inr m"
    using assms unfolding registryConfig_def ip_def [symmetric] Let_def by (auto split: if_splits sum.splits)
  have k: "'''' \<notin> set (map fst m)" using metaFlags_keys [OF m] by simp
  have r: "sc_Enabled cfg" "sc_ServiceName cfg = o_service ops" "sc_ServerAddr cfg = o_server ops" "sc_Port cfg = o_port ops" "sc_IP cfg = ip"
      "sc_Metadata cfg = Some (if o_role ops \<noteq> '''' then aput m ''role'' (o_role ops) else m)"
    using assms g m unfolding registryConfig_def ip_def [symmetric] Let_def by (auto split: if_splits)
  have "\<exists>m'. sc_Metadata cfg = Some m' \<and> '''' \<notin> set (map fst m') \<and> (o_role ops \<noteq> '''' \<longrightarrow> map_of m' ''role'' = Some (o_role ops))"
    using r(6) k keys_aput [of "''''" "''role''" m "o_role ops"] by (cases "o_role ops = ''''") simp_all
  then show ?thesis using g r ip checkAddress_None [of ip "o_allowLoopback ops"] by simp
qed

definition demoOptions :: options where
  "demoOptions = (newFlagSet (\<lambda>_. ''''))\<lparr>o_server := ''r:1'', o_service := ''web'', o_port := 80, o_advertiseIP := ''10.0.0.1'', o_role := ''frontend''\<rparr>"

lemma demoOptions_config: "\<exists>cfg. registryConfig None demoOptions = Inr cfg \<and> sc_IP cfg = ''10.0.0.1'' \<and> sc_Port cfg = 80"
proof -
  have "checkAddress ''10.0.0.1'' al = None" for al by (simp add: checkAddress_def netipUnspecified_def addr_eval isLoopback_def)
  then show ?thesis by (simp add: registryConfig_def demoOptions_def newFlagSet_def Let_def)
qed

theorem sidecar_config_dialable_witness:
  "\<exists>cfg m. registryConfig None demoOptions = Inr cfg \<and> sc_IP cfg = ''10.0.0.1'' \<and> sc_Metadata cfg = Some m \<and> map_of m ''role'' = Some ''frontend''"
proof -
  obtain cfg where c: "registryConfig None demoOptions = Inr cfg" "sc_IP cfg = ''10.0.0.1''" using demoOptions_config by blast
  from sidecar_config_dialable [OF c(1)] obtain m where "sc_Metadata cfg = Some m" "o_role demoOptions \<noteq> '''' \<longrightarrow> map_of m ''role'' = Some (o_role demoOptions)" by blast
  then show ?thesis using c by (auto simp: demoOptions_def)
qed


definition darkDial :: "int dialEnv" where
  "darkDial = \<lparr>de_now = (\<lambda>w. w), de_dial = (\<lambda>_ _ w. (False, w + 1)), de_sleep = (\<lambda>d w. w + d)\<rparr>"


text \<open>A command that got past the wait has seen the endpoint accept a connection.\<close>

lemma sidecar_dialled_first:
  assumes "registryConfig table ops = Inr cfg" "o_verifyDial ops" "registrarRun env de table until over wait ops w = Some (r, w')" "r \<noteq> Inl NothingListens"
  shows "\<exists>v v'. de_dial de (sc_IP cfg) (sc_Port cfg) v = (True, v')"
proof -
  obtain ok w1 where d: "waitForDial de (sc_IP cfg) (sc_Port cfg) (o_dialTimeout ops) w = Some (ok, w1)"
    using assms(1-3) by (auto simp: registrarRun_def split: option.splits)
  then have "ok" using assms by (cases ok) (simp_all add: registrarRun_def)
  then show ?thesis using dialLoop_answered [OF d [unfolded waitForDial_def]] by auto
qed

subsection \<open>Wildcards\<close>

text \<open>The wildcard is refused even with the opt-in that the flag's help says permits it; the same wildcard written as an IPv4-mapped
  address is accepted, while the environment of the package refuses both.\<close>

lemma wildcard_refused: "checkAddress ''0.0.0.0'' allow = Some (Wildcard ''0.0.0.0'')"
  by (simp add: checkAddress_def netipUnspecified_def addr_eval)

lemma mapped_wildcard_accepted: "checkAddress ''::ffff:0.0.0.0'' allow = None" "\<not> isRoutable ''::ffff:0.0.0.0''"
  by (simp_all add: checkAddress_def netipUnspecified_def addr_eval isLoopback_def isRoutable_def parseIP_def isUnspecified_def)

end
