(* ===== verification/EnvConfig.thy ===== *)
theory EnvConfig
  imports Announcing
begin

text \<open>
  The configuration of the server (\<^verbatim>\<open>internal/config/config.go\<close>).  The environment is a function from names to values, unset being empty.
  The settings the accounts and the data plane read are the records of those theories; the rest is listed here.  Durations are
  nanoseconds, with the 64-bit multiplication of the code.
\<close>

subsection \<open>Reading variables\<close>

definition getenv :: "(string \<Rightarrow> string) \<Rightarrow> string \<Rightarrow> string \<Rightarrow> string" where
  "getenv os name def =
     (if os (''GOACOS_'' @ name) \<noteq> '''' then os (''GOACOS_'' @ name)
      else if os (''NACOS_'' @ name) \<noteq> '''' then os (''NACOS_'' @ name)
      else if hasPrefix name ''MYSQL_'' \<and> os name \<noteq> '''' then os name
      else def)"

definition getenvInt :: "(string \<Rightarrow> string) \<Rightarrow> string \<Rightarrow> int \<Rightarrow> int" where
  "getenvInt os name def =
     (let v = getenv os name '''' in if v \<noteq> '''' then (case atoi v of Some n \<Rightarrow> n | None \<Rightarrow> def) else def)"

definition getenvInt64 :: "(string \<Rightarrow> string) \<Rightarrow> string \<Rightarrow> int \<Rightarrow> int" where
  "getenvInt64 os name def =
     (let v = getenv os name '''' in if v \<noteq> '''' then (case atoi v of Some n \<Rightarrow> n | None \<Rightarrow> def) else def)"

definition getenvBool :: "(string \<Rightarrow> string) \<Rightarrow> string \<Rightarrow> bool \<Rightarrow> bool" where
  "getenvBool os name def = envboolMustParse (\<lambda>key. getenv os key '''') name def"

definition getenvList :: "(string \<Rightarrow> string) \<Rightarrow> string \<Rightarrow> string list" where
  "getenvList os name =
     (let raw = getenv os name ''''
      in if trimSpace raw = '''' then []
         else filter (\<lambda>s. s \<noteq> '''' \<and> \<not> hasPrefix s ''#'') (map trimSpace (splitOn (CHR 0x0A) raw)))"

subsection \<open>The configuration\<close>

record serverConfig =
  s_Host :: string
  s_Port :: int
  s_DBType :: string
  s_DBDSN :: string
  s_MySQLHost :: string
  s_MySQLPort :: int
  s_MySQLDB :: string
  s_MySQLUser :: string
  s_MySQLPassword :: string
  s_Auth :: authCfg
  s_HeartbeatIntervalMs :: int
  s_HeartbeatTimeoutMs :: int
  s_EphemeralDeleteAfterMs :: int
  s_PersistentHeartbeatTimeoutMs :: int
  s_SweepInterval :: int
  s_MaxOpenConns :: int
  s_MaxIdleConns :: int
  s_ConnMaxLifetime :: int
  s_LogLevel :: string
  s_GatewayEnabled :: bool
  s_GatewayNamespace :: string
  s_GatewayHTTPAddr :: string
  s_Gateway :: Config
  s_GatewayCertRefreshSeconds :: int
  s_GatewayCertDir :: string
  s_GatewayCertWriteBack :: bool
  s_GatewayCertScanSeconds :: int
  s_ACMEEnabled :: bool
  s_ACMEEmail :: string
  s_ACMEDirectoryURL :: string
  s_ACMEDataDir :: string
  s_ACMETimeout :: int
  s_SelfSignedDir :: string

text \<open>The zero value of the struct.\<close>

definition zeroServerConfig :: serverConfig where
  "zeroServerConfig =
     \<lparr>s_Host = '''', s_Port = 0, s_DBType = '''', s_DBDSN = '''', s_MySQLHost = '''', s_MySQLPort = 0, s_MySQLDB = '''', s_MySQLUser = '''', s_MySQLPassword = '''',
      s_Auth = \<lparr>ac_AuthEnabled = False, ac_TokenSecret = '''', ac_TokenTTLSeconds = 0, ac_AdminUsername = '''', ac_AdminPassword = ''''\<rparr>,
      s_HeartbeatIntervalMs = 0, s_HeartbeatTimeoutMs = 0, s_EphemeralDeleteAfterMs = 0, s_PersistentHeartbeatTimeoutMs = 0, s_SweepInterval = 0,
      s_MaxOpenConns = 0, s_MaxIdleConns = 0, s_ConnMaxLifetime = 0, s_LogLevel = '''', s_GatewayEnabled = False, s_GatewayNamespace = '''',
      s_GatewayHTTPAddr = '''',
      s_Gateway = \<lparr>cfg_GatewayHTTPSAddr = '''', cfg_GatewayForceHTTPS = False, cfg_GatewayHSTSMaxAge = 0, cfg_GatewayClientMaxBodyBytes = 0,
        cfg_GatewayConnectTimeoutMS = 0, cfg_GatewayReadTimeoutMS = 0, cfg_GatewaySendTimeoutMS = 0, cfg_GatewayWebsocket = False,
        cfg_GatewayTrustForwardedFor = False, cfg_GatewayStaticRoot = '''', cfg_GatewayStaticFallback = False, cfg_GatewaySecurityHeaders = [],
        cfg_GatewayBlockUserAgents = [], cfg_GatewayBlockPaths = []\<rparr>,
      s_GatewayCertRefreshSeconds = 0, s_GatewayCertDir = '''', s_GatewayCertWriteBack = False, s_GatewayCertScanSeconds = 0, s_ACMEEnabled = False,
      s_ACMEEmail = '''', s_ACMEDirectoryURL = '''', s_ACMEDataDir = '''', s_ACMETimeout = 0, s_SelfSignedDir = ''''\<rparr>"

definition LetsEncryptDirectory :: string where
  "LetsEncryptDirectory = ''https://acme-v02.api.letsencrypt.org/directory''"

definition authFromEnv :: "(string \<Rightarrow> string) \<Rightarrow> authCfg" where
  "authFromEnv os =
     \<lparr>ac_AuthEnabled = getenvBool os ''AUTH_ENABLED'' False, ac_TokenSecret = getenv os ''AUTH_TOKEN_SECRET'' '''',
      ac_TokenTTLSeconds = getenvInt os ''AUTH_TOKEN_TTL_SECONDS'' 18000, ac_AdminUsername = getenv os ''ADMIN_USERNAME'' ''nacos'',
      ac_AdminPassword = getenv os ''ADMIN_PASSWORD'' ''nacos''\<rparr>"

definition gatewayFromEnv :: "(string \<Rightarrow> string) \<Rightarrow> Config" where
  "gatewayFromEnv os =
     \<lparr>cfg_GatewayHTTPSAddr = getenv os ''GATEWAY_HTTPS_ADDR'' '':443'', cfg_GatewayForceHTTPS = getenvBool os ''GATEWAY_FORCE_HTTPS'' True,
      cfg_GatewayHSTSMaxAge = getenvInt os ''GATEWAY_HSTS_MAX_AGE'' 0, cfg_GatewayClientMaxBodyBytes = getenvInt64 os ''GATEWAY_MAX_BODY_BYTES'' 0,
      cfg_GatewayConnectTimeoutMS = getenvInt os ''GATEWAY_CONNECT_TIMEOUT_MS'' 3000, cfg_GatewayReadTimeoutMS = getenvInt os ''GATEWAY_READ_TIMEOUT_MS'' 60000,
      cfg_GatewaySendTimeoutMS = getenvInt os ''GATEWAY_SEND_TIMEOUT_MS'' 60000, cfg_GatewayWebsocket = getenvBool os ''GATEWAY_WEBSOCKET'' True,
      cfg_GatewayTrustForwardedFor = getenvBool os ''GATEWAY_TRUST_FORWARDED_FOR'' False, cfg_GatewayStaticRoot = getenv os ''GATEWAY_STATIC_ROOT'' '''',
      cfg_GatewayStaticFallback = getenvBool os ''GATEWAY_STATIC_FALLBACK'' True, cfg_GatewaySecurityHeaders = getenvList os ''GATEWAY_SECURITY_HEADERS'',
      cfg_GatewayBlockUserAgents = getenvList os ''GATEWAY_BLOCK_USER_AGENTS'', cfg_GatewayBlockPaths = getenvList os ''GATEWAY_BLOCK_PATHS''\<rparr>"

definition FromEnv :: "(string \<Rightarrow> string) \<Rightarrow> serverConfig" where
  "FromEnv os =
     \<lparr>s_Host = getenv os ''HOST'' ''0.0.0.0'', s_Port = getenvInt os ''PORT'' 8848, s_DBType = getenv os ''DB_TYPE'' ''mysql'',
      s_DBDSN = getenv os ''DB_DSN'' '''', s_MySQLHost = getenv os ''MYSQL_HOST'' ''127.0.0.1'', s_MySQLPort = getenvInt os ''MYSQL_PORT'' 3306,
      s_MySQLDB = getenv os ''MYSQL_DB'' ''goacos'', s_MySQLUser = getenv os ''MYSQL_USER'' ''root'', s_MySQLPassword = getenv os ''MYSQL_PASSWORD'' '''',
      s_Auth = authFromEnv os, s_HeartbeatIntervalMs = getenvInt64 os ''HEARTBEAT_INTERVAL_MS'' 5000,
      s_HeartbeatTimeoutMs = getenvInt64 os ''HEARTBEAT_TIMEOUT_MS'' 15000, s_EphemeralDeleteAfterMs = getenvInt64 os ''EPHEMERAL_DELETE_AFTER_MS'' 30000,
      s_PersistentHeartbeatTimeoutMs = getenvInt64 os ''PERSISTENT_HEARTBEAT_TIMEOUT_MS'' 90000,
      s_SweepInterval = i64 (getenvInt64 os ''SWEEP_INTERVAL_MS'' 5000 * millisecond), s_MaxOpenConns = getenvInt os ''MYSQL_MAX_OPEN_CONNS'' 100,
      s_MaxIdleConns = getenvInt os ''MYSQL_MAX_IDLE_CONNS'' 20, s_ConnMaxLifetime = i64 (getenvInt64 os ''MYSQL_CONN_MAX_LIFETIME_SECONDS'' 1800 * second),
      s_LogLevel = getenv os ''LOG_LEVEL'' ''info'', s_GatewayEnabled = getenvBool os ''GATEWAY_ENABLED'' False,
      s_GatewayNamespace = getenv os ''GATEWAY_NAMESPACE'' ''public'', s_GatewayHTTPAddr = getenv os ''GATEWAY_HTTP_ADDR'' '':80'',
      s_Gateway = gatewayFromEnv os, s_GatewayCertRefreshSeconds = getenvInt os ''GATEWAY_REFRESH_SECONDS'' 10,
      s_GatewayCertDir = getenv os ''GATEWAY_CERT_DIR'' '''', s_GatewayCertWriteBack = getenvBool os ''GATEWAY_CERT_WRITE_BACK'' True,
      s_GatewayCertScanSeconds = getenvInt os ''GATEWAY_CERT_SCAN_SECONDS'' 30, s_ACMEEnabled = getenvBool os ''GATEWAY_ACME_ENABLED'' True,
      s_ACMEEmail = getenv os ''GATEWAY_ACME_EMAIL'' '''', s_ACMEDirectoryURL = getenv os ''GATEWAY_ACME_DIRECTORY_URL'' LetsEncryptDirectory,
      s_ACMEDataDir = getenv os ''GATEWAY_ACME_DATA_DIR'' ''./data/acme'', s_ACMETimeout = getenvInt os ''GATEWAY_ACME_TIMEOUT_SECONDS'' 120,
      s_SelfSignedDir = getenv os ''GATEWAY_SELFSIGNED_DIR'' ''./data/selftest''\<rparr>"

definition configAddr :: "serverConfig \<Rightarrow> string" where
  "configAddr c = s_Host c @ '':'' @ strconvItoa (s_Port c)"

definition MySQLAddr :: "serverConfig \<Rightarrow> string" where
  "MySQLAddr c = s_MySQLHost c @ '':'' @ strconvItoa (s_MySQLPort c)"

subsection \<open>What an operator can rely on\<close>

text \<open>The own prefix wins over the compatible one, which wins over the default.\<close>

lemma getenv_own: "os (''GOACOS_'' @ name) \<noteq> '''' \<Longrightarrow> getenv os name def = os (''GOACOS_'' @ name)"
  by (simp add: getenv_def)

lemma getenv_unset: "os (''GOACOS_'' @ name) = '''' \<Longrightarrow> os (''NACOS_'' @ name) = '''' \<Longrightarrow> os name = '''' \<Longrightarrow> getenv os name def = def"
  by (simp add: getenv_def)

text \<open>A switch is the default unless its value is one of the listed spellings.\<close>

lemma envboolMustParse_value:
  "envboolMustParse g key def =
     (if toLower (trimSpace (g key)) \<in> {''1'', ''t'', ''true'', ''yes'', ''y'', ''on''} then True
      else if toLower (trimSpace (g key)) \<in> {''0'', ''f'', ''false'', ''no'', ''n'', ''off''} then False else def)"
  by (auto simp: envboolMustParse_def envboolParse_def Let_def)

text \<open>Authentication is on exactly for the listed spellings of yes.  Any other value - a misspelt one as well as an unset one - leaves it off,
  and the checks of the authentication settings then pass whatever they are.\<close>

theorem auth_switch_fails_open:
  "(ac_AuthEnabled (s_Auth (FromEnv os)) \<longleftrightarrow>
      toLower (trimSpace (getenv os ''AUTH_ENABLED'' '''')) \<in> {''1'', ''t'', ''true'', ''yes'', ''y'', ''on''}) \<and>
   (toLower (trimSpace (getenv os ''AUTH_ENABLED'' '''')) \<notin> {''1'', ''t'', ''true'', ''yes'', ''y'', ''on''} \<longrightarrow> ValidateAuth (s_Auth (FromEnv os)) = None)"
  by (auto simp: FromEnv_def authFromEnv_def getenvBool_def envboolMustParse_value ValidateAuth_def)

text \<open>A number that does not parse is the default; a list has neither blank nor comment lines.\<close>

lemma getenvInt_malformed: "atoi (getenv os name '''') = None \<Longrightarrow> getenvInt os name def = def"
  by (simp add: getenvInt_def Let_def)

lemma getenvList_lines: "s \<in> set (getenvList os name) \<Longrightarrow> s \<noteq> '''' \<and> trimSpace s = s \<and> \<not> hasPrefix s ''#''"
  by (auto simp: getenvList_def Let_def split: if_splits)

text \<open>The ticker of the sweeper panics on an interval that is not positive; zero, a negative number and one whose nanoseconds leave
  64 bits all give such an interval.\<close>

lemma sweep_interval_zero:
  assumes "os ''GOACOS_SWEEP_INTERVAL_MS'' = ''0''"
  shows "s_SweepInterval (FromEnv os) = 0"
proof -
  have "atoi ''0'' = Some 0" by (simp add: atoi_def isDigit_def byte_def decValue_def digitVal_def)
  then show ?thesis using assms by (simp add: FromEnv_def getenvInt64_def getenv_def i64_def Let_def)
qed

text \<open>An empty environment gives a server without authentication and a gateway that is off.\<close>

lemma FromEnv_empty:
  "\<not> ac_AuthEnabled (s_Auth (FromEnv (\<lambda>_. ''''))) \<and> \<not> s_GatewayEnabled (FromEnv (\<lambda>_. '''')) \<and> s_Port (FromEnv (\<lambda>_. '''')) = 8848 \<and>
   s_HeartbeatIntervalMs (FromEnv (\<lambda>_. '''')) < s_HeartbeatTimeoutMs (FromEnv (\<lambda>_. '''')) \<and>
   s_HeartbeatTimeoutMs (FromEnv (\<lambda>_. '''')) < s_EphemeralDeleteAfterMs (FromEnv (\<lambda>_. ''''))"
  by (simp add: FromEnv_def authFromEnv_def getenvBool_def envboolMustParse_value getenv_def getenvInt_def getenvInt64_def Let_def)

end
