(* ===== verification/Migrate.thy ===== *)
theory Migrate
  imports Wire
begin

text \<open>
  The two SQL dialects (\<^verbatim>\<open>internal/storage/dialect.go\<close>), the splitting of SQL scripts and the opening of the store
  (\<^verbatim>\<open>store.go\<close>), and the ledger of schema migrations (\<^verbatim>\<open>migrate.go\<close>).  The database of this theory is what the ledger needs of one: the
  statements it has executed so far, in order, and the rows of \<^verbatim>\<open>goacos_schema_version\<close>; its script says for each coming statement
  whether it fails.  The embedded files are an argument.
\<close>

subsection \<open>Dialects\<close>

datatype Dialect = DialectMySQL | DialectPostgres

definition DialectFor :: "string \<Rightarrow> string \<Rightarrow> Dialect" where
  "DialectFor dbType dsn =
     (let low = toLower dsn
      in if hasPrefix low ''postgres://'' \<or> hasPrefix low ''postgresql://'' then DialectPostgres
         else if toLower (trimSpace dbType) \<in> {''postgres'', ''postgresql'', ''pg''} then DialectPostgres else DialectMySQL)"

text \<open>Ranging over a string yields its runes, an invalid byte as U+FFFD.\<close>

definition writeRune :: "string \<Rightarrow> string" where
  "writeRune r = (if runeValid r = None then [CHR 0xEF, CHR 0xBF, CHR 0xBD] else r)"

fun rebindRunes :: "nat \<Rightarrow> string list \<Rightarrow> string" where
  "rebindRunes n [] = ''''"
| "rebindRunes n (r # rs) = (if r = ''?'' then ''$'' @ decimal (n + 1) @ rebindRunes (n + 1) rs else writeRune r @ rebindRunes n rs)"

definition Rebind :: "Dialect \<Rightarrow> string \<Rightarrow> string" where
  "Rebind d s = (if d \<noteq> DialectPostgres \<or> \<not> contains s ''?'' then s else rebindRunes 0 (runes s))"

definition BlurMatch :: "Dialect \<Rightarrow> string" where
  "BlurMatch d = (if d = DialectPostgres then ''LIKE '' @ [CHR 0x27] @ ''%'' @ [CHR 0x27] @ '' || ? || '' @ [CHR 0x27] @ ''%'' @ [CHR 0x27]
     else ''LIKE CONCAT('' @ [CHR 0x27] @ ''%'' @ [CHR 0x27] @ '',?,'' @ [CHR 0x27] @ ''%'' @ [CHR 0x27] @ '')'')"

definition marks :: "nat \<Rightarrow> string" where
  "marks n = trimSuffix (concat (replicate n ''?,'')) '',''"

definition InsertIgnore :: "Dialect \<Rightarrow> string \<Rightarrow> string list \<Rightarrow> string" where
  "InsertIgnore d tab cols =
     (let ph = marks (length cols); collist = joinWith '', '' cols
      in if d = DialectPostgres then ''INSERT INTO '' @ tab @ '' ('' @ collist @ '') VALUES ('' @ ph @ '') ON CONFLICT DO NOTHING''
         else ''INSERT IGNORE INTO '' @ tab @ '' ('' @ collist @ '') VALUES ('' @ ph @ '')'')"

definition UpsertNoop :: "Dialect \<Rightarrow> string \<Rightarrow> string \<Rightarrow> string \<Rightarrow> string" where
  "UpsertNoop d tab keyCol valCol =
     (if d = DialectPostgres
      then ''INSERT INTO '' @ tab @ '' ('' @ keyCol @ '','' @ valCol @ '') VALUES (?,?) ON CONFLICT ('' @ keyCol @ '') DO NOTHING''
      else ''INSERT INTO '' @ tab @ '' ('' @ keyCol @ '','' @ valCol @ '') VALUES (?,?) ON DUPLICATE KEY UPDATE '' @ valCol @ ''='' @ valCol)"

definition Upsert :: "Dialect \<Rightarrow> string \<Rightarrow> string list \<Rightarrow> string list \<Rightarrow> string list \<Rightarrow> string" where
  "Upsert d tab keyCols insertCols setCols =
     (let head = ''INSERT INTO '' @ tab @ '' ('' @ joinWith '', '' insertCols @ '') VALUES ('' @ marks (length insertCols) @ '')''
      in if setCols = [] then head
         else if d = DialectPostgres
         then head @ '' ON CONFLICT ('' @ joinWith '', '' keyCols @ '') DO UPDATE SET '' @ joinWith '', '' (map (\<lambda>c. c @ ''=excluded.'' @ c) setCols)
                @ '', gmt_modified=CURRENT_TIMESTAMP''
         else head @ '' ON DUPLICATE KEY UPDATE ''
                @ joinWith '', '' (map (\<lambda>c. c @ ''=VALUES('' @ c @ '')'') setCols @ [''gmt_modified=CURRENT_TIMESTAMP'']))"

definition ServerDB :: "Dialect \<Rightarrow> string" where
  "ServerDB d = (if d = DialectPostgres then ''postgres'' else '''')"

text \<open>\<^verbatim>\<open>url.UserPassword(...).String()\<close>\<close>

definition userEscape :: "string \<Rightarrow> string" where
  "userEscape s = concat (map (\<lambda>c. if plainChar c \<or> c \<in> set ''$&+,;='' then [c] else [CHR ''%'', hexUpper (byte c div 16), hexUpper (byte c mod 16)]) s)"

definition DSNFor :: "Dialect \<Rightarrow> string \<Rightarrow> int \<Rightarrow> string \<Rightarrow> string \<Rightarrow> string \<Rightarrow> string" where
  "DSNFor d host port user password dbName =
     (if d = DialectPostgres
      then ''postgres://'' @ userEscape user @ '':'' @ userEscape password @ ''@'' @ host @ '':'' @ strconvItoa port @ ''/''
             @ (if dbName = '''' then ''postgres'' else dbName) @ ''?sslmode=disable&connect_timeout=5''
      else user @ '':'' @ password @ ''@tcp('' @ host @ '':'' @ strconvItoa port @ '')/'' @ dbName
             @ ''?charset=utf8mb4&parseTime=true&loc=Local&timeout=5s&readTimeout=30s&writeTimeout=30s&interpolateParams=true'')"

definition DriverName :: "Dialect \<Rightarrow> string" where
  "DriverName d = (if d = DialectPostgres then ''postgres'' else ''mysql'')"

subsection \<open>SQL scripts\<close>

definition skipped :: "string \<Rightarrow> bool" where
  "skipped t \<longleftrightarrow> hasPrefix t ''--'' \<or> t = '''' \<or> hasPrefix t ''SET NAMES'' \<or> hasPrefix t ''SET FOREIGN_KEY_CHECKS''"

definition nonBlank :: "string \<Rightarrow> string list" where
  "nonBlank s = (if s \<noteq> '''' then [s] else [])"

fun splitLoop :: "string list \<Rightarrow> string \<Rightarrow> string list" where
  "splitLoop [] cur = nonBlank (trimSpace cur)"
| "splitLoop (l # ls) cur =
     (let t = trimSpace l; cur' = cur @ l @ [CHR 0x0A]
      in if skipped t then splitLoop ls cur
         else if hasSuffix t '';'' then nonBlank (trimSpace (trimSuffix cur' '';'')) @ splitLoop ls ''''
         else splitLoop ls cur')"

definition splitSQLStatements :: "string \<Rightarrow> string list" where
  "splitSQLStatements sql = splitLoop (splitOn (CHR 0x0A) sql) ''''"

text \<open>\<^verbatim>\<open>strings.Fields\<close>\<close>

fun fields :: "string \<Rightarrow> string \<Rightarrow> string list" where
  "fields [] cur = nonBlank cur"
| "fields (c # s) cur = (if isSpace c then nonBlank cur @ fields s '''' else fields s (cur @ [c]))"

definition truncateText :: "string \<Rightarrow> nat \<Rightarrow> string" where
  "truncateText s0 n = (let s = joinWith '' '' (fields s0 '''') in if length s > n then take n s @ ''...'' else s)"

subsection \<open>The database of the ledger\<close>

record sdb =
  sd_log :: "string list"
  sd_ledger :: "(int \<times> string) list"
  sd_script :: "string option list"

text \<open>Executing a statement: the script tells whether it fails; an executed statement is in the log.\<close>

definition nextOutcome :: "sdb \<Rightarrow> string option \<times> sdb" where
  "nextOutcome d = (case sd_script d of [] \<Rightarrow> (None, d) | x # xs \<Rightarrow> (x, d\<lparr>sd_script := xs\<rparr>))"

definition Exec :: "Dialect \<Rightarrow> string \<Rightarrow> sdb \<Rightarrow> string option \<times> sdb" where
  "Exec dia s d = (case nextOutcome d of (Some e, d') \<Rightarrow> (Some e, d') | (None, d') \<Rightarrow> (None, d'\<lparr>sd_log := sd_log d' @ [Rebind dia s]\<rparr>))"

text \<open>The row of a migration; the version is the primary key.\<close>

definition recordMigration :: "int \<Rightarrow> string \<Rightarrow> sdb \<Rightarrow> string option \<times> sdb" where
  "recordMigration v name d =
     (case nextOutcome d of
        (Some e, d') \<Rightarrow> (Some e, d')
      | (None, d') \<Rightarrow> if v \<in> fst ` set (sd_ledger d') then (Some ''duplicate key'', d') else (None, d'\<lparr>sd_ledger := sd_ledger d' @ [(v, name)]\<rparr>))"

definition appliedMigrations :: "sdb \<Rightarrow> (string + int list) \<times> sdb" where
  "appliedMigrations d = (case nextOutcome d of (Some e, d') \<Rightarrow> (Inl e, d') | (None, d') \<Rightarrow> (Inr (map fst (sd_ledger d')), d'))"

subsection \<open>Migrations\<close>

record migration =
  m_Version :: int
  m_Name :: string

definition migrations :: "migration list" where
  "migrations = [\<lparr>m_Version = 2, m_Name = ''application''\<rparr>, \<lparr>m_Version = 3, m_Name = ''gateway''\<rparr>, \<lparr>m_Version = 4, m_Name = ''instance_sweep''\<rparr>]"

definition baselineSchemaVersion :: int where "baselineSchemaVersion = 1"

datatype migErr = LedgerCreate string | LedgerRead string | Collides int | NoFile string | MissingSchema string | StatementFailed int string string string
  | RecordFailed int string | SchemaStatement string string | SchemaVersion string

definition ledgerDDL :: "Dialect \<Rightarrow> string" where
  "ledgerDDL d = joinWith [CHR 0x0A] (if d = DialectMySQL
     then [''CREATE TABLE IF NOT EXISTS goacos_schema_version ('', ''  version int NOT NULL,'', ''  name varchar(128) NOT NULL DEFAULT '' @ [CHR 0x27, CHR 0x27] @ '','',
       ''  applied_at datetime NOT NULL DEFAULT CURRENT_TIMESTAMP,'', ''  PRIMARY KEY (version)'', '') ENGINE=InnoDB DEFAULT CHARSET=utf8mb4'']
     else [''CREATE TABLE IF NOT EXISTS goacos_schema_version ('', ''  version int NOT NULL PRIMARY KEY,'',
       ''  name varchar(128) NOT NULL DEFAULT '' @ [CHR 0x27, CHR 0x27] @ '','', ''  applied_at timestamp NOT NULL DEFAULT CURRENT_TIMESTAMP'', '')''])"

definition ensureMigrationLedger :: "Dialect \<Rightarrow> sdb \<Rightarrow> migErr option \<times> sdb" where
  "ensureMigrationLedger dia d = (case Exec dia (ledgerDDL dia) d of (Some e, d') \<Rightarrow> (Some (LedgerCreate e), d') | (None, d') \<Rightarrow> (None, d'))"

text \<open>\<^verbatim>\<open>%03d\<close>\<close>

definition pad3 :: "int \<Rightarrow> string" where
  "pad3 n = (let s = decimal (nat \<bar>n\<bar>); w = (if n < 0 then 2 else 3) in (if n < 0 then ''-'' else '''') @ replicate (w - length s) CHR ''0'' @ s)"

definition migrationFile :: "Dialect \<Rightarrow> migration \<Rightarrow> string" where
  "migrationFile dia m = ''schema/migrations/'' @ pad3 (m_Version m) @ ''_'' @ m_Name m @ ''.'' @ (if dia = DialectPostgres then ''postgres'' else ''mysql'') @ ''.sql''"

definition migrationPath :: "(string \<Rightarrow> string option) \<Rightarrow> migration \<Rightarrow> Dialect \<Rightarrow> migErr + string" where
  "migrationPath fs m dia = (let p = migrationFile dia m in case fs p of None \<Rightarrow> Inl (NoFile p) | Some _ \<Rightarrow> Inr p)"

definition statementsOf :: "(string \<Rightarrow> string option) \<Rightarrow> Dialect \<Rightarrow> migration \<Rightarrow> string list" where
  "statementsOf fs dia m =
     (case fs (migrationFile dia m) of None \<Rightarrow> [] | Some raw \<Rightarrow> filter (\<lambda>s. trimSpace s \<noteq> '''') (splitSQLStatements raw))"

fun applyStatements :: "Dialect \<Rightarrow> (string \<Rightarrow> string) \<Rightarrow> (string \<Rightarrow> string \<Rightarrow> migErr) \<Rightarrow> string list \<Rightarrow> sdb \<Rightarrow> migErr option \<times> sdb" where
  "applyStatements dia f err [] d = (None, d)"
| "applyStatements dia f err (s # ss) d =
     (case Exec dia (f s) d of (Some e, d') \<Rightarrow> (Some (err (truncateText s 80) e), d') | (None, d') \<Rightarrow> applyStatements dia f err ss d')"

definition applyMigration :: "(string \<Rightarrow> string option) \<Rightarrow> Dialect \<Rightarrow> migration \<Rightarrow> sdb \<Rightarrow> migErr option \<times> sdb" where
  "applyMigration fs dia m d =
     (case migrationPath fs m dia of
        Inl e \<Rightarrow> (Some e, d)
      | Inr _ \<Rightarrow>
          (case applyStatements dia (\<lambda>s. s) (StatementFailed (m_Version m) (m_Name m)) (statementsOf fs dia m) d of
             (Some e, d') \<Rightarrow> (Some e, d')
           | (None, d') \<Rightarrow>
               (case recordMigration (m_Version m) (m_Name m) d' of
                  (Some e, d'') \<Rightarrow> (Some (RecordFailed (m_Version m) e), d'')
                | (None, d'') \<Rightarrow> (None, d''))))"

fun applyAll :: "(string \<Rightarrow> string option) \<Rightarrow> Dialect \<Rightarrow> migration list \<Rightarrow> sdb \<Rightarrow> migErr option \<times> sdb" where
  "applyAll fs dia [] d = (None, d)"
| "applyAll fs dia (m # ms) d = (case applyMigration fs dia m d of (Some e, d') \<Rightarrow> (Some e, d') | (None, d') \<Rightarrow> applyAll fs dia ms d')"

definition pendingOf :: "int list \<Rightarrow> migration list \<Rightarrow> migration list" where
  "pendingOf applied ms = filter (\<lambda>m. m_Version m \<notin> set applied) (sliceStable (\<lambda>a b. m_Version a < m_Version b) ms)"

definition runMigrations :: "(string \<Rightarrow> string option) \<Rightarrow> Dialect \<Rightarrow> sdb \<Rightarrow> migErr option \<times> sdb" where
  "runMigrations fs dia d =
     (case ensureMigrationLedger dia d of
        (Some e, d') \<Rightarrow> (Some e, d')
      | (None, d') \<Rightarrow>
          (case appliedMigrations d' of
             (Inl e, d'') \<Rightarrow> (Some (LedgerRead e), d'')
           | (Inr applied, d'') \<Rightarrow>
               (case find (\<lambda>m. m_Version m \<le> baselineSchemaVersion) (sliceStable (\<lambda>a b. m_Version a < m_Version b) migrations) of
                  Some m \<Rightarrow> (Some (Collides (m_Version m)), d'')
                | None \<Rightarrow> applyAll fs dia (pendingOf applied migrations) d'')))"

definition highest :: "int list \<Rightarrow> int" where
  "highest applied = fold (\<lambda>v version. if v > version then v else version) applied baselineSchemaVersion"

definition describe :: "migration list \<Rightarrow> string" where
  "describe pending = joinWith '', '' (map (\<lambda>m. pad3 (m_Version m) @ ''_'' @ m_Name m) pending)"

definition CurrentSchemaVersion :: "sdb \<Rightarrow> int \<times> sdb" where
  "CurrentSchemaVersion d = (case appliedMigrations d of (Inl _, d') \<Rightarrow> (baselineSchemaVersion, d') | (Inr applied, d') \<Rightarrow> (highest applied, d'))"

text \<open>The base script runs through \<^verbatim>\<open>Rebind\<close> twice, once here and once in \<^verbatim>\<open>Exec\<close>.\<close>

definition ensureSchema :: "(string \<Rightarrow> string option) \<Rightarrow> Dialect \<Rightarrow> sdb \<Rightarrow> migErr option \<times> sdb" where
  "ensureSchema fs dia d =
     (let name = (if dia = DialectPostgres then ''schema/schema.postgres.sql'' else ''schema/schema.sql'')
      in case fs name of
           None \<Rightarrow> (Some (MissingSchema name), d)
         | Some raw \<Rightarrow>
             (case applyStatements dia (Rebind dia) SchemaStatement (filter (\<lambda>s. s \<noteq> '''') (splitSQLStatements raw)) d of
                (Some e, d') \<Rightarrow> (Some e, d')
              | (None, d') \<Rightarrow>
                  (case Exec dia (Rebind dia (UpsertNoop dia ''goacos_meta'' ''k'' ''v'')) d' of
                     (Some e, d'') \<Rightarrow> (Some (SchemaVersion e), d'')
                   | (None, d'') \<Rightarrow> runMigrations fs dia d'')))"

subsection \<open>Placeholders\<close>

lemma runes_shape: "r \<in> set (runes s) \<Longrightarrow> runeValid r = None \<or> runeValid r = Some (length r)"
proof (induction s rule: runes.induct)
  case (1 s)
  show ?case
  proof (cases "s = [] \<or> r \<in> set (runes (drop (runeWidth s) s))")
    case True
    then show ?thesis using 1 by (cases "s = []") auto
  next
    case False
    then have r: "r = take (runeWidth s) s" "s \<noteq> []" using "1.prems" by (auto simp: runes.simps [of s])
    show ?thesis
    proof (cases "runeValid s")
      case None
      then show ?thesis using runeValid_None_take [OF r(2)] r(1) by (simp add: runeWidth_def)
    next
      case (Some n)
      then show ?thesis using runeValid_take [OF Some] runeValid_length [OF Some] r(1) by (simp add: runeWidth_def min_def)
    qed
  qed
qed

text \<open>The byte of an ASCII character occurs in valid text only as a rune of its own.\<close>

lemma rune_ascii:
  assumes "runeValid r = Some (length r)" "byte c < 128" "c \<in> set r"
  shows "r = [c]"
proof (cases r)
  case (Cons b t)
  obtain need where n: "runeNeed (byte b) = Some need" "runeTail need t" "fst need = length t"
    using assms(1) Cons by (auto simp: runeValid.simps(2) split: option.splits if_splits)
  show ?thesis
  proof (cases "byte b < 128")
    case True
    then show ?thesis using n(1,3) runeNeed_0 [OF n(1)] assms(3) Cons by auto
  next
    case False
    then have "t \<noteq> []" using n(3) runeNeed_0 [OF n(1)] by auto
    then have "list_all (contByte 128 191) t" using n(2,3) by (cases need) (auto simp: runeTail_def)
    then show ?thesis using False assms(2,3) Cons by (auto simp: list_all_iff contByte_def)
  qed
qed (use assms in simp)

lemma rebindRunes_no_mark:
  "(\<And>r. r \<in> set rs \<Longrightarrow> runeValid r = None \<or> runeValid r = Some (length r)) \<Longrightarrow> CHR ''?'' \<notin> set (rebindRunes n rs)"
proof (induction n rs rule: rebindRunes.induct)
  case (2 n r rs)
  have d: "CHR ''?'' \<notin> set (decimal k)" for k
    using decimal_digits [of k] by (auto simp: list_all_iff isDigit_def byte_def)
  have "CHR ''?'' \<notin> set (writeRune r)" if "r \<noteq> ''?''"
    using rune_ascii [of r "CHR ''?''"] 2(3) [of r] that by (auto simp: writeRune_def byte_def)
  then show ?case using 2 d by auto
qed simp

lemma contains_mark: "contains s ''?'' \<longleftrightarrow> CHR ''?'' \<in> set s"
  by (auto simp: contains_iff in_set_conv_decomp)

text \<open>Rewriting twice, as the base script is, is rewriting once.\<close>

lemma Rebind_idem: "Rebind d (Rebind d s) = Rebind d s"
  using rebindRunes_no_mark [of "runes s" 0] runes_shape by (auto simp: Rebind_def contains_mark)

text \<open>On text that is valid UTF-8 the rewriting only replaces the n-th question mark by the placeholder number n.\<close>

fun weave :: "nat \<Rightarrow> string list \<Rightarrow> string" where
  "weave n [] = ''''"
| "weave n [p] = p"
| "weave n (p # ps) = p @ ''$'' @ decimal (n + 1) @ weave (n + 1) ps"

lemma weave_Cons: "ps \<noteq> [] \<Longrightarrow> weave n (p # ps) = p @ ''$'' @ decimal (n + 1) @ weave (n + 1) ps"
  by (cases ps) simp_all

lemma weave_prepend: "ps \<noteq> [] \<Longrightarrow> weave n ((p @ hd ps) # tl ps) = p @ weave n ps"
  by (cases ps; cases "tl ps") simp_all

lemma splitOn_prepend: "c \<notin> set p \<Longrightarrow> splitOn c (p @ s) = (p @ hd (splitOn c s)) # tl (splitOn c s)"
proof (induction p)
  case Nil
  then show ?case using splitOn_not_Nil [of c s] by (cases "splitOn c s") simp_all
next
  case (Cons a p)
  then show ?case using splitOn_not_Nil [of c s] by (auto split: list.split)
qed

lemma rebind_numbers:
  assumes "utf8Valid s"
  shows "rebindRunes n (runes s) = weave n (splitOn CHR ''?'' s)"
  using assms
proof (induction s arbitrary: n rule: utf8_induct)
  case (rune r s)
  show ?case
  proof (cases "r = ''?''")
    case True
    then show ?thesis using rune(3,4) splitOn_not_Nil [of "CHR ''?''" s] by (simp add: weave_Cons)
  next
    case False
    then have "CHR ''?'' \<notin> set r" using rune_ascii [OF rune(1), of "CHR ''?''"] by (auto simp: byte_def)
    then show ?thesis using rune(1,3,4) False splitOn_not_Nil [of "CHR ''?''" s] by (simp add: splitOn_prepend weave_prepend writeRune_def)
  qed
qed simp

subsection \<open>Splitting loses nothing\<close>

definition ink :: "string \<Rightarrow> string" where
  "ink s = filter (\<lambda>c. \<not> isSpace c) s"

lemma ink_simps [simp]: "ink [] = []" "ink (s @ t) = ink s @ ink t"
  by (simp_all add: ink_def)

lemma ink_trimSpace [simp]: "ink (trimSpace s) = ink s"
proof -
  have l: "filter (\<lambda>c. \<not> isSpace c) (dropWhile isSpace s) = filter (\<lambda>c. \<not> isSpace c) s" for s by (induction s) simp_all
  show ?thesis by (simp add: ink_def trimSpace_def trimLeft_def trimRight_def l rev_filter [symmetric])
qed

lemma ink_nonBlank [simp]: "ink (concat (nonBlank s)) = ink s"
  by (simp add: nonBlank_def)

lemma trimSuffix_newline: "trimSuffix (s @ [CHR 0x0A]) '';'' = s @ [CHR 0x0A]"
  by (simp add: trimSuffix_def hasSuffix_def hasPrefix_def)

lemma ink_newline: "ink (CHR 0x0A # s) = ink s"
  by (simp add: ink_def isSpace_def byte_def)

lemma splitLoop_ink: "ink (concat (splitLoop ls cur)) = ink (cur @ concat (filter (\<lambda>l. \<not> skipped (trimSpace l)) ls))"
proof (induction ls cur rule: splitLoop.induct)
  case (2 l ls cur)
  have "trimSuffix (cur @ l @ [CHR 0x0A]) '';'' = cur @ l @ [CHR 0x0A]" using trimSuffix_newline [of "cur @ l"] by simp
  then show ?case using 2 by (auto simp: Let_def ink_newline)
qed simp

definition completeStatement :: "string \<Rightarrow> bool" where
  "completeStatement s \<longleftrightarrow> s \<noteq> '''' \<and> trimSpace s = s \<and> last s = CHR '';''"

lemma last_trimSpace:
  assumes "hasSuffix (trimSpace l) '';''"
  shows "completeStatement (trimSpace (cur @ l @ [CHR 0x0A]))"
proof -
  obtain a where a: "trimSpace l = a @ '';''" using assms by (auto simp: hasSuffix_iff)
  have sp: "isSpace (CHR 0x0A)" "\<not> isSpace (CHR '';'')" by (simp_all add: isSpace_def byte_def)
  obtain p q where l: "l = p @ trimSpace l @ q" "list_all isSpace q"
  proof
    show "l = takeWhile isSpace l @ trimSpace l @ rev (takeWhile isSpace (rev (dropWhile isSpace l)))"
      by (metis trimSpace_def trimLeft_def trimRight_def takeWhile_dropWhile_id rev_append rev_rev_ident)
    show "list_all isSpace (rev (takeWhile isSpace (rev (dropWhile isSpace l))))" by (auto simp: list_all_iff dest: set_takeWhileD)
  qed
  have d: "dropWhile isSpace (q' @ CHR '';'' # r) = CHR '';'' # r" if "list_all isSpace q'" for q' r using that sp(2) by (induction q') simp_all
  let ?x = "cur @ p @ a"
  have "cur @ l @ [CHR 0x0A] = ?x @ CHR '';'' # q @ [CHR 0x0A]" using l(1) a by simp
  moreover have "dropWhile isSpace (?x @ CHR '';'' # r) = dropWhile isSpace ?x @ CHR '';'' # r" for r
    by (induction ?x) (use d [of "[]"] in \<open>auto simp: dropWhile_append\<close>)
  moreover have "dropWhile isSpace (rev (q @ [CHR 0x0A]) @ CHR '';'' # r) = CHR '';'' # r" for r
    by (rule d) (use l(2) sp in \<open>auto simp: list_all_iff\<close>)
  ultimately have t: "trimSpace (cur @ l @ [CHR 0x0A]) = dropWhile isSpace ?x @ '';''"
    by (simp add: trimSpace_def trimLeft_def trimRight_def)
  show ?thesis unfolding completeStatement_def using t trimSpace_idem [of "cur @ l @ [CHR 0x0A]"] by (metis last_snoc snoc_eq_iff_butlast)
qed

lemma splitLoop_complete: "list_all completeStatement (butlast (splitLoop ls cur)) \<and> list_all (\<lambda>s. s \<noteq> '''' \<and> trimSpace s = s) (splitLoop ls cur)"
proof (induction ls cur rule: splitLoop.induct)
  case (2 l ls cur)
  show ?case
  proof (cases "\<not> skipped (trimSpace l) \<and> hasSuffix (trimSpace l) '';''")
    case True
    have s: "trimSuffix (cur @ l @ [CHR 0x0A]) '';'' = cur @ l @ [CHR 0x0A]" using trimSuffix_newline [of "cur @ l"] by simp
    have "completeStatement (trimSpace (cur @ l @ [CHR 0x0A]))" using True last_trimSpace by blast
    then show ?thesis using 2(2) True s by (auto simp: Let_def nonBlank_def completeStatement_def)
  next
    case False
    then show ?thesis using 2(1,3) by (auto simp: Let_def)
  qed
qed (auto simp: nonBlank_def)

text \<open>Splitting a script into statements loses and repeats nothing: without white space the statements, put together, are the lines of the
  script that are neither comments nor settings of the session; no statement is blank or has blanks around it, and every one but the
  last is terminated.\<close>

theorem split_keeps_text:
  "ink (concat (splitSQLStatements sql)) = ink (concat (filter (\<lambda>l. \<not> skipped (trimSpace l)) (splitOn (CHR 0x0A) sql))) \<and>
   list_all (\<lambda>s. s \<noteq> '''' \<and> trimSpace s = s) (splitSQLStatements sql) \<and> list_all completeStatement (butlast (splitSQLStatements sql))"
  using splitLoop_ink [of "splitOn (CHR 0x0A) sql" "''''"] splitLoop_complete [of "splitOn (CHR 0x0A) sql" "''''"]
  by (simp add: splitSQLStatements_def)

subsection \<open>The ledger\<close>

definition rowOf :: "migration \<Rightarrow> int \<times> string" where
  "rowOf m = (m_Version m, m_Name m)"

definition textOf :: "(string \<Rightarrow> string option) \<Rightarrow> Dialect \<Rightarrow> migration \<Rightarrow> string list" where
  "textOf fs dia m = map (Rebind dia) (statementsOf fs dia m)"

lemma nextOutcome_keeps: "nextOutcome d = (r, d') \<Longrightarrow> sd_log d' = sd_log d \<and> sd_ledger d' = sd_ledger d"
  by (auto simp: nextOutcome_def split: list.splits)

lemma Exec_cases:
  assumes "Exec dia s d = (r, d')"
  shows "sd_ledger d' = sd_ledger d \<and> sd_log d' = (if r = None then sd_log d @ [Rebind dia s] else sd_log d)"
  using assms nextOutcome_keeps by (fastforce simp: Exec_def split: prod.splits option.splits)

lemma applyStatements_prefix:
  assumes "applyStatements dia f err ss d = (r, d')"
  shows "\<exists>k. sd_ledger d' = sd_ledger d \<and> sd_log d' = sd_log d @ map (\<lambda>s. Rebind dia (f s)) (take k ss) \<and> (r = None \<longrightarrow> length ss \<le> k)"
  using assms
proof (induction ss arbitrary: d)
  case (Cons s ss)
  obtain r1 d1 where e: "Exec dia (f s) d = (r1, d1)" by fastforce
  note c = Exec_cases [OF e]
  show ?case
  proof (cases r1)
    case None
    then obtain k where "sd_ledger d' = sd_ledger d1" "sd_log d' = sd_log d1 @ map (\<lambda>s. Rebind dia (f s)) (take k ss)" "r = None \<longrightarrow> length ss \<le> k"
      using Cons.IH [of d1] Cons.prems e by auto
    then show ?thesis using c None by (intro exI [of _ "Suc k"]) simp
  next
    case (Some x)
    then show ?thesis using Cons.prems e c by (intro exI [of _ 0]) auto
  qed
qed simp

text \<open>One migration is recorded exactly when it succeeded, and then all its statements were executed.\<close>

lemma applyMigration_cases:
  assumes "applyMigration fs dia m d = (r, d')"
  shows "(r = None \<longrightarrow> sd_ledger d' = sd_ledger d @ [rowOf m] \<and> sd_log d' = sd_log d @ textOf fs dia m) \<and>
    (r \<noteq> None \<longrightarrow> sd_ledger d' = sd_ledger d \<and> (\<exists>k. sd_log d' = sd_log d @ take k (textOf fs dia m)))"
proof (cases "migrationPath fs m dia")
  case (Inl e)
  then show ?thesis using assms by (auto simp: applyMigration_def intro: exI [of _ 0])
next
  case (Inr p)
  obtain r1 d1 where s: "applyStatements dia (\<lambda>s. s) (StatementFailed (m_Version m) (m_Name m)) (statementsOf fs dia m) d = (r1, d1)" by fastforce
  obtain k where k: "sd_ledger d1 = sd_ledger d" "sd_log d1 = sd_log d @ take k (textOf fs dia m)" "r1 = None \<longrightarrow> take k (textOf fs dia m) = textOf fs dia m"
    using applyStatements_prefix [OF s] unfolding textOf_def take_map by (metis take_all)
  obtain r2 d2 where n: "nextOutcome d1 = (r2, d2)" by fastforce
  note nk = nextOutcome_keeps [OF n]
  show ?thesis
  proof (cases r1)
    case None
    then have a: "take k (textOf fs dia m) = textOf fs dia m" using k by simp
    then have "\<exists>k. textOf fs dia m = take k (textOf fs dia m)" by metis
    then show ?thesis using assms Inr s k(1) k(2) [unfolded a] n nk None by (auto simp: applyMigration_def recordMigration_def rowOf_def split: option.splits if_splits)
  next
    case (Some e)
    then show ?thesis using assms Inr s k by (auto simp: applyMigration_def)
  qed
qed

lemma applyAll_prefix:
  assumes "applyAll fs dia ms d = (r, d')"
  shows "\<exists>k rest. k \<le> length ms \<and> sd_ledger d' = sd_ledger d @ map rowOf (take k ms) \<and>
    sd_log d' = sd_log d @ concat (map (textOf fs dia) (take k ms)) @ rest \<and> (r = None \<longrightarrow> k = length ms \<and> rest = []) \<and>
    (r \<noteq> None \<longrightarrow> k < length ms \<and> (\<exists>j. rest = take j (textOf fs dia (ms ! k))))"
  using assms
proof (induction ms arbitrary: d)
  case (Cons m ms)
  obtain r1 d1 where e: "applyMigration fs dia m d = (r1, d1)" by fastforce
  note c = applyMigration_cases [OF e]
  show ?case
  proof (cases r1)
    case None
    then have "applyAll fs dia ms d1 = (r, d')" using Cons.prems e by simp
    from Cons.IH [OF this] obtain k rest where "k \<le> length ms" "sd_ledger d' = sd_ledger d1 @ map rowOf (take k ms)"
        "sd_log d' = sd_log d1 @ concat (map (textOf fs dia) (take k ms)) @ rest" "r = None \<longrightarrow> k = length ms \<and> rest = []"
        "r \<noteq> None \<longrightarrow> k < length ms \<and> (\<exists>j. rest = take j (textOf fs dia (ms ! k)))"
      by (elim exE conjE)
    then show ?thesis using c None by (intro exI [of _ "Suc k"] exI [of _ rest]) simp
  next
    case (Some x)
    then obtain j where j: "sd_log d' = sd_log d @ take j (textOf fs dia m)" "sd_ledger d' = sd_ledger d" "r \<noteq> None"
      using Cons.prems e c by auto
    show ?thesis by (rule exI [of _ 0], rule exI [of _ "take j (textOf fs dia m)"]) (use j in auto)
  qed
qed simp

text \<open>The state of the ledger after boots that may have failed anywhere: the first k migrations are recorded, in order, and each of them was
  executed as a whole.\<close>

definition migrated :: "(string \<Rightarrow> string option) \<Rightarrow> Dialect \<Rightarrow> nat \<Rightarrow> sdb \<Rightarrow> bool" where
  "migrated fs dia k d \<longleftrightarrow> k \<le> length migrations \<and> sd_ledger d = map rowOf (take k migrations) \<and>
     (\<forall>i<k. \<exists>p q. sd_log d = p @ textOf fs dia (migrations ! i) @ q)"

definition baseText :: "(string \<Rightarrow> string option) \<Rightarrow> Dialect \<Rightarrow> string set" where
  "baseText fs dia =
     {Rebind dia (ledgerDDL dia), Rebind dia (UpsertNoop dia ''goacos_meta'' ''k'' ''v'')} \<union>
     (case fs (if dia = DialectPostgres then ''schema/schema.postgres.sql'' else ''schema/schema.sql'') of
        None \<Rightarrow> {} | Some raw \<Rightarrow> Rebind dia ` set (splitSQLStatements raw))"

lemma pending_rest: "k \<le> length migrations \<Longrightarrow> pendingOf (map fst (map rowOf (take k migrations))) migrations = drop k migrations"
proof -
  assume "k \<le> length migrations"
  then consider "k = 0" | "k = 1" | "k = 2" | "k = 3" by (fastforce simp: migrations_def)
  then show ?thesis by cases (simp_all add: pendingOf_def migrations_def rowOf_def numeral_2_eq_2 numeral_3_eq_3)
qed

lemma no_collision: "find (\<lambda>m. m_Version m \<le> baselineSchemaVersion) (sliceStable (\<lambda>a b. m_Version a < m_Version b) migrations) = None"
  by (simp add: migrations_def baselineSchemaVersion_def)

lemma migrated_more:
  assumes "migrated fs dia k d" "sd_ledger d' = sd_ledger d" "sd_log d' = sd_log d @ added"
  shows "migrated fs dia k d'"
proof -
  have "\<exists>p q. sd_log d' = p @ textOf fs dia (migrations ! i) @ q" if i: "i < k" for i
  proof -
    obtain p q where "sd_log d = p @ textOf fs dia (migrations ! i) @ q" using assms(1) i unfolding migrated_def by blast
    then have "sd_log d' = p @ textOf fs dia (migrations ! i) @ q @ added" using assms(3) by simp
    then show ?thesis by blast
  qed
  then show ?thesis using assms unfolding migrated_def by simp
qed

lemma concat_part:
  assumes "i < length xs"
  shows "\<exists>p q. concat (map f xs) = p @ f (xs ! i) @ q"
proof -
  have "xs = take i xs @ xs ! i # drop (Suc i) xs" using assms by (rule id_take_nth_drop)
  then have "concat (map f xs) = concat (map f (take i xs)) @ f (xs ! i) @ concat (map f (drop (Suc i) xs))"
    by (metis concat.simps(2) concat_append list.simps(9) map_append)
  then show ?thesis by blast
qed

lemma migrated_apply:
  assumes "migrated fs dia k d" "applyAll fs dia (drop k migrations) d = (r, d')"
  shows "\<exists>k' added. migrated fs dia k' d' \<and> sd_log d' = sd_log d @ added \<and> (r = None \<longrightarrow> k' = length migrations) \<and> (k = length migrations \<longrightarrow> k' = k \<and> added = [])"
proof -
  obtain j rest where j: "j \<le> length (drop k migrations)" "sd_ledger d' = sd_ledger d @ map rowOf (take j (drop k migrations))"
      "sd_log d' = sd_log d @ concat (map (textOf fs dia) (take j (drop k migrations))) @ rest"
      "r = None \<longrightarrow> j = length (drop k migrations) \<and> rest = []" "r \<noteq> None \<longrightarrow> j < length (drop k migrations) \<and> (\<exists>i. rest = take i (textOf fs dia (drop k migrations ! j)))"
    using applyAll_prefix [OF assms(2)] by (elim exE conjE)
  let ?k = "k + j"
  have k: "k \<le> length migrations" "sd_ledger d = map rowOf (take k migrations)" using assms(1) by (simp_all add: migrated_def)
  have "\<exists>p q. sd_log d' = p @ textOf fs dia (migrations ! i) @ q" if i: "i < ?k" for i
  proof (cases "i < k")
    case True
    then obtain p q where "sd_log d = p @ textOf fs dia (migrations ! i) @ q" using assms(1) unfolding migrated_def by blast
    then have "sd_log d' = p @ textOf fs dia (migrations ! i) @ q @ concat (map (textOf fs dia) (take j (drop k migrations))) @ rest" using j(3) by simp
    then show ?thesis by blast
  next
    case False
    then have n: "i - k < length (take j (drop k migrations))" "take j (drop k migrations) ! (i - k) = migrations ! i" using i j(1) k(1) by auto
    obtain p q where "concat (map (textOf fs dia) (take j (drop k migrations))) = p @ textOf fs dia (migrations ! i) @ q"
      using concat_part [OF n(1), of "textOf fs dia"] n(2) by auto
    then have "sd_log d' = (sd_log d @ p) @ textOf fs dia (migrations ! i) @ q @ rest" using j(3) by simp
    then show ?thesis by blast
  qed
  moreover have "sd_ledger d' = map rowOf (take ?k migrations)" using j(2) k(2) by (simp add: take_add)
  ultimately have "migrated fs dia ?k d'" using j(1) k(1) unfolding migrated_def by simp
  moreover have "r = None \<longrightarrow> ?k = length migrations" "k = length migrations \<longrightarrow> ?k = k \<and> concat (map (textOf fs dia) (take j (drop k migrations))) @ rest = []"
    using j(1,4,5) k(1) by auto
  ultimately show ?thesis using j(3) by blast
qed

lemma migrated_run:
  assumes "migrated fs dia k d" "runMigrations fs dia d = (r, d')"
  shows "\<exists>k' added. migrated fs dia k' d' \<and> sd_log d' = sd_log d @ added \<and> (r = None \<longrightarrow> k' = length migrations) \<and>
    (k = length migrations \<longrightarrow> k' = k \<and> set added \<subseteq> baseText fs dia)"
proof -
  obtain r1 d1 where e: "Exec dia (ledgerDDL dia) d = (r1, d1)" by fastforce
  obtain r2 d2 where n: "nextOutcome d1 = (r2, d2)" by fastforce
  note c = Exec_cases [OF e] and nk = nextOutcome_keeps [OF n]
  have m: "migrated fs dia k d1" "migrated fs dia k d2"
    using migrated_more [OF assms(1)] c nk by (cases r1; force)+
  consider "r1 \<noteq> None" "d' = d1" "r \<noteq> None" | "r1 = None" "r2 \<noteq> None" "d' = d2" "r \<noteq> None"
    | "r1 = None" "r2 = None" "applyAll fs dia (pendingOf (map fst (sd_ledger d2)) migrations) d2 = (r, d')"
    using assms(2) e n by (cases r1; cases r2) (auto simp: runMigrations_def ensureMigrationLedger_def appliedMigrations_def no_collision)
  then show ?thesis
  proof cases
    case 1
    then show ?thesis using m c by (intro exI [of _ k] exI [of _ "[]"]) auto
  next
    case 2
    then show ?thesis using m c nk by (intro exI [of _ k] exI [of _ "[Rebind dia (ledgerDDL dia)]"]) (auto simp: baseText_def)
  next
    case 3
    have "k \<le> length migrations" "sd_ledger d2 = map rowOf (take k migrations)" using m(2) by (simp_all add: migrated_def)
    then have "applyAll fs dia (drop k migrations) d2 = (r, d')" using 3(3) pending_rest by metis
    from migrated_apply [OF m(2) this] obtain k' added where a: "migrated fs dia k' d'" "sd_log d' = sd_log d2 @ added"
        "r = None \<longrightarrow> k' = length migrations" "k = length migrations \<longrightarrow> k' = k \<and> added = []"
      by (elim exE conjE)
    then show ?thesis using c nk 3(1) by (intro exI [of _ k'] exI [of _ "Rebind dia (ledgerDDL dia) # added"]) (auto simp: baseText_def)
  qed
qed

lemma migrated_boot:
  assumes "migrated fs dia k d" "ensureSchema fs dia d = (r, d')"
  shows "\<exists>k' added. migrated fs dia k' d' \<and> sd_log d' = sd_log d @ added \<and> (r = None \<longrightarrow> k' = length migrations) \<and>
    (k = length migrations \<longrightarrow> k' = k \<and> set added \<subseteq> baseText fs dia)"
proof (cases "fs (if dia = DialectPostgres then ''schema/schema.postgres.sql'' else ''schema/schema.sql'')")
  case None
  then show ?thesis using assms by (intro exI [of _ k] exI [of _ "[]"]) (auto simp: ensureSchema_def Let_def)
next
  case (Some raw)
  define ss where "ss = filter (\<lambda>s. s \<noteq> '''') (splitSQLStatements raw)"
  have b: "Rebind dia ` set (splitSQLStatements raw) \<subseteq> baseText fs dia" "Rebind dia (UpsertNoop dia ''goacos_meta'' ''k'' ''v'') \<in> baseText fs dia"
    using Some by (auto simp: baseText_def)
  obtain r1 d1 where s: "applyStatements dia (Rebind dia) SchemaStatement ss d = (r1, d1)" by fastforce
  obtain j where j: "sd_ledger d1 = sd_ledger d" "sd_log d1 = sd_log d @ map (\<lambda>s. Rebind dia (Rebind dia s)) (take j ss)"
    using applyStatements_prefix [OF s] by blast
  have jb: "set (map (\<lambda>s. Rebind dia (Rebind dia s)) (take j ss)) \<subseteq> baseText fs dia"
    using b(1) by (auto simp: Rebind_idem ss_def dest!: in_set_takeD)
  note m1 = migrated_more [OF assms(1) j]
  obtain r2 d2 where e: "Exec dia (Rebind dia (UpsertNoop dia ''goacos_meta'' ''k'' ''v'')) d1 = (r2, d2)" by fastforce
  note c = Exec_cases [OF e]
  have m2: "migrated fs dia k d2" using migrated_more [OF m1] c by (cases r2) force+
  consider "r1 \<noteq> None" "d' = d1" "r \<noteq> None" | "r1 = None" "r2 \<noteq> None" "d' = d2" "r \<noteq> None" | "r1 = None" "r2 = None" "runMigrations fs dia d2 = (r, d')"
    using assms(2) Some s e unfolding ensureSchema_def Let_def by (cases r1; cases r2) (auto simp: ss_def)
  then show ?thesis
  proof cases
    case 1
    then show ?thesis using m1 j jb by (intro exI [of _ k] exI) auto
  next
    case 2
    then show ?thesis using m2 j jb c by (intro exI [of _ k] exI) auto
  next
    case 3
    from migrated_run [OF m2 3(3)] obtain k' added where a: "migrated fs dia k' d'" "sd_log d' = sd_log d2 @ added"
        "r = None \<longrightarrow> k' = length migrations" "k = length migrations \<longrightarrow> k' = k \<and> set added \<subseteq> baseText fs dia"
      by (elim exE conjE)
    then show ?thesis using j jb b(2) c 3(2)
      by (intro exI [of _ k'] exI [of _ "map (\<lambda>s. Rebind dia (Rebind dia s)) (take j ss) @ Rebind dia (Rebind dia (UpsertNoop dia ''goacos_meta'' ''k'' ''v'')) # added"])
        (auto simp: Rebind_idem)
  qed
qed

text \<open>A database is booted any number of times, each boot with failures of its own.\<close>

fun boots :: "(string \<Rightarrow> string option) \<Rightarrow> Dialect \<Rightarrow> string option list list \<Rightarrow> sdb \<Rightarrow> sdb" where
  "boots fs dia [] d = d"
| "boots fs dia (sc # scs) d = boots fs dia scs (snd (ensureSchema fs dia (d\<lparr>sd_script := sc\<rparr>)))"

lemma migrated_script: "migrated fs dia k (d\<lparr>sd_script := sc\<rparr>) = migrated fs dia k d"
  by (simp add: migrated_def)

lemma boots_migrated: "migrated fs dia k d \<Longrightarrow> \<exists>k'. migrated fs dia k' (boots fs dia scs d)"
proof (induction scs arbitrary: k d)
  case (Cons sc scs)
  have "migrated fs dia k (d\<lparr>sd_script := sc\<rparr>)" using Cons.prems by (simp add: migrated_script)
  from migrated_boot [OF this surjective_pairing] show ?case using Cons.IH by fastforce
qed auto

text \<open>C9. The schema ledger over any number of boots of a fresh database, each of which may fail at any statement: the recorded migrations are
  always the first few of the list, in order and each once, and every recorded one was executed as a whole; a boot that succeeds leaves
  all of them recorded; and once all are recorded a later boot executes nothing but the base script and the bookkeeping statements.\<close>

theorem boots_migrate_once:
  assumes "d = boots fs dia scripts \<lparr>sd_log = [], sd_ledger = [], sd_script = []\<rparr>" and "ensureSchema fs dia (d\<lparr>sd_script := nxt\<rparr>) = (r, d')"
  shows "\<exists>k. sd_ledger d = map rowOf (take k migrations) \<and> (\<forall>i<k. \<exists>p q. sd_log d = p @ textOf fs dia (migrations ! i) @ q) \<and>
    (r = None \<longrightarrow> sd_ledger d' = map rowOf migrations) \<and>
    (k = length migrations \<longrightarrow> (\<exists>added. sd_log d' = sd_log d @ added \<and> set added \<subseteq> baseText fs dia))"
proof -
  have "migrated fs dia 0 \<lparr>sd_log = [], sd_ledger = [], sd_script = []\<rparr>" by (simp add: migrated_def)
  then obtain k where k: "migrated fs dia k d" using boots_migrated assms(1) by metis
  then have "migrated fs dia k (d\<lparr>sd_script := nxt\<rparr>)" by (simp add: migrated_script)
  from migrated_boot [OF this assms(2)]
  obtain k' added where "migrated fs dia k' d'" "sd_log d' = sd_log (d\<lparr>sd_script := nxt\<rparr>) @ added" "r = None \<longrightarrow> k' = length migrations"
      "k = length migrations \<longrightarrow> k' = k \<and> set added \<subseteq> baseText fs dia"
    by (elim exE conjE)
  then show ?thesis using k unfolding migrated_def by (intro exI [of _ k]) auto
qed

definition demoFiles :: "string \<Rightarrow> string option" where
  "demoFiles _ = Some (''-- first'' @ [CHR 0x0A] @ ''A;'')"

lemma demo_split: "splitSQLStatements (''-- first'' @ [CHR 0x0A] @ ''A;'') = [''A;'']"
  by (simp add: splitSQLStatements_def skipped_def nonBlank_def trimSuffix_def hasSuffix_def hasPrefix_def trimSpace_def trimLeft_def trimRight_def
      isSpace_def byte_def)

lemma demo_boot: "fst (ensureSchema demoFiles DialectMySQL \<lparr>sd_log = [], sd_ledger = [], sd_script = []\<rparr>) = None"
  by (simp add: ensureSchema_def runMigrations_def no_collision baselineSchemaVersion_def pendingOf_def migrations_def applyMigration_def migrationPath_def statementsOf_def
      ensureMigrationLedger_def appliedMigrations_def recordMigration_def Exec_def nextOutcome_def demoFiles_def
      demo_split [unfolded append.simps] trimSpace_def trimLeft_def trimRight_def isSpace_def byte_def Let_def)

theorem boots_migrate_once_witness:
  "\<exists>d. ensureSchema demoFiles DialectMySQL \<lparr>sd_log = [], sd_ledger = [], sd_script = []\<rparr> = (None, d) \<and>
     sd_ledger d = [(2, ''application''), (3, ''gateway''), (4, ''instance_sweep'')]"
proof -
  let ?d = "\<lparr>sd_log = [], sd_ledger = [], sd_script = []\<rparr>"
  obtain d where d: "ensureSchema demoFiles DialectMySQL ?d = (None, d)" using demo_boot by (metis prod.collapse)
  have "?d = boots demoFiles DialectMySQL [] ?d" by simp
  from boots_migrate_once [OF this, of "[]" None d] d have "sd_ledger d = map rowOf migrations" by auto
  then show ?thesis using d by (simp add: migrations_def rowOf_def)
qed

text \<open>A migration whose statements ran but whose row could not be written runs again at the next boot, statement by statement; a script that
  cannot be repeated (the one of version 4 for MySQL adds an index) then fails every boot.\<close>

lemma unrecorded_runs_again:
  assumes "applyMigration fs dia m d = (Some (RecordFailed v e), d1)" and "applyMigration fs dia m (d1\<lparr>sd_script := sc\<rparr>) = (None, d2)"
  shows "sd_log d2 = sd_log d @ textOf fs dia m @ textOf fs dia m"
proof -
  obtain p where p: "migrationPath fs m dia = Inr p" using assms(2) by (cases "migrationPath fs m dia") (auto simp: applyMigration_def)
  obtain r1 d0 where s: "applyStatements dia (\<lambda>s. s) (StatementFailed (m_Version m) (m_Name m)) (statementsOf fs dia m) d = (r1, d0)" by fastforce
  have e: "applyStatements dia (\<lambda>s. s) (StatementFailed (m_Version m) (m_Name m)) ss d = (Some x, d') \<Longrightarrow> x \<noteq> RecordFailed v e" for ss d d' x
    by (induction ss arbitrary: d) (auto split: prod.splits option.splits)
  have r: "r1 = None" "sd_log d1 = sd_log d0"
    using assms(1) p s e [of "statementsOf fs dia m" d]
    by (auto simp: applyMigration_def recordMigration_def split: option.splits prod.splits if_splits dest: nextOutcome_keeps)
  have "sd_log d0 = sd_log d @ textOf fs dia m"
    using applyStatements_prefix [OF s] r(1) by (auto simp: textOf_def)
  then show ?thesis using applyMigration_cases [OF assms(2)] r(2) by simp
qed

end
