(* ===== verification/Boot.thy ===== *)
theory Boot
  imports EnvConfig Migrate
begin

text \<open>
  Attaching to a database (\<^verbatim>\<open>Open\<close> of \<^verbatim>\<open>internal/storage/store.go\<close> with the dialect's \<^verbatim>\<open>EnsureDatabase\<close> and \<^verbatim>\<open>open\<close>) and the start of the
  server (\<^verbatim>\<open>internal/app/app.go\<close>).  The outside is the list of open connection pools, the databases of the server and the database of
  the migrations, whose script also tells how opening, pinging and creating end, and the rows the server works on, which the seed fills.
\<close>

record dbWorld =
  dw_pools :: "nat list"
  dw_next :: nat
  dw_opened :: "(string \<times> string \<times> int option \<times> int option \<times> int option) list"
  dw_databases :: "string list"
  dw_created :: "string list"
  dw_db :: sdb
  dw_tables :: db

definition outcomeOf :: "dbWorld \<Rightarrow> string option \<times> dbWorld" where
  "outcomeOf w = (case nextOutcome (dw_db w) of (r, d) \<Rightarrow> (r, w\<lparr>dw_db := d\<rparr>))"

definition ifPositive :: "int \<Rightarrow> int option" where
  "ifPositive n = (if n > 0 then Some n else None)"

definition openPool :: "Dialect \<Rightarrow> string \<Rightarrow> int \<Rightarrow> int \<Rightarrow> int \<Rightarrow> dbWorld \<Rightarrow> (string + nat) \<times> dbWorld" where
  "openPool dia dsn maxOpen maxIdle lifetimeSeconds w =
     (case outcomeOf w of
        (Some e, w') \<Rightarrow> (Inl e, w')
      | (None, w') \<Rightarrow>
          (Inr (dw_next w'), w'\<lparr>dw_pools := dw_next w' # dw_pools w', dw_next := dw_next w' + 1,
             dw_opened := dw_opened w' @ [(DriverName dia, dsn, ifPositive maxOpen, ifPositive maxIdle, ifPositive lifetimeSeconds)]\<rparr>))"

definition closePool :: "nat \<Rightarrow> dbWorld \<Rightarrow> dbWorld" where
  "closePool h w = w\<lparr>dw_pools := remove1 h (dw_pools w)\<rparr>"

text \<open>\<open>quote\<close> is the quoting of \<^verbatim>\<open>%q\<close>.\<close>

definition createDatabase :: "(string \<Rightarrow> string) \<Rightarrow> Dialect \<Rightarrow> string \<Rightarrow> string" where
  "createDatabase quote dia name =
     (if dia = DialectPostgres then ''CREATE DATABASE '' @ quote name
      else ''CREATE DATABASE IF NOT EXISTS `'' @ name @ ''` DEFAULT CHARACTER SET utf8mb4 COLLATE utf8mb4_general_ci'')"

definition runCreate :: "(string \<Rightarrow> string) \<Rightarrow> Dialect \<Rightarrow> string \<Rightarrow> dbWorld \<Rightarrow> string option \<times> dbWorld" where
  "runCreate quote dia name w =
     (case outcomeOf w of
        (Some e, w') \<Rightarrow> (Some e, w')
      | (None, w') \<Rightarrow> (None, w'\<lparr>dw_databases := List.insert name (dw_databases w'), dw_created := dw_created w' @ [createDatabase quote dia name]\<rparr>))"

definition EnsureDatabase :: "(string \<Rightarrow> string) \<Rightarrow> Dialect \<Rightarrow> string \<Rightarrow> dbWorld \<Rightarrow> string option \<times> dbWorld" where
  "EnsureDatabase quote dia name w =
     (if dia = DialectPostgres then
        (case outcomeOf w of
           (Some e, w') \<Rightarrow> (Some e, w')
         | (None, w') \<Rightarrow>
             if name \<in> set (dw_databases w') then (None, w')
             else (case runCreate quote dia name w' of
                     (Some e, w'') \<Rightarrow> (if contains e ''42P04'' \<or> contains (toLower e) ''already exists'' then None else Some e, w'')
                   | (None, w'') \<Rightarrow> (None, w'')))
      else runCreate quote dia name w)"

datatype openErr = OpenDSN string | OpenServer string | ConnectFailed string | CreateFailed string string | OpenDatabase string | PingFailed string
  | SchemaFailed migErr | SeedFailed goerr

definition onDatabase :: "(sdb \<Rightarrow> 'e option \<times> sdb) \<Rightarrow> dbWorld \<Rightarrow> 'e option \<times> dbWorld" where
  "onDatabase f w = (case f (dw_db w) of (r, d) \<Rightarrow> (r, w\<lparr>dw_db := d\<rparr>))"

definition onTables :: "'a dbop \<Rightarrow> dbWorld \<Rightarrow> goerr option \<times> dbWorld" where
  "onTables f w = (case f (dw_tables w) of (Inl e, d) \<Rightarrow> (Some e, w\<lparr>dw_tables := d\<rparr>) | (Inr _, d) \<Rightarrow> (None, w\<lparr>dw_tables := d\<rparr>))"

text \<open>The pool of the target database: as it is given, or after the database was created on the server.\<close>

definition attach :: "(string \<Rightarrow> string) \<Rightarrow> Dialect \<Rightarrow> serverConfig \<Rightarrow> dbWorld \<Rightarrow> (openErr + nat) \<times> dbWorld" where
  "attach quote dia cfg w =
     (let dsn = (\<lambda>name. DSNFor dia (s_MySQLHost cfg) (s_MySQLPort cfg) (s_MySQLUser cfg) (s_MySQLPassword cfg) name);
          life = quotient (s_ConnMaxLifetime cfg) second
      in if s_DBDSN cfg \<noteq> '''' then
           (case openPool dia (s_DBDSN cfg) (s_MaxOpenConns cfg) (s_MaxIdleConns cfg) life w of
              (Inl e, w') \<Rightarrow> (Inl (OpenDSN e), w') | (Inr h, w') \<Rightarrow> (Inr h, w'))
         else
           (case openPool dia (dsn (ServerDB dia)) 4 2 0 w of
              (Inl e, w1) \<Rightarrow> (Inl (OpenServer e), w1)
            | (Inr srv, w1) \<Rightarrow>
                (case outcomeOf w1 of
                   (Some e, w2) \<Rightarrow> (Inl (ConnectFailed e), closePool srv w2)
                 | (None, w2) \<Rightarrow>
                     (case EnsureDatabase quote dia (s_MySQLDB cfg) w2 of
                        (Some e, w3) \<Rightarrow> (Inl (CreateFailed (s_MySQLDB cfg) e), closePool srv w3)
                      | (None, w3) \<Rightarrow>
                          (case openPool dia (dsn (s_MySQLDB cfg)) (s_MaxOpenConns cfg) (s_MaxIdleConns cfg) life (closePool srv w3) of
                             (Inl e, w4) \<Rightarrow> (Inl (OpenDatabase e), w4) | (Inr h, w4) \<Rightarrow> (Inr h, w4))))))"

definition Open :: "(string \<Rightarrow> string) \<Rightarrow> (string \<Rightarrow> string option) \<Rightarrow> (string \<Rightarrow> goerr + string) \<Rightarrow> compareHash \<Rightarrow> serverConfig \<Rightarrow> dbWorld \<Rightarrow> (openErr + nat) \<times> dbWorld" where
  "Open quote fs gen cmp cfg w =
     (let dia = DialectFor (s_DBType cfg) (s_DBDSN cfg)
      in case attach quote dia cfg w of
           (Inl e, w1) \<Rightarrow> (Inl e, w1)
         | (Inr h, w1) \<Rightarrow>
             (case outcomeOf w1 of
                (Some e, w2) \<Rightarrow> (Inl (PingFailed e), closePool h w2)
              | (None, w2) \<Rightarrow>
                  (case onDatabase (ensureSchema fs dia) w2 of
                     (Some e, w3) \<Rightarrow> (Inl (SchemaFailed e), closePool h w3)
                   | (None, w3) \<Rightarrow>
                       (case onTables (Seed gen cmp (s_Auth cfg)) w3 of
                          (Some e, w4) \<Rightarrow> (Inl (SeedFailed e), closePool h w4)
                        | (None, w4) \<Rightarrow> (Inr h, w4)))))"

text \<open>The start of the server up to the open store.\<close>

datatype startErr = BadAuth goerr | NotOpened openErr

definition startServer :: "(string \<Rightarrow> string) \<Rightarrow> (string \<Rightarrow> string option) \<Rightarrow> (string \<Rightarrow> goerr + string) \<Rightarrow> compareHash \<Rightarrow> (string \<Rightarrow> string) \<Rightarrow> dbWorld \<Rightarrow> (startErr + nat) \<times> dbWorld" where
  "startServer quote fs gen cmp os w =
     (let cfg = FromEnv os
      in case ValidateAuth (s_Auth cfg) of
           Some e \<Rightarrow> (Inl (BadAuth e), w)
         | None \<Rightarrow> (case Open quote fs gen cmp cfg w of (Inl e, w') \<Rightarrow> (Inl (NotOpened e), w') | (Inr h, w') \<Rightarrow> (Inr h, w')))"

subsection \<open>No pool is left behind\<close>

lemma outcomeOf_pools: "outcomeOf w = (r, w') \<Longrightarrow> dw_pools w' = dw_pools w \<and> dw_next w' = dw_next w \<and> dw_opened w' = dw_opened w"
  by (auto simp: outcomeOf_def split: prod.splits)

lemma openPool_pools:
  "openPool dia dsn a b c w = (r, w') \<Longrightarrow>
     dw_pools w' = (case r of Inl _ \<Rightarrow> dw_pools w | Inr h \<Rightarrow> h # dw_pools w)"
  by (auto simp: openPool_def split: prod.splits option.splits dest!: outcomeOf_pools)

lemma EnsureDatabase_pools: "EnsureDatabase quote dia name w = (r, w') \<Longrightarrow> dw_pools w' = dw_pools w"
  by (auto simp: EnsureDatabase_def runCreate_def split: if_splits prod.splits option.splits dest!: outcomeOf_pools)

lemma onDatabase_pools: "onDatabase f w = (r, w') \<Longrightarrow> dw_pools w' = dw_pools w"
  by (auto simp: onDatabase_def split: prod.splits)

lemma onTables_pools: "onTables f w = (r, w') \<Longrightarrow> dw_pools w' = dw_pools w \<and> dw_db w' = dw_db w"
  by (auto simp: onTables_def split: prod.splits sum.splits)

lemmas pool_facts = outcomeOf_pools openPool_pools EnsureDatabase_pools onDatabase_pools

lemma closePool_pools [simp]: "dw_pools (closePool h w) = remove1 h (dw_pools w)"
  by (simp add: closePool_def)

lemma attach_pools:
  "attach quote dia cfg w = (r, w') \<Longrightarrow> dw_pools w' = (case r of Inl _ \<Rightarrow> dw_pools w | Inr h \<Rightarrow> h # dw_pools w)"
  by (auto simp: attach_def Let_def split: if_splits prod.splits sum.splits option.splits dest!: pool_facts)

text \<open>Opening the store leaves no connection pool behind: whatever fails on the way - opening, connecting, creating the database, the ping,
  the schema or the seed - the open pools are those of before, and on success there is exactly one more, the store's own.\<close>

lemma open_pools:
  "Open quote fs gen cmp cfg w = (r, w') \<Longrightarrow> dw_pools w' = (case r of Inl _ \<Rightarrow> dw_pools w | Inr h \<Rightarrow> h # dw_pools w)"
  by (auto simp: Open_def Let_def split: prod.splits sum.splits option.splits dest!: attach_pools outcomeOf_pools onDatabase_pools onTables_pools)

subsection \<open>A server that started\<close>

text \<open>Authentication settings are checked before anything is opened.\<close>

lemma start_checks_auth_first: "ValidateAuth (s_Auth (FromEnv os)) = Some e \<Longrightarrow> startServer quote fs gen cmp os w = (Inl (BadAuth e), w)"
  by (simp add: startServer_def Let_def)

lemma outcomeOf_db: "outcomeOf w = (r, w') \<Longrightarrow> sd_log (dw_db w') = sd_log (dw_db w) \<and> sd_ledger (dw_db w') = sd_ledger (dw_db w)"
  by (auto simp: outcomeOf_def split: prod.splits dest!: nextOutcome_keeps)

lemma openPool_db: "openPool dia dsn a b c w = (r, w') \<Longrightarrow> sd_log (dw_db w') = sd_log (dw_db w) \<and> sd_ledger (dw_db w') = sd_ledger (dw_db w)"
  by (auto simp: openPool_def split: prod.splits option.splits dest!: outcomeOf_db)

lemma EnsureDatabase_db: "EnsureDatabase quote dia name w = (r, w') \<Longrightarrow> sd_log (dw_db w') = sd_log (dw_db w) \<and> sd_ledger (dw_db w') = sd_ledger (dw_db w)"
  by (auto simp: EnsureDatabase_def runCreate_def split: if_splits prod.splits option.splits dest!: outcomeOf_db)

lemma closePool_db [simp]: "dw_db (closePool h w) = dw_db w"
  by (simp add: closePool_def)

lemma attach_db: "attach quote dia cfg w = (r, w') \<Longrightarrow> sd_log (dw_db w') = sd_log (dw_db w) \<and> sd_ledger (dw_db w') = sd_ledger (dw_db w)"
  by (auto simp: attach_def Let_def split: if_splits prod.splits sum.splits option.splits dest!: outcomeOf_db openPool_db EnsureDatabase_db)

lemma migrated_same: "migrated fs dia k d \<Longrightarrow> sd_log d' = sd_log d \<and> sd_ledger d' = sd_ledger d \<Longrightarrow> migrated fs dia k d'"
  by (simp add: migrated_def)

lemma attach_tables: "attach quote dia cfg w = (r, w') \<Longrightarrow> dw_tables w' = dw_tables w"
  by (auto simp: attach_def openPool_def EnsureDatabase_def runCreate_def outcomeOf_def closePool_def Let_def split: if_splits prod.splits sum.splits option.splits)

lemma open_steps:
  assumes "Open quote fs gen cmp cfg w = (Inr h, w')"
  shows "\<exists>w1 w2 w3. attach quote (DialectFor (s_DBType cfg) (s_DBDSN cfg)) cfg w = (Inr h, w1) \<and> outcomeOf w1 = (None, w2) \<and>
    onDatabase (ensureSchema fs (DialectFor (s_DBType cfg) (s_DBDSN cfg))) w2 = (None, w3) \<and> onTables (Seed gen cmp (s_Auth cfg)) w3 = (None, w')"
  using assms by (auto simp: Open_def Let_def split: prod.splits sum.splits option.splits)

lemma open_migrated:
  assumes "Open quote fs gen cmp cfg w = (Inr h, w')" "migrated fs (DialectFor (s_DBType cfg) (s_DBDSN cfg)) k (dw_db w)"
  shows "sd_ledger (dw_db w') = map rowOf migrations"
proof -
  let ?dia = "DialectFor (s_DBType cfg) (s_DBDSN cfg)"
  obtain w1 w2 w3 where s: "attach quote ?dia cfg w = (Inr h, w1)" "outcomeOf w1 = (None, w2)" "onDatabase (ensureSchema fs ?dia) w2 = (None, w3)"
      "onTables (Seed gen cmp (s_Auth cfg)) w3 = (None, w')"
    using open_steps [OF assms(1)] by blast
  from migrated_same [OF migrated_same [OF assms(2) attach_db [OF s(1)]] outcomeOf_db [OF s(2)]] have m: "migrated fs ?dia k (dw_db w2)" .
  have e: "ensureSchema fs ?dia (dw_db w2) = (None, dw_db w3)" using s(3) by (auto simp: onDatabase_def split: prod.splits)
  from migrated_boot [OF m e] obtain k' where "migrated fs ?dia k' (dw_db w3)" "k' = length migrations" by blast
  then show ?thesis using onTables_pools [OF s(4)] by (simp add: migrated_def)
qed

lemma open_seeded:
  assumes "Open quote fs gen cmp cfg w = (Inr h, w')"
  shows "Seed gen cmp (s_Auth cfg) (dw_tables w) = (Inr (), dw_tables w')"
proof -
  obtain w1 w2 w3 where s: "attach quote (DialectFor (s_DBType cfg) (s_DBDSN cfg)) cfg w = (Inr h, w1)" "outcomeOf w1 = (None, w2)"
      "onDatabase (ensureSchema fs (DialectFor (s_DBType cfg) (s_DBDSN cfg))) w2 = (None, w3)" "onTables (Seed gen cmp (s_Auth cfg)) w3 = (None, w')"
    using open_steps [OF assms] by blast
  have "dw_tables w3 = dw_tables w" using attach_tables [OF s(1)] s(2,3) by (auto simp: outcomeOf_def onDatabase_def split: prod.splits)
  then show ?thesis using s(4) by (auto simp: onTables_def split: prod.splits sum.splits)
qed

text \<open>A server that started is fit to serve.  Let the database be one that went through boots of this program, however they ended.  A start
  that returns a store has every migration recorded, each once and in order, and has opened exactly one connection pool; with
  authentication on, no enabled administrator accepts the old public default password, whether just seeded or there before (no other
  session writing meanwhile).  A start that fails leaves no pool open, and with refused authentication settings nothing is touched.\<close>

theorem started_server_is_fit:
  assumes "dw_db w = (boots fs (DialectFor (s_DBType (FromEnv os)) (s_DBDSN (FromEnv os))) scripts \<lparr>sd_log = [], sd_ledger = [], sd_script = []\<rparr>)\<lparr>sd_script := sc\<rparr>"
    and "alone (script (dw_tables w))" and "startServer quote fs gen cmp os w = (r, w')"
  shows "case r of
      Inl e \<Rightarrow> dw_pools w' = dw_pools w \<and> (ValidateAuth (s_Auth (FromEnv os)) \<noteq> None \<longrightarrow> w' = w)
    | Inr h \<Rightarrow> sd_ledger (dw_db w') = map rowOf migrations \<and> dw_pools w' = h # dw_pools w \<and>
        (ac_AuthEnabled (s_Auth (FromEnv os)) \<longrightarrow> noPublicPassword cmp (tabs (dw_tables w')))"
proof (cases "ValidateAuth (s_Auth (FromEnv os))")
  case (Some e)
  then show ?thesis using assms(3) by (auto simp: startServer_def Let_def)
next
  case None
  let ?cfg = "FromEnv os" and ?dia = "DialectFor (s_DBType (FromEnv os)) (s_DBDSN (FromEnv os))"
  obtain x where o: "Open quote fs gen cmp ?cfg w = (x, w')" "r = (case x of Inl e \<Rightarrow> Inl (NotOpened e) | Inr h \<Rightarrow> Inr h)"
    using assms(3) None by (auto simp: startServer_def Let_def split: prod.splits sum.splits)
  have p: "dw_pools w' = (case x of Inl _ \<Rightarrow> dw_pools w | Inr h \<Rightarrow> h # dw_pools w)" using open_pools [OF o(1)] .
  show ?thesis
  proof (cases x)
    case (Inl e)
    then show ?thesis using p o(2) None by simp
  next
    case (Inr h)
    have "migrated fs ?dia 0 \<lparr>sd_log = [], sd_ledger = [], sd_script = []\<rparr>" by (simp add: migrated_def)
    from boots_migrated [OF this, of scripts] obtain k where "migrated fs ?dia k (dw_db w)" unfolding assms(1) migrated_script by blast
    from open_migrated [OF o(1) [unfolded Inr] this] have l: "sd_ledger (dw_db w') = map rowOf migrations" .
    have "noPublicPassword cmp (tabs (dw_tables w'))" if "ac_AuthEnabled (s_Auth ?cfg)"
      using seed_refuses_public_password [OF open_seeded [OF o(1) [unfolded Inr]] that assms(2)] by (auto simp: noPublicPassword_def activeAdmins_def)
    then show ?thesis using l p o(2) Inr by simp
  qed
qed

definition demoWorld :: dbWorld where
  "demoWorld = \<lparr>dw_pools = [], dw_next = 0, dw_opened = [], dw_databases = [], dw_created = [], dw_db = \<lparr>sd_log = [], sd_ledger = [], sd_script = []\<rparr>,
     dw_tables = \<lparr>tabs = empty_tables, script = []\<rparr>\<rparr>"

definition demoEnv :: "string \<Rightarrow> string" where
  "demoEnv k = (case map_of [(''GOACOS_AUTH_ENABLED'', ''true''), (''GOACOS_AUTH_TOKEN_SECRET'', ''0123456789abcdef0123456789abcdef''),
     (''GOACOS_ADMIN_USERNAME'', ''root''), (''GOACOS_ADMIN_PASSWORD'', ''correct horse'')] k of Some v \<Rightarrow> v | None \<Rightarrow> '''')"

lemma demo_env:
  "s_DBDSN (FromEnv demoEnv) = ''''" "s_DBType (FromEnv demoEnv) = ''mysql''"
  by (simp_all add: FromEnv_def getenv_def demoEnv_def)

lemma demo_auth: "s_Auth (FromEnv demoEnv) =
    \<lparr>ac_AuthEnabled = True, ac_TokenSecret = ''0123456789abcdef0123456789abcdef'', ac_TokenTTLSeconds = 18000, ac_AdminUsername = ''root'', ac_AdminPassword = ''correct horse''\<rparr>"
  by (simp add: FromEnv_def authFromEnv_def getenvBool_def envboolMustParse_value getenvInt_def getenv_def demoEnv_def
      toLower_def lowerChar_def trimSpace_def trimLeft_def trimRight_def isSpace_def byte_def)

lemma demo_valid: "ValidateAuth (s_Auth (FromEnv demoEnv)) = None"
  unfolding demo_auth by code_simp

lemma demo_dialect: "DialectFor ''mysql'' '''' = DialectMySQL"
  by (simp add: DialectFor_def hasPrefix_def toLower_def lowerChar_def trimSpace_def trimLeft_def trimRight_def isSpace_def byte_def)

definition demoHash :: "string \<Rightarrow> goerr + string" where
  "demoHash pw = Inr ('':'' @ pw)"

definition demoCompare :: compareHash where
  "demoCompare h pw = (if h = '':'' @ pw then HashMatches else HashMismatch)"

lemma demo_seed_start: "\<exists>d'. Seed demoHash demoCompare (s_Auth (FromEnv demoEnv)) \<lparr>tabs = empty_tables, script = []\<rparr> = (Inr (), d')"
  unfolding demo_auth
  by (simp add: Seed_def seedAdmin_def AddRole_def ValidateAuthState_def activeAdmins_def seedNamespace_def go_simps empty_tables_def insertIgnore_def
      countWhere_def demoHash_def demoCompare_def)

lemma demo_start: "\<exists>w'. startServer (\<lambda>s. s) demoFiles demoHash demoCompare demoEnv demoWorld = (Inr 1, w')"
proof -
  obtain d where d: "ensureSchema demoFiles DialectMySQL \<lparr>sd_log = [], sd_ledger = [], sd_script = []\<rparr> = (None, d)" using demo_boot by (metis prod.collapse)
  obtain d' where "Seed demoHash demoCompare (s_Auth (FromEnv demoEnv)) \<lparr>tabs = empty_tables, script = []\<rparr> = (Inr (), d')" using demo_seed_start by blast
  with d show ?thesis
    by (simp add: startServer_def demo_env demo_valid Open_def demo_dialect attach_def openPool_def outcomeOf_def nextOutcome_def EnsureDatabase_def runCreate_def
        onDatabase_def onTables_def closePool_def demoWorld_def Let_def)
qed

theorem started_server_is_fit_witness:
  "\<exists>w'. startServer (\<lambda>s. s) demoFiles demoHash demoCompare demoEnv demoWorld = (Inr 1, w') \<and>
     sd_ledger (dw_db w') = [(2, ''application''), (3, ''gateway''), (4, ''instance_sweep'')] \<and> dw_pools w' = [1] \<and> noPublicPassword demoCompare (tabs (dw_tables w'))"
proof -
  obtain w' where w: "startServer (\<lambda>s. s) demoFiles demoHash demoCompare demoEnv demoWorld = (Inr 1, w')" using demo_start by blast
  have b: "dw_db demoWorld = (boots demoFiles (DialectFor (s_DBType (FromEnv demoEnv)) (s_DBDSN (FromEnv demoEnv))) [] \<lparr>sd_log = [], sd_ledger = [], sd_script = []\<rparr>)\<lparr>sd_script := []\<rparr>"
    by (simp add: demoWorld_def)
  have "alone (script (dw_tables demoWorld))" by (simp add: demoWorld_def alone_def)
  from started_server_is_fit [OF b this w] show ?thesis using w by (simp add: demo_auth demoWorld_def migrations_def rowOf_def)
qed

end
