(* ===== verification/AdminApi.thy ===== *)
theory AdminApi
  imports GatewayApi EnvConfig ConfigApi
begin

text \<open>
  What an operator sees of a running gateway and what drives it: the status report (\<^verbatim>\<open>gatewayStatus\<close> of \<^verbatim>\<open>gateway_v1.go\<close>) with the
  listings of the certificate manager (\<^verbatim>\<open>certs.go\<close>), the background loops of \<^verbatim>\<open>Gateway.Run\<close> and \<^verbatim>\<open>CertManager.Run\<close> as sequences of
  ticks, and the body of the version 2 listener (\<^verbatim>\<open>config_v2.go\<close>).  The order in which Go walks a map is an argument \<open>keys\<close>.
\<close>

subsection \<open>Listings of the certificate manager\<close>

definition ListInfo :: "string list \<Rightarrow> CertManager \<Rightarrow> CertInfo list" where
  "ListInfo keys m = sliceStable (\<lambda>a b. ci_Domain a < ci_Domain b) (List.map_filter (cm_info m) keys)"

definition CertDirSources :: "string list \<Rightarrow> CertManager \<Rightarrow> string list" where
  "CertDirSources keys m =
     sliceStable (<) (filter (\<lambda>d. case cm_info m d of Some info \<Rightarrow> ci_Source info = ''file'' | None \<Rightarrow> False) keys)"

definition ActiveDomains :: "string list \<Rightarrow> CertManager \<Rightarrow> string list" where
  "ActiveDomains keys m = sliceStable (<) (filter (\<lambda>d. cm_certs m d \<noteq> None) keys)"

subsection \<open>Background loops\<close>

text \<open>The interval of the routing and issuing loops, and of the scan of the certificate directory, which is off without a directory.\<close>

definition refreshInterval :: "serverConfig \<Rightarrow> int" where
  "refreshInterval c = (let n = i64 (s_GatewayCertRefreshSeconds c * second) in if n \<le> 0 then 10 * second else n)"

definition scanInterval :: "serverConfig \<Rightarrow> int option" where
  "scanInterval c =
     (let n = i64 (s_GatewayCertScanSeconds c * second); m = (if n \<le> 0 then 30 * second else n)
      in if s_GatewayCertDir c = '''' then None else Some m)"

text \<open>One tick with what the environment answers it: of the routing loop, of the issuing loop, of the directory scan.\<close>

datatype tick = RoutingTick "int option" int "string list \<Rightarrow> string list" | CertTick world | ScanTick world bool

record gwRun =
  gr_gateway :: gateway
  gr_db :: db
  gr_dir :: fsys

definition onCerts :: "(cmState \<Rightarrow> cmState) \<Rightarrow> gwRun \<Rightarrow> gwRun" where
  "onCerts f s =
     (let st = f \<lparr>st_m = g_certs (gr_gateway s), st_db = gr_db s, st_dir = gr_dir s\<rparr>
      in \<lparr>gr_gateway = (gr_gateway s)\<lparr>g_certs := st_m st\<rparr>, gr_db = st_db st, gr_dir = st_dir st\<rparr>)"

definition reconcileAll :: "certCfg \<Rightarrow> world \<Rightarrow> gwRun \<Rightarrow> gwRun" where
  "reconcileAll cfg w s = onCerts (reconcile w cfg (tb_Domains (g_table (gr_gateway s)))) s"

fun tickStep :: "certCfg \<Rightarrow> tick \<Rightarrow> gwRun \<Rightarrow> gwRun" where
  "tickStep cfg (RoutingTick hb now order) s =
     (let (g, d) = refresh hb now order (cc_ns cfg) (gr_gateway s) (gr_db s) in s\<lparr>gr_gateway := g, gr_db := d\<rparr>)"
| "tickStep cfg (CertTick w) s = reconcileAll cfg w s"
| "tickStep cfg (ScanTick w ok) s = onCerts (scanDirectory w cfg ok) s"

text \<open>\<^verbatim>\<open>Run\<close> until it is cancelled after so many ticks: the certificates are reconciled at once, then whatever tick comes.\<close>

definition backgroundRun :: "certCfg \<Rightarrow> world \<Rightarrow> tick list \<Rightarrow> gwRun \<Rightarrow> gwRun" where
  "backgroundRun cfg w ticks s = fold (tickStep cfg) ticks (reconcileAll cfg w s)"

subsection \<open>The status report\<close>

definition certDirReadable :: "(string \<Rightarrow> bool) \<Rightarrow> string \<Rightarrow> json" where
  "certDirReadable stat dir = (if dir = '''' then JNull else JBool (stat dir))"

definition gatewayCounters :: "gateway option \<Rightarrow> json" where
  "gatewayCounters gw = (case gw of None \<Rightarrow> mapObj [] | Some g \<Rightarrow> Counters g)"

definition infoJSON :: "gwApi \<Rightarrow> CertInfo \<Rightarrow> json" where
  "infoJSON x info =
     mapObj [(''domain'', JStr (ci_Domain info)), (''source'', JStr (ci_Source info)), (''issuer'', JStr (ci_Issuer info)),
       (''notBefore'', JStr (gx_rfc3339 x (ci_NotBefore info))), (''notAfter'', JStr (gx_rfc3339 x (ci_NotAfter info))),
       (''daysLeft'', jInt (DaysLeft (gx_now x) (ci_NotAfter info))), (''expired'', JBool (Expired (gx_now x) info)),
       (''status'', JStr (ci_Status info)), (''lastError'', JStr (ci_LastError info))]"

definition acmeJSON :: "ACMEStatus \<Rightarrow> json" where
  "acmeJSON s =
     JObj [(''enabled'', JBool (as_Enabled s)), (''directory'', JStr (as_Directory s)), (''email'', JStr (as_Email s)), (''dataDir'', JStr (as_DataDir s)),
       (''challengeEndpoint'', JBool (as_ChallengeOK s)), (''pending'', jInt (int (as_Pending s))), (''backingOff'', jInt (int (as_BackingOff s)))]"

definition policyDefaultsJSON :: "serverConfig \<Rightarrow> json" where
  "policyDefaultsJSON c =
     (let g = s_Gateway c
      in mapObj [(''forceHttps'', JBool (cfg_GatewayForceHTTPS g)), (''hstsMaxAge'', jInt (cfg_GatewayHSTSMaxAge g)),
           (''maxBodyBytes'', jInt (cfg_GatewayClientMaxBodyBytes g)), (''connectTimeoutMs'', jInt (cfg_GatewayConnectTimeoutMS g)),
           (''readTimeoutMs'', jInt (cfg_GatewayReadTimeoutMS g)), (''sendTimeoutMs'', jInt (cfg_GatewaySendTimeoutMS g)),
           (''websocket'', JBool (cfg_GatewayWebsocket g)), (''trustForwardedFor'', JBool (cfg_GatewayTrustForwardedFor g)),
           (''staticRoot'', JStr (cfg_GatewayStaticRoot g)), (''staticFallback'', JBool (cfg_GatewayStaticFallback g)),
           (''refreshSeconds'', jInt (s_GatewayCertRefreshSeconds c)), (''certDir'', JStr (s_GatewayCertDir c)),
           (''certWriteBack'', JBool (s_GatewayCertWriteBack c)), (''certScanSeconds'', jInt (s_GatewayCertScanSeconds c))])"

text \<open>\<open>keys\<close> is the order of the certificates, \<open>stat\<close> whether a directory can be read, \<open>started\<close> when the server came up.  A nil slice
  is written as \<^verbatim>\<open>null\<close>.\<close>

definition stringsJSON :: "string list \<Rightarrow> json" where
  "stringsJSON xs = (if xs = [] then JNull else JArr (map JStr xs))"

definition gatewayStatus :: "gwApi \<Rightarrow> serverConfig \<Rightarrow> string list \<Rightarrow> (string \<Rightarrow> bool) \<Rightarrow> int \<Rightarrow> gwHandler" where
  "gatewayStatus x c keys stat started s =
     (case fst s of
        None \<Rightarrow>
          (appOK (mapObj [(''enabled'', JBool False), (''reason'', JStr ''gateway data plane is disabled; set GOACOS_GATEWAY_ENABLED=true'')]), s)
      | Some g \<Rightarrow>
          (let (loadedAt, refreshErr) = Snapshot (g_table g); domains = tb_Domains (g_table g)
           in (appOK (mapObj
                 [(''enabled'', JBool True), (''namespace'', JStr (s_GatewayNamespace c)),
                  (''listeners'', mapObj [(''http'', JStr (s_GatewayHTTPAddr c)), (''https'', JStr (cfg_GatewayHTTPSAddr (s_Gateway c)))]),
                  (''policyDefaults'', policyDefaultsJSON c),
                  (''routing'', mapObj [(''loadedAt'', JStr (gx_rfc3339 x loadedAt)), (''ageSeconds'', jInt (quotient (gx_now x - loadedAt) second)),
                     (''domainCount'', jInt (int (length domains))), (''error'', errAny refreshErr)]),
                  (''acme'', acmeJSON (StatusOf (w_issuer (gx_world x)) (gx_now x) (g_certs g))),
                  (''certDir'', mapObj [(''path'', JStr (s_GatewayCertDir c)), (''writeBack'', JBool (s_GatewayCertWriteBack c)),
                     (''scanSeconds'', jInt (s_GatewayCertScanSeconds c)), (''servedFromDir'', stringsJSON (CertDirSources keys (g_certs g))),
                     (''readable'', certDirReadable stat (s_GatewayCertDir c))]),
                  (''domains'', JArr (map (domainEntry x g) domains)),
                  (''certificates'', JArr (map (infoJSON x) (ListInfo keys (g_certs g)))),
                  (''counters'', gatewayCounters (Some g)),
                  (''uptimeSeconds'', jInt (quotient (gx_now x - started) second))]), s)))"

subsection \<open>The version 2 listener\<close>

definition listenSchema :: "(string \<times> ftype) list" where
  "listenSchema = map (\<lambda>k. (k, FStr)) [''dataId'', ''group'', ''namespaceId'', ''md5'']"

definition listenInfoOf :: "members \<Rightarrow> ListenKey" where
  "listenInfoOf kvs = \<lparr>lk_Key = (fieldStr kvs ''dataId'', fieldStr kvs ''group'', fieldStr kvs ''namespaceId''), lk_Md5 = fieldStr kvs ''md5''\<rparr>"

text \<open>The entries of the body; none when it does not decode.\<close>

definition listenerInfos :: "napi \<Rightarrow> apiReq \<Rightarrow> ListenKey list" where
  "listenerInfos a r =
     (case jsonDecode (ar_Body r) of
        Some (JObj kvs) \<Rightarrow>
          (case fieldList (\<lambda>v. map_option listenInfoOf (unmarshalValue a listenSchema v)) kvs ''configInfos'' of Some infos \<Rightarrow> infos | None \<Rightarrow> [])
      | _ \<Rightarrow> [])"

definition configV2ListenerServe :: "((config_key \<rightharpoonup> string) \<Rightarrow> config_key list \<Rightarrow> int \<Rightarrow> goerr + config_key list) \<Rightarrow> napi \<Rightarrow> apiReq \<Rightarrow> apiResp" where
  "configV2ListenerServe wait a r = configV2Listener wait (listenerInfos a r)"

subsection \<open>Listings do not depend on the order of the map\<close>

lemma sliceStable_sorted: "sorted (sliceStable (<) (xs :: string list))"
proof -
  have "strict_weak_order ((<) :: string \<Rightarrow> string \<Rightarrow> bool)" using swo_key [of "\<lambda>x. x"] by simp
  from strict_weak_order.sorted_sliceStable [OF this, of xs] show ?thesis
    unfolding strict_weak_order.le_def [OF \<open>strict_weak_order (<)\<close>] by (simp add: not_less sorted_wrt_iff_nth_less sorted_iff_nth_mono_less)
qed

lemma sliceStable_order_free:
  assumes "distinct xs" "distinct ys" "set xs = set (ys :: string list)"
  shows "sliceStable (<) xs = sliceStable (<) ys"
  using assms by (intro sorted_distinct_set_unique) (simp_all add: sliceStable_sorted)

text \<open>The listings of the console are sorted and the same however Go walks its maps.\<close>

lemma listings_order_free:
  assumes "distinct keys" "distinct keys'" "set keys = set keys'"
  shows "ActiveDomains keys m = ActiveDomains keys' m" "CertDirSources keys m = CertDirSources keys' m"
    "sorted (ActiveDomains keys m)" "sorted (CertDirSources keys m)"
  unfolding ActiveDomains_def CertDirSources_def using assms
  by (auto intro!: sliceStable_order_free simp: sliceStable_sorted)

subsection \<open>The loops\<close>

text \<open>A ticker is never started with an interval that makes it panic, whatever is configured: overflow and nonsense fall back to the defaults.\<close>

lemma intervals_positive: "0 < refreshInterval c" "scanInterval c = Some n \<Longrightarrow> 0 < n" "scanInterval c = None \<longleftrightarrow> s_GatewayCertDir c = ''''"
  by (auto simp: refreshInterval_def scanInterval_def Let_def second_def not_le split: if_splits)

lemma onCerts_inv:
  assumes "\<And>st. cmInv dc (st_m st) \<Longrightarrow> cmInv dc (st_m (f st))" "cmInv dc (g_certs (gr_gateway s))"
  shows "cmInv dc (g_certs (gr_gateway (onCerts f s)))"
  using assms by (simp add: onCerts_def Let_def)

lemma refresh_certs: "refresh hb now order ns g d = (g', d') \<Longrightarrow> g_certs g' = g_certs g"
  by (auto simp: refresh_def Let_def split: prod.splits option.splits)

lemma tickStep_inv: "cmInv dc (g_certs (gr_gateway s)) \<Longrightarrow> cmInv dc (g_certs (gr_gateway (tickStep cfg t s)))"
  by (cases t) (auto simp: reconcileAll_def scanDirectory_def reconcile_inv reload_inv Let_def refresh_certs intro!: onCerts_inv split: prod.splits)

text \<open>Whatever the loops do, a handshake finds a certificate afterwards.\<close>

lemma background_keeps_answering:
  assumes "cmInv (Some dc) (g_certs (gr_gateway s))"
  shows "fst (GetCertificateTLS w' sni (g_certs (gr_gateway (backgroundRun cfg w ticks s)))) \<noteq> None"
proof -
  have f: "cmInv (Some dc) (g_certs (gr_gateway (fold (tickStep cfg) ticks s)))" if "cmInv (Some dc) (g_certs (gr_gateway s))" for s
    using that by (induction ticks arbitrary: s) (simp_all add: tickStep_inv)
  have "cmInv (Some dc) (g_certs (gr_gateway (tickStep cfg (CertTick w) s)))" using assms by (rule tickStep_inv)
  from f [OF this] have "cm_default (g_certs (gr_gateway (backgroundRun cfg w ticks s))) = Some dc"
    by (simp add: backgroundRun_def cmInv_def)
  then show ?thesis by (auto simp: GetCertificateTLS_def onDemandCert_def Let_def split: option.split prod.split)
qed

subsection \<open>Listening as the client asked\<close>

definition listenBody :: "ListenKey list \<Rightarrow> json" where
  "listenBody ks = JObj [(''configInfos'', JArr (map (\<lambda>k. JObj [(''dataId'', JStr (fst (lk_Key k))), (''group'', JStr (fst (snd (lk_Key k)))),
     (''namespaceId'', JStr (snd (snd (lk_Key k)))), (''md5'', JStr (lk_Md5 k))]) ks))]"

lemma listenInfoOf_read:
  "map_option listenInfoOf (unmarshalValue a listenSchema (JObj [(''dataId'', JStr d), (''group'', JStr g), (''namespaceId'', JStr n), (''md5'', JStr m)])) =
     Some \<lparr>lk_Key = (d, g, n), lk_Md5 = m\<rparr>"
  by (simp add: unmarshalValue_def structOK_def listenSchema_def listenInfoOf_def fieldStr_def memberVals_def toLower_def lowerChar_def byte_def)

text \<open>The listener waits for exactly the configurations the client named, with the digests it knows.\<close>

theorem listener_reads_request:
  assumes "\<forall>k\<in>set ks. utf8Valid (fst (lk_Key k)) \<and> utf8Valid (fst (snd (lk_Key k))) \<and> utf8Valid (snd (snd (lk_Key k))) \<and> utf8Valid (lk_Md5 k)"
    and "ar_Body r = jsonEncode (listenBody ks)"
  shows "listenerInfos a r = ks"
proof -
  have "jsonValid (listenBody ks)" using assms(1) by (simp add: listenBody_def list_all_iff utf8_ascii byte_def)
  then have j: "jsonDecode (ar_Body r) = Some (listenBody ks)" unfolding assms(2) by (rule jsonDecode_encode)
  have "those (map ((\<lambda>v. map_option listenInfoOf (unmarshalValue a listenSchema v)) \<circ> (\<lambda>k. JObj [(''dataId'', JStr (fst (lk_Key k))), (''group'', JStr (fst (snd (lk_Key k)))),
     (''namespaceId'', JStr (snd (snd (lk_Key k)))), (''md5'', JStr (lk_Md5 k))])) ks) = Some ks"
    by (induction ks) (simp_all add: listenInfoOf_read)
  then show ?thesis using j by (simp add: listenerInfos_def listenBody_def fieldList_def rawMember_def memberVals_def)
qed

end
