(* ===== verification/Start.thy ===== *)
theory Start
  imports Boot AdminApi
begin

text \<open>
  The start of the whole server (\<^verbatim>\<open>RunServer\<close> of \<^verbatim>\<open>internal/app/app.go\<close>), up to the moment it serves: the store, the change hub with the
  ownership of the configurations, and the gateway, each with the clean-up of what was started before when it fails.
\<close>

subsection \<open>The start\<close>

definition certCfgOf :: "serverConfig \<Rightarrow> certCfg" where
  "certCfgOf c =
     \<lparr>cc_ns = s_GatewayNamespace c, cc_CertDir = s_GatewayCertDir c, cc_WriteBack = s_GatewayCertWriteBack c, cc_SelfSignedDir = s_SelfSignedDir c,
      cc_CertRefreshSeconds = s_GatewayCertRefreshSeconds c, cc_CertScanSeconds = s_GatewayCertScanSeconds c\<rparr>"

text \<open>What the environment answers: quoting, embedded files and password hashing for the store; the ownership of the session and the
  transaction that reads the digests for the hub; certificates, clock and map order for the gateway.\<close>

record startEnv =
  en_quote :: "string \<Rightarrow> string"
  en_files :: "string \<Rightarrow> string option"
  en_hash :: "string \<Rightarrow> goerr + string"
  en_compare :: compareHash
  en_acquire :: txEnv
  en_preload :: txEnv
  en_granted :: bool
  en_transactional :: bool
  en_world :: world
  en_nowMS :: int
  en_order :: "string list \<Rightarrow> string list"
  en_dir :: fsys

datatype serveErr = StartFailed startErr | HubFailed goerr | GatewayFailed goerr

record running =
  ru_store :: nat
  ru_hub :: ConfigHub
  ru_gateway :: "gateway option"

text \<open>\<^verbatim>\<open>Store.Close\<close>, deferred: the ownership is released and the pool closed.\<close>

definition closeStore :: "nat \<Rightarrow> cnode \<Rightarrow> dbWorld \<Rightarrow> cnode \<times> dbWorld" where
  "closeStore h n w = (ReleaseConfigOwnership n, closePool h w)"

definition RunServer :: "startEnv \<Rightarrow> (string \<Rightarrow> string) \<Rightarrow> dbWorld \<Rightarrow> (serveErr + running) \<times> cnode \<times> dbWorld" where
  "RunServer e os w =
     (let cfg = FromEnv os; n0 = \<lparr>cn_lost = None\<rparr>
      in case startServer (en_quote e) (en_files e) (en_hash e) (en_compare e) os w of
           (Inl x, w1) \<Rightarrow> (Inl (StartFailed x), n0, w1)
         | (Inr h, w1) \<Rightarrow>
             (case NewConfigHub (en_acquire e) (en_preload e) (s_MaxOpenConns cfg \<noteq> 1) (en_granted e) (en_transactional e) n0 (dw_tables w1) of
                (Inl x, n, d) \<Rightarrow> (Inl (HubFailed x), closeStore h n (w1\<lparr>dw_tables := d\<rparr>))
              | (Inr hub, n, d) \<Rightarrow>
                  if \<not> s_GatewayEnabled cfg then (Inr \<lparr>ru_store = h, ru_hub = hub, ru_gateway = None\<rparr>, n, w1\<lparr>dw_tables := d\<rparr>)
                  else case NewGateway (en_world e) (certCfgOf cfg) (Some (s_HeartbeatTimeoutMs cfg)) (en_nowMS e) (en_order e) (s_GatewayNamespace cfg) d (en_dir e) of
                         Inl x \<Rightarrow> (Inl (GatewayFailed x), closeStore h n (w1\<lparr>dw_tables := d\<rparr>))
                       | Inr (g, st) \<Rightarrow> (Inr \<lparr>ru_store = h, ru_hub = hub, ru_gateway = Some g\<rparr>, n, w1\<lparr>dw_tables := st_db st\<rparr>)))"

subsection \<open>Starting the hub and the gateway only reads\<close>

lemma triple_mapS: "(\<And>x. triple P (f x) (\<lambda>_. P)) \<Longrightarrow> triple P (mapS f xs) (\<lambda>_. P)"
  by (induction xs) (auto intro!: triple_ret triple_bind [where R = "\<lambda>_. P"])

lemma triple_loadServices: "triple P (loadServices hb now ns es m) (\<lambda>_. P)"
  by (induction es arbitrary: m) (auto simp: Let_def ListInstances_def intro!: triple_ret triple_query triple_bind [where R = "\<lambda>_. P"])

lemma triple_buildTable: "triple P (buildTable hb now order ns) (\<lambda>_. P)"
  unfolding buildTable_def ListRoutes_def ListApplications_def ListVHosts_def ListComponents_def Let_def
  by (auto split: prod.split intro!: triple_ret triple_query triple_mapS triple_loadServices triple_bind [where R = "\<lambda>_. P"])

lemma NewGateway_reads:
  assumes "NewGateway w cfg hb now order ns d dir = Inr (g, st)" "alone (script d)"
  shows "tabs (st_db st) = tabs d"
proof -
  let ?n = "if ns = '''' then ''public'' else ns"
  obtain st1 t d2 where s: "NewCertManager w (cfg\<lparr>cc_ns := ?n\<rparr>) d dir = Inr st1" "buildTable hb now order ?n (st_db st1) = (Inr t, d2)" "st = st1\<lparr>st_db := d2\<rparr>"
    using assms(1) unfolding NewGateway_def Let_def Refresh_def by (auto split: sum.splits prod.splits option.splits)
  have "\<exists>r. ListCertificates ?n d = (r, st_db st1)"
    using s(1) by (auto simp: NewCertManager_def reload_def Let_def split: prod.splits sum.splits option.splits)
  then obtain r where r: "ListCertificates ?n d = (r, st_db st1)" by blast
  have "triple (\<lambda>t. t = tabs d) (ListCertificates ?n) (\<lambda>_ t. t = tabs d)" unfolding ListCertificates_def by (rule triple_query)
  from tripleD [OF this assms(2) refl r] have c: "alone (script (st_db st1))" "tabs (st_db st1) = tabs d" by simp_all
  from tripleD [OF triple_buildTable [of "\<lambda>t. t = tabs d"] c s(2)] show ?thesis using s(3) by simp
qed

text \<open>The hub starts with the digests of the stored configurations and the node owns them; otherwise it owns nothing.\<close>

lemma NewConfigHub_start:
  assumes "NewConfigHub env env' spare granted transactional \<lparr>cn_lost = None\<rparr> d = (Inr hub, n, d')" "alone (script d)"
    and "uniqueBy configKey (config_info (tabs d))"
  shows "cn_lost n = Some False \<and> tabs d' = tabs d \<and> alone (script d') \<and> spare \<and> granted \<and> transactional \<and>
    hub_md5s hub = map_of (map (\<lambda>c. (configKey c, c_Md5 c)) (config_info (tabs d)))"
proof -
  obtain entries hooks where a: "spare" "granted" "transactional" "ConfigMD5Index env' \<lparr>cn_lost = Some False\<rparr> d = (Inr entries, hooks, n, d')"
      "hub_md5s hub = fold (\<lambda>(k, m) f. f(k \<mapsto> m)) entries Map.empty"
    using assms(1) by (auto simp: NewConfigHub_def AcquireConfigOwnership_def split: if_splits prod.splits sum.splits)
  have "triple (\<lambda>t. t = tabs d) configMD5Index
      (\<lambda>r t. case r of Inr b \<Rightarrow> b = map (\<lambda>c. (configKey c, c_Md5 c)) (config_info (tabs d)) \<and> t = tabs d | Inl _ \<Rightarrow> True)"
    unfolding configMD5Index_def query_def by (rule triple_stmt) auto
  from fenced_read [OF a(4) [unfolded ConfigMD5Index_def] assms(2), of "\<lambda>b. b = map (\<lambda>c. (configKey c, c_Md5 c)) (config_info (tabs d))", OF this]
  have e: "entries = map (\<lambda>c. (configKey c, c_Md5 c)) (config_info (tabs d))" "tabs d' = tabs d" "alone (script d')" by simp_all
  have n: "n = \<lparr>cn_lost = Some False\<rparr>" using a(4) by (auto simp: ConfigMD5Index_def elim: fenced_cases)
  have f: "fold (\<lambda>(k, m) f. f(k \<mapsto> m)) xs g = g ++ map_of (rev xs)" for xs :: "(config_key \<times> string) list" and g
    by (induction xs arbitrary: g) (auto simp: map_add_def fun_eq_iff split: option.split)
  have "distinct (map fst entries)" using assms(3) e(1) by (simp add: uniqueBy_def comp_def)
  then have "map_of (rev entries) = map_of entries" by (subst map_of_inject_set) (simp_all add: rev_map [symmetric])
  then show ?thesis using a(1-3,5) e n f [of entries Map.empty] by simp
qed

lemma NewConfigHub_failed:
  "NewConfigHub env env' spare granted transactional \<lparr>cn_lost = None\<rparr> d = (Inl e, n, d') \<Longrightarrow> cn_lost n \<noteq> Some False"
  by (auto simp: NewConfigHub_def AcquireConfigOwnership_def ReleaseConfigOwnership_def lose_def split: if_splits prod.splits sum.splits)

text \<open>The seed leaves the configurations alone.\<close>

lemma triple_adminHashes: "triple P (adminHashes cmp hs) (\<lambda>_. P)"
  by (induction hs) (auto simp: intro!: triple_ret triple_fail split: hashCheck.split)

lemma triple_Seed: "triple (\<lambda>t. config_info t = c) (Seed gen cmp cfg) (\<lambda>_ t. config_info t = c)"
proof -
  let ?P = "\<lambda>_ t. config_info t = c"
  have a: "triple (\<lambda>t. config_info t = c) (seedAdmin gen cfg) ?P"
    unfolding seedAdmin_def AddRole_def
    by (auto split: sum.split intro!: triple_if triple_ret triple_fail triple_bind [where R = ?P] triple_exec)
  have v: "triple (\<lambda>t. config_info t = c) (ValidateAuthState cmp cfg) ?P"
    unfolding ValidateAuthState_def by (auto intro!: triple_if triple_ret triple_fail triple_try [where R = ?P] triple_query triple_adminHashes)
  have s: "triple (\<lambda>t. config_info t = c) seedNamespace ?P"
    unfolding seedNamespace_def by (auto intro!: triple_if triple_ret triple_try [where R = ?P] triple_query triple_exec)
  show ?thesis
    unfolding Seed_def by (rule triple_bind [where R = ?P]) (auto intro!: triple_query triple_if triple_ret a v s triple_bind [where R = ?P])
qed

lemma alone_Seed: "Seed gen cmp cfg d = (r, d') \<Longrightarrow> alone (script d) \<Longrightarrow> alone (script d') \<and> config_info (tabs d') = config_info (tabs d)"
  using tripleD [OF triple_Seed [of "config_info (tabs d)" gen cmp cfg]] by blast

subsection \<open>A server that runs\<close>

lemma startServer_seeded:
  assumes "startServer quote fs gen cmp os w = (Inr h, w1)"
  shows "Seed gen cmp (s_Auth (FromEnv os)) (dw_tables w) = (Inr (), dw_tables w1)"
proof -
  have "Open quote fs gen cmp (FromEnv os) w = (Inr h, w1)"
    using assms by (auto simp: startServer_def Let_def split: option.splits prod.splits sum.splits)
  then show ?thesis by (rule open_seeded)
qed

text \<open>A start that got as far as the store, by what the later parts did.\<close>

lemma RunServer_cases:
  assumes "RunServer e os w = (r, n, w')" "startServer (en_quote e) (en_files e) (en_hash e) (en_compare e) os w = (Inr h, w1)"
    and "alone (script (dw_tables w1))" "uniqueBy configKey (config_info (tabs (dw_tables w1)))"
  obtains (failed) x where "r = Inl x" "cn_lost n \<noteq> Some False" "dw_pools w' = remove1 h (dw_pools w1)"
  | (runs) s where "r = Inr s" "ru_store s = h" "cn_lost n = Some False" "dw_pools w' = dw_pools w1" "dw_db w' = dw_db w1" "tabs (dw_tables w') = tabs (dw_tables w1)"
      "hub_md5s (ru_hub s) = map_of (map (\<lambda>c. (configKey c, c_Md5 c)) (config_info (tabs (dw_tables w'))))" "ru_gateway s \<noteq> None \<longleftrightarrow> s_GatewayEnabled (FromEnv os)"
proof -
  let ?cfg = "FromEnv os"
  obtain y m d where hub: "NewConfigHub (en_acquire e) (en_preload e) (s_MaxOpenConns ?cfg \<noteq> 1) (en_granted e) (en_transactional e) \<lparr>cn_lost = None\<rparr> (dw_tables w1) = (y, m, d)"
    using prod_cases3 by blast
  show thesis
  proof (cases y)
    case (Inl x)
    then show thesis using failed [of "HubFailed x"] assms(1,2) hub NewConfigHub_failed [OF hub [unfolded Inl]]
      by (auto simp: RunServer_def closeStore_def ReleaseConfigOwnership_def lose_def Let_def)
  next
    case (Inr hubv)
    note h = NewConfigHub_start [OF hub [unfolded Inr] assms(3,4)]
    let ?gw = "NewGateway (en_world e) (certCfgOf ?cfg) (Some (s_HeartbeatTimeoutMs ?cfg)) (en_nowMS e) (en_order e) (s_GatewayNamespace ?cfg) d (en_dir e)"
    show thesis
    proof (cases "s_GatewayEnabled ?cfg")
      case False
      then show thesis using runs [of "\<lparr>ru_store = h, ru_hub = hubv, ru_gateway = None\<rparr>"] assms(1,2) hub Inr h by (auto simp: RunServer_def Let_def)
    next
      case True
      show thesis
      proof (cases ?gw)
        case (Inl x)
        then show thesis using failed [of "GatewayFailed x"] assms(1,2) hub Inr True h
          by (auto simp: RunServer_def closeStore_def ReleaseConfigOwnership_def lose_def Let_def)
      next
        case g: (Inr p)
        obtain gv st where p: "p = (gv, st)" by fastforce
        have "tabs (st_db st) = tabs d" using NewGateway_reads [OF g [unfolded p]] h by simp
        then show thesis using runs [of "\<lparr>ru_store = h, ru_hub = hubv, ru_gateway = Some gv\<rparr>"] assms(1,2) hub Inr True g p h by (auto simp: RunServer_def Let_def)
      qed
    qed
  qed
qed

text \<open>C14. A server that runs is sound, and one that does not leaves nothing behind.  Let the database be one that went through boots of this
  program, however they ended, with no other session writing during the start.  When the start succeeds, every migration is
  recorded, each once and in order; exactly one connection pool was opened; the node owns the configurations and its hub knows
  exactly the digests stored; the gateway is there exactly when it is enabled; and with authentication on no enabled administrator
  accepts the old public default password.  When anything fails, the pools are those of before and the node owns nothing.\<close>

theorem running_server_is_sound:
  assumes "dw_db w = (boots (en_files e) (DialectFor (s_DBType (FromEnv os)) (s_DBDSN (FromEnv os))) scripts \<lparr>sd_log = [], sd_ledger = [], sd_script = []\<rparr>)\<lparr>sd_script := sc\<rparr>"
    and "alone (script (dw_tables w))" "uniqueBy configKey (config_info (tabs (dw_tables w)))" and "RunServer e os w = (r, n, w')"
  shows "case r of
      Inl _ \<Rightarrow> dw_pools w' = dw_pools w \<and> cn_lost n \<noteq> Some False
    | Inr s \<Rightarrow> sd_ledger (dw_db w') = map rowOf migrations \<and> dw_pools w' = ru_store s # dw_pools w \<and> cn_lost n = Some False \<and>
        hub_md5s (ru_hub s) = map_of (map (\<lambda>c. (configKey c, c_Md5 c)) (config_info (tabs (dw_tables w')))) \<and>
        (ru_gateway s \<noteq> None \<longleftrightarrow> s_GatewayEnabled (FromEnv os)) \<and>
        (ac_AuthEnabled (s_Auth (FromEnv os)) \<longrightarrow> noPublicPassword (en_compare e) (tabs (dw_tables w')))"
proof -
  obtain x w1 where x: "startServer (en_quote e) (en_files e) (en_hash e) (en_compare e) os w = (x, w1)" by fastforce
  note fit = started_server_is_fit [OF assms(1,2) x]
  show ?thesis
  proof (cases x)
    case (Inl y)
    then show ?thesis using assms(4) x fit by (auto simp: RunServer_def Let_def)
  next
    case (Inr h)
    note seeded = alone_Seed [OF startServer_seeded [OF x [unfolded Inr]] assms(2)]
    have u: "uniqueBy configKey (config_info (tabs (dw_tables w1)))" using seeded assms(3) by simp
    from RunServer_cases [OF assms(4) x [unfolded Inr] conjunct1 [OF seeded] u] show ?thesis
      by cases (use fit Inr in auto)
  qed
qed

definition okTx :: txEnv where
  "okTx = \<lparr>te_cancelled = False, te_owns = True, te_begin = True, te_ownsAtCommit = True, te_commit = True, te_applied = True\<rparr>"

definition demoStart :: startEnv where
  "demoStart = \<lparr>en_quote = (\<lambda>s. s), en_files = demoFiles, en_hash = demoHash, en_compare = demoCompare, en_acquire = okTx, en_preload = okTx,
     en_granted = True, en_transactional = True, en_world = Certs.demoWorld, en_nowMS = 0, en_order = (\<lambda>xs. xs), en_dir = Map.empty\<rparr>"

lemma demo_run: "\<exists>s n w'. RunServer demoStart Boot.demoEnv Boot.demoWorld = (Inr s, n, w') \<and> ru_store s = 1"
proof -
  obtain w1 where w: "startServer (\<lambda>s. s) demoFiles demoHash demoCompare Boot.demoEnv Boot.demoWorld = (Inr 1, w1)" using demo_start by blast
  have "Seed demoHash demoCompare (s_Auth (FromEnv Boot.demoEnv)) \<lparr>tabs = empty_tables, script = []\<rparr> = (Inr (), dw_tables w1)"
    using startServer_seeded [OF w] by (simp add: Boot.demoWorld_def)
  moreover have "\<exists>t. Seed demoHash demoCompare (s_Auth (FromEnv Boot.demoEnv)) \<lparr>tabs = empty_tables, script = []\<rparr> = (Inr (), \<lparr>tabs = t, script = []\<rparr>)"
    unfolding demo_auth
    by (simp add: Seed_def seedAdmin_def AddRole_def ValidateAuthState_def activeAdmins_def seedNamespace_def go_simps empty_tables_def insertIgnore_def
        countWhere_def demoHash_def demoCompare_def)
  ultimately obtain t where t: "dw_tables w1 = \<lparr>tabs = t, script = []\<rparr>" by auto
  have c: "s_MaxOpenConns (FromEnv Boot.demoEnv) = 100" "\<not> s_GatewayEnabled (FromEnv Boot.demoEnv)"
    by (simp_all add: FromEnv_def getenvInt_def getenvBool_def envboolMustParse_value getenv_def Boot.demoEnv_def hasPrefix_def)
  show ?thesis using w t c
    by (simp add: RunServer_def demoStart_def NewConfigHub_def AcquireConfigOwnership_def ConfigMD5Index_def fenced_def WithConfigTransaction_def liftTx_def
        okTx_def configMD5Index_def query_def stmt_def Let_def)
qed

theorem running_server_is_sound_witness:
  "\<exists>s n w'. RunServer demoStart Boot.demoEnv Boot.demoWorld = (Inr s, n, w') \<and> dw_pools w' = [1] \<and> cn_lost n = Some False \<and>
     sd_ledger (dw_db w') = [(2, ''application''), (3, ''gateway''), (4, ''instance_sweep'')] \<and> noPublicPassword demoCompare (tabs (dw_tables w'))"
proof -
  obtain s n w' where r: "RunServer demoStart Boot.demoEnv Boot.demoWorld = (Inr s, n, w')" "ru_store s = 1" using demo_run by blast
  have b: "dw_db Boot.demoWorld = (boots (en_files demoStart) (DialectFor (s_DBType (FromEnv Boot.demoEnv)) (s_DBDSN (FromEnv Boot.demoEnv))) [] \<lparr>sd_log = [], sd_ledger = [], sd_script = []\<rparr>)\<lparr>sd_script := []\<rparr>"
    by (simp add: Boot.demoWorld_def)
  have "alone (script (dw_tables Boot.demoWorld))" "uniqueBy configKey (config_info (tabs (dw_tables Boot.demoWorld)))"
    by (simp_all add: Boot.demoWorld_def alone_def uniqueBy_def empty_tables_def)
  from running_server_is_sound [OF b this r(1)] show ?thesis
    using r by (auto simp: demo_auth Boot.demoWorld_def migrations_def rowOf_def demoStart_def)
qed

end
