(* ===== verification/DbCli.thy ===== *)
theory DbCli
  imports Boot
begin

text \<open>
  The subcommands \<^verbatim>\<open>goacos db\<close> (\<^verbatim>\<open>internal/dbcli\<close>): finding database servers in containers, on the host and in a subnet, probing
  credentials, choosing the best candidate, verifying and initialising.  Dialling, the database servers and the answers of docker are
  arguments; so is the order in which the probes of a subnet finish.  What a command does is its output and its exit code.
\<close>

subsection \<open>Arguments\<close>

fun parseKV :: "string list \<Rightarrow> smap \<Rightarrow> smap" where
  "parseKV [] m = m"
| "parseKV (a # rest) m =
     (if \<not> hasPrefix a ''--'' then parseKV rest m
      else case indexByte a CHR ''='' of
             Some eq \<Rightarrow> parseKV rest (aput m (drop 2 (take eq a)) (drop (eq + 1) a))
           | None \<Rightarrow>
               (case rest of
                  b # rest' \<Rightarrow> if \<not> hasPrefix b ''--'' then parseKV rest' (aput m (drop 2 a) b) else parseKV rest (aput m (drop 2 a) ''true'')
                | [] \<Rightarrow> aput m (drop 2 a) ''true''))"

definition dialectOf :: "smap \<Rightarrow> Dialect" where
  "dialectOf kv = DialectFor (qget kv ''db-type'') ''''"

definition defaultPortFor :: "Dialect \<Rightarrow> int" where
  "defaultPortFor d = (if d = DialectPostgres then 5432 else 3306)"

definition portOf :: "smap \<Rightarrow> int \<Rightarrow> int" where
  "portOf kv def = (let v = qget kv ''port'' in if v \<noteq> '''' \<and> v \<noteq> ''true'' then (case atoi v of Some p \<Rightarrow> p | None \<Rightarrow> def) else def)"

subsection \<open>Candidates\<close>

record dbCandidate =
  db_Type :: Dialect
  db_Host :: string
  db_Port :: int
  db_Source :: string
  db_User :: string
  db_Password :: string
  db_RootPassword :: string
  db_DBHint :: string
  db_ConnectOK :: bool
  db_CanCreateDB :: bool
  db_Verified :: bool

definition bareCandidate :: "Dialect \<Rightarrow> string \<Rightarrow> int \<Rightarrow> string \<Rightarrow> dbCandidate" where
  "bareCandidate d host port source =
     \<lparr>db_Type = d, db_Host = host, db_Port = port, db_Source = source, db_User = '''', db_Password = '''', db_RootPassword = '''', db_DBHint = '''',
      db_ConnectOK = False, db_CanCreateDB = False, db_Verified = False\<rparr>"

text \<open>What docker tells of a container: image, environment, the published ports and the networks, the two maps in the order of the iteration.\<close>

record container =
  ct_Image :: string
  ct_Inspect :: bool
  ct_Env :: "string list"
  ct_Ports :: "(string \<times> string) list list"
  ct_Networks :: "string list"

definition imageType :: "string \<Rightarrow> Dialect option" where
  "imageType name =
     (let img = toLower name
      in if contains img ''mysql'' \<or> contains img ''mariadb'' then Some DialectMySQL
         else if contains img ''postgres'' \<or> contains img ''pgvector'' then Some DialectPostgres else None)"

definition envSetting :: "string \<Rightarrow> dbCandidate \<Rightarrow> dbCandidate" where
  "envSetting e c =
     (if hasPrefix e ''MYSQL_ROOT_PASSWORD='' then c\<lparr>db_RootPassword := trimPrefix e ''MYSQL_ROOT_PASSWORD=''\<rparr>
      else if hasPrefix e ''MYSQL_PASSWORD='' then c\<lparr>db_Password := trimPrefix e ''MYSQL_PASSWORD=''\<rparr>
      else if hasPrefix e ''MYSQL_USER='' then c\<lparr>db_User := trimPrefix e ''MYSQL_USER=''\<rparr>
      else if hasPrefix e ''MYSQL_DATABASE='' then c\<lparr>db_DBHint := trimPrefix e ''MYSQL_DATABASE=''\<rparr>
      else if hasPrefix e ''POSTGRES_PASSWORD='' then c\<lparr>db_RootPassword := trimPrefix e ''POSTGRES_PASSWORD=''\<rparr>
      else if hasPrefix e ''POSTGRES_USER='' then c\<lparr>db_User := trimPrefix e ''POSTGRES_USER=''\<rparr>
      else if hasPrefix e ''POSTGRES_DB='' then c\<lparr>db_DBHint := trimPrefix e ''POSTGRES_DB=''\<rparr>
      else c)"

definition bindingOf :: "string \<times> string \<Rightarrow> (string \<times> int) option" where
  "bindingOf b =
     (case atoi (snd b) of
        Some p \<Rightarrow> if p > 0 then Some (if fst b \<in> {'''', ''0.0.0.0'', ''::''} then ''127.0.0.1'' else fst b, p) else None
      | None \<Rightarrow> None)"

definition containerCandidate :: "container \<Rightarrow> dbCandidate list" where
  "containerCandidate t =
     (case imageType (ct_Image t) of
        None \<Rightarrow> []
      | Some d \<Rightarrow>
          if \<not> ct_Inspect t then []
          else let c = fold envSetting (ct_Env t) (bareCandidate d '''' 0 ''docker'')
               in case List.map_filter bindingOf (concat (ct_Ports t)) of
                    (h, p) # _ \<Rightarrow> [c\<lparr>db_Host := h, db_Port := p\<rparr>]
                  | [] \<Rightarrow>
                      (case filter (\<lambda>ip. ip \<noteq> '''') (ct_Networks t) of
                         ip # _ \<Rightarrow> [c\<lparr>db_Host := ip, db_Port := defaultPortFor d\<rparr>]
                       | [] \<Rightarrow> []))"

definition dockerCandidates :: "container list \<Rightarrow> dbCandidate list" where
  "dockerCandidates ts = concat (map containerCandidate ts)"

subsection \<open>Dialling and probing\<close>

text \<open>\<open>dial\<close> tells whether an address accepts a connection within so many milliseconds.\<close>

definition tcpOK :: "(string \<Rightarrow> int \<Rightarrow> bool) \<Rightarrow> string \<Rightarrow> int \<Rightarrow> int \<Rightarrow> bool" where
  "tcpOK dial host port timeout = dial (host @ '':'' @ strconvItoa port) timeout"

text \<open>The database servers as the drivers reach them through a connection string: opening, pinging, executing a statement, and the clock (in
  nanoseconds) when the string is probed.\<close>

record sqlServer =
  sv_open :: "string \<Rightarrow> string \<Rightarrow> bool"
  sv_ping :: "string \<Rightarrow> bool"
  sv_exec :: "string \<Rightarrow> string \<Rightarrow> bool"
  sv_now :: "string \<Rightarrow> nat"

definition probeName :: "Dialect \<Rightarrow> nat \<Rightarrow> string" where
  "probeName d now =
     (let name = ''goacos_probe_'' @ decimal (now mod 100000)
      in if d = DialectPostgres then [CHR 0x22] @ name @ [CHR 0x22] else ''`'' @ name @ ''`'')"

text \<open>Whether the login works, whether it may create databases, and the statements sent.\<close>

definition probeRun :: "sqlServer \<Rightarrow> Dialect \<Rightarrow> string \<Rightarrow> int \<Rightarrow> string \<Rightarrow> string \<Rightarrow> (bool \<times> bool) \<times> string list" where
  "probeRun srv d host port user pass =
     (let dsn = DSNFor d host port user pass (ServerDB d); name = probeName d (sv_now srv dsn)
      in if \<not> sv_open srv (DriverName d) dsn \<or> \<not> sv_ping srv dsn then ((False, False), [])
         else if sv_exec srv dsn (''CREATE DATABASE '' @ name)
         then ((True, True), [''CREATE DATABASE '' @ name, ''DROP DATABASE '' @ name])
         else ((True, False), [''CREATE DATABASE '' @ name]))"

definition probe :: "sqlServer \<Rightarrow> Dialect \<Rightarrow> string \<Rightarrow> int \<Rightarrow> string \<Rightarrow> string \<Rightarrow> bool \<times> bool" where
  "probe srv d host port user pass = fst (probeRun srv d host port user pass)"

subsection \<open>Subnets\<close>

text \<open>\<^verbatim>\<open>net.ParseCIDR\<close>: the address and the length of the prefix.\<close>

definition parseCIDR :: "string \<Rightarrow> (Addr \<times> nat) option" where
  "parseCIDR s =
     (let (adr, mask, ok) = cutAt CHR ''/'' s
      in if \<not> ok then None
         else case parseAddr adr of
                None \<Rightarrow> None
              | Some a \<Rightarrow>
                  if hasZone a \<or> mask = '''' \<or> \<not> list_all isDigit mask \<or> decValue mask \<ge> 0xFFFFFF then None
                  else if decValue mask \<le> (case a of V4 _ \<Rightarrow> 32 | _ \<Rightarrow> 128) then Some (a, decValue mask) else None)"

text \<open>The masked address as four bytes; an IPv6 network has none and indexing it panics.\<close>

definition networkBase :: "Addr \<Rightarrow> nat \<Rightarrow> 32 word option" where
  "networkBase a bits =
     (case a of
        V4 w \<Rightarrow> Some (w AND push_bit (32 - bits) (- 1))
      | V6 w _ \<Rightarrow> (case unmap (V6 (w AND push_bit (128 - bits) (- 1)) []) of V4 v \<Rightarrow> Some v | _ \<Rightarrow> None)
      | NoAddr \<Rightarrow> None)"

definition scanHost :: "32 word \<Rightarrow> nat \<Rightarrow> string" where
  "scanHost base i =
     decimal (unat (drop_bit 24 base)) @ ''.'' @ decimal (unat (drop_bit 16 base) mod 256) @ ''.'' @ decimal (unat (drop_bit 8 base) mod 256) @ ''.''
       @ decimal ((unat base mod 256 + i) mod 256)"

definition scanTargets :: "32 word \<Rightarrow> dbCandidate list" where
  "scanTargets base =
     concat (map (\<lambda>i. [bareCandidate DialectMySQL (scanHost base i) 3306 ''scan'', bareCandidate DialectPostgres (scanHost base i) 5432 ''scan'']) [1..<255])"

text \<open>\<open>order\<close> is the order in which the probes finish.\<close>

definition scanCIDR :: "(string \<Rightarrow> int \<Rightarrow> bool) \<Rightarrow> (dbCandidate list \<Rightarrow> dbCandidate list) \<Rightarrow> string \<Rightarrow> goerr + dbCandidate list" where
  "scanCIDR dial order cidr =
     (case parseCIDR cidr of
        None \<Rightarrow> Inr []
      | Some (a, bits) \<Rightarrow>
          (case networkBase a bits of
             None \<Rightarrow> Inl (Panic ''index out of range'')
           | Some base \<Rightarrow> Inr (filter (\<lambda>c. tcpOK dial (db_Host c) (db_Port c) 500) (order (scanTargets base)))))"

subsection \<open>Credentials and choice\<close>

definition addCred :: "string \<times> string \<Rightarrow> (string \<times> string) list \<Rightarrow> (string \<times> string) list" where
  "addCred x xs = (if x \<in> set xs then xs else xs @ [x])"

definition credList :: "dbCandidate \<Rightarrow> (string \<times> string) list" where
  "credList c =
     (let super = (if db_Type c = DialectPostgres then (if db_User c \<noteq> '''' then db_User c else ''postgres'') else ''root'')
      in fold addCred
           ((if db_RootPassword c \<noteq> '''' then [(super, db_RootPassword c)] else []) @
            (if db_User c \<noteq> '''' \<and> db_Password c \<noteq> '''' then [(db_User c, db_Password c)] else []) @
            (if db_Type c = DialectPostgres
             then [(''postgres'', ''postgres''), (''postgres'', ''password''), (''postgres'', ''123456''), (''postgres'', '''')]
             else [(''root'', ''root''), (''root'', ''123456''), (''root'', ''password''), (''mysql'', ''mysql''), (''root'', '''')])) [])"

definition rank :: "dbCandidate \<Rightarrow> nat" where
  "rank c = (if db_Source c = ''docker'' then 2 else 0) + (if db_RootPassword c \<noteq> '''' then 1 else 0)"

definition verifyCandidate :: "sqlServer \<Rightarrow> dbCandidate \<Rightarrow> dbCandidate" where
  "verifyCandidate srv c =
     (case find (\<lambda>(u, p). fst (probe srv (db_Type c) (db_Host c) (db_Port c) u p)) (credList c) of
        Some (u, p) \<Rightarrow>
          c\<lparr>db_User := u, db_Password := p, db_ConnectOK := True, db_CanCreateDB := snd (probe srv (db_Type c) (db_Host c) (db_Port c) u p), db_Verified := True\<rparr>
      | None \<Rightarrow> c\<lparr>db_ConnectOK := True\<rparr>)"

fun bestOf :: "dbCandidate list \<Rightarrow> dbCandidate option \<Rightarrow> dbCandidate option" where
  "bestOf [] best = best"
| "bestOf (c # cs) best =
     (if \<not> db_Verified c \<or> \<not> db_CanCreateDB c then bestOf cs best
      else if best = None \<or> rank c > rank (the best) then bestOf cs (Some c) else bestOf cs best)"

datatype cliOut = Candidates_json "dbCandidate list" | Best_json dbCandidate | Text string | Usage | Exit int string

definition discoverCmd :: "container list \<Rightarrow> (string \<Rightarrow> int \<Rightarrow> bool) \<Rightarrow> (dbCandidate list \<Rightarrow> dbCandidate list) \<Rightarrow> sqlServer \<Rightarrow> string list \<Rightarrow> goerr + cliOut" where
  "discoverCmd ts dial order srv args =
     (let kv = parseKV args [];
          wantStr = toLower (trimSpace (qget kv ''db-type''));
          want = (if wantStr \<noteq> '''' \<and> wantStr \<noteq> ''auto'' then Some (DialectFor wantStr '''') else None);
          flagD = (case want of Some d \<Rightarrow> d | None \<Rightarrow> DialectMySQL);
          host = qget kv ''host'';
          base = dockerCandidates ts @ [bareCandidate DialectMySQL ''127.0.0.1'' 3306 ''localhost'', bareCandidate DialectPostgres ''127.0.0.1'' 5432 ''localhost''] @
            (if host \<noteq> '''' then [bareCandidate flagD host (portOf kv (defaultPortFor flagD)) ''flag''] else []);
          scanned = (case map_of kv ''cidr'' of Some cidr \<Rightarrow> if cidr \<noteq> ''false'' then scanCIDR dial order cidr else Inr [] | None \<Rightarrow> Inr [])
      in case scanned of
           Inl e \<Rightarrow> Inl e
         | Inr hits \<Rightarrow>
             (let alive = filter (\<lambda>c. (want = None \<or> want = Some (db_Type c)) \<and> tcpOK dial (db_Host c) (db_Port c) 600) (base @ hits);
                  verified = map (verifyCandidate srv) alive
              in Inr (if qget kv ''best'' = ''true''
                      then (case bestOf verified None of None \<Rightarrow> Exit 3 ''NOMATCH'' | Some c \<Rightarrow> Best_json c)
                      else Candidates_json verified)))"

definition verifyCmd :: "sqlServer \<Rightarrow> string list \<Rightarrow> cliOut" where
  "verifyCmd srv args =
     (let kv = parseKV args []; host = qget kv ''host''; d = dialectOf kv
      in if host = '''' then Exit 2 ''--host required''
         else case probe srv d host (portOf kv (defaultPortFor d)) (qget kv ''user'') (qget kv ''password'') of
                (ok, canCreate) \<Rightarrow>
                  if \<not> ok then Exit 1 ''VERIFY FAIL: cannot connect''
                  else if qget kv ''db'' \<noteq> '''' \<and> \<not> canCreate then Exit 1 ''VERIFY FAIL: no CREATE DATABASE privilege''
                  else Text (''VERIFY OK (canCreateDb='' @ (if canCreate then ''true'' else ''false'') @ '')''))"

text \<open>The configuration of the subcommands: all that is not listed is zero.\<close>

definition testConfig :: "Dialect \<Rightarrow> string \<Rightarrow> int \<Rightarrow> string \<Rightarrow> string \<Rightarrow> string \<Rightarrow> serverConfig" where
  "testConfig d host port user pass db =
     zeroServerConfig\<lparr>s_DBType := DriverName d, s_MySQLHost := host, s_MySQLPort := port, s_MySQLUser := user, s_MySQLPassword := pass, s_MySQLDB := db,
       s_Auth := (s_Auth zeroServerConfig)\<lparr>ac_AdminUsername := ''nacos'', ac_AdminPassword := ''nacos''\<rparr>, s_MaxOpenConns := 8, s_MaxIdleConns := 4\<rparr>"

definition initCmd :: "(string \<Rightarrow> string) \<Rightarrow> (string \<Rightarrow> string option) \<Rightarrow> (string \<Rightarrow> goerr + string) \<Rightarrow> compareHash \<Rightarrow> string list \<Rightarrow> dbWorld \<Rightarrow> (int \<times> openErr option) \<times> dbWorld" where
  "initCmd quote fs gen cmp args w =
     (let kv = parseKV args []; host = qget kv ''host''; name = qget kv ''db''; d = dialectOf kv
      in if host = '''' \<or> name = '''' then ((2, None), w)
         else case Open quote fs gen cmp (testConfig d host (portOf kv (defaultPortFor d)) (qget kv ''user'') (qget kv ''password'') name) w of
                (Inl e, w') \<Rightarrow> ((1, Some e), w')
              | (Inr h, w') \<Rightarrow> ((0, None), closePool h w'))"

text \<open>Dispatch: without a subcommand the usage is printed and then the first argument is read all the same.\<close>

datatype dbCommand = DiscoverDB "string list" | VerifyDB "string list" | InitDB "string list" | UsageDB

definition Run :: "string list \<Rightarrow> goerr + dbCommand" where
  "Run args =
     (case args of
        [] \<Rightarrow> Inl (Panic ''index out of range'')
      | a # rest \<Rightarrow> Inr (if a = ''discover'' then DiscoverDB rest else if a = ''verify'' then VerifyDB rest else if a = ''init'' then InitDB rest else UsageDB))"

subsection \<open>Credentials\<close>

lemma addCred_distinct: "distinct xs \<Longrightarrow> distinct (addCred x xs)"
  by (simp add: addCred_def)

lemma fold_addCred_distinct: "distinct xs \<Longrightarrow> distinct (fold addCred ys xs)"
  by (induction ys arbitrary: xs) (simp_all add: addCred_distinct)

lemma fold_addCred_prefix: "\<exists>zs. fold addCred ys xs = xs @ zs"
proof (induction ys arbitrary: xs)
  case (Cons y ys)
  obtain zs where "fold addCred ys (addCred y xs) = addCred y xs @ zs" using Cons by blast
  moreover obtain as where "addCred y xs = xs @ as" by (cases "y \<in> set xs") (auto simp: addCred_def)
  ultimately show ?case by simp
qed simp

text \<open>No login is tried twice, and the superuser's password found in the container comes first.\<close>

lemma credList_distinct: "distinct (credList c)"
  unfolding credList_def Let_def by (rule fold_addCred_distinct) simp

lemma credList_first:
  assumes "db_RootPassword c \<noteq> ''''"
  shows "hd (credList c) = (if db_Type c = DialectPostgres then (if db_User c \<noteq> '''' then db_User c else ''postgres'') else ''root'', db_RootPassword c)"
proof -
  have first: "hd (fold addCred ([x] @ ys) []) = x" for x ys
  proof -
    obtain zs where "fold addCred ys [x] = [x] @ zs" using fold_addCred_prefix by blast
    then show ?thesis by (simp add: addCred_def)
  qed
  show ?thesis unfolding credList_def Let_def if_P [OF assms] by (rule first)
qed

subsection \<open>The best candidate\<close>

definition eligible :: "dbCandidate \<Rightarrow> bool" where
  "eligible c \<longleftrightarrow> db_Verified c \<and> db_CanCreateDB c"

lemma bestOf_filter: "bestOf cs best = bestOf (filter eligible cs) best"
  by (induction cs best rule: bestOf.induct) (simp_all add: eligible_def)


lemma bestOf_eligible:
  "list_all eligible cs \<Longrightarrow> bestOf cs (Some b) = find (\<lambda>c. rank c = Max (rank ` set (b # cs))) (b # cs)"
proof (induction cs arbitrary: b)
  case (Cons c cs)
  have e: "eligible c" "list_all eligible cs" using Cons.prems by simp_all
  have fin: "finite (rank ` set cs)" by simp
  show ?case
  proof (cases "rank c > rank b")
    case True
    have m: "Max (rank ` set (b # c # cs)) = Max (rank ` set (c # cs))"
      using True by (cases "cs = []") (simp_all add: max_def)
    have "rank c \<le> Max (rank ` set (c # cs))" by (rule Max_ge) simp_all
    then have "rank b \<noteq> Max (rank ` set (c # cs))" using True by linarith
    then show ?thesis using Cons.IH [OF e(2), of c] True e(1) m by (simp add: eligible_def del: Max_insert set_simps(2))
  next
    case False
    have m: "Max (rank ` set (b # c # cs)) = Max (rank ` set (b # cs))"
      using False by (cases "cs = []") (simp_all add: max_def)
    have "rank b \<le> Max (rank ` set (b # cs))" by (rule Max_ge) simp_all
    then have "rank b \<noteq> Max (rank ` set (b # cs)) \<Longrightarrow> rank c \<noteq> Max (rank ` set (b # cs))" using False by linarith
    then show ?thesis using Cons.IH [OF e(2), of b] False e(1) m by (simp add: eligible_def del: Max_insert set_simps(2)) 
  qed
qed (simp add: eligible_def)

text \<open>The candidate the deploy scripts get is the first of those with the highest rank among the ones whose login works and may create databases.\<close>

theorem best_choice:
  "bestOf cs None = find (\<lambda>c. rank c = Max (rank ` set (filter eligible cs))) (filter eligible cs)"
proof -
  have "bestOf (filter eligible cs) None = find (\<lambda>c. rank c = Max (rank ` set (filter eligible cs))) (filter eligible cs)"
  proof (cases "filter eligible cs")
    case (Cons b bs)
    have "list_all eligible (filter eligible cs)" by (simp add: list_all_iff)
    then have "eligible b" "list_all eligible bs" unfolding Cons by simp_all
    then show ?thesis using bestOf_eligible [of bs b] Cons by (simp add: eligible_def del: Max_insert set_simps(2))
  qed simp
  then show ?thesis using bestOf_filter by metis
qed

lemma best_of_in: "bestOf cs None = Some c \<Longrightarrow> c \<in> set (filter eligible cs)"
proof -
  have "bestOf cs b = Some c \<Longrightarrow> Some c = b \<or> c \<in> set (filter eligible cs)" for cs b c
    by (induction cs b rule: bestOf.induct) (auto simp: eligible_def split: if_splits)
  then show "bestOf cs None = Some c \<Longrightarrow> c \<in> set (filter eligible cs)" by blast
qed

subsection \<open>What discovery promises\<close>

lemma verifyCandidate_works:
  assumes "eligible (verifyCandidate srv c)" "\<not> eligible c"
  shows "probe srv (db_Type c) (db_Host c) (db_Port c) (db_User (verifyCandidate srv c)) (db_Password (verifyCandidate srv c)) = (True, True)"
proof (cases "find (\<lambda>(u, p). fst (probe srv (db_Type c) (db_Host c) (db_Port c) u p)) (credList c)")
  case None
  then show ?thesis using assms by (simp add: verifyCandidate_def eligible_def)
next
  case (Some x)
  obtain u p where x: "x = (u, p)" by fastforce
  have "fst (probe srv (db_Type c) (db_Host c) (db_Port c) u p)" using Some x by (auto simp: find_Some_iff)
  then show ?thesis using assms Some x by (cases "probe srv (db_Type c) (db_Host c) (db_Port c) u p") (simp add: verifyCandidate_def eligible_def)
qed

lemma verifyCandidate_place [simp]:
  "db_Type (verifyCandidate srv c) = db_Type c" "db_Host (verifyCandidate srv c) = db_Host c" "db_Port (verifyCandidate srv c) = db_Port c"
  by (auto simp: verifyCandidate_def split: option.split prod.split)

lemma bare_not_eligible [simp]: "\<not> eligible (bareCandidate d h p s)"
  by (simp add: eligible_def bareCandidate_def)

lemma envSetting_verified [simp]: "db_Verified (envSetting e c) = db_Verified c"
  by (simp add: envSetting_def)

lemma fold_envSetting_verified: "db_Verified (fold envSetting es c) = db_Verified c"
  by (induction es arbitrary: c) simp_all

lemma container_not_verified: "c \<in> set (containerCandidate t) \<Longrightarrow> \<not> db_Verified c"
proof -
  assume c: "c \<in> set (containerCandidate t)"
  have v: "\<not> db_Verified (fold envSetting (ct_Env t) (bareCandidate d h p s))" for d h p s by (simp add: fold_envSetting_verified bareCandidate_def)
  show ?thesis
    using c v
    by (cases "List.map_filter bindingOf (concat (ct_Ports t))"; cases "filter (\<lambda>ip. ip \<noteq> '''') (ct_Networks t)"; cases "imageType (ct_Image t)")
      (auto simp: containerCandidate_def Let_def split: if_splits)
qed

lemma docker_not_eligible: "c \<in> set (dockerCandidates ts) \<Longrightarrow> \<not> eligible c"
  using container_not_verified by (auto simp: dockerCandidates_def eligible_def)

lemma scan_not_eligible: "c \<in> set (scanTargets base) \<Longrightarrow> \<not> eligible c"
  by (auto simp: scanTargets_def)

lemma best_login_works:
  assumes "discoverCmd ts dial order srv args = Inr (Best_json c)" and "\<And>xs. set (order xs) = set xs"
  shows "tcpOK dial (db_Host c) (db_Port c) 600 \<and> probe srv (db_Type c) (db_Host c) (db_Port c) (db_User c) (db_Password c) = (True, True) \<and>
    (toLower (trimSpace (qget (parseKV args []) ''db-type'')) \<in> {''postgres'', ''mysql''} \<longrightarrow>
       db_Type c = DialectFor (toLower (trimSpace (qget (parseKV args []) ''db-type''))) '''')"
proof -
  define wantStr where "wantStr = toLower (trimSpace (qget (parseKV args []) ''db-type''))"
  define want where "want = (if wantStr \<noteq> '''' \<and> wantStr \<noteq> ''auto'' then Some (DialectFor wantStr '''') else None)"
  obtain base hits where b: "\<And>x. x \<in> set base \<Longrightarrow> \<not> eligible x" "\<And>x. x \<in> set hits \<Longrightarrow> \<not> eligible x"
    "bestOf (map (verifyCandidate srv) (filter (\<lambda>c. (want = None \<or> want = Some (db_Type c)) \<and> tcpOK dial (db_Host c) (db_Port c) 600) (base @ hits))) None = Some c"
  proof -
    define kv where "kv = parseKV args []"
    define flagD where "flagD = (case want of Some d \<Rightarrow> d | None \<Rightarrow> DialectMySQL)"
    define base where "base = dockerCandidates ts @ [bareCandidate DialectMySQL ''127.0.0.1'' 3306 ''localhost'', bareCandidate DialectPostgres ''127.0.0.1'' 5432 ''localhost''] @
            (if qget kv ''host'' \<noteq> '''' then [bareCandidate flagD (qget kv ''host'') (portOf kv (defaultPortFor flagD)) ''flag''] else [])"
    define scanned where "scanned = (case map_of kv ''cidr'' of Some cidr \<Rightarrow> if cidr \<noteq> ''false'' then scanCIDR dial order cidr else Inr [] | None \<Rightarrow> Inr [])"
    have d: "discoverCmd ts dial order srv args = (case scanned of Inl e \<Rightarrow> Inl e | Inr hits \<Rightarrow>
        Inr (if qget kv ''best'' = ''true''
             then (case bestOf (map (verifyCandidate srv) (filter (\<lambda>c. (want = None \<or> want = Some (db_Type c)) \<and> tcpOK dial (db_Host c) (db_Port c) 600) (base @ hits))) None of
                     None \<Rightarrow> Exit 3 ''NOMATCH'' | Some c \<Rightarrow> Best_json c)
             else Candidates_json (map (verifyCandidate srv) (filter (\<lambda>c. (want = None \<or> want = Some (db_Type c)) \<and> tcpOK dial (db_Host c) (db_Port c) 600) (base @ hits)))))"
      by (simp only: discoverCmd_def Let_def kv_def [symmetric] wantStr_def [unfolded kv_def [symmetric], symmetric] want_def [symmetric] flagD_def [symmetric]
          base_def [symmetric] scanned_def [symmetric])
    obtain hits where h: "scanned = Inr hits" using assms(1) d by (cases scanned) simp_all
    have e: "\<not> eligible x" if "x \<in> set hits" for x
      using h that assms(2) scan_not_eligible by (auto simp: scanned_def scanCIDR_def split: option.splits if_splits)
    have f: "\<not> eligible x" if "x \<in> set base" for x
      using that docker_not_eligible by (auto simp: base_def split: if_splits)
    show ?thesis using that [OF f e] assms(1) d h by (auto split: option.splits if_splits)
  qed
  define vs where "vs = map (verifyCandidate srv) (filter (\<lambda>c. (want = None \<or> want = Some (db_Type c)) \<and> tcpOK dial (db_Host c) (db_Port c) 600) (base @ hits))"
  have "c \<in> set (filter eligible vs)" using b(3) best_of_in by (metis vs_def)
  then obtain x where x: "x \<in> set (base @ hits)" "want = None \<or> want = Some (db_Type x)" "tcpOK dial (db_Host x) (db_Port x) 600" "c = verifyCandidate srv x" "eligible c"
    by (auto simp: vs_def)
  have "\<not> eligible x" using x(1) b(1,2) by auto
  then have p: "probe srv (db_Type x) (db_Host x) (db_Port x) (db_User c) (db_Password c) = (True, True)" using verifyCandidate_works x(4,5) by metis
  have "wantStr \<in> {''postgres'', ''mysql''} \<Longrightarrow> db_Type x = DialectFor wantStr ''''" using x(2) by (auto simp: want_def)
  then show ?thesis using p x(3,4) by (simp add: wantStr_def)
qed

lemma probe_works:
  assumes "probe srv d host port user pass = (True, True)"
  shows "let dsn = DSNFor d host port user pass (ServerDB d)
    in sv_open srv (DriverName d) dsn \<and> sv_ping srv dsn \<and> sv_exec srv dsn (''CREATE DATABASE '' @ probeName d (sv_now srv dsn))"
  using assms by (simp add: probe_def probeRun_def Let_def split: if_splits)

text \<open>What a probe creates it drops, and nothing else.\<close>

lemma probe_drops:
  "\<exists>name. snd (probeRun srv d host port user pass) =
     (case probe srv d host port user pass of (False, _) \<Rightarrow> [] | (True, False) \<Rightarrow> [''CREATE DATABASE '' @ name] | (True, True) \<Rightarrow> [''CREATE DATABASE '' @ name, ''DROP DATABASE '' @ name])"
  by (auto simp: probe_def probeRun_def Let_def)

text \<open>C36. The database the deploy scripts are told to use can be used: when discovery ends with a best candidate, its address accepted a
  connection, the login it names opens and pings a connection there and was allowed to create a database; and the candidate is of the
  engine asked for, if one was.\<close>

theorem discovered_best_works:
  assumes "discoverCmd ts dial order srv args = Inr (Best_json c)" and "\<And>xs. set (order xs) = set xs"
  shows "dial (db_Host c @ '':'' @ strconvItoa (db_Port c)) 600 \<and>
    (let dsn = DSNFor (db_Type c) (db_Host c) (db_Port c) (db_User c) (db_Password c) (ServerDB (db_Type c))
     in sv_open srv (DriverName (db_Type c)) dsn \<and> sv_ping srv dsn \<and> sv_exec srv dsn (''CREATE DATABASE '' @ probeName (db_Type c) (sv_now srv dsn))) \<and>
    (toLower (trimSpace (qget (parseKV args []) ''db-type'')) \<in> {''postgres'', ''mysql''} \<longrightarrow>
       db_Type c = DialectFor (toLower (trimSpace (qget (parseKV args []) ''db-type''))) '''')"
  using best_login_works [OF assms] probe_works unfolding tcpOK_def by blast

definition demoServer :: sqlServer where
  "demoServer = \<lparr>sv_open = (\<lambda>_ _. True), sv_ping = (\<lambda>dsn. hasPrefix dsn ''root:s3@''), sv_exec = (\<lambda>_ _. True), sv_now = (\<lambda>_. 42)\<rparr>"

definition demoContainer :: container where
  "demoContainer = \<lparr>ct_Image = ''mysql:8'', ct_Inspect = True, ct_Env = [''MYSQL_ROOT_PASSWORD=s3''], ct_Ports = [], ct_Networks = [''172.17.0.2'']\<rparr>"

lemma demo_container:
  "dockerCandidates [demoContainer] = [(bareCandidate DialectMySQL ''172.17.0.2'' 3306 ''docker'')\<lparr>db_RootPassword := ''s3''\<rparr>]"
  by (simp add: dockerCandidates_def containerCandidate_def demoContainer_def imageType_def toLower_def lowerChar_def byte_def hasPrefix_def envSetting_def
      trimPrefix_def bareCandidate_def defaultPortFor_def List.map_filter_def Let_def)

lemma demo_discover:
  "\<exists>c. discoverCmd [demoContainer] (\<lambda>adr _. adr = ''172.17.0.2:3306'') (\<lambda>xs. xs) demoServer [''--best''] = Inr (Best_json c) \<and> db_Password c = ''s3''"
proof -
  have t: "toLower (trimSpace '''') = ''''" by (simp add: toLower_def trimSpace_def trimLeft_def trimRight_def)
  have c: "digitChar 0 = CHR ''0''" "digitChar 2 = CHR ''2''" "digitChar 3 = CHR ''3''" "digitChar 4 = CHR ''4''" "digitChar 5 = CHR ''5''" "digitChar 6 = CHR ''6''"
    by code_simp+
  have n: "strconvItoa 3306 = ''3306''" "strconvItoa 5432 = ''5432''" by (simp_all add: strconvItoa_def decimal.simps c)
  have p: "probe demoServer DialectMySQL host port ''root'' ''s3'' = (True, True)" for host port
    by (simp add: probe_def probeRun_def DSNFor_def demoServer_def hasPrefix_def Let_def)
  show ?thesis
    by (simp add: discoverCmd_def demo_container hasPrefix_def aput_def qget_def t bareCandidate_def verifyCandidate_def credList_def addCred_def tcpOK_def n p
        Let_def)
qed

theorem discovered_best_works_witness:
  "\<exists>c. discoverCmd [demoContainer] (\<lambda>adr _. adr = ''172.17.0.2:3306'') (\<lambda>xs. xs) demoServer [''--best''] = Inr (Best_json c) \<and>
     sv_ping demoServer (DSNFor (db_Type c) (db_Host c) (db_Port c) (db_User c) (db_Password c) (ServerDB (db_Type c))) \<and>
     db_Host c @ '':'' @ strconvItoa (db_Port c) = ''172.17.0.2:3306''"
proof -
  obtain c where c: "discoverCmd [demoContainer] (\<lambda>adr _. adr = ''172.17.0.2:3306'') (\<lambda>xs. xs) demoServer [''--best''] = Inr (Best_json c)" using demo_discover by blast
  from discovered_best_works [OF c] c show ?thesis unfolding Let_def by blast
qed

text \<open>Initialising closes what it opened, whether it succeeded or not.\<close>

lemma init_closes: "dw_pools (snd (initCmd quote fs gen cmp args w)) = dw_pools w"
proof -
  define kv where "kv = parseKV args []"
  let ?cfg = "testConfig (dialectOf kv) (qget kv ''host'') (portOf kv (defaultPortFor (dialectOf kv))) (qget kv ''user'') (qget kv ''password'') (qget kv ''db'')"
  obtain r w' where "Open quote fs gen cmp ?cfg w = (r, w')" by fastforce
  then show ?thesis using open_pools [of quote fs gen cmp ?cfg w r w'] by (cases r) (simp_all add: initCmd_def kv_def [symmetric] Let_def)
qed

subsection \<open>Where the commands go wrong\<close>

text \<open>Without a subcommand the dispatch reads an argument that is not there.\<close>

lemma no_subcommand_panics: "Run [] = Inl (Panic ''index out of range'')"
  by (simp add: Run_def)

text \<open>The scan of a subnet ignores its size: it visits 254 addresses from the network's base, however small the network is, and for a network
  larger than a /24 only the first of them.\<close>

lemma scan_ignores_size:
  assumes "i \<in> {1..<255}"
  shows "scanHost base i \<in> db_Host ` set (scanTargets base)"
  using assms by (auto simp: scanTargets_def image_iff bareCandidate_def intro!: bexI [of _ i])

lemma scan_count: "length (scanTargets base) = 508"
  by (simp add: scanTargets_def length_concat comp_def sum_list_triv)

text \<open>An IPv6 network has no four bytes to start from.\<close>

lemma scan_ipv6_panics:
  assumes "parseCIDR cidr = Some (V6 a z, bits)" "unmap (V6 (a AND push_bit (128 - bits) (- 1)) []) = V6 b y"
  shows "scanCIDR dial order cidr = Inl (Panic ''index out of range'')"
  using assms by (simp add: scanCIDR_def networkBase_def)

end
