(* ===== verification/Health.thy ===== *)
theory Health
  imports SdkServer Registrar DbCli ConfigOwner
begin

text \<open>
  Health, state and metrics endpoints (\<^verbatim>\<open>console_api.go\<close>, \<^verbatim>\<open>naming_v1.go\<close>, \<^verbatim>\<open>buildinfo\<close>), the commands of the binary (\<^verbatim>\<open>main.go\<close>), and the readers of the health endpoint on the
  other side of the wire: \<^verbatim>\<open>Ping\<close> of the client, the probe of discovery and the \<^verbatim>\<open>healthcheck\<close> command.  The numbers of the Go runtime and the uptime are arguments.
\<close>

subsection \<open>Endpoints\<close>

text \<open>\<^verbatim>\<open>DB.PingContext\<close>\<close>

definition pingDB :: "unit dbop" where
  "pingDB = query (\<lambda>_. ())"

definition healthReadiness :: dbHandler where
  "healthReadiness = andThen pingDB (\<lambda>_. reply (writeText 503 ''DOWN'')) (\<lambda>_. reply (writeText 200 ''OK''))"

definition healthLiveness :: dbHandler where
  "healthLiveness = reply (writeText 200 ''OK'')"

definition upDoc :: json where
  "upDoc =
     (let up = JObj [(''status'', JStr ''UP'')]
      in JObj [(''components'', JObj [(''db'', up), (''diskSpace'', up), (''ping'', up)]), (''status'', JStr ''UP'')])"

definition downBody :: string where
  "downBody = [CHR 0x7B, CHR 0x22] @ ''status'' @ [CHR 0x22, CHR 0x3A, CHR 0x22] @ ''DOWN'' @ [CHR 0x22, CHR 0x7D]"

definition actuatorHealth :: dbHandler where
  "actuatorHealth =
     andThen pingDB
       (\<lambda>_. reply \<lparr>rs_code = 503, rs_type = ''application/json; charset=utf-8'', rs_body = downBody\<rparr>)
       (\<lambda>_. reply (writeJSON 200 upDoc))"

record buildInfo =
  bi_Version :: string
  bi_GitCommit :: string
  bi_BuildDate :: string
  bi_BuildNumber :: string

definition UniqueVersion :: "buildInfo \<Rightarrow> string" where
  "UniqueVersion b = bi_Version b @ ''+b'' @ bi_BuildNumber b"

definition serverState :: "buildInfo \<Rightarrow> json \<Rightarrow> serverConfig \<Rightarrow> Dialect \<Rightarrow> apiResp" where
  "serverState b rt cfg dia =
     writeJSON 200 (JObj
       [(''authEnabled'', JBool (ac_AuthEnabled (s_Auth cfg))), (''buildDate'', JStr (bi_BuildDate b)), (''buildNumber'', JStr (bi_BuildNumber b)),
        (''compatibility'', JStr ''2.5.x / 3.2.x (HTTP Open API subset)''), (''consoleUiEnabled'', JBool True), (''dbType'', JStr (DriverName dia)),
        (''functionMode'', JStr ''ALL''), (''gitCommit'', JStr (bi_GitCommit b)), (''runtime'', rt), (''standaloneMode'', JBool True),
        (''uniqueVersion'', JStr (UniqueVersion b)), (''version'', JStr (bi_Version b))])"

definition metricsDoc :: "int \<Rightarrow> int \<Rightarrow> int \<Rightarrow> string \<Rightarrow> json" where
  "metricsDoc services instances configs upTime =
     JObj [(''configCount'', jInt configs), (''healthyInstanceCount'', jInt instances), (''instanceCount'', jInt instances), (''serviceCount'', jInt services),
       (''status'', JObj [(''responsibilityForServiceCount'', jInt services)]), (''subscribeCount'', jInt 0), (''upTime'', JStr upTime)]"

definition namingV1Metrics :: "txEnv \<Rightarrow> string \<Rightarrow> cnode \<Rightarrow> db \<Rightarrow> apiResp \<times> cnode \<times> db" where
  "namingV1Metrics env upTime n d =
     (case CountNaming d of
        (Inl e, d') \<Rightarrow> (v1Fail 500 500 (errText e), n, d')
      | (Inr (services, instances), d') \<Rightarrow>
          (case CountConfigs env n d' of
             (Inl _, _, n', d'') \<Rightarrow> (writeText 503 ''configuration instance unavailable'', n', d'')
           | (Inr configs, _, n', d'') \<Rightarrow> (writeJSON 200 (metricsDoc services instances configs upTime), n', d'')))"

subsection \<open>The command line\<close>

text \<open>The stamps of the linker override the defaults.\<close>

definition stamped :: "string \<Rightarrow> string \<Rightarrow> buildInfo \<Rightarrow> buildInfo" where
  "stamped version buildNumber b =
     b\<lparr>bi_Version := (if version \<noteq> '''' then version else bi_Version b), bi_BuildNumber := (if buildNumber \<noteq> '''' then buildNumber else bi_BuildNumber b)\<rparr>"

definition versionText :: "buildInfo \<Rightarrow> string" where
  "versionText b =
     ''goacos '' @ bi_Version b @ '' (unique '' @ UniqueVersion b @ '', commit '' @ bi_GitCommit b @ '', built '' @ bi_BuildDate b @ '')'' @ [CHR 0x0A] @
     ''nacos api compatibility: 2.5.x / 3.2.x (HTTP Open API subset)'' @ [CHR 0x0A]"

datatype mainCommand = Serve | PrintVersion string | Db "goerr + dbCommand" | HealthCheck string | MainUsage

definition mainDispatch :: "buildInfo \<Rightarrow> string list \<Rightarrow> mainCommand" where
  "mainDispatch b args =
     (case (if args = [] then [''serve''] else args) of
        [] \<Rightarrow> MainUsage
      | c # rest \<Rightarrow>
          if c = ''serve'' then Serve
          else if c = ''version'' then PrintVersion (versionText b)
          else if c = ''db'' then Db (Run rest)
          else if c = ''healthcheck'' then HealthCheck (case rest of a # _ \<Rightarrow> a | [] \<Rightarrow> ''127.0.0.1:8848'')
          else MainUsage)"

text \<open>The probe of the container: \<open>get\<close> is the HTTP client, answering with an error or with code, status text and body; the result is the
  exit code and what is printed.\<close>

definition healthcheck :: "(string \<Rightarrow> 'w \<Rightarrow> (string + int \<times> string \<times> string) \<times> 'w) \<Rightarrow> string \<Rightarrow> 'w \<Rightarrow> (int \<times> string) \<times> 'w" where
  "healthcheck get adr w =
     (case get (''http://'' @ adr @ ''/nacos/actuator/health'') w of
        (Inl e, w') \<Rightarrow> ((1, ''unhealthy: '' @ e), w')
      | (Inr (st, status, body), w') \<Rightarrow> if st \<noteq> 200 then ((1, ''unhealthy: '' @ status @ '' '' @ body), w') else ((0, ''healthy''), w'))"

subsection \<open>The endpoint as the client sees it\<close>

definition healthServe :: "napi \<Rightarrow> int \<Rightarrow> apiReq \<Rightarrow> dbHandler" where
  "healthServe a t r = (if ar_Method r = ''GET'' \<and> ar_Path r = ''/nacos/actuator/health'' then actuatorHealth else nacosServe a t r)"

definition healthEnv :: "napi \<Rightarrow> string \<Rightarrow> (int \<times> db) sdkEnv" where
  "healthEnv a base = (serverEnv a base)
     \<lparr>se_do := (\<lambda>q (t, d). case healthServe a t (serverReq base q) d of (resp, d') \<Rightarrow> (HttpResponse (rs_code resp) (rs_body resp), (t, d')))\<rparr>"

definition healthGet :: "napi \<Rightarrow> string \<Rightarrow> string \<Rightarrow> (int \<times> db) \<Rightarrow> (string + int \<times> string \<times> string) \<times> (int \<times> db)" where
  "healthGet a base url w =
     (case se_do (healthEnv a base) \<lparr>q_Method = ''GET'', q_URL = url, q_ContentType = '''', q_Authorization = '''', q_Body = ''''\<rparr> w of
        (HttpResponse st body, w') \<Rightarrow> (Inr (st, '''', body), w')
      | (HttpUnreadable e, w') \<Rightarrow> (Inl e, w')
      | (HttpError e, w') \<Rightarrow> (Inl e, w'))"

subsection \<open>All readers agree with the server\<close>

lemma upDoc_read: "unmarshalStruct a [(''status'', FStr)] (jsonEncode upDoc @ [CHR 0x0A]) = Some [(''components'', JObj
    [(''db'', JObj [(''status'', JStr ''UP'')]), (''diskSpace'', JObj [(''status'', JStr ''UP'')]), (''ping'', JObj [(''status'', JStr ''UP'')])]), (''status'', JStr ''UP'')]"
proof -
  have "jsonParse (jsonEncode upDoc @ [CHR 0x0A]) = Some upDoc"
    by (rule jsonParse_line) (simp add: upDoc_def Let_def utf8_ascii byte_def)
  then show ?thesis
    by (simp add: unmarshalStruct_def unmarshalValue_def upDoc_def structOK_def memberVals_def toLower_def lowerChar_def byte_def Let_def)
qed

lemma status_up: "fieldStr ((''components'', v) # [(''status'', JStr ''UP'')]) ''status'' = ''UP''"
  by (simp add: fieldStr_def memberVals_def toLower_def lowerChar_def byte_def)

lemma upDoc_length: "length (jsonEncode upDoc @ [CHR 0x0A]) \<le> 200"
  by (simp add: upDoc_def Let_def jsonString_plain plainJson_def byte_def)

lemma health_response:
  "actuatorHealth d = (case pingDB d of
     (Inl _, d') \<Rightarrow> (\<lparr>rs_code = 503, rs_type = ''application/json; charset=utf-8'', rs_body = downBody\<rparr>, d')
   | (Inr _, d') \<Rightarrow> (writeJSON 200 upDoc, d'))"
  by (simp add: actuatorHealth_def andThen_def reply_def split: prod.split sum.split)

lemma health_request:
  assumes "q_Method q = ''GET''" "q_URL q = base @ ''/nacos/actuator/health''"
  shows "se_do (healthEnv a base) q (t, d) =
    (case actuatorHealth d of (resp, d') \<Rightarrow> (HttpResponse (rs_code resp) (rs_body resp), (t, d')))"
  using assms by (simp add: healthEnv_def healthServe_def serverReq_def Let_def)

text \<open>C22. The health endpoint means the same on both sides of the wire: whatever state the database is in, pinging the registry through the client
  succeeds, discovery takes an address for a live registry, and the probe of the container exits with 0, each exactly when the
  server that is asked could reach its database.\<close>

theorem health_seen_by_client:
  assumes "usable c = None" "anonymous (c_cfg c)" "normalizeBaseURL adr \<noteq> ''''"
  shows "(fst (Ping (healthEnv a (c_base c)) (c, (t, d))) = Inr () \<longleftrightarrow> \<not> isl (fst (pingDB d))) \<and>
    (fst (defaultProbe (healthEnv a (normalizeBaseURL adr)) adr (t, d)) = None \<longleftrightarrow> \<not> isl (fst (pingDB d))) \<and>
    (fst (fst (healthcheck (healthGet a (''http://'' @ place)) place (t, d))) = 0 \<longleftrightarrow> \<not> isl (fst (pingDB d)))"
proof -
  define body where "body = jsonEncode upDoc @ [CHR 0x0A]"
  have b: "take bodyLimit body = body" "take probeBodyLimit body = body" using upDoc_length by (simp_all add: body_def bodyLimit_def probeBodyLimit_def)
  obtain kvs where k: "unmarshalStruct a [(''status'', FStr)] body = Some kvs" "fieldStr kvs ''status'' = ''UP''"
    unfolding body_def upDoc_read using status_up by blast
  have r: "writeJSON 200 upDoc = \<lparr>rs_code = 200, rs_type = ''application/json; charset=utf-8'', rs_body = body\<rparr>" by (simp add: writeJSON_def body_def)
  have e: "se_newRequest (healthEnv a base) = (\<lambda>_ _. None)" "se_api (healthEnv a base) = a" for base by (simp_all add: healthEnv_def serverEnv_def)
  have t: "ensureToken (healthEnv a base) (c, s) = (Inr '''', (c, s))" for base s using assms(2) by (simp add: ensureToken_def anonymous_def)
  have up: "equalFold ''UP'' ''UP''" "trimSpace body \<noteq> ''''"
    by (simp_all add: equalFold_def body_def upDoc_def Let_def trimSpace_not_Nil isSpace_def byte_def)
  obtain p d' where p: "pingDB d = (p, d')" by fastforce
  show ?thesis
  proof (intro conjI)
    show "fst (Ping (healthEnv a (c_base c)) (c, (t, d))) = Inr () \<longleftrightarrow> \<not> isl (fst (pingDB d))"
      using assms(1) b k up p
      by (cases p) (auto simp: Ping_def guarded_def kbind_def sendAt_def e t exchange_def apiReqOf_def apiURL_def health_request health_response r Let_def
          split: if_splits)
    show "fst (defaultProbe (healthEnv a (normalizeBaseURL adr)) adr (t, d)) = None \<longleftrightarrow> \<not> isl (fst (pingDB d))"
      using assms(3) b k up p
      by (cases p) (auto simp: defaultProbe_def e health_request health_response r Let_def)
    show "fst (fst (healthcheck (healthGet a (''http://'' @ place)) place (t, d))) = 0 \<longleftrightarrow> \<not> isl (fst (pingDB d))"
      using p by (cases p) (auto simp: healthcheck_def healthGet_def health_request health_response r)
  qed
qed

lemma health_seen_by_client_witness:
  "fst (Ping (healthEnv sdkNapi ''http://r:1'') (NewClient (openCfg ''''), (0, \<lparr>tabs = empty_tables, script = []\<rparr>))) = Inr () \<and>
   fst (Ping (healthEnv sdkNapi ''http://r:1'') (NewClient (openCfg ''''), (0, \<lparr>tabs = empty_tables, script = [Fail]\<rparr>))) \<noteq> Inr () \<and>
   fst (defaultProbe (healthEnv sdkNapi ''http://r:1'') ''r:1'' (0, \<lparr>tabs = empty_tables, script = []\<rparr>)) = None \<and>
   fst (fst (healthcheck (healthGet sdkNapi (''http://'' @ ''r:1'')) ''r:1'' (0, \<lparr>tabs = empty_tables, script = [Fail]\<rparr>))) \<noteq> 0"
proof -
  have b: "c_base (NewClient (openCfg '''')) = ''http://r:1''" "usable (NewClient (openCfg '''')) = None"
    unfolding open_client demo_client by (simp_all add: usable_def demoCfg_def)
  have n: "normalizeBaseURL ''r:1'' = ''http://r:1''" by code_simp
  have p: "\<not> isl (fst (pingDB \<lparr>tabs = empty_tables, script = []\<rparr>))" "isl (fst (pingDB \<lparr>tabs = empty_tables, script = [Fail]\<rparr>))"
    by (simp_all add: pingDB_def query_def stmt_def)
  show ?thesis
    using health_seen_by_client [OF b(2) open_facts(2), of "''r:1''" sdkNapi 0 "\<lparr>tabs = empty_tables, script = []\<rparr>" "''r:1''"]
      health_seen_by_client [OF b(2) open_facts(2), of "''r:1''" sdkNapi 0 "\<lparr>tabs = empty_tables, script = [Fail]\<rparr>" "''r:1''"] p
    unfolding b n by simp
qed

text \<open>The metrics call every registered instance healthy.\<close>

lemma metrics_count_all: "\<exists>x. metricsDoc s i c u = JObj x \<and> map_of x ''healthyInstanceCount'' = map_of x ''instanceCount''"
  by (simp add: metricsDoc_def)

end
