(* ===== verification/Spec2Isabelle.thy ===== *)
theory Spec2Isabelle
  imports LoadBalancer Naming PortPool AppModel GatewayStore RouteTable Policy Static Proxy Gateway
    ConfigStore ConfigOwner Hub ConfigApi Auth NamingApi AppApi GatewayApi SdkService Registrar
    Start Health
begin

text \<open>
  goacos is a service registry and configuration centre that speaks the HTTP interface of Nacos, with a reverse proxy (the gateway)
  built on the registry and a Go client.  This development models the server, the gateway, the client and the tools in HOL and proves what they
  promise.  Definitions keep the names of the source; where a name is taken, a prefix or the type in front of it tells which one it is.

  \<^bold>\<open>The program.\<close>  One process serves two surfaces.  The management API (\<^verbatim>\<open>internal/api\<close>) answers the Nacos endpoints for naming and
  configuration and the endpoints of goacos for applications, routes, certificates and traffic policies; behind it stand the stores
  (\<^verbatim>\<open>internal/storage\<close>, one MySQL or PostgreSQL database), the change hub and the accounts (\<^verbatim>\<open>internal/core\<close>).  The gateway
  (\<^verbatim>\<open>internal/gateway\<close>) rebuilds a routing table from the same database on a timer, answers TLS handshakes from a certificate manager
  and forwards requests to the registered instances.  Services register themselves through the client (\<^verbatim>\<open>sdk/registry\<close>) or through the
  sidecar command (\<^verbatim>\<open>cmd/goacos-registrar\<close>).

  \<^bold>\<open>Foundations.\<close>
  \<^item> \<^verbatim>\<open>Prelude\<close>: errors as values, results, state passing with early returns, 64-bit wrap-around, Go's stable sort, list and map lemmas.
  \<^item> \<^verbatim>\<open>GoStrings\<close>, \<^verbatim>\<open>GoNet\<close>, \<^verbatim>\<open>Json\<close>, \<^verbatim>\<open>Wire\<close>: what the source uses of \<^verbatim>\<open>strings\<close>, \<^verbatim>\<open>strconv\<close>, \<^verbatim>\<open>path\<close>, \<^verbatim>\<open>net\<close>, \<^verbatim>\<open>net/netip\<close>,
    \<^verbatim>\<open>encoding/json\<close> and \<^verbatim>\<open>net/url\<close>, with the round trips of numbers, addresses, JSON documents and queries.
  \<^item> \<^verbatim>\<open>Schema\<close>: the rows and tables of the database and how a statement runs.  A database is its tables and a script of events: each
    statement consumes one event, which lets it run, makes it fail, or first lets another session change the tables.  So every store
    operation is the sequence of its statements, and a theorem over all scripts covers outages and interleavings at every point.
  \<^item> \<^verbatim>\<open>Metadata\<close>: the JSON columns.

  \<^bold>\<open>Server.\<close>
  \<^item> \<^verbatim>\<open>Naming\<close> (\<^verbatim>\<open>namingstore.go\<close>, \<^verbatim>\<open>sweeper.go\<close>): registration, heartbeats, the two sweeps.  The registry refines a map from keys to
    instances, keys stay unique under every script, and a sweep is invisible to a listing of healthy instances.
  \<^item> \<^verbatim>\<open>PortPool\<close>, \<^verbatim>\<open>AppModel\<close>, \<^verbatim>\<open>GatewayStore\<close> (\<^verbatim>\<open>portpool.go\<close>, \<^verbatim>\<open>appstore.go\<close>, \<^verbatim>\<open>gatewaystore.go\<close>): port homogeneity, applications with their
    components and routes, certificates and policies; deletions leave no dangling route.
  \<^item> \<^verbatim>\<open>ConfigStore\<close>, \<^verbatim>\<open>ConfigOwner\<close> (\<^verbatim>\<open>configstore.go\<close>, \<^verbatim>\<open>tenantstore.go\<close>, \<^verbatim>\<open>config_owner.go\<close>, \<^verbatim>\<open>config_facade.go\<close>): publication with history
    and tags, ownership by a database session, transactions; history tracks what is published and a node that lost its session is silent.
  \<^item> \<^verbatim>\<open>Hub\<close> (\<^verbatim>\<open>hub.go\<close>): long polling as a labelled transition relation; no wake-up is lost and the answer is exact.
  \<^item> \<^verbatim>\<open>Auth\<close> (\<^verbatim>\<open>auth.go\<close>, \<^verbatim>\<open>authstore.go\<close>, \<^verbatim>\<open>auth_api.go\<close>, \<^verbatim>\<open>router.go\<close>, \<^verbatim>\<open>Store.Seed\<close>): accounts, tokens, the guard in front of the routes.
  \<^item> \<^verbatim>\<open>ApiCore\<close>, \<^verbatim>\<open>ConfigApi\<close>, \<^verbatim>\<open>NamingApi\<close>, \<^verbatim>\<open>AppApi\<close>, \<^verbatim>\<open>GatewayApi\<close> (\<^verbatim>\<open>internal/api\<close>): requests, envelopes and the handlers.  A publication
    over HTTP is all or nothing and is read back as it was sent; declarations that reach the tables are well formed whatever arrives.
  \<^item> \<^verbatim>\<open>AdminApi\<close> (\<^verbatim>\<open>gateway_v1.go\<close>, \<^verbatim>\<open>certs.go\<close>, \<^verbatim>\<open>gateway.go\<close>, \<^verbatim>\<open>config_v2.go\<close>): the status report, the sorted listings, the background loops as
    sequences of ticks and the body of the version 2 listener.

  \<^bold>\<open>Gateway.\<close>
  \<^item> \<^verbatim>\<open>RouteTable\<close>, \<^verbatim>\<open>LoadBalancer\<close>, \<^verbatim>\<open>Proxy\<close>, \<^verbatim>\<open>Policy\<close>, \<^verbatim>\<open>Static\<close>, \<^verbatim>\<open>Gateway\<close> (\<^verbatim>\<open>routetable.go\<close>, \<^verbatim>\<open>lb.go\<close>, \<^verbatim>\<open>proxy.go\<close>, \<^verbatim>\<open>policy.go\<close>,
    \<^verbatim>\<open>security.go\<close>, \<^verbatim>\<open>static.go\<close>, \<^verbatim>\<open>gateway.go\<close>): the most specific route wins, weighted round robin is fair, failover tries at most
    three upstreams and reaches a live one, static files never leave their directory, and nothing is served to a client the policy
    refuses.
  \<^item> \<^verbatim>\<open>CertDir\<close>, \<^verbatim>\<open>Acme\<close>, \<^verbatim>\<open>Certs\<close> (\<^verbatim>\<open>certdir.go\<close>, \<^verbatim>\<open>acme.go\<close>, \<^verbatim>\<open>selfsigned.go\<close>, \<^verbatim>\<open>certs.go\<close>): every handshake is answered, every declared domain
    gets a certificate, files are published atomically, the authority is asked only about public names and with back-off.

  \<^bold>\<open>Client.\<close>
  \<^item> \<^verbatim>\<open>SdkAddr\<close>, \<^verbatim>\<open>SdkClient\<close> (\<^verbatim>\<open>client.go\<close>): the address to advertise, requests with a cached token and one retry, and the background loop.
    The locale \<^verbatim>\<open>sdk_frame\<close> holds what every call keeps.  The loop ends when it is cancelled, never storms, and no token is used past
    its time.
  \<^item> \<^verbatim>\<open>SdkServer\<close>, \<^verbatim>\<open>SdkService\<close> (\<^verbatim>\<open>app.go\<close>, with the routes of \<^verbatim>\<open>router.go\<close>): the client against the handlers above, from a configuration to
    the rows of the registry and back; two ways in which the halves do not fit.
  \<^item> \<^verbatim>\<open>Announcing\<close>, \<^verbatim>\<open>Registrar\<close> (\<^verbatim>\<open>service.go\<close>, \<^verbatim>\<open>envbool.go\<close>, \<^verbatim>\<open>discover.go\<close>, \<^verbatim>\<open>cmd/goacos-registrar\<close>): configuration from the environment,
    discovery of the registry and the sidecar: no guessed address is published, the first live registry is found, a dead endpoint is
    not registered.

  \<^bold>\<open>Start and tools.\<close>
  \<^item> \<^verbatim>\<open>EnvConfig\<close> (\<^verbatim>\<open>config.go\<close>): every setting from its environment variables.
  \<^item> \<^verbatim>\<open>Migrate\<close>, \<^verbatim>\<open>Boot\<close>, \<^verbatim>\<open>Start\<close> (\<^verbatim>\<open>dialect.go\<close>, \<^verbatim>\<open>migrate.go\<close>, \<^verbatim>\<open>store.go\<close>, \<^verbatim>\<open>app.go\<close>): the two dialects, the splitting of SQL scripts, the ledger of
    migrations, the opening of the store and the start of store, hub and gateway.  Here a database is the log of its statements and the rows of the ledger, with a script of
    outcomes; the rows the seed fills are those of \<^verbatim>\<open>Schema\<close>.  Whatever boots were interrupted where, the ledger is a prefix of the
    migrations and tells the truth.  A server that runs has a complete schema, one pool, the ownership of its configurations and no
    public administrator password; one that failed to start leaves nothing open.
  \<^item> \<^verbatim>\<open>DbCli\<close> (\<^verbatim>\<open>internal/dbcli\<close>): finding, probing, choosing and initialising a database server; the chosen one can be used.
  \<^item> \<^verbatim>\<open>Health\<close> (\<^verbatim>\<open>console_api.go\<close>, \<^verbatim>\<open>naming_v1.go\<close>, \<^verbatim>\<open>main.go\<close>): health, state and metrics endpoints and the commands of the binary; every reader of
    the health endpoint agrees with the server about its database.

  \<^bold>\<open>Interfaces.\<close>  What several operations share is proved once in a locale and interpreted on the model's own definitions:
  \<^verbatim>\<open>strict_weak_order\<close> (\<^verbatim>\<open>Prelude\<close>) for the orders that sort routes, instances and candidates; \<^verbatim>\<open>keyed_rows\<close> and \<^verbatim>\<open>keyed_store\<close> (\<^verbatim>\<open>Schema\<close>) for
  tables written by key and for stores that refine a map; \<^verbatim>\<open>fenced_op\<close> (\<^verbatim>\<open>ConfigOwner\<close>) for operations inside the ownership fence;
  \<^verbatim>\<open>sdk_frame\<close> (\<^verbatim>\<open>SdkClient\<close>) for the calls of the client.

  \<^bold>\<open>Conventions.\<close>  A Go method takes its receiver and returns it changed; a panic is an error value; a nil map or pointer is \<^const>\<open>None\<close>
  where the code distinguishes it.  Maps whose iteration order can be observed come with that order as an argument.  Mutexes make
  methods atomic, so a run is a sequence of calls; goroutines whose interleaving matters (the hub, the database sessions) are steps of a
  relation or events of the script.  SQL compares strings by bytes; case mapping and trimming treat ASCII.  Weights and thresholds are
  rationals instead of \<^verbatim>\<open>float64\<close>, whose reading and printing are arguments.  Code outside the repository is an argument too: MD5, bcrypt, the
  token library, regular expressions, X.509, the ACME client, the file system, \<^verbatim>\<open>httputil.ReverseProxy\<close>, the network and the clock.

  \<^bold>\<open>Loops.\<close>  Loops over data are structural recursion; the remaining ones carry a termination measure, or, where only the outside ends them
  (the client's background loop, the sidecar's wait), they are partial functions into option, with theorems that they return once time
  passes.  No fuel is used.

  \<^bold>\<open>Not modelled.\<close>  Listeners, signals and graceful shutdown; the timers themselves (what they call is modelled, in any order); log and usage
  texts; the embedded web pages; the recovery from panics in the router (a panic is an error value here).
\<close>

end
